(* ===== verification/Prelude.thy ===== *)
theory Prelude
  imports Main "HOL-Library.Word" "HOL-Library.Monad_Syntax"
begin

text \<open>
  Shared vocabulary of the development: the machine integer types, the checked
  and saturating operations of the Rust standard library on them, results with
  an error type and their sequencing, and byte strings with the big- and
  little-endian encodings of words.

  A fixed array \<open>[u8; 32]\<close> or \<open>[u8; 20]\<close> is a \<open>256 word\<close> or a \<open>160 word\<close>: the
  number its bytes denote in big-endian order. Lexicographic comparison of the
  arrays is the order of the words, and the all-zero array is \<open>0\<close>.
  An \<open>i64\<close> is a \<open>64 word\<close> that \<open>sint\<close> reads.
\<close>

section \<open>Types\<close>

type_synonym u8 = "8 word"
type_synonym u16 = "16 word"
type_synonym u32 = "32 word"
type_synonym u64 = "64 word"
type_synonym u128 = "128 word"
type_synonym i64 = "64 word"
type_synonym address = "160 word"
type_synonym bytes32 = "256 word"
type_synonym pubkey = "256 word"
type_synonym bytes = "8 word list"

text \<open>Simplification rules that turn the success of a handler into its guards.\<close>

named_theorems res_simps

section \<open>Results\<close>

definition bind_res :: "'e + 'a \<Rightarrow> ('a \<Rightarrow> 'e + 'b) \<Rightarrow> 'e + 'b" where
  "bind_res m f = (case m of Inl e \<Rightarrow> Inl e | Inr x \<Rightarrow> f x)"

text \<open>Rust's \<open>ok_or\<close> and \<open>map_err\<close>.\<close>

definition ok_or :: "'a option \<Rightarrow> 'e \<Rightarrow> 'e + 'a" where
  "ok_or x e = (case x of None \<Rightarrow> Inl e | Some y \<Rightarrow> Inr y)"

definition map_err :: "('e \<Rightarrow> 'f) \<Rightarrow> 'e + 'a \<Rightarrow> 'f + 'a" where
  "map_err g m = (case m of Inl e \<Rightarrow> Inl (g e) | Inr x \<Rightarrow> Inr x)"

definition is_ok :: "'e + 'a \<Rightarrow> bool" where
  "is_ok m = (case m of Inl e \<Rightarrow> False | Inr x \<Rightarrow> True)"

lemma bind_res_Inl [simp]: "bind_res (Inl e) f = Inl e"
  by (simp add: bind_res_def)

lemma bind_res_Inr [simp]: "bind_res (Inr x) f = f x"
  by (simp add: bind_res_def)

lemma bind_res_eq_Inr [res_simps]:
  "bind_res m f = Inr y \<longleftrightarrow> (\<exists>x. m = Inr x \<and> f x = Inr y)"
  by (cases m) auto

lemma bind_res_eq_Inl:
  "bind_res m f = Inl e \<longleftrightarrow> m = Inl e \<or> (\<exists>x. m = Inr x \<and> f x = Inl e)"
  by (cases m) auto

lemma if_Inl_eq_Inr [res_simps]:
  "(if c then Inl e else r) = Inr y \<longleftrightarrow> \<not> c \<and> r = Inr y"
  by simp

lemma if_Inl_eq_Inr' [res_simps]:
  "(if c then r else Inl e) = Inr y \<longleftrightarrow> c \<and> r = Inr y"
  by simp

lemma ok_or_simps [simp]: "ok_or None e = Inl e" "ok_or (Some x) e = Inr x"
  by (simp_all add: ok_or_def)

lemma ok_or_eq_Inr [res_simps]: "ok_or x e = Inr y \<longleftrightarrow> x = Some y"
  by (cases x) auto

lemma map_err_simps [simp]: "map_err g (Inl e) = Inl (g e)" "map_err g (Inr x) = Inr x"
  by (simp_all add: map_err_def)

lemma map_err_eq_Inr [res_simps]: "map_err g m = Inr y \<longleftrightarrow> m = Inr y"
  by (cases m) auto

lemma is_ok_simps [simp]: "\<not> is_ok (Inl e)" "is_ok (Inr x)"
  by (simp_all add: is_ok_def)

lemma is_ok_iff: "is_ok m \<longleftrightarrow> (\<exists>x. m = Inr x)"
  by (cases m) auto

section \<open>Checked and saturating arithmetic\<close>

definition checked_add :: "'a::len word \<Rightarrow> 'a word \<Rightarrow> 'a word option" where
  "checked_add x y = (if unat x + unat y < 2 ^ LENGTH('a) then Some (x + y) else None)"

definition checked_sub :: "'a::len word \<Rightarrow> 'a word \<Rightarrow> 'a word option" where
  "checked_sub x y = (if y \<le> x then Some (x - y) else None)"

definition checked_mul :: "'a::len word \<Rightarrow> 'a word \<Rightarrow> 'a word option" where
  "checked_mul x y = (if unat x * unat y < 2 ^ LENGTH('a) then Some (x * y) else None)"

definition checked_pow :: "'a::len word \<Rightarrow> nat \<Rightarrow> 'a word option" where
  "checked_pow x n = (if unat x ^ n < 2 ^ LENGTH('a) then Some (x ^ n) else None)"

definition sat_add :: "'a::len word \<Rightarrow> 'a word \<Rightarrow> 'a word" where
  "sat_add x y = (if unat x + unat y < 2 ^ LENGTH('a) then x + y else - 1)"

definition sat_sub :: "'a::len word \<Rightarrow> 'a word \<Rightarrow> 'a word" where
  "sat_sub x y = (if y \<le> x then x - y else 0)"

lemma checked_add_Some: "checked_add x y = Some z \<Longrightarrow> unat z = unat x + unat y"
  by (auto simp: checked_add_def unat_word_ariths split: if_splits)

lemma checked_sub_Some: "checked_sub x y = Some z \<Longrightarrow> unat y \<le> unat x \<and> unat z = unat x - unat y"
  by (auto simp: checked_sub_def word_le_nat_alt unat_sub split: if_splits)

lemma checked_mul_Some: "checked_mul x y = Some z \<Longrightarrow> unat z = unat x * unat y"
  by (auto simp: checked_mul_def unat_word_ariths split: if_splits)

lemma unat_power_less:
  fixes x :: "'a::len word"
  shows "unat x ^ n < 2 ^ LENGTH('a) \<Longrightarrow> unat (x ^ n) = unat x ^ n"
proof (induction n)
  case 0
  then show ?case by simp
next
  case (Suc n)
  show ?case
  proof (cases "unat x = 0")
    case True
    then show ?thesis by (simp add: unat_eq_0)
  next
    case False
    then have "unat x ^ n \<le> unat x ^ Suc n" by simp
    with Suc.prems have "unat x ^ n < 2 ^ LENGTH('a)" by linarith
    with Suc show ?thesis by (simp add: unat_word_ariths)
  qed
qed

lemma checked_pow_Some: "checked_pow x n = Some z \<Longrightarrow> unat z = unat x ^ n"
  by (auto simp: checked_pow_def unat_power_less split: if_splits)

lemma unat_sat_sub: "unat (sat_sub x y) = unat x - unat y"
  by (auto simp: sat_sub_def word_le_nat_alt unat_sub)

text \<open>Signed 64-bit arithmetic: the result is clamped to the range of the type.\<close>

definition i64_max :: int where "i64_max = 2 ^ 63 - 1"
definition i64_min :: int where "i64_min = - (2 ^ 63)"

definition i64_clamp :: "int \<Rightarrow> i64" where
  "i64_clamp n = word_of_int (max i64_min (min i64_max n))"

definition isat_add :: "i64 \<Rightarrow> i64 \<Rightarrow> i64" where
  "isat_add x y = i64_clamp (sint x + sint y)"

definition isat_sub :: "i64 \<Rightarrow> i64 \<Rightarrow> i64" where
  "isat_sub x y = i64_clamp (sint x - sint y)"

definition ichecked_add :: "i64 \<Rightarrow> i64 \<Rightarrow> i64 option" where
  "ichecked_add x y =
     (if i64_min \<le> sint x + sint y \<and> sint x + sint y \<le> i64_max then Some (x + y) else None)"

lemma sint_i64_bounds: "i64_min \<le> sint (x :: i64)" "sint (x :: i64) \<le> i64_max"
  using sint_range_size [of x] by (auto simp: i64_min_def i64_max_def word_size)

lemma sint_word_of_int_i64:
  "i64_min \<le> n \<Longrightarrow> n \<le> i64_max \<Longrightarrow> sint (word_of_int n :: i64) = n"
  by (simp add: sint_sbintrunc' signed_take_bit_int_eq_self i64_min_def i64_max_def)

lemma sint_i64_clamp: "sint (i64_clamp n) = max i64_min (min i64_max n)"
proof -
  have "i64_min \<le> i64_max" by (simp add: i64_min_def i64_max_def)
  then show ?thesis
    unfolding i64_clamp_def by (intro sint_word_of_int_i64) auto
qed

lemma sint_isat_add: "sint (isat_add x y) = max i64_min (min i64_max (sint x + sint y))"
  by (simp add: isat_add_def sint_i64_clamp)

lemma sint_isat_sub: "sint (isat_sub x y) = max i64_min (min i64_max (sint x - sint y))"
  by (simp add: isat_sub_def sint_i64_clamp)

lemma ichecked_add_Some: "ichecked_add x y = Some z \<Longrightarrow> sint z = sint x + sint y"
proof -
  assume *: "ichecked_add x y = Some z"
  then have r: "i64_min \<le> sint x + sint y" "sint x + sint y \<le> i64_max" and z: "z = x + y"
    by (auto simp: ichecked_add_def split: if_splits)
  have "z = word_of_int (sint x + sint y)" by (simp add: z)
  with r show ?thesis by (simp only: sint_word_of_int_i64)
qed

end
