(* ===== verification/Borsh.thy ===== *)
theory Borsh
  imports Prelude
begin

text \<open>
  The Borsh wire format, as far as the programs use it: unsigned integers in
  little-endian order, fixed byte arrays as they are, \<open>bool\<close> and \<open>Option\<close> with a
  one-byte tag, \<open>Vec\<close> with a \<open>u32\<close> length. A serializer returns \<open>None\<close> where
  Borsh reports an error (a vector of \<open>2\<^sup>3\<^sup>2\<close> elements or more). A deserializer
  consumes a prefix of its input and returns the rest.

  The locale \<open>borsh_codec\<close> states the contract between the two directions, which
  every stored account and every instruction of the programs relies on.
\<close>

section \<open>Bytes of a word\<close>

fun le_bytes :: "nat \<Rightarrow> 'a::len word \<Rightarrow> bytes" where
  "le_bytes 0 x = []"
| "le_bytes (Suc n) x = ucast x # le_bytes n (drop_bit 8 x)"

fun of_le :: "bytes \<Rightarrow> 'a::len word" where
  "of_le [] = 0"
| "of_le (b # bs) = or (ucast b) (push_bit 8 (of_le bs))"

definition be_bytes :: "nat \<Rightarrow> 'a::len word \<Rightarrow> bytes" where
  "be_bytes n x = rev (le_bytes n x)"

definition of_be :: "bytes \<Rightarrow> 'a::len word" where
  "of_be bs = of_le (rev bs)"

text \<open>The bytes of a fixed array, and the array a byte string denotes.\<close>

definition arr_bytes :: "'a::len word \<Rightarrow> bytes" where
  "arr_bytes x = be_bytes (LENGTH('a) div 8) x"

section \<open>Serializers\<close>

definition ser_word :: "'a::len word \<Rightarrow> bytes option" where
  "ser_word x = Some (le_bytes (LENGTH('a) div 8) x)"

definition ser_arr :: "'a::len word \<Rightarrow> bytes option" where
  "ser_arr x = Some (arr_bytes x)"

definition ser_bool :: "bool \<Rightarrow> bytes option" where
  "ser_bool b = Some [if b then 1 else 0]"

fun ser_seq :: "bytes option list \<Rightarrow> bytes option" where
  "ser_seq [] = Some []"
| "ser_seq (x # xs) = do { a \<leftarrow> x; b \<leftarrow> ser_seq xs; Some (a @ b) }"

definition ser_vec :: "('a \<Rightarrow> bytes option) \<Rightarrow> 'a list \<Rightarrow> bytes option" where
  "ser_vec f xs =
     (if length xs < 2 ^ 32 then ser_seq (ser_word (of_nat (length xs) :: u32) # map f xs)
      else None)"

definition ser_bytes :: "bytes \<Rightarrow> bytes option" where
  "ser_bytes = ser_vec ser_word"

fun ser_opt :: "('a \<Rightarrow> bytes option) \<Rightarrow> 'a option \<Rightarrow> bytes option" where
  "ser_opt f None = Some [0]"
| "ser_opt f (Some x) = ser_seq [Some [1], f x]"

definition ser_pair :: "('a \<Rightarrow> bytes option) \<Rightarrow> ('b \<Rightarrow> bytes option) \<Rightarrow> 'a \<times> 'b \<Rightarrow> bytes option" where
  "ser_pair f g p = ser_seq [f (fst p), g (snd p)]"

section \<open>Deserializers\<close>

type_synonym 'a parser = "bytes \<Rightarrow> ('a \<times> bytes) option"

definition de_word :: "'a::len word parser" where
  "de_word bs = (let n = LENGTH('a) div 8 in
     if length bs < n then None else Some (of_le (take n bs), drop n bs))"

definition de_arr :: "'a::len word parser" where
  "de_arr bs = (let n = LENGTH('a) div 8 in
     if length bs < n then None else Some (of_be (take n bs), drop n bs))"

fun de_bool :: "bool parser" where
  "de_bool [] = None"
| "de_bool (b # bs) = (if b = 0 then Some (False, bs) else if b = 1 then Some (True, bs) else None)"

fun de_list :: "'a parser \<Rightarrow> nat \<Rightarrow> 'a list parser" where
  "de_list p 0 bs = Some ([], bs)"
| "de_list p (Suc n) bs = do { (x, bs) \<leftarrow> p bs; (xs, bs) \<leftarrow> de_list p n bs; Some (x # xs, bs) }"

definition de_vec :: "'a parser \<Rightarrow> 'a list parser" where
  "de_vec p bs = do { (n, bs) \<leftarrow> de_word bs; de_list p (unat (n :: u32)) bs }"

definition de_bytes :: "bytes parser" where
  "de_bytes = de_vec de_word"

fun de_opt :: "'a parser \<Rightarrow> 'a option parser" where
  "de_opt p [] = None"
| "de_opt p (b # bs) =
     (if b = 0 then Some (None, bs)
      else if b = 1 then do { (x, bs) \<leftarrow> p bs; Some (Some x, bs) }
      else None)"

definition de_pair :: "'a parser \<Rightarrow> 'b parser \<Rightarrow> ('a \<times> 'b) parser" where
  "de_pair p q bs = do { (x, bs) \<leftarrow> p bs; (y, bs) \<leftarrow> q bs; Some ((x, y), bs) }"

text \<open>
  Borsh's \<open>deserialize\<close> ignores what follows the value, \<open>try_from_slice\<close> refuses it.
\<close>

definition deserialize :: "'a parser \<Rightarrow> bytes \<Rightarrow> 'a option" where
  "deserialize p bs = map_option fst (p bs)"

definition try_from_slice :: "'a parser \<Rightarrow> bytes \<Rightarrow> 'a option" where
  "try_from_slice p bs = (case p bs of Some (x, []) \<Rightarrow> Some x | _ \<Rightarrow> None)"

section \<open>Words and bytes\<close>

lemma length_le_bytes [simp]: "length (le_bytes n x) = n"
  by (induction n arbitrary: x) auto

lemma length_be_bytes [simp]: "length (be_bytes n x) = n"
  by (simp add: be_bytes_def)

lemma length_arr_bytes [simp]: "length (arr_bytes (x :: 'a::len word)) = LENGTH('a) div 8"
  by (simp add: arr_bytes_def)

lemma of_le_bytes: "of_le (le_bytes n x) = take_bit (8 * n) (x :: 'a::len word)"
proof (induction n arbitrary: x)
  case 0
  then show ?case by simp
next
  case (Suc n)
  have "of_le (le_bytes (Suc n) x)
      = or (take_bit 8 x) (push_bit 8 (take_bit (8 * n) (drop_bit 8 x)))"
    using Suc by (simp add: unsigned_ucast_eq)
  also have "\<dots> = take_bit (8 * Suc n) x"
    by (rule bit_word_eqI) (auto simp: bit_simps)
  finally show ?case .
qed

lemma of_le_bytes_full: "LENGTH('a) \<le> 8 * n \<Longrightarrow> of_le (le_bytes n x) = (x :: 'a::len word)"
  by (simp add: of_le_bytes take_bit_word_eq_self)

lemma of_be_bytes_full: "LENGTH('a) \<le> 8 * n \<Longrightarrow> of_be (be_bytes n x) = (x :: 'a::len word)"
  by (simp add: of_be_def be_bytes_def of_le_bytes_full)

lemma of_be_arr_bytes: "8 dvd LENGTH('a) \<Longrightarrow> of_be (arr_bytes x) = (x :: 'a::len word)"
  by (simp add: arr_bytes_def of_be_bytes_full)

lemma arr_bytes_inject:
  "8 dvd LENGTH('a) \<Longrightarrow> arr_bytes x = arr_bytes y \<longleftrightarrow> x = (y :: 'a::len word)"
  by (metis of_be_arr_bytes)

lemma of_le_zeros: "of_le (replicate n 0) = 0"
  by (induction n) auto

lemma le_bytes_zero: "le_bytes n 0 = replicate n 0"
  by (induction n) auto

lemma of_le_pad: "of_le (bs @ replicate n 0) = of_le bs"
  by (induction bs) (auto simp: of_le_zeros)

lemma of_le_bytes_cast: "of_le (le_bytes n (x :: 'a::len word)) = (ucast (take_bit (8 * n) x) :: 'b::len word)"
proof (induction n arbitrary: x)
  case (Suc n)
  show ?case
    unfolding le_bytes.simps of_le.simps Suc
    by (rule bit_word_eqI) (auto simp: bit_simps)
qed simp

lemma take_le_bytes: "m \<le> n \<Longrightarrow> take m (le_bytes n x) = le_bytes m x"
proof (induction n arbitrary: m x)
  case (Suc n)
  then show ?case by (cases m) auto
qed simp

lemma bit_of_le: "bit (of_le bs :: 'a::len word) i \<Longrightarrow> i < 8 * length bs"
proof (induction bs arbitrary: i)
  case (Cons b bs)
  have "i < 8 \<or> i - 8 < 8 * length bs"
    using Cons.prems bit_imp_le_length [of b i] by (auto simp: bit_simps dest: Cons.IH)
  then show ?case by auto
qed simp

lemma le_bytes_of_le:
  "8 * length bs \<le> LENGTH('a) \<Longrightarrow> le_bytes (length bs) (of_le bs :: 'a::len word) = bs"
proof (induction bs)
  case (Cons b bs)
  have "ucast (of_le (b # bs) :: 'a word) = b"
    using Cons.prems by (intro bit_word_eqI) (auto simp: bit_simps)
  moreover have "drop_bit 8 (of_le (b # bs) :: 'a word) = of_le bs"
  proof (rule bit_word_eqI)
    fix i
    show "bit (drop_bit 8 (of_le (b # bs) :: 'a word)) i = bit (of_le bs :: 'a word) i"
      using Cons.prems bit_of_le [where 'a = 'a, of bs i] bit_imp_le_length [of b "8 + i"]
      by (auto simp: bit_simps)
  qed
  ultimately show ?case using Cons by simp
qed simp

section \<open>The codec contract\<close>

locale borsh_codec =
  fixes ser :: "'a \<Rightarrow> bytes option"
    and de :: "'a parser"
  assumes de_ser: "ser x = Some bs \<Longrightarrow> de (bs @ r) = Some (x, r)"
begin

lemma de_ser_nil: "ser x = Some bs \<Longrightarrow> de bs = Some (x, [])"
  using de_ser [of x bs "[]"] by simp

lemma ser_prefix_free:
  assumes "ser x = Some a" "ser y = Some b" "a @ r = b @ s"
  shows "x = y \<and> r = s"
  using de_ser [OF assms(1), of r] de_ser [OF assms(2), of s] assms(3) by simp

lemma ser_inject: "ser x = Some a \<Longrightarrow> ser y = Some a \<Longrightarrow> x = y"
  using ser_prefix_free by blast

lemma deserialize_padded: "ser x = Some bs \<Longrightarrow> deserialize de (bs @ pad) = Some x"
  by (simp add: deserialize_def de_ser)

lemma try_from_slice_ser: "ser x = Some bs \<Longrightarrow> try_from_slice de bs = Some x"
  by (simp add: try_from_slice_def de_ser_nil)

lemma de_list_ser:
  "ser_seq (map ser xs) = Some bs \<Longrightarrow> de_list de (length xs) (bs @ r) = Some (xs, r)"
proof (induction xs arbitrary: bs)
  case Nil
  then show ?case by simp
next
  case (Cons x xs)
  then obtain a b where "ser x = Some a" "ser_seq (map ser xs) = Some b" "bs = a @ b"
    by (auto split: bind_splits)
  with Cons.IH show ?case by (simp add: de_ser)
qed

end

lemma ser_seq_Nil [simp]: "ser_seq [] = Some []"
  by simp

lemma ser_seq_Cons_Some:
  "ser_seq (x # xs) = Some bs \<longleftrightarrow> (\<exists>a b. x = Some a \<and> ser_seq xs = Some b \<and> bs = a @ b)"
  by (auto split: bind_splits)

lemma ser_word_codec: "8 dvd LENGTH('a) \<Longrightarrow> borsh_codec (ser_word :: 'a::len word \<Rightarrow> _) de_word"
  by unfold_locales (auto simp: ser_word_def de_word_def Let_def of_le_bytes_full)

lemma ser_arr_codec: "8 dvd LENGTH('a) \<Longrightarrow> borsh_codec (ser_arr :: 'a::len word \<Rightarrow> _) de_arr"
  by unfold_locales (auto simp: ser_arr_def de_arr_def Let_def of_be_arr_bytes)

lemma ser_vec_codec:
  assumes "borsh_codec ser de"
  shows "borsh_codec (ser_vec ser) (de_vec de)"
proof
  fix xs bs r
  assume *: "ser_vec ser xs = Some bs"
  then have n: "length xs < 2 ^ 32" by (simp add: ser_vec_def split: if_splits)
  from * n obtain b where b: "ser_seq (map ser xs) = Some b"
    and bs: "bs = le_bytes 4 (of_nat (length xs) :: u32) @ b"
    by (auto simp: ser_vec_def ser_word_def split: bind_splits)
  have "de_word (bs @ r) = Some (of_nat (length xs) :: u32, b @ r)"
    using borsh_codec.de_ser [OF ser_word_codec, of "of_nat (length xs) :: u32" _ "b @ r"]
    by (simp add: bs ser_word_def)
  moreover have "unat (of_nat (length xs) :: u32) = length xs"
    using n by (simp add: unat_of_nat)
  ultimately show "de_vec de (bs @ r) = Some (xs, r)"
    using borsh_codec.de_list_ser [OF assms b, of r] by (simp add: de_vec_def)
qed

lemma ser_opt_codec:
  assumes "borsh_codec ser de"
  shows "borsh_codec (ser_opt ser) (de_opt de)"
proof
  fix x bs r
  assume "ser_opt ser x = Some bs"
  then show "de_opt de (bs @ r) = Some (x, r)"
    by (cases x) (auto simp: borsh_codec.de_ser [OF assms] split: bind_splits)
qed

lemma ser_pair_codec:
  assumes "borsh_codec f p" "borsh_codec g q"
  shows "borsh_codec (ser_pair f g) (de_pair p q)"
  by unfold_locales
    (auto simp: ser_pair_def de_pair_def borsh_codec.de_ser [OF assms(1)]
       borsh_codec.de_ser [OF assms(2)] split: bind_splits)

interpretation u8c: borsh_codec "ser_word :: u8 \<Rightarrow> _" de_word
  by (rule ser_word_codec) simp

interpretation u16c: borsh_codec "ser_word :: u16 \<Rightarrow> _" de_word
  by (rule ser_word_codec) simp

interpretation u32c: borsh_codec "ser_word :: u32 \<Rightarrow> _" de_word
  by (rule ser_word_codec) simp

interpretation u64c: borsh_codec "ser_word :: u64 \<Rightarrow> _" de_word
  by (rule ser_word_codec) simp

interpretation u128c: borsh_codec "ser_word :: u128 \<Rightarrow> _" de_word
  by (rule ser_word_codec) simp

interpretation addrc: borsh_codec "ser_arr :: address \<Rightarrow> _" de_arr
  by (rule ser_arr_codec) simp

interpretation keyc: borsh_codec "ser_arr :: bytes32 \<Rightarrow> _" de_arr
  by (rule ser_arr_codec) simp

interpretation boolc: borsh_codec ser_bool de_bool
  by unfold_locales (auto simp: ser_bool_def)

interpretation bytesc: borsh_codec ser_bytes de_bytes
  unfolding ser_bytes_def de_bytes_def by (rule ser_vec_codec) (rule u8c.borsh_codec_axioms)

interpretation sigsc: borsh_codec "ser_vec ser_bytes" "de_vec de_bytes"
  by (rule ser_vec_codec) (rule bytesc.borsh_codec_axioms)

interpretation addrsc: borsh_codec "ser_vec (ser_arr :: address \<Rightarrow> _)" "de_vec de_arr"
  by (rule ser_vec_codec) (rule addrc.borsh_codec_axioms)

interpretation noncesc: borsh_codec
  "ser_vec (ser_pair (ser_word :: u64 \<Rightarrow> _) (ser_word :: u64 \<Rightarrow> _))"
  "de_vec (de_pair de_word de_word)"
  by (rule ser_vec_codec, rule ser_pair_codec) (rule u64c.borsh_codec_axioms)+

text \<open>The decoding laws of the leaves, for the codecs of the programs' structs.\<close>

lemmas leaf_codecs =
  u8c.de_ser u16c.de_ser u32c.de_ser u64c.de_ser u128c.de_ser addrc.de_ser keyc.de_ser
  boolc.de_ser bytesc.de_ser sigsc.de_ser addrsc.de_ser noncesc.de_ser

section \<open>Sizes\<close>

lemma length_ser_word [simp]:
  "ser_word (x :: 'a::len word) = Some bs \<Longrightarrow> length bs = LENGTH('a) div 8"
  by (auto simp: ser_word_def)

lemma length_ser_arr [simp]:
  "ser_arr (x :: 'a::len word) = Some bs \<Longrightarrow> length bs = LENGTH('a) div 8"
  by (auto simp: ser_arr_def)

lemma length_ser_bool [simp]: "ser_bool b = Some bs \<Longrightarrow> length bs = 1"
  by (auto simp: ser_bool_def)

lemma length_ser_seq_const:
  assumes "\<And>x b. f x = Some b \<Longrightarrow> length b = k"
  shows "ser_seq (map f xs) = Some bs \<Longrightarrow> length bs = k * length xs"
proof (induction xs arbitrary: bs)
  case Nil
  then show ?case by simp
next
  case (Cons x xs)
  then show ?case by (auto dest: assms split: bind_splits)
qed

lemma length_ser_vec_const:
  assumes "\<And>x b. f x = Some b \<Longrightarrow> length b = k"
    and "ser_vec f xs = Some bs"
  shows "length bs = 4 + k * length xs"
proof -
  from assms(2) obtain b where "ser_seq (map f xs) = Some b"
    and "bs = le_bytes 4 (of_nat (length xs) :: u32) @ b"
    by (auto simp: ser_vec_def ser_word_def split: bind_splits if_splits)
  then show ?thesis by (simp add: length_ser_seq_const [OF assms(1)])
qed

lemma ser_total_seq: "\<forall>x \<in> set xs. f x \<noteq> None \<Longrightarrow> \<exists>bs. ser_seq (map f xs) = Some bs"
proof (induction xs)
  case Nil
  then show ?case by simp
next
  case (Cons x xs)
  then show ?case by auto
qed

lemma ser_vec_total:
  assumes "\<And>x. f x \<noteq> None" and "length xs < 2 ^ 32"
  shows "\<exists>bs. ser_vec f xs = Some bs"
  using ser_total_seq [of xs f] assms by (auto simp: ser_vec_def ser_word_def)

end
