(* ===== verification/Runtime.thy ===== *)
theory Runtime
  imports Borsh
begin

text \<open>
  The Solana runtime as the two on-chain programs see it: accounts, the account
  list of an instruction, errors, and the services of code that is not part of
  the repository. Those services are the fields of \<open>env\<close>, a parameter of every
  definition that uses one: the keccak and secp256k1 syscalls, program-derived
  addresses, the clock and rent sysvars, the decoding of SPL token accounts,
  mints and of the loader's state, and cross-program invocation of the system
  and SPL token programs. What the programs rely on is stated by the predicates
  \<open>owner_rule\<close>, \<open>system_rule\<close>, \<open>token_rule\<close>, \<open>realloc_rule\<close>: documented behaviour of the runtime
  and of the two programs, used as hypotheses.

  An instruction either returns a new world or fails; the runtime discards every
  change of a failed one, so an error carries no world. Two entries of the
  account list with the same key are the same account, as on chain: an entry
  holds only the key and the signer flag, the contents are in the world.
  Textual log lines are not modelled, the events written with \<open>sol_log_data\<close> are.
\<close>

section \<open>Errors\<close>

datatype program_error =
    Custom u32
  | InvalidArgument
  | InvalidInstructionData
  | InvalidAccountData
  | AccountDataTooSmall
  | IncorrectProgramId
  | MissingRequiredSignature
  | AccountAlreadyInitialized
  | NotEnoughAccountKeys
  | InvalidSeeds
  | BorshIoError
  | IllegalOwner
  | ArithmeticOverflow
  | InvalidRealloc
  | Panicked

section \<open>Accounts\<close>

record account =
  lamports :: u64
  acct_owner :: pubkey
  acct_data :: bytes

record account_info =
  ai_key :: pubkey
  is_signer :: bool

record world =
  accts :: "pubkey \<Rightarrow> account"
  logs :: "bytes list list"

abbreviation acct :: "world \<Rightarrow> account_info \<Rightarrow> account" where
  "acct w ai \<equiv> accts w (ai_key ai)"

abbreviation data_of :: "world \<Rightarrow> account_info \<Rightarrow> bytes" where
  "data_of w ai \<equiv> acct_data (acct w ai)"

abbreviation owner_of :: "world \<Rightarrow> account_info \<Rightarrow> pubkey" where
  "owner_of w ai \<equiv> acct_owner (acct w ai)"

definition set_data :: "account_info \<Rightarrow> bytes \<Rightarrow> world \<Rightarrow> world" where
  "set_data ai d w = w\<lparr>accts := (accts w)(ai_key ai := (acct w ai)\<lparr>acct_data := d\<rparr>)\<rparr>"

definition sol_log_data :: "bytes list \<Rightarrow> world \<Rightarrow> world" where
  "sol_log_data fs w = w\<lparr>logs := logs w @ [fs]\<rparr>"

text \<open>\<open>value.serialize(&mut &mut data[..])?\<close>: overwrite a prefix, fail if it does not fit.\<close>

definition write_prefix :: "bytes option \<Rightarrow> account_info \<Rightarrow> world \<Rightarrow> program_error + world" where
  "write_prefix b ai w =
     (case b of
        None \<Rightarrow> Inl BorshIoError
      | Some bs \<Rightarrow>
          if length bs \<le> length (data_of w ai)
          then Inr (set_data ai (bs @ drop (length bs) (data_of w ai)) w)
          else Inl BorshIoError)"

section \<open>Services outside the repository\<close>

datatype cpi_ix =
    SystemTransfer pubkey pubkey u64
  | SystemAllocate pubkey u64
  | SystemAssign pubkey pubkey
  | SplTransfer pubkey pubkey pubkey pubkey u64
  | SplTransferChecked pubkey pubkey pubkey pubkey pubkey u64 u8

record spl_account =
  spl_mint :: pubkey
  spl_owner :: pubkey
  spl_amount :: u64
  spl_delegate :: "pubkey option"
  spl_close_authority :: "pubkey option"

datatype loader_state = ProgramData "pubkey option" | OtherLoaderState

record env =
  keccak :: "bytes \<Rightarrow> bytes32"
  secp256k1_recover :: "bytes32 \<Rightarrow> u8 \<Rightarrow> bytes \<Rightarrow> bytes option"
  find_program_address :: "bytes list \<Rightarrow> pubkey \<Rightarrow> pubkey \<times> u8"
  clock_get :: "program_error + i64"
  rent_minimum_balance :: "nat \<Rightarrow> program_error + u64"
  unpack_account :: "bytes \<Rightarrow> spl_account option"
  unpack_mint :: "bytes \<Rightarrow> u8 option"
  loader_state_of :: "bytes \<Rightarrow> loader_state option"
  realloc_zeroed :: "bytes \<Rightarrow> nat \<Rightarrow> program_error + bytes"
  spl_token_id :: pubkey
  system_program_id :: pubkey
  loader_id :: pubkey
  invoke_program :: "pubkey \<Rightarrow> cpi_ix \<Rightarrow> account_info list \<Rightarrow> bytes list list \<Rightarrow>
    (pubkey \<Rightarrow> account) \<Rightarrow> program_error + (pubkey \<Rightarrow> account)"

abbreviation pda :: "env \<Rightarrow> pubkey \<Rightarrow> bytes list \<Rightarrow> pubkey" where
  "pda E pid seeds \<equiv> fst (find_program_address E seeds pid)"

definition hashv :: "env \<Rightarrow> bytes list \<Rightarrow> bytes32" where
  "hashv E parts = keccak E (concat parts)"

definition invoke_signed ::
  "env \<Rightarrow> pubkey \<Rightarrow> cpi_ix \<Rightarrow> account_info list \<Rightarrow> bytes list list \<Rightarrow> world \<Rightarrow> program_error + world"
where
  "invoke_signed E pid ix infos seeds w =
     bind_res (invoke_program E pid ix infos seeds (accts w)) (\<lambda>a. Inr (w\<lparr>accts := a\<rparr>))"

definition invoke ::
  "env \<Rightarrow> pubkey \<Rightarrow> cpi_ix \<Rightarrow> account_info list \<Rightarrow> world \<Rightarrow> program_error + world"
where
  "invoke E pid ix infos w = invoke_signed E pid ix infos [] w"

section \<open>What the programs rely on\<close>

text \<open>
  Only the program that owns an account changes its data or gives it away: an
  invocation of the system or the token program leaves the accounts of \<open>pid\<close> alone.
\<close>

definition owner_rule :: "env \<Rightarrow> pubkey \<Rightarrow> bool" where
  "owner_rule E pid \<longleftrightarrow>
     (\<forall>ix infos seeds a a' k.
        invoke_program E pid ix infos seeds a = Inr a' \<and> acct_owner (a k) = pid \<longrightarrow>
        acct_owner (a' k) = pid \<and> acct_data (a' k) = acct_data (a k))"

text \<open>
  The system program: a transfer moves lamports only; \<open>allocate\<close> gives a zeroed
  buffer to an account that has none and is not yet assigned; \<open>assign\<close> sets the owner.
\<close>

definition system_rule :: "env \<Rightarrow> pubkey \<Rightarrow> bool" where
  "system_rule E pid \<longleftrightarrow>
     pid \<noteq> system_program_id E \<and>
     (\<forall>f t n infos seeds a a' k.
        invoke_program E pid (SystemTransfer f t n) infos seeds a = Inr a' \<longrightarrow>
        acct_owner (a' k) = acct_owner (a k) \<and> acct_data (a' k) = acct_data (a k)) \<and>
     (\<forall>k n infos seeds a a'.
        invoke_program E pid (SystemAllocate k n) infos seeds a = Inr a' \<longrightarrow>
        acct_owner (a k) = system_program_id E \<and> acct_data (a k) = [] \<and>
        a' = a(k := (a k)\<lparr>acct_data := replicate (unat n) 0\<rparr>)) \<and>
     (\<forall>k p infos seeds a a'.
        invoke_program E pid (SystemAssign k p) infos seeds a = Inr a' \<longrightarrow>
        a' = a(k := (a k)\<lparr>acct_owner := p\<rparr>))"

text \<open>
  The SPL token program, which is not the system program: a transfer needs both
  token accounts to be of one mint
  (of the mint named, for the checked form), touches no other account, keeps mint
  and owner of the two, and moves exactly the amount.
\<close>

definition token_moved :: "env \<Rightarrow> pubkey \<Rightarrow> pubkey \<Rightarrow> u64 \<Rightarrow>
    (pubkey \<Rightarrow> account) \<Rightarrow> (pubkey \<Rightarrow> account) \<Rightarrow> bool" where
  "token_moved E src dst n a a' \<longleftrightarrow>
     (\<forall>k. acct_owner (a' k) = acct_owner (a k)) \<and>
     (\<forall>k. k \<noteq> src \<and> k \<noteq> dst \<longrightarrow> a' k = a k) \<and>
     (\<exists>s d s' d'.
        unpack_account E (acct_data (a src)) = Some s \<and>
        unpack_account E (acct_data (a dst)) = Some d \<and>
        unpack_account E (acct_data (a' src)) = Some s' \<and>
        unpack_account E (acct_data (a' dst)) = Some d' \<and>
        spl_mint s = spl_mint d \<and>
        spl_mint s' = spl_mint s \<and> spl_owner s' = spl_owner s \<and>
        spl_mint d' = spl_mint d \<and> spl_owner d' = spl_owner d \<and>
        unat n \<le> unat (spl_amount s) \<and>
        (if src = dst then spl_amount s' = spl_amount s
         else unat (spl_amount s') = unat (spl_amount s) - unat n \<and>
              unat (spl_amount d') = unat (spl_amount d) + unat n))"

definition token_rule :: "env \<Rightarrow> pubkey \<Rightarrow> bool" where
  "token_rule E pid \<longleftrightarrow>
     pid \<noteq> spl_token_id E \<and> spl_token_id E \<noteq> system_program_id E \<and>
     (\<forall>p src dst auth n infos seeds a a'.
        invoke_program E pid (SplTransfer p src dst auth n) infos seeds a = Inr a' \<longrightarrow>
        token_moved E src dst n a a') \<and>
     (\<forall>p src m dst auth n dec infos seeds a a'.
        invoke_program E pid (SplTransferChecked p src m dst auth n dec) infos seeds a = Inr a' \<longrightarrow>
        token_moved E src dst n a a' \<and>
        (\<exists>s. unpack_account E (acct_data (a src)) = Some s \<and> spl_mint s = m))"

text \<open>Growing an account keeps its contents and appends zeros.\<close>

definition realloc_rule :: "env \<Rightarrow> bool" where
  "realloc_rule E \<longleftrightarrow>
     (\<forall>d n d'. realloc_zeroed E d n = Inr d' \<longrightarrow> d' = take n d @ replicate (n - length d) 0)"

definition runtime_ok :: "env \<Rightarrow> pubkey \<Rightarrow> bool" where
  "runtime_ok E pid \<longleftrightarrow>
     owner_rule E pid \<and> system_rule E pid \<and> token_rule E pid \<and> realloc_rule E"

section \<open>Lemmas\<close>

lemma set_data_accts:
  "accts (set_data ai d w) k =
     (if k = ai_key ai then (accts w k)\<lparr>acct_data := d\<rparr> else accts w k)"
  by (simp add: set_data_def)

lemma set_data_other [simp]: "k \<noteq> ai_key ai \<Longrightarrow> accts (set_data ai d w) k = accts w k"
  by (simp add: set_data_accts)

lemma set_data_owner [simp]: "acct_owner (accts (set_data ai d w) k) = acct_owner (accts w k)"
  by (simp add: set_data_accts)

lemma set_data_same [simp]: "acct_data (accts (set_data ai d w) (ai_key ai)) = d"
  by (simp add: set_data_accts)

lemma set_data_logs [simp]: "logs (set_data ai d w) = logs w"
  by (simp add: set_data_def)

lemma sol_log_data_accts [simp]: "accts (sol_log_data f w) = accts w"
  by (simp add: sol_log_data_def)

lemma sol_log_data_logs [simp]: "logs (sol_log_data f w) = logs w @ [f]"
  by (simp add: sol_log_data_def)

lemma write_prefix_Inr:
  "write_prefix b ai w = Inr w' \<longleftrightarrow>
     (\<exists>bs. b = Some bs \<and> length bs \<le> length (data_of w ai) \<and>
        w' = set_data ai (bs @ drop (length bs) (data_of w ai)) w)"
  by (auto simp: write_prefix_def split: option.splits if_splits)

lemma invoke_signed_Inr:
  "invoke_signed E pid ix infos seeds w = Inr w' \<longleftrightarrow>
     (\<exists>a. invoke_program E pid ix infos seeds (accts w) = Inr a \<and> w' = w\<lparr>accts := a\<rparr>)"
  by (auto simp: invoke_signed_def res_simps)

lemma invoke_signed_logs: "invoke_signed E pid ix infos seeds w = Inr w' \<Longrightarrow> logs w' = logs w"
  by (auto simp: invoke_signed_Inr)

text \<open>An account of the program that holds data stays one, and keeps its length.\<close>

definition keeps_owned :: "pubkey \<Rightarrow> world \<Rightarrow> world \<Rightarrow> bool" where
  "keeps_owned pid w w' \<longleftrightarrow>
     (\<forall>k. acct_owner (accts w k) = pid \<and> acct_data (accts w k) \<noteq> [] \<longrightarrow>
        acct_owner (accts w' k) = pid \<and>
        length (acct_data (accts w k)) \<le> length (acct_data (accts w' k)))"

lemma keeps_owned_refl [simp, intro]: "keeps_owned pid w w"
  by (simp add: keeps_owned_def)

lemma keeps_ownedD:
  assumes "keeps_owned pid w w'" "acct_owner (accts w k) = pid" "acct_data (accts w k) \<noteq> []"
  shows "acct_owner (accts w' k) = pid" "acct_data (accts w' k) \<noteq> []"
    and "length (acct_data (accts w k)) \<le> length (acct_data (accts w' k))"
proof -
  have "acct_owner (accts w' k) = pid \<and>
      length (acct_data (accts w k)) \<le> length (acct_data (accts w' k))"
    using assms by (simp add: keeps_owned_def)
  with assms(3) show "acct_owner (accts w' k) = pid" "acct_data (accts w' k) \<noteq> []"
    "length (acct_data (accts w k)) \<le> length (acct_data (accts w' k))"
    by (auto simp flip: length_greater_0_conv)
qed

lemma keeps_owned_trans:
  assumes "keeps_owned pid u v" "keeps_owned pid v w"
  shows "keeps_owned pid u w"
  unfolding keeps_owned_def
proof (intro allI impI)
  fix k
  assume *: "acct_owner (accts u k) = pid \<and> acct_data (accts u k) \<noteq> []"
  note uv = keeps_ownedD [OF assms(1), of k] and vw = keeps_ownedD [OF assms(2), of k]
  from * uv vw show "acct_owner (accts w k) = pid \<and>
      length (acct_data (accts u k)) \<le> length (acct_data (accts w k))"
    by (meson le_trans)
qed

lemma keeps_owned_set_data:
  "length (data_of w ai) \<le> length d \<Longrightarrow> keeps_owned pid w (set_data ai d w)"
  by (auto simp: keeps_owned_def set_data_accts)

lemma keeps_owned_write_prefix: "write_prefix b ai w = Inr w' \<Longrightarrow> keeps_owned pid w w'"
  by (auto simp: write_prefix_Inr intro: keeps_owned_set_data)

lemma keeps_owned_log [simp]: "keeps_owned pid w (sol_log_data f w)"
  by (simp add: keeps_owned_def)

text \<open>An account of the program that the instruction does not write keeps its contents.\<close>

lemma owned_data_invoke:
  assumes "owner_rule E pid" and "invoke_signed E pid ix infos seeds w = Inr w'"
    and "acct_owner (accts w k) = pid"
  shows "acct_owner (accts w' k) = pid \<and> acct_data (accts w' k) = acct_data (accts w k)"
proof -
  obtain a where a: "invoke_program E pid ix infos seeds (accts w) = Inr a"
    and w': "w' = w\<lparr>accts := a\<rparr>"
    using assms(2) by (auto simp: invoke_signed_Inr)
  have "acct_owner (a k) = pid \<and> acct_data (a k) = acct_data (accts w k)"
    by (rule assms(1) [unfolded owner_rule_def, rule_format]) (use a assms(3) in blast)
  with w' show ?thesis by simp
qed

lemma keeps_owned_invoke:
  assumes "owner_rule E pid" and "invoke_signed E pid ix infos seeds w = Inr w'"
  shows "keeps_owned pid w w'"
  unfolding keeps_owned_def using owned_data_invoke [OF assms] by simp

end
