(* ===== verification/GateTypes.thy ===== *)
theory GateTypes
  imports Runtime
begin

text \<open>
  The data of the Solana gate program (\<open>crates/solana-gate/src/lib.rs\<close>): its
  constants, the instruction arguments, the accounts it stores, its errors, and
  their Borsh encodings. The encodings are instances of \<open>borsh_codec\<close>, and the
  stored accounts have the sizes the program allocates for them.
\<close>

section \<open>Constants\<close>

definition SOLANA_CHAIN_ID :: u64 where "SOLANA_CHAIN_ID = 7565164"
definition SUBMISSION_PREFIX :: u64 where "SUBMISSION_PREFIX = 1"
definition CANCEL_PREFIX :: u64 where "CANCEL_PREFIX = 2"
definition REFUND_PREFIX :: u64 where "REFUND_PREFIX = 3"

definition GOVERNANCE_DELAY :: i64 where "GOVERNANCE_DELAY = 48 * 60 * 60"
definition GOVERNANCE_GRACE :: i64 where "GOVERNANCE_GRACE = 7 * 24 * 60 * 60"
definition SETUP_WINDOW :: i64 where "SETUP_WINDOW = 7 * 24 * 60 * 60"
definition MAX_THRESHOLD :: u32 where "MAX_THRESHOLD = 8"

definition GOVERNANCE_LEN :: nat where "GOVERNANCE_LEN = 8"
definition CONFIG_SLACK :: nat where "CONFIG_SLACK = 64"
definition ASSET_CONFIG_LEN :: nat where "ASSET_CONFIG_LEN = 32 * 3 + 2"
definition LEGACY_ASSET_CONFIG_LEN :: nat where "LEGACY_ASSET_CONFIG_LEN = 32 * 3"
definition ASSET_CONFIG_SLACK :: nat where "ASSET_CONFIG_SLACK = 32"
definition SENT_RECORD_LEN :: nat where "SENT_RECORD_LEN = 32 + 32 + 32 + 32 + 8 + 8"
definition VAULT_BINDING_LEN :: nat where "VAULT_BINDING_LEN = 33"
definition MARKER_LEN :: nat where "MARKER_LEN = 1"
definition MARKER_CLAIMED :: u8 where "MARKER_CLAIMED = 1"
definition MARKER_CANCELLED :: u8 where "MARKER_CANCELLED = 2"
definition SENT_EVENT_VERSION :: u8 where "SENT_EVENT_VERSION = 2"

text \<open>A byte-string literal of the source.\<close>

definition lit :: "string \<Rightarrow> bytes" where
  "lit s = map (\<lambda>c. of_nat (of_char c)) s"

definition ACTION_ID_VERSION :: bytes where "ACTION_ID_VERSION = lit ''gate-governance-v2:''"
definition SENT_EVENT_TAG :: bytes where "SENT_EVENT_TAG = lit ''BRIDGE_SENT''"
definition CANCELLED_EVENT_TAG :: bytes where "CANCELLED_EVENT_TAG = lit ''BRIDGE_CANCELLED''"
definition REFUNDED_EVENT_TAG :: bytes where "REFUNDED_EVENT_TAG = lit ''BRIDGE_REFUNDED''"

section \<open>Instructions\<close>

record auto_params =
  ap_execution_fee :: u128
  ap_flags :: u64
  ap_fallback_address :: bytes
  ap_data :: bytes

record init_args =
  ia_bridge_domain :: bytes32
  ia_validators :: "address list"
  ia_threshold :: u32
  ia_chain_id :: u64
  ia_max_validators :: u32
  ia_max_corridors :: u32
  ia_guardian :: pubkey

record send_args =
  sa_debridge_id :: bytes32
  sa_amount :: u64
  sa_chain_id_to :: u64
  sa_receiver :: bytes
  sa_auto :: "auto_params option"

record claim_args =
  ca_debridge_id :: bytes32
  ca_amount :: u64
  ca_bridge_decimals :: u8
  ca_chain_id_from :: u64
  ca_nonce :: u64
  ca_receiver :: bytes
  ca_auto :: "auto_params option"
  ca_native_sender :: bytes
  ca_signatures :: "bytes list"

text \<open>\<open>CancelArgs\<close> has the fields of \<open>ClaimArgs\<close>, in the same order.\<close>

record cancel_args =
  xa_debridge_id :: bytes32
  xa_amount :: u64
  xa_bridge_decimals :: u8
  xa_chain_id_from :: u64
  xa_nonce :: u64
  xa_receiver :: bytes
  xa_auto :: "auto_params option"
  xa_native_sender :: bytes
  xa_signatures :: "bytes list"

record refund_args =
  ra_debridge_id :: bytes32
  ra_amount :: u64
  ra_bridge_decimals :: u8
  ra_chain_id_to :: u64
  ra_nonce :: u64
  ra_receiver :: bytes
  ra_auto :: "auto_params option"
  ra_native_sender :: bytes
  ra_signatures :: "bytes list"

datatype governance_action =
    ActAddValidator address
  | ActLowerThreshold u32
  | ActRegisterAsset bytes32 u8
  | ActSetGuardian pubkey

datatype gate_instruction =
    Init init_args
  | Send send_args
  | Claim claim_args
  | SetValidator address bool
  | SetThreshold u32
  | RegisterAsset bytes32 u8
  | RegisterCorridor u64
  | Pause
  | Unpause
  | SetGuardian pubkey
  | Cancel cancel_args
  | Refund refund_args
  | ScheduleGovernance bytes32
  | CancelScheduledGovernance bytes32
  | Seal
  | ScheduleAction governance_action

section \<open>Stored accounts\<close>

record config =
  cfg_owner :: pubkey
  bridge_domain :: bytes32
  guardian :: pubkey
  validators :: "address list"
  threshold :: u32
  chain_id :: u64
  paused :: bool
  max_validators :: u32
  max_corridors :: u32
  nonce_to :: "(u64 \<times> u64) list"
  sealed :: bool
  setup_deadline :: i64

record asset_config =
  as_debridge_id :: bytes32
  as_mint :: pubkey
  as_vault :: pubkey
  as_bridge_decimals :: u8
  as_local_decimals :: u8

record sent_record =
  sr_debridge_id :: bytes32
  sr_sender :: pubkey
  sr_source_token :: pubkey
  sr_mint :: pubkey
  sr_amount :: u64
  sr_locked_at :: i64

record vault_binding =
  vb_mint :: pubkey
  vb_bridge_decimals :: u8

record governance_schedule =
  ready_at :: i64

record sent_event =
  ev_version :: u8
  ev_submission_id :: bytes32
  ev_debridge_id :: bytes32
  ev_mint :: bytes32
  ev_amount :: u64
  ev_bridge_decimals :: u8
  ev_chain_id_from :: u64
  ev_chain_id_to :: u64
  ev_nonce :: u64
  ev_receiver :: bytes
  ev_native_sender :: bytes
  ev_auto :: "auto_params option"

record lifecycle_event =
  le_version :: u8
  le_submission_id :: bytes32
  le_debridge_id :: bytes32
  le_chain_id :: u64
  le_nonce :: u64

section \<open>Errors\<close>

datatype gate_error =
    ZeroAmount | BadReceiver | AlreadyExecuted | InvalidSignerOrder | NotEnoughSignatures
  | BadSignature | CorridorNotRegistered | GatePaused | AtCapacity | NotSent | AlreadyClaimed
  | NotCancelled | TooManySignatures | ReceiverNotTokenAccount | AssetAlreadyRegistered
  | ZeroBridgeDomain | GovernanceNotScheduled | GovernanceNotReady | GovernanceExpired
  | DuplicateValidator | ZeroValidator | InexactAmount | InvalidBridgeDecimals | AmountOverflow
  | BridgeScaleMismatch | NotSealed | AlreadySealed | VaultAssetMismatch | ThresholdTooHigh
  | UseTypedSchedule | NotSchedulable

text \<open>\<open>e as u32\<close>: the position of the variant.\<close>

fun gate_error_discr :: "gate_error \<Rightarrow> u32" where
  "gate_error_discr ZeroAmount = 0"
| "gate_error_discr BadReceiver = 1"
| "gate_error_discr AlreadyExecuted = 2"
| "gate_error_discr InvalidSignerOrder = 3"
| "gate_error_discr NotEnoughSignatures = 4"
| "gate_error_discr BadSignature = 5"
| "gate_error_discr CorridorNotRegistered = 6"
| "gate_error_discr GatePaused = 7"
| "gate_error_discr AtCapacity = 8"
| "gate_error_discr NotSent = 9"
| "gate_error_discr AlreadyClaimed = 10"
| "gate_error_discr NotCancelled = 11"
| "gate_error_discr TooManySignatures = 12"
| "gate_error_discr ReceiverNotTokenAccount = 13"
| "gate_error_discr AssetAlreadyRegistered = 14"
| "gate_error_discr ZeroBridgeDomain = 15"
| "gate_error_discr GovernanceNotScheduled = 16"
| "gate_error_discr GovernanceNotReady = 17"
| "gate_error_discr GovernanceExpired = 18"
| "gate_error_discr DuplicateValidator = 19"
| "gate_error_discr ZeroValidator = 20"
| "gate_error_discr InexactAmount = 21"
| "gate_error_discr InvalidBridgeDecimals = 22"
| "gate_error_discr AmountOverflow = 23"
| "gate_error_discr BridgeScaleMismatch = 24"
| "gate_error_discr NotSealed = 25"
| "gate_error_discr AlreadySealed = 26"
| "gate_error_discr VaultAssetMismatch = 27"
| "gate_error_discr ThresholdTooHigh = 28"
| "gate_error_discr UseTypedSchedule = 29"
| "gate_error_discr NotSchedulable = 30"

definition gate_err :: "gate_error \<Rightarrow> program_error" where
  "gate_err e = Custom (gate_error_discr e + 1)"

end
