(* ===== verification/GateCodec.thy ===== *)
theory GateCodec
  imports GateTypes
begin

text \<open>
  Borsh encodings of the gate program's accounts, events and instructions, as the
  derive macros lay them out: the fields in declaration order, an enum as a
  one-byte tag and the fields of the variant. Each pair is an instance of
  \<open>borsh_codec\<close>; the sizes of the stored accounts are the ones the program computes.
\<close>

section \<open>Accounts\<close>

definition ser_config :: "config \<Rightarrow> bytes option" where
  "ser_config c = ser_seq
     [ser_arr (cfg_owner c), ser_arr (bridge_domain c), ser_arr (guardian c),
      ser_vec ser_arr (validators c), ser_word (threshold c), ser_word (chain_id c),
      ser_bool (paused c), ser_word (max_validators c), ser_word (max_corridors c),
      ser_vec (ser_pair ser_word ser_word) (nonce_to c), ser_bool (sealed c),
      ser_word (setup_deadline c)]"

definition de_config :: "config parser" where
  "de_config bs = do {
     (o1, bs) \<leftarrow> de_arr bs; (d, bs) \<leftarrow> de_arr bs; (g, bs) \<leftarrow> de_arr bs;
     (vs, bs) \<leftarrow> de_vec de_arr bs; (th, bs) \<leftarrow> de_word bs; (ci, bs) \<leftarrow> de_word bs;
     (pa, bs) \<leftarrow> de_bool bs; (mv, bs) \<leftarrow> de_word bs; (mc, bs) \<leftarrow> de_word bs;
     (nt, bs) \<leftarrow> de_vec (de_pair de_word de_word) bs; (se, bs) \<leftarrow> de_bool bs;
     (sd, bs) \<leftarrow> de_word bs;
     Some (\<lparr>cfg_owner = o1, bridge_domain = d, guardian = g, validators = vs, threshold = th,
            chain_id = ci, paused = pa, max_validators = mv, max_corridors = mc,
            nonce_to = nt, sealed = se, setup_deadline = sd\<rparr>, bs) }"

definition ser_asset_config :: "asset_config \<Rightarrow> bytes option" where
  "ser_asset_config a = ser_seq
     [ser_arr (as_debridge_id a), ser_arr (as_mint a), ser_arr (as_vault a),
      ser_word (as_bridge_decimals a), ser_word (as_local_decimals a)]"

definition de_asset_config :: "asset_config parser" where
  "de_asset_config bs = do {
     (d, bs) \<leftarrow> de_arr bs; (m, bs) \<leftarrow> de_arr bs; (v, bs) \<leftarrow> de_arr bs;
     (b, bs) \<leftarrow> de_word bs; (l, bs) \<leftarrow> de_word bs;
     Some (\<lparr>as_debridge_id = d, as_mint = m, as_vault = v, as_bridge_decimals = b,
            as_local_decimals = l\<rparr>, bs) }"

definition ser_sent_record :: "sent_record \<Rightarrow> bytes option" where
  "ser_sent_record r = ser_seq
     [ser_arr (sr_debridge_id r), ser_arr (sr_sender r), ser_arr (sr_source_token r),
      ser_arr (sr_mint r), ser_word (sr_amount r), ser_word (sr_locked_at r)]"

definition de_sent_record :: "sent_record parser" where
  "de_sent_record bs = do {
     (d, bs) \<leftarrow> de_arr bs; (s, bs) \<leftarrow> de_arr bs; (t, bs) \<leftarrow> de_arr bs;
     (m, bs) \<leftarrow> de_arr bs; (a, bs) \<leftarrow> de_word bs; (l, bs) \<leftarrow> de_word bs;
     Some (\<lparr>sr_debridge_id = d, sr_sender = s, sr_source_token = t, sr_mint = m,
            sr_amount = a, sr_locked_at = l\<rparr>, bs) }"

definition ser_vault_binding :: "vault_binding \<Rightarrow> bytes option" where
  "ser_vault_binding b = ser_seq [ser_arr (vb_mint b), ser_word (vb_bridge_decimals b)]"

definition de_vault_binding :: "vault_binding parser" where
  "de_vault_binding bs = do {
     (m, bs) \<leftarrow> de_arr bs; (d, bs) \<leftarrow> de_word bs;
     Some (\<lparr>vb_mint = m, vb_bridge_decimals = d\<rparr>, bs) }"

definition ser_schedule :: "governance_schedule \<Rightarrow> bytes option" where
  "ser_schedule s = ser_seq [ser_word (ready_at s)]"

definition de_schedule :: "governance_schedule parser" where
  "de_schedule bs = do { (r, bs) \<leftarrow> de_word bs; Some (\<lparr>ready_at = r\<rparr>, bs) }"

section \<open>Events\<close>

definition ser_auto :: "auto_params \<Rightarrow> bytes option" where
  "ser_auto a = ser_seq
     [ser_word (ap_execution_fee a), ser_word (ap_flags a), ser_bytes (ap_fallback_address a),
      ser_bytes (ap_data a)]"

definition de_auto :: "auto_params parser" where
  "de_auto bs = do {
     (f, bs) \<leftarrow> de_word bs; (g, bs) \<leftarrow> de_word bs; (b, bs) \<leftarrow> de_bytes bs;
     (d, bs) \<leftarrow> de_bytes bs;
     Some (\<lparr>ap_execution_fee = f, ap_flags = g, ap_fallback_address = b, ap_data = d\<rparr>, bs) }"

definition ser_sent_event :: "sent_event \<Rightarrow> bytes option" where
  "ser_sent_event e = ser_seq
     [ser_word (ev_version e), ser_arr (ev_submission_id e), ser_arr (ev_debridge_id e),
      ser_arr (ev_mint e), ser_word (ev_amount e), ser_word (ev_bridge_decimals e),
      ser_word (ev_chain_id_from e), ser_word (ev_chain_id_to e), ser_word (ev_nonce e),
      ser_bytes (ev_receiver e), ser_bytes (ev_native_sender e), ser_opt ser_auto (ev_auto e)]"

definition ser_lifecycle_event :: "lifecycle_event \<Rightarrow> bytes option" where
  "ser_lifecycle_event e = ser_seq
     [ser_word (le_version e), ser_arr (le_submission_id e), ser_arr (le_debridge_id e),
      ser_word (le_chain_id e), ser_word (le_nonce e)]"

section \<open>Instructions\<close>

definition ser_init_args :: "init_args \<Rightarrow> bytes option" where
  "ser_init_args a = ser_seq
     [ser_arr (ia_bridge_domain a), ser_vec ser_arr (ia_validators a), ser_word (ia_threshold a),
      ser_word (ia_chain_id a), ser_word (ia_max_validators a), ser_word (ia_max_corridors a),
      ser_arr (ia_guardian a)]"

definition de_init_args :: "init_args parser" where
  "de_init_args bs = do {
     (d, bs) \<leftarrow> de_arr bs; (vs, bs) \<leftarrow> de_vec de_arr bs; (t, bs) \<leftarrow> de_word bs;
     (c, bs) \<leftarrow> de_word bs; (mv, bs) \<leftarrow> de_word bs; (mc, bs) \<leftarrow> de_word bs; (g, bs) \<leftarrow> de_arr bs;
     Some (\<lparr>ia_bridge_domain = d, ia_validators = vs, ia_threshold = t, ia_chain_id = c,
            ia_max_validators = mv, ia_max_corridors = mc, ia_guardian = g\<rparr>, bs) }"

definition ser_send_args :: "send_args \<Rightarrow> bytes option" where
  "ser_send_args a = ser_seq
     [ser_arr (sa_debridge_id a), ser_word (sa_amount a), ser_word (sa_chain_id_to a),
      ser_bytes (sa_receiver a), ser_opt ser_auto (sa_auto a)]"

definition de_send_args :: "send_args parser" where
  "de_send_args bs = do {
     (d, bs) \<leftarrow> de_arr bs; (a, bs) \<leftarrow> de_word bs; (c, bs) \<leftarrow> de_word bs;
     (r, bs) \<leftarrow> de_bytes bs; (au, bs) \<leftarrow> de_opt de_auto bs;
     Some (\<lparr>sa_debridge_id = d, sa_amount = a, sa_chain_id_to = c, sa_receiver = r,
            sa_auto = au\<rparr>, bs) }"

definition ser_claim_args :: "claim_args \<Rightarrow> bytes option" where
  "ser_claim_args a = ser_seq
     [ser_arr (ca_debridge_id a), ser_word (ca_amount a), ser_word (ca_bridge_decimals a),
      ser_word (ca_chain_id_from a), ser_word (ca_nonce a), ser_bytes (ca_receiver a),
      ser_opt ser_auto (ca_auto a), ser_bytes (ca_native_sender a),
      ser_vec ser_bytes (ca_signatures a)]"

definition de_claim_args :: "claim_args parser" where
  "de_claim_args bs = do {
     (d, bs) \<leftarrow> de_arr bs; (a, bs) \<leftarrow> de_word bs; (b, bs) \<leftarrow> de_word bs; (c, bs) \<leftarrow> de_word bs;
     (n, bs) \<leftarrow> de_word bs; (r, bs) \<leftarrow> de_bytes bs; (au, bs) \<leftarrow> de_opt de_auto bs;
     (ns, bs) \<leftarrow> de_bytes bs; (ss, bs) \<leftarrow> de_vec de_bytes bs;
     Some (\<lparr>ca_debridge_id = d, ca_amount = a, ca_bridge_decimals = b, ca_chain_id_from = c,
            ca_nonce = n, ca_receiver = r, ca_auto = au, ca_native_sender = ns,
            ca_signatures = ss\<rparr>, bs) }"

definition ser_cancel_args :: "cancel_args \<Rightarrow> bytes option" where
  "ser_cancel_args a = ser_seq
     [ser_arr (xa_debridge_id a), ser_word (xa_amount a), ser_word (xa_bridge_decimals a),
      ser_word (xa_chain_id_from a), ser_word (xa_nonce a), ser_bytes (xa_receiver a),
      ser_opt ser_auto (xa_auto a), ser_bytes (xa_native_sender a),
      ser_vec ser_bytes (xa_signatures a)]"

definition de_cancel_args :: "cancel_args parser" where
  "de_cancel_args bs = do {
     (d, bs) \<leftarrow> de_arr bs; (a, bs) \<leftarrow> de_word bs; (b, bs) \<leftarrow> de_word bs; (c, bs) \<leftarrow> de_word bs;
     (n, bs) \<leftarrow> de_word bs; (r, bs) \<leftarrow> de_bytes bs; (au, bs) \<leftarrow> de_opt de_auto bs;
     (ns, bs) \<leftarrow> de_bytes bs; (ss, bs) \<leftarrow> de_vec de_bytes bs;
     Some (\<lparr>xa_debridge_id = d, xa_amount = a, xa_bridge_decimals = b, xa_chain_id_from = c,
            xa_nonce = n, xa_receiver = r, xa_auto = au, xa_native_sender = ns,
            xa_signatures = ss\<rparr>, bs) }"

definition ser_refund_args :: "refund_args \<Rightarrow> bytes option" where
  "ser_refund_args a = ser_seq
     [ser_arr (ra_debridge_id a), ser_word (ra_amount a), ser_word (ra_bridge_decimals a),
      ser_word (ra_chain_id_to a), ser_word (ra_nonce a), ser_bytes (ra_receiver a),
      ser_opt ser_auto (ra_auto a), ser_bytes (ra_native_sender a),
      ser_vec ser_bytes (ra_signatures a)]"

definition de_refund_args :: "refund_args parser" where
  "de_refund_args bs = do {
     (d, bs) \<leftarrow> de_arr bs; (a, bs) \<leftarrow> de_word bs; (b, bs) \<leftarrow> de_word bs; (c, bs) \<leftarrow> de_word bs;
     (n, bs) \<leftarrow> de_word bs; (r, bs) \<leftarrow> de_bytes bs; (au, bs) \<leftarrow> de_opt de_auto bs;
     (ns, bs) \<leftarrow> de_bytes bs; (ss, bs) \<leftarrow> de_vec de_bytes bs;
     Some (\<lparr>ra_debridge_id = d, ra_amount = a, ra_bridge_decimals = b, ra_chain_id_to = c,
            ra_nonce = n, ra_receiver = r, ra_auto = au, ra_native_sender = ns,
            ra_signatures = ss\<rparr>, bs) }"

fun ser_action :: "governance_action \<Rightarrow> bytes option" where
  "ser_action (ActAddValidator v) = ser_seq [Some [0], ser_arr v]"
| "ser_action (ActLowerThreshold t) = ser_seq [Some [1], ser_word t]"
| "ser_action (ActRegisterAsset d b) = ser_seq [Some [2], ser_arr d, ser_word b]"
| "ser_action (ActSetGuardian g) = ser_seq [Some [3], ser_arr g]"

fun de_action :: "governance_action parser" where
  "de_action [] = None"
| "de_action (t # bs) =
     (if t = 0 then do { (v, bs) \<leftarrow> de_arr bs; Some (ActAddValidator v, bs) }
      else if t = 1 then do { (n, bs) \<leftarrow> de_word bs; Some (ActLowerThreshold n, bs) }
      else if t = 2 then
        do { (d, bs) \<leftarrow> de_arr bs; (b, bs) \<leftarrow> de_word bs; Some (ActRegisterAsset d b, bs) }
      else if t = 3 then do { (g, bs) \<leftarrow> de_arr bs; Some (ActSetGuardian g, bs) }
      else None)"

fun ser_instruction :: "gate_instruction \<Rightarrow> bytes option" where
  "ser_instruction (Init a) = ser_seq [Some [0], ser_init_args a]"
| "ser_instruction (Send a) = ser_seq [Some [1], ser_send_args a]"
| "ser_instruction (Claim a) = ser_seq [Some [2], ser_claim_args a]"
| "ser_instruction (SetValidator v b) = ser_seq [Some [3], ser_arr v, ser_bool b]"
| "ser_instruction (SetThreshold t) = ser_seq [Some [4], ser_word t]"
| "ser_instruction (RegisterAsset d b) = ser_seq [Some [5], ser_arr d, ser_word b]"
| "ser_instruction (RegisterCorridor c) = ser_seq [Some [6], ser_word c]"
| "ser_instruction Pause = Some [7]"
| "ser_instruction Unpause = Some [8]"
| "ser_instruction (SetGuardian g) = ser_seq [Some [9], ser_arr g]"
| "ser_instruction (Cancel a) = ser_seq [Some [10], ser_cancel_args a]"
| "ser_instruction (Refund a) = ser_seq [Some [11], ser_refund_args a]"
| "ser_instruction (ScheduleGovernance i) = ser_seq [Some [12], ser_arr i]"
| "ser_instruction (CancelScheduledGovernance i) = ser_seq [Some [13], ser_arr i]"
| "ser_instruction Seal = Some [14]"
| "ser_instruction (ScheduleAction a) = ser_seq [Some [15], ser_action a]"

fun de_instruction :: "gate_instruction parser" where
  "de_instruction [] = None"
| "de_instruction (t # bs) =
     (if t = 0 then do { (a, bs) \<leftarrow> de_init_args bs; Some (Init a, bs) }
      else if t = 1 then do { (a, bs) \<leftarrow> de_send_args bs; Some (Send a, bs) }
      else if t = 2 then do { (a, bs) \<leftarrow> de_claim_args bs; Some (Claim a, bs) }
      else if t = 3 then
        do { (v, bs) \<leftarrow> de_arr bs; (b, bs) \<leftarrow> de_bool bs; Some (SetValidator v b, bs) }
      else if t = 4 then do { (n, bs) \<leftarrow> de_word bs; Some (SetThreshold n, bs) }
      else if t = 5 then
        do { (d, bs) \<leftarrow> de_arr bs; (b, bs) \<leftarrow> de_word bs; Some (RegisterAsset d b, bs) }
      else if t = 6 then do { (c, bs) \<leftarrow> de_word bs; Some (RegisterCorridor c, bs) }
      else if t = 7 then Some (Pause, bs)
      else if t = 8 then Some (Unpause, bs)
      else if t = 9 then do { (g, bs) \<leftarrow> de_arr bs; Some (SetGuardian g, bs) }
      else if t = 10 then do { (a, bs) \<leftarrow> de_cancel_args bs; Some (Cancel a, bs) }
      else if t = 11 then do { (a, bs) \<leftarrow> de_refund_args bs; Some (Refund a, bs) }
      else if t = 12 then do { (i, bs) \<leftarrow> de_arr bs; Some (ScheduleGovernance i, bs) }
      else if t = 13 then do { (i, bs) \<leftarrow> de_arr bs; Some (CancelScheduledGovernance i, bs) }
      else if t = 14 then Some (Seal, bs)
      else if t = 15 then do { (a, bs) \<leftarrow> de_action bs; Some (ScheduleAction a, bs) }
      else None)"

section \<open>The codecs obey the contract\<close>

lemmas ser_struct_simps = ser_seq_Cons_Some ser_seq.simps(1)

interpretation configc: borsh_codec ser_config de_config
  by unfold_locales
    (auto simp: ser_config_def de_config_def ser_struct_simps leaf_codecs simp del: ser_seq.simps(2))

interpretation assetc: borsh_codec ser_asset_config de_asset_config
  by unfold_locales
    (auto simp: ser_asset_config_def de_asset_config_def ser_struct_simps leaf_codecs
       simp del: ser_seq.simps(2))

interpretation sentc: borsh_codec ser_sent_record de_sent_record
  by unfold_locales
    (auto simp: ser_sent_record_def de_sent_record_def ser_struct_simps leaf_codecs
       simp del: ser_seq.simps(2))

interpretation bindc: borsh_codec ser_vault_binding de_vault_binding
  by unfold_locales
    (auto simp: ser_vault_binding_def de_vault_binding_def ser_struct_simps leaf_codecs
       simp del: ser_seq.simps(2))

interpretation schedc: borsh_codec ser_schedule de_schedule
  by unfold_locales
    (auto simp: ser_schedule_def de_schedule_def ser_struct_simps leaf_codecs
       simp del: ser_seq.simps(2))

interpretation autoc: borsh_codec ser_auto de_auto
  by unfold_locales
    (auto simp: ser_auto_def de_auto_def ser_struct_simps leaf_codecs simp del: ser_seq.simps(2))

interpretation autooptc: borsh_codec "ser_opt ser_auto" "de_opt de_auto"
  by (rule ser_opt_codec) (rule autoc.borsh_codec_axioms)

interpretation initc: borsh_codec ser_init_args de_init_args
  by unfold_locales
    (auto simp: ser_init_args_def de_init_args_def ser_struct_simps leaf_codecs
       simp del: ser_seq.simps(2))

interpretation sendc: borsh_codec ser_send_args de_send_args
  by unfold_locales
    (auto simp: ser_send_args_def de_send_args_def ser_struct_simps leaf_codecs autooptc.de_ser
       simp del: ser_seq.simps(2))

interpretation claimc: borsh_codec ser_claim_args de_claim_args
  by unfold_locales
    (auto simp: ser_claim_args_def de_claim_args_def ser_struct_simps leaf_codecs autooptc.de_ser
       simp del: ser_seq.simps(2))

interpretation cancelc: borsh_codec ser_cancel_args de_cancel_args
  by unfold_locales
    (auto simp: ser_cancel_args_def de_cancel_args_def ser_struct_simps leaf_codecs autooptc.de_ser
       simp del: ser_seq.simps(2))

interpretation refundc: borsh_codec ser_refund_args de_refund_args
  by unfold_locales
    (auto simp: ser_refund_args_def de_refund_args_def ser_struct_simps leaf_codecs autooptc.de_ser
       simp del: ser_seq.simps(2))

interpretation actionc: borsh_codec ser_action de_action
proof
  fix x bs r
  assume "ser_action x = Some bs"
  then show "de_action (bs @ r) = Some (x, r)"
    by (cases x) (auto simp: ser_struct_simps leaf_codecs simp del: ser_seq.simps(2))
qed

lemmas struct_codecs =
  initc.de_ser sendc.de_ser claimc.de_ser cancelc.de_ser refundc.de_ser actionc.de_ser

interpretation instrc: borsh_codec ser_instruction de_instruction
proof
  fix x bs r
  assume "ser_instruction x = Some bs"
  then show "de_instruction (bs @ r) = Some (x, r)"
    by (cases x)
      (auto simp: ser_struct_simps leaf_codecs struct_codecs simp del: ser_seq.simps(2))
qed

end
