(* ===== verification/GateHash.thy ===== *)
theory GateHash
  imports GateCodec
begin

text \<open>
  The hashes of the gate program: the submission id with its packed preimage, the
  cancel and refund digests, the digest validators sign, and the ids of the
  governance actions. \<open>keccak\<close> is a service of the runtime. The lemmas show that
  the preimages determine what is hashed: two transfers with one preimage are the
  same transfer, and the preimages of the three signature domains never coincide.
\<close>

section \<open>Definitions\<close>

definition be32 :: "u64 \<Rightarrow> bytes" where
  "be32 v = replicate 24 0 @ be_bytes 8 v"

definition amount_word :: "u64 \<Rightarrow> bytes" where
  "amount_word v = replicate 24 0 @ be_bytes 8 v"

definition submission_base ::
  "bytes32 \<Rightarrow> bytes32 \<Rightarrow> u8 \<Rightarrow> u64 \<Rightarrow> u64 \<Rightarrow> u64 \<Rightarrow> u64 \<Rightarrow> bytes \<Rightarrow> bytes list"
where
  "submission_base domain did bd amount chain_from chain_to nonce receiver =
     [be32 SUBMISSION_PREFIX, arr_bytes domain, arr_bytes did, be32 chain_from, be32 chain_to,
      [bd], amount_word amount, receiver, be32 nonce]"

definition auto_tail :: "env \<Rightarrow> auto_params \<Rightarrow> bytes \<Rightarrow> bytes list" where
  "auto_tail E a native_sender =
     [replicate 16 0 @ be_bytes 16 (ap_execution_fee a), be32 (ap_flags a),
      arr_bytes (hashv E [ap_fallback_address a]), arr_bytes (hashv E [ap_data a]),
      arr_bytes (hashv E [native_sender])]"

definition submission_parts ::
  "env \<Rightarrow> bytes32 \<Rightarrow> bytes32 \<Rightarrow> u8 \<Rightarrow> u64 \<Rightarrow> u64 \<Rightarrow> u64 \<Rightarrow> u64 \<Rightarrow> bytes \<Rightarrow>
   auto_params option \<Rightarrow> bytes \<Rightarrow> bytes list"
where
  "submission_parts E domain did bd amount chain_from chain_to nonce receiver auto native_sender =
     submission_base domain did bd amount chain_from chain_to nonce receiver @
     (case auto of None \<Rightarrow> [] | Some a \<Rightarrow> auto_tail E a native_sender)"

definition submission_id ::
  "env \<Rightarrow> bytes32 \<Rightarrow> bytes32 \<Rightarrow> u8 \<Rightarrow> u64 \<Rightarrow> u64 \<Rightarrow> u64 \<Rightarrow> u64 \<Rightarrow> bytes \<Rightarrow>
   auto_params option \<Rightarrow> bytes \<Rightarrow> bytes32"
where
  "submission_id E domain did bd amount chain_from chain_to nonce receiver auto native_sender =
     hashv E (submission_parts E domain did bd amount chain_from chain_to nonce receiver auto
       native_sender)"

definition cancel_id :: "env \<Rightarrow> bytes32 \<Rightarrow> bytes32" where
  "cancel_id E sid = hashv E [be32 CANCEL_PREFIX, arr_bytes sid]"

definition refund_id :: "env \<Rightarrow> bytes32 \<Rightarrow> bytes32" where
  "refund_id E sid = hashv E [be32 REFUND_PREFIX, arr_bytes sid]"

text \<open>The literal \<open>"\x19Ethereum Signed Message:\n32"\<close>.\<close>

definition eth_prefix :: bytes where
  "eth_prefix = 25 # lit ''Ethereum Signed Message:'' @ 10 # lit ''32''"

definition eth_signed_digest :: "env \<Rightarrow> bytes32 \<Rightarrow> bytes32" where
  "eth_signed_digest E i = hashv E [eth_prefix, arr_bytes i]"

definition add_validator_action_id :: "env \<Rightarrow> address \<Rightarrow> bytes32" where
  "add_validator_action_id E v = hashv E [ACTION_ID_VERSION, lit ''addValidator'', arr_bytes v]"

definition set_guardian_action_id :: "env \<Rightarrow> pubkey \<Rightarrow> bytes32" where
  "set_guardian_action_id E g = hashv E [ACTION_ID_VERSION, lit ''setGuardian'', arr_bytes g]"

definition lower_threshold_action_id :: "env \<Rightarrow> u32 \<Rightarrow> bytes32" where
  "lower_threshold_action_id E t =
     hashv E [ACTION_ID_VERSION, lit ''lowerThreshold'', be32 (ucast t)]"

definition register_asset_action_id :: "env \<Rightarrow> bytes32 \<Rightarrow> pubkey \<Rightarrow> pubkey \<Rightarrow> u8 \<Rightarrow> bytes32" where
  "register_asset_action_id E did mint vault bd =
     hashv E [ACTION_ID_VERSION, lit ''registerAsset'', arr_bytes did, arr_bytes mint,
       arr_bytes vault, [bd]]"

section \<open>Preimages\<close>

lemma length_be32 [simp]: "length (be32 v) = 32"
  by (simp add: be32_def)

lemma length_amount_word [simp]: "length (amount_word v) = 32"
  by (simp add: amount_word_def)

lemma be_bytes_inject:
  "LENGTH('a) \<le> 8 * n \<Longrightarrow> be_bytes n x = be_bytes n y \<longleftrightarrow> x = (y :: 'a::len word)"
  by (metis of_be_bytes_full)

lemma be32_inject [simp]: "be32 x = be32 y \<longleftrightarrow> x = y"
  by (simp add: be32_def be_bytes_inject)

lemma amount_word_inject [simp]: "amount_word x = amount_word y \<longleftrightarrow> x = y"
  by (simp add: amount_word_def be_bytes_inject)

lemma arr_bytes_inject_256 [simp]: "arr_bytes x = arr_bytes y \<longleftrightarrow> x = (y :: bytes32)"
  by (simp add: arr_bytes_inject)

lemma arr_bytes_inject_160 [simp]: "arr_bytes x = arr_bytes y \<longleftrightarrow> x = (y :: address)"
  by (simp add: arr_bytes_inject)

lemma length_submission_base:
  "length (concat (submission_base domain did bd amount cf ct nonce receiver)) =
     225 + length receiver"
  by (simp add: submission_base_def)

lemma length_auto_tail: "length (concat (auto_tail E a ns)) = 160"
  by (simp add: auto_tail_def)

text \<open>The base determines every field, because the fields around the receiver are fixed-width.\<close>

lemma submission_base_inject:
  assumes "concat (submission_base dmn did bd amt cf ct nonce r) @ tail1 =
           concat (submission_base dmn' did' bd' amt' cf' ct' nonce' r') @ tail2"
    and "length r = length r'"
  shows "dmn = dmn' \<and> did = did' \<and> bd = bd' \<and> amt = amt' \<and> cf = cf' \<and> ct = ct' \<and>
    nonce = nonce' \<and> r = r' \<and> tail1 = tail2"
  using assms by (simp add: submission_base_def)

lemma auto_tail_inject:
  assumes "concat (auto_tail E a ns) = concat (auto_tail E a' ns')"
  shows "ap_execution_fee a = ap_execution_fee a' \<and> ap_flags a = ap_flags a' \<and>
    hashv E [ap_fallback_address a] = hashv E [ap_fallback_address a'] \<and>
    hashv E [ap_data a] = hashv E [ap_data a'] \<and> hashv E [ns] = hashv E [ns']"
  using assms by (simp add: auto_tail_def be_bytes_inject)

text \<open>
  The widths a gate accepts for a receiver, 20 and 32 bytes, and the fixed length of
  the execution tail keep plain transfers and transfers with a payload apart.
\<close>

definition receiver_width_ok :: "bytes \<Rightarrow> bool" where
  "receiver_width_ok r \<longleftrightarrow> length r = 20 \<or> length r = 32"

text \<open>The strings a transfer feeds to the hash, apart from its own preimage.\<close>

definition auto_inputs :: "auto_params option \<Rightarrow> bytes \<Rightarrow> bytes set" where
  "auto_inputs auto ns =
     (case auto of None \<Rightarrow> {} | Some a \<Rightarrow> {ap_fallback_address a, ap_data a, ns})"

lemma submission_parts_inject:
  assumes eq: "concat (submission_parts E dmn did bd amt cf ct nonce r auto ns) =
      concat (submission_parts E dmn' did' bd' amt' cf' ct' nonce' r' auto' ns')"
    and w: "receiver_width_ok r" "receiver_width_ok r'"
    and inj: "inj_on (keccak E) (auto_inputs auto ns \<union> auto_inputs auto' ns')"
  shows "dmn = dmn' \<and> did = did' \<and> bd = bd' \<and> amt = amt' \<and> cf = cf' \<and> ct = ct' \<and>
    nonce = nonce' \<and> r = r' \<and> auto = auto' \<and> (auto \<noteq> None \<longrightarrow> ns = ns')"
proof -
  define tl1 where "tl1 = concat (case auto of None \<Rightarrow> [] | Some a \<Rightarrow> auto_tail E a ns)"
  define tl2 where "tl2 = concat (case auto' of None \<Rightarrow> [] | Some a \<Rightarrow> auto_tail E a ns')"
  have e: "concat (submission_base dmn did bd amt cf ct nonce r) @ tl1 =
      concat (submission_base dmn' did' bd' amt' cf' ct' nonce' r') @ tl2"
    using eq by (simp add: submission_parts_def tl1_def tl2_def)
  have l1: "length tl1 = (if auto = None then 0 else 160)"
    and l2: "length tl2 = (if auto' = None then 0 else 160)"
    by (auto simp: tl1_def tl2_def length_auto_tail split: option.splits)
  have "225 + length r + length tl1 = 225 + length r' + length tl2"
    using arg_cong [OF e, of length] by (simp add: length_submission_base)
  with w l1 l2 have lr: "length r = length r'" and aa: "auto = None \<longleftrightarrow> auto' = None"
    by (auto simp: receiver_width_ok_def split: if_splits)
  note base = submission_base_inject [OF e lr]
  have "auto = auto' \<and> (auto \<noteq> None \<longrightarrow> ns = ns')"
  proof (cases auto)
    case None
    with aa show ?thesis by simp
  next
    case (Some a)
    with aa obtain a' where a': "auto' = Some a'" by auto
    have "concat (auto_tail E a ns) = concat (auto_tail E a' ns')"
      using base by (simp add: tl1_def tl2_def Some a')
    note t = auto_tail_inject [OF this]
    from inj have "inj_on (keccak E)
        {ap_fallback_address a, ap_data a, ns, ap_fallback_address a', ap_data a', ns'}"
      by (rule inj_on_subset) (auto simp: auto_inputs_def Some a')
    with t have "ap_fallback_address a = ap_fallback_address a'" "ap_data a = ap_data a'" "ns = ns'"
      by (simp_all add: hashv_def inj_on_eq_iff)
    moreover have "a = a'" if "ap_fallback_address a = ap_fallback_address a'" "ap_data a = ap_data a'"
      using that t by (cases a, cases a') simp
    ultimately show ?thesis by (simp add: Some a')
  qed
  with base show ?thesis by blast
qed

section \<open>Signature domains\<close>

lemma prefix_values [simp]:
  "SUBMISSION_PREFIX \<noteq> CANCEL_PREFIX" "SUBMISSION_PREFIX \<noteq> REFUND_PREFIX"
  "CANCEL_PREFIX \<noteq> REFUND_PREFIX" "REFUND_PREFIX \<noteq> CANCEL_PREFIX"
  by (simp_all add: SUBMISSION_PREFIX_def CANCEL_PREFIX_def REFUND_PREFIX_def)

lemma submission_preimage_not_cancel:
  "concat (submission_parts E dmn did bd amt cf ct nonce r auto ns) \<noteq>
   concat [be32 CANCEL_PREFIX, arr_bytes x]"
  by (simp add: submission_parts_def submission_base_def)

lemma submission_preimage_not_refund:
  "concat (submission_parts E dmn did bd amt cf ct nonce r auto ns) \<noteq>
   concat [be32 REFUND_PREFIX, arr_bytes x]"
  by (simp add: submission_parts_def submission_base_def)

lemma cancel_preimage_not_refund:
  "concat [be32 CANCEL_PREFIX, arr_bytes (x :: bytes32)] \<noteq>
   concat [be32 REFUND_PREFIX, arr_bytes (y :: bytes32)]"
  by simp

text \<open>The strings that the id of a transfer hashes.\<close>

definition id_inputs ::
  "env \<Rightarrow> bytes32 \<Rightarrow> bytes32 \<Rightarrow> u8 \<Rightarrow> u64 \<Rightarrow> u64 \<Rightarrow> u64 \<Rightarrow> u64 \<Rightarrow> bytes \<Rightarrow> auto_params option \<Rightarrow> bytes \<Rightarrow>
   bytes set" where
  "id_inputs E dmn did bd amt cf ct nonce r auto ns =
     insert (concat (submission_parts E dmn did bd amt cf ct nonce r auto ns)) (auto_inputs auto ns)"

lemma submission_id_inject:
  assumes "submission_id E dmn did bd amt cf ct nonce r auto ns =
      submission_id E dmn' did' bd' amt' cf' ct' nonce' r' auto' ns'"
    and "receiver_width_ok r" "receiver_width_ok r'"
    and "inj_on (keccak E) (id_inputs E dmn did bd amt cf ct nonce r auto ns \<union>
      id_inputs E dmn' did' bd' amt' cf' ct' nonce' r' auto' ns')"
  shows "dmn = dmn' \<and> did = did' \<and> bd = bd' \<and> amt = amt' \<and> cf = cf' \<and> ct = ct' \<and>
    nonce = nonce' \<and> r = r' \<and> auto = auto' \<and> (auto \<noteq> None \<longrightarrow> ns = ns')"
proof -
  have "keccak E (concat (submission_parts E dmn did bd amt cf ct nonce r auto ns)) =
      keccak E (concat (submission_parts E dmn' did' bd' amt' cf' ct' nonce' r' auto' ns'))"
    using assms(1) unfolding submission_id_def hashv_def .
  from inj_onD [OF assms(4) this]
  have e: "concat (submission_parts E dmn did bd amt cf ct nonce r auto ns) =
      concat (submission_parts E dmn' did' bd' amt' cf' ct' nonce' r' auto' ns')" by (simp add: id_inputs_def)
  have "inj_on (keccak E) (auto_inputs auto ns \<union> auto_inputs auto' ns')"
    using assms(4) by (rule inj_on_subset) (auto simp: id_inputs_def)
  then show ?thesis by (rule submission_parts_inject [OF e assms(2,3)])
qed

end
