(* ===== verification/GateVerify.thy ===== *)
theory GateVerify
  imports GateHash
begin

text \<open>
  Signature verification of the gate program. \<open>verify_threshold\<close> walks the
  signatures once, keeping the last recovered signer and a count; the
  specification \<open>quorum\<close> speaks of a set of distinct validators instead. The loop
  is equivalent to a condition on the list of recovered signers, and implies and
  is implied by the existence of a quorum.
\<close>

section \<open>Definitions\<close>

definition is_validator :: "config \<Rightarrow> address \<Rightarrow> bool" where
  "is_validator cfg a = list_ex (\<lambda>v. v = a) (validators cfg)"

definition recover_evm_address :: "env \<Rightarrow> bytes32 \<Rightarrow> bytes \<Rightarrow> gate_error + address" where
  "recover_evm_address E digest sig65 =
     (if length sig65 \<noteq> 65 then Inl BadSignature
      else let v = sig65 ! 64 in
        if v \<noteq> 27 \<and> v \<noteq> 28 then Inl BadSignature
        else case secp256k1_recover E digest (v - 27) (take 64 sig65) of
            None \<Rightarrow> Inl BadSignature
          | Some pubkey \<Rightarrow> Inr (of_be (drop 12 (arr_bytes (hashv E [pubkey])))))"

text \<open>
  One step of the loop per signature. The count cannot wrap: there are at most as
  many signatures as validators, and the length of a stored vector fits a \<open>u32\<close>.
\<close>

fun verify_loop :: "env \<Rightarrow> config \<Rightarrow> bytes32 \<Rightarrow> address \<Rightarrow> u32 \<Rightarrow> bytes list \<Rightarrow> gate_error + u32" where
  "verify_loop E cfg digest lst count [] = Inr count"
| "verify_loop E cfg digest lst count (sig # sigs) =
     bind_res (recover_evm_address E digest sig) (\<lambda>signer.
     if signer \<le> lst then Inl InvalidSignerOrder
     else verify_loop E cfg digest signer
            (if is_validator cfg signer then count + 1 else count) sigs)"

definition verify_threshold :: "env \<Rightarrow> config \<Rightarrow> bytes32 \<Rightarrow> bytes list \<Rightarrow> gate_error + unit" where
  "verify_threshold E cfg i signatures =
     (if length signatures > length (validators cfg) then Inl TooManySignatures
      else bind_res (verify_loop E cfg (eth_signed_digest E i) 0 0 signatures) (\<lambda>count.
        if count < threshold cfg then Inl NotEnoughSignatures else Inr ()))"

section \<open>Specification\<close>

text \<open>
  A quorum for an id: at least \<open>threshold\<close> distinct validators of the configuration,
  each of whom is the signer of one of the signatures over the digest of the id.
\<close>

definition quorum :: "env \<Rightarrow> config \<Rightarrow> bytes32 \<Rightarrow> bytes list \<Rightarrow> bool" where
  "quorum E cfg i sigs \<longleftrightarrow>
     (\<exists>S. S \<subseteq> set (validators cfg) \<and> unat (threshold cfg) \<le> card S \<and>
        (\<forall>v \<in> S. \<exists>sig \<in> set sigs. recover_evm_address E (eth_signed_digest E i) sig = Inr v))"

section \<open>Correctness\<close>

lemma is_validator_iff: "is_validator cfg a \<longleftrightarrow> a \<in> set (validators cfg)"
  by (simp add: is_validator_def list_ex_iff)

lemma verify_loop_iff:
  "verify_loop E cfg digest lst count sigs = Inr n \<longleftrightarrow>
     (\<exists>signers. map (recover_evm_address E digest) sigs = map Inr signers \<and>
        sorted_wrt (<) (lst # signers) \<and>
        n = count + of_nat (length (filter (is_validator cfg) signers)))"
proof (induction sigs arbitrary: lst count)
  case Nil
  then show ?case by auto
next
  case (Cons sig sigs)
  show ?case
  proof (cases "recover_evm_address E digest sig")
    case (Inl e)
    then show ?thesis by (auto simp: Cons_eq_map_conv)
  next
    case (Inr s)
    have "verify_loop E cfg digest lst count (sig # sigs) = Inr n \<longleftrightarrow>
        lst < s \<and> (\<exists>signers. map (recover_evm_address E digest) sigs = map Inr signers \<and>
          sorted_wrt (<) (s # signers) \<and>
          n = (if is_validator cfg s then count + 1 else count)
            + of_nat (length (filter (is_validator cfg) signers)))"
    proof (cases "lst < s")
      case True
      then have "\<not> s \<le> lst" by simp
      with True show ?thesis by (simp add: Inr Cons.IH)
    next
      case False
      then have "s \<le> lst" by simp
      with False show ?thesis by (simp add: Inr)
    qed
    also have "\<dots> \<longleftrightarrow> (\<exists>signers. map (recover_evm_address E digest) (sig # sigs) = map Inr signers \<and>
        sorted_wrt (<) (lst # signers) \<and>
        n = count + of_nat (length (filter (is_validator cfg) signers)))"
      (is "?L \<longleftrightarrow> ?R")
    proof
      assume ?L
      then obtain signers where "lst < s" "map (recover_evm_address E digest) sigs = map Inr signers"
        "sorted_wrt (<) (s # signers)"
        "n = (if is_validator cfg s then count + 1 else count)
            + of_nat (length (filter (is_validator cfg) signers))"
        by blast
      then show ?R using Inr by (intro exI [of _ "s # signers"]) auto
    next
      assume ?R
      then obtain signers where *: "map (recover_evm_address E digest) (sig # sigs) = map Inr signers"
        "sorted_wrt (<) (lst # signers)"
        "n = count + of_nat (length (filter (is_validator cfg) signers))"
        by blast
      from *(1) Inr obtain ss where "signers = s # ss"
        and "map (recover_evm_address E digest) sigs = map Inr ss"
        by (auto simp: Cons_eq_map_conv)
      with * show ?L by (auto simp: algebra_simps)
    qed
    finally show ?thesis .
  qed
qed

text \<open>What the loop establishes, without its accumulator.\<close>

lemma verify_threshold_iff:
  assumes "length (validators cfg) < 2 ^ 32"
  shows "verify_threshold E cfg i sigs = Inr () \<longleftrightarrow>
     length sigs \<le> length (validators cfg) \<and>
     (\<exists>signers. map (recover_evm_address E (eth_signed_digest E i)) sigs = map Inr signers \<and>
        sorted_wrt (<) (0 # signers) \<and>
        unat (threshold cfg) \<le> length (filter (is_validator cfg) signers))"
proof -
  have small: "unat (of_nat (length (filter (is_validator cfg) signers)) :: u32) =
      length (filter (is_validator cfg) signers)"
    if "length sigs \<le> length (validators cfg)"
      and "map (recover_evm_address E (eth_signed_digest E i)) sigs = map Inr signers"
    for signers
  proof -
    have "length signers = length sigs" using that(2) by (metis length_map)
    then have "length (filter (is_validator cfg) signers) < 2 ^ 32"
      using that(1) assms length_filter_le [of "is_validator cfg" signers] by linarith
    then show ?thesis by (simp add: unat_of_nat)
  qed
  show ?thesis
    unfolding verify_threshold_def
    by (auto simp: res_simps verify_loop_iff not_less word_le_nat_alt small not_le)
qed

lemma sorted_wrt_less_distinct: "sorted_wrt (<) (xs :: 'a::order list) \<Longrightarrow> distinct xs"
  by (induction xs) auto

lemma verify_threshold_quorum:
  assumes "length (validators cfg) < 2 ^ 32"
    and "verify_threshold E cfg i sigs = Inr ()"
  shows "quorum E cfg i sigs"
proof -
  let ?rec = "recover_evm_address E (eth_signed_digest E i)"
  obtain signers where m: "map ?rec sigs = map Inr signers"
    and s: "sorted_wrt (<) (0 # signers)"
    and t: "unat (threshold cfg) \<le> length (filter (is_validator cfg) signers)"
    using assms(2) by (auto simp: verify_threshold_iff [OF assms(1)])
  let ?S = "set (filter (is_validator cfg) signers)"
  have "distinct (filter (is_validator cfg) signers)"
    using s sorted_wrt_less_distinct [of signers] by simp
  then have c: "unat (threshold cfg) \<le> card ?S"
    using t by (metis distinct_card)
  have "\<exists>sig \<in> set sigs. ?rec sig = Inr v" if "v \<in> ?S" for v
  proof -
    from that have "Inr v \<in> set (map ?rec sigs)" by (simp add: m)
    then show ?thesis by auto
  qed
  with c show ?thesis
    unfolding quorum_def by (intro exI [of _ ?S]) (auto simp: is_validator_iff)
qed

text \<open>
  Completeness: signatures of distinct non-zero validators, in ascending order of
  the signers, are accepted as soon as there are enough of them.
\<close>

lemma verify_threshold_complete:
  assumes "length (validators cfg) < 2 ^ 32"
    and "map (recover_evm_address E (eth_signed_digest E i)) sigs = map Inr signers"
    and "sorted_wrt (<) signers" and "0 \<notin> set signers"
    and "set signers \<subseteq> set (validators cfg)"
    and "unat (threshold cfg) \<le> length signers"
  shows "verify_threshold E cfg i sigs = Inr ()"
proof -
  have "length sigs = length signers" using assms(2) by (metis length_map)
  also have "\<dots> = card (set signers)"
    using sorted_wrt_less_distinct [OF assms(3)] by (simp add: distinct_card)
  also have "\<dots> \<le> card (set (validators cfg))" by (simp add: assms(5) card_mono)
  also have "\<dots> \<le> length (validators cfg)" by (rule card_length)
  finally have "length sigs \<le> length (validators cfg)" .
  moreover have "\<forall>x \<in> set signers. 0 < x"
    using assms(4) by (metis word_neq_0_conv)
  moreover have "filter (is_validator cfg) signers = signers"
    using assms(5) by (auto simp: filter_id_conv is_validator_iff)
  ultimately show ?thesis
    using assms by (auto simp: verify_threshold_iff)
qed

end
