(* ===== verification/GateRules.thy ===== *)
theory GateRules
  imports GateVerify
begin

text \<open>
  The pure rules of the gate program, which its handlers consult: the setup phase
  and the governance timelock, the configuration's corridors and size, the decimal
  conversion of an asset, the write-once rules of the asset and vault registries,
  the checks on the validator set and on accounts. No rule here changes state.
\<close>

section \<open>Governance timelock\<close>

definition in_setup_phase :: "bool \<Rightarrow> i64 \<Rightarrow> i64 \<Rightarrow> bool" where
  "in_setup_phase seal deadline now \<longleftrightarrow> \<not> seal \<and> deadline \<noteq> 0 \<and> sint now \<le> sint deadline"

definition guardian_change_needs_schedule :: "bool \<Rightarrow> i64 \<Rightarrow> i64 \<Rightarrow> pubkey \<Rightarrow> bool" where
  "guardian_change_needs_schedule seal deadline now current \<longleftrightarrow>
     \<not> in_setup_phase seal deadline now \<and> current \<noteq> 0"

definition governance_consumable :: "i64 \<Rightarrow> i64 \<Rightarrow> gate_error + unit" where
  "governance_consumable ready now =
     (if ready = 0 then Inl GovernanceNotScheduled
      else if sint now < sint ready then Inl GovernanceNotReady
      else if sint now > sint (isat_add ready GOVERNANCE_GRACE) then Inl GovernanceExpired
      else Inr ())"

section \<open>Configuration\<close>

definition config_space :: "u32 \<Rightarrow> u32 \<Rightarrow> nat" where
  "config_space vals corridors =
     32 + 32 + 32 + (4 + 20 * unat vals) + 4 + 8 + 1 + (4 + 4) + (4 + 16 * unat corridors) + 1 + 8"

definition corridor_registered :: "config \<Rightarrow> u64 \<Rightarrow> bool" where
  "corridor_registered cfg c = list_ex (\<lambda>e. fst e = c) (nonce_to cfg)"

definition nonce_of :: "config \<Rightarrow> u64 \<Rightarrow> u64" where
  "nonce_of cfg c = (case find (\<lambda>e. fst e = c) (nonce_to cfg) of None \<Rightarrow> 0 | Some e \<Rightarrow> snd e)"

fun bump_entries :: "u64 \<Rightarrow> (u64 \<times> u64) list \<Rightarrow> program_error + (u64 \<times> u64) list" where
  "bump_entries c [] = Inl (gate_err CorridorNotRegistered)"
| "bump_entries c (e # es) =
     (if fst e = c
      then bind_res (ok_or (checked_add (snd e) 1) ArithmeticOverflow) (\<lambda>n. Inr ((fst e, n) # es))
      else bind_res (bump_entries c es) (\<lambda>es'. Inr (e # es')))"

definition bump_nonce :: "config \<Rightarrow> u64 \<Rightarrow> program_error + config" where
  "bump_nonce cfg c = bind_res (bump_entries c (nonce_to cfg)) (\<lambda>es. Inr (cfg\<lparr>nonce_to := es\<rparr>))"

definition verify_config_account :: "env \<Rightarrow> pubkey \<Rightarrow> pubkey \<Rightarrow> pubkey \<Rightarrow> program_error + unit" where
  "verify_config_account E key own pid =
     (if key \<noteq> pda E pid [lit ''config''] then Inl InvalidSeeds
      else if own \<noteq> pid then Inl IllegalOwner
      else Inr ())"

section \<open>Assets\<close>

definition decode_asset_config :: "bytes \<Rightarrow> program_error + asset_config" where
  "decode_asset_config d =
     (if length d = LEGACY_ASSET_CONFIG_LEN \<or> length d = LEGACY_ASSET_CONFIG_LEN + 1 then
        (let cur = take LEGACY_ASSET_CONFIG_LEN d in
         bind_res (ok_or (de_arr cur) InvalidAccountData) (\<lambda>(did, cur).
         bind_res (ok_or (de_arr cur) InvalidAccountData) (\<lambda>(mint, cur).
         bind_res (ok_or (de_arr cur) InvalidAccountData) (\<lambda>(vault, cur).
         Inr \<lparr>as_debridge_id = did, as_mint = mint, as_vault = vault,
              as_bridge_decimals = 0, as_local_decimals = 0\<rparr>))))
      else ok_or (deserialize de_asset_config d) InvalidAccountData)"

definition bridge_unit :: "u8 \<Rightarrow> u8 \<Rightarrow> u64 option" where
  "bridge_unit local_decimals bridge_decimals =
     do { ex \<leftarrow> checked_sub local_decimals bridge_decimals; checked_pow 10 (unat ex) }"

definition asset_unit :: "asset_config \<Rightarrow> program_error + u64" where
  "asset_unit a =
     ok_or (bridge_unit (as_local_decimals a) (as_bridge_decimals a)) (gate_err InvalidBridgeDecimals)"

definition to_wire :: "asset_config \<Rightarrow> u64 \<Rightarrow> program_error + u64" where
  "to_wire a local =
     bind_res (asset_unit a) (\<lambda>unit.
     if local mod unit \<noteq> 0 then Inl (gate_err InexactAmount) else Inr (local div unit))"

definition to_local :: "asset_config \<Rightarrow> u64 \<Rightarrow> program_error + u64" where
  "to_local a wire =
     bind_res (asset_unit a) (\<lambda>unit. ok_or (checked_mul wire unit) (gate_err AmountOverflow))"

definition decode_sent_record :: "bytes \<Rightarrow> program_error + sent_record" where
  "decode_sent_record d =
     (if length d = SENT_RECORD_LEN - 8
      then ok_or (deserialize de_sent_record (d @ replicate 8 0)) InvalidAccountData
      else ok_or (deserialize de_sent_record d) InvalidAccountData)"

definition verify_asset_account ::
  "env \<Rightarrow> pubkey \<Rightarrow> pubkey \<Rightarrow> bytes32 \<Rightarrow> pubkey \<Rightarrow> program_error + unit" where
  "verify_asset_account E key own did pid =
     (if key \<noteq> pda E pid [lit ''asset'', arr_bytes did] then Inl InvalidSeeds
      else if own \<noteq> pid then Inl IllegalOwner
      else Inr ())"

definition asset_write_allowed :: "asset_config \<Rightarrow> asset_config \<Rightarrow> program_error + bool" where
  "asset_write_allowed existing incoming =
     (if as_mint existing = 0 \<and> as_vault existing = 0 then Inr True
      else if as_mint existing = as_mint incoming \<and> as_vault existing = as_vault incoming \<and>
              as_debridge_id existing = as_debridge_id incoming \<and>
              as_bridge_decimals existing = as_bridge_decimals incoming \<and>
              as_local_decimals existing = as_local_decimals incoming then Inr False
      else Inl (gate_err AssetAlreadyRegistered))"

definition is_legacy_asset_len :: "nat \<Rightarrow> bool" where
  "is_legacy_asset_len n \<longleftrightarrow> n = LEGACY_ASSET_CONFIG_LEN \<or> n = LEGACY_ASSET_CONFIG_LEN + 1"

definition legacy_asset_upgrade_allowed :: "nat \<Rightarrow> asset_config \<Rightarrow> asset_config \<Rightarrow> bool" where
  "legacy_asset_upgrade_allowed len existing incoming \<longleftrightarrow>
     is_legacy_asset_len len \<and> as_mint existing \<noteq> 0 \<and>
     as_debridge_id existing = as_debridge_id incoming \<and>
     as_mint existing = as_mint incoming \<and> as_vault existing = as_vault incoming \<and>
     as_bridge_decimals existing = 0 \<and> as_local_decimals existing = 0 \<and>
     as_bridge_decimals incoming = as_local_decimals incoming"

definition vault_binding_allowed :: "vault_binding option \<Rightarrow> vault_binding \<Rightarrow> gate_error + unit" where
  "vault_binding_allowed existing want =
     (case existing of
        None \<Rightarrow> Inr ()
      | Some b \<Rightarrow> if b = want then Inr () else Inl VaultAssetMismatch)"

definition verify_asset_binding ::
  "env \<Rightarrow> asset_config \<Rightarrow> pubkey \<Rightarrow> pubkey \<Rightarrow> pubkey \<Rightarrow> pubkey \<Rightarrow> program_error + unit" where
  "verify_asset_binding E a token_program_key vault_key vault_mint counterpart_mint =
     (if token_program_key \<noteq> spl_token_id E then Inl IncorrectProgramId
      else if vault_key \<noteq> as_vault a then Inl InvalidAccountData
      else if vault_mint \<noteq> as_mint a \<or> counterpart_mint \<noteq> as_mint a then Inl InvalidAccountData
      else Inr ())"

section \<open>Authorities and parameters\<close>

definition verify_upgrade_authority :: "pubkey option \<Rightarrow> pubkey \<Rightarrow> program_error + unit" where
  "verify_upgrade_authority authority who =
     (case authority of
        Some auth \<Rightarrow> if auth = who then Inr () else Inl MissingRequiredSignature
      | None \<Rightarrow> Inl InvalidArgument)"

definition is_already_executed :: "pubkey \<Rightarrow> nat \<Rightarrow> pubkey \<Rightarrow> bool" where
  "is_already_executed own data_len pid \<longleftrightarrow> own = pid \<and> data_len > 0"

definition vault_is_exclusively_controlled :: "pubkey option \<Rightarrow> pubkey option \<Rightarrow> bool" where
  "vault_is_exclusively_controlled delegate close_authority \<longleftrightarrow>
     delegate = None \<and> close_authority = None"

definition authorized_to_set_paused :: "bool \<Rightarrow> bool \<Rightarrow> bool \<Rightarrow> bool" where
  "authorized_to_set_paused is_owner is_guardian pausing =
     (if pausing then is_owner \<or> is_guardian else is_owner)"

definition check_threshold_cap :: "u32 \<Rightarrow> program_error + unit" where
  "check_threshold_cap t =
     (if t > MAX_THRESHOLD then Inl (gate_err ThresholdTooHigh) else Inr ())"

fun check_each_validator :: "address list \<Rightarrow> address list \<Rightarrow> program_error + unit" where
  "check_each_validator seen [] = Inr ()"
| "check_each_validator seen (v # vs) =
     (if v = 0 then Inl (gate_err ZeroValidator)
      else if v \<in> set seen then Inl (gate_err DuplicateValidator)
      else check_each_validator (seen @ [v]) vs)"

definition validate_validator_set :: "address list \<Rightarrow> u32 \<Rightarrow> program_error + unit" where
  "validate_validator_set vs t =
     (if t = 0 \<or> t > of_nat (length vs) then Inl InvalidArgument
      else bind_res (check_threshold_cap t) (\<lambda>_. check_each_validator [] vs))"

definition validate_init_chain_id :: "u64 \<Rightarrow> program_error + unit" where
  "validate_init_chain_id c = (if c = 0 then Inl InvalidArgument else Inr ())"

section \<open>Facts about the rules\<close>

lemma governance_consumable_iff:
  "governance_consumable r now = Inr () \<longleftrightarrow>
     r \<noteq> 0 \<and> sint r \<le> sint now \<and> sint now \<le> sint (isat_add r GOVERNANCE_GRACE)"
  by (auto simp: governance_consumable_def)

lemma bump_entries_Inr:
  "bump_entries c es = Inr es' \<Longrightarrow>
     map fst es' = map fst es \<and> length es' = length es \<and> c \<in> fst ` set es"
  by (induction es arbitrary: es') (auto simp: res_simps split: if_splits)

lemma bump_entries_find:
  "bump_entries c es = Inr es' \<Longrightarrow>
     (\<exists>n. find (\<lambda>e. fst e = c) es = Some (c, n) \<and> find (\<lambda>e. fst e = c) es' = Some (c, n + 1) \<and>
        unat (n + 1) = unat n + 1)"
proof (induction es arbitrary: es')
  case Nil
  then show ?case by simp
next
  case (Cons e es)
  show ?case
  proof (cases "fst e = c")
    case True
    with Cons.prems obtain n where n: "checked_add (snd e) 1 = Some n" and "es' = (fst e, n) # es"
      by (auto simp: res_simps)
    moreover have "n = snd e + 1" "unat n = unat (snd e) + 1"
      using n checked_add_Some [OF n] by (auto simp: checked_add_def split: if_splits)
    ultimately show ?thesis using True by (intro exI [of _ "snd e"]) auto
  next
    case False
    with Cons show ?thesis by (auto simp: res_simps)
  qed
qed

lemma bump_entries_other:
  "bump_entries c es = Inr es' \<Longrightarrow> d \<noteq> c \<Longrightarrow>
     find (\<lambda>e. fst e = d) es' = find (\<lambda>e. fst e = d) es"
  by (induction es arbitrary: es') (auto simp: res_simps split: if_splits)

lemma bump_nonce_same:
  "bump_nonce cfg c = Inr cfg' \<Longrightarrow> unat (nonce_of cfg' c) = unat (nonce_of cfg c) + 1"
  by (auto simp: bump_nonce_def nonce_of_def res_simps dest: bump_entries_find)

lemma bump_nonce_other:
  "bump_nonce cfg c = Inr cfg' \<Longrightarrow> d \<noteq> c \<Longrightarrow> nonce_of cfg' d = nonce_of cfg d"
  by (auto simp: bump_nonce_def nonce_of_def res_simps bump_entries_other)

lemma bridge_unit_Some:
  assumes "bridge_unit l b = Some u"
  shows "unat b \<le> unat l" "unat u = 10 ^ (unat l - unat b)"
  using assms
  by (auto simp: bridge_unit_def dest!: checked_sub_Some checked_pow_Some split: bind_splits)

lemma bridge_unit_pos: "bridge_unit l b = Some u \<Longrightarrow> 0 < unat u"
  using bridge_unit_Some(2) by simp

lemma check_each_validator_iff:
  "check_each_validator seen vs = Inr () \<longleftrightarrow>
     0 \<notin> set vs \<and> distinct vs \<and> set vs \<inter> set seen = {}"
  by (induction vs arbitrary: seen) auto

lemma validate_validator_set_Inr:
  assumes "validate_validator_set vs t = Inr ()"
  shows "t \<noteq> 0" "t \<le> of_nat (length vs)" "t \<le> MAX_THRESHOLD" "distinct vs" "0 \<notin> set vs"
  using assms
  by (auto simp: validate_validator_set_def check_threshold_cap_def res_simps
      check_each_validator_iff not_less)

end
