(* ===== verification/GateAccounts.thy ===== *)
theory GateAccounts
  imports GateRules
begin

text \<open>
  The account operations of the gate program: loading and storing its typed
  accounts, creating program-derived accounts, the replay markers, the sent
  records, the vault bindings and the governance schedules. The effect of each
  operation on the world is stated once, with the frame it leaves alone.
\<close>

section \<open>Loading and storing\<close>

definition write_zero_padded :: "bytes option \<Rightarrow> account_info \<Rightarrow> world \<Rightarrow> program_error + world" where
  "write_zero_padded b ai w =
     (case b of
        None \<Rightarrow> Inl BorshIoError
      | Some bs \<Rightarrow>
          if length bs \<le> length (data_of w ai)
          then Inr (set_data ai (bs @ replicate (length (data_of w ai) - length bs) 0) w)
          else Inl BorshIoError)"

definition config_store :: "config \<Rightarrow> account_info \<Rightarrow> world \<Rightarrow> program_error + world" where
  "config_store cfg ai w =
     (if config_space (of_nat (length (validators cfg))) (of_nat (length (nonce_to cfg)))
           > length (data_of w ai)
      then Inl AccountDataTooSmall
      else write_zero_padded (ser_config cfg) ai w)"

definition load_config :: "env \<Rightarrow> pubkey \<Rightarrow> account_info \<Rightarrow> world \<Rightarrow> program_error + config" where
  "load_config E pid ai w =
     bind_res (verify_config_account E (ai_key ai) (owner_of w ai) pid) (\<lambda>_.
     ok_or (deserialize de_config (data_of w ai)) InvalidAccountData)"

definition load_sent_record ::
  "env \<Rightarrow> pubkey \<Rightarrow> bytes32 \<Rightarrow> account_info \<Rightarrow> world \<Rightarrow> program_error + sent_record" where
  "load_sent_record E pid sid ai w =
     (if ai_key ai \<noteq> pda E pid [lit ''sent'', arr_bytes sid] then Inl InvalidSeeds
      else if owner_of w ai \<noteq> pid then Inl IllegalOwner
      else if data_of w ai = [] then Inl (gate_err NotSent)
      else decode_sent_record (data_of w ai))"

definition load_asset ::
  "env \<Rightarrow> pubkey \<Rightarrow> bytes32 \<Rightarrow> account_info \<Rightarrow> world \<Rightarrow> program_error + asset_config" where
  "load_asset E pid did ai w =
     bind_res (verify_asset_account E (ai_key ai) (owner_of w ai) did pid) (\<lambda>_.
     bind_res (decode_asset_config (data_of w ai)) (\<lambda>a.
     if as_debridge_id a \<noteq> did then Inl InvalidSeeds else Inr a))"

section \<open>Creating accounts\<close>

definition create_pda_account ::
  "env \<Rightarrow> pubkey \<Rightarrow> account_info \<Rightarrow> account_info \<Rightarrow> account_info \<Rightarrow> bytes list \<Rightarrow> u8 \<Rightarrow> nat \<Rightarrow>
   world \<Rightarrow> program_error + world"
where
  "create_pda_account E pid payer target system_program seeds bump space w =
     bind_res (rent_minimum_balance E space) (\<lambda>rent.
     let have = lamports (acct w target) in
     bind_res (if have < rent
               then invoke E pid (SystemTransfer (ai_key payer) (ai_key target) (rent - have))
                      [payer, target, system_program] w
               else Inr w) (\<lambda>w.
     bind_res (invoke_signed E pid (SystemAllocate (ai_key target) (of_nat space))
                 [target, system_program] [seeds @ [[bump]]] w) (\<lambda>w.
     invoke_signed E pid (SystemAssign (ai_key target) pid)
       [target, system_program] [seeds @ [[bump]]] w)))"

definition create_marker ::
  "env \<Rightarrow> pubkey \<Rightarrow> account_info \<Rightarrow> account_info \<Rightarrow> account_info \<Rightarrow> bytes list \<Rightarrow> u8 \<Rightarrow> u8 \<Rightarrow>
   world \<Rightarrow> program_error + world"
where
  "create_marker E pid payer marker system_program seeds bump state w =
     bind_res (create_pda_account E pid payer marker system_program seeds bump MARKER_LEN w) (\<lambda>w.
     case data_of w marker of
       [] \<Rightarrow> Inl Panicked
     | _ # rest \<Rightarrow> Inr (set_data marker (state # rest) w))"

definition create_sent_record ::
  "env \<Rightarrow> pubkey \<Rightarrow> account_info \<Rightarrow> account_info \<Rightarrow> account_info \<Rightarrow> bytes32 \<Rightarrow> u8 \<Rightarrow> sent_record \<Rightarrow>
   world \<Rightarrow> program_error + world"
where
  "create_sent_record E pid payer sent system_program sid bump r w =
     (if is_already_executed (owner_of w sent) (length (data_of w sent)) pid
      then Inl (gate_err AlreadyExecuted)
      else
        bind_res (create_pda_account E pid payer sent system_program
                    [lit ''sent'', arr_bytes sid] bump SENT_RECORD_LEN w) (\<lambda>w.
        write_prefix (ser_sent_record r) sent w))"

definition grow_program_account ::
  "env \<Rightarrow> pubkey \<Rightarrow> account_info \<Rightarrow> account_info \<Rightarrow> account_info \<Rightarrow> nat \<Rightarrow> world \<Rightarrow> program_error + world"
where
  "grow_program_account E pid payer target system_program space w =
     bind_res (rent_minimum_balance E space) (\<lambda>rent.
     let have = lamports (acct w target) in
     bind_res (if have < rent
               then invoke E pid (SystemTransfer (ai_key payer) (ai_key target) (rent - have))
                      [payer, target, system_program] w
               else Inr w) (\<lambda>w.
     bind_res (realloc_zeroed E (data_of w target) space) (\<lambda>d.
     Inr (set_data target d w))))"

section \<open>Governance schedules\<close>

definition consume_governance ::
  "env \<Rightarrow> pubkey \<Rightarrow> account_info \<Rightarrow> bytes32 \<Rightarrow> world \<Rightarrow> program_error + world" where
  "consume_governance E pid gov_ai action_id w =
     (if ai_key gov_ai \<noteq> pda E pid [lit ''gov'', arr_bytes action_id] then Inl InvalidSeeds
      else if owner_of w gov_ai \<noteq> pid \<or> length (data_of w gov_ai) < GOVERNANCE_LEN
        then Inl (gate_err GovernanceNotScheduled)
      else
        bind_res (ok_or (deserialize de_schedule (data_of w gov_ai)) InvalidAccountData) (\<lambda>sched.
        bind_res (clock_get E) (\<lambda>now.
        bind_res (map_err gate_err (governance_consumable (ready_at sched) now)) (\<lambda>_.
        write_prefix (ser_schedule \<lparr>ready_at = 0\<rparr>) gov_ai w))))"

definition write_schedule ::
  "env \<Rightarrow> pubkey \<Rightarrow> account_info \<Rightarrow> account_info \<Rightarrow> account_info \<Rightarrow> bytes32 \<Rightarrow> world \<Rightarrow>
   program_error + (i64 \<times> world)"
where
  "write_schedule E pid owner gov_ai system_program action_id w =
     (let (expected, bump) = find_program_address E [lit ''gov'', arr_bytes action_id] pid in
      if ai_key gov_ai \<noteq> expected then Inl InvalidSeeds
      else
        bind_res
          (if \<not> (owner_of w gov_ai = pid \<and> length (data_of w gov_ai) \<ge> GOVERNANCE_LEN) then
             (if data_of w gov_ai \<noteq> [] \<and> owner_of w gov_ai \<noteq> pid then Inl IllegalOwner
              else create_pda_account E pid owner gov_ai system_program
                     [lit ''gov'', arr_bytes action_id] bump GOVERNANCE_LEN w)
           else Inr w) (\<lambda>w.
        bind_res (clock_get E) (\<lambda>now.
        bind_res (ok_or (ichecked_add now GOVERNANCE_DELAY) ArithmeticOverflow) (\<lambda>ready.
        bind_res (write_prefix (ser_schedule \<lparr>ready_at = ready\<rparr>) gov_ai w) (\<lambda>w.
        Inr (ready, w))))))"

section \<open>Vault bindings and token accounts\<close>

definition bind_vault ::
  "env \<Rightarrow> pubkey \<Rightarrow> account_info \<Rightarrow> account_info \<Rightarrow> account_info \<Rightarrow> pubkey \<Rightarrow> vault_binding \<Rightarrow>
   world \<Rightarrow> program_error + world"
where
  "bind_vault E pid payer binding_ai system_program vault want w =
     (let (expected, bump) = find_program_address E [lit ''vault'', arr_bytes vault] pid in
      if ai_key binding_ai \<noteq> expected then Inl InvalidSeeds
      else
        let written = (owner_of w binding_ai = pid \<and> length (data_of w binding_ai) \<ge> VAULT_BINDING_LEN) in
        bind_res
          (if written then
             bind_res (ok_or (deserialize de_vault_binding (data_of w binding_ai)) InvalidAccountData) (\<lambda>b.
             Inr (if vb_mint b = 0 then None else Some b))
           else if data_of w binding_ai \<noteq> [] \<and> owner_of w binding_ai \<noteq> pid then Inl IllegalOwner
           else Inr None) (\<lambda>existing.
        bind_res (map_err gate_err (vault_binding_allowed existing want)) (\<lambda>_.
        bind_res
          (if \<not> written then
             create_pda_account E pid payer binding_ai system_program
               [lit ''vault'', arr_bytes vault] bump VAULT_BINDING_LEN w
           else Inr w) (\<lambda>w.
        write_prefix (ser_vault_binding want) binding_ai w))))"

definition spl_mint_and_owner ::
  "env \<Rightarrow> account_info \<Rightarrow> pubkey \<Rightarrow> world \<Rightarrow> program_error + (pubkey \<times> pubkey)" where
  "spl_mint_and_owner E token_ai token_program w =
     (if owner_of w token_ai \<noteq> token_program then Inl IllegalOwner
      else bind_res (ok_or (unpack_account E (data_of w token_ai)) InvalidAccountData) (\<lambda>a.
        Inr (spl_mint a, spl_owner a)))"

definition receiver_token_account ::
  "env \<Rightarrow> account_info \<Rightarrow> pubkey \<Rightarrow> world \<Rightarrow> program_error + (pubkey \<times> pubkey)" where
  "receiver_token_account E token_ai token_program w =
     (if owner_of w token_ai \<noteq> token_program then Inl (gate_err ReceiverNotTokenAccount)
      else bind_res (ok_or (unpack_account E (data_of w token_ai)) (gate_err ReceiverNotTokenAccount))
        (\<lambda>a. Inr (spl_mint a, spl_owner a)))"

definition require_upgrade_authority ::
  "env \<Rightarrow> pubkey \<Rightarrow> account_info \<Rightarrow> account_info \<Rightarrow> pubkey \<Rightarrow> world \<Rightarrow> program_error + unit" where
  "require_upgrade_authority E pid program_ai program_data_ai who w =
     (if ai_key program_ai \<noteq> pid then Inl IncorrectProgramId
      else if owner_of w program_ai \<noteq> loader_id E then Inl IncorrectProgramId
      else if ai_key program_data_ai \<noteq> pda E (loader_id E) [arr_bytes pid] then Inl InvalidArgument
      else case loader_state_of E (data_of w program_data_ai) of
          None \<Rightarrow> Inl InvalidAccountData
        | Some (ProgramData authority) \<Rightarrow> verify_upgrade_authority authority who
        | Some OtherLoaderState \<Rightarrow> Inl InvalidAccountData)"

definition check_asset_accounts ::
  "env \<Rightarrow> pubkey \<Rightarrow> account_info \<Rightarrow> account_info \<Rightarrow> account_info \<Rightarrow> u8 \<Rightarrow> world \<Rightarrow> program_error + u8"
where
  "check_asset_accounts E pid mint vault token_program bridge_decimals w =
     (if ai_key token_program \<noteq> spl_token_id E then Inl IncorrectProgramId
      else if owner_of w mint \<noteq> ai_key token_program then Inl IllegalOwner
      else
        bind_res (ok_or (unpack_mint E (data_of w mint)) InvalidAccountData) (\<lambda>decimals.
        if bridge_unit decimals bridge_decimals = None then Inl (gate_err InvalidBridgeDecimals)
        else
          bind_res (spl_mint_and_owner E vault (ai_key token_program) w) (\<lambda>(vault_mint, vault_owner).
          if vault_mint \<noteq> ai_key mint then Inl InvalidAccountData
          else if vault_owner \<noteq> pda E pid [lit ''vault_authority''] then Inl InvalidAccountData
          else
            bind_res (ok_or (unpack_account E (data_of w vault)) InvalidAccountData) (\<lambda>vs.
            if \<not> vault_is_exclusively_controlled (spl_delegate vs) (spl_close_authority vs)
            then Inl InvalidAccountData
            else Inr decimals))))"

section \<open>Events\<close>

text \<open>\<open>borsh::to_vec(..).expect(..)\<close>: a failure to serialize is a panic.\<close>

definition emit_lifecycle ::
  "bytes \<Rightarrow> bytes32 \<Rightarrow> bytes32 \<Rightarrow> u64 \<Rightarrow> u64 \<Rightarrow> world \<Rightarrow> program_error + world" where
  "emit_lifecycle tag sid did chain nonce w =
     bind_res
       (ok_or (ser_lifecycle_event \<lparr>le_version = SENT_EVENT_VERSION, le_submission_id = sid,
                 le_debridge_id = did, le_chain_id = chain, le_nonce = nonce\<rparr>) Panicked) (\<lambda>b.
     Inr (sol_log_data [tag, b] w))"

definition emit_sent ::
  "bytes32 \<Rightarrow> send_args \<Rightarrow> u64 \<Rightarrow> u8 \<Rightarrow> u64 \<Rightarrow> u64 \<Rightarrow> bytes \<Rightarrow> bytes32 \<Rightarrow> world \<Rightarrow> program_error + world"
where
  "emit_sent sid args wire_amount bd chain_from nonce native_sender mint w =
     bind_res
       (ok_or (ser_sent_event \<lparr>ev_version = SENT_EVENT_VERSION, ev_submission_id = sid,
                 ev_debridge_id = sa_debridge_id args, ev_mint = mint, ev_amount = wire_amount,
                 ev_bridge_decimals = bd, ev_chain_id_from = chain_from,
                 ev_chain_id_to = sa_chain_id_to args, ev_nonce = nonce,
                 ev_receiver = sa_receiver args, ev_native_sender = native_sender,
                 ev_auto = sa_auto args\<rparr>) Panicked) (\<lambda>b.
     Inr (sol_log_data [SENT_EVENT_TAG, b] w))"

section \<open>Effects\<close>

lemma write_zero_padded_Inr:
  "write_zero_padded b ai w = Inr w' \<longleftrightarrow>
     (\<exists>bs. b = Some bs \<and> length bs \<le> length (data_of w ai) \<and>
        w' = set_data ai (bs @ replicate (length (data_of w ai) - length bs) 0) w)"
  by (auto simp: write_zero_padded_def split: option.splits if_splits)

lemma keeps_owned_write_zero_padded:
  "write_zero_padded b ai w = Inr w' \<Longrightarrow> keeps_owned pid w w'"
  by (auto simp: write_zero_padded_Inr intro: keeps_owned_set_data)

lemma config_store_Inr:
  assumes "config_store cfg ai w = Inr w'"
  obtains bs pad where "ser_config cfg = Some bs" "w' = set_data ai (bs @ pad) w"
    "length (bs @ pad) = length (data_of w ai)"
proof -
  obtain bs where "ser_config cfg = Some bs" and l: "length bs \<le> length (data_of w ai)"
    and "w' = set_data ai (bs @ replicate (length (data_of w ai) - length bs) 0) w"
    using assms by (auto simp: config_store_def res_simps write_zero_padded_Inr)
  then show ?thesis by (intro that) auto
qed

lemma keeps_owned_config_store: "config_store cfg ai w = Inr w' \<Longrightarrow> keeps_owned pid w w'"
  by (auto simp: config_store_def res_simps intro: keeps_owned_write_zero_padded)

text \<open>What was stored is what the next instruction loads.\<close>

lemma load_config_store:
  assumes "config_store cfg ai w = Inr w'"
    and "ai_key ai = pda E pid [lit ''config'']" and "owner_of w ai = pid"
  shows "load_config E pid ai w' = Inr cfg"
proof -
  obtain bs pad where "ser_config cfg = Some bs" and w': "w' = set_data ai (bs @ pad) w"
    using assms(1) by (rule config_store_Inr)
  then have "deserialize de_config (data_of w' ai) = Some cfg"
    by (simp add: configc.deserialize_padded)
  then show ?thesis
    using assms(2,3) by (simp add: load_config_def verify_config_account_def w')
qed

lemma load_config_Inr:
  "load_config E pid ai w = Inr cfg \<longleftrightarrow>
     ai_key ai = pda E pid [lit ''config''] \<and> owner_of w ai = pid \<and>
     deserialize de_config (data_of w ai) = Some cfg"
  by (auto simp: load_config_def verify_config_account_def res_simps)

lemma de_word_nonempty:
  "de_word bs = Some (x :: 'a::len word, r) \<Longrightarrow> 8 \<le> LENGTH('a) \<Longrightarrow> bs \<noteq> []"
  by (auto simp: de_word_def Let_def split: if_splits)

lemma load_config_nonempty: "load_config E pid ai w = Inr cfg \<Longrightarrow> data_of w ai \<noteq> []"
  by (auto simp: load_config_Inr deserialize_def de_config_def de_arr_def)

lemma length_de_list: "de_list p n bs = Some (xs, r) \<Longrightarrow> length xs = n"
  by (induction n arbitrary: bs xs) (auto split: bind_splits)

lemma length_de_vec: "de_vec p bs = Some (xs, r) \<Longrightarrow> length xs < 2 ^ 32"
proof -
  assume "de_vec p bs = Some (xs, r)"
  then obtain n :: u32 where "length xs = unat n"
    by (auto simp: de_vec_def dest: length_de_list split: bind_splits)
  then show ?thesis using unsigned_less [of n] by simp
qed

lemma load_config_lengths:
  "load_config E pid ai w = Inr cfg \<Longrightarrow>
     length (validators cfg) < 2 ^ 32 \<and> length (nonce_to cfg) < 2 ^ 32"
  by (auto simp: load_config_Inr deserialize_def de_config_def dest!: length_de_vec
      split: bind_splits)

section \<open>Created accounts\<close>

lemma system_rule_transfer:
  assumes "system_rule E pid" "invoke E pid (SystemTransfer f t n) infos w = Inr w'"
  shows "acct_owner (accts w' k) = acct_owner (accts w k)"
    and "acct_data (accts w' k) = acct_data (accts w k)" and "logs w' = logs w"
  using assms unfolding invoke_def system_rule_def
  by (auto simp: invoke_signed_Inr)

lemma system_rule_allocate:
  assumes "system_rule E pid" "invoke_signed E pid (SystemAllocate t n) infos seeds w = Inr w'"
  shows "acct_owner (accts w t) = system_program_id E" and "acct_data (accts w t) = []"
    and "w' = w\<lparr>accts := (accts w)(t := (accts w t)\<lparr>acct_data := replicate (unat n) 0\<rparr>)\<rparr>"
proof -
  obtain a where "invoke_program E pid (SystemAllocate t n) infos seeds (accts w) = Inr a"
    and "w' = w\<lparr>accts := a\<rparr>"
    using assms(2) by (auto simp: invoke_signed_Inr)
  with assms(1) show "acct_owner (accts w t) = system_program_id E" "acct_data (accts w t) = []"
    "w' = w\<lparr>accts := (accts w)(t := (accts w t)\<lparr>acct_data := replicate (unat n) 0\<rparr>)\<rparr>"
    unfolding system_rule_def by blast+
qed

lemma system_rule_assign:
  assumes "system_rule E pid" "invoke_signed E pid (SystemAssign t p) infos seeds w = Inr w'"
  shows "w' = w\<lparr>accts := (accts w)(t := (accts w t)\<lparr>acct_owner := p\<rparr>)\<rparr>"
proof -
  obtain a where "invoke_program E pid (SystemAssign t p) infos seeds (accts w) = Inr a"
    and "w' = w\<lparr>accts := a\<rparr>"
    using assms(2) by (auto simp: invoke_signed_Inr)
  with assms(1) show ?thesis unfolding system_rule_def by blast
qed

text \<open>
  A created account is owned by the program and zeroed; the account had no data
  and belonged to nobody. Ownership and data of every other account stay.
\<close>

lemma create_pda_account_effect:
  assumes "create_pda_account E pid payer target sys seeds bump space w = Inr w'"
    and "system_rule E pid"
  shows "data_of w target = []" and "owner_of w target = system_program_id E"
    and "owner_of w' target = pid"
    and "data_of w' target = replicate (unat (of_nat space :: u64)) 0"
    and "k \<noteq> ai_key target \<Longrightarrow> acct_owner (accts w' k) = acct_owner (accts w k) \<and>
           acct_data (accts w' k) = acct_data (accts w k)"
    and "logs w' = logs w"
proof -
  obtain w1 w2 where
    s1: "w1 = w \<or> (\<exists>n infos. invoke E pid (SystemTransfer (ai_key payer) (ai_key target) n) infos w = Inr w1)"
    and s2: "invoke_signed E pid (SystemAllocate (ai_key target) (of_nat space)) [target, sys]
        [seeds @ [[bump]]] w1 = Inr w2"
    and s3: "invoke_signed E pid (SystemAssign (ai_key target) pid) [target, sys]
        [seeds @ [[bump]]] w2 = Inr w'"
    using assms(1)
    by (auto simp: create_pda_account_def Let_def res_simps split: if_splits)
  have o1: "acct_owner (accts w1 k) = acct_owner (accts w k)"
    and d1: "acct_data (accts w1 k) = acct_data (accts w k)" and l1: "logs w1 = logs w" for k
    using s1 system_rule_transfer [OF assms(2)] by blast+
  note a2 = system_rule_allocate [OF assms(2) s2] and a3 = system_rule_assign [OF assms(2) s3]
  show "data_of w target = []" "owner_of w target = system_program_id E"
    using a2(1,2) o1 d1 by simp_all
  show "owner_of w' target = pid"
    "data_of w' target = replicate (unat (of_nat space :: u64)) 0"
    by (simp_all add: a3 a2(3))
  show "logs w' = logs w" by (simp add: a3 a2(3) l1)
  show "k \<noteq> ai_key target \<Longrightarrow> acct_owner (accts w' k) = acct_owner (accts w k) \<and>
      acct_data (accts w' k) = acct_data (accts w k)"
    by (simp add: a3 a2(3) o1 d1)
qed

lemma keeps_owned_create_pda:
  assumes "create_pda_account E pid payer target sys seeds bump space w = Inr w'"
    and "system_rule E pid"
  shows "keeps_owned pid w w'"
  unfolding keeps_owned_def
proof (intro allI impI)
  fix k
  assume k: "acct_owner (accts w k) = pid \<and> acct_data (accts w k) \<noteq> []"
  then have "k \<noteq> ai_key target"
    using create_pda_account_effect(1) [OF assms] by auto
  with k show "acct_owner (accts w' k) = pid \<and>
      length (acct_data (accts w k)) \<le> length (acct_data (accts w' k))"
    using create_pda_account_effect(5) [OF assms] by simp
qed

lemma create_marker_effect:
  assumes "create_marker E pid payer marker sys seeds bump st w = Inr w'"
    and "system_rule E pid"
  shows "data_of w marker = []" and "owner_of w' marker = pid" and "data_of w' marker = [st]"
    and "k \<noteq> ai_key marker \<Longrightarrow> acct_owner (accts w' k) = acct_owner (accts w k) \<and>
           acct_data (accts w' k) = acct_data (accts w k)"
    and "logs w' = logs w"
proof -
  obtain w1 where c: "create_pda_account E pid payer marker sys seeds bump MARKER_LEN w = Inr w1"
    and r: "(case data_of w1 marker of [] \<Rightarrow> Inl Panicked
              | _ # rest \<Rightarrow> Inr (set_data marker (st # rest) w1)) = Inr w'"
    using assms(1) by (auto simp: create_marker_def res_simps)
  note e = create_pda_account_effect [OF c assms(2)]
  have "data_of w1 marker = [0]" using e(4) by (simp add: MARKER_LEN_def)
  with r have w': "w' = set_data marker [st] w1" by simp
  show "data_of w marker = []" by (rule e(1))
  show "owner_of w' marker = pid" "data_of w' marker = [st]" "logs w' = logs w"
    using e(3,6) by (simp_all add: w')
  show "k \<noteq> ai_key marker \<Longrightarrow> acct_owner (accts w' k) = acct_owner (accts w k) \<and>
      acct_data (accts w' k) = acct_data (accts w k)"
    using e(5) by (simp add: w')
qed

lemma keeps_owned_create_marker:
  assumes "create_marker E pid payer marker sys seeds bump st w = Inr w'"
    and "system_rule E pid"
  shows "keeps_owned pid w w'"
  unfolding keeps_owned_def
proof (intro allI impI)
  fix k
  assume k: "acct_owner (accts w k) = pid \<and> acct_data (accts w k) \<noteq> []"
  then have "k \<noteq> ai_key marker"
    using create_marker_effect(1) [OF assms] by auto
  with k show "acct_owner (accts w' k) = pid \<and>
      length (acct_data (accts w k)) \<le> length (acct_data (accts w' k))"
    using create_marker_effect(4) [OF assms] by simp
qed

section \<open>Records, schedules and bindings\<close>

lemma create_sent_record_effect:
  assumes "create_sent_record E pid payer sent sys sid bump r w = Inr w'"
    and "system_rule E pid"
  shows "data_of w sent = []" and "owner_of w' sent = pid"
    and "decode_sent_record (data_of w' sent) = Inr r"
    and "k \<noteq> ai_key sent \<Longrightarrow> acct_owner (accts w' k) = acct_owner (accts w k) \<and>
           acct_data (accts w' k) = acct_data (accts w k)"
    and "logs w' = logs w" and "keeps_owned pid w w'" and "length (data_of w' sent) = SENT_RECORD_LEN"
proof -
  obtain w1 where c: "create_pda_account E pid payer sent sys [lit ''sent'', arr_bytes sid] bump
      SENT_RECORD_LEN w = Inr w1" and p: "write_prefix (ser_sent_record r) sent w1 = Inr w'"
    using assms(1) by (auto simp: create_sent_record_def res_simps)
  note e = create_pda_account_effect [OF c assms(2)]
  obtain bs where bs: "ser_sent_record r = Some bs"
    and w': "w' = set_data sent (bs @ drop (length bs) (data_of w1 sent)) w1"
    using p by (auto simp: write_prefix_Inr)
  have lbs: "length bs = SENT_RECORD_LEN"
    using bs by (auto simp: ser_sent_record_def ser_struct_simps SENT_RECORD_LEN_def
        simp del: ser_seq.simps(2))
  moreover have "length (data_of w1 sent) = SENT_RECORD_LEN"
    using e(4) by (simp add: SENT_RECORD_LEN_def)
  ultimately have d: "data_of w' sent = bs" and lb: "length bs \<noteq> SENT_RECORD_LEN - 8"
    by (simp_all add: w' SENT_RECORD_LEN_def)
  show "data_of w sent = []" by (rule e(1))
  show "length (data_of w' sent) = SENT_RECORD_LEN" by (simp add: d lbs)
  show "owner_of w' sent = pid" "logs w' = logs w" using e(3,6) by (simp_all add: w')
  show "decode_sent_record (data_of w' sent) = Inr r"
    using sentc.deserialize_padded [OF bs, of "[]"] lb by (simp add: decode_sent_record_def d)
  show "k \<noteq> ai_key sent \<Longrightarrow> acct_owner (accts w' k) = acct_owner (accts w k) \<and>
      acct_data (accts w' k) = acct_data (accts w k)"
    using e(5) by (simp add: w')
  show "keeps_owned pid w w'"
    using keeps_owned_trans [OF keeps_owned_create_pda [OF c assms(2)] keeps_owned_write_prefix [OF p]] .
qed

lemma ser_schedule_len: "ser_schedule s = Some bs \<Longrightarrow> length bs = 8"
  by (auto simp: ser_schedule_def ser_struct_simps simp del: ser_seq.simps(2))

text \<open>Consuming a schedule needs a mature one and leaves the empty one behind.\<close>

lemma consume_governance_effect:
  assumes "consume_governance E pid gov_ai aid w = Inr w'"
  obtains sched now pad where
    "ai_key gov_ai = pda E pid [lit ''gov'', arr_bytes aid]" "owner_of w gov_ai = pid"
    "deserialize de_schedule (data_of w gov_ai) = Some sched" "clock_get E = Inr now"
    "governance_consumable (ready_at sched) now = Inr ()"
    "w' = set_data gov_ai pad w" "length pad = length (data_of w gov_ai)"
    "deserialize de_schedule pad = Some \<lparr>ready_at = 0\<rparr>" "data_of w gov_ai \<noteq> []"
proof -
  obtain sched now where 1: "ai_key gov_ai = pda E pid [lit ''gov'', arr_bytes aid]"
    "owner_of w gov_ai = pid" "\<not> length (data_of w gov_ai) < GOVERNANCE_LEN"
    "deserialize de_schedule (data_of w gov_ai) = Some sched" "clock_get E = Inr now"
    "governance_consumable (ready_at sched) now = Inr ()"
    and p: "write_prefix (ser_schedule \<lparr>ready_at = 0\<rparr>) gov_ai w = Inr w'"
    using assms by (auto simp: consume_governance_def res_simps)
  obtain bs where bs: "ser_schedule \<lparr>ready_at = 0\<rparr> = Some bs"
    and w': "w' = set_data gov_ai (bs @ drop (length bs) (data_of w gov_ai)) w"
    and l: "length bs \<le> length (data_of w gov_ai)"
    using p by (auto simp: write_prefix_Inr)
  show ?thesis
  proof (rule that [OF 1(1,2,4,5,6) w'])
    show "length (bs @ drop (length bs) (data_of w gov_ai)) = length (data_of w gov_ai)"
      using l by simp
    show "deserialize de_schedule (bs @ drop (length bs) (data_of w gov_ai)) = Some \<lparr>ready_at = 0\<rparr>"
      by (rule schedc.deserialize_padded [OF bs])
    show "data_of w gov_ai \<noteq> []" using 1(3) by (auto simp: GOVERNANCE_LEN_def)
  qed
qed

lemma keeps_owned_consume: "consume_governance E pid gov_ai aid w = Inr w' \<Longrightarrow> keeps_owned pid w w'"
  by (auto simp: consume_governance_def res_simps intro: keeps_owned_write_prefix)

lemma write_schedule_effect:
  assumes "write_schedule E pid ow gov_ai sys aid w = Inr (ready, w')"
    and "system_rule E pid"
  shows "ai_key gov_ai = pda E pid [lit ''gov'', arr_bytes aid]"
    and "\<exists>now. clock_get E = Inr now \<and> sint ready = sint now + sint GOVERNANCE_DELAY"
    and "deserialize de_schedule (data_of w' gov_ai) = Some \<lparr>ready_at = ready\<rparr>"
    and "owner_of w' gov_ai = pid"
    and "k \<noteq> ai_key gov_ai \<Longrightarrow> acct_owner (accts w' k) = acct_owner (accts w k) \<and>
           acct_data (accts w' k) = acct_data (accts w k)"
    and "keeps_owned pid w w'"
proof -
  obtain expected bump where f: "find_program_address E [lit ''gov'', arr_bytes aid] pid = (expected, bump)"
    by fastforce
  obtain w1 now where key: "ai_key gov_ai = expected"
    and w1: "w1 = w \<and> owner_of w gov_ai = pid \<or>
        create_pda_account E pid ow gov_ai sys [lit ''gov'', arr_bytes aid] bump GOVERNANCE_LEN w = Inr w1"
    and now: "clock_get E = Inr now" "ichecked_add now GOVERNANCE_DELAY = Some ready"
    and p: "write_prefix (ser_schedule \<lparr>ready_at = ready\<rparr>) gov_ai w1 = Inr w'"
    using assms(1) unfolding write_schedule_def f Let_def
    by (auto simp: res_simps split: if_splits)
  obtain bs where bs: "ser_schedule \<lparr>ready_at = ready\<rparr> = Some bs"
    and w': "w' = set_data gov_ai (bs @ drop (length bs) (data_of w1 gov_ai)) w1"
    using p by (auto simp: write_prefix_Inr)
  show "ai_key gov_ai = pda E pid [lit ''gov'', arr_bytes aid]" using key f by simp
  show "\<exists>now. clock_get E = Inr now \<and> sint ready = sint now + sint GOVERNANCE_DELAY"
    using now ichecked_add_Some by blast
  show "deserialize de_schedule (data_of w' gov_ai) = Some \<lparr>ready_at = ready\<rparr>"
    by (simp add: w' schedc.deserialize_padded [OF bs])
  show "owner_of w' gov_ai = pid"
    using w1 create_pda_account_effect(3) [OF _ assms(2)] by (auto simp: w')
  show "k \<noteq> ai_key gov_ai \<Longrightarrow> acct_owner (accts w' k) = acct_owner (accts w k) \<and>
      acct_data (accts w' k) = acct_data (accts w k)"
    using w1 create_pda_account_effect(5) [OF _ assms(2)] by (auto simp: w')
  have "keeps_owned pid w w1" using w1 keeps_owned_create_pda [OF _ assms(2)] by auto
  then show "keeps_owned pid w w'"
    using keeps_owned_write_prefix [OF p] by (rule keeps_owned_trans)
qed

lemma bind_vault_effect:
  assumes "bind_vault E pid payer bai sys vault want w = Inr w'"
    and "system_rule E pid"
  shows "ai_key bai = pda E pid [lit ''vault'', arr_bytes vault]"
    and "deserialize de_vault_binding (data_of w' bai) = Some want" and "owner_of w' bai = pid"
    and "k \<noteq> ai_key bai \<Longrightarrow> acct_owner (accts w' k) = acct_owner (accts w k) \<and>
           acct_data (accts w' k) = acct_data (accts w k)"
    and "keeps_owned pid w w'"
proof -
  obtain expected bump where f: "find_program_address E [lit ''vault'', arr_bytes vault] pid = (expected, bump)"
    by fastforce
  obtain w1 where key: "ai_key bai = expected"
    and w1: "w1 = w \<and> owner_of w bai = pid \<or>
        create_pda_account E pid payer bai sys [lit ''vault'', arr_bytes vault] bump VAULT_BINDING_LEN w = Inr w1"
    and p: "write_prefix (ser_vault_binding want) bai w1 = Inr w'"
    using assms(1) unfolding bind_vault_def f Let_def
    by (auto simp: res_simps split: if_splits)
  obtain bs where bs: "ser_vault_binding want = Some bs"
    and w': "w' = set_data bai (bs @ drop (length bs) (data_of w1 bai)) w1"
    using p by (auto simp: write_prefix_Inr)
  show "ai_key bai = pda E pid [lit ''vault'', arr_bytes vault]" using key f by simp
  show "deserialize de_vault_binding (data_of w' bai) = Some want"
    by (simp add: w' bindc.deserialize_padded [OF bs])
  show "owner_of w' bai = pid"
    using w1 create_pda_account_effect(3) [OF _ assms(2)] by (auto simp: w')
  show "k \<noteq> ai_key bai \<Longrightarrow> acct_owner (accts w' k) = acct_owner (accts w k) \<and>
      acct_data (accts w' k) = acct_data (accts w k)"
    using w1 create_pda_account_effect(5) [OF _ assms(2)] by (auto simp: w')
  have "keeps_owned pid w w1" using w1 keeps_owned_create_pda [OF _ assms(2)] by auto
  then show "keeps_owned pid w w'"
    using keeps_owned_write_prefix [OF p] by (rule keeps_owned_trans)
qed

lemma emit_lifecycle_Inr:
  "emit_lifecycle tag sid did chain nonce w = Inr w' \<Longrightarrow> accts w' = accts w"
  by (auto simp: emit_lifecycle_def res_simps)

lemma emit_sent_Inr:
  "emit_sent sid args wire bd cf nonce ns mint w = Inr w' \<Longrightarrow> accts w' = accts w"
  by (auto simp: emit_sent_def res_simps)

lemma keeps_owned_accts: "accts w' = accts w \<Longrightarrow> keeps_owned pid w w'"
  by (simp add: keeps_owned_def)

end
