(* ===== verification/GateHandlers.thy ===== *)
theory GateHandlers
  imports GateAccounts
begin

text \<open>
  The instruction handlers of the gate program, one definition per handler, with
  the checks in the order of the source. A handler takes the accounts of the
  instruction and the world, and returns the new world or the error. The account
  lists are matched where the source calls \<open>next_account_info\<close> repeatedly before
  any other check; an optional trailing account is matched where it is taken.
\<close>

definition process_schedule_action ::
  "env \<Rightarrow> pubkey \<Rightarrow> account_info list \<Rightarrow> governance_action \<Rightarrow> world \<Rightarrow> program_error + world" where
  "process_schedule_action E pid accounts action w =
     (case accounts of
        config_ai # owner # gov_ai # system_program # it \<Rightarrow>
          bind_res (load_config E pid config_ai w) (\<lambda>cfg.
          if ai_key owner \<noteq> cfg_owner cfg \<or> \<not> is_signer owner then Inl MissingRequiredSignature
          else
          bind_res
            (case action of
               ActAddValidator v \<Rightarrow>
                 if v = 0 then Inl (gate_err ZeroValidator)
                 else if is_validator cfg v then Inl (gate_err NotSchedulable)
                 else if of_nat (length (validators cfg)) \<ge> max_validators cfg
                   then Inl (gate_err AtCapacity)
                 else Inr (add_validator_action_id E v)
             | ActLowerThreshold t \<Rightarrow>
                 if t = 0 \<or> t \<ge> threshold cfg then Inl (gate_err NotSchedulable)
                 else Inr (lower_threshold_action_id E t)
             | ActRegisterAsset did bd \<Rightarrow>
                 (case it of
                    mint # vault # token_program # _ \<Rightarrow>
                      bind_res (check_asset_accounts E pid mint vault token_program bd w) (\<lambda>_.
                      Inr (register_asset_action_id E did (ai_key mint) (ai_key vault) bd))
                  | _ \<Rightarrow> Inl NotEnoughAccountKeys)
             | ActSetGuardian g \<Rightarrow> Inr (set_guardian_action_id E g)) (\<lambda>action_id.
          bind_res (write_schedule E pid owner gov_ai system_program action_id w) (\<lambda>(ready, w).
          Inr w)))
      | _ \<Rightarrow> Inl NotEnoughAccountKeys)"

definition process_cancel_scheduled_governance ::
  "env \<Rightarrow> pubkey \<Rightarrow> account_info list \<Rightarrow> bytes32 \<Rightarrow> world \<Rightarrow> program_error + world" where
  "process_cancel_scheduled_governance E pid accounts action_id w =
     (case accounts of
        config_ai # who # gov_ai # _ \<Rightarrow>
          bind_res (load_config E pid config_ai w) (\<lambda>cfg.
          if \<not> is_signer who then Inl MissingRequiredSignature
          else
          let is_owner = (ai_key who = cfg_owner cfg);
              is_guardian = (guardian cfg \<noteq> 0 \<and> ai_key who = guardian cfg) in
          if \<not> (is_owner \<or> is_guardian) then Inl MissingRequiredSignature
          else if ai_key gov_ai \<noteq> pda E pid [lit ''gov'', arr_bytes action_id] then Inl InvalidSeeds
          else if owner_of w gov_ai \<noteq> pid \<or> length (data_of w gov_ai) < GOVERNANCE_LEN then Inr w
          else write_prefix (ser_schedule \<lparr>ready_at = 0\<rparr>) gov_ai w)
      | _ \<Rightarrow> Inl NotEnoughAccountKeys)"

definition process_cancel ::
  "env \<Rightarrow> pubkey \<Rightarrow> account_info list \<Rightarrow> cancel_args \<Rightarrow> world \<Rightarrow> program_error + world" where
  "process_cancel E pid accounts args w =
     (case accounts of
        config_ai # executed_ai # payer # system_program # _ \<Rightarrow>
          bind_res (load_config E pid config_ai w) (\<lambda>cfg.
          if paused cfg then Inl (gate_err GatePaused)
          else
          let sid = submission_id E (bridge_domain cfg) (xa_debridge_id args) (xa_bridge_decimals args)
                (xa_amount args) (xa_chain_id_from args) (chain_id cfg) (xa_nonce args)
                (xa_receiver args) (xa_auto args) (xa_native_sender args);
              (expected_executed, bump) = find_program_address E [lit ''executed'', arr_bytes sid] pid in
          if ai_key executed_ai \<noteq> expected_executed then Inl InvalidSeeds
          else if is_already_executed (owner_of w executed_ai) (length (data_of w executed_ai)) pid
            then Inl (gate_err AlreadyExecuted)
          else
          bind_res (map_err gate_err (verify_threshold E cfg (cancel_id E sid) (xa_signatures args))) (\<lambda>_.
          bind_res (create_marker E pid payer executed_ai system_program
                      [lit ''executed'', arr_bytes sid] bump MARKER_CANCELLED w) (\<lambda>w.
          emit_lifecycle CANCELLED_EVENT_TAG sid (xa_debridge_id args) (xa_chain_id_from args)
            (xa_nonce args) w)))
      | _ \<Rightarrow> Inl NotEnoughAccountKeys)"

definition process_refund ::
  "env \<Rightarrow> pubkey \<Rightarrow> account_info list \<Rightarrow> refund_args \<Rightarrow> world \<Rightarrow> program_error + world" where
  "process_refund E pid accounts args w =
     (case accounts of
        config_ai # asset_ai # sent_ai # refunded_ai # payer # vault # source_token #
        vault_authority # token_program # system_program # _ \<Rightarrow>
          bind_res (load_config E pid config_ai w) (\<lambda>cfg.
          let sid = submission_id E (bridge_domain cfg) (ra_debridge_id args) (ra_bridge_decimals args)
                (ra_amount args) (chain_id cfg) (ra_chain_id_to args) (ra_nonce args)
                (ra_receiver args) (ra_auto args) (ra_native_sender args);
              (expected_refunded, refunded_bump) =
                find_program_address E [lit ''refunded'', arr_bytes sid] pid in
          if ai_key refunded_ai \<noteq> expected_refunded then Inl InvalidSeeds
          else if is_already_executed (owner_of w refunded_ai) (length (data_of w refunded_ai)) pid
            then Inl (gate_err AlreadyExecuted)
          else
          bind_res (load_sent_record E pid sid sent_ai w) (\<lambda>sent.
          if sr_debridge_id sent \<noteq> ra_debridge_id args then Inl InvalidAccountData
          else
          bind_res (map_err gate_err (verify_threshold E cfg (refund_id E sid) (ra_signatures args))) (\<lambda>_.
          bind_res (load_asset E pid (ra_debridge_id args) asset_ai w) (\<lambda>asset.
          if ai_key source_token \<noteq> sr_source_token sent then Inl InvalidAccountData
          else
          bind_res (spl_mint_and_owner E vault (ai_key token_program) w) (\<lambda>(vault_mint, _).
          bind_res (receiver_token_account E source_token (ai_key token_program) w) (\<lambda>(dest_mint, _).
          bind_res (verify_asset_binding E asset (ai_key token_program) (ai_key vault) vault_mint
                      dest_mint) (\<lambda>_.
          bind_res (create_marker E pid payer refunded_ai system_program
                      [lit ''refunded'', arr_bytes sid] refunded_bump MARKER_CLAIMED w) (\<lambda>w.
          let w = set_data sent_ai (replicate (length (data_of w sent_ai)) 0) w;
              (auth, auth_bump) = find_program_address E [lit ''vault_authority''] pid in
          if ai_key vault_authority \<noteq> auth then Inl InvalidSeeds
          else
          bind_res (invoke_signed E pid
                      (SplTransfer (ai_key token_program) (ai_key vault) (ai_key source_token)
                         (ai_key vault_authority) (sr_amount sent))
                      [vault, source_token, vault_authority, token_program]
                      [[lit ''vault_authority'', [auth_bump]]] w) (\<lambda>w.
          emit_lifecycle REFUNDED_EVENT_TAG sid (ra_debridge_id args) (chain_id cfg)
            (ra_nonce args) w)))))))))
      | _ \<Rightarrow> Inl NotEnoughAccountKeys)"

definition process_init ::
  "env \<Rightarrow> pubkey \<Rightarrow> account_info list \<Rightarrow> init_args \<Rightarrow> world \<Rightarrow> program_error + world" where
  "process_init E pid accounts args w =
     (case accounts of
        config_ai # payer # system_program # program_ai # program_data_ai # _ \<Rightarrow>
          let (expected, bump) = find_program_address E [lit ''config''] pid in
          if ai_key config_ai \<noteq> expected then Inl InvalidSeeds
          else if data_of w config_ai \<noteq> [] then Inl AccountAlreadyInitialized
          else
          bind_res (validate_validator_set (ia_validators args) (ia_threshold args)) (\<lambda>_.
          bind_res (validate_init_chain_id (ia_chain_id args)) (\<lambda>_.
          if ia_max_validators args < of_nat (length (ia_validators args)) \<or> ia_max_corridors args = 0
            then Inl InvalidArgument
          else if \<not> is_signer payer then Inl MissingRequiredSignature
          else
          bind_res (require_upgrade_authority E pid program_ai program_data_ai (ai_key payer) w) (\<lambda>_.
          let space = config_space (ia_max_validators args) (ia_max_corridors args) + CONFIG_SLACK in
          bind_res (create_pda_account E pid payer config_ai system_program [lit ''config''] bump space w) (\<lambda>w.
          if ia_bridge_domain args = 0 then Inl (gate_err ZeroBridgeDomain)
          else
          bind_res (clock_get E) (\<lambda>now.
          config_store
            \<lparr>cfg_owner = ai_key payer, bridge_domain = ia_bridge_domain args,
             guardian = ia_guardian args, validators = ia_validators args,
             threshold = ia_threshold args, chain_id = ia_chain_id args, paused = False,
             max_validators = ia_max_validators args, max_corridors = ia_max_corridors args,
             nonce_to = [], sealed = False, setup_deadline = isat_add now SETUP_WINDOW\<rparr>
            config_ai w)))))
      | _ \<Rightarrow> Inl NotEnoughAccountKeys)"

definition process_register_corridor ::
  "env \<Rightarrow> pubkey \<Rightarrow> account_info list \<Rightarrow> u64 \<Rightarrow> world \<Rightarrow> program_error + world" where
  "process_register_corridor E pid accounts chain_id_to w =
     (case accounts of
        config_ai # owner # _ \<Rightarrow>
          bind_res (load_config E pid config_ai w) (\<lambda>cfg.
          if ai_key owner \<noteq> cfg_owner cfg \<or> \<not> is_signer owner then Inl MissingRequiredSignature
          else if chain_id_to = chain_id cfg then Inl InvalidArgument
          else if corridor_registered cfg chain_id_to then Inr w
          else if of_nat (length (nonce_to cfg)) \<ge> max_corridors cfg then Inl (gate_err AtCapacity)
          else config_store (cfg\<lparr>nonce_to := nonce_to cfg @ [(chain_id_to, 0)]\<rparr>) config_ai w)
      | _ \<Rightarrow> Inl NotEnoughAccountKeys)"

definition process_set_paused ::
  "env \<Rightarrow> pubkey \<Rightarrow> account_info list \<Rightarrow> bool \<Rightarrow> world \<Rightarrow> program_error + world" where
  "process_set_paused E pid accounts pausing w =
     (case accounts of
        config_ai # who # _ \<Rightarrow>
          bind_res (load_config E pid config_ai w) (\<lambda>cfg.
          if \<not> is_signer who then Inl MissingRequiredSignature
          else
          let is_owner = (ai_key who = cfg_owner cfg);
              is_guardian = (guardian cfg \<noteq> 0 \<and> ai_key who = guardian cfg) in
          if \<not> authorized_to_set_paused is_owner is_guardian pausing
            then Inl MissingRequiredSignature
          else if paused cfg = pausing then Inr w
          else config_store (cfg\<lparr>paused := pausing\<rparr>) config_ai w)
      | _ \<Rightarrow> Inl NotEnoughAccountKeys)"

definition process_set_guardian ::
  "env \<Rightarrow> pubkey \<Rightarrow> account_info list \<Rightarrow> pubkey \<Rightarrow> world \<Rightarrow> program_error + world" where
  "process_set_guardian E pid accounts g w =
     (case accounts of
        config_ai # owner # it \<Rightarrow>
          bind_res (load_config E pid config_ai w) (\<lambda>cfg.
          if ai_key owner \<noteq> cfg_owner cfg \<or> \<not> is_signer owner then Inl MissingRequiredSignature
          else if g = guardian cfg then Inr w
          else
          bind_res (clock_get E) (\<lambda>now.
          bind_res
            (if guardian_change_needs_schedule (sealed cfg) (setup_deadline cfg) now (guardian cfg) then
               (case it of
                  [] \<Rightarrow> Inl (gate_err GovernanceNotScheduled)
                | gov_ai # _ \<Rightarrow> consume_governance E pid gov_ai (set_guardian_action_id E g) w)
             else Inr w) (\<lambda>w.
          config_store (cfg\<lparr>guardian := g\<rparr>) config_ai w)))
      | _ \<Rightarrow> Inl NotEnoughAccountKeys)"

definition process_send ::
  "env \<Rightarrow> pubkey \<Rightarrow> account_info list \<Rightarrow> send_args \<Rightarrow> world \<Rightarrow> program_error + world" where
  "process_send E pid accounts args w =
     (if sa_amount args = 0 then Inl (gate_err ZeroAmount)
      else if length (sa_receiver args) \<noteq> 20 \<and> length (sa_receiver args) \<noteq> 32
        then Inl (gate_err BadReceiver)
      else case accounts of
        config_ai # asset_ai # payer # user_token # vault # token_program # sent_ai #
        system_program # _ \<Rightarrow>
          bind_res (load_config E pid config_ai w) (\<lambda>cfg.
          if paused cfg then Inl (gate_err GatePaused)
          else if \<not> sealed cfg then Inl (gate_err NotSealed)
          else if \<not> corridor_registered cfg (sa_chain_id_to args)
            then Inl (gate_err CorridorNotRegistered)
          else
          bind_res (load_asset E pid (sa_debridge_id args) asset_ai w) (\<lambda>asset.
          bind_res (spl_mint_and_owner E vault (ai_key token_program) w) (\<lambda>(vault_mint, _).
          bind_res (spl_mint_and_owner E user_token (ai_key token_program) w) (\<lambda>(user_mint, _).
          bind_res (verify_asset_binding E asset (ai_key token_program) (ai_key vault) vault_mint
                      user_mint) (\<lambda>_.
          bind_res (to_wire asset (sa_amount args)) (\<lambda>wire_amount.
          let nonce = nonce_of cfg (sa_chain_id_to args);
              native_sender = arr_bytes (ai_key payer);
              sid = submission_id E (bridge_domain cfg) (sa_debridge_id args)
                (as_bridge_decimals asset) wire_amount (chain_id cfg) (sa_chain_id_to args) nonce
                (sa_receiver args) (sa_auto args) native_sender in
          bind_res (bump_nonce cfg (sa_chain_id_to args)) (\<lambda>cfg.
          bind_res (config_store cfg config_ai w) (\<lambda>w.
          let (expected_sent, sent_bump) = find_program_address E [lit ''sent'', arr_bytes sid] pid in
          if ai_key sent_ai \<noteq> expected_sent then Inl InvalidSeeds
          else
          bind_res (clock_get E) (\<lambda>now.
          bind_res (create_sent_record E pid payer sent_ai system_program sid sent_bump
                      \<lparr>sr_debridge_id = sa_debridge_id args, sr_sender = ai_key payer,
                       sr_source_token = ai_key user_token, sr_mint = as_mint asset,
                       sr_amount = sa_amount args, sr_locked_at = now\<rparr> w) (\<lambda>w.
          bind_res (emit_sent sid args wire_amount (as_bridge_decimals asset) (chain_id cfg) nonce
                      native_sender (as_mint asset) w) (\<lambda>w.
          invoke E pid
            (SplTransfer (ai_key token_program) (ai_key user_token) (ai_key vault) (ai_key payer)
               (sa_amount args))
            [user_token, vault, payer, token_program] w)))))))))))
      | _ \<Rightarrow> Inl NotEnoughAccountKeys)"

definition process_claim ::
  "env \<Rightarrow> pubkey \<Rightarrow> account_info list \<Rightarrow> claim_args \<Rightarrow> world \<Rightarrow> program_error + world" where
  "process_claim E pid accounts args w =
     (case accounts of
        config_ai # asset_ai # executed_ai # payer # vault # receiver_token # vault_authority #
        token_program # system_program # _ \<Rightarrow>
          bind_res (load_config E pid config_ai w) (\<lambda>cfg.
          if paused cfg then Inl (gate_err GatePaused)
          else if \<not> sealed cfg then Inl (gate_err NotSealed)
          else
          bind_res (load_asset E pid (ca_debridge_id args) asset_ai w) (\<lambda>asset.
          if length (ca_receiver args) \<noteq> 32 then Inl (gate_err BadReceiver)
          else if ai_key receiver_token \<noteq> of_be (ca_receiver args) then Inl (gate_err BadReceiver)
          else
          bind_res (spl_mint_and_owner E vault (ai_key token_program) w) (\<lambda>(vault_mint, _).
          bind_res (receiver_token_account E receiver_token (ai_key token_program) w) (\<lambda>(recv_mint, _).
          bind_res (verify_asset_binding E asset (ai_key token_program) (ai_key vault) vault_mint
                      recv_mint) (\<lambda>_.
          if ca_bridge_decimals args \<noteq> as_bridge_decimals asset
            then Inl (gate_err BridgeScaleMismatch)
          else
          let sid = submission_id E (bridge_domain cfg) (ca_debridge_id args) (ca_bridge_decimals args)
                (ca_amount args) (ca_chain_id_from args) (chain_id cfg) (ca_nonce args)
                (ca_receiver args) (ca_auto args) (ca_native_sender args);
              (expected_executed, bump) = find_program_address E [lit ''executed'', arr_bytes sid] pid in
          if ai_key executed_ai \<noteq> expected_executed then Inl InvalidSeeds
          else if is_already_executed (owner_of w executed_ai) (length (data_of w executed_ai)) pid
            then Inl (gate_err AlreadyExecuted)
          else
          bind_res (map_err gate_err (verify_threshold E cfg sid (ca_signatures args))) (\<lambda>_.
          bind_res (to_local asset (ca_amount args)) (\<lambda>local_amount.
          bind_res (create_marker E pid payer executed_ai system_program
                      [lit ''executed'', arr_bytes sid] bump MARKER_CLAIMED w) (\<lambda>w.
          let (auth, auth_bump) = find_program_address E [lit ''vault_authority''] pid in
          if ai_key vault_authority \<noteq> auth then Inl InvalidSeeds
          else
          invoke_signed E pid
            (SplTransfer (ai_key token_program) (ai_key vault) (ai_key receiver_token)
               (ai_key vault_authority) local_amount)
            [vault, receiver_token, vault_authority, token_program]
            [[lit ''vault_authority'', [auth_bump]]] w))))))))
      | _ \<Rightarrow> Inl NotEnoughAccountKeys)"

definition process_set_validator ::
  "env \<Rightarrow> pubkey \<Rightarrow> account_info list \<Rightarrow> address \<Rightarrow> bool \<Rightarrow> world \<Rightarrow> program_error + world" where
  "process_set_validator E pid accounts v active w =
     (case accounts of
        config_ai # owner # it \<Rightarrow>
          bind_res (load_config E pid config_ai w) (\<lambda>cfg.
          if ai_key owner \<noteq> cfg_owner cfg \<or> \<not> is_signer owner then Inl MissingRequiredSignature
          else if v = 0 then Inl (gate_err ZeroValidator)
          else
          let present = is_validator cfg v in
          if active \<and> \<not> present then
            (if of_nat (length (validators cfg)) \<ge> max_validators cfg then Inl (gate_err AtCapacity)
             else
             bind_res
               (case it of
                  [] \<Rightarrow> Inl (gate_err GovernanceNotScheduled)
                | gov_ai # _ \<Rightarrow> consume_governance E pid gov_ai (add_validator_action_id E v) w) (\<lambda>w.
             config_store (cfg\<lparr>validators := validators cfg @ [v]\<rparr>) config_ai w))
          else if \<not> active \<and> present then
            (let vs = filter (\<lambda>x. x \<noteq> v) (validators cfg) in
             if of_nat (length vs) < threshold cfg then Inl InvalidArgument
             else config_store (cfg\<lparr>validators := vs\<rparr>) config_ai w)
          else Inr w)
      | _ \<Rightarrow> Inl NotEnoughAccountKeys)"

definition process_set_threshold ::
  "env \<Rightarrow> pubkey \<Rightarrow> account_info list \<Rightarrow> u32 \<Rightarrow> world \<Rightarrow> program_error + world" where
  "process_set_threshold E pid accounts t w =
     (case accounts of
        config_ai # owner # it \<Rightarrow>
          bind_res (load_config E pid config_ai w) (\<lambda>cfg.
          if ai_key owner \<noteq> cfg_owner cfg \<or> \<not> is_signer owner then Inl MissingRequiredSignature
          else if t = 0 \<or> t > of_nat (length (validators cfg)) then Inl InvalidArgument
          else
          bind_res (check_threshold_cap t) (\<lambda>_.
          bind_res
            (if t < threshold cfg then
               (case it of
                  [] \<Rightarrow> Inl (gate_err GovernanceNotScheduled)
                | gov_ai # _ \<Rightarrow> consume_governance E pid gov_ai (lower_threshold_action_id E t) w)
             else Inr w) (\<lambda>w.
          config_store (cfg\<lparr>threshold := t\<rparr>) config_ai w)))
      | _ \<Rightarrow> Inl NotEnoughAccountKeys)"

text \<open>
  \<open>rerun\<close> and \<open>legacy_upgrade\<close> of \<open>process_register_asset\<close>: is the registration an
  identical repetition, or the upgrade of a record of the first program version?
\<close>

definition register_mode ::
  "env \<Rightarrow> pubkey \<Rightarrow> account_info \<Rightarrow> asset_config \<Rightarrow> world \<Rightarrow> program_error + (bool \<times> bool)" where
  "register_mode E pid asset_ai record w =
     (if data_of w asset_ai = [] then Inr (False, False)
      else if owner_of w asset_ai \<noteq> pid then Inl IllegalOwner
      else
      bind_res (decode_asset_config (data_of w asset_ai)) (\<lambda>existing.
      if legacy_asset_upgrade_allowed (length (data_of w asset_ai)) existing record
        then Inr (False, True)
      else bind_res (asset_write_allowed existing record) (\<lambda>write. Inr (\<not> write, False))))"

definition process_register_asset ::
  "env \<Rightarrow> pubkey \<Rightarrow> account_info list \<Rightarrow> bytes32 \<Rightarrow> u8 \<Rightarrow> world \<Rightarrow> program_error + world" where
  "process_register_asset E pid accounts did bridge_decimals w =
     (case accounts of
        config_ai # owner # asset_ai # mint # vault # token_program # system_program #
        vault_binding_ai # it \<Rightarrow>
          bind_res (load_config E pid config_ai w) (\<lambda>cfg.
          if ai_key owner \<noteq> cfg_owner cfg \<or> \<not> is_signer owner then Inl MissingRequiredSignature
          else
          bind_res (check_asset_accounts E pid mint vault token_program bridge_decimals w) (\<lambda>local_decimals.
          let (expected_asset, bump) = find_program_address E [lit ''asset'', arr_bytes did] pid in
          if ai_key asset_ai \<noteq> expected_asset then Inl InvalidSeeds
          else
          let record = \<lparr>as_debridge_id = did, as_mint = ai_key mint, as_vault = ai_key vault,
                as_bridge_decimals = bridge_decimals, as_local_decimals = local_decimals\<rparr>;
              space = ASSET_CONFIG_LEN + ASSET_CONFIG_SLACK in
          bind_res (register_mode E pid asset_ai record w) (\<lambda>(rerun, legacy_upgrade).
          bind_res
            (if \<not> rerun \<and> \<not> legacy_upgrade then
               bind_res (clock_get E) (\<lambda>now.
               if \<not> in_setup_phase (sealed cfg) (setup_deadline cfg) now then
                 (case it of
                    [] \<Rightarrow> Inl (gate_err GovernanceNotScheduled)
                  | gov_ai # _ \<Rightarrow>
                      consume_governance E pid gov_ai
                        (register_asset_action_id E did (ai_key mint) (ai_key vault) bridge_decimals) w)
               else Inr w)
             else Inr w) (\<lambda>w.
          bind_res (bind_vault E pid owner vault_binding_ai system_program (ai_key vault)
                      \<lparr>vb_mint = ai_key mint, vb_bridge_decimals = bridge_decimals\<rparr> w) (\<lambda>w.
          if rerun then Inr w
          else
          bind_res
            (if data_of w asset_ai = [] then
               create_pda_account E pid owner asset_ai system_program
                 [lit ''asset'', arr_bytes did] bump space w
             else if length (data_of w asset_ai) < space then
               grow_program_account E pid owner asset_ai system_program space w
             else Inr w) (\<lambda>w.
          write_zero_padded (ser_asset_config record) asset_ai w))))))
      | _ \<Rightarrow> Inl NotEnoughAccountKeys)"

definition process_seal ::
  "env \<Rightarrow> pubkey \<Rightarrow> account_info list \<Rightarrow> world \<Rightarrow> program_error + world" where
  "process_seal E pid accounts w =
     (case accounts of
        config_ai # owner # _ \<Rightarrow>
          bind_res (load_config E pid config_ai w) (\<lambda>cfg.
          if ai_key owner \<noteq> cfg_owner cfg \<or> \<not> is_signer owner then Inl MissingRequiredSignature
          else if sealed cfg then Inl (gate_err AlreadySealed)
          else config_store (cfg\<lparr>sealed := True\<rparr>) config_ai w)
      | _ \<Rightarrow> Inl NotEnoughAccountKeys)"

section \<open>Dispatch\<close>

fun gate_step ::
  "env \<Rightarrow> pubkey \<Rightarrow> account_info list \<Rightarrow> gate_instruction \<Rightarrow> world \<Rightarrow> program_error + world" where
  "gate_step E pid accs (Init args) w = process_init E pid accs args w"
| "gate_step E pid accs (Send args) w = process_send E pid accs args w"
| "gate_step E pid accs (Claim args) w = process_claim E pid accs args w"
| "gate_step E pid accs (SetValidator v active) w = process_set_validator E pid accs v active w"
| "gate_step E pid accs (SetThreshold t) w = process_set_threshold E pid accs t w"
| "gate_step E pid accs (RegisterAsset did bd) w = process_register_asset E pid accs did bd w"
| "gate_step E pid accs (RegisterCorridor c) w = process_register_corridor E pid accs c w"
| "gate_step E pid accs Pause w = process_set_paused E pid accs True w"
| "gate_step E pid accs Unpause w = process_set_paused E pid accs False w"
| "gate_step E pid accs (SetGuardian g) w = process_set_guardian E pid accs g w"
| "gate_step E pid accs (Cancel args) w = process_cancel E pid accs args w"
| "gate_step E pid accs (Refund args) w = process_refund E pid accs args w"
| "gate_step E pid accs (ScheduleGovernance i) w = Inl (gate_err UseTypedSchedule)"
| "gate_step E pid accs (ScheduleAction a) w = process_schedule_action E pid accs a w"
| "gate_step E pid accs (CancelScheduledGovernance i) w =
     process_cancel_scheduled_governance E pid accs i w"
| "gate_step E pid accs Seal w = process_seal E pid accs w"

definition process_instruction ::
  "env \<Rightarrow> pubkey \<Rightarrow> account_info list \<Rightarrow> bytes \<Rightarrow> world \<Rightarrow> program_error + world" where
  "process_instruction E pid accs data w =
     bind_res (ok_or (try_from_slice de_instruction data) InvalidInstructionData) (\<lambda>ix.
     gate_step E pid accs ix w)"

end
