(* ===== verification/GateSuccess.thy ===== *)
theory GateSuccess
  imports GateHandlers
begin

text \<open>
  What the success of a handler of the gate program implies: one elimination rule
  per fund-moving handler, from which the properties of the handler follow, and
  the monotonicity of the accounts the program owns under every instruction.
\<close>

lemma find_pda_eq: "find_program_address E seeds pid = (pda E pid seeds, snd (find_program_address E seeds pid))"
  by simp

lemma spl_mint_and_owner_Inr:
  "spl_mint_and_owner E ai tp w = Inr p \<longleftrightarrow>
     owner_of w ai = tp \<and>
     (\<exists>a. unpack_account E (data_of w ai) = Some a \<and> p = (spl_mint a, spl_owner a))"
  by (auto simp: spl_mint_and_owner_def res_simps)

lemma receiver_token_account_Inr:
  "receiver_token_account E ai tp w = Inr p \<longleftrightarrow>
     owner_of w ai = tp \<and>
     (\<exists>a. unpack_account E (data_of w ai) = Some a \<and> p = (spl_mint a, spl_owner a))"
  by (auto simp: receiver_token_account_def res_simps)

lemma verify_asset_binding_Inr:
  "verify_asset_binding E a tp vk vm cm = Inr () \<longleftrightarrow>
     tp = spl_token_id E \<and> vk = as_vault a \<and> vm = as_mint a \<and> cm = as_mint a"
  by (auto simp: verify_asset_binding_def)

lemma load_asset_Inr:
  "load_asset E pid did ai w = Inr a \<longleftrightarrow>
     ai_key ai = pda E pid [lit ''asset'', arr_bytes did] \<and> owner_of w ai = pid \<and>
     decode_asset_config (data_of w ai) = Inr a \<and> as_debridge_id a = did"
  by (auto simp: load_asset_def verify_asset_account_def res_simps)

definition claim_sid :: "env \<Rightarrow> config \<Rightarrow> claim_args \<Rightarrow> bytes32" where
  "claim_sid E cfg args =
     submission_id E (bridge_domain cfg) (ca_debridge_id args) (ca_bridge_decimals args)
       (ca_amount args) (ca_chain_id_from args) (chain_id cfg) (ca_nonce args)
       (ca_receiver args) (ca_auto args) (ca_native_sender args)"

definition cancel_sid :: "env \<Rightarrow> config \<Rightarrow> cancel_args \<Rightarrow> bytes32" where
  "cancel_sid E cfg args =
     submission_id E (bridge_domain cfg) (xa_debridge_id args) (xa_bridge_decimals args)
       (xa_amount args) (xa_chain_id_from args) (chain_id cfg) (xa_nonce args)
       (xa_receiver args) (xa_auto args) (xa_native_sender args)"

definition refund_sid :: "env \<Rightarrow> config \<Rightarrow> refund_args \<Rightarrow> bytes32" where
  "refund_sid E cfg args =
     submission_id E (bridge_domain cfg) (ra_debridge_id args) (ra_bridge_decimals args)
       (ra_amount args) (chain_id cfg) (ra_chain_id_to args) (ra_nonce args)
       (ra_receiver args) (ra_auto args) (ra_native_sender args)"

abbreviation bump_of :: "env \<Rightarrow> pubkey \<Rightarrow> bytes list \<Rightarrow> u8" where
  "bump_of E pid seeds \<equiv> snd (find_program_address E seeds pid)"

lemma process_claim_iff:
  "process_claim E pid (config_ai # asset_ai # executed_ai # payer # vault # receiver_token #
      vault_authority # token_program # sys # rest) args w = Inr w' \<longleftrightarrow>
   (\<exists>cfg asset local_amount w1 va ra.
      load_config E pid config_ai w = Inr cfg \<and> \<not> paused cfg \<and> sealed cfg \<and>
      load_asset E pid (ca_debridge_id args) asset_ai w = Inr asset \<and>
      length (ca_receiver args) = 32 \<and> ai_key receiver_token = of_be (ca_receiver args) \<and>
      ai_key token_program = spl_token_id E \<and> ai_key vault = as_vault asset \<and>
      owner_of w vault = spl_token_id E \<and> owner_of w receiver_token = spl_token_id E \<and>
      unpack_account E (data_of w vault) = Some va \<and> spl_mint va = as_mint asset \<and>
      unpack_account E (data_of w receiver_token) = Some ra \<and> spl_mint ra = as_mint asset \<and>
      ca_bridge_decimals args = as_bridge_decimals asset \<and>
      ai_key executed_ai = pda E pid [lit ''executed'', arr_bytes (claim_sid E cfg args)] \<and>
      \<not> is_already_executed (owner_of w executed_ai) (length (data_of w executed_ai)) pid \<and>
      verify_threshold E cfg (claim_sid E cfg args) (ca_signatures args) = Inr () \<and>
      to_local asset (ca_amount args) = Inr local_amount \<and>
      create_marker E pid payer executed_ai sys
        [lit ''executed'', arr_bytes (claim_sid E cfg args)]
        (bump_of E pid [lit ''executed'', arr_bytes (claim_sid E cfg args)]) MARKER_CLAIMED w = Inr w1 \<and>
      ai_key vault_authority = pda E pid [lit ''vault_authority''] \<and>
      invoke_signed E pid (SplTransfer (ai_key token_program) (ai_key vault) (ai_key receiver_token)
        (ai_key vault_authority) local_amount) [vault, receiver_token, vault_authority, token_program]
        [[lit ''vault_authority'', [bump_of E pid [lit ''vault_authority'']]]] w1 = Inr w')"
  unfolding process_claim_def claim_sid_def [symmetric]
  by (auto simp: res_simps split_beta Let_def spl_mint_and_owner_Inr receiver_token_account_Inr
      verify_asset_binding_Inr)

lemmas process_claim_success = process_claim_iff [THEN iffD1]

lemma process_cancel_iff:
  "process_cancel E pid (config_ai # executed_ai # payer # sys # rest) args w = Inr w' \<longleftrightarrow>
   (\<exists>cfg w1.
      load_config E pid config_ai w = Inr cfg \<and> \<not> paused cfg \<and>
      ai_key executed_ai = pda E pid [lit ''executed'', arr_bytes (cancel_sid E cfg args)] \<and>
      \<not> is_already_executed (owner_of w executed_ai) (length (data_of w executed_ai)) pid \<and>
      verify_threshold E cfg (cancel_id E (cancel_sid E cfg args)) (xa_signatures args) = Inr () \<and>
      create_marker E pid payer executed_ai sys
        [lit ''executed'', arr_bytes (cancel_sid E cfg args)]
        (bump_of E pid [lit ''executed'', arr_bytes (cancel_sid E cfg args)]) MARKER_CANCELLED w = Inr w1 \<and>
      emit_lifecycle CANCELLED_EVENT_TAG (cancel_sid E cfg args) (xa_debridge_id args)
        (xa_chain_id_from args) (xa_nonce args) w1 = Inr w')"
  unfolding process_cancel_def cancel_sid_def [symmetric]
  by (auto simp: res_simps split_beta Let_def)

lemmas process_cancel_success = process_cancel_iff [THEN iffD1]

lemma process_refund_iff:
  "process_refund E pid (config_ai # asset_ai # sent_ai # refunded_ai # payer # vault #
      source_token # vault_authority # token_program # sys # rest) args w = Inr w' \<longleftrightarrow>
   (\<exists>cfg sent asset w1 w2 va sa.
      load_config E pid config_ai w = Inr cfg \<and>
      ai_key refunded_ai = pda E pid [lit ''refunded'', arr_bytes (refund_sid E cfg args)] \<and>
      \<not> is_already_executed (owner_of w refunded_ai) (length (data_of w refunded_ai)) pid \<and>
      load_sent_record E pid (refund_sid E cfg args) sent_ai w = Inr sent \<and>
      sr_debridge_id sent = ra_debridge_id args \<and>
      verify_threshold E cfg (refund_id E (refund_sid E cfg args)) (ra_signatures args) = Inr () \<and>
      load_asset E pid (ra_debridge_id args) asset_ai w = Inr asset \<and>
      ai_key source_token = sr_source_token sent \<and>
      ai_key token_program = spl_token_id E \<and> ai_key vault = as_vault asset \<and>
      owner_of w vault = spl_token_id E \<and> owner_of w source_token = spl_token_id E \<and>
      unpack_account E (data_of w vault) = Some va \<and> spl_mint va = as_mint asset \<and>
      unpack_account E (data_of w source_token) = Some sa \<and> spl_mint sa = as_mint asset \<and>
      create_marker E pid payer refunded_ai sys
        [lit ''refunded'', arr_bytes (refund_sid E cfg args)]
        (bump_of E pid [lit ''refunded'', arr_bytes (refund_sid E cfg args)]) MARKER_CLAIMED w = Inr w1 \<and>
      ai_key vault_authority = pda E pid [lit ''vault_authority''] \<and>
      invoke_signed E pid (SplTransfer (ai_key token_program) (ai_key vault) (ai_key source_token)
        (ai_key vault_authority) (sr_amount sent)) [vault, source_token, vault_authority, token_program]
        [[lit ''vault_authority'', [bump_of E pid [lit ''vault_authority'']]]]
        (set_data sent_ai (replicate (length (data_of w1 sent_ai)) 0) w1) = Inr w2 \<and>
      emit_lifecycle REFUNDED_EVENT_TAG (refund_sid E cfg args) (ra_debridge_id args)
        (chain_id cfg) (ra_nonce args) w2 = Inr w')"
  unfolding process_refund_def refund_sid_def [symmetric]
  by (auto simp: res_simps split_beta Let_def spl_mint_and_owner_Inr receiver_token_account_Inr
      verify_asset_binding_Inr)

lemmas process_refund_success = process_refund_iff [THEN iffD1]

lemma process_send_iff:
  "process_send E pid (config_ai # asset_ai # payer # user_token # vault # token_program #
      sent_ai # sys # rest) args w = Inr w' \<longleftrightarrow>
   (\<exists>cfg asset wire cfg' w1 now w2 w3 va ua sid.
      sa_amount args \<noteq> 0 \<and> receiver_width_ok (sa_receiver args) \<and>
      load_config E pid config_ai w = Inr cfg \<and> \<not> paused cfg \<and> sealed cfg \<and>
      corridor_registered cfg (sa_chain_id_to args) \<and>
      load_asset E pid (sa_debridge_id args) asset_ai w = Inr asset \<and>
      ai_key token_program = spl_token_id E \<and> ai_key vault = as_vault asset \<and>
      owner_of w vault = spl_token_id E \<and> owner_of w user_token = spl_token_id E \<and>
      unpack_account E (data_of w vault) = Some va \<and> spl_mint va = as_mint asset \<and>
      unpack_account E (data_of w user_token) = Some ua \<and> spl_mint ua = as_mint asset \<and>
      to_wire asset (sa_amount args) = Inr wire \<and>
      sid = submission_id E (bridge_domain cfg) (sa_debridge_id args) (as_bridge_decimals asset) wire
        (chain_id cfg) (sa_chain_id_to args) (nonce_of cfg (sa_chain_id_to args))
        (sa_receiver args) (sa_auto args) (arr_bytes (ai_key payer)) \<and>
      bump_nonce cfg (sa_chain_id_to args) = Inr cfg' \<and>
      config_store cfg' config_ai w = Inr w1 \<and>
      ai_key sent_ai = pda E pid [lit ''sent'', arr_bytes sid] \<and>
      clock_get E = Inr now \<and>
      create_sent_record E pid payer sent_ai sys sid (bump_of E pid [lit ''sent'', arr_bytes sid])
        \<lparr>sr_debridge_id = sa_debridge_id args, sr_sender = ai_key payer,
         sr_source_token = ai_key user_token, sr_mint = as_mint asset,
         sr_amount = sa_amount args, sr_locked_at = now\<rparr> w1 = Inr w2 \<and>
      emit_sent sid args wire (as_bridge_decimals asset) (chain_id cfg')
        (nonce_of cfg (sa_chain_id_to args)) (arr_bytes (ai_key payer)) (as_mint asset) w2 = Inr w3 \<and>
      invoke E pid (SplTransfer (ai_key token_program) (ai_key user_token) (ai_key vault)
        (ai_key payer) (sa_amount args)) [user_token, vault, payer, token_program] w3 = Inr w')"
  unfolding process_send_def receiver_width_ok_def
  by (auto simp: res_simps split_beta Let_def spl_mint_and_owner_Inr verify_asset_binding_Inr)

lemmas process_send_success = process_send_iff [THEN iffD1]

text \<open>The accounts written by a registration, in order; the clauses name what the caller needs.\<close>

lemma process_register_asset_success:
  assumes "process_register_asset E pid (config_ai # ow # asset_ai # mint # vault # token_program #
      sys # binding_ai # it) did bd w = Inr w'"
  shows "\<exists>cfg ld rerun legacy w1 w2.
      load_config E pid config_ai w = Inr cfg \<and> ai_key ow = cfg_owner cfg \<and> is_signer ow \<and>
      check_asset_accounts E pid mint vault token_program bd w = Inr ld \<and>
      ai_key asset_ai = pda E pid [lit ''asset'', arr_bytes did] \<and>
      register_mode E pid asset_ai \<lparr>as_debridge_id = did, as_mint = ai_key mint,
        as_vault = ai_key vault, as_bridge_decimals = bd, as_local_decimals = ld\<rparr> w = Inr (rerun, legacy) \<and>
      (if \<not> rerun \<and> \<not> legacy then
         (\<exists>now. clock_get E = Inr now \<and>
            (if in_setup_phase (sealed cfg) (setup_deadline cfg) now then w1 = w
             else \<exists>gov_ai its. it = gov_ai # its \<and> consume_governance E pid gov_ai
               (register_asset_action_id E did (ai_key mint) (ai_key vault) bd) w = Inr w1))
       else w1 = w) \<and>
      bind_vault E pid ow binding_ai sys (ai_key vault)
        \<lparr>vb_mint = ai_key mint, vb_bridge_decimals = bd\<rparr> w1 = Inr w2 \<and>
      (if rerun then w' = w2
       else \<exists>w3.
         (if data_of w2 asset_ai = [] then
            create_pda_account E pid ow asset_ai sys [lit ''asset'', arr_bytes did]
              (bump_of E pid [lit ''asset'', arr_bytes did]) (ASSET_CONFIG_LEN + ASSET_CONFIG_SLACK) w2 = Inr w3
          else if length (data_of w2 asset_ai) < ASSET_CONFIG_LEN + ASSET_CONFIG_SLACK then
            grow_program_account E pid ow asset_ai sys (ASSET_CONFIG_LEN + ASSET_CONFIG_SLACK) w2 = Inr w3
          else w3 = w2) \<and>
         write_zero_padded (ser_asset_config \<lparr>as_debridge_id = did, as_mint = ai_key mint,
           as_vault = ai_key vault, as_bridge_decimals = bd, as_local_decimals = ld\<rparr>) asset_ai w3 = Inr w')"
proof -
  define R where "R ld = \<lparr>as_debridge_id = did, as_mint = ai_key mint,
        as_vault = ai_key vault, as_bridge_decimals = bd, as_local_decimals = ld\<rparr>" for ld
  define S where "S = ASSET_CONFIG_LEN + ASSET_CONFIG_SLACK"
  note assms [unfolded process_register_asset_def list.case Let_def split_beta bind_res_eq_Inr
      if_Inl_eq_Inr split_paired_Ex fst_conv snd_conv de_Morgan_disj not_not]
  then obtain cfg ld rerun legacy w1 w2 where
    a: "load_config E pid config_ai w = Inr cfg" "ai_key ow = cfg_owner cfg" "is_signer ow"
    "check_asset_accounts E pid mint vault token_program bd w = Inr ld"
    "ai_key asset_ai = pda E pid [lit ''asset'', arr_bytes did]"
    "register_mode E pid asset_ai (R ld) w = Inr (rerun, legacy)"
    and w1: "(if \<not> rerun \<and> \<not> legacy then
        bind_res (clock_get E) (\<lambda>now.
          if \<not> in_setup_phase (sealed cfg) (setup_deadline cfg) now then
            (case it of
               [] \<Rightarrow> Inl (gate_err GovernanceNotScheduled)
             | gov_ai # _ \<Rightarrow> consume_governance E pid gov_ai
                 (register_asset_action_id E did (ai_key mint) (ai_key vault) bd) w)
          else Inr w)
        else Inr w) = Inr w1"
    and w2: "bind_vault E pid ow binding_ai sys (ai_key vault)
        \<lparr>vb_mint = ai_key mint, vb_bridge_decimals = bd\<rparr> w1 = Inr w2"
    and w3: "(if rerun then Inr w2
        else bind_res
            (if data_of w2 asset_ai = [] then
               create_pda_account E pid ow asset_ai sys [lit ''asset'', arr_bytes did]
                 (bump_of E pid [lit ''asset'', arr_bytes did]) S w2
             else if length (data_of w2 asset_ai) < S then
               grow_program_account E pid ow asset_ai sys S w2
             else Inr w2) (\<lambda>w. write_zero_padded (ser_asset_config (R ld)) asset_ai w)) = Inr w'"
    unfolding R_def S_def by blast
  have "if \<not> rerun \<and> \<not> legacy then
         (\<exists>now. clock_get E = Inr now \<and>
            (if in_setup_phase (sealed cfg) (setup_deadline cfg) now then w1 = w
             else \<exists>gov_ai its. it = gov_ai # its \<and> consume_governance E pid gov_ai
               (register_asset_action_id E did (ai_key mint) (ai_key vault) bd) w = Inr w1))
       else w1 = w"
    using w1 by (auto simp: res_simps split: if_splits list.splits)
  moreover have "if rerun then w' = w2
       else \<exists>w3.
         (if data_of w2 asset_ai = [] then
            create_pda_account E pid ow asset_ai sys [lit ''asset'', arr_bytes did]
              (bump_of E pid [lit ''asset'', arr_bytes did]) S w2 = Inr w3
          else if length (data_of w2 asset_ai) < S then
            grow_program_account E pid ow asset_ai sys S w2 = Inr w3
          else w3 = w2) \<and>
         write_zero_padded (ser_asset_config (R ld)) asset_ai w3 = Inr w'"
    using w3 by (auto simp: res_simps split: if_splits)
  ultimately show ?thesis using a w2 unfolding R_def S_def by blast
qed

section \<open>Shapes of the account lists\<close>

lemma claim_accs:
  assumes "process_claim E pid accs args w = Inr w'"
  obtains a1 a2 a3 a4 a5 a6 a7 a8 a9 rest
  where "accs = a1 # a2 # a3 # a4 # a5 # a6 # a7 # a8 # a9 # rest"
  using assms unfolding process_claim_def by (auto split: list.splits)

lemma cancel_accs:
  assumes "process_cancel E pid accs args w = Inr w'"
  obtains a1 a2 a3 a4 rest where "accs = a1 # a2 # a3 # a4 # rest"
  using assms unfolding process_cancel_def by (auto split: list.splits)

lemma refund_accs:
  assumes "process_refund E pid accs args w = Inr w'"
  obtains a1 a2 a3 a4 a5 a6 a7 a8 a9 a10 rest
  where "accs = a1 # a2 # a3 # a4 # a5 # a6 # a7 # a8 # a9 # a10 # rest"
  using assms unfolding process_refund_def by (auto split: list.splits)

lemma send_accs:
  assumes "process_send E pid accs args w = Inr w'"
  obtains a1 a2 a3 a4 a5 a6 a7 a8 rest
  where "accs = a1 # a2 # a3 # a4 # a5 # a6 # a7 # a8 # rest"
  using assms unfolding process_send_def by (auto split: list.splits if_splits)

lemma register_asset_accs:
  assumes "process_register_asset E pid accs did bd w = Inr w'"
  obtains a1 a2 a3 a4 a5 a6 a7 a8 rest
  where "accs = a1 # a2 # a3 # a4 # a5 # a6 # a7 # a8 # rest"
  using assms unfolding process_register_asset_def by (auto split: list.splits)

end
