(* ===== verification/GateAdminSuccess.thy ===== *)
theory GateAdminSuccess
  imports GateHandlers
begin

text \<open>
  What the success of an administrative handler of the gate program implies, one
  rule per handler. The conclusion repeats the decision the handler took, so that
  each property of the handler follows from its rule.
\<close>

definition init_config :: "pubkey \<Rightarrow> init_args \<Rightarrow> i64 \<Rightarrow> config" where
  "init_config payer args now =
     \<lparr>cfg_owner = payer, bridge_domain = ia_bridge_domain args,
      guardian = ia_guardian args, validators = ia_validators args,
      threshold = ia_threshold args, chain_id = ia_chain_id args, paused = False,
      max_validators = ia_max_validators args, max_corridors = ia_max_corridors args,
      nonce_to = [], sealed = False, setup_deadline = isat_add now SETUP_WINDOW\<rparr>"

lemma process_init_success:
  assumes "process_init E pid accs args w = Inr w'"
  shows "\<exists>config_ai payer sys program_ai program_data_ai rest bump w1 now.
      accs = config_ai # payer # sys # program_ai # program_data_ai # rest \<and>
      ai_key config_ai = pda E pid [lit ''config''] \<and> data_of w config_ai = [] \<and>
      validate_validator_set (ia_validators args) (ia_threshold args) = Inr () \<and>
      ia_chain_id args \<noteq> 0 \<and> \<not> ia_max_validators args < of_nat (length (ia_validators args)) \<and>
      ia_max_corridors args \<noteq> 0 \<and> is_signer payer \<and>
      require_upgrade_authority E pid program_ai program_data_ai (ai_key payer) w = Inr () \<and>
      create_pda_account E pid payer config_ai sys [lit ''config''] bump
        (config_space (ia_max_validators args) (ia_max_corridors args) + CONFIG_SLACK) w = Inr w1 \<and>
      ia_bridge_domain args \<noteq> 0 \<and> clock_get E = Inr now \<and>
      config_store (init_config (ai_key payer) args now) config_ai w1 = Inr w'"
  using assms unfolding process_init_def init_config_def [symmetric]
  by (auto simp: res_simps split_beta Let_def validate_init_chain_id_def split: list.splits)

lemma process_register_corridor_success:
  assumes "process_register_corridor E pid accs c w = Inr w'"
  shows "\<exists>config_ai ow rest cfg.
      accs = config_ai # ow # rest \<and> load_config E pid config_ai w = Inr cfg \<and>
      ai_key ow = cfg_owner cfg \<and> is_signer ow \<and> c \<noteq> chain_id cfg \<and>
      (if corridor_registered cfg c then w' = w
       else of_nat (length (nonce_to cfg)) < max_corridors cfg \<and>
         config_store (cfg\<lparr>nonce_to := nonce_to cfg @ [(c, 0)]\<rparr>) config_ai w = Inr w')"
  using assms unfolding process_register_corridor_def
  by (auto simp: res_simps not_le split: list.splits if_splits)

lemma process_set_paused_success:
  assumes "process_set_paused E pid accs pausing w = Inr w'"
  shows "\<exists>config_ai who rest cfg.
      accs = config_ai # who # rest \<and> load_config E pid config_ai w = Inr cfg \<and> is_signer who \<and>
      authorized_to_set_paused (ai_key who = cfg_owner cfg)
        (guardian cfg \<noteq> 0 \<and> ai_key who = guardian cfg) pausing \<and>
      (if paused cfg = pausing then w' = w
       else config_store (cfg\<lparr>paused := pausing\<rparr>) config_ai w = Inr w')"
  using assms unfolding process_set_paused_def Let_def
  by (auto simp only: res_simps not_not sum.inject split: list.splits if_splits)

lemma gov_gate_eq_Inr:
  "(if c then (case it of [] \<Rightarrow> Inl e | gov_ai # its \<Rightarrow> f gov_ai) else Inr w) = Inr w1 \<longleftrightarrow>
     (if c then \<exists>gov_ai its. it = gov_ai # its \<and> f gov_ai = Inr w1 else w1 = w)"
  by (auto split: list.splits)

lemma if_same_eq_Inr: "(if c then Inr x else r) = Inr y \<longleftrightarrow> (if c then y = x else r = Inr y)"
  by auto

lemma process_set_guardian_success:
  assumes "process_set_guardian E pid accs g w = Inr w'"
  shows "\<exists>config_ai ow it cfg.
      accs = config_ai # ow # it \<and> load_config E pid config_ai w = Inr cfg \<and>
      ai_key ow = cfg_owner cfg \<and> is_signer ow \<and>
      (if g = guardian cfg then w' = w
       else \<exists>now. clock_get E = Inr now \<and> (\<exists>w1.
         (if guardian_change_needs_schedule (sealed cfg) (setup_deadline cfg) now (guardian cfg)
          then \<exists>gov_ai its. it = gov_ai # its \<and>
            consume_governance E pid gov_ai (set_guardian_action_id E g) w = Inr w1
          else w1 = w) \<and>
         config_store (cfg\<lparr>guardian := g\<rparr>) config_ai w1 = Inr w'))"
proof -
  obtain config_ai ow it where accs: "accs = config_ai # ow # it"
    using assms unfolding process_set_guardian_def by (auto split: list.splits)
  note assms [unfolded process_set_guardian_def accs list.case bind_res_eq_Inr if_Inl_eq_Inr
      if_same_eq_Inr gov_gate_eq_Inr de_Morgan_disj not_not]
  then show ?thesis unfolding accs by blast
qed

lemma process_set_validator_success:
  assumes "process_set_validator E pid accs v active w = Inr w'"
  shows "\<exists>config_ai ow it cfg.
      accs = config_ai # ow # it \<and> load_config E pid config_ai w = Inr cfg \<and>
      ai_key ow = cfg_owner cfg \<and> is_signer ow \<and> v \<noteq> 0 \<and>
      (if active \<and> \<not> is_validator cfg v then
         of_nat (length (validators cfg)) < max_validators cfg \<and>
         (\<exists>gov_ai w1. consume_governance E pid gov_ai (add_validator_action_id E v) w = Inr w1 \<and>
            config_store (cfg\<lparr>validators := validators cfg @ [v]\<rparr>) config_ai w1 = Inr w')
       else if \<not> active \<and> is_validator cfg v then
         threshold cfg \<le> of_nat (length (filter (\<lambda>x. x \<noteq> v) (validators cfg))) \<and>
         config_store (cfg\<lparr>validators := filter (\<lambda>x. x \<noteq> v) (validators cfg)\<rparr>) config_ai w = Inr w'
       else w' = w)"
  using assms unfolding process_set_validator_def Let_def
  by (auto simp: res_simps not_le not_less split: list.splits if_splits)

lemma process_set_threshold_success:
  assumes "process_set_threshold E pid accs t w = Inr w'"
  shows "\<exists>config_ai ow it cfg w1.
      accs = config_ai # ow # it \<and> load_config E pid config_ai w = Inr cfg \<and>
      ai_key ow = cfg_owner cfg \<and> is_signer ow \<and>
      t \<noteq> 0 \<and> t \<le> of_nat (length (validators cfg)) \<and> t \<le> MAX_THRESHOLD \<and>
      (if t < threshold cfg
       then \<exists>gov_ai its. it = gov_ai # its \<and>
            consume_governance E pid gov_ai (lower_threshold_action_id E t) w = Inr w1
       else w1 = w) \<and>
      config_store (cfg\<lparr>threshold := t\<rparr>) config_ai w1 = Inr w'"
proof -
  obtain config_ai ow it where accs: "accs = config_ai # ow # it"
    using assms unfolding process_set_threshold_def by (auto split: list.splits)
  note assms [unfolded process_set_threshold_def check_threshold_cap_def accs list.case
      bind_res_eq_Inr if_Inl_eq_Inr gov_gate_eq_Inr de_Morgan_disj not_not not_less]
  then show ?thesis unfolding accs by blast
qed

lemma process_seal_success:
  assumes "process_seal E pid accs w = Inr w'"
  shows "\<exists>config_ai ow rest cfg.
      accs = config_ai # ow # rest \<and> load_config E pid config_ai w = Inr cfg \<and>
      ai_key ow = cfg_owner cfg \<and> is_signer ow \<and> \<not> sealed cfg \<and>
      config_store (cfg\<lparr>sealed := True\<rparr>) config_ai w = Inr w'"
  using assms unfolding process_seal_def
  by (auto simp: res_simps split: list.splits)

text \<open>The id that \<open>process_schedule_action\<close> schedules, given the accounts after the first four.\<close>

definition scheduled_id :: "env \<Rightarrow> governance_action \<Rightarrow> account_info list \<Rightarrow> bytes32" where
  "scheduled_id E action it =
     (case action of
        ActAddValidator v \<Rightarrow> add_validator_action_id E v
      | ActLowerThreshold t \<Rightarrow> lower_threshold_action_id E t
      | ActRegisterAsset did bd \<Rightarrow>
          (case it of mint # vault # _ \<Rightarrow>
             register_asset_action_id E did (ai_key mint) (ai_key vault) bd | _ \<Rightarrow> 0)
      | ActSetGuardian g \<Rightarrow> set_guardian_action_id E g)"

definition schedulable :: "config \<Rightarrow> governance_action \<Rightarrow> bool" where
  "schedulable cfg action =
     (case action of
        ActAddValidator v \<Rightarrow> v \<noteq> 0 \<and> \<not> is_validator cfg v \<and>
          of_nat (length (validators cfg)) < max_validators cfg
      | ActLowerThreshold t \<Rightarrow> t \<noteq> 0 \<and> t < threshold cfg
      | _ \<Rightarrow> True)"

lemma process_schedule_action_success:
  assumes "process_schedule_action E pid accs action w = Inr w'"
  shows "\<exists>config_ai ow gov_ai sys it cfg ready.
      accs = config_ai # ow # gov_ai # sys # it \<and> load_config E pid config_ai w = Inr cfg \<and>
      ai_key ow = cfg_owner cfg \<and> is_signer ow \<and> schedulable cfg action \<and>
      write_schedule E pid ow gov_ai sys (scheduled_id E action it) w = Inr (ready, w')"
proof -
  obtain config_ai ow gov_ai sys it where accs: "accs = config_ai # ow # gov_ai # sys # it"
    using assms unfolding process_schedule_action_def by (auto split: list.splits)
  show ?thesis
  proof (cases action)
    case (ActRegisterAsset did bd)
    with assms show ?thesis
      unfolding process_schedule_action_def accs scheduled_id_def schedulable_def
      by (auto simp: res_simps split: list.splits)
  qed (use assms in \<open>auto simp: process_schedule_action_def accs scheduled_id_def schedulable_def
        res_simps not_le\<close>)
qed

lemma process_cancel_scheduled_success:
  assumes "process_cancel_scheduled_governance E pid accs aid w = Inr w'"
  shows "\<exists>config_ai who gov_ai rest cfg.
      accs = config_ai # who # gov_ai # rest \<and> load_config E pid config_ai w = Inr cfg \<and>
      is_signer who \<and>
      (ai_key who = cfg_owner cfg \<or> guardian cfg \<noteq> 0 \<and> ai_key who = guardian cfg) \<and>
      ai_key gov_ai = pda E pid [lit ''gov'', arr_bytes aid] \<and>
      (if owner_of w gov_ai \<noteq> pid \<or> length (data_of w gov_ai) < GOVERNANCE_LEN then w' = w
       else write_prefix (ser_schedule \<lparr>ready_at = 0\<rparr>) gov_ai w = Inr w')"
  using assms unfolding process_cancel_scheduled_governance_def Let_def
  by (auto simp: res_simps split: list.splits if_splits)

end
