(* ===== verification/GateStore.thy ===== *)
theory GateStore
  imports GateSuccess GateAdminSuccess
begin

text \<open>
  The storage of the gate program: the data of the accounts it owns, as a map from
  addresses. Every operation is a sequence of updates of this map at
  program-derived addresses; transfers of lamports and tokens leave it alone. The
  lemmas give the storage after each handler in terms of the storage before it.
\<close>

definition store :: "pubkey \<Rightarrow> world \<Rightarrow> pubkey \<rightharpoonup> bytes" where
  "store pid w k = (if acct_owner (accts w k) = pid then Some (acct_data (accts w k)) else None)"

section \<open>Primitive operations\<close>

lemma store_eq_iff:
  "store pid w k = Some d \<longleftrightarrow> acct_owner (accts w k) = pid \<and> acct_data (accts w k) = d"
  by (simp add: store_def)

lemma store_upd:
  assumes "acct_owner (accts w' k) = pid" "acct_data (accts w' k) = d"
    and "\<And>j. j \<noteq> k \<Longrightarrow> acct_owner (accts w' j) = acct_owner (accts w j) \<and>
           acct_data (accts w' j) = acct_data (accts w j)"
  shows "store pid w' = (store pid w)(k \<mapsto> d)"
  using assms by (auto simp: store_def fun_eq_iff)

lemma store_set_data:
  "owner_of w ai = pid \<Longrightarrow> store pid (set_data ai d w) = (store pid w)(ai_key ai \<mapsto> d)"
  by (rule store_upd) (auto simp: set_data_accts)

lemma store_same_accts: "accts w' = accts w \<Longrightarrow> store pid w' = store pid w"
  by (simp add: store_def fun_eq_iff)

lemma invoke_signed_spl:
  assumes "token_rule E pid" "invoke_signed E pid (SplTransfer p s d au n) infos seeds w = Inr w'"
  shows "token_moved E s d n (accts w) (accts w')"
proof -
  obtain a where "invoke_program E pid (SplTransfer p s d au n) infos seeds (accts w) = Inr a"
    and "w' = w\<lparr>accts := a\<rparr>"
    using assms(2) by (auto simp: invoke_signed_Inr)
  with assms(1) show ?thesis unfolding token_rule_def by auto
qed

lemma store_spl_transfer:
  assumes "runtime_ok E pid" "invoke_signed E pid (SplTransfer p s d au n) infos seeds w = Inr w'"
  shows "store pid w' = store pid w"
proof -
  have o: "owner_rule E pid" and "token_rule E pid"
    using assms(1) by (auto simp: runtime_ok_def)
  then have "acct_owner (accts w' k) = acct_owner (accts w k)" for k
    using invoke_signed_spl [OF _ assms(2)] by (simp add: token_moved_def)
  moreover have "acct_owner (accts w k) = pid \<Longrightarrow> acct_data (accts w' k) = acct_data (accts w k)" for k
    using owned_data_invoke [OF o assms(2)] by blast
  ultimately show ?thesis by (auto simp: store_def fun_eq_iff)
qed

lemma store_create_pda:
  assumes "create_pda_account E pid payer target sys seeds bump space w = Inr w'" "runtime_ok E pid"
  shows "store pid w (ai_key target) = None" and "owner_of w' target = pid"
    and "store pid w' = (store pid w)(ai_key target \<mapsto> replicate (unat (of_nat space :: u64)) 0)"
proof -
  have r: "system_rule E pid" using assms(2) by (auto simp: runtime_ok_def)
  note e = create_pda_account_effect [OF assms(1) r]
  have "pid \<noteq> system_program_id E" using r by (simp add: system_rule_def)
  then show "store pid w (ai_key target) = None" using e(2) by (auto simp: store_def)
  show "owner_of w' target = pid" by (rule e(3))
  show "store pid w' = (store pid w)(ai_key target \<mapsto> replicate (unat (of_nat space :: u64)) 0)"
    using e(3,4,5) by (rule store_upd)
qed

lemma store_create_marker:
  assumes "create_marker E pid payer marker sys seeds bump st w = Inr w'" "runtime_ok E pid"
  shows "store pid w (ai_key marker) = None" and "store pid w' = (store pid w)(ai_key marker \<mapsto> [st])"
proof -
  have r: "system_rule E pid" using assms(2) by (auto simp: runtime_ok_def)
  note e = create_marker_effect [OF assms(1) r]
  obtain w1 where "create_pda_account E pid payer marker sys seeds bump MARKER_LEN w = Inr w1"
    using assms(1) by (auto simp: create_marker_def res_simps)
  then show "store pid w (ai_key marker) = None" by (rule store_create_pda(1)) (rule assms(2))
  show "store pid w' = (store pid w)(ai_key marker \<mapsto> [st])"
    using e(2,3,4) by (rule store_upd)
qed

lemma store_create_sent:
  assumes "create_sent_record E pid payer sent sys sid bump r w = Inr w'" "runtime_ok E pid"
  shows "store pid w (ai_key sent) = None"
    and "\<exists>d. store pid w' = (store pid w)(ai_key sent \<mapsto> d) \<and> decode_sent_record d = Inr r \<and> d \<noteq> []"
proof -
  have s: "system_rule E pid" using assms(2) by (auto simp: runtime_ok_def)
  note e = create_sent_record_effect [OF assms(1) s]
  obtain w1 where "create_pda_account E pid payer sent sys [lit ''sent'', arr_bytes sid] bump
      SENT_RECORD_LEN w = Inr w1"
    using assms(1) by (auto simp: create_sent_record_def res_simps)
  then show "store pid w (ai_key sent) = None" by (rule store_create_pda(1)) (rule assms(2))
  have "store pid w' = (store pid w)(ai_key sent \<mapsto> data_of w' sent)"
    using e(2) refl e(4) by (rule store_upd)
  moreover have "data_of w' sent \<noteq> []"
    using e(3) by (auto simp: decode_sent_record_def SENT_RECORD_LEN_def deserialize_def
        de_sent_record_def de_arr_def res_simps)
  ultimately show "\<exists>d. store pid w' = (store pid w)(ai_key sent \<mapsto> d) \<and> decode_sent_record d = Inr r \<and> d \<noteq> []"
    using e(3) by blast
qed

lemma store_config_store:
  assumes "config_store cfg ai w = Inr w'" "owner_of w ai = pid"
  obtains d where "store pid w' = (store pid w)(ai_key ai \<mapsto> d)" "deserialize de_config d = Some cfg"
    "length d = length (data_of w ai)"
proof -
  obtain bs pad where "ser_config cfg = Some bs" and w': "w' = set_data ai (bs @ pad) w"
    and "length (bs @ pad) = length (data_of w ai)"
    using assms(1) by (rule config_store_Inr)
  then show ?thesis
    using that [of "bs @ pad"] assms(2) by (simp add: store_set_data configc.deserialize_padded)
qed

lemma store_consume:
  assumes "consume_governance E pid gov_ai aid w = Inr w'"
  obtains d sched now d' where "store pid w (pda E pid [lit ''gov'', arr_bytes aid]) = Some d"
    "deserialize de_schedule d = Some sched" "clock_get E = Inr now"
    "governance_consumable (ready_at sched) now = Inr ()"
    "store pid w' = (store pid w)(pda E pid [lit ''gov'', arr_bytes aid] \<mapsto> d')"
    "deserialize de_schedule d' = Some \<lparr>ready_at = 0\<rparr>"
    "\<And>k. acct_owner (accts w' k) = acct_owner (accts w k)"
proof -
  from assms obtain sched now pad where
    "ai_key gov_ai = pda E pid [lit ''gov'', arr_bytes aid]" "owner_of w gov_ai = pid"
    "deserialize de_schedule (data_of w gov_ai) = Some sched" "clock_get E = Inr now"
    "governance_consumable (ready_at sched) now = Inr ()"
    "w' = set_data gov_ai pad w" "deserialize de_schedule pad = Some \<lparr>ready_at = 0\<rparr>"
    by (rule consume_governance_effect)
  then show ?thesis
    by (intro that [of "data_of w gov_ai" sched now pad])
      (auto simp: store_eq_iff store_set_data)
qed

lemma store_write_schedule:
  assumes "write_schedule E pid ow gov_ai sys aid w = Inr (ready, w')" "runtime_ok E pid"
  obtains d now where "store pid w' = (store pid w)(pda E pid [lit ''gov'', arr_bytes aid] \<mapsto> d)"
    "deserialize de_schedule d = Some \<lparr>ready_at = ready\<rparr>" "clock_get E = Inr now"
    "sint ready = sint now + sint GOVERNANCE_DELAY"
proof -
  have s: "system_rule E pid" using assms(2) by (auto simp: runtime_ok_def)
  note e = write_schedule_effect [OF assms(1) s]
  have "store pid w' = (store pid w)(ai_key gov_ai \<mapsto> data_of w' gov_ai)"
    using e(4) refl e(5) by (rule store_upd)
  moreover obtain now where "clock_get E = Inr now" "sint ready = sint now + sint GOVERNANCE_DELAY"
    using e(2) by blast
  ultimately show ?thesis using that e(1,3) by simp
qed

lemma store_bind_vault:
  assumes "bind_vault E pid payer bai sys vault want w = Inr w'" "runtime_ok E pid"
  obtains d where "store pid w' = (store pid w)(pda E pid [lit ''vault'', arr_bytes vault] \<mapsto> d)"
    "deserialize de_vault_binding d = Some want"
proof -
  have s: "system_rule E pid" using assms(2) by (auto simp: runtime_ok_def)
  note e = bind_vault_effect [OF assms(1) s]
  have "store pid w' = (store pid w)(ai_key bai \<mapsto> data_of w' bai)"
    using e(3) refl e(4) by (rule store_upd)
  with e(1,2) show ?thesis by (intro that [of "data_of w' bai"]) auto
qed

lemma store_grow:
  assumes "grow_program_account E pid payer target sys space w = Inr w'" "runtime_ok E pid"
    and "owner_of w target = pid"
  obtains d where "store pid w' = (store pid w)(ai_key target \<mapsto> d)" "length d = space"
proof -
  have r: "system_rule E pid" "realloc_rule E" using assms(2) by (auto simp: runtime_ok_def)
  obtain w1 d where
    s1: "w1 = w \<or> (\<exists>n infos. invoke E pid (SystemTransfer (ai_key payer) (ai_key target) n) infos w = Inr w1)"
    and d: "realloc_zeroed E (data_of w1 target) space = Inr d" and w': "w' = set_data target d w1"
    using assms(1) by (auto simp: grow_program_account_def Let_def res_simps split: if_splits)
  have same: "acct_owner (accts w1 k) = acct_owner (accts w k)"
    "acct_data (accts w1 k) = acct_data (accts w k)" for k
    using s1 system_rule_transfer [OF r(1)] by blast+
  have "d = take space (data_of w1 target) @ replicate (space - length (data_of w1 target)) 0"
    using r(2) d unfolding realloc_rule_def by blast
  then have "length d = space" by simp
  moreover have "store pid w1 = store pid w" using same by (simp add: store_def fun_eq_iff)
  ultimately show ?thesis using that w' store_set_data same(1) assms(3) by metis
qed

section \<open>Fund-moving handlers\<close>

lemma store_claim:
  assumes "process_claim E pid (config_ai # asset_ai # executed_ai # payer # vault # receiver_token #
      vault_authority # token_program # sys # rest) args w = Inr w'" and "runtime_ok E pid"
  obtains cfg where "load_config E pid config_ai w = Inr cfg"
    "store pid w (pda E pid [lit ''executed'', arr_bytes (claim_sid E cfg args)]) = None"
    "store pid w' = (store pid w)
       (pda E pid [lit ''executed'', arr_bytes (claim_sid E cfg args)] \<mapsto> [MARKER_CLAIMED])"
proof -
  from process_claim_success [OF assms(1)] obtain cfg w1 bump ix src dst au n infos seeds where
    c: "load_config E pid config_ai w = Inr cfg"
    "ai_key executed_ai = pda E pid [lit ''executed'', arr_bytes (claim_sid E cfg args)]"
    and m: "create_marker E pid payer executed_ai sys
        [lit ''executed'', arr_bytes (claim_sid E cfg args)] bump MARKER_CLAIMED w = Inr w1"
    and i: "invoke_signed E pid (SplTransfer ix src dst au n) infos seeds w1 = Inr w'"
    by (elim exE conjE) (rule that)
  show ?thesis
    using that [OF c(1)] store_create_marker [OF m assms(2)] store_spl_transfer [OF assms(2) i]
    by (simp add: c(2))
qed

lemma store_cancel:
  assumes "process_cancel E pid (config_ai # executed_ai # payer # sys # rest) args w = Inr w'"
    and "runtime_ok E pid"
  obtains cfg where "load_config E pid config_ai w = Inr cfg"
    "store pid w (pda E pid [lit ''executed'', arr_bytes (cancel_sid E cfg args)]) = None"
    "store pid w' = (store pid w)
       (pda E pid [lit ''executed'', arr_bytes (cancel_sid E cfg args)] \<mapsto> [MARKER_CANCELLED])"
proof -
  from process_cancel_success [OF assms(1)] obtain cfg w1 bump did c n where
    c: "load_config E pid config_ai w = Inr cfg"
    "ai_key executed_ai = pda E pid [lit ''executed'', arr_bytes (cancel_sid E cfg args)]"
    and m: "create_marker E pid payer executed_ai sys
        [lit ''executed'', arr_bytes (cancel_sid E cfg args)] bump MARKER_CANCELLED w = Inr w1"
    and e: "emit_lifecycle CANCELLED_EVENT_TAG (cancel_sid E cfg args) did c n w1 = Inr w'"
    by (elim exE conjE) (rule that)
  show ?thesis
    using that [OF c(1)] store_create_marker [OF m assms(2)]
      store_same_accts [OF emit_lifecycle_Inr [OF e]]
    by (simp add: c(2))
qed

lemma store_refund:
  assumes "process_refund E pid (config_ai # asset_ai # sent_ai # refunded_ai # payer # vault #
      source_token # vault_authority # token_program # sys # rest) args w = Inr w'"
    and "runtime_ok E pid"
  obtains cfg sent d where "load_config E pid config_ai w = Inr cfg"
    "store pid w (pda E pid [lit ''refunded'', arr_bytes (refund_sid E cfg args)]) = None"
    "store pid w (pda E pid [lit ''sent'', arr_bytes (refund_sid E cfg args)]) = Some d"
    "decode_sent_record d = Inr sent"
    "store pid w' = (store pid w)
       (pda E pid [lit ''refunded'', arr_bytes (refund_sid E cfg args)] \<mapsto> [MARKER_CLAIMED],
        pda E pid [lit ''sent'', arr_bytes (refund_sid E cfg args)] \<mapsto> replicate (length d) 0)"
proof -
  from process_refund_success [OF assms(1)] obtain cfg sent w1 w2 bump tp src dst au n infos seeds did c m' where
    c: "load_config E pid config_ai w = Inr cfg"
    "ai_key refunded_ai = pda E pid [lit ''refunded'', arr_bytes (refund_sid E cfg args)]"
    "load_sent_record E pid (refund_sid E cfg args) sent_ai w = Inr sent"
    and m: "create_marker E pid payer refunded_ai sys
        [lit ''refunded'', arr_bytes (refund_sid E cfg args)] bump MARKER_CLAIMED w = Inr w1"
    and i: "invoke_signed E pid (SplTransfer tp src dst au n) infos seeds
        (set_data sent_ai (replicate (length (data_of w1 sent_ai)) 0) w1) = Inr w2"
    and e: "emit_lifecycle REFUNDED_EVENT_TAG (refund_sid E cfg args) did c m' w2 = Inr w'"
    by (elim exE conjE) (rule that)
  have s: "ai_key sent_ai = pda E pid [lit ''sent'', arr_bytes (refund_sid E cfg args)]"
    "owner_of w sent_ai = pid" "decode_sent_record (data_of w sent_ai) = Inr sent"
    using c(3) by (auto simp: load_sent_record_def res_simps)
  note mk = store_create_marker [OF m assms(2)]
  have "ai_key sent_ai \<noteq> ai_key refunded_ai" using mk(1) s(2) by (auto simp: store_def)
  then have w1: "store pid w1 (ai_key sent_ai) = Some (data_of w sent_ai)"
    using mk(2) s(2) by (simp add: store_def)
  then have "owner_of w1 sent_ai = pid" "data_of w1 sent_ai = data_of w sent_ai"
    by (simp_all add: store_eq_iff)
  then have "store pid w' = (store pid w1)(ai_key sent_ai \<mapsto> replicate (length (data_of w sent_ai)) 0)"
    using store_same_accts [OF emit_lifecycle_Inr [OF e]] store_spl_transfer [OF assms(2) i]
    by (simp add: store_set_data)
  with mk show ?thesis
    using that [OF c(1), of "data_of w sent_ai" sent] s by (simp add: c(2) store_def)
qed

lemma store_send:
  assumes "process_send E pid (config_ai # asset_ai # payer # user_token # vault # token_program #
      sent_ai # sys # rest) args w = Inr w'" and "runtime_ok E pid"
  obtains cfg cfg' dc ds rec wire bd and sid :: bytes32 where "load_config E pid config_ai w = Inr cfg"
    "\<not> paused cfg" "sealed cfg" "bump_nonce cfg (sa_chain_id_to args) = Inr cfg'"
    "deserialize de_config dc = Some cfg'" "length dc = length (data_of w config_ai)"
    "decode_sent_record ds = Inr rec" "sr_amount rec = sa_amount args"
    "sr_source_token rec = ai_key user_token" "sr_sender rec = ai_key payer"
    "sr_debridge_id rec = sa_debridge_id args"
    "sid = submission_id E (bridge_domain cfg) (sa_debridge_id args) bd wire
        (chain_id cfg) (sa_chain_id_to args) (nonce_of cfg (sa_chain_id_to args))
        (sa_receiver args) (sa_auto args) (arr_bytes (ai_key payer))"
    "store pid w' = (store pid w)(pda E pid [lit ''config''] \<mapsto> dc,
        pda E pid [lit ''sent'', arr_bytes sid] \<mapsto> ds)"
proof -
  from process_send_success [OF assms(1)] obtain cfg cfg' w1 w2 w3 sid bump wire now mint bd cf nn ns tp src dst au n infos where
    c: "load_config E pid config_ai w = Inr cfg" "\<not> paused cfg" "sealed cfg"
    "bump_nonce cfg (sa_chain_id_to args) = Inr cfg'"
    and sid: "sid = submission_id E (bridge_domain cfg) (sa_debridge_id args) bd wire
        (chain_id cfg) (sa_chain_id_to args) (nonce_of cfg (sa_chain_id_to args))
        (sa_receiver args) (sa_auto args) (arr_bytes (ai_key payer))"
    and s: "config_store cfg' config_ai w = Inr w1"
    and k: "ai_key sent_ai = pda E pid [lit ''sent'', arr_bytes sid]"
    and r: "create_sent_record E pid payer sent_ai sys sid bump
        \<lparr>sr_debridge_id = sa_debridge_id args, sr_sender = ai_key payer, sr_source_token = ai_key user_token,
         sr_mint = mint, sr_amount = sa_amount args, sr_locked_at = now\<rparr> w1 = Inr w2"
    and e: "emit_sent sid args wire bd cf nn ns mint w2 = Inr w3"
    and i: "invoke E pid (SplTransfer tp src dst au n) infos w3 = Inr w'"
    by (elim exE conjE) (rule that)
  have o: "owner_of w config_ai = pid" and ck: "ai_key config_ai = pda E pid [lit ''config'']"
    using c(1) by (auto simp: load_config_Inr)
  from s o obtain dc where dc: "store pid w1 = (store pid w)(ai_key config_ai \<mapsto> dc)"
    "deserialize de_config dc = Some cfg'" "length dc = length (data_of w config_ai)"
    by (rule store_config_store)
  obtain ds where ds: "store pid w2 = (store pid w1)(ai_key sent_ai \<mapsto> ds)"
    "decode_sent_record ds = Inr \<lparr>sr_debridge_id = sa_debridge_id args, sr_sender = ai_key payer,
       sr_source_token = ai_key user_token, sr_mint = mint, sr_amount = sa_amount args, sr_locked_at = now\<rparr>"
    using store_create_sent(2) [OF r assms(2)] by blast
  have "store pid w' = store pid w2"
    using store_spl_transfer [OF assms(2) i [unfolded invoke_def]] store_same_accts [OF emit_sent_Inr [OF e]]
    by simp
  then show ?thesis
    using that [OF c dc(2,3) ds(2) _ _ _ _ sid] dc(1) ds(1) by (simp add: ck k)
qed

section \<open>Registration of an asset\<close>

lemma keeps_nonempty_owner:
  assumes "consume_governance E pid gov_ai aid w = Inr w'"
    and "acct_data (accts w k) \<noteq> [] \<Longrightarrow> acct_owner (accts w k) = pid" "acct_data (accts w' k) \<noteq> []"
  shows "acct_owner (accts w' k) = pid"
  using assms by (auto elim!: consume_governance_effect simp: set_data_accts split: if_splits)

lemma store_write_asset:
  assumes s: "if data_of w asset_ai = [] then
            create_pda_account E pid ow asset_ai sys seeds bump (ASSET_CONFIG_LEN + ASSET_CONFIG_SLACK) w = Inr w1
          else if length (data_of w asset_ai) < ASSET_CONFIG_LEN + ASSET_CONFIG_SLACK then
            grow_program_account E pid ow asset_ai sys (ASSET_CONFIG_LEN + ASSET_CONFIG_SLACK) w = Inr w1
          else w1 = w"
    and z: "write_zero_padded (ser_asset_config a) asset_ai w1 = Inr w'"
    and o: "data_of w asset_ai \<noteq> [] \<Longrightarrow> owner_of w asset_ai = pid" and r: "runtime_ok E pid"
  obtains d where "store pid w' = (store pid w)(ai_key asset_ai \<mapsto> d)" "decode_asset_config d = Inr a"
    "ASSET_CONFIG_LEN + ASSET_CONFIG_SLACK \<le> length d"
proof -
  let ?n = "ASSET_CONFIG_LEN + ASSET_CONFIG_SLACK"
  obtain bs where bs: "ser_asset_config a = Some bs" and l: "length bs \<le> length (data_of w1 asset_ai)"
    and w': "w' = set_data asset_ai (bs @ replicate (length (data_of w1 asset_ai) - length bs) 0) w1"
    using z by (auto simp: write_zero_padded_Inr)
  have "\<exists>d. store pid w1 = (store pid w)(ai_key asset_ai \<mapsto> d) \<and> ?n \<le> length d"
  proof -
    consider "data_of w asset_ai = []" | "data_of w asset_ai \<noteq> []" "length (data_of w asset_ai) < ?n"
      | "data_of w asset_ai \<noteq> []" "?n \<le> length (data_of w asset_ai)" by linarith
    then show ?thesis
    proof cases
      case 1
      then have "create_pda_account E pid ow asset_ai sys seeds bump ?n w = Inr w1" using s by simp
      note c = store_create_pda(3) [OF this r]
      have "?n \<le> length (replicate (unat (of_nat ?n :: u64)) (0 :: u8))"
        by (simp add: ASSET_CONFIG_LEN_def ASSET_CONFIG_SLACK_def)
      with c show ?thesis by (intro exI conjI)
    next
      case 2
      then have "grow_program_account E pid ow asset_ai sys ?n w = Inr w1" using s by simp
      then obtain d where "store pid w1 = (store pid w)(ai_key asset_ai \<mapsto> d)" "length d = ?n"
        by (rule store_grow [OF _ r o [OF 2(1)]])
      then show ?thesis by (intro exI [of _ d]) simp
    next
      case 3
      then show ?thesis
        using s o by (intro exI [of _ "data_of w asset_ai"]) (auto simp: store_def fun_eq_iff)
    qed
  qed
  then obtain d where d: "store pid w1 = (store pid w)(ai_key asset_ai \<mapsto> d)" "?n \<le> length d" by blast
  then have o1: "owner_of w1 asset_ai = pid" "data_of w1 asset_ai = d"
    using store_eq_iff [of pid w1 "ai_key asset_ai" d] by simp_all
  let ?d = "bs @ replicate (length d - length bs) 0"
  have len: "length ?d = length d" using l o1 by simp
  show ?thesis
  proof (rule that [of ?d])
    show "store pid w' = (store pid w)(ai_key asset_ai \<mapsto> ?d)"
      using w' o1 d(1) by (simp add: store_set_data)
    show "?n \<le> length ?d" using len d(2) by simp
    have "length ?d \<noteq> LEGACY_ASSET_CONFIG_LEN" "length ?d \<noteq> LEGACY_ASSET_CONFIG_LEN + 1"
      using len d(2) by (auto simp: ASSET_CONFIG_LEN_def ASSET_CONFIG_SLACK_def LEGACY_ASSET_CONFIG_LEN_def)
    then show "decode_asset_config ?d = Inr a"
      unfolding decode_asset_config_def by (simp add: assetc.deserialize_padded [OF bs])
  qed
qed

lemma store_register_asset:
  assumes "process_register_asset E pid (config_ai # ow # asset_ai # mint # vault # token_program #
      sys # binding_ai # it) did bd w = Inr w'" and r: "runtime_ok E pid"
  obtains S d ld where
    "S = store pid w \<or> (\<exists>aid d. S = (store pid w)(pda E pid [lit ''gov'', arr_bytes (aid :: bytes32)] \<mapsto> d) \<and>
       deserialize de_schedule d = Some \<lparr>ready_at = 0\<rparr>)"
    "store pid w' = S(pda E pid [lit ''vault'', arr_bytes (ai_key vault)] \<mapsto> d) \<or>
     (\<exists>d'. store pid w' = S(pda E pid [lit ''vault'', arr_bytes (ai_key vault)] \<mapsto> d,
        pda E pid [lit ''asset'', arr_bytes did] \<mapsto> d') \<and>
        decode_asset_config d' = Inr \<lparr>as_debridge_id = did, as_mint = ai_key mint,
          as_vault = ai_key vault, as_bridge_decimals = bd, as_local_decimals = ld\<rparr>)"
    "deserialize de_vault_binding d = Some \<lparr>vb_mint = ai_key mint, vb_bridge_decimals = bd\<rparr>"
proof -
  from process_register_asset_success [OF assms(1)]
  obtain w1 w2 aid phase ld rerun legacy where
    k: "ai_key asset_ai = pda E pid [lit ''asset'', arr_bytes did]"
    and m: "register_mode E pid asset_ai \<lparr>as_debridge_id = did, as_mint = ai_key mint,
        as_vault = ai_key vault, as_bridge_decimals = bd, as_local_decimals = ld\<rparr> w = Inr (rerun, legacy)"
    and c1: "if \<not> rerun \<and> \<not> legacy then
         (\<exists>now. clock_get E = Inr now \<and>
            (if phase now then w1 = w
             else \<exists>gov_ai its. it = gov_ai # its \<and> consume_governance E pid gov_ai aid w = Inr w1))
       else w1 = w"
    and 2: "bind_vault E pid ow binding_ai sys (ai_key vault)
        \<lparr>vb_mint = ai_key mint, vb_bridge_decimals = bd\<rparr> w1 = Inr w2"
    and c3: "if rerun then w' = w2
       else \<exists>w3.
         (if data_of w2 asset_ai = [] then
            create_pda_account E pid ow asset_ai sys [lit ''asset'', arr_bytes did]
              (bump_of E pid [lit ''asset'', arr_bytes did]) (ASSET_CONFIG_LEN + ASSET_CONFIG_SLACK) w2 = Inr w3
          else if length (data_of w2 asset_ai) < ASSET_CONFIG_LEN + ASSET_CONFIG_SLACK then
            grow_program_account E pid ow asset_ai sys (ASSET_CONFIG_LEN + ASSET_CONFIG_SLACK) w2 = Inr w3
          else w3 = w2) \<and>
         write_zero_padded (ser_asset_config \<lparr>as_debridge_id = did, as_mint = ai_key mint,
          as_vault = ai_key vault, as_bridge_decimals = bd, as_local_decimals = ld\<rparr>) asset_ai w3 = Inr w'"
    by (elim exE conjE) (rule that)
  have w1: "w1 = w \<or> (\<exists>gov_ai. consume_governance E pid gov_ai aid w = Inr w1)"
    using c1 by (auto split: if_splits)
  have S: "store pid w1 = store pid w \<or> (\<exists>aid d. store pid w1 =
       (store pid w)(pda E pid [lit ''gov'', arr_bytes (aid :: bytes32)] \<mapsto> d) \<and>
       deserialize de_schedule d = Some \<lparr>ready_at = 0\<rparr>)"
    using w1 by (blast elim: store_consume)
  from 2 r obtain d where d: "store pid w2 = (store pid w1)(pda E pid [lit ''vault'', arr_bytes (ai_key vault)] \<mapsto> d)"
      "deserialize de_vault_binding d = Some \<lparr>vb_mint = ai_key mint, vb_bridge_decimals = bd\<rparr>"
    by (rule store_bind_vault)
  show ?thesis
  proof (cases rerun)
    case True
    then show ?thesis using that [OF S _ d(2)] d(1) c3 by simp
  next
    case False
    have sy: "system_rule E pid" using r by (simp add: runtime_ok_def)
    have "data_of w asset_ai \<noteq> [] \<Longrightarrow> owner_of w asset_ai = pid"
      using m by (auto simp: register_mode_def res_simps split: if_splits)
    then have "data_of w1 asset_ai \<noteq> [] \<Longrightarrow> owner_of w1 asset_ai = pid"
      using w1 keeps_nonempty_owner by blast
    then have o: "data_of w2 asset_ai \<noteq> [] \<Longrightarrow> owner_of w2 asset_ai = pid"
      using bind_vault_effect(3,4) [OF 2 sy] by metis
    from False c3 obtain w3 where
      "if data_of w2 asset_ai = [] then
            create_pda_account E pid ow asset_ai sys [lit ''asset'', arr_bytes did]
              (bump_of E pid [lit ''asset'', arr_bytes did]) (ASSET_CONFIG_LEN + ASSET_CONFIG_SLACK) w2 = Inr w3
          else if length (data_of w2 asset_ai) < ASSET_CONFIG_LEN + ASSET_CONFIG_SLACK then
            grow_program_account E pid ow asset_ai sys (ASSET_CONFIG_LEN + ASSET_CONFIG_SLACK) w2 = Inr w3
          else w3 = w2" "write_zero_padded (ser_asset_config \<lparr>as_debridge_id = did, as_mint = ai_key mint,
          as_vault = ai_key vault, as_bridge_decimals = bd, as_local_decimals = ld\<rparr>) asset_ai w3 = Inr w'" by auto
    from store_write_asset [OF this o r]
    obtain d' where d': "store pid w' = (store pid w2)(ai_key asset_ai \<mapsto> d')"
      "decode_asset_config d' = Inr \<lparr>as_debridge_id = did, as_mint = ai_key mint,
          as_vault = ai_key vault, as_bridge_decimals = bd, as_local_decimals = ld\<rparr>" by blast
    show ?thesis using that [OF S disjI2 d(2)] d(1) d' k by auto
  qed
qed

end
