(* ===== verification/GateConfig.thy ===== *)
theory GateConfig
  imports GateStore
begin

text \<open>
  The configuration of the gate as an abstract state machine, and the proof that
  the program implements it. \<open>cfg_step\<close> says which change of the configuration an
  instruction may make, who has to sign and which changes need a matured
  governance schedule. \<open>gate_config\<close> reads the configuration out of the accounts;
  every successful instruction is a step of the machine on it.
\<close>

section \<open>Addresses of the program\<close>

definition gate_seeds :: "bytes list \<Rightarrow> bool" where
  "gate_seeds s \<longleftrightarrow> s = [lit ''config''] \<or>
     (\<exists>tag (i :: bytes32). s = [lit tag, arr_bytes i] \<and>
        tag \<in> {''gov'', ''vault'', ''asset'', ''sent'', ''executed'', ''refunded''})"

text \<open>
  No other address of the program collides with that of the seeds \<open>s\<close>. Addresses
  are hashes of program and seeds, so a collision is a hash collision.
\<close>

definition apart :: "env \<Rightarrow> pubkey \<Rightarrow> bytes list \<Rightarrow> bool" where
  "apart E pid s \<longleftrightarrow> (\<forall>s'. gate_seeds s' \<and> s' \<noteq> s \<longrightarrow> pda E pid s' \<noteq> pda E pid s)"

definition gate_config :: "env \<Rightarrow> pubkey \<Rightarrow> world \<Rightarrow> config option" where
  "gate_config E pid w = Option.bind (store pid w (pda E pid [lit ''config''])) (deserialize de_config)"

definition schedule_at :: "env \<Rightarrow> pubkey \<Rightarrow> world \<Rightarrow> bytes32 \<Rightarrow> i64" where
  "schedule_at E pid w aid =
     (case Option.bind (store pid w (pda E pid [lit ''gov'', arr_bytes aid])) (deserialize de_schedule) of
        None \<Rightarrow> 0 | Some s \<Rightarrow> ready_at s)"

definition mature :: "env \<Rightarrow> pubkey \<Rightarrow> world \<Rightarrow> bytes32 \<Rightarrow> bool" where
  "mature E pid w aid \<longleftrightarrow>
     (case clock_get E of Inl _ \<Rightarrow> False
      | Inr now \<Rightarrow> governance_consumable (schedule_at E pid w aid) now = Inr ())"

definition signers :: "account_info list \<Rightarrow> pubkey set" where
  "signers accs = ai_key ` set (filter is_signer accs)"

section \<open>The abstract machine\<close>

inductive cfg_step ::
  "env \<Rightarrow> pubkey set \<Rightarrow> (bytes32 \<Rightarrow> bool) \<Rightarrow> gate_instruction \<Rightarrow> config option \<Rightarrow> config option \<Rightarrow> bool"
  for E S ripe where
  cs_same: "cfg_step E S ripe ix c c"
| cs_init: "payer \<in> S \<Longrightarrow> clock_get E = Inr now \<Longrightarrow>
    validate_validator_set (ia_validators args) (ia_threshold args) = Inr () \<Longrightarrow>
    ia_chain_id args \<noteq> 0 \<Longrightarrow> ia_bridge_domain args \<noteq> 0 \<Longrightarrow> ia_max_corridors args \<noteq> 0 \<Longrightarrow>
    of_nat (length (ia_validators args)) \<le> ia_max_validators args \<Longrightarrow>
    cfg_step E S ripe (Init args) None (Some (init_config payer args now))"
| cs_send: "\<not> paused cfg \<Longrightarrow> sealed cfg \<Longrightarrow> bump_nonce cfg (sa_chain_id_to args) = Inr cfg' \<Longrightarrow>
    cfg_step E S ripe (Send args) (Some cfg) (Some cfg')"
| cs_corridor: "cfg_owner cfg \<in> S \<Longrightarrow> c \<noteq> chain_id cfg \<Longrightarrow> \<not> corridor_registered cfg c \<Longrightarrow>
    of_nat (length (nonce_to cfg)) < max_corridors cfg \<Longrightarrow>
    cfg_step E S ripe (RegisterCorridor c) (Some cfg) (Some (cfg\<lparr>nonce_to := nonce_to cfg @ [(c, 0)]\<rparr>))"
| cs_pause: "cfg_owner cfg \<in> S \<or> guardian cfg \<noteq> 0 \<and> guardian cfg \<in> S \<Longrightarrow>
    cfg_step E S ripe Pause (Some cfg) (Some (cfg\<lparr>paused := True\<rparr>))"
| cs_unpause: "cfg_owner cfg \<in> S \<Longrightarrow>
    cfg_step E S ripe Unpause (Some cfg) (Some (cfg\<lparr>paused := False\<rparr>))"
| cs_guardian: "cfg_owner cfg \<in> S \<Longrightarrow> clock_get E = Inr now \<Longrightarrow>
    in_setup_phase (sealed cfg) (setup_deadline cfg) now \<or> guardian cfg = 0 \<or>
      ripe (set_guardian_action_id E g) \<Longrightarrow>
    cfg_step E S ripe (SetGuardian g) (Some cfg) (Some (cfg\<lparr>guardian := g\<rparr>))"
| cs_add: "cfg_owner cfg \<in> S \<Longrightarrow> v \<noteq> 0 \<Longrightarrow> \<not> is_validator cfg v \<Longrightarrow>
    of_nat (length (validators cfg)) < max_validators cfg \<Longrightarrow> ripe (add_validator_action_id E v) \<Longrightarrow>
    cfg_step E S ripe (SetValidator v True) (Some cfg) (Some (cfg\<lparr>validators := validators cfg @ [v]\<rparr>))"
| cs_remove: "cfg_owner cfg \<in> S \<Longrightarrow>
    threshold cfg \<le> of_nat (length (filter (\<lambda>x. x \<noteq> v) (validators cfg))) \<Longrightarrow>
    cfg_step E S ripe (SetValidator v False) (Some cfg)
      (Some (cfg\<lparr>validators := filter (\<lambda>x. x \<noteq> v) (validators cfg)\<rparr>))"
| cs_threshold: "cfg_owner cfg \<in> S \<Longrightarrow> t \<noteq> 0 \<Longrightarrow> t \<le> of_nat (length (validators cfg)) \<Longrightarrow>
    t \<le> MAX_THRESHOLD \<Longrightarrow> threshold cfg \<le> t \<or> ripe (lower_threshold_action_id E t) \<Longrightarrow>
    cfg_step E S ripe (SetThreshold t) (Some cfg) (Some (cfg\<lparr>threshold := t\<rparr>))"
| cs_seal: "cfg_owner cfg \<in> S \<Longrightarrow> \<not> sealed cfg \<Longrightarrow>
    cfg_step E S ripe Seal (Some cfg) (Some (cfg\<lparr>sealed := True\<rparr>))"

inductive_cases cfg_step_SomeE: "cfg_step E S ripe ix (Some cfg) c'"

section \<open>Reading the configuration\<close>

lemma signersI: "ai \<in> set accs \<Longrightarrow> is_signer ai \<Longrightarrow> ai_key ai \<in> signers accs"
  by (simp add: signers_def)

lemma gate_config_load: "load_config E pid ai w = Inr cfg \<Longrightarrow> gate_config E pid w = Some cfg"
  by (auto simp: load_config_Inr gate_config_def store_def)

lemma gate_config_stored:
  assumes "config_store cfg ai w = Inr w'" "owner_of w ai = pid" "ai_key ai = pda E pid [lit ''config'']"
  shows "gate_config E pid w' = Some cfg"
  using assms(1,2) by (rule store_config_store) (simp add: gate_config_def assms(3))

lemma gate_config_cong:
  "store pid w' (pda E pid [lit ''config'']) = store pid w (pda E pid [lit ''config'']) \<Longrightarrow>
   gate_config E pid w' = gate_config E pid w"
  by (simp add: gate_config_def)

lemma gate_config_upd:
  assumes "apart E pid [lit ''config'']"
    and "tag \<in> {''gov'', ''vault'', ''asset'', ''sent'', ''executed'', ''refunded''}"
    and "store pid w' = (store pid w)(pda E pid [lit tag, arr_bytes (i :: bytes32)] \<mapsto> d)"
  shows "gate_config E pid w' = gate_config E pid w"
proof -
  have "pda E pid [lit tag, arr_bytes i] \<noteq> pda E pid [lit ''config'']"
    using assms(1,2) unfolding apart_def gate_seeds_def by blast
  then show ?thesis by (intro gate_config_cong) (simp add: assms(3))
qed

lemma consume_mature:
  assumes "consume_governance E pid gov_ai aid w = Inr w'"
  shows "mature E pid w aid" and "owner_of w' ai = owner_of w ai"
  using assms by (auto elim!: store_consume simp: mature_def schedule_at_def)

section \<open>Handlers\<close>

lemma cfg_step_store:
  assumes "load_config E pid config_ai w = Inr cfg" "config_store cfg' config_ai w1 = Inr w'"
    and "owner_of w1 config_ai = owner_of w config_ai"
    and "cfg_step E S ripe ix (Some cfg) (Some cfg')"
  shows "cfg_step E S ripe ix (gate_config E pid w) (gate_config E pid w')"
proof -
  have "owner_of w1 config_ai = pid" "ai_key config_ai = pda E pid [lit ''config'']"
    using assms(1,3) by (auto simp: load_config_Inr)
  then have "gate_config E pid w' = Some cfg'" using gate_config_stored assms(2) by blast
  then show ?thesis using assms(4) gate_config_load [OF assms(1)] by simp
qed

lemma cfg_step_init:
  assumes "process_init E pid accs args w = Inr w'" and "runtime_ok E pid"
  shows "cfg_step E (signers accs) ripe (Init args) (gate_config E pid w) (gate_config E pid w')"
proof -
  from process_init_success [OF assms(1)]
  obtain config_ai payer sys program_ai program_data_ai rest bump space w1 now where
    accs: "accs = config_ai # payer # sys # program_ai # program_data_ai # rest"
    and a: "ai_key config_ai = pda E pid [lit ''config'']"
      "validate_validator_set (ia_validators args) (ia_threshold args) = Inr ()"
      "ia_chain_id args \<noteq> 0" "\<not> ia_max_validators args < of_nat (length (ia_validators args))"
      "ia_max_corridors args \<noteq> 0" "is_signer payer"
      "ia_bridge_domain args \<noteq> 0" "clock_get E = Inr now"
    and c: "create_pda_account E pid payer config_ai sys [lit ''config''] bump space w = Inr w1"
    and s: "config_store (init_config (ai_key payer) args now) config_ai w1 = Inr w'"
    by (elim exE conjE) (rule that)
  note p = store_create_pda [OF c assms(2)]
  have "gate_config E pid w = None" using p(1) a(1) by (simp add: gate_config_def)
  moreover have "gate_config E pid w' = Some (init_config (ai_key payer) args now)"
    using gate_config_stored [OF s p(2) a(1)] .
  moreover have "ai_key payer \<in> signers accs" using a(6) accs by (auto intro: signersI)
  ultimately show ?thesis using a by (auto intro!: cs_init)
qed

lemma cfg_step_corridor:
  assumes "process_register_corridor E pid accs c w = Inr w'"
  shows "cfg_step E (signers accs) ripe (RegisterCorridor c) (gate_config E pid w) (gate_config E pid w')"
proof -
  from process_register_corridor_success [OF assms] obtain config_ai ow rest cfg where
    a: "accs = config_ai # ow # rest" "load_config E pid config_ai w = Inr cfg"
      "ai_key ow = cfg_owner cfg" "is_signer ow" "c \<noteq> chain_id cfg"
    and s: "if corridor_registered cfg c then w' = w
       else of_nat (length (nonce_to cfg)) < max_corridors cfg \<and>
         config_store (cfg\<lparr>nonce_to := nonce_to cfg @ [(c, 0)]\<rparr>) config_ai w = Inr w'" by blast
  have o: "cfg_owner cfg \<in> signers accs" using signersI [of ow accs] a by simp
  show ?thesis
  proof (cases "corridor_registered cfg c")
    case True
    then show ?thesis using s by (simp add: cs_same)
  next
    case False
    then have l: "of_nat (length (nonce_to cfg)) < max_corridors cfg"
      and st: "config_store (cfg\<lparr>nonce_to := nonce_to cfg @ [(c, 0)]\<rparr>) config_ai w = Inr w'"
      using s by auto
    show ?thesis by (rule cfg_step_store [OF a(2) st refl cs_corridor [OF o a(5) False l]])
  qed
qed

lemma cfg_step_paused:
  assumes "process_set_paused E pid accs p w = Inr w'"
  shows "cfg_step E (signers accs) ripe (if p then Pause else Unpause)
      (gate_config E pid w) (gate_config E pid w')"
proof -
  from process_set_paused_success [OF assms] obtain config_ai who rest cfg where
    a: "accs = config_ai # who # rest" "load_config E pid config_ai w = Inr cfg" "is_signer who"
      "authorized_to_set_paused (ai_key who = cfg_owner cfg)
        (guardian cfg \<noteq> 0 \<and> ai_key who = guardian cfg) p"
    and s: "if paused cfg = p then w' = w
       else config_store (cfg\<lparr>paused := p\<rparr>) config_ai w = Inr w'" by blast
  have "ai_key who \<in> signers accs" using signersI [of who accs] a by simp
  then have "cfg_step E (signers accs) ripe (if p then Pause else Unpause) (Some cfg)
      (Some (cfg\<lparr>paused := p\<rparr>))"
    using a(4) by (auto simp: authorized_to_set_paused_def intro: cfg_step.intros split: if_splits)
  then show ?thesis
    using s cfg_step_store [OF a(2)] cs_same by (cases "paused cfg = p") auto
qed

lemma cfg_step_guardian:
  assumes "process_set_guardian E pid accs g w = Inr w'"
  shows "cfg_step E (signers accs) (mature E pid w) (SetGuardian g)
      (gate_config E pid w) (gate_config E pid w')"
proof -
  from process_set_guardian_success [OF assms] obtain config_ai ow it cfg where
    a: "accs = config_ai # ow # it" "load_config E pid config_ai w = Inr cfg"
      "ai_key ow = cfg_owner cfg" "is_signer ow"
    and s: "if g = guardian cfg then w' = w
       else \<exists>now. clock_get E = Inr now \<and> (\<exists>w1.
         (if guardian_change_needs_schedule (sealed cfg) (setup_deadline cfg) now (guardian cfg)
          then \<exists>gov_ai its. it = gov_ai # its \<and>
            consume_governance E pid gov_ai (set_guardian_action_id E g) w = Inr w1
          else w1 = w) \<and>
         config_store (cfg\<lparr>guardian := g\<rparr>) config_ai w1 = Inr w')" by (elim exE conjE) (rule that)
  have o: "cfg_owner cfg \<in> signers accs" using signersI [of ow accs] a by simp
  show ?thesis
  proof (cases "g = guardian cfg")
    case True
    then show ?thesis using s by (simp add: cs_same)
  next
    case False
    then obtain now w1 where n: "clock_get E = Inr now"
      and c: "if guardian_change_needs_schedule (sealed cfg) (setup_deadline cfg) now (guardian cfg)
          then \<exists>gov_ai its. it = gov_ai # its \<and>
            consume_governance E pid gov_ai (set_guardian_action_id E g) w = Inr w1
          else w1 = w"
      and st: "config_store (cfg\<lparr>guardian := g\<rparr>) config_ai w1 = Inr w'" using s by auto
    have "owner_of w1 config_ai = owner_of w config_ai"
      using c consume_mature(2) by (auto split: if_splits)
    moreover have "in_setup_phase (sealed cfg) (setup_deadline cfg) now \<or> guardian cfg = 0 \<or>
        mature E pid w (set_guardian_action_id E g)"
      using c consume_mature(1) by (auto simp: guardian_change_needs_schedule_def split: if_splits)
    ultimately show ?thesis using cfg_step_store [OF a(2) st] cs_guardian [OF o n] by blast
  qed
qed

lemma cfg_step_validator:
  assumes "process_set_validator E pid accs v active w = Inr w'"
  shows "cfg_step E (signers accs) (mature E pid w) (SetValidator v active)
      (gate_config E pid w) (gate_config E pid w')"
proof -
  from process_set_validator_success [OF assms] obtain config_ai ow it cfg where
    a: "accs = config_ai # ow # it" "load_config E pid config_ai w = Inr cfg"
      "ai_key ow = cfg_owner cfg" "is_signer ow" "v \<noteq> 0"
    and s: "if active \<and> \<not> is_validator cfg v then
         of_nat (length (validators cfg)) < max_validators cfg \<and>
         (\<exists>gov_ai w1. consume_governance E pid gov_ai (add_validator_action_id E v) w = Inr w1 \<and>
            config_store (cfg\<lparr>validators := validators cfg @ [v]\<rparr>) config_ai w1 = Inr w')
       else if \<not> active \<and> is_validator cfg v then
         threshold cfg \<le> of_nat (length (filter (\<lambda>x. x \<noteq> v) (validators cfg))) \<and>
         config_store (cfg\<lparr>validators := filter (\<lambda>x. x \<noteq> v) (validators cfg)\<rparr>) config_ai w = Inr w'
       else w' = w" by (elim exE conjE) (rule that)
  have o: "cfg_owner cfg \<in> signers accs" using signersI [of ow accs] a by simp
  consider "active" "\<not> is_validator cfg v" | "\<not> active" "is_validator cfg v" | "w' = w"
    using s by (auto split: if_splits)
  then show ?thesis
  proof cases
    case 1
    then obtain gov_ai w1 where l: "of_nat (length (validators cfg)) < max_validators cfg"
      and c: "consume_governance E pid gov_ai (add_validator_action_id E v) w = Inr w1"
      and st: "config_store (cfg\<lparr>validators := validators cfg @ [v]\<rparr>) config_ai w1 = Inr w'"
      using s by auto
    have "cfg_step E (signers accs) (mature E pid w) (SetValidator v active) (Some cfg)
        (Some (cfg\<lparr>validators := validators cfg @ [v]\<rparr>))"
      using 1 cs_add [where ripe = "mature E pid w", OF o a(5) 1(2) l] consume_mature(1) [OF c] by simp
    then show ?thesis by (rule cfg_step_store [OF a(2) st consume_mature(2) [OF c]])
  next
    case 2
    then show ?thesis using s cfg_step_store [OF a(2)] cs_remove [OF o] by auto
  next
    case 3
    then show ?thesis by (simp add: cs_same)
  qed
qed

lemma cfg_step_threshold:
  assumes "process_set_threshold E pid accs t w = Inr w'"
  shows "cfg_step E (signers accs) (mature E pid w) (SetThreshold t)
      (gate_config E pid w) (gate_config E pid w')"
proof -
  from process_set_threshold_success [OF assms] obtain config_ai ow it cfg w1 where
    a: "accs = config_ai # ow # it" "load_config E pid config_ai w = Inr cfg"
      "ai_key ow = cfg_owner cfg" "is_signer ow" "t \<noteq> 0" "t \<le> of_nat (length (validators cfg))"
      "t \<le> MAX_THRESHOLD"
    and c: "if t < threshold cfg
       then \<exists>gov_ai its. it = gov_ai # its \<and>
            consume_governance E pid gov_ai (lower_threshold_action_id E t) w = Inr w1
       else w1 = w"
    and st: "config_store (cfg\<lparr>threshold := t\<rparr>) config_ai w1 = Inr w'" by (elim exE conjE) (rule that)
  have o: "cfg_owner cfg \<in> signers accs" using signersI [of ow accs] a by simp
  have "owner_of w1 config_ai = owner_of w config_ai"
    using c consume_mature(2) by (auto split: if_splits)
  moreover have "threshold cfg \<le> t \<or> mature E pid w (lower_threshold_action_id E t)"
    using c consume_mature(1) by (auto simp: not_less split: if_splits)
  ultimately show ?thesis using cfg_step_store [OF a(2) st] cs_threshold [OF o a(5-7)] by blast
qed

lemma cfg_step_seal:
  assumes "process_seal E pid accs w = Inr w'"
  shows "cfg_step E (signers accs) ripe Seal (gate_config E pid w) (gate_config E pid w')"
proof -
  from process_seal_success [OF assms] obtain config_ai ow rest cfg where
    a: "accs = config_ai # ow # rest" "load_config E pid config_ai w = Inr cfg"
      "ai_key ow = cfg_owner cfg" "is_signer ow" "\<not> sealed cfg"
    and s: "config_store (cfg\<lparr>sealed := True\<rparr>) config_ai w = Inr w'" by blast
  have "cfg_owner cfg \<in> signers accs" using signersI [of ow accs] a by simp
  then show ?thesis using cfg_step_store [OF a(2) s refl] cs_seal a(5) by blast
qed

section \<open>Instructions that leave the configuration alone\<close>

lemma gate_config_schedule:
  assumes "process_schedule_action E pid accs action w = Inr w'" "runtime_ok E pid"
    and "apart E pid [lit ''config'']"
  shows "gate_config E pid w' = gate_config E pid w"
proof -
  from process_schedule_action_success [OF assms(1)] obtain ow gov_ai sys aid ready where
    "write_schedule E pid ow gov_ai sys aid w = Inr (ready, w')" by blast
  then obtain d where "store pid w' = (store pid w)(pda E pid [lit ''gov'', arr_bytes aid] \<mapsto> d)"
    using store_write_schedule [OF _ assms(2)] by blast
  then show ?thesis by (rule gate_config_upd [OF assms(3), rotated]) simp
qed

lemma store_cancel_scheduled:
  assumes "process_cancel_scheduled_governance E pid accs aid w = Inr w'"
  shows "store pid w' = store pid w \<or>
    (\<exists>d. store pid w' = (store pid w)(pda E pid [lit ''gov'', arr_bytes aid] \<mapsto> d) \<and>
      deserialize de_schedule d = Some \<lparr>ready_at = 0\<rparr>)"
proof -
  from process_cancel_scheduled_success [OF assms] obtain gov_ai where
    k: "ai_key gov_ai = pda E pid [lit ''gov'', arr_bytes aid]"
    and s: "if owner_of w gov_ai \<noteq> pid \<or> length (data_of w gov_ai) < GOVERNANCE_LEN then w' = w
       else write_prefix (ser_schedule \<lparr>ready_at = 0\<rparr>) gov_ai w = Inr w'" by (elim exE conjE) (rule that)
  show ?thesis
  proof (cases "w' = w")
    case False
    with s obtain bs where "owner_of w gov_ai = pid" "ser_schedule \<lparr>ready_at = 0\<rparr> = Some bs"
      "w' = set_data gov_ai (bs @ drop (length bs) (data_of w gov_ai)) w"
      by (auto simp: write_prefix_Inr split: if_splits)
    then show ?thesis using store_set_data k schedc.deserialize_padded by metis
  qed simp
qed

lemma gate_config_cancel_scheduled:
  assumes "process_cancel_scheduled_governance E pid accs aid w = Inr w'"
    and "apart E pid [lit ''config'']"
  shows "gate_config E pid w' = gate_config E pid w"
  using store_cancel_scheduled [OF assms(1)] gate_config_upd [OF assms(2), of "''gov''"]
    gate_config_cong by (metis insertI1)

lemma gate_config_claim:
  assumes "process_claim E pid accs args w = Inr w'" "runtime_ok E pid" "apart E pid [lit ''config'']"
  shows "gate_config E pid w' = gate_config E pid w"
proof -
  from assms(1) obtain a1 a2 a3 a4 a5 a6 a7 a8 a9 rest
    where accs: "accs = a1 # a2 # a3 # a4 # a5 # a6 # a7 # a8 # a9 # rest" by (rule claim_accs)
  from assms(1) [unfolded accs] assms(2) obtain cfg where "store pid w' = (store pid w)
       (pda E pid [lit ''executed'', arr_bytes (claim_sid E cfg args)] \<mapsto> [MARKER_CLAIMED])"
    by (rule store_claim)
  then show ?thesis by (rule gate_config_upd [OF assms(3), rotated]) simp
qed

lemma gate_config_cancel:
  assumes "process_cancel E pid accs args w = Inr w'" "runtime_ok E pid" "apart E pid [lit ''config'']"
  shows "gate_config E pid w' = gate_config E pid w"
proof -
  from assms(1) obtain a1 a2 a3 a4 rest where accs: "accs = a1 # a2 # a3 # a4 # rest"
    by (rule cancel_accs)
  from assms(1) [unfolded accs] assms(2) obtain cfg where "store pid w' = (store pid w)
       (pda E pid [lit ''executed'', arr_bytes (cancel_sid E cfg args)] \<mapsto> [MARKER_CANCELLED])"
    by (rule store_cancel)
  then show ?thesis by (rule gate_config_upd [OF assms(3), rotated]) simp
qed

text \<open>Two updates away from the configuration.\<close>

lemma gate_config_upd2:
  assumes "apart E pid [lit ''config'']"
    and "tag \<in> {''gov'', ''vault'', ''asset'', ''sent'', ''executed'', ''refunded''}"
    and "tag' \<in> {''gov'', ''vault'', ''asset'', ''sent'', ''executed'', ''refunded''}"
    and "store pid w' = (store pid w)(pda E pid [lit tag, arr_bytes (i :: bytes32)] \<mapsto> d,
      pda E pid [lit tag', arr_bytes (i' :: bytes32)] \<mapsto> d')"
  shows "gate_config E pid w' = gate_config E pid w"
proof -
  have "pda E pid [lit tag, arr_bytes i] \<noteq> pda E pid [lit ''config'']"
    "pda E pid [lit tag', arr_bytes i'] \<noteq> pda E pid [lit ''config'']"
    using assms(1-3) unfolding apart_def gate_seeds_def by blast+
  then show ?thesis by (intro gate_config_cong) (simp add: assms(4))
qed

lemma gate_config_refund:
  assumes "process_refund E pid accs args w = Inr w'" "runtime_ok E pid" "apart E pid [lit ''config'']"
  shows "gate_config E pid w' = gate_config E pid w"
proof -
  from assms(1) obtain a1 a2 a3 a4 a5 a6 a7 a8 a9 a10 rest
    where accs: "accs = a1 # a2 # a3 # a4 # a5 # a6 # a7 # a8 # a9 # a10 # rest" by (rule refund_accs)
  from assms(1) [unfolded accs] assms(2) obtain cfg and d :: bytes where "store pid w' = (store pid w)
       (pda E pid [lit ''refunded'', arr_bytes (refund_sid E cfg args)] \<mapsto> [MARKER_CLAIMED],
        pda E pid [lit ''sent'', arr_bytes (refund_sid E cfg args)] \<mapsto> replicate (length d) 0)"
    by (rule store_refund)
  then show ?thesis by (rule gate_config_upd2 [OF assms(3), rotated 2]) simp_all
qed

lemma gate_config_register_asset:
  assumes "process_register_asset E pid accs did bd w = Inr w'" "runtime_ok E pid"
    and "apart E pid [lit ''config'']"
  shows "gate_config E pid w' = gate_config E pid w"
proof -
  from assms(1) obtain config_ai ow asset_ai mint vault tp sys bai it
    where accs: "accs = config_ai # ow # asset_ai # mint # vault # tp # sys # bai # it"
    by (rule register_asset_accs)
  let ?c = "pda E pid [lit ''config'']"
  from assms(1) [unfolded accs] assms(2) obtain S d where
    1: "S = store pid w \<or> (\<exists>aid d. S = (store pid w)(pda E pid [lit ''gov'', arr_bytes (aid :: bytes32)] \<mapsto> d) \<and>
       deserialize de_schedule d = Some \<lparr>ready_at = 0\<rparr>)"
    and 2: "store pid w' = S(pda E pid [lit ''vault'', arr_bytes (ai_key vault)] \<mapsto> d) \<or>
     (\<exists>d'. store pid w' = S(pda E pid [lit ''vault'', arr_bytes (ai_key vault)] \<mapsto> d,
        pda E pid [lit ''asset'', arr_bytes did] \<mapsto> d'))"
    by (rule store_register_asset) blast
  have "\<And>i :: bytes32. pda E pid [lit ''gov'', arr_bytes i] \<noteq> ?c"
    "\<And>i :: bytes32. pda E pid [lit ''vault'', arr_bytes i] \<noteq> ?c"
    "\<And>i :: bytes32. pda E pid [lit ''asset'', arr_bytes i] \<noteq> ?c"
    using assms(3) unfolding apart_def gate_seeds_def by blast+
  note ne = this [symmetric]
  have "S ?c = store pid w ?c" using 1 ne(1) by auto
  then have "store pid w' ?c = store pid w ?c" using 2 ne(2,3) by auto
  then show ?thesis by (rule gate_config_cong)
qed

lemma cfg_step_send:
  assumes "process_send E pid accs args w = Inr w'" "runtime_ok E pid" "apart E pid [lit ''config'']"
  shows "cfg_step E S ripe (Send args) (gate_config E pid w) (gate_config E pid w')"
proof -
  from assms(1) obtain a1 a2 a3 a4 a5 a6 a7 a8 rest
    where accs: "accs = a1 # a2 # a3 # a4 # a5 # a6 # a7 # a8 # rest" by (rule send_accs)
  from assms(1) [unfolded accs] assms(2) obtain cfg cfg' dc ds and sid :: bytes32 where
    c: "load_config E pid a1 w = Inr cfg" "\<not> paused cfg" "sealed cfg"
    "bump_nonce cfg (sa_chain_id_to args) = Inr cfg'" "deserialize de_config dc = Some cfg'"
    and s: "store pid w' = (store pid w)(pda E pid [lit ''config''] \<mapsto> dc,
        pda E pid [lit ''sent'', arr_bytes sid] \<mapsto> ds)"
    by (rule store_send)
  have "pda E pid [lit ''sent'', arr_bytes sid] \<noteq> pda E pid [lit ''config'']"
    using assms(3) unfolding apart_def gate_seeds_def by blast
  then have "gate_config E pid w' = Some cfg'" using s c(5) by (simp add: gate_config_def)
  then show ?thesis using cs_send [OF c(2-4)] gate_config_load [OF c(1)] by simp
qed

section \<open>Every instruction is a step of the machine\<close>

lemma gate_step_cfg_step:
  assumes "gate_step E pid accs ix w = Inr w'" "runtime_ok E pid" "apart E pid [lit ''config'']"
  shows "cfg_step E (signers accs) (mature E pid w) ix (gate_config E pid w) (gate_config E pid w')"
proof (cases ix)
  case Pause
  then show ?thesis using assms(1) cfg_step_paused [of E pid accs True] by simp
next
  case Unpause
  then show ?thesis using assms(1) cfg_step_paused [of E pid accs False] by simp
qed (use assms in \<open>auto intro: cfg_step_init cfg_step_corridor cfg_step_guardian cfg_step_validator
    cfg_step_threshold cfg_step_seal cfg_step_send cs_same
    simp: gate_config_claim gate_config_cancel gate_config_refund gate_config_register_asset
      gate_config_schedule gate_config_cancel_scheduled\<close>)

section \<open>The invariant of the configuration\<close>

definition config_inv :: "config \<Rightarrow> bool" where
  "config_inv cfg \<longleftrightarrow>
     threshold cfg \<noteq> 0 \<and> unat (threshold cfg) \<le> length (validators cfg) \<and>
     threshold cfg \<le> MAX_THRESHOLD \<and>
     distinct (validators cfg) \<and> 0 \<notin> set (validators cfg) \<and>
     length (validators cfg) \<le> unat (max_validators cfg) \<and>
     distinct (map fst (nonce_to cfg)) \<and> chain_id cfg \<notin> fst ` set (nonce_to cfg) \<and>
     length (nonce_to cfg) \<le> unat (max_corridors cfg) \<and>
     chain_id cfg \<noteq> 0 \<and> bridge_domain cfg \<noteq> 0"

lemma le_of_nat_u32: "(t :: u32) \<le> of_nat n \<Longrightarrow> unat t \<le> n"
  using mod_less_eq_dividend [of n "2 ^ 32"]
  by (simp add: word_le_nat_alt unsigned_of_nat take_bit_eq_mod)

lemma of_nat_less_u32: "of_nat n < (m :: u32) \<Longrightarrow> n < 2 ^ 32 \<Longrightarrow> n < unat m"
  by (simp add: word_less_nat_alt unsigned_of_nat take_bit_eq_mod)

lemma of_nat_le_u32: "of_nat n \<le> (m :: u32) \<Longrightarrow> n < 2 ^ 32 \<Longrightarrow> n \<le> unat m"
  by (simp add: word_le_nat_alt unsigned_of_nat take_bit_eq_mod)

lemma config_inv_init:
  assumes "validate_validator_set (ia_validators args) (ia_threshold args) = Inr ()"
    and "ia_chain_id args \<noteq> 0" "ia_bridge_domain args \<noteq> 0"
    and "of_nat (length (ia_validators args)) \<le> ia_max_validators args"
    and "length (ia_validators args) < 2 ^ 32"
  shows "config_inv (init_config payer args now)"
  using assms validate_validator_set_Inr [OF assms(1)] le_of_nat_u32 of_nat_le_u32
  by (auto simp: config_inv_def init_config_def)

lemma config_inv_bump:
  assumes "bump_nonce cfg c = Inr cfg'" "config_inv cfg"
  shows "config_inv cfg'"
proof -
  obtain es where es: "bump_entries c (nonce_to cfg) = Inr es" and cfg': "cfg' = cfg\<lparr>nonce_to := es\<rparr>"
    using assms(1) by (auto simp: bump_nonce_def res_simps)
  have m: "map fst es = map fst (nonce_to cfg)" and "length es = length (nonce_to cfg)"
    using bump_entries_Inr [OF es] by auto
  moreover have "fst ` set es = fst ` set (nonce_to cfg)" using m by (metis set_map)
  ultimately show ?thesis using assms(2) by (simp add: config_inv_def cfg')
qed

text \<open>A step of the machine keeps the invariant, for configurations that fit an account.\<close>

lemma config_inv_step:
  assumes "cfg_step E S ripe ix c (Some cfg')" and "\<And>cfg. c = Some cfg \<Longrightarrow> config_inv cfg"
    and "length (validators cfg') < 2 ^ 32" "length (nonce_to cfg') < 2 ^ 32"
  shows "config_inv cfg'"
  using assms(1)
proof cases
  case (cs_init payer now args)
  then have "length (ia_validators args) < 2 ^ 32" using assms(3) by (simp add: init_config_def)
  then show ?thesis using cs_init config_inv_init by blast
next
  case (cs_send cfg args)
  then show ?thesis using assms(2) config_inv_bump by blast
next
  case (cs_corridor cfg c)
  then show ?thesis
    using assms(2) [of cfg] assms(4) of_nat_less_u32 [of "length (nonce_to cfg)" "max_corridors cfg"]
    by (auto simp: config_inv_def corridor_registered_def list_ex_iff)
next
  case (cs_add cfg v)
  then show ?thesis
    using assms(2) [of cfg] assms(3) of_nat_less_u32 [of "length (validators cfg)" "max_validators cfg"]
    by (auto simp: config_inv_def is_validator_def list_ex_iff)
next
  case (cs_remove cfg v)
  then show ?thesis
    using assms(2) [of cfg] le_of_nat_u32 le_trans [OF length_filter_le]
    by (auto simp: config_inv_def)
next
  case (cs_threshold cfg t)
  then show ?thesis using assms(2) [of cfg] le_of_nat_u32 by (auto simp: config_inv_def)
qed (use assms(2) in \<open>auto simp: config_inv_def\<close>)

end
