(* ===== verification/GateWrites.thy ===== *)
theory GateWrites
  imports GateConfig
begin

text \<open>
  The write discipline of the gate program. \<open>may_write\<close> lists what an instruction
  may store at which program-derived address; every successful instruction changes
  the program's storage by such writes only. From it follow, for one address, the
  only ways its contents can change.
\<close>

inductive may_write ::
  "env \<Rightarrow> account_info list \<Rightarrow> gate_instruction \<Rightarrow> config option \<Rightarrow> bytes list \<Rightarrow> bytes \<Rightarrow> bool"
  for E accs where
  mw_config: "may_write E accs ix c [lit ''config''] d"
| mw_burn: "deserialize de_schedule d = Some \<lparr>ready_at = 0\<rparr> \<Longrightarrow>
    may_write E accs ix c [lit ''gov'', arr_bytes (aid :: bytes32)] d"
| mw_schedule: "cfg_owner cfg \<in> signers accs \<Longrightarrow> clock_get E = Inr now \<Longrightarrow>
    sint ready = sint now + sint GOVERNANCE_DELAY \<Longrightarrow>
    deserialize de_schedule d = Some \<lparr>ready_at = ready\<rparr> \<Longrightarrow>
    may_write E accs (ScheduleAction a) (Some cfg)
      [lit ''gov'', arr_bytes (scheduled_id E a (drop 4 accs))] d"
| mw_claim: "may_write E accs (Claim args) (Some cfg)
      [lit ''executed'', arr_bytes (claim_sid E cfg args)] [MARKER_CLAIMED]"
| mw_cancel: "may_write E accs (Cancel xargs) (Some cfg)
      [lit ''executed'', arr_bytes (cancel_sid E cfg xargs)] [MARKER_CANCELLED]"
| mw_refunded: "may_write E accs (Refund rargs) (Some cfg)
      [lit ''refunded'', arr_bytes (refund_sid E cfg rargs)] [MARKER_CLAIMED]"
| mw_unsent: "may_write E accs (Refund rargs) (Some cfg)
      [lit ''sent'', arr_bytes (refund_sid E cfg rargs)] (replicate n 0)"
| mw_sent: "decode_sent_record d = Inr r \<Longrightarrow> sr_amount r = sa_amount sargs \<Longrightarrow>
    sr_debridge_id r = sa_debridge_id sargs \<Longrightarrow> sr_source_token r = ai_key (accs ! 3) \<Longrightarrow>
    sr_sender r = ai_key (accs ! 2) \<Longrightarrow>
    may_write E accs (Send sargs) (Some cfg)
      [lit ''sent'', arr_bytes (submission_id E (bridge_domain cfg) (sa_debridge_id sargs) bd wire
        (chain_id cfg) (sa_chain_id_to sargs) (nonce_of cfg (sa_chain_id_to sargs))
        (sa_receiver sargs) (sa_auto sargs) (arr_bytes (sr_sender r)))] d"
| mw_vault: "deserialize de_vault_binding d = Some \<lparr>vb_mint = m, vb_bridge_decimals = bd\<rparr> \<Longrightarrow>
    may_write E accs (RegisterAsset did bd) c [lit ''vault'', arr_bytes (v :: pubkey)] d"
| mw_asset: "decode_asset_config d = Inr a \<Longrightarrow> as_debridge_id a = did \<Longrightarrow> as_bridge_decimals a = bd \<Longrightarrow>
    may_write E accs (RegisterAsset did bd) c [lit ''asset'', arr_bytes did] d"

definition apply_writes :: "env \<Rightarrow> pubkey \<Rightarrow> (bytes list \<times> bytes) list \<Rightarrow>
    (pubkey \<rightharpoonup> bytes) \<Rightarrow> (pubkey \<rightharpoonup> bytes)" where
  "apply_writes E pid ws S = fold (\<lambda>(s, d) S. S(pda E pid s \<mapsto> d)) ws S"

lemma apply_writes_simps [simp]:
  "apply_writes E pid [] S = S"
  "apply_writes E pid ((s, d) # ws) S = apply_writes E pid ws (S(pda E pid s \<mapsto> d))"
  by (simp_all add: apply_writes_def)

lemma apply_writes_at:
  assumes "\<forall>(s', d') \<in> set ws. gate_seeds s'" "apart E pid s"
  shows "apply_writes E pid ws S (pda E pid s) = S (pda E pid s) \<or>
    (\<exists>d. (s, d) \<in> set ws \<and> apply_writes E pid ws S (pda E pid s) = Some d)"
  using assms(1)
proof (induction ws arbitrary: S)
  case (Cons x ws)
  obtain s' d' T where x: "x = (s', d')" and T: "T = S(pda E pid s' \<mapsto> d')" by fastforce
  have step: "apply_writes E pid (x # ws) S = apply_writes E pid ws T" by (simp add: x T)
  have "\<forall>(s', d') \<in> set ws. gate_seeds s'" using Cons.prems by simp
  note IH = Cons.IH [OF this, of T]
  show ?case
  proof (cases "s' = s")
    case False
    then have "T (pda E pid s) = S (pda E pid s)"
      using assms(2) Cons.prems x by (auto simp: apart_def T)
    then show ?thesis unfolding step using IH by (metis list.set_intros(2))
  next
    case True
    then have "T (pda E pid s) = Some d'" "(s, d') \<in> set (x # ws)" by (simp_all add: T x)
    then show ?thesis unfolding step using IH by (metis list.set_intros(2))
  qed
qed simp

lemma gate_seeds_config: "gate_seeds [lit ''config'']"
  by (simp add: gate_seeds_def)

lemma gate_seedsI:
  "tag \<in> {''gov'', ''vault'', ''asset'', ''sent'', ''executed'', ''refunded''} \<Longrightarrow>
   gate_seeds [lit tag, arr_bytes (i :: bytes32)]"
  unfolding gate_seeds_def by (rule disjI2, rule exI [of _ tag], rule exI [of _ i]) (rule conjI [OF refl])

lemma may_write_seeds: "may_write E accs ix c s d \<Longrightarrow> gate_seeds s"
  by (induction rule: may_write.induct) (simp_all add: gate_seeds_config gate_seedsI)

definition disciplined ::
  "env \<Rightarrow> pubkey \<Rightarrow> account_info list \<Rightarrow> gate_instruction \<Rightarrow> world \<Rightarrow> world \<Rightarrow> bool" where
  "disciplined E pid accs ix w w' \<longleftrightarrow>
     (\<exists>ws. store pid w' = apply_writes E pid ws (store pid w) \<and>
        (\<forall>(s, d) \<in> set ws. may_write E accs ix (gate_config E pid w) s d))"

lemma disciplinedI:
  "store pid w' = apply_writes E pid ws (store pid w) \<Longrightarrow>
   (\<And>s d. (s, d) \<in> set ws \<Longrightarrow> may_write E accs ix (gate_config E pid w) s d) \<Longrightarrow>
   disciplined E pid accs ix w w'"
  unfolding disciplined_def by blast

lemma disciplined_refl: "disciplined E pid accs ix w w"
  by (rule disciplinedI [where ws = "[]"]) simp_all

section \<open>Administrative instructions\<close>

lemma disciplined_config_store:
  assumes "config_store cfg ai w = Inr w'" "load_config E pid ai w = Inr cfg0"
  shows "disciplined E pid accs ix w w'"
proof -
  have o: "owner_of w ai = pid" "ai_key ai = pda E pid [lit ''config'']"
    using assms(2) by (auto simp: load_config_Inr)
  from assms(1) o(1) obtain d where "store pid w' = (store pid w)(ai_key ai \<mapsto> d)"
    by (rule store_config_store)
  then show ?thesis
    by (intro disciplinedI [where ws = "[([lit ''config''], d)]"]) (auto simp: o(2) mw_config)
qed

lemma disciplined_consume_store:
  assumes "consume_governance E pid gov_ai aid w = Inr w1" "config_store cfg ai w1 = Inr w'"
    and "load_config E pid ai w = Inr cfg0"
  shows "disciplined E pid accs ix w w'"
proof -
  have o: "owner_of w ai = pid" "ai_key ai = pda E pid [lit ''config'']"
    using assms(3) by (auto simp: load_config_Inr)
  from assms(1) obtain d' where
    d': "store pid w1 = (store pid w)(pda E pid [lit ''gov'', arr_bytes aid] \<mapsto> d')"
      "deserialize de_schedule d' = Some \<lparr>ready_at = 0\<rparr>"
    by (rule store_consume)
  have "owner_of w1 ai = pid" using consume_mature(2) [OF assms(1)] o(1) by simp
  with assms(2) obtain d where "store pid w' = (store pid w1)(ai_key ai \<mapsto> d)"
    by (rule store_config_store)
  then show ?thesis
    by (intro disciplinedI [where ws = "[([lit ''gov'', arr_bytes aid], d'), ([lit ''config''], d)]"])
      (auto simp: o(2) d' mw_config mw_burn)
qed

lemma disciplined_init:
  assumes "process_init E pid accs args w = Inr w'" "runtime_ok E pid"
  shows "disciplined E pid accs ix w w'"
proof -
  from process_init_success [OF assms(1)] obtain config_ai payer sys seeds bump space w1 cfg where
    k: "ai_key config_ai = pda E pid [lit ''config'']"
    and c: "create_pda_account E pid payer config_ai sys seeds bump space w = Inr w1"
    and s: "config_store cfg config_ai w1 = Inr w'" by (elim exE conjE) (rule that)
  note p = store_create_pda(2,3) [OF c assms(2)]
  from s p(1) obtain d where "store pid w' = (store pid w1)(ai_key config_ai \<mapsto> d)"
    by (rule store_config_store)
  then show ?thesis
    using p(2) k
    by (intro disciplinedI [where ws = "[([lit ''config''], d)]"]) (auto simp: mw_config)
qed

lemma disciplined_corridor:
  "process_register_corridor E pid accs c w = Inr w' \<Longrightarrow> disciplined E pid accs ix w w'"
  using process_register_corridor_success disciplined_config_store disciplined_refl by metis

lemma disciplined_set_paused:
  "process_set_paused E pid accs p w = Inr w' \<Longrightarrow> disciplined E pid accs ix w w'"
  using process_set_paused_success disciplined_config_store disciplined_refl by metis

lemma disciplined_seal:
  "process_seal E pid accs w = Inr w' \<Longrightarrow> disciplined E pid accs ix w w'"
  using process_seal_success disciplined_config_store by metis

lemma disciplined_set_guardian:
  "process_set_guardian E pid accs g w = Inr w' \<Longrightarrow> disciplined E pid accs ix w w'"
  using process_set_guardian_success disciplined_config_store disciplined_consume_store
    disciplined_refl by metis

lemma disciplined_set_validator:
  "process_set_validator E pid accs v a w = Inr w' \<Longrightarrow> disciplined E pid accs ix w w'"
  using process_set_validator_success disciplined_config_store disciplined_consume_store
    disciplined_refl by metis

lemma disciplined_set_threshold:
  "process_set_threshold E pid accs t w = Inr w' \<Longrightarrow> disciplined E pid accs ix w w'"
  using process_set_threshold_success disciplined_config_store disciplined_consume_store by metis

lemma disciplined_schedule:
  assumes "process_schedule_action E pid accs a w = Inr w'" "runtime_ok E pid"
  shows "disciplined E pid accs (ScheduleAction a) w w'"
proof -
  from process_schedule_action_success [OF assms(1)] obtain config_ai ow gov_ai sys it cfg ready where
    s: "accs = config_ai # ow # gov_ai # sys # it" "load_config E pid config_ai w = Inr cfg"
      "ai_key ow = cfg_owner cfg" "is_signer ow"
    and ws: "write_schedule E pid ow gov_ai sys (scheduled_id E a it) w = Inr (ready, w')"
    by (elim exE conjE) (rule that)
  from ws assms(2) obtain d now where
    "store pid w' = (store pid w)(pda E pid [lit ''gov'', arr_bytes (scheduled_id E a it)] \<mapsto> d)"
    and "deserialize de_schedule d = Some \<lparr>ready_at = ready\<rparr>" "clock_get E = Inr now"
    "sint ready = sint now + sint GOVERNANCE_DELAY" by (rule store_write_schedule)
  moreover have "cfg_owner cfg \<in> signers accs" using signersI [of ow accs] s by simp
  moreover have "drop 4 accs = it" using s(1) by simp
  ultimately show ?thesis
    using gate_config_load [OF s(2)]
    by (intro disciplinedI [where ws = "[([lit ''gov'', arr_bytes (scheduled_id E a it)], d)]"])
      (auto dest: mw_schedule)
qed

lemma disciplined_cancel_scheduled:
  assumes "process_cancel_scheduled_governance E pid accs aid w = Inr w'"
  shows "disciplined E pid accs ix w w'"
  using store_cancel_scheduled [OF assms]
proof
  assume "store pid w' = store pid w"
  then show ?thesis by (intro disciplinedI [where ws = "[]"]) simp_all
next
  assume "\<exists>d. store pid w' = (store pid w)(pda E pid [lit ''gov'', arr_bytes aid] \<mapsto> d) \<and>
      deserialize de_schedule d = Some \<lparr>ready_at = 0\<rparr>"
  then obtain d where "store pid w' = (store pid w)(pda E pid [lit ''gov'', arr_bytes aid] \<mapsto> d)"
    "deserialize de_schedule d = Some \<lparr>ready_at = 0\<rparr>" by blast
  then show ?thesis
    by (intro disciplinedI [where ws = "[([lit ''gov'', arr_bytes aid], d)]"]) (auto intro: mw_burn)
qed

section \<open>Fund-moving instructions and the asset registry\<close>

lemma disciplined_claim:
  assumes "process_claim E pid accs args w = Inr w'" "runtime_ok E pid"
  shows "disciplined E pid accs (Claim args) w w'"
proof -
  from assms(1) obtain a1 a2 a3 a4 a5 a6 a7 a8 a9 rest
    where accs: "accs = a1 # a2 # a3 # a4 # a5 # a6 # a7 # a8 # a9 # rest" by (rule claim_accs)
  from assms(1) [unfolded accs] assms(2) obtain cfg where c: "load_config E pid a1 w = Inr cfg"
    and s: "store pid w' = (store pid w)
       (pda E pid [lit ''executed'', arr_bytes (claim_sid E cfg args)] \<mapsto> [MARKER_CLAIMED])"
    by (rule store_claim)
  show ?thesis
    by (rule disciplinedI [where ws = "[([lit ''executed'', arr_bytes (claim_sid E cfg args)], [MARKER_CLAIMED])]"])
      (auto simp: s gate_config_load [OF c] mw_claim)
qed

lemma disciplined_cancel:
  assumes "process_cancel E pid accs args w = Inr w'" "runtime_ok E pid"
  shows "disciplined E pid accs (Cancel args) w w'"
proof -
  from assms(1) obtain a1 a2 a3 a4 rest where accs: "accs = a1 # a2 # a3 # a4 # rest"
    by (rule cancel_accs)
  from assms(1) [unfolded accs] assms(2) obtain cfg where c: "load_config E pid a1 w = Inr cfg"
    and s: "store pid w' = (store pid w)
       (pda E pid [lit ''executed'', arr_bytes (cancel_sid E cfg args)] \<mapsto> [MARKER_CANCELLED])"
    by (rule store_cancel)
  show ?thesis
    by (rule disciplinedI [where ws = "[([lit ''executed'', arr_bytes (cancel_sid E cfg args)], [MARKER_CANCELLED])]"])
      (auto simp: s gate_config_load [OF c] mw_cancel)
qed

lemma disciplined_refund:
  assumes "process_refund E pid accs args w = Inr w'" "runtime_ok E pid"
  shows "disciplined E pid accs (Refund args) w w'"
proof -
  from assms(1) obtain a1 a2 a3 a4 a5 a6 a7 a8 a9 a10 rest
    where accs: "accs = a1 # a2 # a3 # a4 # a5 # a6 # a7 # a8 # a9 # a10 # rest" by (rule refund_accs)
  from assms(1) [unfolded accs] assms(2) obtain cfg sent and d :: bytes where c: "load_config E pid a1 w = Inr cfg"
    and s: "store pid w' = (store pid w)
       (pda E pid [lit ''refunded'', arr_bytes (refund_sid E cfg args)] \<mapsto> [MARKER_CLAIMED],
        pda E pid [lit ''sent'', arr_bytes (refund_sid E cfg args)] \<mapsto> replicate (length d) 0)"
    by (rule store_refund)
  show ?thesis
    by (rule disciplinedI [where ws = "[([lit ''refunded'', arr_bytes (refund_sid E cfg args)], [MARKER_CLAIMED]),
        ([lit ''sent'', arr_bytes (refund_sid E cfg args)], replicate (length d) 0)]"])
      (auto simp: s gate_config_load [OF c] mw_refunded mw_unsent)
qed

lemma disciplined_send:
  assumes "process_send E pid accs args w = Inr w'" "runtime_ok E pid"
  shows "disciplined E pid accs (Send args) w w'"
proof -
  from assms(1) obtain a1 a2 a3 a4 a5 a6 a7 a8 rest
    where accs: "accs = a1 # a2 # a3 # a4 # a5 # a6 # a7 # a8 # rest" by (rule send_accs)
  from assms(1) [unfolded accs] assms(2) obtain cfg dc ds rec wire bd and sid :: bytes32 where
    c: "load_config E pid a1 w = Inr cfg"
    and r: "decode_sent_record ds = Inr rec" "sr_amount rec = sa_amount args"
      "sr_source_token rec = ai_key a4" "sr_sender rec = ai_key a3"
      "sr_debridge_id rec = sa_debridge_id args"
    and sid: "sid = submission_id E (bridge_domain cfg) (sa_debridge_id args) bd wire
        (chain_id cfg) (sa_chain_id_to args) (nonce_of cfg (sa_chain_id_to args))
        (sa_receiver args) (sa_auto args) (arr_bytes (ai_key a3))"
    and s: "store pid w' = (store pid w)(pda E pid [lit ''config''] \<mapsto> dc,
        pda E pid [lit ''sent'', arr_bytes sid] \<mapsto> ds)"
    by (rule store_send)
  have "may_write E accs (Send args) (Some cfg) [lit ''sent'', arr_bytes sid] ds"
    using mw_sent [OF r(1,2,5), of accs E cfg bd wire] r(3,4) by (simp add: accs sid)
  then show ?thesis
    by (intro disciplinedI [where ws = "[([lit ''config''], dc), ([lit ''sent'', arr_bytes sid], ds)]"])
      (auto simp: s gate_config_load [OF c] mw_config)
qed

lemma disciplined_register_asset:
  assumes "process_register_asset E pid accs did bd w = Inr w'" "runtime_ok E pid"
  shows "disciplined E pid accs (RegisterAsset did bd) w w'"
proof -
  from assms(1) obtain config_ai ow asset_ai mint vault tp sys bai it
    where accs: "accs = config_ai # ow # asset_ai # mint # vault # tp # sys # bai # it"
    by (rule register_asset_accs)
  let ?v = "[lit ''vault'', arr_bytes (ai_key vault)]" and ?a = "[lit ''asset'', arr_bytes did]"
  from assms(1) [unfolded accs] assms(2) obtain S d ld where
    1: "S = store pid w \<or> (\<exists>aid d. S = (store pid w)(pda E pid [lit ''gov'', arr_bytes (aid :: bytes32)] \<mapsto> d) \<and>
       deserialize de_schedule d = Some \<lparr>ready_at = 0\<rparr>)"
    and 2: "store pid w' = S(pda E pid ?v \<mapsto> d) \<or>
     (\<exists>d'. store pid w' = S(pda E pid ?v \<mapsto> d, pda E pid ?a \<mapsto> d') \<and>
        decode_asset_config d' = Inr \<lparr>as_debridge_id = did, as_mint = ai_key mint,
          as_vault = ai_key vault, as_bridge_decimals = bd, as_local_decimals = ld\<rparr>)"
    and 3: "deserialize de_vault_binding d = Some \<lparr>vb_mint = ai_key mint, vb_bridge_decimals = bd\<rparr>"
    by (rule store_register_asset)
  let ?ok = "\<lambda>s d. may_write E accs (RegisterAsset did bd) (gate_config E pid w) s d"
  obtain ws where ws: "S = apply_writes E pid ws (store pid w)" "\<And>s d. (s, d) \<in> set ws \<Longrightarrow> ?ok s d"
  proof -
    consider "S = store pid w" | aid d where
      "S = (store pid w)(pda E pid [lit ''gov'', arr_bytes (aid :: bytes32)] \<mapsto> d)"
      "deserialize de_schedule d = Some \<lparr>ready_at = 0\<rparr>" using 1 by blast
    then show ?thesis
    proof cases
      case 1
      then show ?thesis using that [of "[]"] by simp
    next
      case (2 aid d)
      then show ?thesis using that [of "[([lit ''gov'', arr_bytes aid], d)]"] mw_burn by auto
    qed
  qed
  have app: "apply_writes E pid (ws @ us) (store pid w) = apply_writes E pid us S" for us
    by (simp add: apply_writes_def ws(1))
  have v: "?ok ?v d" using 3 by (rule mw_vault)
  show ?thesis using 2
  proof
    assume "store pid w' = S(pda E pid ?v \<mapsto> d)"
    then show ?thesis
      using ws(2) v by (intro disciplinedI [where ws = "ws @ [(?v, d)]"]) (auto simp: app)
  next
    assume "\<exists>d'. store pid w' = S(pda E pid ?v \<mapsto> d, pda E pid ?a \<mapsto> d') \<and>
        decode_asset_config d' = Inr \<lparr>as_debridge_id = did, as_mint = ai_key mint,
          as_vault = ai_key vault, as_bridge_decimals = bd, as_local_decimals = ld\<rparr>"
    then obtain d' where "store pid w' = S(pda E pid ?v \<mapsto> d, pda E pid ?a \<mapsto> d')" "?ok ?a d'"
      using mw_asset by fastforce
    then show ?thesis
      using ws(2) v by (intro disciplinedI [where ws = "ws @ [(?v, d), (?a, d')]"]) (auto simp: app)
  qed
qed

lemmas disciplined_handlers =
  disciplined_claim disciplined_cancel disciplined_refund disciplined_send
  disciplined_register_asset disciplined_init disciplined_corridor disciplined_set_paused
  disciplined_set_guardian disciplined_set_validator disciplined_set_threshold
  disciplined_seal disciplined_schedule disciplined_cancel_scheduled

lemma disciplined_gate_step:
  assumes "gate_step E pid accs ix w = Inr w'" "runtime_ok E pid"
  shows "disciplined E pid accs ix w w'"
  using assms by (cases ix) (auto intro: disciplined_handlers)

section \<open>One address\<close>

lemma gate_step_at:
  assumes "gate_step E pid accs ix w = Inr w'" "runtime_ok E pid" "apart E pid s"
  shows "store pid w' (pda E pid s) = store pid w (pda E pid s) \<or>
    (\<exists>d. store pid w' (pda E pid s) = Some d \<and> may_write E accs ix (gate_config E pid w) s d)"
proof -
  obtain ws where ws: "store pid w' = apply_writes E pid ws (store pid w)"
    and m: "\<forall>(s, d) \<in> set ws. may_write E accs ix (gate_config E pid w) s d"
    using disciplined_gate_step [OF assms(1,2)] by (auto simp: disciplined_def)
  have "\<forall>(s', d') \<in> set ws. gate_seeds s'" using m may_write_seeds by blast
  from apply_writes_at [OF this assms(3)] ws m show ?thesis by fastforce
qed

lemma lit_inject [simp]: "lit s = lit t \<longleftrightarrow> s = t"
proof -
  have "inj (\<lambda>c :: char. (of_nat (of_char c) :: u8))"
  proof (rule injI)
    fix c d :: char
    assume "(of_nat (of_char c) :: u8) = of_nat (of_char d)"
    then have "unat (of_nat (of_char c) :: u8) = unat (of_nat (of_char d) :: u8)" by simp
    then have "(of_char c :: nat) = of_char d"
      by (simp add: unsigned_of_nat take_bit_eq_mod)
    then show "c = d" by simp
  qed
  then show ?thesis unfolding lit_def by (simp add: inj_map_eq_map)
qed

inductive_cases may_write_schedE: "may_write E accs ix c [lit ''gov'', arr_bytes (aid :: bytes32)] d"
inductive_cases may_write_sentE: "may_write E accs ix c [lit ''sent'', arr_bytes (sid :: bytes32)] d"
inductive_cases may_write_refundedE: "may_write E accs ix c [lit ''refunded'', arr_bytes (sid :: bytes32)] d"
inductive_cases may_write_assetE: "may_write E accs ix c [lit ''asset'', arr_bytes (did :: bytes32)] d"

end
