(* ===== verification/GateReplay.thy ===== *)
theory GateReplay
  imports GateSuccess GateAdminSuccess
begin

text \<open>
  Replay protection of the gate program. Every instruction keeps the accounts the
  program owns (an account that holds data never loses it or its owner), so a
  replay marker, once created, blocks its submission id for good. \<open>gate_run\<close> lets
  instructions of anyone interleave with the steps of other programs, which by the
  runtime's owner rule cannot touch the program's accounts.
\<close>

section \<open>Every instruction keeps the program's accounts\<close>

lemma keeps_owned_claim:
  assumes "process_claim E pid accs args w = Inr w'" and "runtime_ok E pid"
  shows "keeps_owned pid w w'"
proof -
  have r: "owner_rule E pid" "system_rule E pid" using assms(2) by (auto simp: runtime_ok_def)
  from assms(1) obtain a1 a2 a3 a4 a5 a6 a7 a8 a9 rest
    where accs: "accs = a1 # a2 # a3 # a4 # a5 # a6 # a7 # a8 # a9 # rest" by (rule claim_accs)
  from process_claim_success [OF assms(1) [unfolded accs]] obtain w1 seeds bump ix infos seeds'
    where "create_marker E pid a4 a3 a9 seeds bump MARKER_CLAIMED w = Inr w1"
      and "invoke_signed E pid ix infos seeds' w1 = Inr w'" by blast
  then show ?thesis
    using keeps_owned_trans keeps_owned_create_marker [OF _ r(2)] keeps_owned_invoke [OF r(1)]
    by blast
qed

lemma keeps_owned_cancel:
  assumes "process_cancel E pid accs args w = Inr w'" and "runtime_ok E pid"
  shows "keeps_owned pid w w'"
proof -
  have r: "system_rule E pid" using assms(2) by (auto simp: runtime_ok_def)
  from assms(1) obtain a1 a2 a3 a4 rest where accs: "accs = a1 # a2 # a3 # a4 # rest"
    by (rule cancel_accs)
  from process_cancel_success [OF assms(1) [unfolded accs]] obtain w1 seeds bump tag sid did c n
    where m: "create_marker E pid a3 a2 a4 seeds bump MARKER_CANCELLED w = Inr w1"
      and e: "emit_lifecycle tag sid did c n w1 = Inr w'" by blast
  show ?thesis
    using keeps_owned_trans [OF keeps_owned_create_marker [OF m r]
        keeps_owned_accts [OF emit_lifecycle_Inr [OF e]]] .
qed

lemma keeps_owned_refund:
  assumes "process_refund E pid accs args w = Inr w'" and "runtime_ok E pid"
  shows "keeps_owned pid w w'"
proof -
  have r: "owner_rule E pid" "system_rule E pid" using assms(2) by (auto simp: runtime_ok_def)
  from assms(1) obtain a1 a2 a3 a4 a5 a6 a7 a8 a9 a10 rest
    where accs: "accs = a1 # a2 # a3 # a4 # a5 # a6 # a7 # a8 # a9 # a10 # rest" by (rule refund_accs)
  from process_refund_success [OF assms(1) [unfolded accs]]
  obtain w1 w2 seeds bump ix infos seeds' tag sid did c n
    where m: "create_marker E pid a5 a4 a10 seeds bump MARKER_CLAIMED w = Inr w1"
      and i: "invoke_signed E pid ix infos seeds'
        (set_data a3 (replicate (length (data_of w1 a3)) 0) w1) = Inr w2"
      and e: "emit_lifecycle tag sid did c n w2 = Inr w'" by blast
  have "keeps_owned pid w1 (set_data a3 (replicate (length (data_of w1 a3)) 0) w1)"
    by (rule keeps_owned_set_data) simp
  then have "keeps_owned pid w w2"
    using keeps_owned_create_marker [OF m r(2)] keeps_owned_invoke [OF r(1) i]
    by (blast intro: keeps_owned_trans)
  then show ?thesis
    using keeps_owned_accts [OF emit_lifecycle_Inr [OF e]] by (rule keeps_owned_trans)
qed

lemma keeps_owned_send:
  assumes "process_send E pid accs args w = Inr w'" and "runtime_ok E pid"
  shows "keeps_owned pid w w'"
proof -
  have r: "owner_rule E pid" "system_rule E pid" using assms(2) by (auto simp: runtime_ok_def)
  from assms(1) obtain a1 a2 a3 a4 a5 a6 a7 a8 rest
    where accs: "accs = a1 # a2 # a3 # a4 # a5 # a6 # a7 # a8 # rest" by (rule send_accs)
  from process_send_success [OF assms(1) [unfolded accs]]
  obtain w1 w2 w3 cfg' sid bump rec wire bd cf nonce ns mint ix infos
    where s: "config_store cfg' a1 w = Inr w1"
      and c: "create_sent_record E pid a3 a7 a8 sid bump rec w1 = Inr w2"
      and e: "emit_sent sid args wire bd cf nonce ns mint w2 = Inr w3"
      and i: "invoke E pid ix infos w3 = Inr w'" by blast
  have "keeps_owned pid w w2"
    using keeps_owned_trans [OF keeps_owned_config_store [OF s] create_sent_record_effect(6) [OF c r(2)]] .
  moreover have "keeps_owned pid w2 w3" by (rule keeps_owned_accts [OF emit_sent_Inr [OF e]])
  moreover have "keeps_owned pid w3 w'"
    by (rule keeps_owned_invoke [OF r(1) i [unfolded invoke_def]])
  ultimately show ?thesis by (blast intro: keeps_owned_trans)
qed

lemma keeps_owned_grow:
  assumes "grow_program_account E pid payer target sys space w = Inr w'"
    and "runtime_ok E pid" and "length (data_of w target) < space"
  shows "keeps_owned pid w w'"
proof -
  have r: "system_rule E pid" "realloc_rule E" using assms(2) by (auto simp: runtime_ok_def)
  obtain w1 d where
    s1: "w1 = w \<or> (\<exists>n infos. invoke E pid (SystemTransfer (ai_key payer) (ai_key target) n) infos w = Inr w1)"
    and d: "realloc_zeroed E (data_of w1 target) space = Inr d" and w': "w' = set_data target d w1"
    using assms(1) by (auto simp: grow_program_account_def Let_def res_simps split: if_splits)
  have same: "acct_owner (accts w1 k) = acct_owner (accts w k)"
    "acct_data (accts w1 k) = acct_data (accts w k)" for k
    using s1 system_rule_transfer [OF r(1)] by blast+
  have "d = take space (data_of w1 target) @ replicate (space - length (data_of w1 target)) 0"
    using r(2) d unfolding realloc_rule_def by blast
  then have "length d = space" using assms(3) same by simp
  with assms(3) same have "keeps_owned pid w1 w'"
    unfolding w' by (intro keeps_owned_set_data) simp
  then show ?thesis using same by (simp add: keeps_owned_def)
qed

lemma keeps_owned_register_asset:
  assumes "process_register_asset E pid accs did bd w = Inr w'" and "runtime_ok E pid"
  shows "keeps_owned pid w w'"
proof -
  have r: "system_rule E pid" using assms(2) by (auto simp: runtime_ok_def)
  from assms(1) obtain config_ai ow asset_ai mint vault tp sys bai it
    where accs: "accs = config_ai # ow # asset_ai # mint # vault # tp # sys # bai # it"
    by (rule register_asset_accs)
  from process_register_asset_success [OF assms(1) [unfolded accs]]
  obtain w1 w2 want rerun fresh phase aid seeds bump space b where
    c1: "if fresh then
         (\<exists>now. clock_get E = Inr now \<and>
            (if phase now then w1 = w
             else \<exists>gov_ai its. it = gov_ai # its \<and> consume_governance E pid gov_ai aid w = Inr w1))
       else w1 = w"
    and 2: "bind_vault E pid ow bai sys (ai_key vault) want w1 = Inr w2"
    and c3: "if rerun then w' = w2
       else \<exists>w3.
         (if data_of w2 asset_ai = [] then
            create_pda_account E pid ow asset_ai sys seeds bump space w2 = Inr w3
          else if length (data_of w2 asset_ai) < space then
            grow_program_account E pid ow asset_ai sys space w2 = Inr w3
          else w3 = w2) \<and>
         write_zero_padded b asset_ai w3 = Inr w'"
    by (elim exE conjE) (rule that)
  have 1: "w1 = w \<or> (\<exists>gov_ai. consume_governance E pid gov_ai aid w = Inr w1)"
    using c1 by (auto split: if_splits)
  have 3: "keeps_owned pid w2 w'"
  proof (cases rerun)
    case True
    then show ?thesis using c3 by simp
  next
    case False
    with c3 obtain w3 where w3: "if data_of w2 asset_ai = [] then
            create_pda_account E pid ow asset_ai sys seeds bump space w2 = Inr w3
          else if length (data_of w2 asset_ai) < space then
            grow_program_account E pid ow asset_ai sys space w2 = Inr w3
          else w3 = w2" and w': "write_zero_padded b asset_ai w3 = Inr w'" by auto
    have "keeps_owned pid w2 w3"
      using w3 keeps_owned_create_pda [OF _ r] keeps_owned_grow [OF _ assms(2)]
      by (auto split: if_splits)
    then show ?thesis using keeps_owned_write_zero_padded [OF w'] by (rule keeps_owned_trans)
  qed
  have "keeps_owned pid w w2"
    using 1 keeps_owned_consume bind_vault_effect(5) [OF 2 r] keeps_owned_trans by blast
  then show ?thesis using 3 by (rule keeps_owned_trans)
qed

lemma keeps_owned_admin:
  assumes "w1 = w \<or> (\<exists>gov_ai aid. consume_governance E pid gov_ai aid w = Inr w1)"
    and "config_store cfg config_ai w1 = Inr w'"
  shows "keeps_owned pid w w'"
  using assms keeps_owned_consume keeps_owned_config_store keeps_owned_trans by blast

lemma keeps_owned_init:
  assumes "process_init E pid accs args w = Inr w'" "runtime_ok E pid"
  shows "keeps_owned pid w w'"
proof -
  have r: "system_rule E pid" using assms(2) by (auto simp: runtime_ok_def)
  from process_init_success [OF assms(1)] obtain config_ai payer sys seeds bump space w1 cfg where
    "create_pda_account E pid payer config_ai sys seeds bump space w = Inr w1"
    "config_store cfg config_ai w1 = Inr w'" by (elim exE conjE) (rule that)
  then show ?thesis
    using keeps_owned_create_pda [OF _ r] keeps_owned_config_store keeps_owned_trans by blast
qed

lemma keeps_owned_corridor:
  assumes "process_register_corridor E pid accs c w = Inr w'"
  shows "keeps_owned pid w w'"
  using process_register_corridor_success [OF assms]
  by (auto simp: keeps_owned_config_store split: if_splits)

lemma keeps_owned_set_paused:
  assumes "process_set_paused E pid accs p w = Inr w'"
  shows "keeps_owned pid w w'"
  using process_set_paused_success [OF assms]
  by (metis keeps_owned_config_store keeps_owned_refl)

lemma keeps_owned_set_guardian:
  assumes "process_set_guardian E pid accs g w = Inr w'"
  shows "keeps_owned pid w w'"
  using process_set_guardian_success [OF assms] keeps_owned_admin keeps_owned_refl by metis

lemma keeps_owned_set_validator:
  assumes "process_set_validator E pid accs v a w = Inr w'"
  shows "keeps_owned pid w w'"
  using process_set_validator_success [OF assms] keeps_owned_admin keeps_owned_refl by metis

lemma keeps_owned_set_threshold:
  assumes "process_set_threshold E pid accs t w = Inr w'"
  shows "keeps_owned pid w w'"
  using process_set_threshold_success [OF assms] keeps_owned_admin by metis

lemma keeps_owned_seal:
  assumes "process_seal E pid accs w = Inr w'"
  shows "keeps_owned pid w w'"
  using process_seal_success [OF assms] keeps_owned_config_store by metis

lemma keeps_owned_schedule:
  assumes "process_schedule_action E pid accs a w = Inr w'" "runtime_ok E pid"
  shows "keeps_owned pid w w'"
proof -
  have "system_rule E pid" using assms(2) by (auto simp: runtime_ok_def)
  then show ?thesis
    using process_schedule_action_success [OF assms(1)] write_schedule_effect(6) by metis
qed

lemma keeps_owned_cancel_scheduled:
  assumes "process_cancel_scheduled_governance E pid accs aid w = Inr w'"
  shows "keeps_owned pid w w'"
  using process_cancel_scheduled_success [OF assms] keeps_owned_write_prefix keeps_owned_refl by metis

lemmas keeps_owned_handlers =
  keeps_owned_claim keeps_owned_cancel keeps_owned_refund keeps_owned_send
  keeps_owned_register_asset keeps_owned_init keeps_owned_corridor keeps_owned_set_paused
  keeps_owned_set_guardian keeps_owned_set_validator keeps_owned_set_threshold
  keeps_owned_seal keeps_owned_schedule keeps_owned_cancel_scheduled

lemma keeps_owned_gate_step:
  assumes "gate_step E pid accs ix w = Inr w'" "runtime_ok E pid"
  shows "keeps_owned pid w w'"
  using assms by (cases ix) (auto intro: keeps_owned_handlers)

end
