(* ===== verification/GateRun.thy ===== *)
theory GateRun
  imports GateWrites GateReplay
begin

text \<open>
  Runs of the gate program: instructions of anyone, at any time, interleaved with
  steps of other programs. A step of another program cannot touch the accounts of
  the gate, and cannot create its program-derived accounts, which only the gate
  can sign for. Histories are kept as lists of events, so that a property can say
  what must have happened before.
\<close>

section \<open>Time\<close>

definition at_time :: "env \<Rightarrow> i64 \<Rightarrow> env" where
  "at_time E now = E\<lparr>clock_get := Inr now\<rparr>"

lemma at_time_fields [simp]:
  "keccak (at_time E t) = keccak E" "secp256k1_recover (at_time E t) = secp256k1_recover E"
  "find_program_address (at_time E t) = find_program_address E" "clock_get (at_time E t) = Inr t"
  "unpack_account (at_time E t) = unpack_account E" "spl_token_id (at_time E t) = spl_token_id E"
  "invoke_program (at_time E t) = invoke_program E"
  "system_program_id (at_time E t) = system_program_id E"
  by (simp_all add: at_time_def)

lemma runtime_ok_at_time [simp]: "runtime_ok (at_time E t) pid = runtime_ok E pid"
  by (simp add: runtime_ok_def owner_rule_def system_rule_def token_rule_def token_moved_def
      realloc_rule_def at_time_def)

lemma hash_at_time [simp]: "hashv (at_time E t) = hashv E"
  by (simp add: hashv_def fun_eq_iff)

lemma submission_id_at_time [simp]: "submission_id (at_time E t) = submission_id E"
  by (auto simp: submission_id_def submission_parts_def auto_tail_def fun_eq_iff split: option.split)

lemma ids_at_time [simp]:
  "claim_sid (at_time E t) = claim_sid E" "cancel_sid (at_time E t) = cancel_sid E"
  "refund_sid (at_time E t) = refund_sid E"
  by (simp_all add: claim_sid_def cancel_sid_def refund_sid_def fun_eq_iff)

lemma action_ids_at_time [simp]:
  "add_validator_action_id (at_time E t) = add_validator_action_id E"
  "lower_threshold_action_id (at_time E t) = lower_threshold_action_id E"
  "set_guardian_action_id (at_time E t) = set_guardian_action_id E"
  "register_asset_action_id (at_time E t) = register_asset_action_id E"
  by (simp_all add: add_validator_action_id_def lower_threshold_action_id_def
      set_guardian_action_id_def register_asset_action_id_def fun_eq_iff)

lemma scheduled_id_at_time [simp]: "scheduled_id (at_time E t) = scheduled_id E"
  by (simp add: scheduled_id_def fun_eq_iff split: governance_action.splits list.splits)

lemma views_at_time [simp]:
  "gate_config (at_time E t) = gate_config E" "schedule_at (at_time E t) = schedule_at E"
  "apart (at_time E t) = apart E"
  by (simp_all add: gate_config_def schedule_at_def apart_def fun_eq_iff)

section \<open>Runs\<close>

datatype run_event = Executed i64 "account_info list" gate_instruction | Foreign

definition foreign_step :: "env \<Rightarrow> pubkey \<Rightarrow> world \<Rightarrow> world \<Rightarrow> bool" where
  "foreign_step E pid w w' \<longleftrightarrow>
     (\<forall>k d. store pid w k = Some d \<longrightarrow> store pid w' k = Some d) \<and>
     (\<forall>s. gate_seeds s \<longrightarrow> store pid w' (pda E pid s) = store pid w (pda E pid s))"

inductive gate_run :: "env \<Rightarrow> pubkey \<Rightarrow> world \<Rightarrow> run_event list \<Rightarrow> world \<Rightarrow> bool"
  for E pid w0 where
  run_nil: "gate_run E pid w0 [] w0"
| run_ix: "gate_run E pid w0 es w \<Longrightarrow> gate_step (at_time E now) pid accs ix w = Inr w' \<Longrightarrow>
    gate_run E pid w0 (es @ [Executed now accs ix]) w'"
| run_foreign: "gate_run E pid w0 es w \<Longrightarrow> foreign_step E pid w w' \<Longrightarrow>
    gate_run E pid w0 (es @ [Foreign]) w'"

lemma foreign_keeps_owned: "foreign_step E pid w w' \<Longrightarrow> keeps_owned pid w w'"
  unfolding foreign_step_def keeps_owned_def store_def by (metis option.sel option.simps(3) order_refl)

lemma run_keeps_owned:
  assumes "gate_run E pid w0 es w" "runtime_ok E pid"
  shows "keeps_owned pid w0 w"
  using assms(1)
proof induction
  case (run_ix es w now accs ix w')
  then show ?case
    using keeps_owned_gate_step [OF run_ix(2)] assms(2) keeps_owned_trans by simp
next
  case (run_foreign es w w')
  then show ?case using foreign_keeps_owned keeps_owned_trans by blast
qed simp

lemma store_kept:
  assumes "keeps_owned pid w w'" "store pid w k = Some d" "d \<noteq> []"
  shows "\<exists>d'. store pid w' k = Some d' \<and> d' \<noteq> []"
  using keeps_ownedD(1,2) [OF assms(1), of k] assms(2,3) by (auto simp: store_def split: if_splits)

section \<open>Settlement\<close>

text \<open>The submission an instruction settles on this chain: a claim pays it, a cancel voids it.\<close>

definition settled_id :: "env \<Rightarrow> config \<Rightarrow> gate_instruction \<Rightarrow> bytes32 option" where
  "settled_id E cfg ix =
     (case ix of Claim a \<Rightarrow> Some (claim_sid E cfg a) | Cancel a \<Rightarrow> Some (cancel_sid E cfg a) | _ \<Rightarrow> None)"

lemma settled_id_at_time [simp]: "settled_id (at_time E t) = settled_id E"
  by (simp add: settled_id_def fun_eq_iff split: gate_instruction.splits)

lemma settle_marks:
  assumes "gate_step E pid accs ix w = Inr w'" "runtime_ok E pid"
    and "gate_config E pid w = Some cfg" "settled_id E cfg ix = Some sid"
  shows "store pid w (pda E pid [lit ''executed'', arr_bytes sid]) = None"
    and "\<exists>m. store pid w' (pda E pid [lit ''executed'', arr_bytes sid]) = Some [m]"
proof -
  consider a where "ix = Claim a" "sid = claim_sid E cfg a" | a where "ix = Cancel a" "sid = cancel_sid E cfg a"
    using assms(4) by (auto simp: settled_id_def split: gate_instruction.splits)
  then have "store pid w (pda E pid [lit ''executed'', arr_bytes sid]) = None \<and>
    (\<exists>m. store pid w' (pda E pid [lit ''executed'', arr_bytes sid]) = Some [m])"
  proof cases
    case (1 a)
    then have st: "process_claim E pid accs a w = Inr w'" using assms(1) by simp
    then obtain a1 a2 a3 a4 a5 a6 a7 a8 a9 rest
      where accs: "accs = a1 # a2 # a3 # a4 # a5 # a6 # a7 # a8 # a9 # rest" by (rule claim_accs)
    from st [unfolded accs] assms(2) obtain cfg' where c: "load_config E pid a1 w = Inr cfg'"
      and "store pid w (pda E pid [lit ''executed'', arr_bytes (claim_sid E cfg' a)]) = None"
      and "store pid w' = (store pid w)
       (pda E pid [lit ''executed'', arr_bytes (claim_sid E cfg' a)] \<mapsto> [MARKER_CLAIMED])"
      by (rule store_claim)
    then show ?thesis using gate_config_load [OF c] assms(3) 1 by simp
  next
    case (2 a)
    then have st: "process_cancel E pid accs a w = Inr w'" using assms(1) by simp
    then obtain a1 a2 a3 a4 rest where accs: "accs = a1 # a2 # a3 # a4 # rest" by (rule cancel_accs)
    from st [unfolded accs] assms(2) obtain cfg' where c: "load_config E pid a1 w = Inr cfg'"
      and "store pid w (pda E pid [lit ''executed'', arr_bytes (cancel_sid E cfg' a)]) = None"
      and "store pid w' = (store pid w)
       (pda E pid [lit ''executed'', arr_bytes (cancel_sid E cfg' a)] \<mapsto> [MARKER_CANCELLED])"
      by (rule store_cancel)
    then show ?thesis using gate_config_load [OF c] assms(3) 2 by simp
  qed
  then show "store pid w (pda E pid [lit ''executed'', arr_bytes sid]) = None"
    "\<exists>m. store pid w' (pda E pid [lit ''executed'', arr_bytes sid]) = Some [m]" by auto
qed

lemma settle_once:
  assumes "runtime_ok E pid"
    and "gate_step (at_time E t1) pid accs1 ix1 w1 = Inr w2"
    and "gate_config E pid w1 = Some cfg1" "settled_id E cfg1 ix1 = Some sid1"
    and "gate_run E pid w2 es w3"
    and "gate_step (at_time E t2) pid accs2 ix2 w3 = Inr w4"
    and "gate_config E pid w3 = Some cfg2" "settled_id E cfg2 ix2 = Some sid2"
  shows "sid1 \<noteq> sid2"
proof
  assume eq: "sid1 = sid2"
  let ?k = "pda E pid [lit ''executed'', arr_bytes sid1]"
  obtain m where "store pid w2 ?k = Some [m]"
    using settle_marks(2) [OF assms(2)] assms(1,3,4) by auto
  then obtain d where "store pid w3 ?k = Some d"
    using store_kept [OF run_keeps_owned [OF assms(5,1)]] by blast
  moreover have "store pid w3 ?k = None"
    using settle_marks(1) [OF assms(6)] assms(1,7,8) eq by simp
  ultimately show False by simp
qed

section \<open>Refunds\<close>

lemma refund_marks:
  assumes "gate_step E pid accs (Refund a) w = Inr w'" "runtime_ok E pid"
    and "gate_config E pid w = Some cfg"
  obtains sent d where
    "store pid w (pda E pid [lit ''refunded'', arr_bytes (refund_sid E cfg a)]) = None"
    "store pid w' (pda E pid [lit ''refunded'', arr_bytes (refund_sid E cfg a)]) = Some [MARKER_CLAIMED]"
    "store pid w (pda E pid [lit ''sent'', arr_bytes (refund_sid E cfg a)]) = Some d"
    "decode_sent_record d = Inr sent"
proof -
  have st: "process_refund E pid accs a w = Inr w'" using assms(1) by simp
  then obtain a1 a2 a3 a4 a5 a6 a7 a8 a9 a10 rest
    where accs: "accs = a1 # a2 # a3 # a4 # a5 # a6 # a7 # a8 # a9 # a10 # rest" by (rule refund_accs)
  from st [unfolded accs] assms(2) obtain cfg' sent d where c: "load_config E pid a1 w = Inr cfg'"
    and s: "store pid w (pda E pid [lit ''refunded'', arr_bytes (refund_sid E cfg' a)]) = None"
      "store pid w (pda E pid [lit ''sent'', arr_bytes (refund_sid E cfg' a)]) = Some d"
      "decode_sent_record d = Inr sent"
      "store pid w' = (store pid w)
       (pda E pid [lit ''refunded'', arr_bytes (refund_sid E cfg' a)] \<mapsto> [MARKER_CLAIMED],
        pda E pid [lit ''sent'', arr_bytes (refund_sid E cfg' a)] \<mapsto> replicate (length d) 0)"
    by (rule store_refund)
  have [simp]: "cfg' = cfg" using gate_config_load [OF c] assms(3) by simp
  have "pda E pid [lit ''sent'', arr_bytes (refund_sid E cfg a)] \<noteq>
      pda E pid [lit ''refunded'', arr_bytes (refund_sid E cfg a)]"
    using s(1,2) by (metis \<open>cfg' = cfg\<close> option.simps(3))
  then show ?thesis using that [of d sent] s by simp
qed

definition sends_record :: "sent_record \<Rightarrow> run_event \<Rightarrow> bool" where
  "sends_record r e =
     (case e of
        Executed t accs ix \<Rightarrow>
          (case ix of
             Send a \<Rightarrow> sa_amount a = sr_amount r \<and> sa_debridge_id a = sr_debridge_id r \<and>
               ai_key (accs ! 3) = sr_source_token r \<and> ai_key (accs ! 2) = sr_sender r
           | _ \<Rightarrow> False)
      | Foreign \<Rightarrow> False)"

text \<open>
  The record of a submission is absent, or it is what an earlier send wrote, or the
  submission has been refunded.
\<close>

lemma run_sent_record:
  assumes "gate_run E pid w0 es w" "runtime_ok E pid"
    and "apart E pid [lit ''sent'', arr_bytes (sid :: bytes32)]"
    and "store pid w0 (pda E pid [lit ''sent'', arr_bytes sid]) = None"
  shows "store pid w (pda E pid [lit ''sent'', arr_bytes sid]) = None \<or>
    (\<exists>d r. store pid w (pda E pid [lit ''sent'', arr_bytes sid]) = Some d \<and>
       decode_sent_record d = Inr r \<and> (\<exists>e \<in> set es. sends_record r e)) \<or>
    (\<exists>d. store pid w (pda E pid [lit ''refunded'', arr_bytes sid]) = Some d \<and> d \<noteq> [])"
  (is "?none w \<or> ?sent w es \<or> ?refunded w")
  using assms(1)
proof induction
  case run_nil
  then show ?case using assms(4) by simp
next
  case (run_ix es w now accs ix w')
  have r: "runtime_ok (at_time E now) pid" using assms(2) by simp
  have ref: "?refunded w \<Longrightarrow> ?refunded w'"
    using store_kept [OF keeps_owned_gate_step [OF run_ix(2) r]] by blast
  have "apart (at_time E now) pid [lit ''sent'', arr_bytes sid]" using assms(3) by simp
  from gate_step_at [OF run_ix(2) r this] consider
    "store pid w' (pda E pid [lit ''sent'', arr_bytes sid]) = store pid w (pda E pid [lit ''sent'', arr_bytes sid])"
    | d where "store pid w' (pda E pid [lit ''sent'', arr_bytes sid]) = Some d"
      "may_write (at_time E now) accs ix (gate_config E pid w) [lit ''sent'', arr_bytes sid] d"
    by auto
  then show ?case
  proof cases
    case 1
    then show ?thesis using run_ix.IH ref by auto
  next
    case (2 d)
    note d = 2(1)
    consider rargs cfg where "ix = Refund rargs" "gate_config E pid w = Some cfg" "sid = refund_sid E cfg rargs"
      | r where "decode_sent_record d = Inr r" "sends_record r (Executed now accs ix)"
      using 2(2) by (auto elim!: may_write_sentE simp: sends_record_def)
    then show ?thesis
    proof cases
      case (1 rargs cfg)
      then have "gate_step (at_time E now) pid accs (Refund rargs) w = Inr w'"
        "gate_config (at_time E now) pid w = Some cfg" using run_ix(2) by simp_all
      from refund_marks [OF this(1) r this(2)] have "?refunded w'" using 1(3) by fastforce
      then show ?thesis by blast
    next
      case (2 r)
      then show ?thesis using d by auto
    qed
  qed
next
  case (run_foreign es w w')
  have s: "gate_seeds [lit ''sent'', arr_bytes sid]" "gate_seeds [lit ''refunded'', arr_bytes sid]"
    by (simp_all add: gate_seedsI)
  then show ?case using run_foreign by (auto simp: foreign_step_def)
qed

section \<open>Governance\<close>

definition schedule_event :: "env \<Rightarrow> bytes32 \<Rightarrow> i64 \<Rightarrow> run_event \<Rightarrow> bool" where
  "schedule_event E aid t e =
     (case e of
        Executed t' accs ix \<Rightarrow>
          (case ix of ScheduleAction a \<Rightarrow> t' = t \<and> scheduled_id E a (drop 4 accs) = aid | _ \<Rightarrow> False)
      | Foreign \<Rightarrow> False)"

lemma schedule_at_upd:
  "store pid w (pda E pid [lit ''gov'', arr_bytes aid]) = Some d \<Longrightarrow>
   deserialize de_schedule d = Some s \<Longrightarrow> schedule_at E pid w aid = ready_at s"
  by (simp add: schedule_at_def)

lemma run_schedule:
  assumes "gate_run E pid w0 es w" "runtime_ok E pid"
    and "apart E pid [lit ''gov'', arr_bytes aid]" "schedule_at E pid w0 aid = 0"
  shows "schedule_at E pid w aid = 0 \<or>
    (\<exists>t. sint (schedule_at E pid w aid) = sint t + sint GOVERNANCE_DELAY \<and>
       (\<exists>e \<in> set es. schedule_event E aid t e))"
  using assms(1)
proof induction
  case run_nil
  then show ?case using assms(4) by simp
next
  case (run_ix es w now accs ix w')
  have r: "runtime_ok (at_time E now) pid" "apart (at_time E now) pid [lit ''gov'', arr_bytes aid]"
    using assms(2,3) by simp_all
  from gate_step_at [OF run_ix(2) r] consider
    "store pid w' (pda E pid [lit ''gov'', arr_bytes aid]) = store pid w (pda E pid [lit ''gov'', arr_bytes aid])"
    | d where "store pid w' (pda E pid [lit ''gov'', arr_bytes aid]) = Some d"
      "may_write (at_time E now) accs ix (gate_config E pid w) [lit ''gov'', arr_bytes aid] d"
    by auto
  then show ?case
  proof cases
    case 1
    then have "schedule_at E pid w' aid = schedule_at E pid w aid" by (simp add: schedule_at_def)
    then show ?thesis using run_ix.IH by auto
  next
    case (2 d)
    note d = 2(1)
    consider "deserialize de_schedule d = Some \<lparr>ready_at = 0\<rparr>"
      | ready where "deserialize de_schedule d = Some \<lparr>ready_at = ready\<rparr>"
        "sint ready = sint now + sint GOVERNANCE_DELAY" "schedule_event E aid now (Executed now accs ix)"
      using 2(2) by (auto elim!: may_write_schedE simp: schedule_event_def)
    then show ?thesis
    proof cases
      case 1
      then show ?thesis using schedule_at_upd [OF d] by simp
    next
      case (2 ready)
      then have "sint (schedule_at E pid w' aid) = sint now + sint GOVERNANCE_DELAY"
        using schedule_at_upd [OF d] by simp
      then show ?thesis using 2(3) by auto
    qed
  qed
next
  case (run_foreign es w w')
  have "gate_seeds [lit ''gov'', arr_bytes aid]" by (simp add: gate_seedsI)
  then have "schedule_at E pid w' aid = schedule_at E pid w aid"
    using run_foreign(2) by (simp add: foreign_step_def schedule_at_def)
  then show ?case using run_foreign.IH by auto
qed

text \<open>A schedule that can be consumed was written at least the delay ago, and not too long ago.\<close>

lemma mature_history:
  assumes "gate_run E pid w0 es w" "runtime_ok E pid"
    and "apart E pid [lit ''gov'', arr_bytes aid]" "schedule_at E pid w0 aid = 0"
    and "mature (at_time E now) pid w aid"
  shows "\<exists>t e. e \<in> set es \<and> schedule_event E aid t e \<and>
    sint t + sint GOVERNANCE_DELAY \<le> sint now \<and>
    sint now \<le> sint t + sint GOVERNANCE_DELAY + sint GOVERNANCE_GRACE"
proof -
  have m: "schedule_at E pid w aid \<noteq> 0" "sint (schedule_at E pid w aid) \<le> sint now"
    "sint now \<le> sint (isat_add (schedule_at E pid w aid) GOVERNANCE_GRACE)"
    using assms(5) by (auto simp: mature_def governance_consumable_iff)
  moreover have "sint (isat_add (schedule_at E pid w aid) GOVERNANCE_GRACE) \<le>
      sint (schedule_at E pid w aid) + sint GOVERNANCE_GRACE"
    using sint_i64_bounds [of "schedule_at E pid w aid"] by (simp add: sint_isat_add GOVERNANCE_GRACE_def)
  ultimately show ?thesis using run_schedule [OF assms(1-4)] by force
qed

section \<open>The configuration along a run\<close>

lemma gate_config_foreign: "foreign_step E pid w w' \<Longrightarrow> gate_config E pid w' = gate_config E pid w"
  using gate_seeds_config by (auto simp: foreign_step_def intro: gate_config_cong)

lemma deserialize_config_lengths:
  "deserialize de_config d = Some cfg \<Longrightarrow>
     length (validators cfg) < 2 ^ 32 \<and> length (nonce_to cfg) < 2 ^ 32"
  by (auto simp: deserialize_def de_config_def dest!: length_de_vec split: bind_splits)

lemma gate_config_lengths:
  "gate_config E pid w = Some cfg \<Longrightarrow>
     length (validators cfg) < 2 ^ 32 \<and> length (nonce_to cfg) < 2 ^ 32"
  using deserialize_config_lengths by (auto simp: gate_config_def split: bind_splits)

definition config_ok :: "config option \<Rightarrow> bool" where
  "config_ok c = (case c of None \<Rightarrow> True | Some cfg \<Rightarrow> config_inv cfg)"

lemma gate_step_config_ok:
  assumes "gate_step E pid accs ix w = Inr w'" "runtime_ok E pid" "apart E pid [lit ''config'']"
    and "config_ok (gate_config E pid w)"
  shows "config_ok (gate_config E pid w')"
proof (cases "gate_config E pid w'")
  case (Some cfg')
  have "cfg_step E (signers accs) (mature E pid w) ix (gate_config E pid w) (Some cfg')"
    using gate_step_cfg_step [OF assms(1-3)] Some by simp
  moreover have "config_inv cfg" if "gate_config E pid w = Some cfg" for cfg
    using assms(4) that by (simp add: config_ok_def)
  ultimately have "config_inv cfg'"
    using config_inv_step [of E "signers accs" "mature E pid w" ix "gate_config E pid w" cfg']
      gate_config_lengths [OF Some] by blast
  then show ?thesis using Some by (simp add: config_ok_def)
qed (simp add: config_ok_def)

text \<open>What no instruction changes of a configuration, and what only grows.\<close>

definition config_le :: "config \<Rightarrow> config \<Rightarrow> bool" where
  "config_le c c' \<longleftrightarrow>
     cfg_owner c' = cfg_owner c \<and> bridge_domain c' = bridge_domain c \<and> chain_id c' = chain_id c \<and>
     max_validators c' = max_validators c \<and> max_corridors c' = max_corridors c \<and>
     setup_deadline c' = setup_deadline c \<and> (sealed c \<longrightarrow> sealed c') \<and>
     (\<forall>d. corridor_registered c d \<longrightarrow> corridor_registered c' d \<and>
        unat (nonce_of c d) \<le> unat (nonce_of c' d))"

lemma config_le_refl: "config_le c c"
  by (simp add: config_le_def)

lemma config_le_trans: "config_le a b \<Longrightarrow> config_le b c \<Longrightarrow> config_le a c"
  unfolding config_le_def by (auto intro: le_trans)

lemma nonce_of_append:
  assumes "corridor_registered c d"
  shows "nonce_of (c\<lparr>nonce_to := nonce_to c @ es\<rparr>) d = nonce_of c d"
proof -
  have "find (\<lambda>e. fst e = d) (xs @ es) = find (\<lambda>e. fst e = d) xs"
    if "list_ex (\<lambda>e. fst e = d) xs" for xs :: "(u64 \<times> u64) list" using that by (induction xs) auto
  then show ?thesis using assms by (simp add: nonce_of_def corridor_registered_def)
qed

lemma config_le_bump:
  assumes "bump_nonce c d = Inr c'"
  shows "config_le c c'"
proof -
  obtain es where es: "bump_entries d (nonce_to c) = Inr es" and c': "c' = c\<lparr>nonce_to := es\<rparr>"
    using assms by (auto simp: bump_nonce_def res_simps)
  have "fst ` set es = fst ` set (nonce_to c)" using bump_entries_Inr [OF es] by (metis set_map)
  then have reg: "corridor_registered c x \<Longrightarrow> corridor_registered c' x" for x
    unfolding corridor_registered_def list_ex_iff c' by force
  have "unat (nonce_of c x) \<le> unat (nonce_of c' x)" for x
    using bump_nonce_same [OF assms] bump_nonce_other [OF assms, of x] by (cases "x = d") auto
  with reg show ?thesis by (simp add: config_le_def c')
qed

lemma cfg_step_le:
  assumes "cfg_step E S ripe ix (Some c) c'"
  shows "\<exists>c''. c' = Some c'' \<and> config_le c c''"
  using assms
proof cases
  case (cs_send args cfg')
  then show ?thesis using config_le_bump by blast
next
  case (cs_corridor d)
  have "config_le c (c\<lparr>nonce_to := nonce_to c @ [(d, 0)]\<rparr>)"
    unfolding config_le_def by (auto simp: nonce_of_append corridor_registered_def)
  then show ?thesis using cs_corridor by blast
qed (auto simp: config_le_def corridor_registered_def nonce_of_def)

lemma run_config_le:
  assumes "gate_run E pid w0 es w" "runtime_ok E pid" "apart E pid [lit ''config'']"
    and "gate_config E pid w0 = Some c"
  shows "\<exists>c'. gate_config E pid w = Some c' \<and> config_le c c'"
  using assms(1)
proof induction
  case run_nil
  then show ?case using assms(4) config_le_refl by blast
next
  case (run_ix es w now accs ix w')
  then obtain c1 where c1: "gate_config E pid w = Some c1" "config_le c c1" by blast
  have "cfg_step (at_time E now) (signers accs) (mature (at_time E now) pid w) ix (Some c1)
      (gate_config E pid w')"
    using gate_step_cfg_step [OF run_ix(2)] assms(2,3) c1(1) by simp
  from cfg_step_le [OF this] show ?case using c1(2) config_le_trans by blast
next
  case (run_foreign es w w')
  then show ?case using gate_config_foreign by metis
qed

end
