(* ===== verification/DemoRuntime.thy ===== *)
theory DemoRuntime
  imports GateRun
begin

text \<open>
  A small concrete runtime: executable instances of the services that are
  parameters of the model, with which the hypotheses of the properties are shown
  to be satisfiable. Its hash keeps the last 32 bytes of its input, its recovery
  returns the key carried by the signature, its token accounts are ten bytes long
  (mint, owner, amount), and addresses of the gate are distinct for small ids.
\<close>

section \<open>Services\<close>

definition demo_keccak :: "bytes \<Rightarrow> bytes32" where
  "demo_keccak bs = of_be (drop (length bs - 32) bs)"

definition demo_tag :: "bytes \<Rightarrow> pubkey" where
  "demo_tag t = (if t = lit ''executed'' then 10 else if t = lit ''refunded'' then 11
     else if t = lit ''sent'' then 12 else if t = lit ''gov'' then 13
     else if t = lit ''asset'' then 14 else if t = lit ''vault'' then 15 else 7)"

definition demo_find :: "bytes list \<Rightarrow> pubkey \<Rightarrow> pubkey \<times> u8" where
  "demo_find seeds pid =
     ((if seeds = [lit ''config''] then 1
       else if seeds = [lit ''vault_authority''] then 2
       else case seeds of
           [t, i] \<Rightarrow> if (of_be i :: pubkey) < 2 ^ 200 then 16 * of_be i + demo_tag t else 7
         | _ \<Rightarrow> 9), 255)"

definition demo_unpack :: "bytes \<Rightarrow> spl_account option" where
  "demo_unpack d =
     (case d of
        m # own # rest \<Rightarrow>
          if length rest = 8
          then Some \<lparr>spl_mint = ucast m, spl_owner = ucast own, spl_amount = of_le rest,
                 spl_delegate = None, spl_close_authority = None\<rparr>
          else None
      | _ \<Rightarrow> None)"

definition demo_token :: "u8 \<Rightarrow> u8 \<Rightarrow> u64 \<Rightarrow> bytes" where
  "demo_token m own n = m # own # le_bytes 8 n"

definition demo_set_amount :: "pubkey \<Rightarrow> u64 \<Rightarrow> (pubkey \<Rightarrow> account) \<Rightarrow> (pubkey \<Rightarrow> account)" where
  "demo_set_amount k n a =
     a(k := (a k)\<lparr>acct_data := take 2 (acct_data (a k)) @ le_bytes 8 n\<rparr>)"

definition demo_transfer :: "pubkey \<Rightarrow> pubkey \<Rightarrow> u64 \<Rightarrow> (pubkey \<Rightarrow> account) \<Rightarrow>
    program_error + (pubkey \<Rightarrow> account)" where
  "demo_transfer s d n a =
     (if acct_owner (a s) \<noteq> 200 \<or> acct_owner (a d) \<noteq> 200 then Inl IllegalOwner
      else case (demo_unpack (acct_data (a s)), demo_unpack (acct_data (a d))) of
          (Some x, Some y) \<Rightarrow>
            if spl_mint x \<noteq> spl_mint y \<or> spl_amount x < n then Inl (Custom 1)
            else if s = d then Inr a
            else (case checked_add (spl_amount y) n of
                None \<Rightarrow> Inl ArithmeticOverflow
              | Some m \<Rightarrow> Inr (demo_set_amount d m (demo_set_amount s (spl_amount x - n) a)))
        | _ \<Rightarrow> Inl InvalidAccountData)"

fun demo_invoke :: "pubkey \<Rightarrow> cpi_ix \<Rightarrow> account_info list \<Rightarrow> bytes list list \<Rightarrow>
    (pubkey \<Rightarrow> account) \<Rightarrow> program_error + (pubkey \<Rightarrow> account)" where
  "demo_invoke pid (SystemTransfer f t n) infos seeds a =
     (if lamports (a f) < n then Inl (Custom 1)
      else let b = a(f := (a f)\<lparr>lamports := lamports (a f) - n\<rparr>) in
        Inr (b(t := (b t)\<lparr>lamports := lamports (b t) + n\<rparr>)))"
| "demo_invoke pid (SystemAllocate k n) infos seeds a =
     (if acct_owner (a k) = 0 \<and> acct_data (a k) = []
      then Inr (a(k := (a k)\<lparr>acct_data := replicate (unat n) 0\<rparr>)) else Inl (Custom 0))"
| "demo_invoke pid (SystemAssign k p) infos seeds a =
     (if acct_owner (a k) = 0 then Inr (a(k := (a k)\<lparr>acct_owner := p\<rparr>)) else Inl (Custom 0))"
| "demo_invoke pid (SplTransfer p s d au n) infos seeds a = demo_transfer s d n a"
| "demo_invoke pid (SplTransferChecked p s m d au n dec) infos seeds a =
     (case demo_unpack (acct_data (a s)) of
        Some x \<Rightarrow> if spl_mint x = m then demo_transfer s d n a else Inl (Custom 3)
      | None \<Rightarrow> Inl InvalidAccountData)"

definition demo_env :: env where
  "demo_env = \<lparr>keccak = demo_keccak, secp256k1_recover = (\<lambda>digest recid sig. Some sig),
     find_program_address = demo_find, clock_get = Inr 0, rent_minimum_balance = (\<lambda>n. Inr 0),
     unpack_account = demo_unpack,
     unpack_mint = (\<lambda>d. case d of [n] \<Rightarrow> Some n | _ \<Rightarrow> None),
     loader_state_of = (\<lambda>d. case d of [n] \<Rightarrow> Some (ProgramData (Some (ucast n))) | _ \<Rightarrow> None),
     realloc_zeroed = (\<lambda>d n. Inr (take n d @ replicate (n - length d) 0)),
     spl_token_id = 200, system_program_id = 0, loader_id = 201, invoke_program = demo_invoke\<rparr>"

lemma demo_env_fields [simp]:
  "keccak demo_env = demo_keccak" "secp256k1_recover demo_env dg v s = Some s"
  "find_program_address demo_env = demo_find" "clock_get demo_env = Inr 0"
  "rent_minimum_balance demo_env n = Inr 0" "unpack_account demo_env = demo_unpack"
  "unpack_mint demo_env d = (case d of [n] \<Rightarrow> Some n | _ \<Rightarrow> None)"
  "loader_state_of demo_env d = (case d of [n] \<Rightarrow> Some (ProgramData (Some (ucast n))) | _ \<Rightarrow> None)"
  "realloc_zeroed demo_env d n = Inr (take n d @ replicate (n - length d) 0)"
  "spl_token_id demo_env = 200" "system_program_id demo_env = 0" "loader_id demo_env = 201"
  "invoke_program demo_env = demo_invoke"
  by (simp_all add: demo_env_def)

section \<open>The runtime satisfies the rules\<close>

lemma demo_unpack_token [simp]:
  "demo_unpack (demo_token m own n) = Some \<lparr>spl_mint = ucast m, spl_owner = ucast own, spl_amount = n,
     spl_delegate = None, spl_close_authority = None\<rparr>"
  by (simp add: demo_unpack_def demo_token_def of_le_bytes_full)

lemma demo_set_token:
  "take 2 (demo_token m own x) @ le_bytes 8 y = demo_token m own y"
  by (simp add: demo_token_def)

lemma demo_unpack_set:
  assumes "demo_unpack d = Some x"
  shows "demo_unpack (take 2 d @ le_bytes 8 n) = Some (x\<lparr>spl_amount := n\<rparr>)"
  using assms by (auto simp: demo_unpack_def of_le_bytes_full split: list.splits if_splits)

lemma demo_set_amount_owner [simp]: "acct_owner (demo_set_amount k n a j) = acct_owner (a j)"
  by (simp add: demo_set_amount_def)

lemma demo_transfer_moved:
  assumes "demo_transfer s d n a = Inr a'"
  shows "token_moved demo_env s d n a a'"
proof -
  obtain x y where x: "demo_unpack (acct_data (a s)) = Some x" and y: "demo_unpack (acct_data (a d)) = Some y"
    and m: "spl_mint x = spl_mint y" and n: "n \<le> spl_amount x"
    and r: "if s = d then a' = a else \<exists>k. checked_add (spl_amount y) n = Some k \<and>
        a' = demo_set_amount d k (demo_set_amount s (spl_amount x - n) a)"
    using assms by (auto simp: demo_transfer_def not_less split: if_splits option.splits)
  have nn: "unat n \<le> unat (spl_amount x)" using n by (simp add: word_le_nat_alt)
  show ?thesis
  proof (cases "s = d")
    case True
    then have "a' = a" using r by simp
    then show ?thesis using x y m nn True by (auto simp: token_moved_def)
  next
    case False
    then obtain k where k: "checked_add (spl_amount y) n = Some k"
      and a': "a' = demo_set_amount d k (demo_set_amount s (spl_amount x - n) a)"
      using r by auto
    have "demo_unpack (acct_data (a' s)) = Some (x\<lparr>spl_amount := spl_amount x - n\<rparr>)"
      "demo_unpack (acct_data (a' d)) = Some (y\<lparr>spl_amount := k\<rparr>)"
      using False demo_unpack_set [OF x] demo_unpack_set [OF y] by (simp_all add: a' demo_set_amount_def)
    moreover have "unat (spl_amount x - n) = unat (spl_amount x) - unat n"
      using n by (rule unat_sub)
    moreover have "unat k = unat (spl_amount y) + unat n" using checked_add_Some [OF k] by simp
    moreover have "\<forall>j. j \<noteq> s \<and> j \<noteq> d \<longrightarrow> a' j = a j" by (simp add: a' demo_set_amount_def)
    moreover have "\<forall>j. acct_owner (a' j) = acct_owner (a j)" by (simp add: a')
    ultimately show ?thesis using x y m nn False by (simp add: token_moved_def)
  qed
qed

lemma demo_transfer_other:
  assumes "demo_transfer s d n a = Inr a'" "acct_owner (a k) \<noteq> 200"
  shows "a' k = a k"
proof -
  have "acct_owner (a s) = 200" "acct_owner (a d) = 200"
    using assms(1) by (auto simp: demo_transfer_def split: if_splits)
  then have "k \<noteq> s" "k \<noteq> d" using assms(2) by auto
  then show ?thesis
    using demo_transfer_moved [OF assms(1)] by (simp add: token_moved_def)
qed

lemma demo_runtime_ok:
  assumes "pid \<noteq> 0" "pid \<noteq> 200"
  shows "runtime_ok demo_env pid"
proof -
  have "acct_owner (a' k) = pid \<and> acct_data (a' k) = acct_data (a k)"
    if "demo_invoke pid ix infos seeds a = Inr a'" "acct_owner (a k) = pid" for ix infos seeds a a' k
    using that assms demo_transfer_other [of _ _ _ a a' k]
    by (cases ix) (auto simp: Let_def split: if_splits option.splits)
  then have "owner_rule demo_env pid" by (auto simp: owner_rule_def)
  moreover have "system_rule demo_env pid"
    using assms(1) by (auto simp: system_rule_def Let_def split: if_splits)
  moreover have "token_rule demo_env pid"
    using assms(2) demo_transfer_moved
    by (auto simp: token_rule_def split: option.splits if_splits)
  moreover have "realloc_rule demo_env" by (simp add: realloc_rule_def)
  ultimately show ?thesis by (simp add: runtime_ok_def)
qed

section \<open>Addresses\<close>

lemma gate_seedsE:
  assumes "gate_seeds s"
  obtains "s = [lit ''config'']" | tag i where "s = [lit tag, arr_bytes (i :: bytes32)]"
    "tag \<in> {''gov'', ''vault'', ''asset'', ''sent'', ''executed'', ''refunded''}"
  using assms unfolding gate_seeds_def by (elim disjE exE conjE)

lemma demo_tag_cases: "demo_tag t \<in> {7, 10, 11, 12, 13, 14, 15}"
  by (simp add: demo_tag_def)

lemma demo_address:
  assumes "(n :: pubkey) < 2 ^ 200" "c < 16"
  shows "unat (16 * n + c) = 16 * unat n + unat c"
proof -
  have "unat n < 2 ^ 200" "unat c < 16" using assms by (simp_all add: word_less_nat_alt)
  then show ?thesis by (simp add: unat_word_ariths unsigned_of_nat)
qed

lemma demo_pda_config [simp]: "fst (demo_find [lit ''config''] pid) = 1"
  by (simp add: demo_find_def)

lemma demo_pda_authority [simp]: "demo_find [lit ''vault_authority''] pid = (2, 255)"
  by (simp add: demo_find_def)

lemma demo_pda:
  "i < 2 ^ 200 \<Longrightarrow> demo_find [t, arr_bytes (i :: bytes32)] pid = (16 * i + demo_tag t, 255)"
  by (simp add: demo_find_def of_be_arr_bytes)

lemma demo_apart_config: "apart demo_env pid [lit ''config'']"
proof -
  have "fst (demo_find [lit tag, arr_bytes (i :: bytes32)] pid) \<noteq> 1" for tag i
  proof (cases "i < 2 ^ 200")
    case True
    have "demo_tag (lit tag) < 16" "1 < unat (demo_tag (lit tag))"
      using demo_tag_cases [of "lit tag"] by auto
    then have "1 < unat (16 * i + demo_tag (lit tag))" using demo_address [OF True] by simp
    then have "16 * i + demo_tag (lit tag) \<noteq> 1" by (metis less_irrefl unsigned_1)
    then show ?thesis by (simp only: demo_pda [OF True] fst_conv not_False_eq_True)
  next
    case False
    then show ?thesis by (simp add: demo_find_def of_be_arr_bytes)
  qed
  then show ?thesis by (auto simp: apart_def elim!: gate_seedsE)
qed

lemma demo_tag_inject:
  assumes "t \<in> {''gov'', ''vault'', ''asset'', ''sent'', ''executed'', ''refunded''}"
    "t' \<in> {''gov'', ''vault'', ''asset'', ''sent'', ''executed'', ''refunded''}"
  shows "demo_tag (lit t) = demo_tag (lit t') \<longleftrightarrow> t = t'"
  using assms by (auto simp: demo_tag_def)

lemma demo_apart:
  assumes "tag \<in> {''gov'', ''vault'', ''asset'', ''sent'', ''executed'', ''refunded''}"
    and "(i :: bytes32) < 2 ^ 200"
  shows "apart demo_env pid [lit tag, arr_bytes i]"
  unfolding apart_def
proof (intro allI impI, elim conjE)
  fix s'
  assume g: "gate_seeds s'" and ne: "s' \<noteq> [lit tag, arr_bytes i]"
  have tg: "demo_tag (lit tag) < 16" "demo_tag (lit tag) \<noteq> 7" "demo_tag (lit tag) \<noteq> 1"
    using assms(1) by (auto simp: demo_tag_def)
  note u = demo_address [OF assms(2) tg(1)]
  from g consider "s' = [lit ''config'']" | t j where "s' = [lit t, arr_bytes (j :: bytes32)]"
    "t \<in> {''gov'', ''vault'', ''asset'', ''sent'', ''executed'', ''refunded''}"
    by (rule gate_seedsE)
  then show "pda demo_env pid s' \<noteq> pda demo_env pid [lit tag, arr_bytes i]"
  proof cases
    case 1
    have "gate_seeds [lit tag, arr_bytes i]" using assms(1) by (rule gate_seedsI)
    then show ?thesis using demo_apart_config [of pid] 1 by (auto simp: apart_def)
  next
    case (2 t j)
    show ?thesis
    proof (cases "j < 2 ^ 200")
      case True
      have tj: "demo_tag (lit t) < 16" using demo_tag_cases [of "lit t"] by auto
      note v = demo_address [OF True tj]
      show ?thesis
      proof
        assume "pda demo_env pid s' = pda demo_env pid [lit tag, arr_bytes i]"
        then have "16 * unat j + unat (demo_tag (lit t)) = 16 * unat i + unat (demo_tag (lit tag))"
          using u v by (simp only: 2(1) demo_env_fields demo_pda [OF True] demo_pda [OF assms(2)] fst_conv)
        moreover have "unat (demo_tag (lit t)) < 16" "unat (demo_tag (lit tag)) < 16"
          using tj tg(1) by (simp_all add: word_less_nat_alt)
        ultimately have "unat j = unat i" "unat (demo_tag (lit t)) = unat (demo_tag (lit tag))"
          by presburger+
        then have "j = i" "demo_tag (lit t) = demo_tag (lit tag)" by (metis word_unat_eq_iff)+
        then have "j = i" "t = tag" using demo_tag_inject [OF 2(2) assms(1)] by blast+
        then show False using ne 2 by simp
      qed
    next
      case False
      then have 7: "pda demo_env pid s' = 7" by (simp add: 2 demo_find_def of_be_arr_bytes)
      have "9 < unat (demo_tag (lit tag))" using assms(1) by (auto simp: demo_tag_def)
      then have "9 < unat (16 * i + demo_tag (lit tag))" using u by simp
      then have "16 * i + demo_tag (lit tag) \<noteq> 7" by auto
      then show ?thesis
        using 7 by (simp only: demo_env_fields demo_pda [OF assms(2)] fst_conv)
    qed
  qed
qed

section \<open>A world\<close>

text \<open>
  The gate 100 with three validators and a threshold of two, one corridor and one
  asset: mint 68 with 6 decimals, carried with 3, its vault 20; token accounts 36
  and 52 of users; everything else is empty.
\<close>

definition demo_config :: config where
  "demo_config = \<lparr>cfg_owner = 4, bridge_domain = 1, guardian = 3, validators = [1, 2, 3],
     threshold = 2, chain_id = 7, paused = False, max_validators = 4, max_corridors = 2,
     nonce_to = [(9, 0)], sealed = True, setup_deadline = 1000\<rparr>"

definition demo_asset :: asset_config where
  "demo_asset = \<lparr>as_debridge_id = 5, as_mint = 68, as_vault = 20, as_bridge_decimals = 3,
     as_local_decimals = 6\<rparr>"

definition demo_accts :: "config \<Rightarrow> pubkey \<Rightarrow> account" where
  "demo_accts cfg k =
     (if k = 1 then \<lparr>lamports = 0, acct_owner = 100, acct_data = the (ser_config cfg) @ replicate 64 0\<rparr>
      else if k = 94 then \<lparr>lamports = 0, acct_owner = 100,
        acct_data = the (ser_asset_config demo_asset) @ replicate 32 0\<rparr>
      else if k = 20 then \<lparr>lamports = 0, acct_owner = 200, acct_data = demo_token 68 2 50000\<rparr>
      else if k = 36 then \<lparr>lamports = 0, acct_owner = 200, acct_data = demo_token 68 4 9000\<rparr>
      else if k = 52 then \<lparr>lamports = 0, acct_owner = 200, acct_data = demo_token 68 8 0\<rparr>
      else if k = 68 then \<lparr>lamports = 0, acct_owner = 200, acct_data = [6]\<rparr>
      else \<lparr>lamports = 0, acct_owner = 0, acct_data = []\<rparr>)"

definition demo_world :: "config \<Rightarrow> world" where
  "demo_world cfg = \<lparr>accts = demo_accts cfg, logs = []\<rparr>"

definition demo_info :: "pubkey \<Rightarrow> account_info" where
  "demo_info k = \<lparr>ai_key = k, is_signer = False\<rparr>"

definition demo_signer :: "pubkey \<Rightarrow> account_info" where
  "demo_signer k = \<lparr>ai_key = k, is_signer = True\<rparr>"

lemma demo_infos [simp]:
  "ai_key (demo_info k) = k" "\<not> is_signer (demo_info k)"
  "ai_key (demo_signer k) = k" "is_signer (demo_signer k)"
  by (simp_all add: demo_info_def demo_signer_def)

definition demo_sig :: "bytes32 \<Rightarrow> bytes" where
  "demo_sig v = replicate 32 0 @ arr_bytes v @ [27]"

section \<open>Evaluation in the demonstration runtime\<close>

lemma of_be_be32: "of_be (be32 n) = (ucast n :: bytes32)"
  by (simp add: of_be_def be32_def be_bytes_def of_le_pad of_le_bytes_cast take_bit_word_eq_self)

lemma demo_keccak_last: "length x = 32 \<Longrightarrow> demo_keccak (pre @ x) = of_be x"
  by (simp add: demo_keccak_def)

lemma demo_recover: "recover_evm_address demo_env dg (demo_sig v) = Inr (ucast v)"
proof -
  have "take 64 (demo_sig v) = replicate 32 0 @ arr_bytes v" by (simp add: demo_sig_def)
  moreover have "demo_sig v ! 64 = 27" by (simp add: demo_sig_def nth_append)
  moreover have "(of_be (drop 12 (arr_bytes v)) :: address) = ucast v"
  proof -
    have "of_be (drop 12 (arr_bytes v)) = (of_le (le_bytes 20 v) :: address)"
      by (simp add: arr_bytes_def of_be_def be_bytes_def rev_drop take_le_bytes)
    also have "\<dots> = ucast v" unfolding of_le_bytes_cast by (rule bit_word_eqI) (auto simp: bit_simps)
    finally show ?thesis .
  qed
  ultimately show ?thesis
    unfolding recover_evm_address_def
    by (simp add: Let_def hashv_def demo_keccak_last of_be_arr_bytes) (simp add: demo_sig_def)
qed

lemma demo_ser_config: "ser_config demo_config \<noteq> None"
  by (simp add: ser_config_def demo_config_def ser_struct_simps ser_arr_def ser_word_def ser_bool_def ser_vec_def ser_pair_def)

lemma demo_load_config: "ser_config cfg \<noteq> None \<Longrightarrow> load_config demo_env 100 (demo_info 1) (demo_world cfg) = Inr cfg"
  by (auto simp: load_config_Inr demo_world_def demo_accts_def configc.deserialize_padded)

lemmas demo_load = demo_load_config [OF demo_ser_config]

lemma demo_hash_two: "hashv demo_env [p, arr_bytes (x :: bytes32)] = x"
  by (simp add: hashv_def demo_keccak_last of_be_arr_bytes)

lemma demo_digest [simp]: "eth_signed_digest demo_env i = i"
  by (simp add: eth_signed_digest_def demo_hash_two)

lemma demo_cancel_id [simp]: "cancel_id demo_env i = i"
  by (simp add: cancel_id_def demo_hash_two)

lemma demo_sid [simp]:
  "submission_id demo_env dm did bd amt cf ct n r None ns = ucast n"
proof -
  have "hashv demo_env (xs @ [be32 n]) = ucast n" for xs
    by (simp add: hashv_def demo_keccak_last of_be_be32)
  from this [of "[be32 SUBMISSION_PREFIX, arr_bytes dm, arr_bytes did, be32 cf, be32 ct, [bd], amount_word amt, r]"]
  show ?thesis by (simp add: submission_id_def submission_parts_def submission_base_def)
qed

lemma demo_verify:
  "verify_threshold demo_env demo_config i [demo_sig 1, demo_sig 2] = Inr ()"
  by (simp add: verify_threshold_def demo_config_def demo_recover is_validator_def word_le_nat_alt)

lemma demo_create_pda:
  assumes "accts w (ai_key t) = \<lparr>lamports = 0, acct_owner = 0, acct_data = []\<rparr>"
  shows "create_pda_account demo_env pid p t s seeds b n w =
    Inr (w\<lparr>accts := (accts w)(ai_key t :=
      \<lparr>lamports = 0, acct_owner = pid, acct_data = replicate (unat (of_nat n :: u64)) 0\<rparr>)\<rparr>)"
  by (simp add: create_pda_account_def invoke_signed_def assms)

lemma demo_create_marker:
  assumes "accts w (ai_key t) = \<lparr>lamports = 0, acct_owner = 0, acct_data = []\<rparr>"
  shows "create_marker demo_env pid p t s seeds b m w =
    Inr (w\<lparr>accts := (accts w)(ai_key t := \<lparr>lamports = 0, acct_owner = pid, acct_data = [m]\<rparr>)\<rparr>)"
  by (simp add: create_marker_def demo_create_pda [OF assms] MARKER_LEN_def set_data_def)

lemma emit_lifecycle_total: "\<exists>w'. emit_lifecycle tag sid did c n w = Inr w' \<and> accts w' = accts w"
  by (simp add: emit_lifecycle_def ser_lifecycle_event_def ser_struct_simps ser_arr_def ser_word_def)

lemma demo_load_asset:
  "load_asset demo_env 100 5 (demo_info 94) (demo_world cfg) = Inr demo_asset"
proof -
  obtain bs where bs: "ser_asset_config demo_asset = Some bs" "length bs = 98"
    by (simp add: ser_asset_config_def demo_asset_def ser_struct_simps ser_arr_def ser_word_def)
  have "decode_asset_config (bs @ replicate 32 0) = Inr demo_asset"
    unfolding decode_asset_config_def using bs(2)
    by (simp add: assetc.deserialize_padded [OF bs(1)] LEGACY_ASSET_CONFIG_LEN_def)
  moreover have "fst (demo_find [lit ''asset'', arr_bytes (5 :: bytes32)] 100) = 94"
    using demo_pda [of 5 "lit ''asset''"] by (simp add: demo_tag_def)
  ultimately show ?thesis
    by (simp add: load_asset_Inr demo_world_def demo_accts_def bs(1)) (simp add: demo_asset_def)
qed

end
