(* ===== verification/GateFunds.thy ===== *)
theory GateFunds
  imports DemoRuntime
begin

text \<open>
  The fund-moving instructions of the gate program: what a successful claim, cancel,
  send and refund guarantees about quorum, balances, replay markers, records and
  events.
\<close>

section \<open>Balances\<close>

definition balance :: "env \<Rightarrow> world \<Rightarrow> pubkey \<Rightarrow> nat option" where
  "balance E w k = map_option (\<lambda>a. unat (spl_amount a)) (unpack_account E (acct_data (accts w k)))"

text \<open>
  Exactly \<open>n\<close> tokens went from \<open>src\<close> to \<open>dst\<close>, and no other account of the token
  program changed.
\<close>

definition moved :: "env \<Rightarrow> world \<Rightarrow> world \<Rightarrow> pubkey \<Rightarrow> pubkey \<Rightarrow> nat \<Rightarrow> bool" where
  "moved E w w' src dst n \<longleftrightarrow>
     (\<exists>s d. balance E w src = Some s \<and> balance E w dst = Some d \<and> n \<le> s \<and>
        balance E w' src = Some (if src = dst then s else s - n) \<and>
        balance E w' dst = Some (if src = dst then s else d + n)) \<and>
     (\<forall>k. k \<noteq> src \<and> k \<noteq> dst \<and> acct_owner (accts w k) = spl_token_id E \<longrightarrow>
        acct_owner (accts w' k) = spl_token_id E \<and> acct_data (accts w' k) = acct_data (accts w k))"

lemma token_moved_moved:
  assumes "token_moved E src dst n (accts w1) (accts w')"
    and "\<And>k. acct_owner (accts w k) = spl_token_id E \<Longrightarrow>
      acct_owner (accts w1 k) = spl_token_id E \<and> acct_data (accts w1 k) = acct_data (accts w k)"
    and "acct_owner (accts w src) = spl_token_id E" "acct_owner (accts w dst) = spl_token_id E"
  shows "moved E w w' src dst (unat n)"
proof -
  from assms(1) obtain s d s' d' where
    u: "unpack_account E (acct_data (accts w1 src)) = Some s" "unpack_account E (acct_data (accts w1 dst)) = Some d"
      "unpack_account E (acct_data (accts w' src)) = Some s'" "unpack_account E (acct_data (accts w' dst)) = Some d'"
      "unat n \<le> unat (spl_amount s)"
      "if src = dst then spl_amount s' = spl_amount s
       else unat (spl_amount s') = unat (spl_amount s) - unat n \<and>
            unat (spl_amount d') = unat (spl_amount d) + unat n"
    and rest: "\<forall>k. k \<noteq> src \<and> k \<noteq> dst \<longrightarrow> accts w' k = accts w1 k"
    unfolding token_moved_def by blast
  have b: "balance E w src = Some (unat (spl_amount s))" "balance E w dst = Some (unat (spl_amount d))"
    "balance E w' src = Some (unat (spl_amount s'))" "balance E w' dst = Some (unat (spl_amount d'))"
    using u assms(2-4) by (simp_all add: balance_def)
  moreover have "spl_amount d' = spl_amount s'" if "src = dst" using u that by simp
  ultimately show ?thesis
    using u(5,6) rest assms(2) unfolding moved_def by (cases "src = dst") auto
qed

lemma moved_same_accts: "accts w'' = accts w' \<Longrightarrow> moved E w w'' s d n \<longleftrightarrow> moved E w w' s d n"
  by (simp add: moved_def balance_def)

lemma token_accounts_kept:
  assumes "create_pda_account E pid payer target sys seeds bump space w = Inr w'" "runtime_ok E pid"
    and "acct_owner (accts w k) = spl_token_id E"
  shows "acct_owner (accts w' k) = spl_token_id E \<and> acct_data (accts w' k) = acct_data (accts w k)"
proof -
  have r: "system_rule E pid" "spl_token_id E \<noteq> system_program_id E"
    using assms(2) by (auto simp: runtime_ok_def token_rule_def)
  note e = create_pda_account_effect [OF assms(1) r(1)]
  have "k \<noteq> ai_key target" using e(2) assms(3) r(2) by auto
  then show ?thesis using e(5) assms(3) by simp
qed

lemma token_accounts_set_data:
  assumes "owner_of w ai = pid" "runtime_ok E pid" "acct_owner (accts w k) = spl_token_id E"
  shows "accts (set_data ai d w) k = accts w k"
proof -
  have "pid \<noteq> spl_token_id E" using assms(2) by (auto simp: runtime_ok_def token_rule_def)
  then have "k \<noteq> ai_key ai" using assms(1,3) by auto
  then show ?thesis by simp
qed

lemma token_accounts_marker:
  assumes "create_marker E pid payer marker sys seeds bump st w = Inr w'" "runtime_ok E pid"
    and "acct_owner (accts w k) = spl_token_id E"
  shows "acct_owner (accts w' k) = spl_token_id E \<and> acct_data (accts w' k) = acct_data (accts w k)"
proof -
  obtain w1 where c: "create_pda_account E pid payer marker sys seeds bump MARKER_LEN w = Inr w1"
    and "(case data_of w1 marker of [] \<Rightarrow> Inl Panicked
              | _ # rest \<Rightarrow> Inr (set_data marker (st # rest) w1)) = Inr w'"
    using assms(1) by (auto simp: create_marker_def res_simps)
  then obtain d where w': "w' = set_data marker d w1" by (auto split: list.splits)
  have "owner_of w1 marker = pid" using store_create_pda(2) [OF c assms(2)] .
  then show ?thesis
    using token_accounts_kept [OF c assms(2,3)] token_accounts_set_data [OF _ assms(2)] w' by simp
qed

section \<open>Claims\<close>

lemma to_local_value:
  assumes "to_local a wire = Inr n"
  shows "unat n = unat wire * 10 ^ (unat (as_local_decimals a) - unat (as_bridge_decimals a))"
proof -
  obtain u where u: "bridge_unit (as_local_decimals a) (as_bridge_decimals a) = Some u"
    and n: "checked_mul wire u = Some n"
    using assms by (auto simp: to_local_def asset_unit_def res_simps)
  show ?thesis using checked_mul_Some [OF n] bridge_unit_Some(2) [OF u] by simp
qed

lemma load_config_quorum:
  assumes "load_config E pid ai w = Inr cfg" "verify_threshold E cfg i sigs = Inr ()"
  shows "quorum E cfg i sigs"
  using verify_threshold_quorum load_config_lengths [OF assms(1)] assms(2) by blast

lemma arr_bytes_of_be: "length bs = 32 \<Longrightarrow> arr_bytes (of_be bs :: bytes32) = bs"
  using le_bytes_of_le [of "rev bs", where 'a = 256]
  by (simp add: arr_bytes_def be_bytes_def of_be_def)

text \<open>
  C1. A successful claim was signed by a quorum of distinct validators for exactly
  this transfer, on a sealed and unpaused gate; it pays, from the vault registered
  for the asset to the token account the transfer names as receiver, exactly the
  signed amount scaled from bridge to local decimals, touches no other token
  account, and marks the submission as executed, which was unmarked before.
\<close>

theorem claim_guarantee:
  assumes "runtime_ok E pid"
    and "process_claim E pid (config_ai # asset_ai # executed_ai # payer # vault # receiver_token #
      vault_authority # token_program # sys # rest) args w = Inr w'"
  shows "\<exists>cfg asset n. gate_config E pid w = Some cfg \<and> \<not> paused cfg \<and> sealed cfg \<and>
    load_asset E pid (ca_debridge_id args) asset_ai w = Inr asset \<and>
    quorum E cfg (claim_sid E cfg args) (ca_signatures args) \<and>
    ca_receiver args = arr_bytes (ai_key receiver_token) \<and> ai_key vault = as_vault asset \<and>
    ca_bridge_decimals args = as_bridge_decimals asset \<and>
    n = unat (ca_amount args) * 10 ^ (unat (as_local_decimals asset) - unat (as_bridge_decimals asset)) \<and>
    moved E w w' (ai_key vault) (ai_key receiver_token) n \<and>
    store pid w (pda E pid [lit ''executed'', arr_bytes (claim_sid E cfg args)]) = None \<and>
    store pid w' = (store pid w)
      (pda E pid [lit ''executed'', arr_bytes (claim_sid E cfg args)] \<mapsto> [MARKER_CLAIMED])"
proof -
  from process_claim_success [OF assms(2)] obtain cfg asset local_amount w1 bump tp au infos seeds where
    a: "load_config E pid config_ai w = Inr cfg" "\<not> paused cfg" "sealed cfg"
      "load_asset E pid (ca_debridge_id args) asset_ai w = Inr asset"
      "length (ca_receiver args) = 32" "ai_key receiver_token = of_be (ca_receiver args)"
      "ai_key vault = as_vault asset" "owner_of w vault = spl_token_id E"
      "owner_of w receiver_token = spl_token_id E"
      "ca_bridge_decimals args = as_bridge_decimals asset"
      "verify_threshold E cfg (claim_sid E cfg args) (ca_signatures args) = Inr ()"
      "to_local asset (ca_amount args) = Inr local_amount"
    and m: "create_marker E pid payer executed_ai sys
        [lit ''executed'', arr_bytes (claim_sid E cfg args)] bump MARKER_CLAIMED w = Inr w1"
    and i: "invoke_signed E pid (SplTransfer tp (ai_key vault) (ai_key receiver_token) au local_amount)
        infos seeds w1 = Inr w'"
    by (elim exE conjE) (rule that)
  from assms(2,1) obtain cfg' where c: "load_config E pid config_ai w = Inr cfg'"
    and st: "store pid w (pda E pid [lit ''executed'', arr_bytes (claim_sid E cfg' args)]) = None"
      "store pid w' = (store pid w)
       (pda E pid [lit ''executed'', arr_bytes (claim_sid E cfg' args)] \<mapsto> [MARKER_CLAIMED])"
    by (rule store_claim)
  have [simp]: "cfg' = cfg" using a(1) c by simp
  have "token_rule E pid" using assms(1) by (simp add: runtime_ok_def)
  then have "moved E w w' (ai_key vault) (ai_key receiver_token) (unat local_amount)"
    using token_moved_moved [OF invoke_signed_spl [OF _ i] token_accounts_marker [OF m assms(1)] a(8,9)]
    by blast
  then show ?thesis
    using a gate_config_load [OF a(1)] load_config_quorum [OF a(1,11)] to_local_value [OF a(12)] st
      arr_bytes_of_be [OF a(5)] by auto
qed

section \<open>Demonstration of a claim\<close>

definition demo_claim :: claim_args where
  "demo_claim = \<lparr>ca_debridge_id = 5, ca_amount = 10, ca_bridge_decimals = 3, ca_chain_id_from = 9,
     ca_nonce = 5, ca_receiver = arr_bytes (52 :: pubkey), ca_auto = None, ca_native_sender = [],
     ca_signatures = [demo_sig 1, demo_sig 2]\<rparr>"

lemma demo_pda_executed: "demo_find [lit ''executed'', arr_bytes (5 :: bytes32)] 100 = (90, 255)"
  using demo_pda [of 5 "lit ''executed''"] by (simp add: demo_tag_def)

lemma demo_to_local: "to_local demo_asset 10 = Inr 10000"
  by (simp add: to_local_def asset_unit_def bridge_unit_def demo_asset_def checked_sub_def
      checked_pow_def checked_mul_def)

lemma demo_world_at:
  "accts (demo_world cfg) 90 = \<lparr>lamports = 0, acct_owner = 0, acct_data = []\<rparr>"
  "accts (demo_world cfg) 20 = \<lparr>lamports = 0, acct_owner = 200, acct_data = demo_token 68 2 50000\<rparr>"
  "accts (demo_world cfg) 36 = \<lparr>lamports = 0, acct_owner = 200, acct_data = demo_token 68 4 9000\<rparr>"
  "accts (demo_world cfg) 52 = \<lparr>lamports = 0, acct_owner = 200, acct_data = demo_token 68 8 0\<rparr>"
  by (simp_all add: demo_world_def demo_accts_def)

lemma demo_claim_runs:
  "\<exists>w'. process_claim demo_env 100 [demo_info 1, demo_info 94, demo_info 90, demo_signer 4, demo_info 20,
     demo_info 52, demo_info 2, demo_info 200, demo_info 0] demo_claim (demo_world demo_config) = Inr w'"
proof -
  have s: "claim_sid demo_env demo_config demo_claim = 5" by (simp add: claim_sid_def demo_claim_def)
  have v: "verify_threshold demo_env demo_config 5 (ca_signatures demo_claim) = Inr ()"
    using demo_verify by (simp add: demo_claim_def)
  have l: "load_asset demo_env 100 (ca_debridge_id demo_claim) (demo_info 94) (demo_world demo_config) = Inr demo_asset"
    using demo_load_asset by (simp add: demo_claim_def)
  have t: "to_local demo_asset (ca_amount demo_claim) = Inr 10000"
    using demo_to_local by (simp add: demo_claim_def)
  have c: "\<not> paused demo_config" "sealed demo_config" by (simp_all add: demo_config_def)
  have r: "length (ca_receiver demo_claim) = 32" "of_be (ca_receiver demo_claim) = (52 :: pubkey)"
    "ca_bridge_decimals demo_claim = 3" by (simp_all add: demo_claim_def of_be_arr_bytes)
  have a: "as_vault demo_asset = 20" "as_mint demo_asset = 68" "as_bridge_decimals demo_asset = 3"
    by (simp_all add: demo_asset_def)
  show ?thesis
    unfolding process_claim_iff
    by (simp add: demo_load s v l t c r a demo_pda_executed demo_world_at is_already_executed_def
        demo_create_marker invoke_signed_def demo_transfer_def checked_add_def)
qed

theorem claim_guarantee_witness:
  "\<exists>w'. process_claim demo_env 100 [demo_info 1, demo_info 94, demo_info 90, demo_signer 4, demo_info 20,
     demo_info 52, demo_info 2, demo_info 200, demo_info 0] demo_claim (demo_world demo_config) = Inr w' \<and>
     (\<exists>n. moved demo_env (demo_world demo_config) w' 20 52 n)"
proof -
  obtain w' where c: "process_claim demo_env 100 [demo_info 1, demo_info 94, demo_info 90, demo_signer 4,
     demo_info 20, demo_info 52, demo_info 2, demo_info 200, demo_info 0] demo_claim
     (demo_world demo_config) = Inr w'" using demo_claim_runs by blast
  have "runtime_ok demo_env 100" by (rule demo_runtime_ok) simp_all
  from claim_guarantee [OF this c] c show ?thesis by auto
qed

end
