(* ===== verification/GateSize.thy ===== *)
theory GateSize
  imports GateConfig
begin

text \<open>
  The size of the configuration account. \<open>config_space\<close> is the exact size of a
  serialized configuration, so an account allocated for the capacities chosen at
  initialization holds every configuration that keeps the invariant.
\<close>

lemma ser_config_total:
  assumes "length (validators cfg) < 2 ^ 32" "length (nonce_to cfg) < 2 ^ 32"
  obtains bs where "ser_config cfg = Some bs"
proof -
  obtain v where "ser_vec ser_arr (validators cfg) = Some v"
    using ser_vec_total [of ser_arr "validators cfg"] assms(1) by (auto simp: ser_arr_def)
  moreover obtain n where "ser_vec (ser_pair ser_word ser_word) (nonce_to cfg) = Some n"
    using ser_vec_total [of "ser_pair ser_word ser_word" "nonce_to cfg"] assms(2)
    by (auto simp: ser_pair_def ser_word_def)
  ultimately show ?thesis
    using that by (simp add: ser_config_def ser_arr_def ser_word_def ser_bool_def)
qed

lemma length_ser_pair_words:
  "ser_pair ser_word ser_word (p :: u64 \<times> u64) = Some b \<Longrightarrow> length b = 16"
  by (auto simp: ser_pair_def ser_word_def)

lemma length_ser_config:
  assumes "ser_config cfg = Some bs"
  shows "length bs = config_space (of_nat (length (validators cfg))) (of_nat (length (nonce_to cfg)))"
proof -
  obtain v n where v: "ser_vec ser_arr (validators cfg) = Some v"
    and n: "ser_vec (ser_pair ser_word ser_word) (nonce_to cfg) = Some n"
    and l: "length bs = 96 + length v + 4 + 8 + 1 + 8 + length n + 1 + 8"
    using assms
    by (auto simp: ser_config_def ser_arr_def ser_word_def ser_bool_def split: bind_splits)
  have "length v = 4 + 20 * length (validators cfg)"
    using v by (rule length_ser_vec_const [rotated]) (auto simp: ser_arr_def)
  moreover have "length n = 4 + 16 * length (nonce_to cfg)"
    using n by (rule length_ser_vec_const [rotated]) (rule length_ser_pair_words)
  moreover have "unat (of_nat (length (validators cfg)) :: u32) = length (validators cfg)"
    "unat (of_nat (length (nonce_to cfg)) :: u32) = length (nonce_to cfg)"
    using v n by (simp_all add: ser_vec_def unsigned_of_nat take_bit_eq_mod split: if_splits)
  ultimately show ?thesis using l by (simp add: config_space_def)
qed

lemma config_space_mono:
  "unat a \<le> unat b \<Longrightarrow> unat c \<le> unat d \<Longrightarrow> config_space a c \<le> config_space b d"
  by (simp add: config_space_def)

lemma config_store_room:
  assumes "config_inv cfg"
    and "config_space (max_validators cfg) (max_corridors cfg) \<le> length (data_of w ai)"
  shows "\<exists>w'. config_store cfg ai w = Inr w'"
proof -
  have l: "length (validators cfg) \<le> unat (max_validators cfg)"
    "length (nonce_to cfg) \<le> unat (max_corridors cfg)"
    using assms(1) by (auto simp: config_inv_def)
  then have s: "length (validators cfg) < 2 ^ 32" "length (nonce_to cfg) < 2 ^ 32"
    using unsigned_less [of "max_validators cfg", where 'a = nat]
      unsigned_less [of "max_corridors cfg", where 'a = nat] by simp_all
  then obtain bs where bs: "ser_config cfg = Some bs" by (rule ser_config_total)
  have "config_space (of_nat (length (validators cfg))) (of_nat (length (nonce_to cfg))) \<le>
      config_space (max_validators cfg) (max_corridors cfg)"
    using l s by (intro config_space_mono) (simp_all add: unsigned_of_nat take_bit_eq_mod)
  then show ?thesis
    using assms(2) length_ser_config [OF bs]
    by (simp add: config_store_def write_zero_padded_def bs)
qed

text \<open>
  A configuration that keeps the invariant never outgrows its account: with the
  space the initialization allocates for its capacities, storing it succeeds.
\<close>

theorem config_store_fits:
  assumes "config_inv cfg"
    and "config_space (max_validators cfg) (max_corridors cfg) \<le> length (data_of w ai)"
  shows "\<exists>w'. config_store cfg ai w = Inr w'"
  using assms by (rule config_store_room)

theorem config_store_fits_witness:
  "config_inv (init_config 4 \<lparr>ia_bridge_domain = 1, ia_validators = [1, 2], ia_threshold = 2,
      ia_chain_id = 7, ia_max_validators = 2, ia_max_corridors = 1, ia_guardian = 0\<rparr> 0) \<and>
   (\<exists>w'. config_store (init_config 4 \<lparr>ia_bridge_domain = 1, ia_validators = [1, 2], ia_threshold = 2,
      ia_chain_id = 7, ia_max_validators = 2, ia_max_corridors = 1, ia_guardian = 0\<rparr> 0)
      \<lparr>ai_key = 1, is_signer = False\<rparr>
      \<lparr>accts = (\<lambda>k. \<lparr>lamports = 0, acct_owner = 100, acct_data = replicate 200 0\<rparr>), logs = []\<rparr> = Inr w')"
  (is "config_inv ?c \<and> (\<exists>w'. config_store ?c ?ai ?w = Inr w')")
proof -
  have i: "config_inv ?c" by (simp add: config_inv_def init_config_def MAX_THRESHOLD_def)
  have "config_space (max_validators ?c) (max_corridors ?c) \<le> length (data_of ?w ?ai)"
    by (simp add: config_space_def init_config_def)
  from i config_store_fits [OF i this] show ?thesis by blast
qed

end
