(* ===== verification/GateSends.thy ===== *)
theory GateSends
  imports GateFunds GateSize
begin

text \<open>
  Sends and refunds. A send locks the user's tokens in the vault, consumes one nonce
  of the corridor, stores what a refund will need, and publishes an event from which
  the submission id can be recomputed. A refund returns what the record says.
\<close>

section \<open>Sends\<close>

lemma to_wire_value:
  assumes "to_wire a n = Inr wire"
  shows "unat n = unat wire * 10 ^ (unat (as_local_decimals a) - unat (as_bridge_decimals a))"
proof -
  obtain u where u: "bridge_unit (as_local_decimals a) (as_bridge_decimals a) = Some u"
    and n: "n mod u = 0" "n div u = wire"
    using assms unfolding to_wire_def asset_unit_def bind_res_eq_Inr ok_or_eq_Inr if_Inl_eq_Inr not_not
      sum.inject by (elim exE conjE) (rule that)
  have "unat n mod unat u = 0" using n(1) by (metis unat_mod unsigned_0)
  then have "unat n = unat n div unat u * unat u" by (simp add: mod_eq_0_iff_dvd)
  then show ?thesis using bridge_unit_Some(2) [OF u] n(2) [symmetric] by (simp add: unat_div)
qed

lemma token_accounts_config_store:
  assumes "config_store cfg ai w = Inr w'" "owner_of w ai = pid" "runtime_ok E pid"
    and "acct_owner (accts w k) = spl_token_id E"
  shows "accts w' k = accts w k"
proof -
  obtain d where "w' = set_data ai d w" using assms(1) by (rule config_store_Inr) auto
  then show ?thesis using token_accounts_set_data [OF assms(2-4)] by simp
qed

lemma token_accounts_sent:
  assumes "create_sent_record E pid payer sent sys sid bump r w = Inr w'" "runtime_ok E pid"
    and "acct_owner (accts w k) = spl_token_id E"
  shows "acct_owner (accts w' k) = spl_token_id E \<and> acct_data (accts w' k) = acct_data (accts w k)"
proof -
  obtain w1 where c: "create_pda_account E pid payer sent sys [lit ''sent'', arr_bytes sid] bump
      SENT_RECORD_LEN w = Inr w1" and p: "write_prefix (ser_sent_record r) sent w1 = Inr w'"
    using assms(1) by (auto simp: create_sent_record_def res_simps)
  obtain d where "w' = set_data sent d w1" using p by (auto simp: write_prefix_Inr)
  moreover note store_create_pda(2) [OF c assms(2)]
  ultimately show ?thesis
    using token_accounts_kept [OF c assms(2,3)] token_accounts_set_data [OF _ assms(2)] by simp
qed

definition event_sid :: "env \<Rightarrow> bytes32 \<Rightarrow> sent_event \<Rightarrow> bytes32" where
  "event_sid E domain ev =
     submission_id E domain (ev_debridge_id ev) (ev_bridge_decimals ev) (ev_amount ev)
       (ev_chain_id_from ev) (ev_chain_id_to ev) (ev_nonce ev) (ev_receiver ev) (ev_auto ev)
       (ev_native_sender ev)"

text \<open>
  C6. A successful send, on a sealed and unpaused gate with the corridor registered,
  moves exactly the local amount from the user's account to the registered vault,
  increases the corridor's nonce by one, stores the record from which a refund is
  paid, and logs one event: its amount is the local amount divided exactly by the
  unit, its nonce the one consumed, and its id is the hash of its own fields.
\<close>

theorem send_guarantee:
  assumes "runtime_ok E pid"
    and "process_send E pid (config_ai # asset_ai # payer # user_token # vault # token_program #
      sent_ai # sys # rest) args w = Inr w'"
  shows "\<exists>cfg cfg' asset ev d r.
    gate_config E pid w = Some cfg \<and> \<not> paused cfg \<and> sealed cfg \<and>
    corridor_registered cfg (sa_chain_id_to args) \<and>
    load_asset E pid (sa_debridge_id args) asset_ai w = Inr asset \<and> ai_key vault = as_vault asset \<and>
    moved E w w' (ai_key user_token) (ai_key vault) (unat (sa_amount args)) \<and>
    gate_config E pid w' = Some cfg' \<and>
    unat (nonce_of cfg' (sa_chain_id_to args)) = unat (nonce_of cfg (sa_chain_id_to args)) + 1 \<and>
    store pid w (pda E pid [lit ''sent'', arr_bytes (ev_submission_id ev)]) = None \<and>
    store pid w' (pda E pid [lit ''sent'', arr_bytes (ev_submission_id ev)]) = Some d \<and>
    decode_sent_record d = Inr r \<and> sr_amount r = sa_amount args \<and>
    sr_source_token r = ai_key user_token \<and> sr_debridge_id r = sa_debridge_id args \<and>
    (\<exists>b. ser_sent_event ev = Some b \<and> logs w' = logs w @ [[SENT_EVENT_TAG, b]]) \<and>
    ev_submission_id ev = event_sid E (bridge_domain cfg) ev \<and>
    ev_nonce ev = nonce_of cfg (sa_chain_id_to args) \<and> ev_chain_id_from ev = chain_id cfg \<and>
    unat (sa_amount args) =
      unat (ev_amount ev) * 10 ^ (unat (as_local_decimals asset) - unat (as_bridge_decimals asset))"
proof -
  from process_send_success [OF assms(2)]
  obtain cfg asset wire cfg' w1 now w2 w3 bump sid tp au infos where
    a: "load_config E pid config_ai w = Inr cfg" "\<not> paused cfg" "sealed cfg"
      "corridor_registered cfg (sa_chain_id_to args)"
      "load_asset E pid (sa_debridge_id args) asset_ai w = Inr asset" "ai_key vault = as_vault asset"
      "owner_of w vault = spl_token_id E" "owner_of w user_token = spl_token_id E"
      "to_wire asset (sa_amount args) = Inr wire"
      "bump_nonce cfg (sa_chain_id_to args) = Inr cfg'"
    and s: "config_store cfg' config_ai w = Inr w1"
    and k: "ai_key sent_ai = pda E pid [lit ''sent'', arr_bytes sid]"
    and sid: "sid = submission_id E (bridge_domain cfg) (sa_debridge_id args) (as_bridge_decimals asset) wire
        (chain_id cfg) (sa_chain_id_to args) (nonce_of cfg (sa_chain_id_to args))
        (sa_receiver args) (sa_auto args) (arr_bytes (ai_key payer))"
    and r: "create_sent_record E pid payer sent_ai sys sid bump
        \<lparr>sr_debridge_id = sa_debridge_id args, sr_sender = ai_key payer,
         sr_source_token = ai_key user_token, sr_mint = as_mint asset,
         sr_amount = sa_amount args, sr_locked_at = now\<rparr> w1 = Inr w2" (is "create_sent_record _ _ _ _ _ _ _ ?r _ = _")
    and e: "emit_sent sid args wire (as_bridge_decimals asset) (chain_id cfg')
        (nonce_of cfg (sa_chain_id_to args)) (arr_bytes (ai_key payer)) (as_mint asset) w2 = Inr w3"
    and i: "invoke E pid (SplTransfer tp (ai_key user_token) (ai_key vault) au (sa_amount args)) infos w3 = Inr w'"
    by (elim exE conjE) (rule that)
  have ck: "ai_key config_ai = pda E pid [lit ''config'']" and o: "owner_of w config_ai = pid"
    using a(1) by (auto simp: load_config_Inr)
  have ch: "chain_id cfg' = chain_id cfg" using config_le_bump [OF a(10)] by (simp add: config_le_def)
  let ?ev = "\<lparr>ev_version = SENT_EVENT_VERSION, ev_submission_id = sid,
                 ev_debridge_id = sa_debridge_id args, ev_mint = as_mint asset, ev_amount = wire,
                 ev_bridge_decimals = as_bridge_decimals asset, ev_chain_id_from = chain_id cfg',
                 ev_chain_id_to = sa_chain_id_to args, ev_nonce = nonce_of cfg (sa_chain_id_to args),
                 ev_receiver = sa_receiver args, ev_native_sender = arr_bytes (ai_key payer),
                 ev_auto = sa_auto args\<rparr>"
  from s o obtain dc where dc: "store pid w1 = (store pid w)(ai_key config_ai \<mapsto> dc)"
    "deserialize de_config dc = Some cfg'" by (rule store_config_store)
  note sr = store_create_sent [OF r assms(1)]
  obtain ds where ds: "store pid w2 = (store pid w1)(ai_key sent_ai \<mapsto> ds)" "decode_sent_record ds = Inr ?r"
    using sr(2) by blast
  have "pda E pid [lit ''sent'', arr_bytes sid] \<noteq> pda E pid [lit ''config'']"
    using sr(1) dc(1) k ck by (metis fun_upd_same option.simps(3))
  then have 1: "store pid w (pda E pid [lit ''sent'', arr_bytes sid]) = None"
    using sr(1) dc(1) k ck by simp
  obtain b where b: "ser_sent_event ?ev = Some b" "w3 = sol_log_data [SENT_EVENT_TAG, b] w2"
    using e by (auto simp: emit_sent_def res_simps)
  have "store pid w' = store pid w2"
    using store_spl_transfer [OF assms(1) i [unfolded invoke_def]] store_same_accts [OF emit_sent_Inr [OF e]]
    by simp
  then have st: "store pid w' (pda E pid [lit ''sent'', arr_bytes sid]) = Some ds"
    "gate_config E pid w' = Some cfg'"
    using ds(1) dc k ck \<open>pda E pid [lit ''sent'', arr_bytes sid] \<noteq> _\<close>
    by (simp_all add: gate_config_def)
  have "logs w1 = logs w" using s by (rule config_store_Inr) simp
  moreover have "logs w2 = logs w1"
    using create_sent_record_effect(5) [OF r] assms(1) by (simp add: runtime_ok_def)
  moreover have "logs w' = logs w3" using invoke_signed_logs [OF i [unfolded invoke_def]] .
  ultimately have lg: "logs w' = logs w @ [[SENT_EVENT_TAG, b]]" using b(2) by simp
  have "token_rule E pid" using assms(1) by (simp add: runtime_ok_def)
  from invoke_signed_spl [OF this i [unfolded invoke_def]]
  have "moved E w w' (ai_key user_token) (ai_key vault) (unat (sa_amount args))"
  proof (rule token_moved_moved)
    fix j assume j: "acct_owner (accts w j) = spl_token_id E"
    have "accts w1 j = accts w j" using token_accounts_config_store [OF s o assms(1) j] .
    then show "acct_owner (accts w3 j) = spl_token_id E \<and> acct_data (accts w3 j) = acct_data (accts w j)"
      using token_accounts_sent [OF r assms(1), of j] j emit_sent_Inr [OF e] by simp
  qed (use a in simp_all)
  with a gate_config_load [OF a(1)] st 1 ds(2) b(1) lg to_wire_value [OF a(9)]
    bump_nonce_same [OF a(10)] sid ch
  show ?thesis
    by (intro exI [of _ cfg] exI [of _ cfg'] exI [of _ asset] exI [of _ ?ev] exI [of _ ds] exI [of _ ?r])
      (simp add: event_sid_def)
qed

section \<open>Demonstration of a send\<close>

definition demo_send :: send_args where
  "demo_send = \<lparr>sa_debridge_id = 5, sa_amount = 2000, sa_chain_id_to = 9, sa_receiver = replicate 20 1,
     sa_auto = None\<rparr>"

lemma demo_pda_sent: "demo_find [lit ''sent'', arr_bytes (0 :: bytes32)] 100 = (12, 255)"
  using demo_pda [of 0 "lit ''sent''"] by (simp add: demo_tag_def)

lemma demo_sent_record:
  "ser_sent_record r = Some bs \<Longrightarrow> length bs = SENT_RECORD_LEN"
  by (auto simp: ser_sent_record_def ser_struct_simps SENT_RECORD_LEN_def simp del: ser_seq.simps(2))

lemma demo_create_sent:
  assumes "accts w (ai_key t) = \<lparr>lamports = 0, acct_owner = 0, acct_data = []\<rparr>" "pid \<noteq> 0"
  shows "\<exists>bs. create_sent_record demo_env pid p t s sid b r w =
    Inr (w\<lparr>accts := (accts w)(ai_key t := \<lparr>lamports = 0, acct_owner = pid, acct_data = bs\<rparr>)\<rparr>)"
proof -
  obtain bs where bs: "ser_sent_record r = Some bs"
    by (auto simp: ser_sent_record_def ser_struct_simps ser_arr_def ser_word_def)
  have "length bs = SENT_RECORD_LEN" using demo_sent_record [OF bs] .
  then show ?thesis
    using assms by (intro exI [of _ bs]) (simp add: create_sent_record_def is_already_executed_def
        demo_create_pda write_prefix_def bs SENT_RECORD_LEN_def set_data_def)
qed

lemma demo_bump: "\<exists>cfg'. bump_nonce demo_config 9 = Inr cfg' \<and> config_inv cfg' \<and>
    max_validators cfg' = 4 \<and> max_corridors cfg' = 2"
  by (simp add: bump_nonce_def demo_config_def checked_add_def config_inv_def MAX_THRESHOLD_def)

lemma demo_config_store:
  assumes "config_inv cfg'" "max_validators cfg' = 4" "max_corridors cfg' = 2"
  shows "\<exists>d. config_store cfg' (demo_info 1) (demo_world demo_config) =
    Inr (set_data (demo_info 1) d (demo_world demo_config))"
proof -
  obtain bs where bs: "ser_config demo_config = Some bs" using demo_ser_config by auto
  have "length bs = config_space 3 1" using length_ser_config [OF bs] by (simp add: demo_config_def)
  then have "config_space 4 2 \<le> length (data_of (demo_world demo_config) (demo_info 1))"
    by (simp add: demo_world_def demo_accts_def bs config_space_def)
  then obtain w' where "config_store cfg' (demo_info 1) (demo_world demo_config) = Inr w'"
    using config_store_room assms by metis
  then show ?thesis by (metis config_store_Inr)
qed

lemma ser_bytes_total: "length bs < 2 ^ 32 \<Longrightarrow> \<exists>b. ser_bytes bs = Some b"
  unfolding ser_bytes_def by (rule ser_vec_total) (simp_all add: ser_word_def)

lemma emit_sent_total:
  assumes "sa_auto args = None" "length (sa_receiver args) < 2 ^ 32" "length ns < 2 ^ 32"
  shows "\<exists>b. emit_sent sid args wire bd cf nonce ns mint w = Inr (sol_log_data [SENT_EVENT_TAG, b] w)"
  using assms ser_bytes_total [of "sa_receiver args"] ser_bytes_total [of ns]
  by (auto simp: emit_sent_def ser_sent_event_def ser_arr_def ser_word_def)

lemma clock_irrelevant:
  "load_config (E\<lparr>clock_get := c\<rparr>) = load_config E" "load_asset (E\<lparr>clock_get := c\<rparr>) = load_asset E"
  "create_sent_record (E\<lparr>clock_get := c\<rparr>) = create_sent_record E" "invoke (E\<lparr>clock_get := c\<rparr>) = invoke E"
  "submission_id (E\<lparr>clock_get := c\<rparr>) = submission_id E"
  by (simp_all add: fun_eq_iff load_config_def verify_config_account_def load_asset_def verify_asset_account_def
      create_sent_record_def create_pda_account_def invoke_def invoke_signed_def submission_id_def
      submission_parts_def auto_tail_def hashv_def cong: option.case_cong if_cong)

text \<open>The send of the demonstration, at any time.\<close>

lemma demo_send_runs_at:
  "\<exists>w'. process_send (demo_env\<lparr>clock_get := Inr t\<rparr>) 100 [demo_info 1, demo_info 94, demo_signer 4, demo_info 36, demo_info 20,
     demo_info 200, demo_info 12, demo_info 0] demo_send (demo_world demo_config) = Inr w'"
proof -
  have a: "as_vault demo_asset = 20" "as_mint demo_asset = 68" "as_bridge_decimals demo_asset = 3"
    by (simp_all add: demo_asset_def)
  have c: "\<not> paused demo_config" "sealed demo_config" "nonce_of demo_config 9 = 0"
    "corridor_registered demo_config 9"
    by (simp_all add: demo_config_def nonce_of_def corridor_registered_def)
  have s: "sa_amount demo_send = 2000" "sa_chain_id_to demo_send = 9" "sa_debridge_id demo_send = 5"
    "sa_auto demo_send = None" "receiver_width_ok (sa_receiver demo_send)"
    by (simp_all add: demo_send_def receiver_width_ok_def)
  have wire: "to_wire demo_asset 2000 = Inr 2"
    by (simp add: to_wire_def asset_unit_def bridge_unit_def demo_asset_def checked_sub_def checked_pow_def)
  obtain cfg' where b: "bump_nonce demo_config 9 = Inr cfg'" and i: "config_inv cfg'"
    "max_validators cfg' = 4" "max_corridors cfg' = 2" using demo_bump by blast
  obtain d where d: "config_store cfg' (demo_info 1) (demo_world demo_config) =
    Inr (set_data (demo_info 1) d (demo_world demo_config))" using demo_config_store [OF i] by blast
  define w1 where "w1 = set_data (demo_info 1) d (demo_world demo_config)"
  have w1: "accts w1 12 = \<lparr>lamports = 0, acct_owner = 0, acct_data = []\<rparr>"
    "accts w1 36 = \<lparr>lamports = 0, acct_owner = 200, acct_data = demo_token 68 4 9000\<rparr>"
    "accts w1 20 = \<lparr>lamports = 0, acct_owner = 200, acct_data = demo_token 68 2 50000\<rparr>"
    by (simp_all add: w1_def set_data_def demo_world_def demo_accts_def)
  obtain bs where r: "create_sent_record demo_env 100 (demo_signer 4) (demo_info 12) (demo_info 0) 0 255
      \<lparr>sr_debridge_id = 5, sr_sender = 4, sr_source_token = 36, sr_mint = 68, sr_amount = 2000,
       sr_locked_at = t\<rparr> w1 = Inr (w1\<lparr>accts := (accts w1)(12 := \<lparr>lamports = 0, acct_owner = 100, acct_data = bs\<rparr>)\<rparr>)"
    using demo_create_sent [of w1 "demo_info 12" 100 "demo_signer 4" "demo_info 0" 0 255] w1(1)
    by (simp del: fun_upd_apply) blast
  define w2 where "w2 = w1\<lparr>accts := (accts w1)(12 := \<lparr>lamports = 0, acct_owner = 100, acct_data = bs\<rparr>)\<rparr>"
  obtain b where e: "emit_sent 0 demo_send 2 3 (chain_id cfg') 0 (arr_bytes (4 :: pubkey)) 68 w2 =
      Inr (sol_log_data [SENT_EVENT_TAG, b] w2)"
    using emit_sent_total [of demo_send "arr_bytes (4 :: pubkey)" 0 2 3 "chain_id cfg'" 0 68 w2] s(4)
    by (auto simp: demo_send_def)
  have inv: "\<exists>w'. invoke demo_env 100 (SplTransfer 200 36 20 4 2000) [demo_info 36, demo_info 20, demo_signer 4, demo_info 200]
      (sol_log_data [SENT_EVENT_TAG, b] w2) = Inr w'"
    by (simp add: invoke_def invoke_signed_def w2_def w1 demo_transfer_def checked_add_def)
  show ?thesis
    unfolding process_send_iff
    using inv
    by (simp add: clock_irrelevant demo_load demo_load_asset s c a wire b d demo_world_at demo_pda_sent
        w1_def [symmetric] r w2_def [symmetric] e)
qed

lemma demo_send_runs:
  "\<exists>w'. process_send demo_env 100 [demo_info 1, demo_info 94, demo_signer 4, demo_info 36, demo_info 20,
     demo_info 200, demo_info 12, demo_info 0] demo_send (demo_world demo_config) = Inr w'"
proof -
  have e: "demo_env\<lparr>clock_get := Inr 0\<rparr> = demo_env" by (simp add: demo_env_def)
  show ?thesis by (rule demo_send_runs_at [of 0, unfolded e])
qed

theorem send_guarantee_witness:
  "\<exists>w'. process_send demo_env 100 [demo_info 1, demo_info 94, demo_signer 4, demo_info 36, demo_info 20,
     demo_info 200, demo_info 12, demo_info 0] demo_send (demo_world demo_config) = Inr w' \<and>
     moved demo_env (demo_world demo_config) w' 36 20 2000"
proof -
  obtain w' where c: "process_send demo_env 100 [demo_info 1, demo_info 94, demo_signer 4, demo_info 36,
     demo_info 20, demo_info 200, demo_info 12, demo_info 0] demo_send (demo_world demo_config) = Inr w'"
    using demo_send_runs by blast
  have "runtime_ok demo_env 100" by (rule demo_runtime_ok) simp_all
  from send_guarantee [OF this c] c show ?thesis by (auto simp: demo_send_def)
qed

end
