(* ===== verification/GateRefunds.thy ===== *)
theory GateRefunds
  imports GateSends
begin

text \<open>
  Refunds: what a single refund guarantees, and what must have happened before it
  in any run of the gate.
\<close>

text \<open>
  A successful refund was authorised by a quorum over the refund id of the
  submission; it returns exactly the recorded amount, from the registered vault to
  the token account the send debited, touches no other token account, marks the
  submission as refunded (it was not before) and erases its record. The gate may be
  paused.
\<close>

theorem refund_guarantee:
  assumes "runtime_ok E pid"
    and "process_refund E pid (config_ai # asset_ai # sent_ai # refunded_ai # payer # vault #
      source_token # vault_authority # token_program # sys # rest) args w = Inr w'"
  shows "\<exists>cfg asset sent d.
    gate_config E pid w = Some cfg \<and>
    quorum E cfg (refund_id E (refund_sid E cfg args)) (ra_signatures args) \<and>
    load_asset E pid (ra_debridge_id args) asset_ai w = Inr asset \<and> ai_key vault = as_vault asset \<and>
    store pid w (pda E pid [lit ''sent'', arr_bytes (refund_sid E cfg args)]) = Some d \<and>
    decode_sent_record d = Inr sent \<and> sr_debridge_id sent = ra_debridge_id args \<and>
    ai_key source_token = sr_source_token sent \<and>
    moved E w w' (ai_key vault) (sr_source_token sent) (unat (sr_amount sent)) \<and>
    store pid w (pda E pid [lit ''refunded'', arr_bytes (refund_sid E cfg args)]) = None \<and>
    store pid w' = (store pid w)
       (pda E pid [lit ''refunded'', arr_bytes (refund_sid E cfg args)] \<mapsto> [MARKER_CLAIMED],
        pda E pid [lit ''sent'', arr_bytes (refund_sid E cfg args)] \<mapsto> replicate (length d) 0)"
proof -
  from process_refund_success [OF assms(2)]
  obtain cfg sent asset w1 w2 bump tp au infos seeds did c n where
    a: "load_config E pid config_ai w = Inr cfg"
      "load_sent_record E pid (refund_sid E cfg args) sent_ai w = Inr sent"
      "sr_debridge_id sent = ra_debridge_id args"
      "verify_threshold E cfg (refund_id E (refund_sid E cfg args)) (ra_signatures args) = Inr ()"
      "load_asset E pid (ra_debridge_id args) asset_ai w = Inr asset"
      "ai_key source_token = sr_source_token sent" "ai_key vault = as_vault asset"
      "owner_of w vault = spl_token_id E" "owner_of w source_token = spl_token_id E"
    and k: "ai_key refunded_ai = pda E pid [lit ''refunded'', arr_bytes (refund_sid E cfg args)]"
    and m: "create_marker E pid payer refunded_ai sys
        [lit ''refunded'', arr_bytes (refund_sid E cfg args)] bump MARKER_CLAIMED w = Inr w1"
    and i: "invoke_signed E pid (SplTransfer tp (ai_key vault) (ai_key source_token) au (sr_amount sent))
        infos seeds (set_data sent_ai (replicate (length (data_of w1 sent_ai)) 0) w1) = Inr w2"
    and e: "emit_lifecycle REFUNDED_EVENT_TAG (refund_sid E cfg args) did c n w2 = Inr w'"
    by (elim exE conjE) (rule that)
  from assms(2,1) obtain cfg' sent' d where c: "load_config E pid config_ai w = Inr cfg'"
    and st: "store pid w (pda E pid [lit ''refunded'', arr_bytes (refund_sid E cfg' args)]) = None"
      "store pid w (pda E pid [lit ''sent'', arr_bytes (refund_sid E cfg' args)]) = Some d"
      "decode_sent_record d = Inr sent'"
      "store pid w' = (store pid w)
       (pda E pid [lit ''refunded'', arr_bytes (refund_sid E cfg' args)] \<mapsto> [MARKER_CLAIMED],
        pda E pid [lit ''sent'', arr_bytes (refund_sid E cfg' args)] \<mapsto> replicate (length d) 0)"
    by (rule store_refund)
  have [simp]: "cfg' = cfg" using a(1) c by simp
  have s: "ai_key sent_ai = pda E pid [lit ''sent'', arr_bytes (refund_sid E cfg args)]"
    "owner_of w sent_ai = pid" "decode_sent_record (data_of w sent_ai) = Inr sent"
    using a(2) by (auto simp: load_sent_record_def res_simps)
  then have [simp]: "sent' = sent" using st(2,3) by (simp add: store_eq_iff)
  have o1: "owner_of w1 sent_ai = pid"
    using create_marker_effect(2,4) [OF m] assms(1) s(2) by (metis runtime_ok_def)
  have "token_rule E pid" using assms(1) by (simp add: runtime_ok_def)
  from invoke_signed_spl [OF this i]
  have "moved E w w2 (ai_key vault) (ai_key source_token) (unat (sr_amount sent))"
  proof (rule token_moved_moved)
    fix j assume j: "acct_owner (accts w j) = spl_token_id E"
    note mk = token_accounts_marker [OF m assms(1) j]
    then show "acct_owner (accts (set_data sent_ai (replicate (length (data_of w1 sent_ai)) 0) w1) j) = spl_token_id E \<and>
        acct_data (accts (set_data sent_ai (replicate (length (data_of w1 sent_ai)) 0) w1) j) = acct_data (accts w j)"
      using token_accounts_set_data [OF o1 assms(1)] by simp
  qed (use a in simp_all)
  then have "moved E w w' (ai_key vault) (sr_source_token sent) (unat (sr_amount sent))"
    using moved_same_accts [OF emit_lifecycle_Inr [OF e]] a(6) by simp
  with a gate_config_load [OF a(1)] load_config_quorum [OF a(1,4)] st show ?thesis by auto
qed

text \<open>
  C4. A submission is refunded at most once: no two refunds of a run, however far
  apart and whatever happens in between, concern the same submission.
\<close>

theorem refund_at_most_once:
  assumes "runtime_ok E pid"
    and "gate_step (at_time E t1) pid accs1 (Refund a1) w1 = Inr w2"
    and "gate_config E pid w1 = Some cfg1"
    and "gate_run E pid w2 es w3"
    and "gate_step (at_time E t2) pid accs2 (Refund a2) w3 = Inr w4"
    and "gate_config E pid w3 = Some cfg2"
  shows "refund_sid E cfg1 a1 \<noteq> refund_sid E cfg2 a2"
proof
  assume eq: "refund_sid E cfg1 a1 = refund_sid E cfg2 a2"
  have r: "runtime_ok (at_time E t1) pid" "runtime_ok (at_time E t2) pid" using assms(1) by simp_all
  have c: "gate_config (at_time E t1) pid w1 = Some cfg1" "gate_config (at_time E t2) pid w3 = Some cfg2"
    using assms(3,6) by simp_all
  let ?k = "pda E pid [lit ''refunded'', arr_bytes (refund_sid E cfg1 a1)]"
  have "store pid w2 ?k = Some [MARKER_CLAIMED]"
    by (rule refund_marks [OF assms(2) r(1) c(1)]) simp
  then obtain d where "store pid w3 ?k = Some d"
    using store_kept [OF run_keeps_owned [OF assms(4,1)]] by blast
  moreover have "store pid w3 ?k = None"
    by (rule refund_marks [OF assms(5) r(2) c(2)]) (simp add: eq)
  ultimately show False by simp
qed

lemma moved_at_time [simp]: "moved (at_time E t) = moved E"
  by (simp add: moved_def balance_def at_time_def fun_eq_iff)

lemma load_asset_at_time [simp]: "load_asset (at_time E t) = load_asset E"
  by (simp add: load_asset_def verify_asset_account_def at_time_def fun_eq_iff)

text \<open>
  C3. Every refund pays back an earlier send. In a run that starts without a record
  of the submission, a refund finds a record, and some earlier send of the run
  locked exactly the recorded amount of that asset out of the recorded token account.
  The refund moves exactly that amount, whatever amount its own arguments name, out of
  the registered vault of that asset into that same token account, touches no other
  token account, marks the submission as refunded, which it was not before, and erases
  the record.
\<close>

theorem refund_returns_a_send:
  assumes "runtime_ok E pid" "gate_run E pid w0 es w"
    and "gate_step (at_time E t) pid accs (Refund a) w = Inr w'"
    and "gate_config E pid w = Some cfg"
    and "apart E pid [lit ''sent'', arr_bytes (refund_sid E cfg a)]"
    and "store pid w0 (pda E pid [lit ''sent'', arr_bytes (refund_sid E cfg a)]) = None"
  shows "\<exists>d r asset. store pid w (pda E pid [lit ''sent'', arr_bytes (refund_sid E cfg a)]) = Some d \<and>
    decode_sent_record d = Inr r \<and> (\<exists>e \<in> set es. sends_record r e) \<and>
    load_asset E pid (sr_debridge_id r) (accs ! 1) w = Inr asset \<and>
    moved E w w' (as_vault asset) (sr_source_token r) (unat (sr_amount r)) \<and>
    store pid w (pda E pid [lit ''refunded'', arr_bytes (refund_sid E cfg a)]) = None \<and>
    store pid w' = (store pid w)
       (pda E pid [lit ''refunded'', arr_bytes (refund_sid E cfg a)] \<mapsto> [MARKER_CLAIMED],
        pda E pid [lit ''sent'', arr_bytes (refund_sid E cfg a)] \<mapsto> replicate (length d) 0)"
proof -
  have ok: "runtime_ok (at_time E t) pid" "gate_config (at_time E t) pid w = Some cfg"
    using assms(1,4) by simp_all
  have st: "process_refund (at_time E t) pid accs a w = Inr w'" using assms(3) by simp
  then obtain a1 a2 a3 a4 a5 a6 a7 a8 a9 a10 rest
    where accs: "accs = a1 # a2 # a3 # a4 # a5 # a6 # a7 # a8 # a9 # a10 # rest" by (rule refund_accs)
  from refund_guarantee [OF ok(1) st [unfolded accs]] ok(2)
  obtain asset sent d where
    g: "load_asset E pid (ra_debridge_id a) a2 w = Inr asset" "ai_key a6 = as_vault asset"
      "store pid w (pda E pid [lit ''sent'', arr_bytes (refund_sid E cfg a)]) = Some d"
      "decode_sent_record d = Inr sent" "sr_debridge_id sent = ra_debridge_id a"
      "moved E w w' (ai_key a6) (sr_source_token sent) (unat (sr_amount sent))"
      "store pid w (pda E pid [lit ''refunded'', arr_bytes (refund_sid E cfg a)]) = None"
      "store pid w' = (store pid w)
       (pda E pid [lit ''refunded'', arr_bytes (refund_sid E cfg a)] \<mapsto> [MARKER_CLAIMED],
        pda E pid [lit ''sent'', arr_bytes (refund_sid E cfg a)] \<mapsto> replicate (length d) 0)"
    by auto
  have "\<exists>e \<in> set es. sends_record sent e"
    using run_sent_record [OF assms(2,1,5,6)] g(3,4,7) by auto
  with g accs show ?thesis by auto
qed

section \<open>Demonstration of refunds\<close>

lemma load_config_cong: "accts w' (ai_key ai) = accts w (ai_key ai) \<Longrightarrow> load_config E pid ai w' = load_config E pid ai w"
  by (simp add: load_config_def)

lemma load_asset_cong: "accts w' (ai_key ai) = accts w (ai_key ai) \<Longrightarrow> load_asset E pid d ai w' = load_asset E pid d ai w"
  by (simp add: load_asset_def)

definition demo_refund :: "u64 \<Rightarrow> refund_args" where
  "demo_refund n = \<lparr>ra_debridge_id = 5, ra_amount = 2, ra_bridge_decimals = 3, ra_chain_id_to = 9,
     ra_nonce = n, ra_receiver = replicate 20 1, ra_auto = None, ra_native_sender = [],
     ra_signatures = [demo_sig 1, demo_sig 2]\<rparr>"

definition demo_refund_accs :: "pubkey \<Rightarrow> pubkey \<Rightarrow> account_info list" where
  "demo_refund_accs ks kr = [demo_info 1, demo_info 94, demo_info ks, demo_info kr, demo_signer 4,
     demo_info 20, demo_info 36, demo_info 2, demo_info 200, demo_info 0]"

lemma demo_refund_runs:
  assumes "load_config demo_env 100 (demo_info 1) w = Inr cfg"
    and "verify_threshold demo_env cfg (ucast n) [demo_sig 1, demo_sig 2] = Inr ()"
    and "load_asset demo_env 100 5 (demo_info 94) w = Inr demo_asset"
    and "demo_find [lit ''sent'', arr_bytes (ucast n :: bytes32)] 100 = (ks, 255)"
    and "demo_find [lit ''refunded'', arr_bytes (ucast n :: bytes32)] 100 = (kr, 255)"
    and kr: "accts w kr = \<lparr>lamports = 0, acct_owner = 0, acct_data = []\<rparr>"
    and ks: "accts w ks = \<lparr>lamports = 0, acct_owner = 100, acct_data = d\<rparr>" "d \<noteq> []"
    and "decode_sent_record d = Inr sent" "sr_debridge_id sent = 5" "sr_source_token sent = 36"
      "sr_amount sent = 2000"
    and v: "accts w 20 = \<lparr>lamports = 0, acct_owner = 200, acct_data = demo_token 68 2 x\<rparr>"
      "accts w 36 = \<lparr>lamports = 0, acct_owner = 200, acct_data = demo_token 68 4 y\<rparr>"
      "2000 \<le> x" "unat y + 2000 < 2 ^ 64"
  shows "\<exists>w'. process_refund demo_env 100 (demo_refund_accs ks kr) (demo_refund n) w = Inr w' \<and>
    accts w' = (accts w)(kr := \<lparr>lamports = 0, acct_owner = 100, acct_data = [MARKER_CLAIMED]\<rparr>,
      ks := \<lparr>lamports = 0, acct_owner = 100, acct_data = replicate (length d) 0\<rparr>,
      20 := \<lparr>lamports = 0, acct_owner = 200, acct_data = demo_token 68 2 (x - 2000)\<rparr>,
      36 := \<lparr>lamports = 0, acct_owner = 200, acct_data = demo_token 68 4 (y + 2000)\<rparr>)"
proof -
  have ne: "kr \<noteq> ks" "kr \<noteq> 20" "kr \<noteq> 36" "ks \<noteq> 20" "ks \<noteq> 36" using kr ks v by auto
  have s: "refund_sid demo_env cfg (demo_refund n) = ucast n" by (simp add: refund_sid_def demo_refund_def)
  have r: "refund_id demo_env i = i" for i by (simp add: refund_id_def demo_hash_two)
  have a: "as_vault demo_asset = 20" "as_mint demo_asset = 68" by (simp_all add: demo_asset_def)
  have g: "ra_debridge_id (demo_refund n) = 5" "ra_signatures (demo_refund n) = [demo_sig 1, demo_sig 2]"
    by (simp_all add: demo_refund_def)
  define w1 where "w1 = w\<lparr>accts := (accts w)(kr := \<lparr>lamports = 0, acct_owner = 100, acct_data = [MARKER_CLAIMED]\<rparr>)\<rparr>"
  define w2 where "w2 = set_data (demo_info ks) (replicate (length d) 0) w1"
  have w1: "create_marker demo_env 100 (demo_signer 4) (demo_info kr) (demo_info 0)
      [lit ''refunded'', arr_bytes (ucast n :: bytes32)] 255 MARKER_CLAIMED w = Inr w1"
    using demo_create_marker [of w "demo_info kr"] kr by (simp add: w1_def)
  have ls: "load_sent_record demo_env 100 (ucast n) (demo_info ks) w = Inr sent"
    using assms by (simp add: load_sent_record_def)
  have d1: "acct_data (accts w1 ks) = d" using ks ne by (simp add: w1_def)
  define a3 where "a3 = (accts w2)(20 := \<lparr>lamports = 0, acct_owner = 200, acct_data = demo_token 68 2 (x - 2000)\<rparr>,
      36 := \<lparr>lamports = 0, acct_owner = 200, acct_data = demo_token 68 4 (y + 2000)\<rparr>)"
  have t: "invoke_signed demo_env 100 (SplTransfer 200 20 36 2 2000)
      [demo_info 20, demo_info 36, demo_info 2, demo_info 200] [[lit ''vault_authority'', [255]]] w2 =
      Inr (w2\<lparr>accts := a3\<rparr>)"
    using v ne by (simp add: invoke_signed_def demo_transfer_def checked_add_def w2_def w1_def set_data_def
        demo_set_amount_def a3_def demo_set_token fun_eq_iff not_less)
  obtain w' where e: "emit_lifecycle REFUNDED_EVENT_TAG (ucast n) 5 (chain_id cfg) (ra_nonce (demo_refund n))
      (w2\<lparr>accts := a3\<rparr>) = Inr w'" "accts w' = a3"
    using emit_lifecycle_total by fastforce
  have "process_refund demo_env 100 (demo_refund_accs ks kr) (demo_refund n) w = Inr w'"
    unfolding demo_refund_accs_def process_refund_iff
    using assms
    by (simp add: s r a g ls w1 d1 w2_def [symmetric] t e is_already_executed_def)
  moreover have "accts w' = (accts w)(kr := \<lparr>lamports = 0, acct_owner = 100, acct_data = [MARKER_CLAIMED]\<rparr>,
      ks := \<lparr>lamports = 0, acct_owner = 100, acct_data = replicate (length d) 0\<rparr>,
      20 := \<lparr>lamports = 0, acct_owner = 200, acct_data = demo_token 68 2 (x - 2000)\<rparr>,
      36 := \<lparr>lamports = 0, acct_owner = 200, acct_data = demo_token 68 4 (y + 2000)\<rparr>)"
    using ne ks by (simp add: e(2) a3_def w2_def w1_def set_data_def fun_eq_iff)
  ultimately show ?thesis by blast
qed

definition demo_record :: sent_record where
  "demo_record = \<lparr>sr_debridge_id = 5, sr_sender = 4, sr_source_token = 36, sr_mint = 68,
     sr_amount = 2000, sr_locked_at = 0\<rparr>"

definition demo_record_bytes :: bytes where
  "demo_record_bytes = the (ser_sent_record demo_record)"

lemma demo_record_decodes:
  "decode_sent_record demo_record_bytes = Inr demo_record" "demo_record_bytes \<noteq> []"
proof -
  obtain bs where bs: "ser_sent_record demo_record = Some bs"
    by (auto simp: ser_sent_record_def ser_struct_simps ser_arr_def ser_word_def)
  note l = demo_sent_record [OF bs]
  show "demo_record_bytes \<noteq> []" using l by (auto simp: demo_record_bytes_def bs SENT_RECORD_LEN_def)
  show "decode_sent_record demo_record_bytes = Inr demo_record"
    using sentc.deserialize_padded [OF bs, of "[]"] l
    by (simp add: decode_sent_record_def demo_record_bytes_def bs SENT_RECORD_LEN_def)
qed

text \<open>The demonstration world after two sends, with the nonces 0 and 1.\<close>

definition demo_sent_world :: world where
  "demo_sent_world = (demo_world demo_config)\<lparr>accts := (demo_accts demo_config)
     (12 := \<lparr>lamports = 0, acct_owner = 100, acct_data = demo_record_bytes\<rparr>,
      28 := \<lparr>lamports = 0, acct_owner = 100, acct_data = demo_record_bytes\<rparr>)\<rparr>"

lemma demo_sent_world_at:
  "accts demo_sent_world k = (if k = 12 \<or> k = 28
     then \<lparr>lamports = 0, acct_owner = 100, acct_data = demo_record_bytes\<rparr> else demo_accts demo_config k)"
  by (simp add: demo_sent_world_def)

lemma demo_sent_world_loads:
  "load_config demo_env 100 (demo_info 1) demo_sent_world = Inr demo_config"
  "load_asset demo_env 100 5 (demo_info 94) demo_sent_world = Inr demo_asset"
proof -
  have "accts demo_sent_world (ai_key (demo_info 1)) = accts (demo_world demo_config) (ai_key (demo_info 1))"
    "accts demo_sent_world (ai_key (demo_info 94)) = accts (demo_world demo_config) (ai_key (demo_info 94))"
    by (simp_all add: demo_sent_world_at demo_world_def)
  then show "load_config demo_env 100 (demo_info 1) demo_sent_world = Inr demo_config"
    "load_asset demo_env 100 5 (demo_info 94) demo_sent_world = Inr demo_asset"
    using demo_load demo_load_asset load_config_cong load_asset_cong by metis+
qed

lemma demo_pda_refunds:
  "demo_find [lit ''sent'', arr_bytes (ucast (0 :: u64) :: bytes32)] 100 = (12, 255)"
  "demo_find [lit ''refunded'', arr_bytes (ucast (0 :: u64) :: bytes32)] 100 = (11, 255)"
  "demo_find [lit ''sent'', arr_bytes (ucast (1 :: u64) :: bytes32)] 100 = (28, 255)"
  "demo_find [lit ''refunded'', arr_bytes (ucast (1 :: u64) :: bytes32)] 100 = (27, 255)"
  using demo_pda [of 0 "lit ''sent''"] demo_pda [of 0 "lit ''refunded''"]
    demo_pda [of 1 "lit ''sent''"] demo_pda [of 1 "lit ''refunded''"] by (simp_all add: demo_tag_def)

lemma demo_first_refund:
  "\<exists>w'. process_refund demo_env 100 (demo_refund_accs 12 11) (demo_refund 0) demo_sent_world = Inr w' \<and>
    accts w' = (accts demo_sent_world)(11 := \<lparr>lamports = 0, acct_owner = 100, acct_data = [MARKER_CLAIMED]\<rparr>,
      12 := \<lparr>lamports = 0, acct_owner = 100, acct_data = replicate (length demo_record_bytes) 0\<rparr>,
      20 := \<lparr>lamports = 0, acct_owner = 200, acct_data = demo_token 68 2 (50000 - 2000)\<rparr>,
      36 := \<lparr>lamports = 0, acct_owner = 200, acct_data = demo_token 68 4 (9000 + 2000)\<rparr>)"
  by (rule demo_refund_runs [OF demo_sent_world_loads(1) demo_verify demo_sent_world_loads(2)
        demo_pda_refunds(1,2) _ _ demo_record_decodes(2,1)])
    (simp_all add: demo_sent_world_at demo_accts_def demo_record_def)

theorem refund_guarantee_witness:
  "\<exists>w'. process_refund demo_env 100 (demo_refund_accs 12 11) (demo_refund 0) demo_sent_world = Inr w' \<and>
    (\<exists>n. moved demo_env demo_sent_world w' 20 36 n)"
proof -
  obtain w' where c: "process_refund demo_env 100 (demo_refund_accs 12 11) (demo_refund 0) demo_sent_world = Inr w'"
    using demo_first_refund by blast
  have "runtime_ok demo_env 100" by (rule demo_runtime_ok) simp_all
  from refund_guarantee [OF this c [unfolded demo_refund_accs_def]]
  obtain n where "moved demo_env demo_sent_world w' (ai_key (demo_info 20)) (ai_key (demo_info 36)) n"
    by metis
  then show ?thesis using c by auto
qed

lemma demo_at_time_0: "at_time demo_env 0 = demo_env"
  by (simp add: at_time_def demo_env_def)

theorem refund_at_most_once_witness:
  "\<exists>w2 w4. gate_step (at_time demo_env 0) 100 (demo_refund_accs 12 11) (Refund (demo_refund 0)) demo_sent_world = Inr w2 \<and>
    gate_step (at_time demo_env 0) 100 (demo_refund_accs 28 27) (Refund (demo_refund 1)) w2 = Inr w4 \<and>
    refund_sid demo_env demo_config (demo_refund 0) \<noteq> refund_sid demo_env demo_config (demo_refund 1)"
proof -
  obtain w2 where 1: "process_refund demo_env 100 (demo_refund_accs 12 11) (demo_refund 0) demo_sent_world = Inr w2"
    and a2: "accts w2 = (accts demo_sent_world)(11 := \<lparr>lamports = 0, acct_owner = 100, acct_data = [MARKER_CLAIMED]\<rparr>,
      12 := \<lparr>lamports = 0, acct_owner = 100, acct_data = replicate (length demo_record_bytes) 0\<rparr>,
      20 := \<lparr>lamports = 0, acct_owner = 200, acct_data = demo_token 68 2 (50000 - 2000)\<rparr>,
      36 := \<lparr>lamports = 0, acct_owner = 200, acct_data = demo_token 68 4 (9000 + 2000)\<rparr>)"
    using demo_first_refund by blast
  have l: "load_config demo_env 100 (demo_info 1) w2 = Inr demo_config"
    "load_asset demo_env 100 5 (demo_info 94) w2 = Inr demo_asset"
    using demo_sent_world_loads load_config_cong [of w2 "demo_info 1" demo_sent_world]
      load_asset_cong [of w2 "demo_info 94" demo_sent_world] by (simp_all add: a2)
  have "\<exists>w4. process_refund demo_env 100 (demo_refund_accs 28 27) (demo_refund 1) w2 = Inr w4 \<and>
    accts w4 = (accts w2)(27 := \<lparr>lamports = 0, acct_owner = 100, acct_data = [MARKER_CLAIMED]\<rparr>,
      28 := \<lparr>lamports = 0, acct_owner = 100, acct_data = replicate (length demo_record_bytes) 0\<rparr>,
      20 := \<lparr>lamports = 0, acct_owner = 200, acct_data = demo_token 68 2 (48000 - 2000)\<rparr>,
      36 := \<lparr>lamports = 0, acct_owner = 200, acct_data = demo_token 68 4 (11000 + 2000)\<rparr>)"
    by (rule demo_refund_runs [OF l(1) demo_verify l(2) demo_pda_refunds(3,4) _ _ demo_record_decodes(2,1)])
      (simp_all add: a2 demo_sent_world_at demo_accts_def demo_record_def)
  then obtain w4 where 2: "process_refund demo_env 100 (demo_refund_accs 28 27) (demo_refund 1) w2 = Inr w4" by blast
  have r: "runtime_ok demo_env 100" by (rule demo_runtime_ok) simp_all
  have s: "gate_step (at_time demo_env 0) 100 (demo_refund_accs 12 11) (Refund (demo_refund 0)) demo_sent_world = Inr w2"
    "gate_step (at_time demo_env 0) 100 (demo_refund_accs 28 27) (Refund (demo_refund 1)) w2 = Inr w4"
    using 1 2 by (simp_all add: demo_at_time_0)
  from refund_at_most_once [OF r s(1) gate_config_load [OF demo_sent_world_loads(1)] run_nil s(2)
      gate_config_load [OF l(1)]] s show ?thesis by blast
qed

lemma demo_send_then:
  "\<exists>w' d bs cfg'. process_send demo_env 100 [demo_info 1, demo_info 94, demo_signer 4, demo_info 36, demo_info 20,
     demo_info 200, demo_info 12, demo_info 0] demo_send (demo_world demo_config) = Inr w' \<and>
   load_config demo_env 100 (demo_info 1) w' = Inr cfg' \<and> validators cfg' = [1, 2, 3] \<and> threshold cfg' = 2 \<and>
   decode_sent_record bs = Inr demo_record \<and> bs \<noteq> [] \<and>
   accts w' = (demo_accts demo_config)(1 := \<lparr>lamports = 0, acct_owner = 100, acct_data = d\<rparr>,
     12 := \<lparr>lamports = 0, acct_owner = 100, acct_data = bs\<rparr>,
     36 := \<lparr>lamports = 0, acct_owner = 200, acct_data = demo_token 68 4 (9000 - 2000)\<rparr>,
     20 := \<lparr>lamports = 0, acct_owner = 200, acct_data = demo_token 68 2 (50000 + 2000)\<rparr>)"
proof -
  obtain w' where c: "process_send demo_env 100 [demo_info 1, demo_info 94, demo_signer 4, demo_info 36,
     demo_info 20, demo_info 200, demo_info 12, demo_info 0] demo_send (demo_world demo_config) = Inr w'"
    using demo_send_runs by blast
  from process_send_success [OF c] obtain cfg asset cfg' w1 w2 w3 sid bump wire bd cf nn ns mint now tp au infos m did where
    a: "load_config demo_env 100 (demo_info 1) (demo_world demo_config) = Inr cfg"
      "bump_nonce cfg (sa_chain_id_to demo_send) = Inr cfg'"
      "load_asset demo_env 100 (sa_debridge_id demo_send) (demo_info 94) (demo_world demo_config) = Inr asset"
    and s: "config_store cfg' (demo_info 1) (demo_world demo_config) = Inr w1"
    and r: "create_sent_record demo_env 100 (demo_signer 4) (demo_info 12) (demo_info 0) sid bump
        \<lparr>sr_debridge_id = sa_debridge_id demo_send, sr_sender = ai_key (demo_signer 4),
         sr_source_token = ai_key (demo_info 36), sr_mint = as_mint asset,
         sr_amount = sa_amount demo_send, sr_locked_at = now\<rparr> w1 = Inr w2"
    and n: "clock_get demo_env = Inr now"
    and e: "emit_sent sid demo_send wire bd cf nn ns mint w2 = Inr w3"
    and i: "invoke demo_env 100 (SplTransfer (ai_key (demo_info 200)) (ai_key (demo_info 36)) (ai_key (demo_info 20))
        (ai_key (demo_signer 4)) (sa_amount demo_send)) infos w3 = Inr w'"
    by (elim exE conjE) (rule that)
  have [simp]: "cfg = demo_config" "asset = demo_asset" "now = 0"
    using a(1,3) demo_load demo_load_asset n by (simp_all add: demo_send_def)
  have rec: "\<lparr>sr_debridge_id = sa_debridge_id demo_send, sr_sender = ai_key (demo_signer 4),
         sr_source_token = ai_key (demo_info 36), sr_mint = as_mint asset,
         sr_amount = sa_amount demo_send, sr_locked_at = now\<rparr> = demo_record"
    by (simp add: demo_send_def demo_asset_def demo_record_def)
  have c': "validators cfg' = [1, 2, 3]" "threshold cfg' = 2"
    using a(2) by (auto simp: bump_nonce_def demo_config_def res_simps)
  obtain d where w1: "w1 = set_data (demo_info 1) d (demo_world demo_config)"
    using s by (rule config_store_Inr)
  have lc: "load_config demo_env 100 (demo_info 1) w1 = Inr cfg'"
    by (rule load_config_store [OF s]) (simp_all add: demo_world_def demo_accts_def)
  have sy: "system_rule demo_env 100" using demo_runtime_ok [of 100] by (simp add: runtime_ok_def)
  obtain bs where w2: "w2 = w1\<lparr>accts := (accts w1)(12 := \<lparr>lamports = 0, acct_owner = 100, acct_data = bs\<rparr>)\<rparr>"
  proof -
    have "accts w1 (ai_key (demo_info 12)) = \<lparr>lamports = 0, acct_owner = 0, acct_data = []\<rparr>"
      by (simp add: w1 demo_world_def demo_accts_def)
    then obtain bs where "create_sent_record demo_env 100 (demo_signer 4) (demo_info 12) (demo_info 0) sid bump
        \<lparr>sr_debridge_id = sa_debridge_id demo_send, sr_sender = ai_key (demo_signer 4),
         sr_source_token = ai_key (demo_info 36), sr_mint = as_mint asset,
         sr_amount = sa_amount demo_send, sr_locked_at = now\<rparr> w1 =
      Inr (w1\<lparr>accts := (accts w1)(ai_key (demo_info 12) := \<lparr>lamports = 0, acct_owner = 100, acct_data = bs\<rparr>)\<rparr>)"
      using demo_create_sent [of w1 "demo_info 12" 100] by fastforce
    then show ?thesis using r that [of bs] by simp
  qed
  note ef = create_sent_record_effect [OF r sy]
  have bs1: "decode_sent_record bs = Inr demo_record"
    using ef(3) unfolding rec by (simp add: w2)
  then have bs: "decode_sent_record bs = Inr demo_record" "bs \<noteq> []"
    by (auto simp: decode_sent_record_def SENT_RECORD_LEN_def deserialize_def
        de_sent_record_def de_arr_def res_simps)
  have a3: "accts w3 = (demo_accts demo_config)(1 := \<lparr>lamports = 0, acct_owner = 100, acct_data = d\<rparr>,
     12 := \<lparr>lamports = 0, acct_owner = 100, acct_data = bs\<rparr>)"
    unfolding emit_sent_Inr [OF e] by (simp add: w2 w1 set_data_def demo_world_def demo_accts_def fun_eq_iff)
  have a4: "accts w' = (demo_accts demo_config)(1 := \<lparr>lamports = 0, acct_owner = 100, acct_data = d\<rparr>,
     12 := \<lparr>lamports = 0, acct_owner = 100, acct_data = bs\<rparr>,
     36 := \<lparr>lamports = 0, acct_owner = 200, acct_data = demo_token 68 4 (9000 - 2000)\<rparr>,
     20 := \<lparr>lamports = 0, acct_owner = 200, acct_data = demo_token 68 2 (50000 + 2000)\<rparr>)"
  proof -
    have at: "accts w3 36 = \<lparr>lamports = 0, acct_owner = 200, acct_data = demo_token 68 4 9000\<rparr>"
      "accts w3 20 = \<lparr>lamports = 0, acct_owner = 200, acct_data = demo_token 68 2 50000\<rparr>"
      by (simp_all add: a3 demo_accts_def)
    have "demo_transfer 36 20 2000 (accts w3) = Inr (demo_set_amount 20 52000 (demo_set_amount 36 7000 (accts w3)))"
      by (simp add: demo_transfer_def at checked_add_def)
    then have "accts w' = demo_set_amount 20 52000 (demo_set_amount 36 7000 (accts w3))"
      using i by (auto simp: invoke_def invoke_signed_def demo_send_def)
    also have "\<dots> = (accts w3)(36 := \<lparr>lamports = 0, acct_owner = 200, acct_data = demo_token 68 4 7000\<rparr>,
      20 := \<lparr>lamports = 0, acct_owner = 200, acct_data = demo_token 68 2 52000\<rparr>)"
      by (simp add: demo_set_amount_def at demo_set_token)
    finally show ?thesis by (simp add: a3)
  qed
  have "load_config demo_env 100 (demo_info 1) w' = Inr cfg'"
    using lc load_config_cong [of w' "demo_info 1" w1]
    by (simp add: a4 w1 set_data_def demo_world_def demo_accts_def)
  then show ?thesis using c c' bs a4 by blast
qed

theorem refund_returns_a_send_witness:
  "\<exists>w w'. gate_run demo_env 100 (demo_world demo_config) [Executed 0 [demo_info 1, demo_info 94, demo_signer 4,
      demo_info 36, demo_info 20, demo_info 200, demo_info 12, demo_info 0] (Send demo_send)] w \<and>
    gate_step (at_time demo_env 0) 100 (demo_refund_accs 12 11) (Refund (demo_refund 0)) w = Inr w' \<and>
    (\<exists>d r (asset :: asset_config). store 100 w 12 = Some d \<and> decode_sent_record d = Inr r \<and>
      sends_record r (Executed 0 [demo_info 1, demo_info 94, demo_signer 4,
      demo_info 36, demo_info 20, demo_info 200, demo_info 12, demo_info 0] (Send demo_send)) \<and>
      moved demo_env w w' (as_vault asset) (sr_source_token r) (unat (sr_amount r)))"
proof -
  obtain w d bs cfg where c: "process_send demo_env 100 [demo_info 1, demo_info 94, demo_signer 4, demo_info 36,
      demo_info 20, demo_info 200, demo_info 12, demo_info 0] demo_send (demo_world demo_config) = Inr w"
    and l: "load_config demo_env 100 (demo_info 1) w = Inr cfg"
    and v: "validators cfg = [1, 2, 3]" "threshold cfg = 2"
    and bs: "decode_sent_record bs = Inr demo_record" "bs \<noteq> []"
    and a: "accts w = (demo_accts demo_config)(1 := \<lparr>lamports = 0, acct_owner = 100, acct_data = d\<rparr>,
     12 := \<lparr>lamports = 0, acct_owner = 100, acct_data = bs\<rparr>,
     36 := \<lparr>lamports = 0, acct_owner = 200, acct_data = demo_token 68 4 (9000 - 2000)\<rparr>,
     20 := \<lparr>lamports = 0, acct_owner = 200, acct_data = demo_token 68 2 (50000 + 2000)\<rparr>)"
    using demo_send_then by blast
  have run: "gate_run demo_env 100 (demo_world demo_config) [Executed 0 [demo_info 1, demo_info 94, demo_signer 4,
      demo_info 36, demo_info 20, demo_info 200, demo_info 12, demo_info 0] (Send demo_send)] w"
    using run_ix [OF run_nil, of demo_env 0 100] c by (simp add: demo_at_time_0)
  have la: "load_asset demo_env 100 5 (demo_info 94) w = Inr demo_asset"
    using demo_load_asset load_asset_cong [of w "demo_info 94" "demo_world demo_config"]
    by (simp add: a demo_world_def)
  have ver: "verify_threshold demo_env cfg i [demo_sig 1, demo_sig 2] = Inr ()" for i
    by (simp add: verify_threshold_def v demo_recover is_validator_def word_le_nat_alt)
  have "\<exists>w'. process_refund demo_env 100 (demo_refund_accs 12 11) (demo_refund 0) w = Inr w' \<and>
    accts w' = (accts w)(11 := \<lparr>lamports = 0, acct_owner = 100, acct_data = [MARKER_CLAIMED]\<rparr>,
      12 := \<lparr>lamports = 0, acct_owner = 100, acct_data = replicate (length bs) 0\<rparr>,
      20 := \<lparr>lamports = 0, acct_owner = 200, acct_data = demo_token 68 2 (52000 - 2000)\<rparr>,
      36 := \<lparr>lamports = 0, acct_owner = 200, acct_data = demo_token 68 4 (7000 + 2000)\<rparr>)"
    by (rule demo_refund_runs [OF l ver la demo_pda_refunds(1,2) _ _ bs(2,1)])
      (simp_all add: a demo_accts_def demo_record_def)
  then obtain w' where ref: "process_refund demo_env 100 (demo_refund_accs 12 11) (demo_refund 0) w = Inr w'"
    by blast
  have s: "refund_sid demo_env cfg (demo_refund 0) = ucast (0 :: u64)"
    by (simp add: refund_sid_def demo_refund_def)
  have g: "gate_step (at_time demo_env 0) 100 (demo_refund_accs 12 11) (Refund (demo_refund 0)) w = Inr w'"
    using ref by (simp add: demo_at_time_0)
  have ok: "runtime_ok demo_env 100" by (rule demo_runtime_ok) simp_all
  have ap: "apart demo_env 100 [lit ''sent'', arr_bytes (refund_sid demo_env cfg (demo_refund 0))]"
    unfolding s by (rule demo_apart) simp_all
  have no: "store 100 (demo_world demo_config)
      (pda demo_env 100 [lit ''sent'', arr_bytes (refund_sid demo_env cfg (demo_refund 0))]) = None"
    unfolding s demo_env_fields demo_pda_refunds by (simp add: store_def demo_world_def demo_accts_def)
  from refund_returns_a_send [OF ok run g gate_config_load [OF l] ap no]
  have "\<exists>d r (asset :: asset_config). store 100 w 12 = Some d \<and> decode_sent_record d = Inr r \<and>
      sends_record r (Executed 0 [demo_info 1, demo_info 94, demo_signer 4,
      demo_info 36, demo_info 20, demo_info 200, demo_info 12, demo_info 0] (Send demo_send)) \<and>
      moved demo_env w w' (as_vault asset) (sr_source_token r) (unat (sr_amount r))"
    unfolding s demo_env_fields demo_pda_refunds by auto
  then show ?thesis using run g by blast
qed

end
