(* ===== verification/GateSafety.thy ===== *)
theory GateSafety
  imports GateRefunds
begin

text \<open>
  Safety of the gate along runs: settlement happens once, the configuration follows
  its abstract machine and keeps its invariant, and every change that weakens the
  quorum was scheduled at least 48 hours before.
\<close>

section \<open>Settlement\<close>

text \<open>
  C2. A submission is settled at most once on this chain: of all claims and cancels
  of a run, no two concern the same submission id, so a claim excludes a later
  cancel, a cancel a later claim, and neither can be repeated.
\<close>

theorem settle_at_most_once:
  assumes "runtime_ok E pid"
    and "gate_step (at_time E t1) pid accs1 ix1 w1 = Inr w2"
    and "gate_config E pid w1 = Some cfg1" "settled_id E cfg1 ix1 = Some sid1"
    and "gate_run E pid w2 es w3"
    and "gate_step (at_time E t2) pid accs2 ix2 w3 = Inr w4"
    and "gate_config E pid w3 = Some cfg2" "settled_id E cfg2 ix2 = Some sid2"
  shows "sid1 \<noteq> sid2"
  using assms by (rule settle_once)

definition demo_cancel :: "u64 \<Rightarrow> cancel_args" where
  "demo_cancel n = \<lparr>xa_debridge_id = 5, xa_amount = 10, xa_bridge_decimals = 3, xa_chain_id_from = 9,
     xa_nonce = n, xa_receiver = [], xa_auto = None, xa_native_sender = [],
     xa_signatures = [demo_sig 1, demo_sig 2]\<rparr>"

lemma demo_cancel_runs:
  assumes "load_config demo_env 100 (demo_info 1) w = Inr demo_config"
    and "demo_find [lit ''executed'', arr_bytes (ucast n :: bytes32)] 100 = (k, 255)"
    and "accts w k = \<lparr>lamports = 0, acct_owner = 0, acct_data = []\<rparr>"
  shows "\<exists>w'. process_cancel demo_env 100 [demo_info 1, demo_info k, demo_signer 4, demo_info 0] (demo_cancel n) w =
      Inr w' \<and> accts w' = (accts w)(k := \<lparr>lamports = 0, acct_owner = 100, acct_data = [MARKER_CANCELLED]\<rparr>)"
proof -
  have s: "cancel_sid demo_env demo_config (demo_cancel n) = ucast n"
    by (simp add: cancel_sid_def demo_cancel_def)
  have v: "verify_threshold demo_env demo_config i (xa_signatures (demo_cancel n)) = Inr ()" for i
    using demo_verify by (simp add: demo_cancel_def)
  have c: "\<not> paused demo_config" by (simp add: demo_config_def)
  have m: "create_marker demo_env 100 (demo_signer 4) (demo_info k) (demo_info 0) seeds b MARKER_CANCELLED w =
      Inr (w\<lparr>accts := (accts w)(k := \<lparr>lamports = 0, acct_owner = 100, acct_data = [MARKER_CANCELLED]\<rparr>)\<rparr>)" for seeds b
    using demo_create_marker [of w "demo_info k"] assms(3) by simp
  obtain w' where "emit_lifecycle CANCELLED_EVENT_TAG (ucast n) (xa_debridge_id (demo_cancel n))
      (xa_chain_id_from (demo_cancel n)) (xa_nonce (demo_cancel n))
      (w\<lparr>accts := (accts w)(k := \<lparr>lamports = 0, acct_owner = 100, acct_data = [MARKER_CANCELLED]\<rparr>)\<rparr>) = Inr w'"
    "accts w' = (accts w)(k := \<lparr>lamports = 0, acct_owner = 100, acct_data = [MARKER_CANCELLED]\<rparr>)"
    using emit_lifecycle_total by fastforce
  then show ?thesis
    unfolding process_cancel_iff using assms
    by (simp add: s v c m is_already_executed_def)
qed

theorem settle_at_most_once_witness:
  "\<exists>w2 w4.
    gate_step (at_time demo_env 0) 100 [demo_info 1, demo_info 90, demo_signer 4, demo_info 0]
      (Cancel (demo_cancel 5)) (demo_world demo_config) = Inr w2 \<and>
    gate_step (at_time demo_env 0) 100 [demo_info 1, demo_info 106, demo_signer 4, demo_info 0]
      (Cancel (demo_cancel 6)) w2 = Inr w4 \<and>
    cancel_sid demo_env demo_config (demo_cancel 5) \<noteq> cancel_sid demo_env demo_config (demo_cancel 6)"
proof -
  have p: "demo_find [lit ''executed'', arr_bytes (ucast (5 :: u64) :: bytes32)] 100 = (90, 255)"
    "demo_find [lit ''executed'', arr_bytes (ucast (6 :: u64) :: bytes32)] 100 = (106, 255)"
    using demo_pda [of 5 "lit ''executed''"] demo_pda [of 6 "lit ''executed''"]
    by (simp_all add: demo_tag_def)
  obtain w2 where 1: "process_cancel demo_env 100 [demo_info 1, demo_info 90, demo_signer 4, demo_info 0]
      (demo_cancel 5) (demo_world demo_config) = Inr w2"
    and a: "accts w2 = (accts (demo_world demo_config))(90 :=
      \<lparr>lamports = 0, acct_owner = 100, acct_data = [MARKER_CANCELLED]\<rparr>)"
    using demo_cancel_runs [OF demo_load p(1) demo_world_at(1)] by blast
  have l: "load_config demo_env 100 (demo_info 1) w2 = Inr demo_config"
    using demo_load load_config_cong [of w2 "demo_info 1" "demo_world demo_config"] by (simp add: a)
  have "accts w2 106 = \<lparr>lamports = 0, acct_owner = 0, acct_data = []\<rparr>"
    by (simp add: a demo_world_def demo_accts_def)
  then obtain w4 where 2: "process_cancel demo_env 100 [demo_info 1, demo_info 106, demo_signer 4, demo_info 0]
      (demo_cancel 6) w2 = Inr w4"
    using demo_cancel_runs [OF l p(2)] by blast
  have r: "runtime_ok demo_env 100" by (rule demo_runtime_ok) simp_all
  have s: "gate_step (at_time demo_env 0) 100 [demo_info 1, demo_info 90, demo_signer 4, demo_info 0]
      (Cancel (demo_cancel 5)) (demo_world demo_config) = Inr w2"
    "gate_step (at_time demo_env 0) 100 [demo_info 1, demo_info 106, demo_signer 4, demo_info 0]
      (Cancel (demo_cancel 6)) w2 = Inr w4"
    using 1 2 by (simp_all add: demo_at_time_0)
  have i: "settled_id demo_env demo_config (Cancel (demo_cancel n)) =
      Some (cancel_sid demo_env demo_config (demo_cancel n))" for n by (simp add: settled_id_def)
  from settle_at_most_once [OF r s(1) gate_config_load [OF demo_load] i run_nil s(2) gate_config_load [OF l] i] s
  show ?thesis by blast
qed

section \<open>The configuration\<close>

text \<open>
  C7. The gate refines its configuration machine: whatever instruction succeeds,
  the stored configuration before and after it are related by one step of
  \<open>cfg_step\<close>, which fixes who must sign, which guard must hold and which changes
  need a matured schedule; every other instruction leaves it alone.
\<close>

theorem gate_refines_config_machine:
  assumes "runtime_ok E pid" "apart E pid [lit ''config'']"
    and "gate_step E pid accs ix w = Inr w'"
  shows "cfg_step E (signers accs) (mature E pid w) ix (gate_config E pid w) (gate_config E pid w')"
  using gate_step_cfg_step [OF assms(3,1,2)] .

lemma demo_pause_runs:
  "\<exists>w'. gate_step demo_env 100 [demo_info 1, demo_signer 3] Pause (demo_world demo_config) = Inr w'"
proof -
  have "config_inv (demo_config\<lparr>paused := True\<rparr>)"
    by (simp add: config_inv_def demo_config_def MAX_THRESHOLD_def)
  then obtain d where "config_store (demo_config\<lparr>paused := True\<rparr>) (demo_info 1) (demo_world demo_config) =
    Inr (set_data (demo_info 1) d (demo_world demo_config))"
    using demo_config_store [of "demo_config\<lparr>paused := True\<rparr>"] by (auto simp: demo_config_def)
  then show ?thesis
    by (simp add: process_set_paused_def demo_load authorized_to_set_paused_def Let_def)
      (simp add: demo_config_def)
qed

theorem gate_refines_config_machine_witness:
  "\<exists>w'. gate_step demo_env 100 [demo_info 1, demo_signer 3] Pause (demo_world demo_config) = Inr w' \<and>
    cfg_step demo_env (signers [demo_info 1, demo_signer 3]) (mature demo_env 100 (demo_world demo_config)) Pause
      (gate_config demo_env 100 (demo_world demo_config)) (gate_config demo_env 100 w')"
proof -
  obtain w' where c: "gate_step demo_env 100 [demo_info 1, demo_signer 3] Pause (demo_world demo_config) = Inr w'"
    using demo_pause_runs by blast
  have "runtime_ok demo_env 100" by (rule demo_runtime_ok) simp_all
  from gate_refines_config_machine [OF this demo_apart_config c] c show ?thesis by blast
qed

text \<open>
  C8. In every run that starts with an uninitialized or a well-formed gate, the
  configuration stays well-formed: the threshold is positive, attainable and within
  the transaction limit, validators are distinct and non-zero and within capacity,
  corridors are distinct, never the own chain, and within capacity, chain id and
  bridge domain are set.
\<close>

theorem config_invariant:
  assumes "runtime_ok E pid" "apart E pid [lit ''config'']"
    and "gate_run E pid w0 es w" "config_ok (gate_config E pid w0)"
  shows "config_ok (gate_config E pid w)"
  using assms(3)
proof induction
  case run_nil
  then show ?case using assms(4) .
next
  case (run_ix es w now accs ix w')
  then show ?case using gate_step_config_ok [OF run_ix(2)] assms(1,2) by simp
next
  case (run_foreign es w w')
  then show ?case using gate_config_foreign by metis
qed

theorem config_invariant_witness:
  "\<exists>w'. gate_run demo_env 100 (demo_world demo_config) [Executed 0 [demo_info 1, demo_signer 3] Pause] w' \<and>
    config_ok (gate_config demo_env 100 w')"
proof -
  obtain w' where c: "gate_step demo_env 100 [demo_info 1, demo_signer 3] Pause (demo_world demo_config) = Inr w'"
    using demo_pause_runs by blast
  have r: "gate_run demo_env 100 (demo_world demo_config) [Executed 0 [demo_info 1, demo_signer 3] Pause] w'"
    using run_ix [OF run_nil, of demo_env 0 100] c by (simp add: demo_at_time_0)
  have ok: "runtime_ok demo_env 100" by (rule demo_runtime_ok) simp_all
  have "config_ok (gate_config demo_env 100 (demo_world demo_config))"
    unfolding gate_config_load [OF demo_load]
    by (simp add: config_ok_def config_inv_def demo_config_def MAX_THRESHOLD_def)
  from config_invariant [OF ok demo_apart_config r this] r show ?thesis by blast
qed

text \<open>
  The identity of an initialized gate is permanent: along every run the owner,
  the bridge domain, the chain id, the capacities and the setup deadline stay, a
  sealed gate stays sealed, registered corridors stay registered, and the nonce of
  a corridor never decreases.
\<close>

theorem config_identity_permanent:
  assumes "runtime_ok E pid" "apart E pid [lit ''config'']"
    and "gate_run E pid w0 es w" "gate_config E pid w0 = Some c"
  shows "\<exists>c'. gate_config E pid w = Some c' \<and> config_le c c'"
  using run_config_le [OF assms(3,1,2,4)] .

theorem config_identity_permanent_witness:
  "\<exists>w' c'. gate_run demo_env 100 (demo_world demo_config) [Executed 0 [demo_info 1, demo_signer 3] Pause] w' \<and>
    gate_config demo_env 100 w' = Some c' \<and> config_le demo_config c'"
proof -
  obtain w' where c: "gate_step demo_env 100 [demo_info 1, demo_signer 3] Pause (demo_world demo_config) = Inr w'"
    using demo_pause_runs by blast
  have r: "gate_run demo_env 100 (demo_world demo_config) [Executed 0 [demo_info 1, demo_signer 3] Pause] w'"
    using run_ix [OF run_nil, of demo_env 0 100] c by (simp add: demo_at_time_0)
  have ok: "runtime_ok demo_env 100" by (rule demo_runtime_ok) simp_all
  from config_identity_permanent [OF ok demo_apart_config r gate_config_load [OF demo_load]] r
  show ?thesis by blast
qed

end
