(* ===== verification/GateTimelock.thy ===== *)
theory GateTimelock
  imports GateSafety
begin

text \<open>
  The governance timelock: a change that weakens the quorum of a gate, or replaces a
  guardian, can only follow a schedule written at least 48 hours before.
\<close>

text \<open>
  The change from one configuration to the next that the action id \<open>aid\<close> stands for
  weakens the gate: a validator is added, the threshold lowered, or the guardian of
  a sealed gate replaced.
\<close>

definition weakens :: "env \<Rightarrow> config \<Rightarrow> config \<Rightarrow> bytes32 \<Rightarrow> bool" where
  "weakens E cfg cfg' aid \<longleftrightarrow>
     (\<exists>v. v \<in> set (validators cfg') \<and> v \<notin> set (validators cfg) \<and> aid = add_validator_action_id E v) \<or>
     (threshold cfg' < threshold cfg \<and> aid = lower_threshold_action_id E (threshold cfg')) \<or>
     (sealed cfg \<and> guardian cfg \<noteq> 0 \<and> guardian cfg' \<noteq> guardian cfg \<and>
        aid = set_guardian_action_id E (guardian cfg'))"

lemma weakens_needs_ripe:
  assumes "cfg_step E S ripe ix (Some cfg) (Some cfg')" "weakens E cfg cfg' aid"
  shows "ripe aid \<and> cfg_owner cfg \<in> S"
  using assms(1)
proof cases
  case (cs_send args)
  then obtain es where "cfg' = cfg\<lparr>nonce_to := es\<rparr>" by (auto simp: bump_nonce_def res_simps)
  then show ?thesis using assms(2) by (auto simp: weakens_def)
qed (use assms(2) in \<open>auto simp: weakens_def in_setup_phase_def not_le\<close>)

text \<open>
  C5. No quorum is weakened without notice. If an instruction of a run adds a
  validator, lowers the threshold or replaces the guardian of a sealed gate, then
  the owner signed it, and an earlier instruction of the run scheduled exactly this
  action at least 48 hours and at most 48 hours and 7 days before.
\<close>

theorem weakening_is_timelocked:
  assumes "runtime_ok E pid" "apart E pid [lit ''config'']" "apart E pid [lit ''gov'', arr_bytes aid]"
    and "gate_run E pid w0 es w" "schedule_at E pid w0 aid = 0"
    and "gate_step (at_time E now) pid accs ix w = Inr w'"
    and "gate_config E pid w = Some cfg" "gate_config E pid w' = Some cfg'"
    and "weakens E cfg cfg' aid"
  shows "cfg_owner cfg \<in> signers accs \<and>
    (\<exists>t e. e \<in> set es \<and> schedule_event E aid t e \<and>
      sint t + 48 * 60 * 60 \<le> sint now \<and> sint now \<le> sint t + 48 * 60 * 60 + 7 * 24 * 60 * 60)"
proof -
  have "cfg_step (at_time E now) (signers accs) (mature (at_time E now) pid w) ix (Some cfg) (Some cfg')"
    using gate_step_cfg_step [OF assms(6)] assms(1,2,7,8) by simp
  moreover have "weakens (at_time E now) cfg cfg' aid" using assms(9) by (simp add: weakens_def)
  ultimately have r: "mature (at_time E now) pid w aid" "cfg_owner cfg \<in> signers accs"
    using weakens_needs_ripe by blast+
  have "sint GOVERNANCE_DELAY = 48 * 60 * 60" "sint GOVERNANCE_GRACE = 7 * 24 * 60 * 60"
    by (simp_all add: GOVERNANCE_DELAY_def GOVERNANCE_GRACE_def)
  then show ?thesis using mature_history [OF assms(4,1,3,5) r(1)] r(2) by simp
qed

section \<open>Demonstration\<close>

lemma demo_lower_id [simp]: "lower_threshold_action_id demo_env t = ucast t"
proof -
  have "hashv demo_env [a, b, be32 x] = ucast x" for a b x
    using demo_keccak_last [of "be32 x" "a @ b"] by (simp add: hashv_def of_be_be32)
  then have "lower_threshold_action_id demo_env t = ucast (ucast t :: u64)"
    by (simp add: lower_threshold_action_id_def)
  also have "\<dots> = ucast t" by (rule bit_word_eqI) (auto simp: bit_simps dest: bit_imp_le_length)
  finally show ?thesis .
qed

lemma demo_pda_gov: "demo_find [lit ''gov'', arr_bytes (1 :: bytes32)] 100 = (29, 255)"
  using demo_pda [of 1 "lit ''gov''"] by (simp add: demo_tag_def)

lemma ser_schedule_total: "\<exists>bs. ser_schedule s = Some bs \<and> length bs = 8"
  by (simp add: ser_schedule_def ser_word_def)

lemma demo_schedule_runs:
  "\<exists>w' d. gate_step (at_time demo_env 0) 100 [demo_info 1, demo_signer 4, demo_info 29, demo_info 0]
      (ScheduleAction (ActLowerThreshold 1)) (demo_world demo_config) = Inr w' \<and>
    deserialize de_schedule d = Some \<lparr>ready_at = 172800\<rparr> \<and> length d = 8 \<and>
    accts w' = (accts (demo_world demo_config))(29 := \<lparr>lamports = 0, acct_owner = 100, acct_data = d\<rparr>)"
proof -
  have c: "cfg_owner demo_config = 4" "threshold demo_config = 2" by (simp_all add: demo_config_def)
  have k: "accts (demo_world demo_config) 29 = \<lparr>lamports = 0, acct_owner = 0, acct_data = []\<rparr>"
    by (simp add: demo_world_def demo_accts_def)
  obtain bs where bs: "ser_schedule \<lparr>ready_at = 172800\<rparr> = Some bs" "length bs = 8"
    using ser_schedule_total by blast
  have t: "ichecked_add 0 GOVERNANCE_DELAY = Some 172800"
    by (simp add: ichecked_add_def GOVERNANCE_DELAY_def i64_min_def i64_max_def)
  have d: "deserialize de_schedule bs = Some \<lparr>ready_at = 172800\<rparr>"
    using schedc.deserialize_padded [OF bs(1), of "[]"] by simp
  show ?thesis
    unfolding demo_at_time_0
    by (intro exI [of _ "(demo_world demo_config)\<lparr>accts := (accts (demo_world demo_config))
        (29 := \<lparr>lamports = 0, acct_owner = 100, acct_data = bs\<rparr>)\<rparr>"] exI [of _ bs])
      (simp add: process_schedule_action_def demo_load c write_schedule_def demo_pda_gov k
        GOVERNANCE_LEN_def demo_create_pda t write_prefix_def bs d set_data_def word_le_nat_alt)
qed

lemma demo_lower_runs:
  assumes a: "accts w = (accts (demo_world demo_config))(29 := \<lparr>lamports = 0, acct_owner = 100, acct_data = d\<rparr>)"
    and d: "deserialize de_schedule d = Some \<lparr>ready_at = 172800\<rparr>" "length d = 8"
  shows "\<exists>w'. gate_step (at_time demo_env 172800) 100 [demo_info 1, demo_signer 4, demo_info 29]
      (SetThreshold 1) w = Inr w' \<and> gate_config demo_env 100 w' = Some (demo_config\<lparr>threshold := 1\<rparr>)"
proof -
  let ?E = "at_time demo_env 172800" and ?c = "demo_config\<lparr>threshold := 1\<rparr>"
  have c: "cfg_owner demo_config = 4" "threshold demo_config = 2" "validators demo_config = [1, 2, 3]"
    by (simp_all add: demo_config_def)
  have l0: "load_config demo_env 100 (demo_info 1) w = Inr demo_config"
    using demo_load load_config_cong [of w "demo_info 1" "demo_world demo_config"] by (simp add: a)
  then have l: "load_config ?E 100 (demo_info 1) w = Inr demo_config"
    by (simp add: load_config_def verify_config_account_def)
  obtain bs where bs: "ser_schedule \<lparr>ready_at = 0\<rparr> = Some bs" "length bs = 8"
    using ser_schedule_total by blast
  have g: "governance_consumable 172800 172800 = Inr ()"
    by (simp add: governance_consumable_iff sint_isat_add GOVERNANCE_GRACE_def i64_min_def i64_max_def)
  define w1 where "w1 = set_data (demo_info 29) bs w"
  have cg: "consume_governance ?E 100 (demo_info 29) 1 w = Inr w1"
    using d bs g
    by (simp add: consume_governance_def demo_pda_gov a GOVERNANCE_LEN_def write_prefix_def w1_def)
  obtain cb where cb: "ser_config demo_config = Some cb" using demo_ser_config by auto
  have "length cb = config_space 3 1" using length_ser_config [OF cb] by (simp add: demo_config_def)
  then have sp: "config_space 4 2 \<le> length (data_of w1 (demo_info 1))"
    by (simp add: w1_def a demo_world_def demo_accts_def cb config_space_def)
  have "config_inv ?c" "max_validators ?c = 4" "max_corridors ?c = 2"
    by (simp_all add: config_inv_def demo_config_def MAX_THRESHOLD_def)
  then obtain w' where st: "config_store ?c (demo_info 1) w1 = Inr w'"
    using config_store_room [of ?c w1 "demo_info 1"] sp by auto
  have "gate_config demo_env 100 w' = Some ?c"
    by (rule gate_config_stored [OF st]) (simp_all add: w1_def a demo_world_def demo_accts_def)
  moreover have "gate_step ?E 100 [demo_info 1, demo_signer 4, demo_info 29] (SetThreshold 1) w = Inr w'"
    using cg st
    by (simp add: process_set_threshold_def l c check_threshold_cap_def MAX_THRESHOLD_def)
  ultimately show ?thesis by blast
qed

theorem weakening_is_timelocked_witness:
  "\<exists>w w'.
    gate_run demo_env 100 (demo_world demo_config) [Executed 0 [demo_info 1, demo_signer 4, demo_info 29,
      demo_info 0] (ScheduleAction (ActLowerThreshold 1))] w \<and>
    gate_step (at_time demo_env 172800) 100 [demo_info 1, demo_signer 4, demo_info 29] (SetThreshold 1) w = Inr w' \<and>
    cfg_owner demo_config \<in> signers [demo_info 1, demo_signer 4, demo_info 29]"
proof -
  obtain w d where 1: "gate_step (at_time demo_env 0) 100 [demo_info 1, demo_signer 4, demo_info 29, demo_info 0]
      (ScheduleAction (ActLowerThreshold 1)) (demo_world demo_config) = Inr w"
    and d: "deserialize de_schedule d = Some \<lparr>ready_at = 172800\<rparr>" "length d = 8"
    and a: "accts w = (accts (demo_world demo_config))(29 := \<lparr>lamports = 0, acct_owner = 100, acct_data = d\<rparr>)"
    using demo_schedule_runs by blast
  obtain w' where 2: "gate_step (at_time demo_env 172800) 100 [demo_info 1, demo_signer 4, demo_info 29]
      (SetThreshold 1) w = Inr w'" "gate_config demo_env 100 w' = Some (demo_config\<lparr>threshold := 1\<rparr>)"
    using demo_lower_runs [OF a d] by blast
  have run: "gate_run demo_env 100 (demo_world demo_config) [Executed 0 [demo_info 1, demo_signer 4, demo_info 29,
      demo_info 0] (ScheduleAction (ActLowerThreshold 1))] w"
    using run_ix [OF run_nil 1] by simp
  have ok: "runtime_ok demo_env 100" by (rule demo_runtime_ok) simp_all
  have ap: "apart demo_env 100 [lit ''gov'', arr_bytes (1 :: bytes32)]" by (rule demo_apart) simp_all
  have z: "schedule_at demo_env 100 (demo_world demo_config) 1 = 0"
    by (simp add: schedule_at_def demo_pda_gov store_def demo_world_def demo_accts_def)
  have "load_config demo_env 100 (demo_info 1) w = Inr demo_config"
    using demo_load load_config_cong [of w "demo_info 1" "demo_world demo_config"] by (simp add: a)
  note cfg = gate_config_load [OF this]
  have wk: "weakens demo_env demo_config (demo_config\<lparr>threshold := 1\<rparr>) 1"
    by (simp add: weakens_def) (simp add: demo_config_def)
  from weakening_is_timelocked [OF ok demo_apart_config ap run z 2(1) cfg 2(2) wk] run 2(1)
  show ?thesis by blast
qed

end
