(* ===== verification/GateAssets.thy ===== *)
theory GateAssets
  imports GateTimelock
begin

text \<open>
  The asset registry of the gate program: registered assets are write-once, and every
  vault carries one mint at one bridge scale, whatever assets share it.
\<close>

lemma apart_ne: "apart E pid s \<Longrightarrow> gate_seeds s' \<Longrightarrow> s' \<noteq> s \<Longrightarrow> pda E pid s' \<noteq> pda E pid s"
  by (simp add: apart_def)

section \<open>Reading the registry\<close>

definition asset_at :: "env \<Rightarrow> pubkey \<Rightarrow> world \<Rightarrow> bytes32 \<Rightarrow> asset_config option" where
  "asset_at E pid w did =
     (case store pid w (pda E pid [lit ''asset'', arr_bytes did]) of
        None \<Rightarrow> None
      | Some d \<Rightarrow> (case decode_asset_config d of Inl _ \<Rightarrow> None | Inr a \<Rightarrow> Some a))"

definition binding_at :: "env \<Rightarrow> pubkey \<Rightarrow> world \<Rightarrow> pubkey \<Rightarrow> vault_binding option" where
  "binding_at E pid w v =
     Option.bind (store pid w (pda E pid [lit ''vault'', arr_bytes v])) (deserialize de_vault_binding)"

text \<open>The record is in the current format, not one of the first program version.\<close>

definition current_format :: "env \<Rightarrow> pubkey \<Rightarrow> world \<Rightarrow> bytes32 \<Rightarrow> bool" where
  "current_format E pid w did \<longleftrightarrow>
     (case store pid w (pda E pid [lit ''asset'', arr_bytes did]) of
        None \<Rightarrow> True | Some d \<Rightarrow> \<not> is_legacy_asset_len (length d))"

lemma registry_cong:
  "store pid w' (pda E pid [lit ''asset'', arr_bytes did]) =
     store pid w (pda E pid [lit ''asset'', arr_bytes did]) \<Longrightarrow>
   asset_at E pid w' did = asset_at E pid w did \<and> current_format E pid w' did = current_format E pid w did"
  by (simp add: asset_at_def current_format_def)

lemma binding_cong:
  "store pid w' (pda E pid [lit ''vault'', arr_bytes v]) =
     store pid w (pda E pid [lit ''vault'', arr_bytes v]) \<Longrightarrow>
   binding_at E pid w' v = binding_at E pid w v"
  by (simp add: binding_at_def)

lemma deserialize_binding_length:
  "deserialize de_vault_binding d = Some b \<Longrightarrow> VAULT_BINDING_LEN \<le> length d"
  by (auto simp: deserialize_def de_vault_binding_def de_arr_def de_word_def VAULT_BINDING_LEN_def Let_def
      split: bind_splits if_splits)

section \<open>One registration\<close>

lemma register_same:
  assumes "register_mode E pid asset_ai r w = Inr (rerun, legacy)"
    and "owner_of w asset_ai = pid" "decode_asset_config (data_of w asset_ai) = Inr a"
    and "as_mint a \<noteq> 0" "\<not> is_legacy_asset_len (length (data_of w asset_ai))"
    and "data_of w asset_ai \<noteq> []"
  shows "rerun \<and> a = r"
proof -
  have "asset_write_allowed a r = Inr (\<not> rerun)"
    using assms by (auto simp: register_mode_def legacy_asset_upgrade_allowed_def res_simps)
  then have "rerun" "as_mint a = as_mint r \<and> as_vault a = as_vault r \<and>
              as_debridge_id a = as_debridge_id r \<and>
              as_bridge_decimals a = as_bridge_decimals r \<and>
              as_local_decimals a = as_local_decimals r"
    using assms(4) by (auto simp: asset_write_allowed_def split: if_splits)
  then show ?thesis by (cases a, cases r) simp
qed

lemma register_mode_rerun:
  assumes "register_mode E pid asset_ai r w = Inr (True, legacy)"
  shows "owner_of w asset_ai = pid \<and> data_of w asset_ai \<noteq> [] \<and>
    decode_asset_config (data_of w asset_ai) = Inr r"
proof -
  obtain a where a: "owner_of w asset_ai = pid" "data_of w asset_ai \<noteq> []"
    "decode_asset_config (data_of w asset_ai) = Inr a" "asset_write_allowed a r = Inr False"
    using assms by (auto simp: register_mode_def res_simps split: if_splits)
  then have "a = r" by (cases a, cases r) (auto simp: asset_write_allowed_def split: if_splits)
  then show ?thesis using a by simp
qed

lemma bind_vault_existing:
  assumes "bind_vault E pid payer bai sys v want w = Inr w'"
    and "binding_at E pid w v = Some b" "vb_mint b \<noteq> 0"
  shows "want = b"
proof -
  obtain expected bump where f: "find_program_address E [lit ''vault'', arr_bytes v] pid = (expected, bump)"
    by fastforce
  have k: "ai_key bai = expected" using assms(1) by (auto simp: bind_vault_def f res_simps)
  then obtain d where d: "owner_of w bai = pid" "data_of w bai = d" "deserialize de_vault_binding d = Some b"
    using assms(2) f by (auto simp: binding_at_def store_def split: bind_splits if_splits)
  then have "VAULT_BINDING_LEN \<le> length (data_of w bai)" using deserialize_binding_length by blast
  then show ?thesis
    using assms(1,3) d k
    by (auto simp: bind_vault_def f res_simps vault_binding_allowed_def split: if_splits)
qed

text \<open>The storage after a registration, with the decision it took.\<close>

lemma register_asset_stores:
  assumes "process_register_asset E pid accs did bd w = Inr w'" "runtime_ok E pid"
  obtains asset_ai r rerun legacy w1 d S where
    "ai_key asset_ai = pda E pid [lit ''asset'', arr_bytes did]"
    "register_mode E pid asset_ai r w = Inr (rerun, legacy)"
    "as_debridge_id r = did" "as_bridge_decimals r = bd"
    "store pid w1 = store pid w \<or>
       (\<exists>aid d. store pid w1 = (store pid w)(pda E pid [lit ''gov'', arr_bytes (aid :: bytes32)] \<mapsto> d))"
    "\<exists>ow bai sys w2. bind_vault E pid ow bai sys (as_vault r)
       \<lparr>vb_mint = as_mint r, vb_bridge_decimals = bd\<rparr> w1 = Inr w2"
    "S = (store pid w1)(pda E pid [lit ''vault'', arr_bytes (as_vault r)] \<mapsto> d)"
    "deserialize de_vault_binding d = Some \<lparr>vb_mint = as_mint r, vb_bridge_decimals = bd\<rparr>"
    "if rerun then store pid w' = S
     else \<exists>d'. store pid w' = S(pda E pid [lit ''asset'', arr_bytes did] \<mapsto> d') \<and>
       decode_asset_config d' = Inr r \<and> ASSET_CONFIG_LEN + ASSET_CONFIG_SLACK \<le> length d'"
proof -
  from assms(1) obtain config_ai ow asset_ai mint vault tp sys bai it
    where accs: "accs = config_ai # ow # asset_ai # mint # vault # tp # sys # bai # it"
    by (rule register_asset_accs)
  from process_register_asset_success [OF assms(1) [unfolded accs]]
  obtain w1 w2 aid phase ld rerun legacy where
    k: "ai_key asset_ai = pda E pid [lit ''asset'', arr_bytes did]"
    and m: "register_mode E pid asset_ai \<lparr>as_debridge_id = did, as_mint = ai_key mint,
        as_vault = ai_key vault, as_bridge_decimals = bd, as_local_decimals = ld\<rparr> w = Inr (rerun, legacy)"
      (is "register_mode _ _ _ ?r _ = _")
    and c1: "if \<not> rerun \<and> \<not> legacy then
         (\<exists>now. clock_get E = Inr now \<and>
            (if phase now then w1 = w
             else \<exists>gov_ai its. it = gov_ai # its \<and> consume_governance E pid gov_ai aid w = Inr w1))
       else w1 = w"
    and 2: "bind_vault E pid ow bai sys (ai_key vault)
        \<lparr>vb_mint = ai_key mint, vb_bridge_decimals = bd\<rparr> w1 = Inr w2"
    and c3: "if rerun then w' = w2
       else \<exists>w3.
         (if data_of w2 asset_ai = [] then
            create_pda_account E pid ow asset_ai sys [lit ''asset'', arr_bytes did]
              (bump_of E pid [lit ''asset'', arr_bytes did]) (ASSET_CONFIG_LEN + ASSET_CONFIG_SLACK) w2 = Inr w3
          else if length (data_of w2 asset_ai) < ASSET_CONFIG_LEN + ASSET_CONFIG_SLACK then
            grow_program_account E pid ow asset_ai sys (ASSET_CONFIG_LEN + ASSET_CONFIG_SLACK) w2 = Inr w3
          else w3 = w2) \<and>
         write_zero_padded (ser_asset_config \<lparr>as_debridge_id = did, as_mint = ai_key mint,
          as_vault = ai_key vault, as_bridge_decimals = bd, as_local_decimals = ld\<rparr>) asset_ai w3 = Inr w'"
    by (elim exE conjE) (rule that)
  have w1: "w1 = w \<or> (\<exists>gov_ai. consume_governance E pid gov_ai aid w = Inr w1)"
    using c1 by (auto split: if_splits)
  have S1: "store pid w1 = store pid w \<or>
       (\<exists>aid d. store pid w1 = (store pid w)(pda E pid [lit ''gov'', arr_bytes (aid :: bytes32)] \<mapsto> d))"
    using w1 by (blast elim: store_consume)
  from 2 assms(2) obtain d where
    d: "store pid w2 = (store pid w1)(pda E pid [lit ''vault'', arr_bytes (ai_key vault)] \<mapsto> d)"
      "deserialize de_vault_binding d = Some \<lparr>vb_mint = ai_key mint, vb_bridge_decimals = bd\<rparr>"
    by (rule store_bind_vault)
  have sy: "system_rule E pid" using assms(2) by (simp add: runtime_ok_def)
  have "data_of w asset_ai \<noteq> [] \<Longrightarrow> owner_of w asset_ai = pid"
    using m by (auto simp: register_mode_def res_simps split: if_splits)
  then have "data_of w1 asset_ai \<noteq> [] \<Longrightarrow> owner_of w1 asset_ai = pid"
    using w1 keeps_nonempty_owner by blast
  then have o: "data_of w2 asset_ai \<noteq> [] \<Longrightarrow> owner_of w2 asset_ai = pid"
    using bind_vault_effect(3,4) [OF 2 sy] by metis
  have "if rerun then store pid w' = store pid w2
     else \<exists>d'. store pid w' = (store pid w2)(pda E pid [lit ''asset'', arr_bytes did] \<mapsto> d') \<and>
       decode_asset_config d' = Inr ?r \<and> ASSET_CONFIG_LEN + ASSET_CONFIG_SLACK \<le> length d'"
  proof (cases rerun)
    case False
    with c3 obtain w3 where w3: "if data_of w2 asset_ai = [] then
            create_pda_account E pid ow asset_ai sys [lit ''asset'', arr_bytes did]
              (bump_of E pid [lit ''asset'', arr_bytes did]) (ASSET_CONFIG_LEN + ASSET_CONFIG_SLACK) w2 = Inr w3
          else if length (data_of w2 asset_ai) < ASSET_CONFIG_LEN + ASSET_CONFIG_SLACK then
            grow_program_account E pid ow asset_ai sys (ASSET_CONFIG_LEN + ASSET_CONFIG_SLACK) w2 = Inr w3
          else w3 = w2" "write_zero_padded (ser_asset_config ?r) asset_ai w3 = Inr w'" by auto
    show ?thesis by (rule store_write_asset [OF w3 o assms(2)]) (use False k in auto)
  qed (use c3 in simp)
  then show ?thesis
    using that [OF k m, of w1 "store pid w2" d] S1 2 d by simp blast
qed

text \<open>
  After a registration the asset is registered as requested and its vault is bound to
  its mint and scale; a record that was there already, in the current format, is kept.
\<close>

lemma register_asset_post:
  assumes "gate_step E pid accs (RegisterAsset did bd) w = Inr w'" "runtime_ok E pid"
    and "apart E pid [lit ''asset'', arr_bytes did]"
  obtains a where "asset_at E pid w' did = Some a" "current_format E pid w did \<Longrightarrow> current_format E pid w' did"
    "as_bridge_decimals a = bd"
    "binding_at E pid w' (as_vault a) = Some \<lparr>vb_mint = as_mint a, vb_bridge_decimals = bd\<rparr>"
    "\<And>b. binding_at E pid w (as_vault a) = Some b \<Longrightarrow> vb_mint b \<noteq> 0 \<Longrightarrow>
       apart E pid [lit ''vault'', arr_bytes (as_vault a)] \<Longrightarrow> b = \<lparr>vb_mint = as_mint a, vb_bridge_decimals = bd\<rparr>"
    "\<And>v. v \<noteq> as_vault a \<Longrightarrow> apart E pid [lit ''vault'', arr_bytes v] \<Longrightarrow> binding_at E pid w' v = binding_at E pid w v"
    "\<And>a'. asset_at E pid w did = Some a' \<Longrightarrow> as_mint a' \<noteq> 0 \<Longrightarrow> current_format E pid w did \<Longrightarrow> a = a'"
proof -
  have st: "process_register_asset E pid accs did bd w = Inr w'" using assms(1) by simp
  from st assms(2) obtain asset_ai r rerun legacy w1 d S where
    k: "ai_key asset_ai = pda E pid [lit ''asset'', arr_bytes did]"
    and m: "register_mode E pid asset_ai r w = Inr (rerun, legacy)"
    and r: "as_debridge_id r = did" "as_bridge_decimals r = bd"
    and s1: "store pid w1 = store pid w \<or>
       (\<exists>aid d. store pid w1 = (store pid w)(pda E pid [lit ''gov'', arr_bytes (aid :: bytes32)] \<mapsto> d))"
    and bv: "\<exists>ow bai sys w2. bind_vault E pid ow bai sys (as_vault r)
       \<lparr>vb_mint = as_mint r, vb_bridge_decimals = bd\<rparr> w1 = Inr w2"
    and S: "S = (store pid w1)(pda E pid [lit ''vault'', arr_bytes (as_vault r)] \<mapsto> d)"
    and d: "deserialize de_vault_binding d = Some \<lparr>vb_mint = as_mint r, vb_bridge_decimals = bd\<rparr>"
    and w': "if rerun then store pid w' = S
     else \<exists>d'. store pid w' = S(pda E pid [lit ''asset'', arr_bytes did] \<mapsto> d') \<and>
       decode_asset_config d' = Inr r \<and> ASSET_CONFIG_LEN + ASSET_CONFIG_SLACK \<le> length d'"
    by (rule register_asset_stores)
  let ?A = "pda E pid [lit ''asset'', arr_bytes did]" and ?V = "\<lambda>v. pda E pid [lit ''vault'', arr_bytes (v :: pubkey)]"
  have other: "pda E pid [lit tag, arr_bytes i] \<noteq> ?A"
    if "tag \<in> {''gov'', ''vault''}" for tag and i :: bytes32
    using assms(3) gate_seedsI [of tag i] that by (auto simp: apart_def)
  have wV: "pda E pid [lit ''gov'', arr_bytes i] \<noteq> ?V v" "?A \<noteq> ?V v" "u \<noteq> v \<Longrightarrow> ?V u \<noteq> ?V v"
    if "apart E pid [lit ''vault'', arr_bytes v]" for v u and i :: bytes32
    using that gate_seedsI [of "''gov''" i] gate_seedsI [of "''asset''" did] gate_seedsI [of "''vault''" u]
    by (auto simp: apart_def)
  have gA: "store pid w1 ?A = store pid w ?A" using s1 other [of "''gov''"] by (metis fun_upd_other insertI1)
  have S_A: "S ?A = store pid w ?A" using gA other [of "''vault''" "as_vault r"] by (simp add: S)
  have gV: "store pid w1 (?V v) = store pid w (?V v)" if "apart E pid [lit ''vault'', arr_bytes v]" for v
    using s1 wV(1) [OF that] by (metis fun_upd_other)
  have legacy_len: "\<not> is_legacy_asset_len n" if "ASSET_CONFIG_LEN + ASSET_CONFIG_SLACK \<le> n" for n
    using that by (simp add: is_legacy_asset_len_def ASSET_CONFIG_LEN_def ASSET_CONFIG_SLACK_def
        LEGACY_ASSET_CONFIG_LEN_def)
  show ?thesis
  proof (rule that [of r])
    show "asset_at E pid w' did = Some r"
    proof (cases rerun)
      case True
      then have "owner_of w asset_ai = pid" "decode_asset_config (data_of w asset_ai) = Inr r"
        using register_mode_rerun [of E pid asset_ai r w legacy] m by simp_all
      then show ?thesis using True w' S_A k by (simp add: asset_at_def store_def)
    next
      case False
      then show ?thesis using w' by (auto simp: asset_at_def)
    qed
    show "current_format E pid w did \<Longrightarrow> current_format E pid w' did"
      using w' S_A legacy_len by (cases rerun) (auto simp: current_format_def)
    show "as_bridge_decimals r = bd" by (rule r(2))
    have "store pid w' (?V (as_vault r)) = Some d"
      using w' other [of "''vault''" "as_vault r"] by (auto simp: S split: if_splits)
    then show "binding_at E pid w' (as_vault r) = Some \<lparr>vb_mint = as_mint r, vb_bridge_decimals = bd\<rparr>"
      by (simp add: binding_at_def d)
    show "b = \<lparr>vb_mint = as_mint r, vb_bridge_decimals = bd\<rparr>"
      if "binding_at E pid w (as_vault r) = Some b" "vb_mint b \<noteq> 0"
        "apart E pid [lit ''vault'', arr_bytes (as_vault r)]" for b
    proof -
      have "binding_at E pid w1 (as_vault r) = Some b"
        using binding_cong [OF gV [OF that(3)]] that(1) by simp
      then show ?thesis using bv bind_vault_existing that(2) by blast
    qed
    show "binding_at E pid w' v = binding_at E pid w v"
      if "v \<noteq> as_vault r" "apart E pid [lit ''vault'', arr_bytes v]" for v
    proof (rule binding_cong)
      have "S (?V v) = store pid w (?V v)" using wV(3) [OF that(2), of "as_vault r"] that(1) gV [OF that(2)] by (simp add: S)
      then show "store pid w' (?V v) = store pid w (?V v)"
        using w' wV(2) [OF that(2)] by (auto split: if_splits)
    qed
    show "r = a'" if "asset_at E pid w did = Some a'" "as_mint a' \<noteq> 0" "current_format E pid w did" for a'
    proof -
      have o: "owner_of w asset_ai = pid" "decode_asset_config (data_of w asset_ai) = Inr a'"
        "\<not> is_legacy_asset_len (length (data_of w asset_ai))"
        using that k by (auto simp: asset_at_def current_format_def store_def split: if_splits sum.splits)
      have "data_of w asset_ai \<noteq> []"
        using o(2) by (auto simp: decode_asset_config_def LEGACY_ASSET_CONFIG_LEN_def deserialize_def
            de_asset_config_def de_arr_def res_simps)
      then show ?thesis using register_same [OF m o(1,2) that(2) o(3)] by simp
    qed
  qed
qed

section \<open>Runs\<close>

inductive_cases may_write_vaultE: "may_write E accs ix c [lit ''vault'', arr_bytes (v :: bytes32)] d"

lemma step_asset:
  assumes "gate_step E pid accs ix w = Inr w'" "runtime_ok E pid" "apart E pid [lit ''asset'', arr_bytes did]"
  shows "(\<exists>bd. ix = RegisterAsset did bd) \<or>
    asset_at E pid w' did = asset_at E pid w did \<and> current_format E pid w' did = current_format E pid w did"
  using gate_step_at [OF assms] registry_cong by (blast elim: may_write_assetE)

lemma step_binding:
  assumes "gate_step E pid accs ix w = Inr w'" "runtime_ok E pid" "apart E pid [lit ''vault'', arr_bytes v]"
  shows "(\<exists>did bd. ix = RegisterAsset did bd) \<or> binding_at E pid w' v = binding_at E pid w v"
  using gate_step_at [OF assms] binding_cong by (blast elim: may_write_vaultE)

lemma register_keeps_binding:
  assumes "process_register_asset E pid accs did bd w = Inr w'" "runtime_ok E pid"
    and "apart E pid [lit ''vault'', arr_bytes v]" "binding_at E pid w v = Some b" "vb_mint b \<noteq> 0"
  shows "binding_at E pid w' v = Some b"
proof -
  from assms(1,2) obtain r rerun w1 d S where
    s1: "store pid w1 = store pid w \<or>
       (\<exists>aid d. store pid w1 = (store pid w)(pda E pid [lit ''gov'', arr_bytes (aid :: bytes32)] \<mapsto> d))"
    and bv: "\<exists>ow bai sys w2. bind_vault E pid ow bai sys (as_vault r)
       \<lparr>vb_mint = as_mint r, vb_bridge_decimals = bd\<rparr> w1 = Inr w2"
    and S: "S = (store pid w1)(pda E pid [lit ''vault'', arr_bytes (as_vault r)] \<mapsto> d)"
    and d: "deserialize de_vault_binding d = Some \<lparr>vb_mint = as_mint r, vb_bridge_decimals = bd\<rparr>"
    and w': "if rerun then store pid w' = S
     else \<exists>d'. store pid w' = S(pda E pid [lit ''asset'', arr_bytes did] \<mapsto> d') \<and>
       decode_asset_config d' = Inr r \<and> ASSET_CONFIG_LEN + ASSET_CONFIG_SLACK \<le> length d'"
    by (rule register_asset_stores)
  let ?V = "pda E pid [lit ''vault'', arr_bytes v]"
  have ne1: "pda E pid [lit ''gov'', arr_bytes i] \<noteq> ?V" for i :: bytes32
    by (rule apart_ne [OF assms(3) gate_seedsI]) simp_all
  have ne2: "pda E pid [lit ''asset'', arr_bytes did] \<noteq> ?V"
    by (rule apart_ne [OF assms(3) gate_seedsI]) simp_all
  have ne3: "u \<noteq> v \<Longrightarrow> pda E pid [lit ''vault'', arr_bytes u] \<noteq> ?V" for u
    by (rule apart_ne [OF assms(3) gate_seedsI]) simp_all
  have "store pid w1 ?V = store pid w ?V" using s1 ne1 [symmetric] by auto
  from binding_cong [OF this] have b1: "binding_at E pid w1 v = Some b" using assms(4) by simp
  have "store pid w' ?V = S ?V" using w' ne2 by (auto split: if_splits)
  moreover have "Option.bind (S ?V) (deserialize de_vault_binding) = Some b"
  proof (cases "as_vault r = v")
    case True
    then show ?thesis using bv bind_vault_existing b1 assms(5) d by (auto simp: S)
  next
    case False
    then show ?thesis using b1 ne3 [of "as_vault r"] by (simp add: S binding_at_def)
  qed
  ultimately show ?thesis by (simp add: binding_at_def)
qed

lemma gate_seeds_registry:
  "gate_seeds [lit ''asset'', arr_bytes (i :: bytes32)]" "gate_seeds [lit ''vault'', arr_bytes (i :: bytes32)]"
  by (simp_all add: gate_seedsI)

text \<open>
  C9. A registered asset is write-once: in every run, whoever sends whatever
  instruction, an asset that is registered in the current format keeps its mint, its
  vault and both decimals for good.
\<close>

theorem asset_write_once:
  assumes "runtime_ok E pid" "apart E pid [lit ''asset'', arr_bytes did]"
    and "gate_run E pid w0 es w"
    and "asset_at E pid w0 did = Some a" "as_mint a \<noteq> 0" "current_format E pid w0 did"
  shows "asset_at E pid w did = Some a \<and> current_format E pid w did"
  using assms(3)
proof induction
  case run_nil
  then show ?case using assms(4,6) by simp
next
  case (run_ix es w now accs ix w')
  have r: "runtime_ok (at_time E now) pid" "apart (at_time E now) pid [lit ''asset'', arr_bytes did]"
    using assms(1,2) by simp_all
  have eq: "asset_at (at_time E now) = asset_at E" "current_format (at_time E now) = current_format E"
    by (simp_all add: asset_at_def current_format_def fun_eq_iff)
  show ?case
  proof (cases "\<exists>bd. ix = RegisterAsset did bd")
    case True
    then obtain bd where "gate_step (at_time E now) pid accs (RegisterAsset did bd) w = Inr w'"
      using run_ix(2) by blast
    from this r show ?thesis
      by (rule register_asset_post) (use run_ix.IH assms(5) in \<open>auto simp: eq\<close>)
  next
    case False
    then show ?thesis using step_asset [OF run_ix(2) r] run_ix.IH by (simp add: eq)
  qed
next
  case (run_foreign es w w')
  have "store pid w' (pda E pid [lit ''asset'', arr_bytes did]) = store pid w (pda E pid [lit ''asset'', arr_bytes did])"
    using run_foreign(2) gate_seeds_registry(1) unfolding foreign_step_def by blast
  from registry_cong [OF this] show ?case using run_foreign.IH by simp
qed

text \<open>The vault of a registered asset is bound to its mint and scale.\<close>

definition bound :: "env \<Rightarrow> pubkey \<Rightarrow> world \<Rightarrow> bytes32 \<Rightarrow> pubkey \<Rightarrow> bool" where
  "bound E pid w did v \<longleftrightarrow> current_format E pid w did \<and>
     (\<forall>a. asset_at E pid w did = Some a \<and> as_vault a = v \<and> as_mint a \<noteq> 0 \<longrightarrow>
        binding_at E pid w v = Some \<lparr>vb_mint = as_mint a, vb_bridge_decimals = as_bridge_decimals a\<rparr>)"

lemma step_bound:
  assumes "gate_step E pid accs ix w = Inr w'" "runtime_ok E pid"
    and "apart E pid [lit ''asset'', arr_bytes did]" "apart E pid [lit ''vault'', arr_bytes v]"
    and "bound E pid w did v"
  shows "bound E pid w' did v"
proof (cases "\<exists>bd. ix = RegisterAsset did bd")
  case True
  then obtain bd where "gate_step E pid accs (RegisterAsset did bd) w = Inr w'" using assms(1) by blast
  from this assms(2,3) show ?thesis
    by (rule register_asset_post) (use assms(5) in \<open>auto simp: bound_def\<close>)
next
  case False
  then have a: "asset_at E pid w' did = asset_at E pid w did" "current_format E pid w' did = current_format E pid w did"
    using step_asset [OF assms(1-3)] by blast+
  have "binding_at E pid w' v = Some b" if "binding_at E pid w v = Some b" "vb_mint b \<noteq> 0" for b
    using step_binding [OF assms(1,2,4)] register_keeps_binding [OF _ assms(2,4) that] assms(1) that(1) by auto
  then show ?thesis using a assms(5) by (auto simp: bound_def)
qed

lemma run_bound:
  assumes "gate_run E pid w0 es w" "runtime_ok E pid"
    and "apart E pid [lit ''asset'', arr_bytes did]" "apart E pid [lit ''vault'', arr_bytes v]"
    and "store pid w0 (pda E pid [lit ''asset'', arr_bytes did]) = None"
  shows "bound E pid w did v"
  using assms(1)
proof induction
  case run_nil
  then show ?case using assms(5) by (simp add: bound_def current_format_def asset_at_def)
next
  case (run_ix es w now accs ix w')
  have "bound (at_time E now) = bound E"
    by (simp add: bound_def asset_at_def binding_at_def current_format_def fun_eq_iff)
  then show ?case using step_bound [OF run_ix(2)] assms(2-4) run_ix.IH by simp
next
  case (run_foreign es w w')
  have "store pid w' (pda E pid [lit ''asset'', arr_bytes did]) = store pid w (pda E pid [lit ''asset'', arr_bytes did])"
    "store pid w' (pda E pid [lit ''vault'', arr_bytes v]) = store pid w (pda E pid [lit ''vault'', arr_bytes v])"
    using run_foreign(2) gate_seeds_registry(1) [of did] gate_seeds_registry(2) [of v]
    unfolding foreign_step_def by simp_all
  from registry_cong [OF this(1)] binding_cong [OF this(2)] show ?case
    using run_foreign.IH by (simp add: bound_def)
qed

text \<open>
  C10. One vault, one scale: two assets registered in a run with the same vault have
  the same mint and the same bridge decimals, so an amount locked under one id
  is worth the same when released under the other.
\<close>

theorem vault_one_scale:
  assumes "runtime_ok E pid" "gate_run E pid w0 es w"
    and "apart E pid [lit ''asset'', arr_bytes did1]" "apart E pid [lit ''asset'', arr_bytes did2]"
    and "apart E pid [lit ''vault'', arr_bytes (as_vault a1)]"
    and "store pid w0 (pda E pid [lit ''asset'', arr_bytes did1]) = None"
    and "store pid w0 (pda E pid [lit ''asset'', arr_bytes did2]) = None"
    and "asset_at E pid w did1 = Some a1" "asset_at E pid w did2 = Some a2"
    and "as_vault a2 = as_vault a1" "as_mint a1 \<noteq> 0" "as_mint a2 \<noteq> 0"
  shows "as_mint a1 = as_mint a2 \<and> as_bridge_decimals a1 = as_bridge_decimals a2"
proof -
  have 1: "binding_at E pid w (as_vault a1) =
      Some \<lparr>vb_mint = as_mint a1, vb_bridge_decimals = as_bridge_decimals a1\<rparr>"
    using run_bound [OF assms(2,1,3,5,6)] assms(8,11) unfolding bound_def by blast
  have "binding_at E pid w (as_vault a1) =
      Some \<lparr>vb_mint = as_mint a2, vb_bridge_decimals = as_bridge_decimals a2\<rparr>"
    using run_bound [OF assms(2,1,4,5,7)] assms(9,10,12) unfolding bound_def by blast
  with 1 show ?thesis by simp
qed

section \<open>Demonstration\<close>

lemma demo_asset_at: "asset_at demo_env 100 (demo_world cfg) 5 = Some demo_asset \<and> current_format demo_env 100 (demo_world cfg) 5"
proof -
  have "load_asset demo_env 100 5 (demo_info 94) (demo_world cfg) = Inr demo_asset" by (rule demo_load_asset)
  then have "owner_of (demo_world cfg) (demo_info 94) = 100"
    "decode_asset_config (data_of (demo_world cfg) (demo_info 94)) = Inr demo_asset"
    "ai_key (demo_info 94) = pda demo_env 100 [lit ''asset'', arr_bytes (5 :: bytes32)]"
    unfolding load_asset_Inr by blast+
  moreover have "length (data_of (demo_world cfg) (demo_info 94)) = 130"
  proof -
    obtain bs where "ser_asset_config demo_asset = Some bs" "length bs = 98"
      by (simp add: ser_asset_config_def demo_asset_def ser_struct_simps ser_arr_def ser_word_def)
    then show ?thesis by (simp add: demo_world_def demo_accts_def)
  qed
  ultimately show ?thesis
    by (simp add: asset_at_def current_format_def store_def is_legacy_asset_len_def LEGACY_ASSET_CONFIG_LEN_def)
qed

theorem asset_write_once_witness:
  "\<exists>w'. gate_run demo_env 100 (demo_world demo_config) [Executed 0 [demo_info 1, demo_signer 3] Pause] w' \<and>
    asset_at demo_env 100 w' 5 = Some demo_asset"
proof -
  obtain w' where c: "gate_step demo_env 100 [demo_info 1, demo_signer 3] Pause (demo_world demo_config) = Inr w'"
    using demo_pause_runs by blast
  have r: "gate_run demo_env 100 (demo_world demo_config) [Executed 0 [demo_info 1, demo_signer 3] Pause] w'"
    using run_ix [OF run_nil, of demo_env 0 100] c by (simp add: demo_at_time_0)
  have ok: "runtime_ok demo_env 100" by (rule demo_runtime_ok) simp_all
  have ap: "apart demo_env 100 [lit ''asset'', arr_bytes (5 :: bytes32)]" by (rule demo_apart) simp_all
  have "as_mint demo_asset \<noteq> 0" by (simp add: demo_asset_def)
  from asset_write_once [OF ok ap r conjunct1 [OF demo_asset_at] this conjunct2 [OF demo_asset_at]] r
  show ?thesis by blast
qed

definition demo_setup :: config where
  "demo_setup = demo_config\<lparr>sealed := False\<rparr>"

lemma demo_setup_load: "load_config demo_env 100 (demo_info 1) (demo_world demo_setup) = Inr demo_setup"
  by (rule demo_load_config) (simp add: ser_config_def demo_setup_def demo_config_def ser_arr_def
      ser_word_def ser_bool_def ser_vec_def ser_pair_def)

definition demo_asset_of :: "bytes32 \<Rightarrow> asset_config" where
  "demo_asset_of did = \<lparr>as_debridge_id = did, as_mint = 68, as_vault = 20, as_bridge_decimals = 3, as_local_decimals = 6\<rparr>"

definition demo_binding :: vault_binding where
  "demo_binding = \<lparr>vb_mint = 68, vb_bridge_decimals = 3\<rparr>"

definition demo_register_accs :: "pubkey \<Rightarrow> account_info list" where
  "demo_register_accs ka = [demo_info 1, demo_signer 4, demo_info ka, demo_info 68, demo_info 20, demo_info 200,
     demo_info 0, demo_info 335]"

lemma demo_bind:
  assumes "accts w 335 = \<lparr>lamports = 0, acct_owner = 0, acct_data = []\<rparr> \<or>
      (\<exists>d. accts w 335 = \<lparr>lamports = 0, acct_owner = 100, acct_data = d\<rparr> \<and> length d = 33 \<and>
        deserialize de_vault_binding d = Some demo_binding)"
  shows "\<exists>d. bind_vault demo_env 100 p (demo_info 335) s 20 demo_binding w =
      Inr (w\<lparr>accts := (accts w)(335 := \<lparr>lamports = 0, acct_owner = 100, acct_data = d\<rparr>)\<rparr>) \<and> length d = 33 \<and>
      deserialize de_vault_binding d = Some demo_binding"
proof -
  obtain bs where bs: "ser_vault_binding demo_binding = Some bs" "length bs = 33"
    by (simp add: ser_vault_binding_def ser_arr_def ser_word_def)
  have d: "deserialize de_vault_binding bs = Some demo_binding"
    using bindc.deserialize_padded [OF bs(1), of "[]"] by simp
  have k: "demo_find [lit ''vault'', arr_bytes (20 :: pubkey)] 100 = (335, 255)"
    using demo_pda [of 20 "lit ''vault''"] by (simp add: demo_tag_def)
  have m: "vb_mint demo_binding \<noteq> 0" by (simp add: demo_binding_def)
  have "bind_vault demo_env 100 p (demo_info 335) s 20 demo_binding w =
      Inr (w\<lparr>accts := (accts w)(335 := \<lparr>lamports = 0, acct_owner = 100, acct_data = bs\<rparr>)\<rparr>)"
    using assms
  proof
    assume "accts w 335 = \<lparr>lamports = 0, acct_owner = 0, acct_data = []\<rparr>"
    then show ?thesis
      using bs by (simp add: bind_vault_def k VAULT_BINDING_LEN_def vault_binding_allowed_def demo_create_pda
          write_prefix_def set_data_def)
  next
    assume "\<exists>d. accts w 335 = \<lparr>lamports = 0, acct_owner = 100, acct_data = d\<rparr> \<and> length d = 33 \<and>
        deserialize de_vault_binding d = Some demo_binding"
    then show ?thesis
      using bs m by (auto simp: bind_vault_def k VAULT_BINDING_LEN_def vault_binding_allowed_def
          write_prefix_def set_data_def)
  qed
  then show ?thesis using bs(2) d by blast
qed

lemma demo_register_runs:
  assumes "load_config demo_env 100 (demo_info 1) w = Inr demo_setup"
    and "demo_find [lit ''asset'', arr_bytes did] 100 = (ka, 255)"
    and "accts w ka = \<lparr>lamports = 0, acct_owner = 0, acct_data = []\<rparr>"
    and "accts w 335 = \<lparr>lamports = 0, acct_owner = 0, acct_data = []\<rparr> \<or>
      (\<exists>d. accts w 335 = \<lparr>lamports = 0, acct_owner = 100, acct_data = d\<rparr> \<and> length d = 33 \<and>
        deserialize de_vault_binding d = Some demo_binding)"
    and "accts w 68 = \<lparr>lamports = 0, acct_owner = 200, acct_data = [6]\<rparr>"
    and "accts w 20 = \<lparr>lamports = 0, acct_owner = 200, acct_data = demo_token 68 2 50000\<rparr>"
    and "ka \<noteq> 335"
  shows "\<exists>w' d db. gate_step (at_time demo_env 0) 100 (demo_register_accs ka) (RegisterAsset did 3) w = Inr w' \<and>
    accts w' = (accts w)(335 := \<lparr>lamports = 0, acct_owner = 100, acct_data = db\<rparr>,
      ka := \<lparr>lamports = 0, acct_owner = 100, acct_data = d\<rparr>) \<and>
    decode_asset_config d = Inr (demo_asset_of did) \<and> length db = 33 \<and>
    deserialize de_vault_binding db = Some demo_binding"
proof -
  have c: "cfg_owner demo_setup = 4" "\<not> sealed demo_setup" "setup_deadline demo_setup = 1000"
    by (simp_all add: demo_setup_def demo_config_def)
  have p: "in_setup_phase False 1000 0" by (simp add: in_setup_phase_def)
  have u: "bridge_unit 6 3 \<noteq> None" by (simp add: bridge_unit_def checked_sub_def checked_pow_def)
  have ck: "check_asset_accounts demo_env 100 (demo_info 68) (demo_info 20) (demo_info 200) 3 w = Inr 6"
    using assms(5,6) u
    by (simp add: check_asset_accounts_def spl_mint_and_owner_def vault_is_exclusively_controlled_def)
  have md: "register_mode demo_env 100 (demo_info ka) (demo_asset_of did) w = Inr (False, False)"
    using assms(3) by (simp add: register_mode_def)
  from demo_bind [OF assms(4), of "demo_signer 4" "demo_info 0"] obtain db where
    bv: "bind_vault demo_env 100 (demo_signer 4) (demo_info 335) (demo_info 0) 20 demo_binding w =
      Inr (w\<lparr>accts := (accts w)(335 := \<lparr>lamports = 0, acct_owner = 100, acct_data = db\<rparr>)\<rparr>)"
    and db: "length db = 33" "deserialize de_vault_binding db = Some demo_binding" by blast
  define w2 where "w2 = w\<lparr>accts := (accts w)(335 := \<lparr>lamports = 0, acct_owner = 100, acct_data = db\<rparr>)\<rparr>"
  have k2: "accts w2 ka = \<lparr>lamports = 0, acct_owner = 0, acct_data = []\<rparr>" using assms(3,7) by (simp add: w2_def)
  obtain bs where bs: "ser_asset_config (demo_asset_of did) = Some bs" "length bs = 98"
    by (simp add: ser_asset_config_def demo_asset_of_def ser_arr_def ser_word_def)
  have dec: "decode_asset_config (bs @ replicate 32 0) = Inr (demo_asset_of did)"
    unfolding decode_asset_config_def using bs(2)
    by (simp add: assetc.deserialize_padded [OF bs(1)] LEGACY_ASSET_CONFIG_LEN_def)
  have "process_register_asset demo_env 100 (demo_register_accs ka) did 3 w =
      Inr (w2\<lparr>accts := (accts w2)(ka := \<lparr>lamports = 0, acct_owner = 100, acct_data = bs @ replicate 32 0\<rparr>)\<rparr>)"
    using bs
    by (simp add: process_register_asset_def demo_register_accs_def assms(1,2) c ck
        demo_asset_of_def [symmetric] md p demo_binding_def [symmetric] bv w2_def [symmetric] k2
        demo_create_pda ASSET_CONFIG_LEN_def ASSET_CONFIG_SLACK_def write_zero_padded_def set_data_def)
  then show ?thesis
    unfolding demo_at_time_0 gate_step.simps using db dec by (auto simp: w2_def)
qed

theorem vault_one_scale_witness:
  "\<exists>w. gate_run demo_env 100 (demo_world demo_setup)
      [Executed 0 (demo_register_accs 110) (RegisterAsset 6 3), Executed 0 (demo_register_accs 126) (RegisterAsset 7 3)] w \<and>
    asset_at demo_env 100 w 6 = Some (demo_asset_of 6) \<and> asset_at demo_env 100 w 7 = Some (demo_asset_of 7) \<and>
    as_mint (demo_asset_of 6) = as_mint (demo_asset_of 7) \<and>
    as_bridge_decimals (demo_asset_of 6) = as_bridge_decimals (demo_asset_of 7)"
proof -
  have p: "demo_find [lit ''asset'', arr_bytes (6 :: bytes32)] 100 = (110, 255)"
    "demo_find [lit ''asset'', arr_bytes (7 :: bytes32)] 100 = (126, 255)"
    using demo_pda [of 6 "lit ''asset''"] demo_pda [of 7 "lit ''asset''"] by (simp_all add: demo_tag_def)
  let ?w0 = "demo_world demo_setup"
  have w0: "accts ?w0 110 = \<lparr>lamports = 0, acct_owner = 0, acct_data = []\<rparr>"
    "accts ?w0 126 = \<lparr>lamports = 0, acct_owner = 0, acct_data = []\<rparr>"
    "accts ?w0 335 = \<lparr>lamports = 0, acct_owner = 0, acct_data = []\<rparr>"
    "accts ?w0 68 = \<lparr>lamports = 0, acct_owner = 200, acct_data = [6]\<rparr>"
    "accts ?w0 20 = \<lparr>lamports = 0, acct_owner = 200, acct_data = demo_token 68 2 50000\<rparr>"
    by (simp_all add: demo_world_def demo_accts_def)
  have ne: "(110 :: pubkey) \<noteq> 335" "(126 :: pubkey) \<noteq> 335" by simp_all
  obtain w1 d1 b1 where 1: "gate_step (at_time demo_env 0) 100 (demo_register_accs 110) (RegisterAsset 6 3) ?w0 = Inr w1"
    and a1: "accts w1 = (accts ?w0)(335 := \<lparr>lamports = 0, acct_owner = 100, acct_data = b1\<rparr>,
      110 := \<lparr>lamports = 0, acct_owner = 100, acct_data = d1\<rparr>)"
    and d1: "decode_asset_config d1 = Inr (demo_asset_of 6)"
    and b1: "length b1 = 33" "deserialize de_vault_binding b1 = Some demo_binding"
    using demo_register_runs [OF demo_setup_load p(1) w0(1) disjI1 [OF w0(3)] w0(4,5) ne(1)] by blast
  have l: "load_config demo_env 100 (demo_info 1) w1 = Inr demo_setup"
    using demo_setup_load load_config_cong [of w1 "demo_info 1" ?w0] by (simp add: a1)
  have w1: "accts w1 126 = \<lparr>lamports = 0, acct_owner = 0, acct_data = []\<rparr>"
    "accts w1 335 = \<lparr>lamports = 0, acct_owner = 0, acct_data = []\<rparr> \<or>
      (\<exists>d. accts w1 335 = \<lparr>lamports = 0, acct_owner = 100, acct_data = d\<rparr> \<and> length d = 33 \<and>
        deserialize de_vault_binding d = Some demo_binding)"
    "accts w1 68 = \<lparr>lamports = 0, acct_owner = 200, acct_data = [6]\<rparr>"
    "accts w1 20 = \<lparr>lamports = 0, acct_owner = 200, acct_data = demo_token 68 2 50000\<rparr>"
    using w0 b1 by (simp_all add: a1)
  obtain w d2 b2 where 2: "gate_step (at_time demo_env 0) 100 (demo_register_accs 126) (RegisterAsset 7 3) w1 = Inr w"
    and a2: "accts w = (accts w1)(335 := \<lparr>lamports = 0, acct_owner = 100, acct_data = b2\<rparr>,
      126 := \<lparr>lamports = 0, acct_owner = 100, acct_data = d2\<rparr>)"
    and d2: "decode_asset_config d2 = Inr (demo_asset_of 7)"
    using demo_register_runs [OF l p(2) w1 ne(2)] by blast
  have run: "gate_run demo_env 100 ?w0 [Executed 0 (demo_register_accs 110) (RegisterAsset 6 3),
      Executed 0 (demo_register_accs 126) (RegisterAsset 7 3)] w"
    using run_ix [OF run_ix [OF run_nil 1] 2] by simp
  have s: "asset_at demo_env 100 w 6 = Some (demo_asset_of 6)" "asset_at demo_env 100 w 7 = Some (demo_asset_of 7)"
    using d1 d2 by (simp_all add: asset_at_def p store_def a2 a1)
  have ok: "runtime_ok demo_env 100" by (rule demo_runtime_ok) simp_all
  have ap: "apart demo_env 100 [lit ''asset'', arr_bytes (6 :: bytes32)]"
    "apart demo_env 100 [lit ''asset'', arr_bytes (7 :: bytes32)]"
    "apart demo_env 100 [lit ''vault'', arr_bytes (as_vault (demo_asset_of 6))]"
    by (rule demo_apart; simp add: demo_asset_of_def)+
  have no: "store 100 ?w0 (pda demo_env 100 [lit ''asset'', arr_bytes (6 :: bytes32)]) = None"
    "store 100 ?w0 (pda demo_env 100 [lit ''asset'', arr_bytes (7 :: bytes32)]) = None"
    using w0 by (simp_all add: p store_def)
  have v: "as_vault (demo_asset_of 7) = as_vault (demo_asset_of 6)" "as_mint (demo_asset_of 6) \<noteq> 0"
    "as_mint (demo_asset_of 7) \<noteq> 0" by (simp_all add: demo_asset_of_def)
  from vault_one_scale [OF ok run ap no s v] run s show ?thesis by blast
qed

end
