(* ===== verification/GateWire.thy ===== *)
theory GateWire
  imports GateAssets
begin

text \<open>
  Amounts, identifiers, instructions, quorums and error paths of the gate program.
\<close>

section \<open>Amounts\<close>

text \<open>
  Conversion between local and bridge amounts loses nothing: an amount is sent as
  a wire amount exactly when that wire amount is paid out as the same local amount.
\<close>

theorem wire_local_inverse: "to_wire a n = Inr x \<longleftrightarrow> to_local a x = Inr n"
proof (cases "bridge_unit (as_local_decimals a) (as_bridge_decimals a)")
  case None
  then show ?thesis by (simp add: to_wire_def to_local_def asset_unit_def)
next
  case (Some u)
  have pos: "0 < unat u" using bridge_unit_pos [OF Some] .
  have w: "to_wire a n = Inr x \<longleftrightarrow> n mod u = 0 \<and> n div u = x"
    unfolding to_wire_def asset_unit_def Some ok_or_simps bind_res_eq_Inr if_Inl_eq_Inr by simp
  have l: "to_local a x = Inr n \<longleftrightarrow> unat x * unat u < 2 ^ 64 \<and> x * u = n"
    by (simp add: to_local_def asset_unit_def Some checked_mul_def res_simps)
  show ?thesis
  proof
    assume "to_wire a n = Inr x"
    then have x: "unat x = unat n div unat u" "unat n mod unat u = 0"
      using w by (auto simp: unat_div simp flip: unat_mod)
    then have e: "unat x * unat u = unat n" by (metis mod_0_imp_dvd dvd_div_mult_self)
    then have "unat (x * u) = unat n"
      using unsigned_less [of n, where 'a = nat] by (simp add: unat_word_ariths)
    then have "x * u = n" by (simp add: word_unat_eq_iff)
    then show "to_local a x = Inr n" using l e unsigned_less [of n, where 'a = nat] by simp
  next
    assume "to_local a x = Inr n"
    then have b: "unat x * unat u < 2 ^ 64" and n: "n = x * u" using l by auto
    then have e: "unat n = unat x * unat u" by (simp add: unat_word_ariths)
    have "unat (n mod u) = 0" "unat (n div u) = unat x" using e pos by (simp_all add: unat_mod unat_div)
    then have "n mod u = 0" "n div u = x" by (metis unat_eq_zero, metis word_unat_eq_iff)
    then show "to_wire a n = Inr x" by (rule w [THEN iffD2, OF conjI])
  qed
qed

text \<open>
  Upgrading a record of the first program version in place does not change what
  amounts mean: before and after the permitted upgrade every local amount has the same
  wire amount and every wire amount the same payout.
\<close>

theorem legacy_upgrade_keeps_amounts:
  assumes "legacy_asset_upgrade_allowed len existing incoming"
  shows "to_wire existing n = to_wire incoming n \<and> to_local existing n = to_local incoming n"
proof -
  have "bridge_unit d d = Some 1" for d
    by (simp add: bridge_unit_def checked_sub_def checked_pow_def)
  then have "asset_unit existing = Inr 1" "asset_unit incoming = Inr 1"
    using assms by (simp_all add: asset_unit_def legacy_asset_upgrade_allowed_def)
  then show ?thesis by (simp add: to_wire_def to_local_def)
qed

theorem legacy_upgrade_keeps_amounts_witness:
  "legacy_asset_upgrade_allowed 96 (demo_asset\<lparr>as_bridge_decimals := 0, as_local_decimals := 0\<rparr>)
     (demo_asset\<lparr>as_bridge_decimals := 6\<rparr>) \<and>
   to_wire (demo_asset\<lparr>as_bridge_decimals := 0, as_local_decimals := 0\<rparr>) 7 =
     to_wire (demo_asset\<lparr>as_bridge_decimals := 6\<rparr>) 7"
proof -
  have "legacy_asset_upgrade_allowed 96 (demo_asset\<lparr>as_bridge_decimals := 0, as_local_decimals := 0\<rparr>)
     (demo_asset\<lparr>as_bridge_decimals := 6\<rparr>)"
    by (simp add: legacy_asset_upgrade_allowed_def is_legacy_asset_len_def LEGACY_ASSET_CONFIG_LEN_def demo_asset_def)
  from legacy_upgrade_keeps_amounts [OF this, of 7] this show ?thesis by blast
qed

section \<open>Identifiers\<close>

text \<open>
  C11. A submission id pins down its transfer. For two transfers with receivers of 20
  or 32 bytes, as the send handler requires, and a hash without a collision among the
  strings the two transfers hash, the ids are equal exactly when domain, asset, scale,
  amount, source and destination chain, nonce, receiver and execution parameters agree
  and, where there are execution parameters, the sender. A plain transfer does not hash
  its sender: two plain transfers that differ in nothing else have the same id.
\<close>

theorem submission_id_injective:
  assumes "receiver_width_ok r" "receiver_width_ok r'"
    and "inj_on (keccak E) (id_inputs E dmn did bd amt cf ct nonce r auto ns \<union>
      id_inputs E dmn' did' bd' amt' cf' ct' nonce' r' auto' ns')"
  shows "submission_id E dmn did bd amt cf ct nonce r auto ns =
      submission_id E dmn' did' bd' amt' cf' ct' nonce' r' auto' ns' \<longleftrightarrow>
    dmn = dmn' \<and> did = did' \<and> bd = bd' \<and> amt = amt' \<and> cf = cf' \<and> ct = ct' \<and>
    nonce = nonce' \<and> r = r' \<and> auto = auto' \<and> (auto = None \<or> ns = ns')"
proof
  assume "submission_id E dmn did bd amt cf ct nonce r auto ns =
      submission_id E dmn' did' bd' amt' cf' ct' nonce' r' auto' ns'"
  from submission_id_inject [OF this assms]
  show "dmn = dmn' \<and> did = did' \<and> bd = bd' \<and> amt = amt' \<and> cf = cf' \<and> ct = ct' \<and>
    nonce = nonce' \<and> r = r' \<and> auto = auto' \<and> (auto = None \<or> ns = ns')" by blast
qed (auto simp: submission_id_def submission_parts_def)

text \<open>Two transfers with nonces 5 and 6, and two plain transfers of different senders.\<close>

theorem submission_id_injective_witness:
  "submission_id demo_env 1 5 3 10 9 7 5 (arr_bytes (52 :: pubkey)) None [] \<noteq>
     submission_id demo_env 1 5 3 10 9 7 6 (arr_bytes (52 :: pubkey)) None [] \<and>
   submission_id demo_env 1 5 3 10 9 7 5 (arr_bytes (52 :: pubkey)) None [1] =
     submission_id demo_env 1 5 3 10 9 7 5 (arr_bytes (52 :: pubkey)) None [2]"
proof -
  let ?p = "\<lambda>n ns. concat (submission_parts demo_env 1 5 3 10 9 7 n (arr_bytes (52 :: pubkey)) None ns)"
  have w: "receiver_width_ok (arr_bytes (52 :: pubkey))" by (simp add: receiver_width_ok_def)
  have p: "demo_keccak (?p n ns) = ucast n" for n ns
    using demo_sid [of 1 5 3 10 9 7 n "arr_bytes (52 :: pubkey)" ns]
    by (simp add: submission_id_def hashv_def)
  have i: "id_inputs demo_env 1 5 3 10 9 7 n (arr_bytes (52 :: pubkey)) None ns = {?p n ns}" for n ns
    by (simp add: id_inputs_def auto_inputs_def)
  have "inj_on (keccak demo_env) (id_inputs demo_env 1 5 3 10 9 7 5 (arr_bytes (52 :: pubkey)) None [] \<union>
      id_inputs demo_env 1 5 3 10 9 7 6 (arr_bytes (52 :: pubkey)) None [])"
    using p [of 5 "[]"] p [of 6 "[]"] unfolding i by (auto simp: inj_on_def simp del: concat.simps)
  from submission_id_injective [OF w w this]
  have 1: "submission_id demo_env 1 5 3 10 9 7 5 (arr_bytes (52 :: pubkey)) None [] \<noteq>
     submission_id demo_env 1 5 3 10 9 7 6 (arr_bytes (52 :: pubkey)) None []" by simp
  have "?p 5 [1] = ?p 5 [2]" by (simp add: submission_parts_def)
  then have "inj_on (keccak demo_env) (id_inputs demo_env 1 5 3 10 9 7 5 (arr_bytes (52 :: pubkey)) None [1] \<union>
      id_inputs demo_env 1 5 3 10 9 7 5 (arr_bytes (52 :: pubkey)) None [2])"
    unfolding i by (simp add: inj_on_def del: concat.simps)
  from submission_id_injective [OF w w this] 1 show ?thesis by blast
qed

text \<open>
  The three signature domains are disjoint: without a hash collision among the
  strings involved, no signature for a claim can be used for a cancel or a refund, and
  none for a cancel as one for a refund.
\<close>

theorem signature_domains_disjoint:
  assumes "inj_on (keccak E)
      {concat (submission_parts E dmn did bd amt cf ct nonce r auto ns),
       concat [be32 CANCEL_PREFIX, arr_bytes x], concat [be32 REFUND_PREFIX, arr_bytes y]}"
  shows "submission_id E dmn did bd amt cf ct nonce r auto ns \<noteq> cancel_id E x \<and>
    submission_id E dmn did bd amt cf ct nonce r auto ns \<noteq> refund_id E y \<and>
    cancel_id E x \<noteq> refund_id E y"
proof -
  note inj = inj_onD [OF assms]
  have "submission_id E dmn did bd amt cf ct nonce r auto ns \<noteq> cancel_id E x"
    using inj [of "concat (submission_parts E dmn did bd amt cf ct nonce r auto ns)"
        "concat [be32 CANCEL_PREFIX, arr_bytes x]"] submission_preimage_not_cancel
    unfolding submission_id_def cancel_id_def hashv_def by blast
  moreover have "submission_id E dmn did bd amt cf ct nonce r auto ns \<noteq> refund_id E y"
    using inj [of "concat (submission_parts E dmn did bd amt cf ct nonce r auto ns)"
        "concat [be32 REFUND_PREFIX, arr_bytes y]"] submission_preimage_not_refund
    unfolding submission_id_def refund_id_def hashv_def by blast
  moreover have "cancel_id E x \<noteq> refund_id E y"
    using inj [of "concat [be32 CANCEL_PREFIX, arr_bytes x]" "concat [be32 REFUND_PREFIX, arr_bytes y]"]
      cancel_preimage_not_refund
    unfolding cancel_id_def refund_id_def hashv_def by blast
  ultimately show ?thesis by blast
qed

theorem signature_domains_disjoint_witness:
  "submission_id demo_env 1 5 3 10 9 7 5 [] None [] \<noteq> cancel_id demo_env 8"
proof -
  let ?p = "concat (submission_parts demo_env 1 5 3 10 9 7 5 [] None [])"
  have p: "demo_keccak ?p = 5" using demo_sid [of 1 5 3 10 9 7 5 "[]" "[]"]
    by (simp add: submission_id_def hashv_def)
  have c: "demo_keccak (concat [be32 CANCEL_PREFIX, arr_bytes (8 :: bytes32)]) = 8"
    "demo_keccak (concat [be32 REFUND_PREFIX, arr_bytes (9 :: bytes32)]) = 9"
    by (simp_all add: demo_keccak_last of_be_arr_bytes)
  have "inj_on (keccak demo_env) {?p, concat [be32 CANCEL_PREFIX, arr_bytes (8 :: bytes32)],
      concat [be32 REFUND_PREFIX, arr_bytes (9 :: bytes32)]}"
    using p c by (auto simp: inj_on_def simp del: concat.simps)
  from signature_domains_disjoint [OF this] show ?thesis by blast
qed

section \<open>Instructions\<close>

text \<open>
  C12. The instruction encoding round-trips through the entry point. Every encoded
  instruction opens with the index of its constructor, the entry point hands exactly
  the encoded arguments to the handler the table below names for that constructor, and
  refuses the same bytes with any byte appended.
\<close>

theorem instruction_roundtrip:
  assumes "ser_instruction ix = Some bs"
  shows "process_instruction E pid accs (bs @ extra) w =
    (if extra \<noteq> [] then Inl InvalidInstructionData
     else case ix of
       Init args \<Rightarrow> process_init E pid accs args w
     | Send args \<Rightarrow> process_send E pid accs args w
     | Claim args \<Rightarrow> process_claim E pid accs args w
     | SetValidator v active \<Rightarrow> process_set_validator E pid accs v active w
     | SetThreshold t \<Rightarrow> process_set_threshold E pid accs t w
     | RegisterAsset did bd \<Rightarrow> process_register_asset E pid accs did bd w
     | RegisterCorridor c \<Rightarrow> process_register_corridor E pid accs c w
     | Pause \<Rightarrow> process_set_paused E pid accs True w
     | Unpause \<Rightarrow> process_set_paused E pid accs False w
     | SetGuardian g \<Rightarrow> process_set_guardian E pid accs g w
     | Cancel args \<Rightarrow> process_cancel E pid accs args w
     | Refund args \<Rightarrow> process_refund E pid accs args w
     | ScheduleGovernance i \<Rightarrow> Inl (gate_err UseTypedSchedule)
     | ScheduleAction act \<Rightarrow> process_schedule_action E pid accs act w
     | CancelScheduledGovernance i \<Rightarrow> process_cancel_scheduled_governance E pid accs i w
     | Seal \<Rightarrow> process_seal E pid accs w) \<and>
    bs \<noteq> [] \<and>
    hd bs = (case ix of Init _ \<Rightarrow> 0 | Send _ \<Rightarrow> 1 | Claim _ \<Rightarrow> 2 | SetValidator _ _ \<Rightarrow> 3 | SetThreshold _ \<Rightarrow> 4
      | RegisterAsset _ _ \<Rightarrow> 5 | RegisterCorridor _ \<Rightarrow> 6 | Pause \<Rightarrow> 7 | Unpause \<Rightarrow> 8 | SetGuardian _ \<Rightarrow> 9
      | Cancel _ \<Rightarrow> 10 | Refund _ \<Rightarrow> 11 | ScheduleGovernance _ \<Rightarrow> 12 | CancelScheduledGovernance _ \<Rightarrow> 13
      | Seal \<Rightarrow> 14 | ScheduleAction _ \<Rightarrow> 15)"
proof (intro conjI)
  show "bs \<noteq> []" using assms by (cases ix) (auto simp: ser_struct_simps simp del: ser_seq.simps(2))
  show "hd bs = (case ix of Init _ \<Rightarrow> 0 | Send _ \<Rightarrow> 1 | Claim _ \<Rightarrow> 2 | SetValidator _ _ \<Rightarrow> 3 | SetThreshold _ \<Rightarrow> 4
      | RegisterAsset _ _ \<Rightarrow> 5 | RegisterCorridor _ \<Rightarrow> 6 | Pause \<Rightarrow> 7 | Unpause \<Rightarrow> 8 | SetGuardian _ \<Rightarrow> 9
      | Cancel _ \<Rightarrow> 10 | Refund _ \<Rightarrow> 11 | ScheduleGovernance _ \<Rightarrow> 12 | CancelScheduledGovernance _ \<Rightarrow> 13
      | Seal \<Rightarrow> 14 | ScheduleAction _ \<Rightarrow> 15)"
    using assms by (cases ix) (auto simp: ser_struct_simps simp del: ser_seq.simps(2))
qed (use instrc.try_from_slice_ser [OF assms] instrc.de_ser [OF assms, of extra] in
  \<open>cases extra; cases ix; simp add: process_instruction_def try_from_slice_def\<close>)

theorem instruction_roundtrip_witness:
  "\<exists>bs. ser_instruction (SetThreshold 3) = Some bs \<and> hd bs = 4 \<and>
    process_instruction demo_env 100 [] (bs @ []) (demo_world demo_config) =
      process_set_threshold demo_env 100 [] 3 (demo_world demo_config)"
proof -
  obtain bs where bs: "ser_instruction (SetThreshold 3) = Some bs" by (simp add: ser_word_def)
  from instruction_roundtrip [OF bs, of demo_env 100 "[]" "[]" "demo_world demo_config"] bs show ?thesis by simp
qed

section \<open>Quorums\<close>

text \<open>
  Signature verification is sound and complete. An accepted list of signatures
  contains signatures of at least threshold many distinct validators over the digest of
  the id; and every list that carries, in strictly ascending order of their addresses,
  signatures of threshold many validators and of nobody else is accepted.
\<close>

theorem verify_threshold_correct:
  assumes "length (validators cfg) < 2 ^ 32"
  shows "(verify_threshold E cfg i sigs = Inr () \<longrightarrow> quorum E cfg i sigs) \<and>
    (\<forall>signers. map (recover_evm_address E (eth_signed_digest E i)) sigs = map Inr signers \<and>
       sorted_wrt (<) signers \<and> 0 \<notin> set signers \<and> set signers \<subseteq> set (validators cfg) \<and>
       unat (threshold cfg) \<le> length signers \<longrightarrow> verify_threshold E cfg i sigs = Inr ())"
  using verify_threshold_quorum [OF assms] verify_threshold_complete [OF assms] by blast

theorem verify_threshold_correct_witness:
  "verify_threshold demo_env demo_config 8 [demo_sig 1, demo_sig 2] = Inr () \<and>
   quorum demo_env demo_config 8 [demo_sig 1, demo_sig 2]"
proof -
  have "length (validators demo_config) < 2 ^ 32" by (simp add: demo_config_def)
  from verify_threshold_correct [OF this, of demo_env 8 "[demo_sig 1, demo_sig 2]"] demo_verify
  show ?thesis by blast
qed

section \<open>Authority and pause\<close>

definition owner_instruction :: "gate_instruction \<Rightarrow> bool" where
  "owner_instruction ix \<longleftrightarrow>
     (case ix of SetValidator _ _ \<Rightarrow> True | SetThreshold _ \<Rightarrow> True | RegisterAsset _ _ \<Rightarrow> True
      | RegisterCorridor _ \<Rightarrow> True | Unpause \<Rightarrow> True | SetGuardian _ \<Rightarrow> True | Seal \<Rightarrow> True
      | ScheduleAction _ \<Rightarrow> True | _ \<Rightarrow> False)"

lemma register_asset_owner:
  assumes "process_register_asset E pid accs did bd w = Inr w'" "gate_config E pid w = Some cfg"
  shows "cfg_owner cfg \<in> signers accs"
proof -
  from assms(1) obtain config_ai ow asset_ai mint vault tp sys bai it
    where accs: "accs = config_ai # ow # asset_ai # mint # vault # tp # sys # bai # it"
    by (rule register_asset_accs)
  from process_register_asset_success [OF assms(1) [unfolded accs]] obtain cfg' where
    c: "load_config E pid config_ai w = Inr cfg'" and o: "ai_key ow = cfg_owner cfg'" "is_signer ow"
    by (elim exE conjE) (rule that)
  have "cfg' = cfg" using gate_config_load [OF c] assms(2) by simp
  then show ?thesis using signersI [of ow accs] o by (simp add: accs)
qed

lemma owner_step:
  assumes "gate_step E pid accs ix w = Inr w'" "gate_config E pid w = Some cfg" "owner_instruction ix"
  shows "cfg_owner cfg \<in> signers accs"
proof -
  have *: "cfg_owner cfg \<in> signers accs"
    if "accs = x # ow # rest" "load_config E pid ai w = Inr cfg'" "ai_key ow = cfg_owner cfg'" "is_signer ow"
    for x ow rest ai cfg'
  proof -
    have "cfg' = cfg" using gate_config_load [OF that(2)] assms(2) by simp
    then show ?thesis using signersI [of ow accs] that by simp
  qed
  show ?thesis
  proof (cases ix)
    case (SetValidator v a)
    then have "process_set_validator E pid accs v a w = Inr w'" using assms(1) by simp
    from process_set_validator_success [OF this] show ?thesis by (elim exE conjE) (rule *)
  next
    case (SetThreshold t)
    then have "process_set_threshold E pid accs t w = Inr w'" using assms(1) by simp
    from process_set_threshold_success [OF this] show ?thesis by (elim exE conjE) (rule *)
  next
    case (RegisterAsset did bd)
    then show ?thesis using assms(1,2) register_asset_owner by simp
  next
    case (RegisterCorridor c)
    then have "process_register_corridor E pid accs c w = Inr w'" using assms(1) by simp
    from process_register_corridor_success [OF this] show ?thesis by (elim exE conjE) (rule *)
  next
    case Unpause
    then have "process_set_paused E pid accs False w = Inr w'" using assms(1) by simp
    from process_set_paused_success [OF this] show ?thesis
      unfolding authorized_to_set_paused_def if_False by (elim exE conjE) (rule *)
  next
    case (SetGuardian g)
    then have "process_set_guardian E pid accs g w = Inr w'" using assms(1) by simp
    from process_set_guardian_success [OF this] show ?thesis by (elim exE conjE) (rule *)
  next
    case Seal
    then have "process_seal E pid accs w = Inr w'" using assms(1) by simp
    from process_seal_success [OF this] show ?thesis by (elim exE conjE) (rule *)
  next
    case (ScheduleAction a)
    then have "process_schedule_action E pid accs a w = Inr w'" using assms(1) by simp
    from process_schedule_action_success [OF this] show ?thesis by (elim exE conjE) (rule *)
  qed (use assms(3) in \<open>simp_all add: owner_instruction_def\<close>)
qed

text \<open>
  The owner's instructions need the owner's signature: without it, changing the
  validator set, the threshold, the guardian, the asset registry or the corridors,
  unpausing, sealing and scheduling all fail, whatever accounts are passed.
\<close>

theorem owner_must_sign:
  assumes "gate_config E pid w = Some cfg" "cfg_owner cfg \<notin> signers accs" "owner_instruction ix"
  shows "\<exists>e. gate_step E pid accs ix w = Inl e"
  using owner_step [OF _ assms(1,3)] assms(2) by (cases "gate_step E pid accs ix w") auto

theorem owner_must_sign_witness:
  "\<exists>e. gate_step demo_env 100 [demo_info 1, demo_signer 3] Unpause (demo_world demo_config) = Inl e"
proof -
  have "cfg_owner demo_config \<notin> signers [demo_info 1, demo_signer 3]"
    by (simp add: demo_config_def signers_def)
  then show ?thesis
    by (rule owner_must_sign [OF gate_config_load [OF demo_load]]) (simp add: owner_instruction_def)
qed

text \<open>
  A paused gate moves nothing out and takes nothing in: claims, cancels and
  well-formed sends are refused with the pause error, whatever they carry.
\<close>

theorem paused_gate_refuses:
  assumes "load_config E pid config_ai w = Inr cfg" "paused cfg"
    and "sa_amount sargs \<noteq> 0" "receiver_width_ok (sa_receiver sargs)"
  shows "process_claim E pid (config_ai # a2 # a3 # a4 # a5 # a6 # a7 # a8 # a9 # rest) cargs w = Inl (gate_err GatePaused) \<and>
    process_cancel E pid (config_ai # a2 # a3 # a4 # rest) xargs w = Inl (gate_err GatePaused) \<and>
    process_send E pid (config_ai # a2 # a3 # a4 # a5 # a6 # a7 # a8 # rest) sargs w = Inl (gate_err GatePaused)"
  using assms
  by (auto simp: process_claim_def process_cancel_def process_send_def receiver_width_ok_def)

theorem paused_gate_refuses_witness:
  "process_send demo_env 100 [demo_info 1, demo_info 94, demo_signer 4, demo_info 36, demo_info 20,
     demo_info 200, demo_info 12, demo_info 0] demo_send (demo_world (demo_config\<lparr>paused := True\<rparr>)) =
   Inl (gate_err GatePaused)"
proof -
  have "ser_config (demo_config\<lparr>paused := True\<rparr>) \<noteq> None"
    by (simp add: ser_config_def demo_config_def ser_arr_def ser_word_def ser_bool_def ser_vec_def ser_pair_def)
  note l = demo_load_config [OF this]
  have "paused (demo_config\<lparr>paused := True\<rparr>)" "sa_amount demo_send \<noteq> 0" "receiver_width_ok (sa_receiver demo_send)"
    by (simp_all add: demo_send_def receiver_width_ok_def)
  from paused_gate_refuses [OF l this] show ?thesis by blast
qed

end
