(* ===== verification/SwapMath.thy ===== *)
theory SwapMath
  imports GateCodec
begin

text \<open>
  The pricing of the swap pool (\<open>crates/swap-math/src/lib.rs\<close>): the 256-bit
  multiply-and-divide, the output of a swap with its rounding, and the accounts of
  the pool with their Borsh encodings and the staleness rule. The operations on
  machine words are related to exact arithmetic on natural numbers, from which the
  economic properties follow.
\<close>

section \<open>Arithmetic\<close>

type_synonym u256 = "256 word"

definition PRICE_ONE :: u128 where "PRICE_ONE = 1000000000000000000"
definition BPS_DENOM :: u16 where "BPS_DENOM = 10000"
definition MAX_FEE_BPS :: u16 where "MAX_FEE_BPS = 1000"
definition DEFAULT_MAX_PRICE_AGE :: i64 where "DEFAULT_MAX_PRICE_AGE = 86400"

text \<open>
  The product of the quotient and the divisor in the rounding test never exceeds
  the dividend, so it does not overflow.
\<close>

definition mul_div :: "u128 \<Rightarrow> u128 \<Rightarrow> u128 \<Rightarrow> bool \<Rightarrow> u128 option" where
  "mul_div a b d ceil =
     (if d = 0 then None
      else do {
        n \<leftarrow> checked_mul (ucast a :: u256) (ucast b);
        let dd = (ucast d :: u256);
        let q = n div dd;
        q \<leftarrow> (if ceil \<and> q * dd \<noteq> n then checked_add q 1 else Some q);
        if q > ucast (- 1 :: u128) then None else Some (ucast q) })"

definition mul_div_floor :: "u128 \<Rightarrow> u128 \<Rightarrow> u128 \<Rightarrow> u128 option" where
  "mul_div_floor a b d = mul_div a b d False"

definition mul_div_ceil :: "u128 \<Rightarrow> u128 \<Rightarrow> u128 \<Rightarrow> u128 option" where
  "mul_div_ceil a b d = mul_div a b d True"

definition pow10 :: "u8 \<Rightarrow> u128 option" where
  "pow10 dec = (if dec > 38 then None else checked_pow 10 (unat dec))"

definition amount_out :: "u64 \<Rightarrow> u128 \<Rightarrow> u8 \<Rightarrow> u128 \<Rightarrow> u8 \<Rightarrow> u16 \<Rightarrow> u64 option" where
  "amount_out amount_in price_in dec_in price_out dec_out fee_bps =
     (if price_in = 0 \<or> price_out = 0 then None
      else do {
        unit_in \<leftarrow> pow10 dec_in;
        usd \<leftarrow> mul_div_floor (ucast amount_in) price_in unit_in;
        usd \<leftarrow> (if fee_bps \<noteq> 0 then do {
                   fee \<leftarrow> mul_div_ceil usd (ucast fee_bps) (ucast BPS_DENOM);
                   checked_sub usd fee }
                else Some usd);
        unit_out \<leftarrow> pow10 dec_out;
        out \<leftarrow> mul_div_floor usd unit_out price_out;
        if out > ucast (- 1 :: u64) then None else Some (ucast out) })"

definition usd_value :: "u64 \<Rightarrow> u128 \<Rightarrow> u8 \<Rightarrow> u128 option" where
  "usd_value amount price dec = do {
     unit_in \<leftarrow> pow10 dec;
     mul_div_floor (ucast amount) price unit_in }"

section \<open>Accounts\<close>

record pool_state =
  ps_owner :: pubkey
  ps_oracle :: pubkey
  ps_guardian :: pubkey
  ps_hub_mint :: pubkey
  ps_fee_bps :: u16
  ps_max_price_deviation_bps :: u16
  ps_min_price_update_interval :: i64
  ps_paused :: bool
  ps_max_price_age :: i64

record token_state =
  ts_mint :: pubkey
  ts_vault :: pubkey
  ts_decimals :: u8
  ts_price :: u128
  ts_reserve :: u64
  ts_last_price_update :: i64
  ts_listed :: bool
  ts_price_set_at :: i64

record swapped_event =
  se_version :: u8
  se_sender :: pubkey
  se_mint_in :: pubkey
  se_mint_out :: pubkey
  se_amount_in :: u64
  se_amount_out :: u64
  se_to :: pubkey

definition effective_max_price_age :: "pool_state \<Rightarrow> i64" where
  "effective_max_price_age p =
     (if sint (ps_max_price_age p) > 0 then ps_max_price_age p else DEFAULT_MAX_PRICE_AGE)"

definition price_is_fresh :: "pool_state \<Rightarrow> token_state \<Rightarrow> i64 \<Rightarrow> bool" where
  "price_is_fresh p t now =
     (if ts_mint t = ps_hub_mint p then True
      else sint (isat_sub now (ts_price_set_at t)) \<le> sint (effective_max_price_age p))"

definition POOL_SPACE :: nat where "POOL_SPACE = 32 * 4 + 2 + 2 + 8 + 1 + 32"
definition TOKEN_SPACE :: nat where "TOKEN_SPACE = 32 + 32 + 1 + 16 + 8 + 8 + 1 + 32"

definition POOL_SEED :: bytes where "POOL_SEED = lit ''pool''"
definition TOKEN_SEED :: bytes where "TOKEN_SEED = lit ''token''"
definition VAULT_AUTHORITY_SEED :: bytes where "VAULT_AUTHORITY_SEED = lit ''vault_authority''"

definition ser_pool :: "pool_state \<Rightarrow> bytes option" where
  "ser_pool p = ser_seq
     [ser_arr (ps_owner p), ser_arr (ps_oracle p), ser_arr (ps_guardian p), ser_arr (ps_hub_mint p),
      ser_word (ps_fee_bps p), ser_word (ps_max_price_deviation_bps p),
      ser_word (ps_min_price_update_interval p), ser_bool (ps_paused p),
      ser_word (ps_max_price_age p)]"

definition de_pool :: "pool_state parser" where
  "de_pool bs = do {
     (ow, bs) \<leftarrow> de_arr bs; (orc, bs) \<leftarrow> de_arr bs; (g, bs) \<leftarrow> de_arr bs; (h, bs) \<leftarrow> de_arr bs;
     (f, bs) \<leftarrow> de_word bs; (d, bs) \<leftarrow> de_word bs; (i, bs) \<leftarrow> de_word bs; (pa, bs) \<leftarrow> de_bool bs;
     (a, bs) \<leftarrow> de_word bs;
     Some (\<lparr>ps_owner = ow, ps_oracle = orc, ps_guardian = g, ps_hub_mint = h, ps_fee_bps = f,
            ps_max_price_deviation_bps = d, ps_min_price_update_interval = i, ps_paused = pa,
            ps_max_price_age = a\<rparr>, bs) }"

definition ser_token :: "token_state \<Rightarrow> bytes option" where
  "ser_token t = ser_seq
     [ser_arr (ts_mint t), ser_arr (ts_vault t), ser_word (ts_decimals t), ser_word (ts_price t),
      ser_word (ts_reserve t), ser_word (ts_last_price_update t), ser_bool (ts_listed t),
      ser_word (ts_price_set_at t)]"

definition de_token :: "token_state parser" where
  "de_token bs = do {
     (m, bs) \<leftarrow> de_arr bs; (v, bs) \<leftarrow> de_arr bs; (d, bs) \<leftarrow> de_word bs; (p, bs) \<leftarrow> de_word bs;
     (r, bs) \<leftarrow> de_word bs; (l, bs) \<leftarrow> de_word bs; (li, bs) \<leftarrow> de_bool bs; (s, bs) \<leftarrow> de_word bs;
     Some (\<lparr>ts_mint = m, ts_vault = v, ts_decimals = d, ts_price = p, ts_reserve = r,
            ts_last_price_update = l, ts_listed = li, ts_price_set_at = s\<rparr>, bs) }"

definition ser_swapped_event :: "swapped_event \<Rightarrow> bytes option" where
  "ser_swapped_event e = ser_seq
     [ser_word (se_version e), ser_arr (se_sender e), ser_arr (se_mint_in e), ser_arr (se_mint_out e),
      ser_word (se_amount_in e), ser_word (se_amount_out e), ser_arr (se_to e)]"

definition de_swapped_event :: "swapped_event parser" where
  "de_swapped_event bs = do {
     (v, bs) \<leftarrow> de_word bs; (s, bs) \<leftarrow> de_arr bs; (i, bs) \<leftarrow> de_arr bs; (ou, bs) \<leftarrow> de_arr bs;
     (ai, bs) \<leftarrow> de_word bs; (ao, bs) \<leftarrow> de_word bs; (t, bs) \<leftarrow> de_arr bs;
     Some (\<lparr>se_version = v, se_sender = s, se_mint_in = i, se_mint_out = ou, se_amount_in = ai,
            se_amount_out = ao, se_to = t\<rparr>, bs) }"

interpretation poolc: borsh_codec ser_pool de_pool
  by unfold_locales
    (auto simp: ser_pool_def de_pool_def ser_struct_simps leaf_codecs simp del: ser_seq.simps(2))

interpretation tokenc: borsh_codec ser_token de_token
  by unfold_locales
    (auto simp: ser_token_def de_token_def ser_struct_simps leaf_codecs simp del: ser_seq.simps(2))

interpretation swappedc: borsh_codec ser_swapped_event de_swapped_event
  by unfold_locales
    (auto simp: ser_swapped_event_def de_swapped_event_def ser_struct_simps leaf_codecs
       simp del: ser_seq.simps(2))

lemma ser_pool_Some: "\<exists>bs. ser_pool p = Some bs \<and> length bs = 149"
  by (simp add: ser_pool_def ser_struct_simps ser_arr_def ser_word_def ser_bool_def)

lemma ser_token_Some: "\<exists>bs. ser_token t = Some bs \<and> length bs = 106"
  by (simp add: ser_token_def ser_struct_simps ser_arr_def ser_word_def ser_bool_def)

lemma ser_swapped_Some: "\<exists>bs. ser_swapped_event e = Some bs"
  by (simp add: ser_swapped_event_def ser_struct_simps ser_arr_def ser_word_def)

text \<open>The fields that were added last are the last eight bytes.\<close>

definition pool_head :: "pool_state \<Rightarrow> bytes" where
  "pool_head p = arr_bytes (ps_owner p) @ arr_bytes (ps_oracle p) @ arr_bytes (ps_guardian p) @
     arr_bytes (ps_hub_mint p) @ le_bytes 2 (ps_fee_bps p) @ le_bytes 2 (ps_max_price_deviation_bps p) @
     le_bytes 8 (ps_min_price_update_interval p) @ [if ps_paused p then 1 else 0]"

definition token_head :: "token_state \<Rightarrow> bytes" where
  "token_head t = arr_bytes (ts_mint t) @ arr_bytes (ts_vault t) @ le_bytes 1 (ts_decimals t) @
     le_bytes 16 (ts_price t) @ le_bytes 8 (ts_reserve t) @ le_bytes 8 (ts_last_price_update t) @
     [if ts_listed t then 1 else 0]"

lemma ser_pool_split: "ser_pool p = Some (pool_head p @ le_bytes 8 (ps_max_price_age p))"
  by (simp add: ser_pool_def pool_head_def ser_arr_def ser_word_def ser_bool_def del: le_bytes.simps)

lemma ser_token_split: "ser_token t = Some (token_head t @ le_bytes 8 (ts_price_set_at t))"
  by (simp add: ser_token_def token_head_def ser_arr_def ser_word_def ser_bool_def del: le_bytes.simps)

lemma length_heads [simp]: "length (pool_head p) = 141" "length (token_head t) = 98"
  by (simp_all add: pool_head_def token_head_def del: le_bytes.simps)

lemma heads_cong [simp]:
  "pool_head (p\<lparr>ps_max_price_age := a\<rparr>) = pool_head p" "token_head (t\<lparr>ts_price_set_at := s\<rparr>) = token_head t"
  by (simp_all add: pool_head_def token_head_def)

section \<open>Exact arithmetic\<close>

lemma unat_ucast_wide:
  assumes "LENGTH('a) \<le> LENGTH('b)"
  shows "unat (ucast (x :: 'a::len word) :: 'b::len word) = unat x"
proof -
  have "unat x < 2 ^ LENGTH('b)"
    using unsigned_less [of x, where 'a = nat] power_increasing [OF assms, of "2 :: nat"] by linarith
  then show ?thesis by (simp add: unsigned_ucast_eq take_bit_nat_eq_self)
qed

lemma u128_less: "unat (x :: u128) < 2 ^ 128"
  using unsigned_less [of x, where 'a = nat] by simp

lemma unat_of_nat_less: "n < 2 ^ LENGTH('a) \<Longrightarrow> unat (of_nat n :: 'a::len word) = n"
  by (simp add: unsigned_of_nat take_bit_nat_eq_self)

lemma ucast_of_nat_narrow:
  assumes "n < 2 ^ LENGTH('b)" "LENGTH('b) \<le> LENGTH('a)"
  shows "ucast (of_nat n :: 'a::len word) = (of_nat n :: 'b::len word)"
  using assms less_le_trans [OF assms(1) power_increasing [OF assms(2), of "2 :: nat"]]
  by (simp add: word_unat_eq_iff unsigned_ucast_eq unat_of_nat_less take_bit_nat_eq_self)

definition div_round :: "nat \<Rightarrow> nat \<Rightarrow> bool \<Rightarrow> nat" where
  "div_round n d ceil = (if ceil then (n + (d - 1)) div d else n div d)"

lemma div_round_up: "d > 0 \<Longrightarrow> (n + (d - 1)) div d = (if n div d * d = n then n div d else n div d + 1)"
  for n d :: nat
proof -
  assume d: "d > 0"
  have n: "n = n div d * d + n mod d" by simp
  have "n + (d - 1) = n div d * d + (n mod d + (d - 1))" using d by simp
  then have "(n + (d - 1)) div d = n div d + (n mod d + (d - 1)) div d"
    using d by (metis add.commute div_mult_self1 less_not_refl)
  moreover have "(n mod d + (d - 1)) div d = (if n mod d = 0 then 0 else 1)"
    using d mod_less_divisor [OF d, of n] by (auto simp: div_nat_eqI)
  moreover have "n div d * d = n \<longleftrightarrow> n mod d = 0" by (metis n add_cancel_right_right)
  ultimately show ?thesis by simp
qed

lemma checked_add_one:
  "k + 1 < 2 ^ LENGTH('a) \<Longrightarrow> checked_add (of_nat k :: 'a::len word) 1 = Some (of_nat (k + 1))"
  by (simp add: checked_add_def unat_of_nat_less)

lemma div_round_cases:
  assumes "d > 0"
  shows "div_round n d ceil = (if ceil \<and> n div d * d \<noteq> n then n div d + 1 else n div d)"
  unfolding div_round_def div_round_up [OF assms] by simp

lemma inexact_quotient_less:
  assumes "n div d * d \<noteq> n"
  shows "n div d < (n :: nat)"
proof (rule ccontr)
  assume "\<not> n div d < n"
  then have "n div d = n" by (simp add: antisym)
  moreover have "n div d * d \<le> n" by simp
  ultimately have "n * d \<le> n" by simp
  then have "n = 0 \<or> d \<le> 1" by (metis mult_le_cancel1 mult_1_right nat_less_le neq0_conv)
  then show False using assms \<open>n div d = n\<close> by (cases d) (auto simp: le_Suc_eq)
qed

lemma mul_div_exact:
  "mul_div a b d ceil =
     (if d \<noteq> 0 \<and> div_round (unat a * unat b) (unat d) ceil < 2 ^ 128
      then Some (of_nat (div_round (unat a * unat b) (unat d) ceil)) else None)"
proof (cases "d = 0")
  case False
  define n where "n = unat a * unat b"
  have ab: "n < 2 ^ 256"
    using mult_strict_mono' [OF u128_less [of a] u128_less [of b]] by (simp add: n_def)
  have d: "unat d > 0" using False by (simp add: unat_gt_0)
  let ?n = "of_nat n :: u256"
  have un: "unat ?n = n" using ab by (simp add: unsigned_of_nat take_bit_nat_eq_self)
  have ud: "unat (ucast d :: u256) = unat d" by (simp add: unat_ucast_wide)
  have m: "checked_mul (ucast a :: u256) (ucast b) = Some ?n"
    using ab by (simp add: checked_mul_def unat_ucast_wide n_def word_eq_iff_unsigned unat_word_ariths un)
  have uq: "unat (?n div ucast d) = n div unat d" by (simp add: unat_div un ud)
  have "n div unat d * unat d < 2 ^ LENGTH(256)" using ab le_less_trans [OF div_times_less_eq_dividend] by simp
  then have uqd: "unat (?n div ucast d * ucast d) = n div unat d * unat d"
    by (simp only: unat_word_ariths(2) uq ud mod_less)
  have eq: "?n div ucast d * ucast d = ?n \<longleftrightarrow> n div unat d * unat d = n"
    by (simp only: word_unat_eq_iff uqd un)
  have le: "n div unat d < 2 ^ 256" using ab by (meson div_le_dividend le_less_trans)
  have qeq: "?n div ucast d = of_nat (n div unat d)"
  proof -
    have "n div unat d < 2 ^ LENGTH(256)" using le by simp
    then show ?thesis unfolding word_unat_eq_iff uq by (rule unat_of_nat_less [symmetric])
  qed
  have inc: "checked_add (?n div ucast d) 1 = Some (of_nat (n div unat d + 1))"
    if "n div unat d * unat d \<noteq> n"
  proof -
    have "n div unat d + 1 < 2 ^ LENGTH(256)" using inexact_quotient_less [OF that] ab by simp
    then show ?thesis unfolding qeq by (rule checked_add_one)
  qed
  have mx: "unat (ucast (- 1 :: u128) :: u256) = 2 ^ 128 - 1" by (simp add: unat_ucast_wide unsigned_minus_1_eq_mask mask_eq_exp_minus_1)
  have wrap: "(if (of_nat q :: u256) > ucast (- 1 :: u128) then None else Some (ucast (of_nat q :: u256) :: u128)) =
      (if q < 2 ^ 128 then Some (of_nat q) else None)" if "q < 2 ^ 256" for q
    using that by (auto simp: word_less_nat_alt mx unat_of_nat_less ucast_of_nat_narrow)
  have q: "mul_div a b d ceil = (if (of_nat (div_round n (unat d) ceil) :: u256) > ucast (- 1 :: u128) then None
      else Some (ucast (of_nat (div_round n (unat d) ceil) :: u256)))"
  proof (cases "ceil \<and> n div unat d * unat d \<noteq> n")
    case True
    then show ?thesis
      using False inc unfolding div_round_cases [OF d] by (simp add: mul_div_def m eq)
  next
    case nr: False
    have "div_round n (unat d) ceil = n div unat d" using nr by (auto simp: div_round_cases [OF d])
    then show ?thesis
      using False nr by (auto simp: mul_div_def m eq simp flip: qeq)
  qed
  have lt: "div_round n (unat d) ceil < 2 ^ 256"
  proof (cases "n div unat d * unat d = n")
    case True
    then show ?thesis using le by (simp add: div_round_cases [OF d])
  next
    case nr: False
    then have "n div unat d < n" by (rule inexact_quotient_less)
    then show ?thesis using ab by (simp add: div_round_cases [OF d])
  qed
  show ?thesis using False trans [OF q wrap [OF lt]] by (simp add: n_def)
qed (simp add: mul_div_def)

lemma pow10_exact:
  "pow10 d = (if unat d \<le> 38 then Some (of_nat (10 ^ unat d)) else None)"
proof (cases "unat d \<le> 38")
  case True
  then have "(10 :: nat) ^ unat d \<le> 10 ^ 38" by (rule power_increasing) simp
  then have "(10 :: nat) ^ unat d < 2 ^ 128" by (rule le_less_trans) simp
  then show ?thesis using True by (simp add: pow10_def checked_pow_def word_less_nat_alt)
qed (simp add: pow10_def word_less_nat_alt)

lemma pow10_value: "unat d \<le> 38 \<Longrightarrow> unat (of_nat (10 ^ unat d) :: u128) = 10 ^ unat d"
proof -
  assume "unat d \<le> 38"
  then have "(10 :: nat) ^ unat d \<le> 10 ^ 38" by (rule power_increasing) simp
  then have "(10 :: nat) ^ unat d < 2 ^ LENGTH(128)" by (rule le_less_trans) simp
  then show ?thesis by (rule unat_of_nat_less)
qed

text \<open>The pricing rule of the pool, in exact arithmetic: all roundings favour the pool.\<close>

definition usd_spec :: "nat \<Rightarrow> nat \<Rightarrow> nat \<Rightarrow> nat" where
  "usd_spec amount price dec = amount * price div 10 ^ dec"

definition fee_spec :: "nat \<Rightarrow> nat \<Rightarrow> nat" where
  "fee_spec usd fee_bps = (usd * fee_bps + 9999) div 10000"

definition out_spec :: "nat \<Rightarrow> nat \<Rightarrow> nat \<Rightarrow> nat \<Rightarrow> nat \<Rightarrow> nat \<Rightarrow> nat" where
  "out_spec amount price_in dec_in price_out dec_out fee_bps =
     (let usd = usd_spec amount price_in dec_in in
      (usd - fee_spec usd fee_bps) * 10 ^ dec_out div price_out)"

lemma mul_div_floor_exact:
  "mul_div_floor a b d =
     (if d \<noteq> 0 \<and> unat a * unat b div unat d < 2 ^ 128
      then Some (of_nat (unat a * unat b div unat d)) else None)"
  by (simp add: mul_div_floor_def mul_div_exact div_round_def)

lemma fee_exact:
  "mul_div_ceil usd (ucast (f :: u16)) (ucast BPS_DENOM) =
     (if fee_spec (unat usd) (unat f) < 2 ^ 128 then Some (of_nat (fee_spec (unat usd) (unat f))) else None)"
proof -
  have "unat (ucast f :: u128) = unat f" by (simp add: unat_ucast_wide)
  moreover have "unat (ucast BPS_DENOM :: u128) = 10000" "(ucast BPS_DENOM :: u128) \<noteq> 0"
    by (simp_all add: BPS_DENOM_def)
  ultimately show ?thesis by (simp add: mul_div_ceil_def mul_div_exact div_round_def fee_spec_def)
qed

lemma fee_zero [simp]: "fee_spec u 0 = 0"
  by (simp add: fee_spec_def)

lemma charge_exact:
  "(if f \<noteq> 0 then do { fee \<leftarrow> mul_div_ceil usd (ucast (f :: u16)) (ucast BPS_DENOM); checked_sub usd fee } else Some usd) =
   (if fee_spec (unat usd) (unat f) \<le> unat usd then Some (of_nat (unat usd - fee_spec (unat usd) (unat f))) else None)"
proof (cases "f = 0")
  case False
  let ?fee = "fee_spec (unat usd) (unat f)"
  show ?thesis
  proof (cases "?fee < 2 ^ 128")
    case True
    then have "unat (of_nat ?fee :: u128) = ?fee" by (intro unat_of_nat_less) simp
    moreover have "usd - of_nat ?fee = of_nat (unat usd - ?fee)" if "?fee \<le> unat usd"
      using that by (simp add: of_nat_diff)
    ultimately show ?thesis
      using False True by (simp add: fee_exact checked_sub_def word_le_nat_alt)
  next
    case big: False
    then have "\<not> ?fee \<le> unat usd" using u128_less [of usd] by linarith
    then show ?thesis using False big by (simp add: fee_exact)
  qed
qed simp

lemma swap_rule_exact:
  "amount_out a p d p' d' f =
     (let usd = usd_spec (unat a) (unat p) (unat d);
          out = out_spec (unat a) (unat p) (unat d) (unat p') (unat d') (unat f) in
      if p \<noteq> 0 \<and> p' \<noteq> 0 \<and> unat d \<le> 38 \<and> unat d' \<le> 38 \<and> usd < 2 ^ 128 \<and>
         fee_spec usd (unat f) \<le> usd \<and> out < 2 ^ 64
      then Some (of_nat out) else None)"
proof (cases "p \<noteq> 0 \<and> p' \<noteq> 0 \<and> unat d \<le> 38 \<and> unat d' \<le> 38")
  case True
  let ?usd = "usd_spec (unat a) (unat p) (unat d)"
  let ?net = "?usd - fee_spec ?usd (unat f)"
  let ?out = "out_spec (unat a) (unat p) (unat d) (unat p') (unat d') (unat f)"
  obtain U V where U: "pow10 d = Some U" "unat U = 10 ^ unat d"
    and V: "pow10 d' = Some V" "unat V = 10 ^ unat d'"
    using True pow10_value [of d] pow10_value [of d'] by (auto simp: pow10_exact simp del: of_nat_power)
  have mf: "mul_div_floor (ucast a) p U = (if ?usd < 2 ^ 128 then Some (of_nat ?usd) else None)"
    using U(2) by (auto simp: mul_div_floor_exact unat_ucast_wide usd_spec_def)
  show ?thesis
  proof (cases "?usd < 2 ^ 128")
    case fits: True
    have uu: "unat (of_nat ?usd :: u128) = ?usd" using fits by (intro unat_of_nat_less) simp
    define N where "N = (of_nat ?net :: u128)"
    have un: "unat N = ?net"
      unfolding N_def using fits by (intro unat_of_nat_less) (simp add: less_imp_diff_less)
    have out: "mul_div_floor N V p' = (if ?out < 2 ^ 128 then Some (of_nat ?out) else None)"
      using True by (simp add: mul_div_floor_exact V(2) un out_spec_def Let_def)
    have mx: "unat (ucast (- 1 :: u64) :: u128) = 2 ^ 64 - 1"
      by (simp add: unat_ucast_wide unsigned_minus_1_eq_mask mask_eq_exp_minus_1)
    have last: "(if ?out < 2 ^ 128 then if (of_nat ?out :: u128) > ucast (- 1 :: u64) then None else Some (ucast (of_nat ?out :: u128)) else None) =
       (if ?out < 2 ^ 64 then Some (of_nat ?out :: u64) else None)"
      by (auto simp: word_less_nat_alt mx unat_of_nat_less ucast_of_nat_narrow)
    have "amount_out a p d p' d' f = (if fee_spec ?usd (unat f) \<le> ?usd
        then if ?out < 2 ^ 128 then if (of_nat ?out :: u128) > ucast (- 1 :: u64) then None else Some (ucast (of_nat ?out :: u128)) else None
        else None)"
      using True fits out unfolding amount_out_def charge_exact
      by (simp add: U V mf uu flip: N_def)
    then show ?thesis unfolding last using True fits by (simp add: Let_def)
  qed (use True in \<open>simp add: amount_out_def U V mf Let_def\<close>)
qed (auto simp: amount_out_def pow10_exact Let_def split: bind_splits)

section \<open>Value\<close>

lemma amount_out_Some:
  assumes "amount_out a p d p' d' f = Some out"
  shows "unat out = out_spec (unat a) (unat p) (unat d) (unat p') (unat d') (unat f)"
    and "unat p > 0" "unat p' > 0"
    and "fee_spec (usd_spec (unat a) (unat p) (unat d)) (unat f) \<le> usd_spec (unat a) (unat p) (unat d)"
  using assms by (auto simp: swap_rule_exact Let_def unat_gt_0 unat_of_nat_less split: if_splits)

lemma net_value: "(u - fee_spec u f) * 10000 \<le> u * (10000 - f)"
proof -
  let ?n = "u * f + 9999"
  have "?n mod 10000 \<le> 9999" by simp
  then have "u * f \<le> fee_spec u f * 10000"
    using div_mult_mod_eq [of ?n 10000] unfolding fee_spec_def by linarith
  then show ?thesis by (simp add: diff_mult_distrib diff_mult_distrib2)
qed

lemma out_value:
  "out_spec a p d p' d' f * p' * 10 ^ d * 10000 \<le> a * p * 10 ^ d' * (10000 - f)"
proof -
  let ?u = "usd_spec a p d"
  have "out_spec a p d p' d' f * p' \<le> (?u - fee_spec ?u f) * 10 ^ d'"
    by (simp add: out_spec_def Let_def)
  then have "out_spec a p d p' d' f * p' * (10 ^ d * 10000) \<le> (?u - fee_spec ?u f) * 10 ^ d' * (10 ^ d * 10000)"
    by (rule mult_le_mono1)
  also have "\<dots> = (?u - fee_spec ?u f) * 10000 * (10 ^ d' * 10 ^ d)" by simp
  also have "\<dots> \<le> ?u * (10000 - f) * (10 ^ d' * 10 ^ d)" by (intro mult_le_mono1 net_value)
  also have "\<dots> = ?u * 10 ^ d * ((10000 - f) * 10 ^ d')" by simp
  also have "\<dots> \<le> a * p * ((10000 - f) * 10 ^ d')" by (rule mult_le_mono1) (simp add: usd_spec_def)
  finally show ?thesis by (simp add: mult_ac)
qed

text \<open>
  Two swaps, there and back, where the prices may have moved between them from
  \<open>p\<close>, \<open>p'\<close> to \<open>q\<close>, \<open>q'\<close>.
\<close>

lemma round_trip_bound:
  assumes "amount_out x p d p' d' f = Some y" "amount_out y q' d' q d f = Some z"
    and "unat p * unat q' * (10000 - unat f)\<^sup>2 \<le> unat q * unat p' * 10000\<^sup>2"
  shows "unat z \<le> unat x"
proof -
  let ?f = "10000 - unat f"
  note y = amount_out_Some [OF assms(1)] and z = amount_out_Some [OF assms(2)]
  have 1: "unat y * unat p' * 10 ^ unat d * 10000 \<le> unat x * unat p * 10 ^ unat d' * ?f"
    using out_value [of "unat x" "unat p" "unat d" "unat p'" "unat d'" "unat f"] y(1) by simp
  have 2: "unat z * unat q * 10 ^ unat d' * 10000 \<le> unat y * unat q' * 10 ^ unat d * ?f"
    using out_value [of "unat y" "unat q'" "unat d'" "unat q" "unat d" "unat f"] z(1) by simp
  have "unat z * unat q * 10 ^ unat d' * 10000 * (unat p' * 10000) \<le>
      unat y * unat q' * 10 ^ unat d * ?f * (unat p' * 10000)"
    using 2 by (rule mult_le_mono1)
  also have "\<dots> = unat y * unat p' * 10 ^ unat d * 10000 * (unat q' * ?f)" by simp
  also have "\<dots> \<le> unat x * unat p * 10 ^ unat d' * ?f * (unat q' * ?f)"
    using 1 by (rule mult_le_mono1)
  also have "\<dots> = unat p * unat q' * ?f\<^sup>2 * (unat x * 10 ^ unat d')" by (simp add: power2_eq_square)
  also have "\<dots> \<le> unat q * unat p' * 10000\<^sup>2 * (unat x * 10 ^ unat d')"
    using assms(3) by (rule mult_le_mono1)
  finally have "unat z * (unat q * unat p' * 10000\<^sup>2 * 10 ^ unat d') \<le>
      unat x * (unat q * unat p' * 10000\<^sup>2 * 10 ^ unat d')"
    by (simp add: power2_eq_square mult_ac)
  then show ?thesis using y(3) z(3) by simp
qed

text \<open>
  C16. The output of a swap, computed with 64-, 128- and 256-bit words, is exactly the
  pricing rule over the integers (value rounded down, fee rounded up, output rounded
  down) whenever the rule fits the output width, and is refused in every other case:
  a zero price, more than 38 decimals, a value beyond 128 bits, a fee above the
  value, or an output beyond 64 bits. Nothing wraps or truncates.
\<close>

theorem amount_out_exact:
  "amount_out a p d p' d' f =
     (let usd = unat a * unat p div 10 ^ unat d;
          fee = (usd * unat f + 9999) div 10000;
          out = (usd - fee) * 10 ^ unat d' div unat p' in
      if p \<noteq> 0 \<and> p' \<noteq> 0 \<and> unat d \<le> 38 \<and> unat d' \<le> 38 \<and> usd < 2 ^ 128 \<and> fee \<le> usd \<and> out < 2 ^ 64
      then Some (of_nat out) else None)"
  by (simp add: swap_rule_exact usd_spec_def fee_spec_def out_spec_def Let_def)

text \<open>
  C15. A swap never pays out more than the value that came in less the fee, and
  swapping there and back at unchanged prices never returns more than was put in.
\<close>

theorem swap_no_profit:
  assumes "amount_out x p d p' d' f = Some y"
  shows "unat y * unat p' * 10 ^ unat d * 10000 \<le> unat x * unat p * 10 ^ unat d' * (10000 - unat f) \<and>
    (\<forall>z. amount_out y p' d' p d f = Some z \<longrightarrow> z \<le> x)"
proof -
  have "(10000 - unat f)\<^sup>2 \<le> (10000 :: nat)\<^sup>2" by (rule power_mono) simp_all
  then have "unat z \<le> unat x" if "amount_out y p' d' p d f = Some z" for z
    by (intro round_trip_bound [OF assms that] mult_le_mono) simp_all
  then show ?thesis
    using out_value [of "unat x" "unat p" "unat d" "unat p'" "unat d'" "unat f"] amount_out_Some(1) [OF assms]
    by (simp add: word_le_nat_alt)
qed

theorem swap_no_profit_witness:
  "amount_out 1000000 2000000000000000000 6 1000000000000000000 9 30 = Some 1994000000 \<and>
   amount_out 1994000000 1000000000000000000 9 2000000000000000000 6 30 = Some 994009 \<and> (994009 :: u64) \<le> 1000000"
proof -
  have a: "amount_out 1000000 2000000000000000000 6 1000000000000000000 9 30 = Some 1994000000"
    "amount_out 1994000000 1000000000000000000 9 2000000000000000000 6 30 = Some 994009"
    by (simp_all add: swap_rule_exact usd_spec_def fee_spec_def out_spec_def Let_def)
  from swap_no_profit [OF a(1)] a show ?thesis by blast
qed

text \<open>
  An account written before the age bound and the price stamp existed, whose
  bytes end where those fields begin and are zero from there on, decodes with every
  old field intact; its pool enforces the default age of one day, and its token is
  stale (unless it is the hub) as soon as a day has passed since the epoch.
\<close>

theorem legacy_pool_guarded:
  assumes "ser_pool p = Some bs" "ser_token t = Some ts"
  shows "deserialize de_pool (take 141 bs @ replicate (POOL_SPACE - 141) 0) = Some (p\<lparr>ps_max_price_age := 0\<rparr>) \<and>
    deserialize de_token (take 98 ts @ replicate (TOKEN_SPACE - 98) 0) = Some (t\<lparr>ts_price_set_at := 0\<rparr>) \<and>
    effective_max_price_age (p\<lparr>ps_max_price_age := 0\<rparr>) = DEFAULT_MAX_PRICE_AGE \<and>
    (ts_mint t \<noteq> ps_hub_mint p \<and> sint now > 86400 \<longrightarrow>
      \<not> price_is_fresh (p\<lparr>ps_max_price_age := 0\<rparr>) (t\<lparr>ts_price_set_at := 0\<rparr>) now)"
proof -
  have "ser_pool (p\<lparr>ps_max_price_age := 0\<rparr>) = Some (take 141 bs @ replicate 8 0)"
    using assms(1) by (auto simp: ser_pool_split le_bytes_zero simp del: le_bytes.simps)
  from poolc.deserialize_padded [OF this, of "replicate 24 0"]
  have 1: "deserialize de_pool (take 141 bs @ replicate (POOL_SPACE - 141) 0) = Some (p\<lparr>ps_max_price_age := 0\<rparr>)"
    by (simp add: POOL_SPACE_def flip: replicate_add)
  have "ser_token (t\<lparr>ts_price_set_at := 0\<rparr>) = Some (take 98 ts @ replicate 8 0)"
    using assms(2) by (auto simp: ser_token_split le_bytes_zero simp del: le_bytes.simps)
  from tokenc.deserialize_padded [OF this, of "replicate 24 0"]
  have 2: "deserialize de_token (take 98 ts @ replicate (TOKEN_SPACE - 98) 0) = Some (t\<lparr>ts_price_set_at := 0\<rparr>)"
    by (simp add: TOKEN_SPACE_def flip: replicate_add)
  have 3: "effective_max_price_age (p\<lparr>ps_max_price_age := 0\<rparr>) = DEFAULT_MAX_PRICE_AGE"
    by (simp add: effective_max_price_age_def)
  have 4: "\<not> price_is_fresh (p\<lparr>ps_max_price_age := 0\<rparr>) (t\<lparr>ts_price_set_at := 0\<rparr>) now"
    if "ts_mint t \<noteq> ps_hub_mint p" "sint now > 86400"
    using that sint_i64_bounds [of now]
    by (simp add: price_is_fresh_def 3 sint_isat_sub DEFAULT_MAX_PRICE_AGE_def)
  show ?thesis using 1 2 3 4 by blast
qed

definition demo_pool :: pool_state where
  "demo_pool = \<lparr>ps_owner = 4, ps_oracle = 5, ps_guardian = 3, ps_hub_mint = 68, ps_fee_bps = 30,
     ps_max_price_deviation_bps = 500, ps_min_price_update_interval = 60, ps_paused = False,
     ps_max_price_age = 3600\<rparr>"

definition demo_rec :: "pubkey \<Rightarrow> pubkey \<Rightarrow> u128 \<Rightarrow> u64 \<Rightarrow> token_state" where
  "demo_rec m v p r = \<lparr>ts_mint = m, ts_vault = v, ts_decimals = 6, ts_price = p, ts_reserve = r,
     ts_last_price_update = 0, ts_listed = True, ts_price_set_at = 0\<rparr>"

theorem legacy_pool_guarded_witness:
  "deserialize de_pool (take 141 (the (ser_pool demo_pool)) @ replicate (POOL_SPACE - 141) 0) =
     Some (demo_pool\<lparr>ps_max_price_age := 0\<rparr>) \<and>
   \<not> price_is_fresh (demo_pool\<lparr>ps_max_price_age := 0\<rparr>) ((demo_rec 70 21 PRICE_ONE 0)\<lparr>ts_price_set_at := 0\<rparr>) 90000"
proof -
  obtain bs ts where b: "ser_pool demo_pool = Some bs" and t: "ser_token (demo_rec 70 21 PRICE_ONE 0) = Some ts"
    using ser_pool_Some ser_token_Some by meson
  have "sint (90000 :: i64) > 86400" by simp
  moreover have "ts_mint (demo_rec 70 21 PRICE_ONE 0) \<noteq> ps_hub_mint demo_pool"
    by (simp add: demo_rec_def demo_pool_def)
  ultimately show ?thesis using legacy_pool_guarded [OF b t, of 90000] b by simp
qed

end
