(* ===== verification/SwapTypes.thy ===== *)
theory SwapTypes
  imports SwapMath
begin

text \<open>
  The instructions and errors of the Solana swap program
  (\<open>crates/solana-swap/src/lib.rs\<close>), with the Borsh encoding of the instructions.
  Its accounts are in \<open>SwapMath\<close>, as in the source.
\<close>

section \<open>Instructions\<close>

record init_pool_args =
  ip_fee_bps :: u16
  ip_max_price_deviation_bps :: u16
  ip_min_price_update_interval :: i64
  ip_guardian :: pubkey
  ip_oracle :: pubkey

datatype swap_instruction =
    InitPool init_pool_args
  | ListToken u128
  | SetPrice u128
  | SeedLiquidity u64
  | WithdrawLiquidity u64
  | Swap u64 u64
  | PausePool
  | UnpausePool
  | SetPoolGuardian pubkey
  | SetOracle pubkey
  | SetFee u16
  | SetMaxPriceDeviation u16
  | SetMaxPriceAge i64
  | SetMinPriceUpdateInterval i64
  | SetPriceFrom u128 u128

datatype swap_role =
    RoleGuardian pubkey
  | RoleOracle pubkey
  | RoleFee u16
  | RoleMaxPriceDeviation u16
  | RoleMaxPriceAge i64
  | RoleMinPriceUpdateInterval i64

section \<open>Errors\<close>

datatype swap_error =
    SwTokenNotListed | SwTokenAlreadyListed | SwSameToken | SwZeroAmount | SwZeroPrice | SwSlippage
  | SwExceedsLock | SwHubRepriceForbidden | SwPriceDeviationTooHigh | SwPriceUpdateTooSoon | SwPaused
  | SwNotAuthorizedToPause | SwOverflow | SwVaultNotOwned | SwVaultNotExclusive | SwAccountMismatch
  | SwStalePrice | SwFeeTooHigh | SwPriceChanged | SwSetPriceRemoved

fun swap_error_discr :: "swap_error \<Rightarrow> u32" where
  "swap_error_discr SwTokenNotListed = 0"
| "swap_error_discr SwTokenAlreadyListed = 1"
| "swap_error_discr SwSameToken = 2"
| "swap_error_discr SwZeroAmount = 3"
| "swap_error_discr SwZeroPrice = 4"
| "swap_error_discr SwSlippage = 5"
| "swap_error_discr SwExceedsLock = 6"
| "swap_error_discr SwHubRepriceForbidden = 7"
| "swap_error_discr SwPriceDeviationTooHigh = 8"
| "swap_error_discr SwPriceUpdateTooSoon = 9"
| "swap_error_discr SwPaused = 10"
| "swap_error_discr SwNotAuthorizedToPause = 11"
| "swap_error_discr SwOverflow = 12"
| "swap_error_discr SwVaultNotOwned = 13"
| "swap_error_discr SwVaultNotExclusive = 14"
| "swap_error_discr SwAccountMismatch = 15"
| "swap_error_discr SwStalePrice = 16"
| "swap_error_discr SwFeeTooHigh = 17"
| "swap_error_discr SwPriceChanged = 18"
| "swap_error_discr SwSetPriceRemoved = 19"

definition swap_err :: "swap_error \<Rightarrow> program_error" where
  "swap_err e = Custom (swap_error_discr e + 1)"

section \<open>Encoding\<close>

definition ser_init_pool :: "init_pool_args \<Rightarrow> bytes option" where
  "ser_init_pool a = ser_seq
     [ser_word (ip_fee_bps a), ser_word (ip_max_price_deviation_bps a),
      ser_word (ip_min_price_update_interval a), ser_arr (ip_guardian a), ser_arr (ip_oracle a)]"

definition de_init_pool :: "init_pool_args parser" where
  "de_init_pool bs = do {
     (f, bs) \<leftarrow> de_word bs; (d, bs) \<leftarrow> de_word bs; (i, bs) \<leftarrow> de_word bs;
     (g, bs) \<leftarrow> de_arr bs; (orc, bs) \<leftarrow> de_arr bs;
     Some (\<lparr>ip_fee_bps = f, ip_max_price_deviation_bps = d, ip_min_price_update_interval = i,
            ip_guardian = g, ip_oracle = orc\<rparr>, bs) }"

fun ser_swap_instruction :: "swap_instruction \<Rightarrow> bytes option" where
  "ser_swap_instruction (InitPool a) = ser_seq [Some [0], ser_init_pool a]"
| "ser_swap_instruction (ListToken p) = ser_seq [Some [1], ser_word p]"
| "ser_swap_instruction (SetPrice p) = ser_seq [Some [2], ser_word p]"
| "ser_swap_instruction (SeedLiquidity n) = ser_seq [Some [3], ser_word n]"
| "ser_swap_instruction (WithdrawLiquidity n) = ser_seq [Some [4], ser_word n]"
| "ser_swap_instruction (Swap a m) = ser_seq [Some [5], ser_word a, ser_word m]"
| "ser_swap_instruction PausePool = Some [6]"
| "ser_swap_instruction UnpausePool = Some [7]"
| "ser_swap_instruction (SetPoolGuardian g) = ser_seq [Some [8], ser_arr g]"
| "ser_swap_instruction (SetOracle k) = ser_seq [Some [9], ser_arr k]"
| "ser_swap_instruction (SetFee f) = ser_seq [Some [10], ser_word f]"
| "ser_swap_instruction (SetMaxPriceDeviation b) = ser_seq [Some [11], ser_word b]"
| "ser_swap_instruction (SetMaxPriceAge s) = ser_seq [Some [12], ser_word s]"
| "ser_swap_instruction (SetMinPriceUpdateInterval s) = ser_seq [Some [13], ser_word s]"
| "ser_swap_instruction (SetPriceFrom e p) = ser_seq [Some [14], ser_word e, ser_word p]"

fun de_swap_instruction :: "swap_instruction parser" where
  "de_swap_instruction [] = None"
| "de_swap_instruction (t # bs) =
     (if t = 0 then do { (a, bs) \<leftarrow> de_init_pool bs; Some (InitPool a, bs) }
      else if t = 1 then do { (p, bs) \<leftarrow> de_word bs; Some (ListToken p, bs) }
      else if t = 2 then do { (p, bs) \<leftarrow> de_word bs; Some (SetPrice p, bs) }
      else if t = 3 then do { (n, bs) \<leftarrow> de_word bs; Some (SeedLiquidity n, bs) }
      else if t = 4 then do { (n, bs) \<leftarrow> de_word bs; Some (WithdrawLiquidity n, bs) }
      else if t = 5 then
        do { (a, bs) \<leftarrow> de_word bs; (m, bs) \<leftarrow> de_word bs; Some (Swap a m, bs) }
      else if t = 6 then Some (PausePool, bs)
      else if t = 7 then Some (UnpausePool, bs)
      else if t = 8 then do { (g, bs) \<leftarrow> de_arr bs; Some (SetPoolGuardian g, bs) }
      else if t = 9 then do { (k, bs) \<leftarrow> de_arr bs; Some (SetOracle k, bs) }
      else if t = 10 then do { (f, bs) \<leftarrow> de_word bs; Some (SetFee f, bs) }
      else if t = 11 then do { (b, bs) \<leftarrow> de_word bs; Some (SetMaxPriceDeviation b, bs) }
      else if t = 12 then do { (s, bs) \<leftarrow> de_word bs; Some (SetMaxPriceAge s, bs) }
      else if t = 13 then do { (s, bs) \<leftarrow> de_word bs; Some (SetMinPriceUpdateInterval s, bs) }
      else if t = 14 then
        do { (e, bs) \<leftarrow> de_word bs; (p, bs) \<leftarrow> de_word bs; Some (SetPriceFrom e p, bs) }
      else None)"

interpretation initpoolc: borsh_codec ser_init_pool de_init_pool
  by unfold_locales
    (auto simp: ser_init_pool_def de_init_pool_def ser_struct_simps leaf_codecs
       simp del: ser_seq.simps(2))

interpretation swapixc: borsh_codec ser_swap_instruction de_swap_instruction
proof
  fix x bs r
  assume "ser_swap_instruction x = Some bs"
  then show "de_swap_instruction (bs @ r) = Some (x, r)"
    by (cases x)
      (auto simp: ser_struct_simps leaf_codecs initpoolc.de_ser simp del: ser_seq.simps(2))
qed

end
