(* ===== verification/SwapHandlers.thy ===== *)
theory SwapHandlers
  imports SwapTypes GateAccounts
begin

text \<open>
  The account operations and the instruction handlers of the swap program
  (\<open>crates/solana-swap/src/lib.rs\<close>), one definition per function, with the checks in
  the order of the source. The sequence that creates a program-derived account
  (rent shortfall, allocate, assign) is the one of the gate program, and so is its
  definition.
\<close>

definition SWAPPED_EVENT_TAG :: bytes where "SWAPPED_EVENT_TAG = lit ''SWAP_SWAPPED''"

section \<open>Account operations\<close>

definition swapped_log_fields :: "swapped_event \<Rightarrow> program_error + bytes list" where
  "swapped_log_fields ev =
     bind_res (ok_or (ser_swapped_event ev) InvalidAccountData) (\<lambda>body.
     Inr [SWAPPED_EVENT_TAG, body])"

definition load_pool :: "env \<Rightarrow> pubkey \<Rightarrow> account_info \<Rightarrow> world \<Rightarrow> program_error + pool_state" where
  "load_pool E pid ai w =
     (if ai_key ai \<noteq> pda E pid [POOL_SEED] \<or> owner_of w ai \<noteq> pid then Inl (swap_err SwAccountMismatch)
      else ok_or (deserialize de_pool (data_of w ai)) InvalidAccountData)"

definition swap_store :: "bytes option \<Rightarrow> account_info \<Rightarrow> world \<Rightarrow> program_error + world" where
  "swap_store v ai w =
     bind_res (ok_or v InvalidAccountData) (\<lambda>bs.
     if length bs > length (data_of w ai) then Inl AccountDataTooSmall
     else Inr (set_data ai (bs @ drop (length bs) (data_of w ai)) w))"

definition load_token :: "env \<Rightarrow> pubkey \<Rightarrow> account_info \<Rightarrow> pubkey \<Rightarrow> world \<Rightarrow> program_error + token_state" where
  "load_token E pid ai mint w =
     (if ai_key ai \<noteq> pda E pid [TOKEN_SEED, arr_bytes mint] \<or> owner_of w ai \<noteq> pid
      then Inl (swap_err SwAccountMismatch)
      else
        bind_res (ok_or (deserialize de_token (data_of w ai)) InvalidAccountData) (\<lambda>rec.
        if \<not> ts_listed rec then Inl (swap_err SwTokenNotListed) else Inr rec))"

definition require_owner :: "pool_state \<Rightarrow> account_info \<Rightarrow> program_error + unit" where
  "require_owner pool signer =
     (if ai_key signer \<noteq> ps_owner pool \<or> \<not> is_signer signer then Inl MissingRequiredSignature else Inr ())"

definition swap_require_upgrade_authority ::
  "env \<Rightarrow> pubkey \<Rightarrow> account_info \<Rightarrow> account_info \<Rightarrow> pubkey \<Rightarrow> world \<Rightarrow> program_error + unit" where
  "swap_require_upgrade_authority E pid program_ai program_data_ai who w =
     (if ai_key program_ai \<noteq> pid \<or> owner_of w program_ai \<noteq> loader_id E then Inl IncorrectProgramId
      else if ai_key program_data_ai \<noteq> pda E (loader_id E) [arr_bytes pid] then Inl InvalidArgument
      else case loader_state_of E (data_of w program_data_ai) of
          None \<Rightarrow> Inl InvalidAccountData
        | Some (ProgramData authority) \<Rightarrow>
            if authority \<noteq> Some who then Inl MissingRequiredSignature else Inr ()
        | Some OtherLoaderState \<Rightarrow> Inl InvalidAccountData)"

definition check_vault ::
  "env \<Rightarrow> pubkey \<Rightarrow> account_info \<Rightarrow> pubkey \<Rightarrow> pubkey \<Rightarrow> world \<Rightarrow> program_error + unit" where
  "check_vault E pid vault mint token_program w =
     (if owner_of w vault \<noteq> token_program then Inl IllegalOwner
      else
        bind_res (ok_or (unpack_account E (data_of w vault)) InvalidAccountData) (\<lambda>state.
        if spl_mint state \<noteq> mint then Inl (swap_err SwAccountMismatch)
        else if spl_owner state \<noteq> pda E pid [VAULT_AUTHORITY_SEED] then Inl (swap_err SwVaultNotOwned)
        else if spl_delegate state \<noteq> None \<or> spl_close_authority state \<noteq> None
          then Inl (swap_err SwVaultNotExclusive)
        else Inr ()))"

definition vault_balance :: "env \<Rightarrow> account_info \<Rightarrow> world \<Rightarrow> program_error + u64" where
  "vault_balance E vault w =
     bind_res (ok_or (unpack_account E (data_of w vault)) InvalidAccountData) (\<lambda>a. Inr (spl_amount a))"

definition create_pda ::
  "env \<Rightarrow> pubkey \<Rightarrow> account_info \<Rightarrow> account_info \<Rightarrow> account_info \<Rightarrow> bytes list \<Rightarrow> u8 \<Rightarrow> nat \<Rightarrow>
   world \<Rightarrow> program_error + world"
where
  "create_pda E pid payer account system_program seeds bump space w =
     (if data_of w account \<noteq> [] \<or> owner_of w account \<noteq> system_program_id E
      then Inl AccountAlreadyInitialized
      else if ai_key system_program \<noteq> system_program_id E then Inl IncorrectProgramId
      else create_pda_account E pid payer account system_program seeds bump space w)"

section \<open>Bounds\<close>

definition check_fee_bps :: "u16 \<Rightarrow> program_error + unit" where
  "check_fee_bps bps = (if bps > MAX_FEE_BPS then Inl (swap_err SwFeeTooHigh) else Inr ())"

definition check_deviation_bps :: "u16 \<Rightarrow> program_error + unit" where
  "check_deviation_bps bps = (if bps = 0 \<or> bps > BPS_DENOM then Inl InvalidArgument else Inr ())"

definition validate_init_args :: "init_pool_args \<Rightarrow> program_error + unit" where
  "validate_init_args args =
     bind_res (check_deviation_bps (ip_max_price_deviation_bps args)) (\<lambda>_.
     bind_res (check_fee_bps (ip_fee_bps args)) (\<lambda>_.
     if sint (ip_min_price_update_interval args) < 0 then Inl InvalidArgument else Inr ()))"

section \<open>Handlers\<close>

definition swap_process_init ::
  "env \<Rightarrow> pubkey \<Rightarrow> account_info list \<Rightarrow> init_pool_args \<Rightarrow> world \<Rightarrow> program_error + world" where
  "swap_process_init E pid accounts args w =
     (case accounts of
        pool_ai # payer # hub_mint # hub_vault # hub_rec_ai # token_program # system_program #
        program_ai # program_data_ai # _ \<Rightarrow>
          if \<not> is_signer payer then Inl MissingRequiredSignature
          else
          bind_res (swap_require_upgrade_authority E pid program_ai program_data_ai (ai_key payer) w) (\<lambda>_.
          if ai_key token_program \<noteq> spl_token_id E then Inl IncorrectProgramId
          else
          bind_res (validate_init_args args) (\<lambda>_.
          let (expected_pool, pool_bump) = find_program_address E [POOL_SEED] pid in
          if ai_key pool_ai \<noteq> expected_pool then Inl InvalidSeeds
          else
          bind_res (create_pda E pid payer pool_ai system_program [POOL_SEED] pool_bump POOL_SPACE w) (\<lambda>w.
          bind_res (swap_store (ser_pool
             \<lparr>ps_owner = ai_key payer,
              ps_oracle = (if ip_oracle args = 0 then ai_key payer else ip_oracle args),
              ps_guardian = ip_guardian args, ps_hub_mint = ai_key hub_mint,
              ps_fee_bps = ip_fee_bps args,
              ps_max_price_deviation_bps = ip_max_price_deviation_bps args,
              ps_min_price_update_interval = ip_min_price_update_interval args,
              ps_paused = False, ps_max_price_age = DEFAULT_MAX_PRICE_AGE\<rparr>) pool_ai w) (\<lambda>w.
          bind_res (clock_get E) (\<lambda>now.
          bind_res (ok_or (unpack_mint E (data_of w hub_mint)) InvalidAccountData) (\<lambda>decimals.
          bind_res (check_vault E pid hub_vault (ai_key hub_mint) (ai_key token_program) w) (\<lambda>_.
          let rec_bump = snd (find_program_address E [TOKEN_SEED, arr_bytes (ai_key hub_mint)] pid) in
          bind_res (create_pda E pid payer hub_rec_ai system_program
                      [TOKEN_SEED, arr_bytes (ai_key hub_mint)] rec_bump TOKEN_SPACE w) (\<lambda>w.
          swap_store (ser_token
             \<lparr>ts_mint = ai_key hub_mint, ts_vault = ai_key hub_vault, ts_decimals = decimals,
              ts_price = PRICE_ONE, ts_reserve = 0, ts_last_price_update = 0, ts_listed = True,
              ts_price_set_at = now\<rparr>) hub_rec_ai w))))))))
      | _ \<Rightarrow> Inl NotEnoughAccountKeys)"

definition process_list_token ::
  "env \<Rightarrow> pubkey \<Rightarrow> account_info list \<Rightarrow> u128 \<Rightarrow> world \<Rightarrow> program_error + world" where
  "process_list_token E pid accounts price w =
     (case accounts of
        pool_ai # owner # mint # vault # rec_ai # token_program # system_program # _ \<Rightarrow>
          bind_res (load_pool E pid pool_ai w) (\<lambda>pool.
          bind_res (require_owner pool owner) (\<lambda>_.
          if price = 0 then Inl (swap_err SwZeroPrice)
          else if ai_key token_program \<noteq> spl_token_id E then Inl IncorrectProgramId
          else if data_of w rec_ai \<noteq> [] \<or> owner_of w rec_ai = pid
            then Inl (swap_err SwTokenAlreadyListed)
          else
          bind_res (check_vault E pid vault (ai_key mint) (ai_key token_program) w) (\<lambda>_.
          bind_res (ok_or (unpack_mint E (data_of w mint)) InvalidAccountData) (\<lambda>decimals.
          let (expected, bump) = find_program_address E [TOKEN_SEED, arr_bytes (ai_key mint)] pid in
          if ai_key rec_ai \<noteq> expected then Inl InvalidSeeds
          else
          bind_res (create_pda E pid owner rec_ai system_program
                      [TOKEN_SEED, arr_bytes (ai_key mint)] bump TOKEN_SPACE w) (\<lambda>w.
          bind_res (clock_get E) (\<lambda>now.
          swap_store (ser_token
             \<lparr>ts_mint = ai_key mint, ts_vault = ai_key vault, ts_decimals = decimals,
              ts_price = price, ts_reserve = 0, ts_last_price_update = 0, ts_listed = True,
              ts_price_set_at = now\<rparr>) rec_ai w))))))
      | _ \<Rightarrow> Inl NotEnoughAccountKeys)"

definition process_set_price ::
  "env \<Rightarrow> pubkey \<Rightarrow> account_info list \<Rightarrow> u128 \<Rightarrow> u128 \<Rightarrow> world \<Rightarrow> program_error + world" where
  "process_set_price E pid accounts expected price w =
     (case accounts of
        pool_ai # oracle # rec_ai # _ \<Rightarrow>
          bind_res (load_pool E pid pool_ai w) (\<lambda>pool.
          if ai_key oracle \<noteq> ps_oracle pool \<or> \<not> is_signer oracle then Inl MissingRequiredSignature
          else if price = 0 then Inl (swap_err SwZeroPrice)
          else
          bind_res (ok_or (deserialize de_token (data_of w rec_ai)) InvalidAccountData) (\<lambda>rec.
          bind_res (load_token E pid rec_ai (ts_mint rec) w) (\<lambda>rec_check.
          if ts_mint rec_check \<noteq> ts_mint rec then Inl (swap_err SwAccountMismatch)
          else if ts_mint rec = ps_hub_mint pool then Inl (swap_err SwHubRepriceForbidden)
          else if ts_price rec \<noteq> expected then Inl (swap_err SwPriceChanged)
          else
          bind_res (clock_get E) (\<lambda>now.
          if ts_last_price_update rec \<noteq> 0 \<and>
             sint now < sint (isat_add (ts_last_price_update rec) (ps_min_price_update_interval pool))
            then Inl (swap_err SwPriceUpdateTooSoon)
          else
          let old = ts_price rec;
              diff = (if price > old then price - old else old - price) in
          bind_res (ok_or (mul_div_floor old (ucast (ps_max_price_deviation_bps pool)) (ucast BPS_DENOM))
                      (swap_err SwOverflow)) (\<lambda>cap.
          if diff > cap then Inl (swap_err SwPriceDeviationTooHigh)
          else
          swap_store (ser_token (rec\<lparr>ts_price := price, ts_last_price_update := now,
                        ts_price_set_at := now\<rparr>)) rec_ai w)))))
      | _ \<Rightarrow> Inl NotEnoughAccountKeys)"

definition process_liquidity ::
  "env \<Rightarrow> pubkey \<Rightarrow> account_info list \<Rightarrow> u64 \<Rightarrow> bool \<Rightarrow> world \<Rightarrow> program_error + world" where
  "process_liquidity E pid accounts amount inward w =
     (case accounts of
        pool_ai # owner # rec_ai # owner_ata # vault # mint # vault_authority # token_program # _ \<Rightarrow>
          bind_res (load_pool E pid pool_ai w) (\<lambda>pool.
          bind_res (require_owner pool owner) (\<lambda>_.
          if amount = 0 then Inl (swap_err SwZeroAmount)
          else
          bind_res (load_token E pid rec_ai (ai_key mint) w) (\<lambda>rec.
          if ts_vault rec \<noteq> ai_key vault then Inl (swap_err SwAccountMismatch)
          else if ai_key token_program \<noteq> spl_token_id E then Inl IncorrectProgramId
          else
          bind_res (vault_balance E vault w) (\<lambda>before.
          if inward then
            bind_res (invoke E pid
                        (SplTransferChecked (ai_key token_program) (ai_key owner_ata) (ai_key mint)
                           (ai_key vault) (ai_key owner) amount (ts_decimals rec))
                        [owner_ata, mint, vault, owner, token_program] w) (\<lambda>w.
            bind_res (vault_balance E vault w) (\<lambda>after.
            bind_res (ok_or (checked_sub after before) (swap_err SwOverflow)) (\<lambda>received.
            bind_res (ok_or (checked_add (ts_reserve rec) received) (swap_err SwOverflow)) (\<lambda>reserve.
            swap_store (ser_token (rec\<lparr>ts_reserve := reserve\<rparr>)) rec_ai w))))
          else if amount > ts_reserve rec then Inl (swap_err SwExceedsLock)
          else
            let (auth, bump) = find_program_address E [VAULT_AUTHORITY_SEED] pid in
            if ai_key vault_authority \<noteq> auth then Inl (swap_err SwVaultNotOwned)
            else
            bind_res (invoke_signed E pid
                        (SplTransferChecked (ai_key token_program) (ai_key vault) (ai_key mint)
                           (ai_key owner_ata) auth amount (ts_decimals rec))
                        [vault, mint, owner_ata, vault_authority, token_program]
                        [[VAULT_AUTHORITY_SEED, [bump]]] w) (\<lambda>w.
            swap_store (ser_token (rec\<lparr>ts_reserve := ts_reserve rec - amount\<rparr>)) rec_ai w)))))
      | _ \<Rightarrow> Inl NotEnoughAccountKeys)"

definition process_swap ::
  "env \<Rightarrow> pubkey \<Rightarrow> account_info list \<Rightarrow> u64 \<Rightarrow> u64 \<Rightarrow> world \<Rightarrow> program_error + world" where
  "process_swap E pid accounts amount_in min_amount_out w =
     (case accounts of
        pool_ai # user # rec_in_ai # rec_out_ai # user_in # user_out # vault_in # vault_out #
        mint_in # mint_out # vault_authority # token_program # _ \<Rightarrow>
          bind_res (load_pool E pid pool_ai w) (\<lambda>pool.
          if ps_paused pool then Inl (swap_err SwPaused)
          else if \<not> is_signer user then Inl MissingRequiredSignature
          else if ai_key mint_in = ai_key mint_out then Inl (swap_err SwSameToken)
          else if amount_in = 0 then Inl (swap_err SwZeroAmount)
          else if ai_key token_program \<noteq> spl_token_id E then Inl IncorrectProgramId
          else
          bind_res (load_token E pid rec_in_ai (ai_key mint_in) w) (\<lambda>rec_in.
          bind_res (load_token E pid rec_out_ai (ai_key mint_out) w) (\<lambda>rec_out.
          if ts_vault rec_in \<noteq> ai_key vault_in \<or> ts_vault rec_out \<noteq> ai_key vault_out
            then Inl (swap_err SwAccountMismatch)
          else
          bind_res (clock_get E) (\<lambda>now.
          if \<not> price_is_fresh pool rec_in now \<or> \<not> price_is_fresh pool rec_out now
            then Inl (swap_err SwStalePrice)
          else
          bind_res (vault_balance E vault_in w) (\<lambda>before.
          bind_res (invoke E pid
                      (SplTransferChecked (ai_key token_program) (ai_key user_in) (ai_key mint_in)
                         (ai_key vault_in) (ai_key user) amount_in (ts_decimals rec_in))
                      [user_in, mint_in, vault_in, user, token_program] w) (\<lambda>w.
          bind_res (vault_balance E vault_in w) (\<lambda>after.
          bind_res (ok_or (checked_sub after before) (swap_err SwOverflow)) (\<lambda>received.
          if received = 0 then Inl (swap_err SwZeroAmount)
          else
          bind_res (ok_or (amount_out received (ts_price rec_in) (ts_decimals rec_in) (ts_price rec_out)
                             (ts_decimals rec_out) (ps_fee_bps pool)) (swap_err SwOverflow)) (\<lambda>out.
          if out = 0 then Inl (swap_err SwZeroAmount)
          else if out < min_amount_out then Inl (swap_err SwSlippage)
          else if out > ts_reserve rec_out then Inl (swap_err SwExceedsLock)
          else
          bind_res (ok_or (checked_add (ts_reserve rec_in) received) (swap_err SwOverflow)) (\<lambda>reserve_in.
          bind_res (swap_store (ser_token (rec_in\<lparr>ts_reserve := reserve_in\<rparr>)) rec_in_ai w) (\<lambda>w.
          bind_res (swap_store (ser_token (rec_out\<lparr>ts_reserve := ts_reserve rec_out - out\<rparr>)) rec_out_ai w) (\<lambda>w.
          let (auth, bump) = find_program_address E [VAULT_AUTHORITY_SEED] pid in
          if ai_key vault_authority \<noteq> auth then Inl (swap_err SwVaultNotOwned)
          else
          bind_res (invoke_signed E pid
                      (SplTransferChecked (ai_key token_program) (ai_key vault_out) (ai_key mint_out)
                         (ai_key user_out) auth out (ts_decimals rec_out))
                      [vault_out, mint_out, user_out, vault_authority, token_program]
                      [[VAULT_AUTHORITY_SEED, [bump]]] w) (\<lambda>w.
          bind_res (swapped_log_fields
                      \<lparr>se_version = 1, se_sender = ai_key user, se_mint_in = ai_key mint_in,
                       se_mint_out = ai_key mint_out, se_amount_in = received, se_amount_out = out,
                       se_to = ai_key user_out\<rparr>) (\<lambda>fields.
          Inr (sol_log_data fields w)))))))))))))))
      | _ \<Rightarrow> Inl NotEnoughAccountKeys)"

definition swap_process_set_paused ::
  "env \<Rightarrow> pubkey \<Rightarrow> account_info list \<Rightarrow> bool \<Rightarrow> world \<Rightarrow> program_error + world" where
  "swap_process_set_paused E pid accounts pausing w =
     (case accounts of
        pool_ai # who # _ \<Rightarrow>
          bind_res (load_pool E pid pool_ai w) (\<lambda>pool.
          if \<not> is_signer who then Inl MissingRequiredSignature
          else
          let allowed =
            (if pausing then ai_key who = ps_owner pool \<or>
               (ps_guardian pool \<noteq> 0 \<and> ai_key who = ps_guardian pool)
             else ai_key who = ps_owner pool) in
          if \<not> allowed then Inl (swap_err SwNotAuthorizedToPause)
          else swap_store (ser_pool (pool\<lparr>ps_paused := pausing\<rparr>)) pool_ai w)
      | _ \<Rightarrow> Inl NotEnoughAccountKeys)"

definition process_set_role ::
  "env \<Rightarrow> pubkey \<Rightarrow> account_info list \<Rightarrow> swap_role \<Rightarrow> world \<Rightarrow> program_error + world" where
  "process_set_role E pid accounts role w =
     (case accounts of
        pool_ai # owner # _ \<Rightarrow>
          bind_res (load_pool E pid pool_ai w) (\<lambda>pool.
          bind_res (require_owner pool owner) (\<lambda>_.
          bind_res
            (case role of
               RoleGuardian g \<Rightarrow> Inr (pool\<lparr>ps_guardian := g\<rparr>)
             | RoleOracle k \<Rightarrow> Inr (pool\<lparr>ps_oracle := k\<rparr>)
             | RoleFee f \<Rightarrow> bind_res (check_fee_bps f) (\<lambda>_. Inr (pool\<lparr>ps_fee_bps := f\<rparr>))
             | RoleMaxPriceDeviation bps \<Rightarrow>
                 bind_res (check_deviation_bps bps) (\<lambda>_. Inr (pool\<lparr>ps_max_price_deviation_bps := bps\<rparr>))
             | RoleMaxPriceAge s \<Rightarrow>
                 if sint s \<le> 0 then Inl InvalidArgument else Inr (pool\<lparr>ps_max_price_age := s\<rparr>)
             | RoleMinPriceUpdateInterval s \<Rightarrow>
                 if sint s < 0 then Inl InvalidArgument
                 else Inr (pool\<lparr>ps_min_price_update_interval := s\<rparr>)) (\<lambda>pool.
          swap_store (ser_pool pool) pool_ai w)))
      | _ \<Rightarrow> Inl NotEnoughAccountKeys)"

fun swap_step ::
  "env \<Rightarrow> pubkey \<Rightarrow> account_info list \<Rightarrow> swap_instruction \<Rightarrow> world \<Rightarrow> program_error + world" where
  "swap_step E pid accounts (InitPool args) w = swap_process_init E pid accounts args w"
| "swap_step E pid accounts (ListToken price) w = process_list_token E pid accounts price w"
| "swap_step E pid accounts (SetPrice price) w = Inl (swap_err SwSetPriceRemoved)"
| "swap_step E pid accounts (SetPriceFrom expected price) w = process_set_price E pid accounts expected price w"
| "swap_step E pid accounts (SeedLiquidity amount) w = process_liquidity E pid accounts amount True w"
| "swap_step E pid accounts (WithdrawLiquidity amount) w = process_liquidity E pid accounts amount False w"
| "swap_step E pid accounts (Swap amount_in min_out) w = process_swap E pid accounts amount_in min_out w"
| "swap_step E pid accounts PausePool w = swap_process_set_paused E pid accounts True w"
| "swap_step E pid accounts UnpausePool w = swap_process_set_paused E pid accounts False w"
| "swap_step E pid accounts (SetPoolGuardian g) w = process_set_role E pid accounts (RoleGuardian g) w"
| "swap_step E pid accounts (SetOracle k) w = process_set_role E pid accounts (RoleOracle k) w"
| "swap_step E pid accounts (SetFee f) w = process_set_role E pid accounts (RoleFee f) w"
| "swap_step E pid accounts (SetMaxPriceDeviation b) w = process_set_role E pid accounts (RoleMaxPriceDeviation b) w"
| "swap_step E pid accounts (SetMaxPriceAge s) w = process_set_role E pid accounts (RoleMaxPriceAge s) w"
| "swap_step E pid accounts (SetMinPriceUpdateInterval s) w =
     process_set_role E pid accounts (RoleMinPriceUpdateInterval s) w"

definition swap_process_instruction ::
  "env \<Rightarrow> pubkey \<Rightarrow> account_info list \<Rightarrow> bytes \<Rightarrow> world \<Rightarrow> program_error + world" where
  "swap_process_instruction E pid accounts data w =
     bind_res (ok_or (try_from_slice de_swap_instruction data) InvalidInstructionData) (\<lambda>ix.
     swap_step E pid accounts ix w)"

end
