(* ===== verification/SwapState.thy ===== *)
theory SwapState
  imports SwapHandlers GateFunds
begin

text \<open>
  The storage of the swap program: the pool and the token records it keeps at
  program-derived addresses, and what the success of each handler implies for them
  and for the token accounts.
\<close>

section \<open>Views\<close>

definition swap_seeds :: "bytes list \<Rightarrow> bool" where
  "swap_seeds s \<longleftrightarrow> s = [POOL_SEED] \<or> (\<exists>m :: pubkey. s = [TOKEN_SEED, arr_bytes m])"

text \<open>No other address of the program collides with that of the seeds \<open>s\<close>.\<close>

definition swap_apart :: "env \<Rightarrow> pubkey \<Rightarrow> bytes list \<Rightarrow> bool" where
  "swap_apart E pid s \<longleftrightarrow> (\<forall>s'. swap_seeds s' \<and> s' \<noteq> s \<longrightarrow> pda E pid s' \<noteq> pda E pid s)"

definition pool_at :: "env \<Rightarrow> pubkey \<Rightarrow> world \<Rightarrow> pool_state option" where
  "pool_at E pid w = Option.bind (store pid w (pda E pid [POOL_SEED])) (deserialize de_pool)"

definition token_at :: "env \<Rightarrow> pubkey \<Rightarrow> world \<Rightarrow> pubkey \<Rightarrow> token_state option" where
  "token_at E pid w m =
     Option.bind (store pid w (pda E pid [TOKEN_SEED, arr_bytes m])) (deserialize de_token)"

lemma swap_seeds_simps [simp]: "swap_seeds [POOL_SEED]" "swap_seeds [TOKEN_SEED, arr_bytes (m :: pubkey)]"
  by (auto simp: swap_seeds_def)

lemma token_seeds_inject [simp]:
  "[TOKEN_SEED, arr_bytes (m :: pubkey)] = [TOKEN_SEED, arr_bytes m'] \<longleftrightarrow> m = m'"
  by (simp add: arr_bytes_inject)

lemma apart_token:
  "swap_apart E pid [TOKEN_SEED, arr_bytes (m :: pubkey)] \<Longrightarrow> m' \<noteq> m \<Longrightarrow>
   pda E pid [TOKEN_SEED, arr_bytes m'] \<noteq> pda E pid [TOKEN_SEED, arr_bytes m]"
  unfolding swap_apart_def using token_seeds_inject swap_seeds_simps(2) by blast

lemma apart_pool_token:
  "swap_apart E pid [POOL_SEED] \<or> swap_apart E pid [TOKEN_SEED, arr_bytes (m :: pubkey)] \<Longrightarrow>
   pda E pid [TOKEN_SEED, arr_bytes m] \<noteq> pda E pid [POOL_SEED]"
  unfolding swap_apart_def using swap_seeds_simps by (metis list.inject list.distinct(1))

lemma views_cong:
  "store pid w' = store pid w \<Longrightarrow> pool_at E pid w' = pool_at E pid w"
  "store pid w' = store pid w \<Longrightarrow> token_at E pid w' = token_at E pid w"
  by (simp_all add: pool_at_def token_at_def fun_eq_iff)

section \<open>Loading and storing\<close>

lemma load_pool_Inr:
  "load_pool E pid ai w = Inr p \<longleftrightarrow>
     ai_key ai = pda E pid [POOL_SEED] \<and> owner_of w ai = pid \<and> deserialize de_pool (data_of w ai) = Some p"
  by (auto simp: load_pool_def res_simps)

lemma load_token_Inr:
  "load_token E pid ai m w = Inr r \<longleftrightarrow>
     ai_key ai = pda E pid [TOKEN_SEED, arr_bytes m] \<and> owner_of w ai = pid \<and>
     deserialize de_token (data_of w ai) = Some r \<and> ts_listed r"
  by (auto simp: load_token_def res_simps)

lemma load_pool_at: "load_pool E pid ai w = Inr p \<Longrightarrow> pool_at E pid w = Some p"
  by (auto simp: load_pool_Inr pool_at_def store_def)

lemma load_token_at: "load_token E pid ai m w = Inr r \<Longrightarrow> token_at E pid w m = Some r"
  by (auto simp: load_token_Inr token_at_def store_def)

lemma require_owner_Inr [res_simps]:
  "require_owner p s = Inr u \<longleftrightarrow> ai_key s = ps_owner p \<and> is_signer s"
  by (auto simp: require_owner_def)

lemma vault_balance_Inr [res_simps]:
  "vault_balance E v w = Inr n \<longleftrightarrow> (\<exists>a. unpack_account E (data_of w v) = Some a \<and> n = spl_amount a)"
  by (auto simp: vault_balance_def res_simps)

lemma check_vault_Inr [res_simps]:
  "check_vault E pid v m tp w = Inr u \<longleftrightarrow>
     owner_of w v = tp \<and> (\<exists>a. unpack_account E (data_of w v) = Some a \<and> spl_mint a = m \<and>
       spl_owner a = pda E pid [VAULT_AUTHORITY_SEED] \<and> spl_delegate a = None \<and> spl_close_authority a = None)"
  by (auto simp: check_vault_def res_simps)

lemma swap_store_Inr:
  "swap_store v ai w = Inr w' \<longleftrightarrow>
     (\<exists>bs. v = Some bs \<and> length bs \<le> length (data_of w ai) \<and>
        w' = set_data ai (bs @ drop (length bs) (data_of w ai)) w)"
  by (auto simp: swap_store_def res_simps not_less)

lemma swap_store_effect:
  assumes "swap_store v ai w = Inr w'" "owner_of w ai = pid"
  obtains bs d where "v = Some bs" "store pid w' = (store pid w)(ai_key ai \<mapsto> bs @ d)"
    "\<And>k. acct_owner (accts w' k) = acct_owner (accts w k)"
    "\<And>k. acct_owner (accts w k) \<noteq> pid \<Longrightarrow> accts w' k = accts w k" "logs w' = logs w"
proof -
  obtain bs where "v = Some bs" and w': "w' = set_data ai (bs @ drop (length bs) (data_of w ai)) w"
    using assms(1) by (auto simp: swap_store_Inr)
  then show ?thesis
    using assms(2) by (intro that [of bs]) (auto simp: store_set_data set_data_accts)
qed

lemma store_pool_effect:
  assumes "swap_store (ser_pool p) ai w = Inr w'" "owner_of w ai = pid" "ai_key ai = pda E pid [POOL_SEED]"
  shows "pool_at E pid w' = Some p"
    and "swap_apart E pid [TOKEN_SEED, arr_bytes m] \<Longrightarrow> token_at E pid w' m = token_at E pid w m"
    and "acct_owner (accts w k) \<noteq> pid \<Longrightarrow> accts w' k = accts w k" and "logs w' = logs w"
proof -
  from assms(1,2) obtain bs d where bs: "ser_pool p = Some bs"
    and st: "store pid w' = (store pid w)(ai_key ai \<mapsto> bs @ d)"
    and k: "\<And>k. acct_owner (accts w k) \<noteq> pid \<Longrightarrow> accts w' k = accts w k" and l: "logs w' = logs w"
    by (rule swap_store_effect) (rule that)
  show "pool_at E pid w' = Some p"
    using poolc.deserialize_padded [OF bs] by (simp add: pool_at_def st assms(3))
  show "token_at E pid w' m = token_at E pid w m" if "swap_apart E pid [TOKEN_SEED, arr_bytes m]"
    using apart_pool_token [OF disjI2 [OF that]] by (simp add: token_at_def st assms(3))
  show "acct_owner (accts w k) \<noteq> pid \<Longrightarrow> accts w' k = accts w k" by (rule k)
  show "logs w' = logs w" by (rule l)
qed

lemma store_token_effect:
  assumes "swap_store (ser_token r) ai w = Inr w'" "owner_of w ai = pid"
    and "ai_key ai = pda E pid [TOKEN_SEED, arr_bytes (m :: pubkey)]"
  shows "token_at E pid w' m = Some r"
    and "swap_apart E pid [POOL_SEED] \<Longrightarrow> pool_at E pid w' = pool_at E pid w"
    and "swap_apart E pid [TOKEN_SEED, arr_bytes m'] \<Longrightarrow> m' \<noteq> m \<Longrightarrow> token_at E pid w' m' = token_at E pid w m'"
    and "acct_owner (accts w k) \<noteq> pid \<Longrightarrow> accts w' k = accts w k" and "logs w' = logs w"
    and "acct_owner (accts w' k) = acct_owner (accts w k)"
proof -
  from assms(1,2) obtain bs d where bs: "ser_token r = Some bs"
    and st: "store pid w' = (store pid w)(ai_key ai \<mapsto> bs @ d)"
    and o: "\<And>k. acct_owner (accts w' k) = acct_owner (accts w k)"
    and k: "\<And>k. acct_owner (accts w k) \<noteq> pid \<Longrightarrow> accts w' k = accts w k" and l: "logs w' = logs w"
    by (rule swap_store_effect) (rule that)
  show "token_at E pid w' m = Some r"
    using tokenc.deserialize_padded [OF bs] by (simp add: token_at_def st assms(3))
  show "pool_at E pid w' = pool_at E pid w" if "swap_apart E pid [POOL_SEED]"
    using apart_pool_token [OF disjI1 [OF that], of m] by (simp add: pool_at_def st assms(3))
  show "token_at E pid w' m' = token_at E pid w m'" if "swap_apart E pid [TOKEN_SEED, arr_bytes m']" "m' \<noteq> m"
    using apart_token [OF that(1) that(2) [symmetric]] by (simp add: token_at_def st assms(3))
  show "acct_owner (accts w k) \<noteq> pid \<Longrightarrow> accts w' k = accts w k" by (rule k)
  show "logs w' = logs w" by (rule l)
  show "acct_owner (accts w' k) = acct_owner (accts w k)" by (rule o)
qed

section \<open>Checked transfers\<close>

lemma transfer_checked_effect:
  assumes "invoke_signed E pid (SplTransferChecked p s m d au n dec) infos seeds w = Inr w'" "runtime_ok E pid"
  shows "token_moved E s d n (accts w) (accts w')" and "store pid w' = store pid w"
    and "\<exists>a. unpack_account E (acct_data (accts w s)) = Some a \<and> spl_mint a = m" and "logs w' = logs w"
    and "acct_owner (accts w' k) = acct_owner (accts w k)"
proof -
  have tr: "token_rule E pid" and o: "owner_rule E pid" using assms(2) by (auto simp: runtime_ok_def)
  obtain a where a: "invoke_program E pid (SplTransferChecked p s m d au n dec) infos seeds (accts w) = Inr a"
    and w': "w' = w\<lparr>accts := a\<rparr>"
    using assms(1) by (auto simp: invoke_signed_Inr)
  have "token_moved E s d n (accts w) a \<and> (\<exists>x. unpack_account E (acct_data (accts w s)) = Some x \<and> spl_mint x = m)"
    using tr a unfolding token_rule_def by blast
  then show tm: "token_moved E s d n (accts w) (accts w')"
    and "\<exists>a. unpack_account E (acct_data (accts w s)) = Some a \<and> spl_mint a = m"
    by (simp_all add: w')
  show ow: "acct_owner (accts w' k) = acct_owner (accts w k)" for k using tm by (simp add: token_moved_def)
  show "store pid w' = store pid w"
    using owned_data_invoke [OF o assms(1)] ow by (auto simp: store_def fun_eq_iff)
  show "logs w' = logs w" by (simp add: w')
qed

lemmas transfer_effect = transfer_checked_effect [where seeds = "[]", folded invoke_def]

end
