(* ===== verification/SwapSuccess.thy ===== *)
theory SwapSuccess
  imports SwapState
begin

text \<open>
  What the success of each handler of the swap program implies: one equivalence per
  handler, listing its guards and its effects.
\<close>

definition price_move :: "u128 \<Rightarrow> u128 \<Rightarrow> u128" where
  "price_move old price = (if price > old then price - old else old - price)"

definition swap_price_ok :: "pool_state \<Rightarrow> token_state \<Rightarrow> u128 \<Rightarrow> i64 \<Rightarrow> bool" where
  "swap_price_ok pool rec price now \<longleftrightarrow>
     (ts_last_price_update rec = 0 \<or>
        sint (isat_add (ts_last_price_update rec) (ps_min_price_update_interval pool)) \<le> sint now) \<and>
     (\<exists>cap. mul_div_floor (ts_price rec) (ucast (ps_max_price_deviation_bps pool)) (ucast BPS_DENOM) = Some cap \<and>
        price_move (ts_price rec) price \<le> cap)"

lemma process_set_price_iff:
  "process_set_price E pid (pool_ai # oracle # rec_ai # rest) expected price w = Inr w' \<longleftrightarrow>
   (\<exists>pool rec now.
      load_pool E pid pool_ai w = Inr pool \<and> ai_key oracle = ps_oracle pool \<and> is_signer oracle \<and>
      price \<noteq> 0 \<and> load_token E pid rec_ai (ts_mint rec) w = Inr rec \<and>
      ts_mint rec \<noteq> ps_hub_mint pool \<and> ts_price rec = expected \<and> clock_get E = Inr now \<and>
      swap_price_ok pool rec price now \<and>
      swap_store (ser_token (rec\<lparr>ts_price := price, ts_last_price_update := now, ts_price_set_at := now\<rparr>))
        rec_ai w = Inr w')"
  unfolding process_set_price_def swap_price_ok_def Let_def price_move_def [symmetric]
  by (auto simp: res_simps Let_def load_token_Inr not_less)

lemma process_list_token_iff:
  "process_list_token E pid (pool_ai # owner # mint # vault # rec_ai # tp # sys # rest) price w = Inr w' \<longleftrightarrow>
   (\<exists>pool decimals w1 now.
      load_pool E pid pool_ai w = Inr pool \<and> ai_key owner = ps_owner pool \<and> is_signer owner \<and>
      price \<noteq> 0 \<and> ai_key tp = spl_token_id E \<and> data_of w rec_ai = [] \<and> owner_of w rec_ai \<noteq> pid \<and>
      check_vault E pid vault (ai_key mint) (spl_token_id E) w = Inr () \<and>
      unpack_mint E (data_of w mint) = Some decimals \<and>
      ai_key rec_ai = pda E pid [TOKEN_SEED, arr_bytes (ai_key mint)] \<and>
      create_pda E pid owner rec_ai sys [TOKEN_SEED, arr_bytes (ai_key mint)]
        (bump_of E pid [TOKEN_SEED, arr_bytes (ai_key mint)]) TOKEN_SPACE w = Inr w1 \<and>
      clock_get E = Inr now \<and>
      swap_store (ser_token
             \<lparr>ts_mint = ai_key mint, ts_vault = ai_key vault, ts_decimals = decimals,
              ts_price = price, ts_reserve = 0, ts_last_price_update = 0, ts_listed = True,
              ts_price_set_at = now\<rparr>) rec_ai w1 = Inr w')"
  unfolding process_list_token_def
  by (auto simp: res_simps Let_def split_beta)

lemma process_seed_iff:
  "process_liquidity E pid (pool_ai # owner # rec_ai # owner_ata # vault # mint # va # tp # rest) amount True w = Inr w' \<longleftrightarrow>
   (\<exists>pool rec w1 a b received reserve.
      load_pool E pid pool_ai w = Inr pool \<and> ai_key owner = ps_owner pool \<and> is_signer owner \<and>
      amount \<noteq> 0 \<and> load_token E pid rec_ai (ai_key mint) w = Inr rec \<and> ts_vault rec = ai_key vault \<and>
      ai_key tp = spl_token_id E \<and>
      invoke E pid (SplTransferChecked (ai_key tp) (ai_key owner_ata) (ai_key mint) (ai_key vault)
          (ai_key owner) amount (ts_decimals rec)) [owner_ata, mint, vault, owner, tp] w = Inr w1 \<and>
      unpack_account E (data_of w vault) = Some a \<and> unpack_account E (data_of w1 vault) = Some b \<and>
      checked_sub (spl_amount b) (spl_amount a) = Some received \<and>
      checked_add (ts_reserve rec) received = Some reserve \<and>
      swap_store (ser_token (rec\<lparr>ts_reserve := reserve\<rparr>)) rec_ai w1 = Inr w')"
  unfolding process_liquidity_def
  by (auto simp: res_simps Let_def split_beta)

lemma process_withdraw_iff:
  "process_liquidity E pid (pool_ai # owner # rec_ai # owner_ata # vault # mint # va # tp # rest) amount False w = Inr w' \<longleftrightarrow>
   (\<exists>pool rec w1 a.
      load_pool E pid pool_ai w = Inr pool \<and> ai_key owner = ps_owner pool \<and> is_signer owner \<and>
      amount \<noteq> 0 \<and> load_token E pid rec_ai (ai_key mint) w = Inr rec \<and> ts_vault rec = ai_key vault \<and>
      ai_key tp = spl_token_id E \<and> unpack_account E (data_of w vault) = Some a \<and>
      amount \<le> ts_reserve rec \<and> ai_key va = pda E pid [VAULT_AUTHORITY_SEED] \<and>
      invoke_signed E pid (SplTransferChecked (ai_key tp) (ai_key vault) (ai_key mint) (ai_key owner_ata)
          (pda E pid [VAULT_AUTHORITY_SEED]) amount (ts_decimals rec)) [vault, mint, owner_ata, va, tp]
        [[VAULT_AUTHORITY_SEED, [bump_of E pid [VAULT_AUTHORITY_SEED]]]] w = Inr w1 \<and>
      swap_store (ser_token (rec\<lparr>ts_reserve := ts_reserve rec - amount\<rparr>)) rec_ai w1 = Inr w')"
  unfolding process_liquidity_def
  by (auto simp: res_simps Let_def split_beta not_less)

definition swapped :: "pubkey \<Rightarrow> pubkey \<Rightarrow> pubkey \<Rightarrow> u64 \<Rightarrow> u64 \<Rightarrow> pubkey \<Rightarrow> swapped_event" where
  "swapped user mi mo received out dst =
     \<lparr>se_version = 1, se_sender = user, se_mint_in = mi, se_mint_out = mo, se_amount_in = received,
      se_amount_out = out, se_to = dst\<rparr>"

lemma process_swap_iff:
  "process_swap E pid (pool_ai # user # rec_in_ai # rec_out_ai # user_in # user_out # vault_in # vault_out #
      mint_in # mint_out # va # tp # rest) amount_in min_out w = Inr w' \<longleftrightarrow>
   (\<exists>pool rec_in rec_out now w1 w2 w3 w4 a b received out reserve fields.
      load_pool E pid pool_ai w = Inr pool \<and> \<not> ps_paused pool \<and> is_signer user \<and>
      ai_key mint_in \<noteq> ai_key mint_out \<and> amount_in \<noteq> 0 \<and> ai_key tp = spl_token_id E \<and>
      load_token E pid rec_in_ai (ai_key mint_in) w = Inr rec_in \<and>
      load_token E pid rec_out_ai (ai_key mint_out) w = Inr rec_out \<and>
      ts_vault rec_in = ai_key vault_in \<and> ts_vault rec_out = ai_key vault_out \<and> clock_get E = Inr now \<and>
      price_is_fresh pool rec_in now \<and> price_is_fresh pool rec_out now \<and>
      unpack_account E (data_of w vault_in) = Some a \<and>
      invoke E pid (SplTransferChecked (ai_key tp) (ai_key user_in) (ai_key mint_in) (ai_key vault_in)
          (ai_key user) amount_in (ts_decimals rec_in)) [user_in, mint_in, vault_in, user, tp] w = Inr w1 \<and>
      unpack_account E (data_of w1 vault_in) = Some b \<and>
      checked_sub (spl_amount b) (spl_amount a) = Some received \<and> received \<noteq> 0 \<and>
      amount_out received (ts_price rec_in) (ts_decimals rec_in) (ts_price rec_out) (ts_decimals rec_out)
        (ps_fee_bps pool) = Some out \<and>
      out \<noteq> 0 \<and> min_out \<le> out \<and> out \<le> ts_reserve rec_out \<and>
      checked_add (ts_reserve rec_in) received = Some reserve \<and>
      swap_store (ser_token (rec_in\<lparr>ts_reserve := reserve\<rparr>)) rec_in_ai w1 = Inr w2 \<and>
      swap_store (ser_token (rec_out\<lparr>ts_reserve := ts_reserve rec_out - out\<rparr>)) rec_out_ai w2 = Inr w3 \<and>
      ai_key va = pda E pid [VAULT_AUTHORITY_SEED] \<and>
      invoke_signed E pid (SplTransferChecked (ai_key tp) (ai_key vault_out) (ai_key mint_out) (ai_key user_out)
          (pda E pid [VAULT_AUTHORITY_SEED]) out (ts_decimals rec_out)) [vault_out, mint_out, user_out, va, tp]
        [[VAULT_AUTHORITY_SEED, [bump_of E pid [VAULT_AUTHORITY_SEED]]]] w3 = Inr w4 \<and>
      swapped_log_fields (swapped (ai_key user) (ai_key mint_in) (ai_key mint_out) received out (ai_key user_out)) =
        Inr fields \<and>
      w' = sol_log_data fields w4)"
  unfolding process_swap_def swapped_def
  by (auto simp: res_simps Let_def split_beta not_less)

lemma swap_set_paused_iff:
  "swap_process_set_paused E pid (pool_ai # who # rest) pausing w = Inr w' \<longleftrightarrow>
   (\<exists>pool. load_pool E pid pool_ai w = Inr pool \<and> is_signer who \<and>
      (ai_key who = ps_owner pool \<or> pausing \<and> ps_guardian pool \<noteq> 0 \<and> ai_key who = ps_guardian pool) \<and>
      swap_store (ser_pool (pool\<lparr>ps_paused := pausing\<rparr>)) pool_ai w = Inr w')"
  unfolding swap_process_set_paused_def by (cases pausing) (auto simp: res_simps Let_def)

text \<open>The pool after a change of a role or a bound, if the change is allowed.\<close>

definition set_role :: "pool_state \<Rightarrow> swap_role \<Rightarrow> pool_state option" where
  "set_role pool role =
     (case role of
        RoleGuardian g \<Rightarrow> Some (pool\<lparr>ps_guardian := g\<rparr>)
      | RoleOracle k \<Rightarrow> Some (pool\<lparr>ps_oracle := k\<rparr>)
      | RoleFee f \<Rightarrow> if f \<le> MAX_FEE_BPS then Some (pool\<lparr>ps_fee_bps := f\<rparr>) else None
      | RoleMaxPriceDeviation b \<Rightarrow>
          if b \<noteq> 0 \<and> b \<le> BPS_DENOM then Some (pool\<lparr>ps_max_price_deviation_bps := b\<rparr>) else None
      | RoleMaxPriceAge s \<Rightarrow> if sint s > 0 then Some (pool\<lparr>ps_max_price_age := s\<rparr>) else None
      | RoleMinPriceUpdateInterval s \<Rightarrow>
          if sint s \<ge> 0 then Some (pool\<lparr>ps_min_price_update_interval := s\<rparr>) else None)"

lemma process_set_role_iff:
  "process_set_role E pid (pool_ai # owner # rest) role w = Inr w' \<longleftrightarrow>
   (\<exists>pool pool'. load_pool E pid pool_ai w = Inr pool \<and> ai_key owner = ps_owner pool \<and> is_signer owner \<and>
      set_role pool role = Some pool' \<and> swap_store (ser_pool pool') pool_ai w = Inr w')"
  unfolding process_set_role_def set_role_def
  by (cases role) (auto simp: res_simps check_fee_bps_def check_deviation_bps_def not_less not_le)

definition init_pool :: "init_pool_args \<Rightarrow> pubkey \<Rightarrow> pubkey \<Rightarrow> pool_state" where
  "init_pool args payer hub =
     \<lparr>ps_owner = payer, ps_oracle = (if ip_oracle args = 0 then payer else ip_oracle args),
      ps_guardian = ip_guardian args, ps_hub_mint = hub, ps_fee_bps = ip_fee_bps args,
      ps_max_price_deviation_bps = ip_max_price_deviation_bps args,
      ps_min_price_update_interval = ip_min_price_update_interval args,
      ps_paused = False, ps_max_price_age = DEFAULT_MAX_PRICE_AGE\<rparr>"

lemma swap_init_iff:
  "swap_process_init E pid (pool_ai # payer # hub_mint # hub_vault # rec_ai # tp # sys # prog # pdata # rest) args w = Inr w' \<longleftrightarrow>
   (\<exists>w1 w2 w3 now decimals.
      is_signer payer \<and> swap_require_upgrade_authority E pid prog pdata (ai_key payer) w = Inr () \<and>
      ai_key tp = spl_token_id E \<and> validate_init_args args = Inr () \<and> ai_key pool_ai = pda E pid [POOL_SEED] \<and>
      create_pda E pid payer pool_ai sys [POOL_SEED] (bump_of E pid [POOL_SEED]) POOL_SPACE w = Inr w1 \<and>
      swap_store (ser_pool (init_pool args (ai_key payer) (ai_key hub_mint))) pool_ai w1 = Inr w2 \<and>
      clock_get E = Inr now \<and> unpack_mint E (data_of w2 hub_mint) = Some decimals \<and>
      check_vault E pid hub_vault (ai_key hub_mint) (spl_token_id E) w2 = Inr () \<and>
      create_pda E pid payer rec_ai sys [TOKEN_SEED, arr_bytes (ai_key hub_mint)]
        (bump_of E pid [TOKEN_SEED, arr_bytes (ai_key hub_mint)]) TOKEN_SPACE w2 = Inr w3 \<and>
      swap_store (ser_token
             \<lparr>ts_mint = ai_key hub_mint, ts_vault = ai_key hub_vault, ts_decimals = decimals,
              ts_price = PRICE_ONE, ts_reserve = 0, ts_last_price_update = 0, ts_listed = True,
              ts_price_set_at = now\<rparr>) rec_ai w3 = Inr w')"
  unfolding swap_process_init_def init_pool_def
  by (auto simp: res_simps Let_def split_beta)

section \<open>Account lists\<close>

lemma swap_accs:
  assumes "swap_step E pid accs ix w = Inr w'"
  shows "case ix of
      InitPool a \<Rightarrow> \<exists>a1 a2 a3 a4 a5 a6 a7 a8 a9 r. accs = a1 # a2 # a3 # a4 # a5 # a6 # a7 # a8 # a9 # r
    | ListToken p \<Rightarrow> \<exists>a1 a2 a3 a4 a5 a6 a7 r. accs = a1 # a2 # a3 # a4 # a5 # a6 # a7 # r
    | SetPrice p \<Rightarrow> False
    | SetPriceFrom e p \<Rightarrow> \<exists>a1 a2 a3 r. accs = a1 # a2 # a3 # r
    | SeedLiquidity n \<Rightarrow> \<exists>a1 a2 a3 a4 a5 a6 a7 a8 r. accs = a1 # a2 # a3 # a4 # a5 # a6 # a7 # a8 # r
    | WithdrawLiquidity n \<Rightarrow> \<exists>a1 a2 a3 a4 a5 a6 a7 a8 r. accs = a1 # a2 # a3 # a4 # a5 # a6 # a7 # a8 # r
    | Swap n m \<Rightarrow> \<exists>a1 a2 a3 a4 a5 a6 a7 a8 a9 a10 a11 a12 r.
        accs = a1 # a2 # a3 # a4 # a5 # a6 # a7 # a8 # a9 # a10 # a11 # a12 # r
    | _ \<Rightarrow> \<exists>a1 a2 r. accs = a1 # a2 # r"
  using assms
  by (cases ix)
    (auto simp: swap_process_init_def process_list_token_def process_set_price_def process_liquidity_def
      process_swap_def swap_process_set_paused_def process_set_role_def split: list.splits)

text \<open>Instructions of the owner that change one field of the pool.\<close>

fun role_of :: "swap_instruction \<Rightarrow> swap_role option" where
  "role_of (SetPoolGuardian g) = Some (RoleGuardian g)"
| "role_of (SetOracle k) = Some (RoleOracle k)"
| "role_of (SetFee f) = Some (RoleFee f)"
| "role_of (SetMaxPriceDeviation b) = Some (RoleMaxPriceDeviation b)"
| "role_of (SetMaxPriceAge s) = Some (RoleMaxPriceAge s)"
| "role_of (SetMinPriceUpdateInterval s) = Some (RoleMinPriceUpdateInterval s)"
| "role_of ix = None"

lemma swap_step_role:
  "role_of ix = Some role \<Longrightarrow> swap_step E pid accs ix w = process_set_role E pid accs role w"
  by (cases ix) auto

end
