(* ===== verification/Traces.thy ===== *)
theory Traces
  imports Prelude
begin

text \<open>
  Histories of a system: the labels of the steps taken from an initial state, in
  order. The locale \<open>preserved\<close> is the contract between a step relation and an
  invariant of it; what follows for every history is proved once, in the locale.
\<close>

inductive trace :: "('s \<Rightarrow> 'e \<Rightarrow> 's \<Rightarrow> bool) \<Rightarrow> 's \<Rightarrow> 'e list \<Rightarrow> 's \<Rightarrow> bool" for step s0 where
  trace_nil: "trace step s0 [] s0"
| trace_snoc: "trace step s0 es s \<Longrightarrow> step s e s' \<Longrightarrow> trace step s0 (es @ [e]) s'"

inductive_cases trace_nilE: "trace step s0 [] s"

lemma trace_mono:
  assumes "trace step s0 es s" "\<And>s e s'. step s e s' \<Longrightarrow> step' s e s'"
  shows "trace step' s0 es s"
  using assms(1) by induction (auto intro: trace.intros assms(2))

lemma trace_single: "step s0 e s \<Longrightarrow> trace step s0 [e] s"
  using trace_snoc [OF trace_nil] by fastforce

lemma trace_append:
  assumes "trace step s1 es' s2" "trace step s0 es s1"
  shows "trace step s0 (es @ es') s2"
  using assms(1)
proof induction
  case (trace_snoc es' s e s')
  then show ?case using trace.trace_snoc [of step s0 "es @ es'" s e s'] by simp
qed (use assms(2) in simp)

locale preserved =
  fixes step :: "'s \<Rightarrow> 'e \<Rightarrow> 's \<Rightarrow> bool"
    and inv :: "'s \<Rightarrow> bool"
  assumes step_inv: "step s e s' \<Longrightarrow> inv s \<Longrightarrow> inv s'"
begin

lemma trace_inv: "trace step s0 es s \<Longrightarrow> inv s0 \<Longrightarrow> inv s"
  by (induction rule: trace.induct) (auto dest: step_inv)

text \<open>Every state on the way satisfies the invariant.\<close>

lemma trace_prefix_inv:
  assumes "trace step s0 (es @ es') s" "inv s0"
  shows "\<exists>s1. trace step s0 es s1 \<and> inv s1"
  using assms
proof (induction es' arbitrary: s rule: rev_induct)
  case Nil
  then show ?case using trace_inv by auto
next
  case (snoc e es')
  then obtain s1 where "trace step s0 (es @ es') s1"
    by (auto elim: trace.cases)
  then show ?case using snoc by blast
qed

end

text \<open>A relation between two states that holds across every step holds across every history.\<close>

locale monotone_along =
  fixes step :: "'s \<Rightarrow> 'e \<Rightarrow> 's \<Rightarrow> bool"
    and rel :: "'s \<Rightarrow> 's \<Rightarrow> bool"
  assumes rel_refl: "rel s s"
    and rel_step: "rel s0 s \<Longrightarrow> step s e s' \<Longrightarrow> rel s0 s'"

sublocale monotone_along \<subseteq> since: preserved step "rel s0" for s0
  by unfold_locales (rule rel_step)

context monotone_along begin

lemma trace_rel: "trace step s0 es s \<Longrightarrow> rel s0 s"
  using since.trace_inv rel_refl by blast

end

end
