(* ===== verification/SwapSolvency.thy ===== *)
theory SwapSolvency
  imports SwapSuccess Traces
begin

text \<open>
  Solvency of the swap pool: along every history, each listed token's vault is a
  token account of that mint which only the pool controls, and holds at least the
  reserve the pool accounts for it.
\<close>

section \<open>What the program relies on\<close>

text \<open>A checked transfer changes amounts only; mint, owner, delegate and close authority stay.\<close>

definition control_rule :: "env \<Rightarrow> pubkey \<Rightarrow> bool" where
  "control_rule E pid \<longleftrightarrow>
     (\<forall>p s m d au n dec infos seeds a a' k x.
        invoke_program E pid (SplTransferChecked p s m d au n dec) infos seeds a = Inr a' \<and>
        unpack_account E (acct_data (a k)) = Some x \<longrightarrow>
        (\<exists>x'. unpack_account E (acct_data (a' k)) = Some x' \<and> spl_mint x' = spl_mint x \<and>
           spl_owner x' = spl_owner x \<and> spl_close_authority x' = spl_close_authority x \<and>
           (spl_delegate x = None \<longrightarrow> spl_delegate x' = None)))"

text \<open>
  Allocating an account needs its signature: of the transaction, or of the program
  for the address derived from the seeds it passes.
\<close>

definition signer_rule :: "env \<Rightarrow> pubkey \<Rightarrow> bool" where
  "signer_rule E pid \<longleftrightarrow>
     (\<forall>k n infos ss a a'.
        invoke_program E pid (SystemAllocate k n) infos [ss @ [[bump_of E pid ss]]] a = Inr a' \<longrightarrow>
        k = pda E pid ss \<or> (\<exists>ai \<in> set infos. ai_key ai = k \<and> is_signer ai))"

text \<open>Nobody holds a key for a program-derived address, so no transaction is signed by one.\<close>

definition signers_ok :: "env \<Rightarrow> pubkey \<Rightarrow> account_info list \<Rightarrow> bool" where
  "signers_ok E pid accs \<longleftrightarrow>
     (\<forall>ai s. ai \<in> set accs \<and> is_signer ai \<and> swap_seeds s \<longrightarrow> ai_key ai \<noteq> pda E pid s)"

section \<open>Vaults\<close>

definition vault_holds :: "env \<Rightarrow> pubkey \<Rightarrow> world \<Rightarrow> pubkey \<Rightarrow> pubkey \<Rightarrow> nat \<Rightarrow> bool" where
  "vault_holds E pid w m k n \<longleftrightarrow>
     acct_owner (accts w k) = spl_token_id E \<and>
     (\<exists>x. unpack_account E (acct_data (accts w k)) = Some x \<and> spl_mint x = m \<and>
        spl_owner x = pda E pid [VAULT_AUTHORITY_SEED] \<and> spl_delegate x = None \<and>
        spl_close_authority x = None \<and> unat (spl_amount x) = n)"

definition solvent :: "env \<Rightarrow> pubkey \<Rightarrow> pubkey \<Rightarrow> world \<Rightarrow> bool" where
  "solvent E pid m w \<longleftrightarrow>
     (\<forall>r. token_at E pid w m = Some r \<longrightarrow>
        ts_listed r \<and> ts_mint r = m \<and> (\<exists>n. vault_holds E pid w m (ts_vault r) n \<and> unat (ts_reserve r) \<le> n))"

lemma vault_holds_frame:
  "accts w' k = accts w k \<Longrightarrow> vault_holds E pid w' m k n = vault_holds E pid w m k n"
  by (simp add: vault_holds_def)

lemma check_vault_holds:
  "check_vault E pid v m (spl_token_id E) w = Inr () \<Longrightarrow> \<exists>n. vault_holds E pid w m (ai_key v) n"
  by (auto simp: res_simps vault_holds_def)

lemma vault_holds_transfer:
  assumes "invoke_signed E pid (SplTransferChecked p s mint d au n dec) infos seeds w = Inr w'"
    and "runtime_ok E pid" "control_rule E pid" "vault_holds E pid w m k N"
  shows "vault_holds E pid w' m k (if s = d then N else if k = s then N - unat n else if k = d then N + unat n else N)"
    and "k = s \<or> k = d \<Longrightarrow> m = mint"
proof -
  note t = transfer_checked_effect [OF assms(1,2)]
  obtain x where x: "unpack_account E (acct_data (accts w k)) = Some x" "spl_mint x = m"
    "spl_owner x = pda E pid [VAULT_AUTHORITY_SEED]" "spl_delegate x = None" "spl_close_authority x = None"
    "unat (spl_amount x) = N" and o: "acct_owner (accts w k) = spl_token_id E"
    using assms(4) by (auto simp: vault_holds_def)
  obtain sa da sa' da' where
    u: "unpack_account E (acct_data (accts w s)) = Some sa" "unpack_account E (acct_data (accts w d)) = Some da"
      "unpack_account E (acct_data (accts w' s)) = Some sa'" "unpack_account E (acct_data (accts w' d)) = Some da'"
      "spl_mint sa = spl_mint da"
      "if s = d then spl_amount sa' = spl_amount sa
       else unat (spl_amount sa') = unat (spl_amount sa) - unat n \<and> unat (spl_amount da') = unat (spl_amount da) + unat n"
    and rest: "\<forall>k. k \<noteq> s \<and> k \<noteq> d \<longrightarrow> accts w' k = accts w k"
    using t(1) unfolding token_moved_def by blast
  obtain a where "invoke_program E pid (SplTransferChecked p s mint d au n dec) infos seeds (accts w) = Inr a"
    and "w' = w\<lparr>accts := a\<rparr>" using assms(1) by (auto simp: invoke_signed_Inr)
  then obtain x' where x': "unpack_account E (acct_data (accts w' k)) = Some x'" "spl_mint x' = spl_mint x"
    "spl_owner x' = spl_owner x" "spl_close_authority x' = spl_close_authority x" "spl_delegate x' = None"
    using assms(3) x(1,4) unfolding control_rule_def by fastforce
  have "unat (spl_amount x') = (if s = d then N else if k = s then N - unat n else if k = d then N + unat n else N)"
    using u x x'(1) rest by (cases "k = s"; cases "k = d"; auto split: if_splits)
  then show "vault_holds E pid w' m k (if s = d then N else if k = s then N - unat n else if k = d then N + unat n else N)"
    using x x' o t(5) unfolding vault_holds_def by auto
  show "k = s \<or> k = d \<Longrightarrow> m = mint" using x(1,2) u(1,2,5) t(3) by auto
qed

lemma vault_holds_transfer_out:
  assumes "invoke_signed E pid (SplTransferChecked p s mint d au n dec) infos seeds w = Inr w'"
    and "runtime_ok E pid" "control_rule E pid" "vault_holds E pid w m s N"
  shows "\<exists>N'. vault_holds E pid w' m s N' \<and> N \<le> N' + unat n"
  using vault_holds_transfer(1) [OF assms] by (intro exI) auto

lemma vault_holds_transfer_other:
  assumes "invoke_signed E pid (SplTransferChecked p s mint d au n dec) infos seeds w = Inr w'"
    and "runtime_ok E pid" "control_rule E pid" "vault_holds E pid w m k N" "m \<noteq> mint"
  shows "vault_holds E pid w' m k N"
proof -
  have "k \<noteq> s" "k \<noteq> d" using vault_holds_transfer(2) [OF assms(1-4)] assms(5) by blast+
  then have "(if s = d then N else if k = s then N - unat n else if k = d then N + unat n else N) = N" by simp
  from vault_holds_transfer(1) [OF assms(1-4), unfolded this] show ?thesis .
qed

section \<open>Handlers\<close>

lemma create_pda_Inr:
  "create_pda E pid payer ai sys seeds b n w = Inr w' \<Longrightarrow> create_pda_account E pid payer ai sys seeds b n w = Inr w'"
  by (auto simp: create_pda_def res_simps)

lemma create_pda_signed:
  assumes "create_pda E pid payer ai sys seeds (bump_of E pid seeds) n w = Inr w'" "signer_rule E pid"
  shows "ai_key ai = pda E pid seeds \<or> (\<exists>x \<in> {ai, sys}. ai_key x = ai_key ai \<and> is_signer x)"
proof -
  obtain w1 w2 where
    "invoke_signed E pid (SystemAllocate (ai_key ai) (of_nat n)) [ai, sys] [seeds @ [[bump_of E pid seeds]]] w1 = Inr w2"
    using create_pda_Inr [OF assms(1)] by (auto simp: create_pda_account_def Let_def res_simps split: if_splits)
  then obtain a where "invoke_program E pid (SystemAllocate (ai_key ai) (of_nat n)) [ai, sys]
      [seeds @ [[bump_of E pid seeds]]] (accts w1) = Inr a"
    by (auto simp: invoke_signed_Inr)
  then show ?thesis using assms(2) unfolding signer_rule_def by fastforce
qed

lemma create_pda_token_accounts:
  assumes "create_pda E pid payer ai sys seeds b n w = Inr w'" "runtime_ok E pid" "vault_holds E pid w m k N"
  shows "vault_holds E pid w' m k N"
  using token_accounts_kept [OF create_pda_Inr [OF assms(1)] assms(2), of k] assms(3)
  by (simp add: vault_holds_def)

lemma vault_holds_store:
  assumes "runtime_ok E pid" "\<And>k. acct_owner (accts w k) \<noteq> pid \<Longrightarrow> accts w' k = accts w k"
    and "vault_holds E pid w m k N"
  shows "vault_holds E pid w' m k N"
proof -
  have "acct_owner (accts w k) \<noteq> pid"
    using assms(1,3) by (auto simp: runtime_ok_def token_rule_def vault_holds_def)
  then show ?thesis using vault_holds_frame [OF assms(2)] assms(3) by blast
qed

lemma solventI:
  assumes "\<And>r. token_at E pid w m = Some r \<Longrightarrow> ts_listed r \<and> ts_mint r = m \<and>
    (\<exists>n. vault_holds E pid w m (ts_vault r) n \<and> unat (ts_reserve r) \<le> n)"
  shows "solvent E pid m w"
  using assms by (simp add: solvent_def)

lemma solvent_frame:
  assumes "solvent E pid m w" "token_at E pid w' m = token_at E pid w m"
    and "\<And>k N. vault_holds E pid w m k N \<Longrightarrow> vault_holds E pid w' m k N"
  shows "solvent E pid m w'"
  using assms unfolding solvent_def by metis

lemma solvent_pool_write:
  assumes "swap_store (ser_pool p) ai w = Inr w'" "load_pool E pid ai w = Inr q"
    and "runtime_ok E pid" "swap_apart E pid [TOKEN_SEED, arr_bytes m]" "solvent E pid m w"
  shows "solvent E pid m w'"
proof -
  have k: "owner_of w ai = pid" "ai_key ai = pda E pid [POOL_SEED]" using assms(2) by (auto simp: load_pool_Inr)
  note e = store_pool_effect [OF assms(1) k]
  show ?thesis
    using e(2) [OF assms(4)] vault_holds_store [OF assms(3) e(3)] by (intro solvent_frame [OF assms(5)]) auto
qed

lemma solvent_token_write:
  assumes "swap_store (ser_token r) ai w = Inr w'" "owner_of w ai = pid"
    and "ai_key ai = pda E pid [TOKEN_SEED, arr_bytes (m :: pubkey)]" "runtime_ok E pid"
    and "ts_listed r" "ts_mint r = m" "vault_holds E pid w m (ts_vault r) n" "unat (ts_reserve r) \<le> n"
  shows "solvent E pid m w'"
proof -
  note e = store_token_effect [OF assms(1-3)]
  have "vault_holds E pid w' m (ts_vault r) n" using vault_holds_store [OF assms(4) e(4) assms(7)] .
  then show ?thesis using e(1) assms(5,6,8) by (auto simp: solvent_def)
qed

lemma solvent_other_token:
  assumes "swap_store (ser_token r) ai w = Inr w'" "owner_of w ai = pid"
    and "ai_key ai = pda E pid [TOKEN_SEED, arr_bytes (m' :: pubkey)]" "m \<noteq> m'" "runtime_ok E pid"
    and "swap_apart E pid [TOKEN_SEED, arr_bytes m]" "solvent E pid m w"
  shows "solvent E pid m w'"
proof -
  note e = store_token_effect [OF assms(1-3)]
  show ?thesis
    using e(3) [OF assms(6,4)] vault_holds_store [OF assms(5) e(4)] by (intro solvent_frame [OF assms(7)]) auto
qed

lemma solventD:
  assumes "solvent E pid m w" "load_token E pid ai m w = Inr r"
  obtains n where "ts_mint r = m" "ts_listed r" "vault_holds E pid w m (ts_vault r) n" "unat (ts_reserve r) \<le> n"
    "owner_of w ai = pid" "ai_key ai = pda E pid [TOKEN_SEED, arr_bytes m]"
  using assms load_token_at [OF assms(2)] by (auto simp: solvent_def load_token_Inr)

lemma solvent_other_transfer:
  assumes "invoke_signed E pid (SplTransferChecked p s mint d au n dec) infos seeds w = Inr w'"
    and "runtime_ok E pid" "control_rule E pid" "m \<noteq> mint" "solvent E pid m w"
  shows "solvent E pid m w'"
proof (rule solvent_frame [OF assms(5)])
  show "token_at E pid w' m = token_at E pid w m"
    using views_cong(2) [OF transfer_checked_effect(2) [OF assms(1,2)]] by simp
qed (rule vault_holds_transfer_other [OF assms(1-3) _ assms(4)])

lemma solvent_set_price:
  assumes "process_set_price E pid (pool_ai # oracle # rec_ai # rest) expected price w = Inr w'"
    and "runtime_ok E pid" "swap_apart E pid [TOKEN_SEED, arr_bytes m]" "solvent E pid m w"
  shows "solvent E pid m w'"
proof -
  from assms(1) obtain rec now where l: "load_token E pid rec_ai (ts_mint rec) w = Inr rec"
    and st: "swap_store (ser_token (rec\<lparr>ts_price := price, ts_last_price_update := now, ts_price_set_at := now\<rparr>)) rec_ai w = Inr w'"
    unfolding process_set_price_iff by blast
  have k: "owner_of w rec_ai = pid" "ai_key rec_ai = pda E pid [TOKEN_SEED, arr_bytes (ts_mint rec)]"
    using l by (auto simp: load_token_Inr)
  show ?thesis
  proof (cases "m = ts_mint rec")
    case True
    from assms(4) l [folded True] obtain n where "vault_holds E pid w m (ts_vault rec) n" "unat (ts_reserve rec) \<le> n" "ts_listed rec"
      by (rule solventD)
    then show ?thesis
      by (intro solvent_token_write [OF st k(1) _ assms(2)]) (use True k in auto)
  next
    case False
    then show ?thesis using solvent_other_token [OF st k False assms(2-4)] by simp
  qed
qed

lemma solvent_seed:
  assumes "process_liquidity E pid (pool_ai # owner # rec_ai # owner_ata # vault # mint # va # tp # rest) amount True w = Inr w'"
    and "runtime_ok E pid" "control_rule E pid" "swap_apart E pid [TOKEN_SEED, arr_bytes m]" "solvent E pid m w"
  shows "solvent E pid m w'"
proof -
  from assms(1) obtain rec w1 a b received reserve where l: "load_token E pid rec_ai (ai_key mint) w = Inr rec"
    and v: "ts_vault rec = ai_key vault"
    and i: "invoke E pid (SplTransferChecked (ai_key tp) (ai_key owner_ata) (ai_key mint) (ai_key vault)
          (ai_key owner) amount (ts_decimals rec)) [owner_ata, mint, vault, owner, tp] w = Inr w1"
    and ab: "unpack_account E (data_of w vault) = Some a" "unpack_account E (data_of w1 vault) = Some b"
      "checked_sub (spl_amount b) (spl_amount a) = Some received" "checked_add (ts_reserve rec) received = Some reserve"
    and st: "swap_store (ser_token (rec\<lparr>ts_reserve := reserve\<rparr>)) rec_ai w1 = Inr w'"
    unfolding process_seed_iff by blast
  note i = i [unfolded invoke_def]
  have k: "owner_of w1 rec_ai = pid" "ai_key rec_ai = pda E pid [TOKEN_SEED, arr_bytes (ai_key mint)]"
    using l transfer_checked_effect(5) [OF i assms(2)] by (auto simp: load_token_Inr)
  show ?thesis
  proof (cases "m = ai_key mint")
    case True
    from assms(5) l [folded True] obtain n where s: "vault_holds E pid w m (ts_vault rec) n" "unat (ts_reserve rec) \<le> n"
      "ts_listed rec" "ts_mint rec = m" by (rule solventD)
    obtain n' where n': "vault_holds E pid w1 m (ts_vault rec) n'"
      using vault_holds_transfer(1) [OF i assms(2,3) s(1)] by blast
    have "n = unat (spl_amount a)" "n' = unat (spl_amount b)"
      using s(1) n' ab(1,2) v by (auto simp: vault_holds_def)
    then have "unat reserve \<le> n'"
      using checked_sub_Some [OF ab(3)] checked_add_Some [OF ab(4)] s(2) by simp
    then show ?thesis
      using n' s(3,4) k by (intro solvent_token_write [OF st k(1) _ assms(2)]) (auto simp: True)
  next
    case False
    then show ?thesis
      using solvent_other_token [OF st k False assms(2,4)] solvent_other_transfer [OF i assms(2,3) False assms(5)] by simp
  qed
qed

lemma solvent_withdraw:
  assumes "process_liquidity E pid (pool_ai # owner # rec_ai # owner_ata # vault # mint # va # tp # rest) amount False w = Inr w'"
    and "runtime_ok E pid" "control_rule E pid" "swap_apart E pid [TOKEN_SEED, arr_bytes m]" "solvent E pid m w"
  shows "solvent E pid m w'"
proof -
  from assms(1) obtain rec w1 where l: "load_token E pid rec_ai (ai_key mint) w = Inr rec"
    and v: "ts_vault rec = ai_key vault" and le: "amount \<le> ts_reserve rec"
    and i: "invoke_signed E pid (SplTransferChecked (ai_key tp) (ai_key vault) (ai_key mint) (ai_key owner_ata)
          (pda E pid [VAULT_AUTHORITY_SEED]) amount (ts_decimals rec)) [vault, mint, owner_ata, va, tp]
        [[VAULT_AUTHORITY_SEED, [bump_of E pid [VAULT_AUTHORITY_SEED]]]] w = Inr w1"
    and st: "swap_store (ser_token (rec\<lparr>ts_reserve := ts_reserve rec - amount\<rparr>)) rec_ai w1 = Inr w'"
    unfolding process_withdraw_iff by blast
  have k: "owner_of w1 rec_ai = pid" "ai_key rec_ai = pda E pid [TOKEN_SEED, arr_bytes (ai_key mint)]"
    using l transfer_checked_effect(5) [OF i assms(2)] by (auto simp: load_token_Inr)
  show ?thesis
  proof (cases "m = ai_key mint")
    case True
    from assms(5) l [folded True] obtain n where s: "vault_holds E pid w m (ts_vault rec) n" "unat (ts_reserve rec) \<le> n"
      "ts_listed rec" "ts_mint rec = m" by (rule solventD)
    obtain n' where n': "vault_holds E pid w1 m (ts_vault rec) n'" "n \<le> n' + unat amount"
      using vault_holds_transfer_out [OF i assms(2,3), of m n] s(1) unfolding v by blast
    have "unat (ts_reserve rec - amount) \<le> n'"
      using s(2) n'(2) le by (simp add: unat_sub word_le_nat_alt)
    then show ?thesis
      using n' s(3,4) k by (intro solvent_token_write [OF st k(1) _ assms(2)]) (auto simp: True)
  next
    case False
    then show ?thesis
      using solvent_other_token [OF st k False assms(2,4)] solvent_other_transfer [OF i assms(2,3) False assms(5)] by simp
  qed
qed

lemma solvent_logged: "solvent E pid m (sol_log_data f w) = solvent E pid m w"
  by (simp add: solvent_def vault_holds_def token_at_def store_def)

lemma solvent_swap:
  assumes "process_swap E pid (pool_ai # user # rec_in_ai # rec_out_ai # user_in # user_out # vault_in # vault_out #
      mint_in # mint_out # va # tp # rest) amount_in min_out w = Inr w'"
    and "runtime_ok E pid" "control_rule E pid" "swap_apart E pid [TOKEN_SEED, arr_bytes m]" "solvent E pid m w"
  shows "solvent E pid m w'"
proof -
  from assms(1) obtain rec_in rec_out w1 w2 w3 w4 a b received out reserve fields where
    ne: "ai_key mint_in \<noteq> ai_key mint_out"
    and li: "load_token E pid rec_in_ai (ai_key mint_in) w = Inr rec_in"
    and lo: "load_token E pid rec_out_ai (ai_key mint_out) w = Inr rec_out"
    and v: "ts_vault rec_in = ai_key vault_in" "ts_vault rec_out = ai_key vault_out"
    and ab: "unpack_account E (data_of w vault_in) = Some a" "unpack_account E (data_of w1 vault_in) = Some b"
      "checked_sub (spl_amount b) (spl_amount a) = Some received" "checked_add (ts_reserve rec_in) received = Some reserve"
    and i1: "invoke_signed E pid (SplTransferChecked (ai_key tp) (ai_key user_in) (ai_key mint_in) (ai_key vault_in)
          (ai_key user) amount_in (ts_decimals rec_in)) [user_in, mint_in, vault_in, user, tp] [] w = Inr w1"
    and le: "out \<le> ts_reserve rec_out"
    and s1: "swap_store (ser_token (rec_in\<lparr>ts_reserve := reserve\<rparr>)) rec_in_ai w1 = Inr w2"
    and s2: "swap_store (ser_token (rec_out\<lparr>ts_reserve := ts_reserve rec_out - out\<rparr>)) rec_out_ai w2 = Inr w3"
    and i2: "invoke_signed E pid (SplTransferChecked (ai_key tp) (ai_key vault_out) (ai_key mint_out) (ai_key user_out)
          (pda E pid [VAULT_AUTHORITY_SEED]) out (ts_decimals rec_out)) [vault_out, mint_out, user_out, va, tp]
        [[VAULT_AUTHORITY_SEED, [bump_of E pid [VAULT_AUTHORITY_SEED]]]] w3 = Inr w4"
    and w': "w' = sol_log_data fields w4"
    unfolding process_swap_iff invoke_def by (elim exE conjE) (rule that)
  have ki: "owner_of w1 rec_in_ai = pid" "ai_key rec_in_ai = pda E pid [TOKEN_SEED, arr_bytes (ai_key mint_in)]"
    and o1: "owner_of w1 rec_out_ai = pid" and ko: "ai_key rec_out_ai = pda E pid [TOKEN_SEED, arr_bytes (ai_key mint_out)]"
    using li lo transfer_checked_effect(5) [OF i1 assms(2)] by (auto simp: load_token_Inr)
  note e1 = store_token_effect [OF s1 ki]
  have o2: "owner_of w2 rec_out_ai = pid" using e1(6) o1 by simp
  note e2 = store_token_effect [OF s2 o2 ko]
  have "solvent E pid m w4"
  proof (cases "m = ai_key mint_out")
    case True
    from assms(5) lo [folded True] obtain n where s: "vault_holds E pid w m (ts_vault rec_out) n" "unat (ts_reserve rec_out) \<le> n"
      "ts_listed rec_out" "ts_mint rec_out = m" by (rule solventD)
    have "vault_holds E pid w1 m (ts_vault rec_out) n"
      using vault_holds_transfer_other [OF i1 assms(2,3) s(1)] ne True by simp
    from vault_holds_store [OF assms(2) e2(4) vault_holds_store [OF assms(2) e1(4) this]]
    have "vault_holds E pid w3 m (ai_key vault_out) n" using v by simp
    then obtain n' where n': "vault_holds E pid w4 m (ai_key vault_out) n'" "n \<le> n' + unat out"
      using vault_holds_transfer_out [OF i2 assms(2,3)] by blast
    have "token_at E pid w4 m = Some (rec_out\<lparr>ts_reserve := ts_reserve rec_out - out\<rparr>)"
      using e2(1) views_cong(2) [OF transfer_checked_effect(2) [OF i2 assms(2)]] True by simp
    moreover have "unat (ts_reserve rec_out - out) \<le> n'"
      using s(2) n'(2) le by (simp add: unat_sub word_le_nat_alt)
    ultimately show ?thesis using n' s(3,4) v by (auto simp: solvent_def)
  next
    case no: False
    have s2': "solvent E pid m w2"
    proof (cases "m = ai_key mint_in")
      case True
      from assms(5) li [folded True] obtain n where s: "vault_holds E pid w m (ts_vault rec_in) n" "unat (ts_reserve rec_in) \<le> n"
        "ts_listed rec_in" "ts_mint rec_in = m" by (rule solventD)
      obtain n' where n': "vault_holds E pid w1 m (ts_vault rec_in) n'"
        using vault_holds_transfer(1) [OF i1 assms(2,3) s(1)] by blast
      have "n = unat (spl_amount a)" "n' = unat (spl_amount b)"
        using s(1) n' ab(1,2) v by (auto simp: vault_holds_def)
      then have "unat reserve \<le> n'"
        using checked_sub_Some [OF ab(3)] checked_add_Some [OF ab(4)] s(2) by simp
      then show ?thesis
        using n' s(3,4) ki by (intro solvent_token_write [OF s1 ki(1) _ assms(2)]) (auto simp: True)
    next
      case False
      then show ?thesis
        using solvent_other_token [OF s1 ki False assms(2,4)] solvent_other_transfer [OF i1 assms(2,3) False assms(5)] by simp
    qed
    show ?thesis
      by (rule solvent_other_transfer [OF i2 assms(2,3) no solvent_other_token [OF s2 o2 ko no assms(2,4) s2']])
  qed
  then show ?thesis by (simp add: w' solvent_logged)
qed

lemma create_pda_views:
  assumes "create_pda E pid payer ai sys seeds b n w = Inr w'" "runtime_ok E pid"
  shows "ai_key ai \<noteq> pda E pid [TOKEN_SEED, arr_bytes m] \<Longrightarrow> token_at E pid w' m = token_at E pid w m"
    and "ai_key ai \<noteq> pda E pid [POOL_SEED] \<Longrightarrow> pool_at E pid w' = pool_at E pid w"
    and "owner_of w' ai = pid" and "store pid w (ai_key ai) = None"
proof -
  note s = store_create_pda [OF create_pda_Inr [OF assms(1)] assms(2)]
  show "ai_key ai \<noteq> pda E pid [TOKEN_SEED, arr_bytes m] \<Longrightarrow> token_at E pid w' m = token_at E pid w m"
    "ai_key ai \<noteq> pda E pid [POOL_SEED] \<Longrightarrow> pool_at E pid w' = pool_at E pid w"
    by (auto simp: token_at_def pool_at_def s(3))
  show "owner_of w' ai = pid" "store pid w (ai_key ai) = None" using s(1,2) by auto
qed

lemma solvent_created:
  assumes "create_pda E pid payer ai sys seeds b n w = Inr w'" "runtime_ok E pid" "solvent E pid m w"
    and "ai_key ai \<noteq> pda E pid [TOKEN_SEED, arr_bytes m]"
  shows "solvent E pid m w'"
  using create_pda_views(1) [OF assms(1,2,4)] create_pda_token_accounts [OF assms(1,2)]
  by (intro solvent_frame [OF assms(3)])

lemma solvent_list:
  assumes "process_list_token E pid (pool_ai # owner # mint # vault # rec_ai # tp # sys # rest) price w = Inr w'"
    and "runtime_ok E pid" "swap_apart E pid [TOKEN_SEED, arr_bytes m]" "solvent E pid m w"
  shows "solvent E pid m w'"
proof -
  from assms(1) obtain decimals w1 now where
    cv: "check_vault E pid vault (ai_key mint) (spl_token_id E) w = Inr ()"
    and k: "ai_key rec_ai = pda E pid [TOKEN_SEED, arr_bytes (ai_key mint)]"
    and c: "create_pda E pid owner rec_ai sys [TOKEN_SEED, arr_bytes (ai_key mint)]
        (bump_of E pid [TOKEN_SEED, arr_bytes (ai_key mint)]) TOKEN_SPACE w = Inr w1"
    and st: "swap_store (ser_token
             \<lparr>ts_mint = ai_key mint, ts_vault = ai_key vault, ts_decimals = decimals,
              ts_price = price, ts_reserve = 0, ts_last_price_update = 0, ts_listed = True,
              ts_price_set_at = now\<rparr>) rec_ai w1 = Inr w'"
    unfolding process_list_token_iff by blast
  note o = create_pda_views(3) [OF c assms(2)]
  show ?thesis
  proof (cases "m = ai_key mint")
    case True
    obtain n where "vault_holds E pid w m (ai_key vault) n" using check_vault_holds [OF cv] True by blast
    then have "vault_holds E pid w1 m (ai_key vault) n" using create_pda_token_accounts [OF c assms(2)] by blast
    then show ?thesis
      by (intro solvent_token_write [OF st o _ assms(2)]) (use k True in auto)
  next
    case False
    then have "ai_key rec_ai \<noteq> pda E pid [TOKEN_SEED, arr_bytes m]"
      using apart_token [OF assms(3) False [symmetric]] k by simp
    from solvent_created [OF c assms(2,4) this] show ?thesis
      using solvent_other_token [OF st o k False assms(2,3)] by blast
  qed
qed

lemma solvent_init:
  assumes "swap_process_init E pid (pool_ai # payer # hub_mint # hub_vault # rec_ai # tp # sys # prog # pdata # rest) args w = Inr w'"
    and "runtime_ok E pid" "signer_rule E pid" "swap_apart E pid [TOKEN_SEED, arr_bytes m]" "solvent E pid m w"
    and "signers_ok E pid (pool_ai # payer # hub_mint # hub_vault # rec_ai # tp # sys # prog # pdata # rest)"
  shows "solvent E pid m w'"
proof -
  from assms(1) obtain w1 w2 w3 now decimals where
    kp: "ai_key pool_ai = pda E pid [POOL_SEED]"
    and c1: "create_pda E pid payer pool_ai sys [POOL_SEED] (bump_of E pid [POOL_SEED]) POOL_SPACE w = Inr w1"
    and s1: "swap_store (ser_pool (init_pool args (ai_key payer) (ai_key hub_mint))) pool_ai w1 = Inr w2"
    and cv: "check_vault E pid hub_vault (ai_key hub_mint) (spl_token_id E) w2 = Inr ()"
    and c2: "create_pda E pid payer rec_ai sys [TOKEN_SEED, arr_bytes (ai_key hub_mint)]
        (bump_of E pid [TOKEN_SEED, arr_bytes (ai_key hub_mint)]) TOKEN_SPACE w2 = Inr w3"
    and s2: "swap_store (ser_token
             \<lparr>ts_mint = ai_key hub_mint, ts_vault = ai_key hub_vault, ts_decimals = decimals,
              ts_price = PRICE_ONE, ts_reserve = 0, ts_last_price_update = 0, ts_listed = True,
              ts_price_set_at = now\<rparr>) rec_ai w3 = Inr w'"
    unfolding swap_init_iff by blast
  have "ai_key pool_ai \<noteq> pda E pid [TOKEN_SEED, arr_bytes m]"
    using apart_pool_token [OF disjI2 [OF assms(4)]] kp by simp
  from solvent_created [OF c1 assms(2,5) this] have sv1: "solvent E pid m w1" .
  note o1 = create_pda_views(3) [OF c1 assms(2)]
  note e1 = store_pool_effect [OF s1 o1 kp]
  have sv2: "solvent E pid m w2"
    using e1(2) [OF assms(4)] vault_holds_store [OF assms(2) e1(3)] by (intro solvent_frame [OF sv1]) auto
  note o3 = create_pda_views(3) [OF c2 assms(2)]
  show ?thesis
  proof (cases "ai_key rec_ai = pda E pid [TOKEN_SEED, arr_bytes m]")
    case True
    have "\<not> (\<exists>x \<in> {rec_ai, sys}. ai_key x = ai_key rec_ai \<and> is_signer x)"
      using assms(6) True swap_seeds_simps(2) [of m] unfolding signers_ok_def by auto
    then have hub: "ai_key rec_ai = pda E pid [TOKEN_SEED, arr_bytes (ai_key hub_mint)]"
      using create_pda_signed [OF c2 assms(3)] by blast
    have m: "m = ai_key hub_mint"
    proof (rule ccontr)
      assume "m \<noteq> ai_key hub_mint"
      then show False using apart_token [OF assms(4), of "ai_key hub_mint"] hub True by simp
    qed
    obtain n where "vault_holds E pid w2 m (ai_key hub_vault) n" using check_vault_holds [OF cv] m by blast
    then have "vault_holds E pid w3 m (ai_key hub_vault) n" using create_pda_token_accounts [OF c2 assms(2)] by blast
    then show ?thesis
      by (intro solvent_token_write [OF s2 o3 _ assms(2)]) (use True m in auto)
  next
    case False
    from solvent_created [OF c2 assms(2) sv2 False] have sv3: "solvent E pid m w3" .
    obtain bs d where st: "store pid w' = (store pid w3)(ai_key rec_ai \<mapsto> bs @ d)"
      and k: "\<And>k. acct_owner (accts w3 k) \<noteq> pid \<Longrightarrow> accts w' k = accts w3 k"
      using s2 o3 by (rule swap_store_effect) (rule that)
    have "token_at E pid w' m = token_at E pid w3 m" using False by (simp add: token_at_def st)
    then show ?thesis using vault_holds_store [OF assms(2) k] by (intro solvent_frame [OF sv3]) auto
  qed
qed

end
