(* ===== verification/SwapPool.thy ===== *)
theory SwapPool
  imports SwapSolvency GateSafety
begin

text \<open>
  The swap pool as an abstract machine, and the proof that the program implements
  it. \<open>pool_step\<close> says which change of the pool account an instruction may make and
  who has to sign; \<open>rec_step\<close> says the same of the record of one token. Invariants of
  the machine are invariants of every history of the program.
\<close>

section \<open>The abstract machine\<close>

inductive pool_step :: "pubkey set \<Rightarrow> swap_instruction \<Rightarrow> pool_state option \<Rightarrow> pool_state option \<Rightarrow> bool"
  for S where
  pl_same: "pool_step S ix p p"
| pl_init: "payer \<in> S \<Longrightarrow> validate_init_args args = Inr () \<Longrightarrow>
    pool_step S (InitPool args) None (Some (init_pool args payer hub))"
| pl_pause: "ps_owner p \<in> S \<or> ps_guardian p \<noteq> 0 \<and> ps_guardian p \<in> S \<Longrightarrow>
    pool_step S PausePool (Some p) (Some (p\<lparr>ps_paused := True\<rparr>))"
| pl_unpause: "ps_owner p \<in> S \<Longrightarrow> pool_step S UnpausePool (Some p) (Some (p\<lparr>ps_paused := False\<rparr>))"
| pl_role: "ps_owner p \<in> S \<Longrightarrow> role_of ix = Some role \<Longrightarrow> set_role p role = Some p' \<Longrightarrow>
    pool_step S ix (Some p) (Some p')"

inductive rec_step :: "i64 \<Rightarrow> pubkey set \<Rightarrow> pool_state option \<Rightarrow> swap_instruction \<Rightarrow> pubkey \<Rightarrow>
    token_state option \<Rightarrow> token_state option \<Rightarrow> bool"
  for now S where
  rc_same: "rec_step now S P ix m r r"
| rc_hub: "rec_step now S P (InitPool args) m None
    (Some \<lparr>ts_mint = m, ts_vault = v, ts_decimals = dec, ts_price = PRICE_ONE, ts_reserve = 0,
       ts_last_price_update = 0, ts_listed = True, ts_price_set_at = now\<rparr>)"
| rc_list: "ps_owner p \<in> S \<Longrightarrow> price \<noteq> 0 \<Longrightarrow> rec_step now S (Some p) (ListToken price) m None
    (Some \<lparr>ts_mint = m, ts_vault = v, ts_decimals = dec, ts_price = price, ts_reserve = 0,
       ts_last_price_update = 0, ts_listed = True, ts_price_set_at = now\<rparr>)"
| rc_price: "ps_oracle p \<in> S \<Longrightarrow> price \<noteq> 0 \<Longrightarrow> ts_mint r \<noteq> ps_hub_mint p \<Longrightarrow> swap_price_ok p r price now \<Longrightarrow>
    rec_step now S (Some p) (SetPriceFrom (ts_price r) price) m (Some r)
      (Some (r\<lparr>ts_price := price, ts_last_price_update := now, ts_price_set_at := now\<rparr>))"
| rc_seed: "ps_owner p \<in> S \<Longrightarrow> ts_reserve r \<le> x \<Longrightarrow>
    rec_step now S (Some p) (SeedLiquidity n) m (Some r) (Some (r\<lparr>ts_reserve := x\<rparr>))"
| rc_withdraw: "ps_owner p \<in> S \<Longrightarrow> n \<le> ts_reserve r \<Longrightarrow>
    rec_step now S (Some p) (WithdrawLiquidity n) m (Some r) (Some (r\<lparr>ts_reserve := ts_reserve r - n\<rparr>))"
| rc_in: "\<not> ps_paused p \<Longrightarrow> price_is_fresh p r now \<Longrightarrow> checked_add (ts_reserve r) received = Some x \<Longrightarrow>
    rec_step now S (Some p) (Swap n k) m (Some r) (Some (r\<lparr>ts_reserve := x\<rparr>))"
| rc_out: "\<not> ps_paused p \<Longrightarrow> price_is_fresh p r now \<Longrightarrow> k \<le> out \<Longrightarrow> out \<le> ts_reserve r \<Longrightarrow>
    rec_step now S (Some p) (Swap n k) m (Some r) (Some (r\<lparr>ts_reserve := ts_reserve r - out\<rparr>))"

inductive_cases rec_step_SomeE: "rec_step now S P ix m (Some r) r'"
inductive_cases pool_step_SomeE: "pool_step S ix (Some p) p'"

lemma rec_step_Some:
  assumes "rec_step now S P ix m (Some r) r'"
  obtains q where "r' = Some q" "ts_mint q = ts_mint r" "ts_vault q = ts_vault r" "ts_decimals q = ts_decimals r"
    "ts_listed q = ts_listed r" "ts_price q = ts_price r \<or> (\<exists>p. P = Some p \<and> ps_oracle p \<in> S \<and> ts_price q \<noteq> 0 \<and>
       ts_mint r \<noteq> ps_hub_mint p \<and> ix = SetPriceFrom (ts_price r) (ts_price q) \<and> swap_price_ok p r (ts_price q) now)"
  using assms by (cases rule: rec_step.cases) auto

section \<open>The program implements it\<close>

lemma swap_accsE:
  assumes "swap_step E pid accs ix w = Inr w'"
  obtains (init) args a1 a2 a3 a4 a5 a6 a7 a8 a9 r where "ix = InitPool args"
      "accs = a1 # a2 # a3 # a4 # a5 # a6 # a7 # a8 # a9 # r" "swap_process_init E pid accs args w = Inr w'"
  | (list) p a1 a2 a3 a4 a5 a6 a7 r where "ix = ListToken p" "accs = a1 # a2 # a3 # a4 # a5 # a6 # a7 # r"
      "process_list_token E pid accs p w = Inr w'"
  | (price) e p a1 a2 a3 r where "ix = SetPriceFrom e p" "accs = a1 # a2 # a3 # r"
      "process_set_price E pid accs e p w = Inr w'"
  | (seed) n a1 a2 a3 a4 a5 a6 a7 a8 r where "ix = SeedLiquidity n" "accs = a1 # a2 # a3 # a4 # a5 # a6 # a7 # a8 # r"
      "process_liquidity E pid accs n True w = Inr w'"
  | (withdraw) n a1 a2 a3 a4 a5 a6 a7 a8 r where "ix = WithdrawLiquidity n"
      "accs = a1 # a2 # a3 # a4 # a5 # a6 # a7 # a8 # r" "process_liquidity E pid accs n False w = Inr w'"
  | (swap) n k a1 a2 a3 a4 a5 a6 a7 a8 a9 a10 a11 a12 r where "ix = Swap n k"
      "accs = a1 # a2 # a3 # a4 # a5 # a6 # a7 # a8 # a9 # a10 # a11 # a12 # r"
      "process_swap E pid accs n k w = Inr w'"
  | (pause) b a1 a2 r where "ix = (if b then PausePool else UnpausePool)" "accs = a1 # a2 # r"
      "swap_process_set_paused E pid accs b w = Inr w'"
  | (role) role a1 a2 r where "role_of ix = Some role" "accs = a1 # a2 # r"
      "process_set_role E pid accs role w = Inr w'"
proof (cases ix)
  case PausePool
  with swap_accs [OF assms] assms show ?thesis by (auto intro: pause [of True])
next
  case UnpausePool
  with swap_accs [OF assms] assms show ?thesis by (auto intro: pause [of False])
qed (use swap_accs [OF assms] assms in \<open>auto intro: init list price seed withdraw swap role\<close>)

lemma views_logged [simp]:
  "pool_at E pid (sol_log_data f w) = pool_at E pid w" "token_at E pid (sol_log_data f w) = token_at E pid w"
  by (simp_all add: pool_at_def token_at_def store_def fun_eq_iff)

lemma token_write_views:
  assumes "swap_store (ser_token r) ai w = Inr w'" "owner_of w ai = pid"
    and "ai_key ai = pda E pid [TOKEN_SEED, arr_bytes (m' :: pubkey)]"
    and "swap_apart E pid [POOL_SEED]" "swap_apart E pid [TOKEN_SEED, arr_bytes m]"
  shows "pool_at E pid w' = pool_at E pid w" and "token_at E pid w' m = (if m = m' then Some r else token_at E pid w m)"
  using store_token_effect(1,2,3) [OF assms(1-3)] assms(4,5) by auto

lemma transfer_views:
  assumes "invoke_signed E pid (SplTransferChecked p s mint d au n dec) infos seeds w = Inr w'" "runtime_ok E pid"
  shows "pool_at E pid w' = pool_at E pid w" "token_at E pid w' = token_at E pid w" "owner_of w' ai = owner_of w ai"
  using views_cong [OF transfer_checked_effect(2) [OF assms]] transfer_checked_effect(5) [OF assms] by auto

lemma load_token_key:
  "load_token E pid ai m w = Inr r \<Longrightarrow> owner_of w ai = pid"
  "load_token E pid ai m w = Inr r \<Longrightarrow> ai_key ai = pda E pid [TOKEN_SEED, arr_bytes m]"
  by (auto simp: load_token_Inr)

lemma pool_write_refines:
  assumes "swap_store (ser_pool p') ai w = Inr w'" "load_pool E pid ai w = Inr p"
    and "swap_apart E pid [TOKEN_SEED, arr_bytes m]" "pool_step S ix (Some p) (Some p')"
  shows "pool_step S ix (pool_at E pid w) (pool_at E pid w') \<and>
    rec_step now S (pool_at E pid w) ix m (token_at E pid w m) (token_at E pid w' m)"
proof -
  have k: "owner_of w ai = pid" "ai_key ai = pda E pid [POOL_SEED]" using assms(2) by (auto simp: load_pool_Inr)
  note e = store_pool_effect [OF assms(1) k]
  show ?thesis using e(1) e(2) [OF assms(3)] load_pool_at [OF assms(2)] assms(4) by (simp add: rc_same)
qed


lemma price_refines:
  assumes ok: "runtime_ok E pid" and sr: "signer_rule E pid"
    and ap: "swap_apart E pid [POOL_SEED]" "swap_apart E pid [TOKEN_SEED, arr_bytes m]"
    and h: "process_set_price E pid (a1 # a2 # a3 # r) e p w = Inr w'" "clock_get E = Inr now"
  shows "pool_at E pid w' = pool_at E pid w \<and>
    rec_step now (signers (a1 # a2 # a3 # r)) (pool_at E pid w) (SetPriceFrom e p) m (token_at E pid w m) (token_at E pid w' m)"
proof -
  from h obtain pool rec where l: "load_pool E pid a1 w = Inr pool" "ai_key a2 = ps_oracle pool" "is_signer a2"
    "p \<noteq> 0" "load_token E pid a3 (ts_mint rec) w = Inr rec" "ts_mint rec \<noteq> ps_hub_mint pool" "ts_price rec = e"
    "swap_price_ok pool rec p now"
    and st: "swap_store (ser_token (rec\<lparr>ts_price := p, ts_last_price_update := now, ts_price_set_at := now\<rparr>)) a3 w = Inr w'"
    unfolding process_set_price_iff by auto
  note v = token_write_views [OF st load_token_key [OF l(5)] ap]
  have "ps_oracle pool \<in> signers (a1 # a2 # a3 # r)" using l(2,3) by (auto simp: signers_def)
  then have "rec_step now (signers (a1 # a2 # a3 # r)) (Some pool) (SetPriceFrom (ts_price rec) p) m (Some rec)
      (Some (rec\<lparr>ts_price := p, ts_last_price_update := now, ts_price_set_at := now\<rparr>))"
    using l by (intro rc_price)
  then show ?thesis
    using v load_pool_at [OF l(1)] load_token_at [OF l(5)] l(7) by (auto simp: rc_same)
qed

lemma seed_refines:
  assumes ok: "runtime_ok E pid" and sr: "signer_rule E pid"
    and ap: "swap_apart E pid [POOL_SEED]" "swap_apart E pid [TOKEN_SEED, arr_bytes m]"
    and h: "process_liquidity E pid (a1 # a2 # a3 # a4 # a5 # a6 # a7 # a8 # r) n True w = Inr w'"
  shows "pool_at E pid w' = pool_at E pid w \<and>
    rec_step now (signers (a1 # a2 # a3 # a4 # a5 # a6 # a7 # a8 # r)) (pool_at E pid w) (SeedLiquidity n) m
      (token_at E pid w m) (token_at E pid w' m)"
proof -
  from h obtain pool rec w1 received reserve where
    l: "load_pool E pid a1 w = Inr pool" "ai_key a2 = ps_owner pool" "is_signer a2"
      "load_token E pid a3 (ai_key a6) w = Inr rec"
    and i: "invoke_signed E pid (SplTransferChecked (ai_key a8) (ai_key a4) (ai_key a6) (ai_key a5)
          (ai_key a2) n (ts_decimals rec)) [a4, a6, a5, a2, a8] [] w = Inr w1"
    and ad: "checked_add (ts_reserve rec) received = Some reserve"
    and st: "swap_store (ser_token (rec\<lparr>ts_reserve := reserve\<rparr>)) a3 w1 = Inr w'"
    unfolding process_seed_iff invoke_def by blast
  note t = transfer_views [OF i ok]
  have o: "owner_of w1 a3 = pid" using t(3) load_token_key(1) [OF l(4)] by simp
  note v = token_write_views [OF st o load_token_key(2) [OF l(4)] ap]
  have "ps_owner pool \<in> signers (a1 # a2 # a3 # a4 # a5 # a6 # a7 # a8 # r)" using l(2,3) by (auto simp: signers_def)
  moreover have "ts_reserve rec \<le> reserve" using checked_add_Some [OF ad] by (simp add: word_le_nat_alt)
  ultimately show ?thesis
    using v t load_pool_at [OF l(1)] load_token_at [OF l(4)] by (auto intro: rc_same rc_seed)
qed

lemma withdraw_refines:
  assumes ok: "runtime_ok E pid" and sr: "signer_rule E pid"
    and ap: "swap_apart E pid [POOL_SEED]" "swap_apart E pid [TOKEN_SEED, arr_bytes m]"
    and h: "process_liquidity E pid (a1 # a2 # a3 # a4 # a5 # a6 # a7 # a8 # r) n False w = Inr w'"
  shows "pool_at E pid w' = pool_at E pid w \<and>
    rec_step now (signers (a1 # a2 # a3 # a4 # a5 # a6 # a7 # a8 # r)) (pool_at E pid w) (WithdrawLiquidity n) m
      (token_at E pid w m) (token_at E pid w' m)"
proof -
  from h obtain pool rec w1 where
    l: "load_pool E pid a1 w = Inr pool" "ai_key a2 = ps_owner pool" "is_signer a2"
      "load_token E pid a3 (ai_key a6) w = Inr rec" "n \<le> ts_reserve rec"
    and i: "invoke_signed E pid (SplTransferChecked (ai_key a8) (ai_key a5) (ai_key a6) (ai_key a4)
          (pda E pid [VAULT_AUTHORITY_SEED]) n (ts_decimals rec)) [a5, a6, a4, a7, a8]
        [[VAULT_AUTHORITY_SEED, [bump_of E pid [VAULT_AUTHORITY_SEED]]]] w = Inr w1"
    and st: "swap_store (ser_token (rec\<lparr>ts_reserve := ts_reserve rec - n\<rparr>)) a3 w1 = Inr w'"
    unfolding process_withdraw_iff by blast
  note t = transfer_views [OF i ok]
  have o: "owner_of w1 a3 = pid" using t(3) load_token_key(1) [OF l(4)] by simp
  note v = token_write_views [OF st o load_token_key(2) [OF l(4)] ap]
  have "ps_owner pool \<in> signers (a1 # a2 # a3 # a4 # a5 # a6 # a7 # a8 # r)" using l(2,3) by (auto simp: signers_def)
  then show ?thesis
    using v t load_pool_at [OF l(1)] load_token_at [OF l(4)] l(5) by (auto intro: rc_same rc_withdraw)
qed

lemma swap_refines:
  assumes ok: "runtime_ok E pid" and sr: "signer_rule E pid"
    and ap: "swap_apart E pid [POOL_SEED]" "swap_apart E pid [TOKEN_SEED, arr_bytes m]"
    and h: "process_swap E pid (a1 # a2 # a3 # a4 # a5 # a6 # a7 # a8 # a9 # a10 # a11 # a12 # r) n k w = Inr w'"
    "clock_get E = Inr now"
  shows "pool_at E pid w' = pool_at E pid w \<and>
    rec_step now S (pool_at E pid w) (Swap n k) m (token_at E pid w m) (token_at E pid w' m)"
proof -
  from h(1) obtain pool rec_in rec_out now' w1 w2 w3 w4 received out reserve fields where
    l: "load_pool E pid a1 w = Inr pool" "\<not> ps_paused pool" "ai_key a9 \<noteq> ai_key a10"
      "load_token E pid a3 (ai_key a9) w = Inr rec_in" "load_token E pid a4 (ai_key a10) w = Inr rec_out"
      "clock_get E = Inr now'" "price_is_fresh pool rec_in now'" "price_is_fresh pool rec_out now'"
      "k \<le> out" "out \<le> ts_reserve rec_out" "checked_add (ts_reserve rec_in) received = Some reserve"
    and i1: "invoke_signed E pid (SplTransferChecked (ai_key a12) (ai_key a5) (ai_key a9) (ai_key a7)
          (ai_key a2) n (ts_decimals rec_in)) [a5, a9, a7, a2, a12] [] w = Inr w1"
    and s1: "swap_store (ser_token (rec_in\<lparr>ts_reserve := reserve\<rparr>)) a3 w1 = Inr w2"
    and s2: "swap_store (ser_token (rec_out\<lparr>ts_reserve := ts_reserve rec_out - out\<rparr>)) a4 w2 = Inr w3"
    and i2: "invoke_signed E pid (SplTransferChecked (ai_key a12) (ai_key a8) (ai_key a10) (ai_key a6)
          (pda E pid [VAULT_AUTHORITY_SEED]) out (ts_decimals rec_out)) [a8, a10, a6, a11, a12]
        [[VAULT_AUTHORITY_SEED, [bump_of E pid [VAULT_AUTHORITY_SEED]]]] w3 = Inr w4"
    and w': "w' = sol_log_data fields w4"
    unfolding process_swap_iff invoke_def by (elim exE conjE) (rule that)
  note t1 = transfer_views [OF i1 ok] and t2 = transfer_views [OF i2 ok]
  have o1: "owner_of w1 a3 = pid" "owner_of w1 a4 = pid"
    using t1(3) load_token_key(1) [OF l(4)] load_token_key(1) [OF l(5)] by simp_all
  note v1 = token_write_views [OF s1 o1(1) load_token_key(2) [OF l(4)] ap]
  have o2: "owner_of w2 a4 = pid"
    using store_token_effect(6) [OF s1 o1(1) load_token_key(2) [OF l(4)], of "ai_key a4"] o1(2) by simp
  note v2 = token_write_views [OF s2 o2 load_token_key(2) [OF l(5)] ap]
  have [simp]: "now' = now" using l(6) h(2) by simp
  have "rec_step now S (Some pool) (Swap n k) m (Some rec_in) (Some (rec_in\<lparr>ts_reserve := reserve\<rparr>))"
    using l by (intro rc_in) auto
  moreover have "rec_step now S (Some pool) (Swap n k) m (Some rec_out) (Some (rec_out\<lparr>ts_reserve := ts_reserve rec_out - out\<rparr>))"
    using l by (intro rc_out) auto
  ultimately show ?thesis
    using v1 v2 t1 t2 load_pool_at [OF l(1)] load_token_at [OF l(4)] load_token_at [OF l(5)] l(3)
    by (auto simp: w' rc_same)
qed

lemma list_refines:
  assumes ok: "runtime_ok E pid" and sr: "signer_rule E pid"
    and ap: "swap_apart E pid [POOL_SEED]" "swap_apart E pid [TOKEN_SEED, arr_bytes m]"
    and h: "process_list_token E pid (a1 # a2 # a3 # a4 # a5 # a6 # a7 # r) p w = Inr w'" "clock_get E = Inr now"
  shows "pool_at E pid w' = pool_at E pid w \<and>
    rec_step now (signers (a1 # a2 # a3 # a4 # a5 # a6 # a7 # r)) (pool_at E pid w) (ListToken p) m
      (token_at E pid w m) (token_at E pid w' m)"
proof -
  from h obtain pool dec w1 where
    l: "load_pool E pid a1 w = Inr pool" "ai_key a2 = ps_owner pool" "is_signer a2" "p \<noteq> 0"
    and k: "ai_key a5 = pda E pid [TOKEN_SEED, arr_bytes (ai_key a3)]"
    and c: "create_pda E pid a2 a5 a7 [TOKEN_SEED, arr_bytes (ai_key a3)]
        (bump_of E pid [TOKEN_SEED, arr_bytes (ai_key a3)]) TOKEN_SPACE w = Inr w1"
    and st: "swap_store (ser_token
             \<lparr>ts_mint = ai_key a3, ts_vault = ai_key a4, ts_decimals = dec,
              ts_price = p, ts_reserve = 0, ts_last_price_update = 0, ts_listed = True,
              ts_price_set_at = now\<rparr>) a5 w1 = Inr w'"
    unfolding process_list_token_iff by auto
  note c' = create_pda_views [OF c ok]
  note v = token_write_views [OF st c'(3) k ap]
  have p: "pool_at E pid w1 = pool_at E pid w"
    using c'(2) k apart_pool_token [OF disjI1 [OF ap(1)]] by simp
  have "ps_owner pool \<in> signers (a1 # a2 # a3 # a4 # a5 # a6 # a7 # r)" using l(2,3) by (auto simp: signers_def)
  moreover have "token_at E pid w m = None" if "m = ai_key a3" using c'(4) that by (simp add: token_at_def k)
  moreover have "token_at E pid w1 m = token_at E pid w m" if "m \<noteq> ai_key a3"
    using c'(1) [of m] k apart_token [OF ap(2) that [symmetric]] by simp
  ultimately show ?thesis
    using v p load_pool_at [OF l(1)] l(4) by (auto intro: rc_same rc_list)
qed

lemma init_refines:
  assumes ok: "runtime_ok E pid" and sr: "signer_rule E pid"
    and ap: "swap_apart E pid [POOL_SEED]" "swap_apart E pid [TOKEN_SEED, arr_bytes m]"
    and h: "swap_process_init E pid (a1 # a2 # a3 # a4 # a5 # a6 # a7 # a8 # a9 # r) args w = Inr w'" "clock_get E = Inr now"
      "signers_ok E pid (a1 # a2 # a3 # a4 # a5 # a6 # a7 # a8 # a9 # r)"
  shows "pool_step (signers (a1 # a2 # a3 # a4 # a5 # a6 # a7 # a8 # a9 # r)) (InitPool args) (pool_at E pid w) (pool_at E pid w') \<and>
    rec_step now S (pool_at E pid w) (InitPool args) m (token_at E pid w m) (token_at E pid w' m)"
proof -
  from h(1,2) obtain w1 w2 w3 dec where
    g: "is_signer a2" "validate_init_args args = Inr ()" and kp: "ai_key a1 = pda E pid [POOL_SEED]"
    and c1: "create_pda E pid a2 a1 a7 [POOL_SEED] (bump_of E pid [POOL_SEED]) POOL_SPACE w = Inr w1"
    and s1: "swap_store (ser_pool (init_pool args (ai_key a2) (ai_key a3))) a1 w1 = Inr w2"
    and c2: "create_pda E pid a2 a5 a7 [TOKEN_SEED, arr_bytes (ai_key a3)]
        (bump_of E pid [TOKEN_SEED, arr_bytes (ai_key a3)]) TOKEN_SPACE w2 = Inr w3"
    and s2: "swap_store (ser_token
             \<lparr>ts_mint = ai_key a3, ts_vault = ai_key a4, ts_decimals = dec,
              ts_price = PRICE_ONE, ts_reserve = 0, ts_last_price_update = 0, ts_listed = True,
              ts_price_set_at = now\<rparr>) a5 w3 = Inr w'"
    unfolding swap_init_iff by auto
  note v1 = create_pda_views [OF c1 ok] and v2 = create_pda_views [OF c2 ok]
  note e1 = store_pool_effect [OF s1 v1(3) kp]
  have P: "pool_at E pid w = None" using v1(4) by (simp add: pool_at_def kp)
  have nk: "ai_key a5 \<noteq> pda E pid [POOL_SEED]" using v2(4) e1(1) by (auto simp: pool_at_def)
  obtain bs d where bs: "ser_token
             \<lparr>ts_mint = ai_key a3, ts_vault = ai_key a4, ts_decimals = dec,
              ts_price = PRICE_ONE, ts_reserve = 0, ts_last_price_update = 0, ts_listed = True,
              ts_price_set_at = now\<rparr> = Some bs"
    and st: "store pid w' = (store pid w3)(ai_key a5 \<mapsto> bs @ d)"
    using s2 v2(3) by (rule swap_store_effect) (rule that)
  have "pool_at E pid w' = pool_at E pid w3" using nk by (simp add: pool_at_def st)
  also have "\<dots> = Some (init_pool args (ai_key a2) (ai_key a3))" using v2(2) [OF nk] e1(1) by simp
  finally have P': "pool_at E pid w' = Some (init_pool args (ai_key a2) (ai_key a3))" .
  have "ai_key a2 \<in> signers (a1 # a2 # a3 # a4 # a5 # a6 # a7 # a8 # a9 # r)" using g(1) by (auto simp: signers_def)
  then have ps: "pool_step (signers (a1 # a2 # a3 # a4 # a5 # a6 # a7 # a8 # a9 # r)) (InitPool args) None
      (Some (init_pool args (ai_key a2) (ai_key a3)))" using g(2) by (rule pl_init)
  have t2: "token_at E pid w2 m = token_at E pid w m"
    using e1(2) [OF ap(2)] v1(1) [of m] kp apart_pool_token [OF disjI2 [OF ap(2)]] by simp
  have "rec_step now S (pool_at E pid w) (InitPool args) m (token_at E pid w m) (token_at E pid w' m)"
  proof (cases "ai_key a5 = pda E pid [TOKEN_SEED, arr_bytes m]")
    case True
    have "\<not> (\<exists>x \<in> {a5, a7}. ai_key x = ai_key a5 \<and> is_signer x)"
      using h(3) True swap_seeds_simps(2) [of m] unfolding signers_ok_def by auto
    then have hub: "ai_key a5 = pda E pid [TOKEN_SEED, arr_bytes (ai_key a3)]"
      using create_pda_signed [OF c2 sr] by blast
    have m: "ai_key a3 = m" using apart_token [OF ap(2), of "ai_key a3"] hub True by auto
    have "token_at E pid w m = None" using v2(4) t2 by (simp add: token_at_def True)
    moreover have "token_at E pid w' m = Some \<lparr>ts_mint = m, ts_vault = ai_key a4, ts_decimals = dec,
              ts_price = PRICE_ONE, ts_reserve = 0, ts_last_price_update = 0, ts_listed = True, ts_price_set_at = now\<rparr>"
      using tokenc.deserialize_padded [OF bs] m by (simp add: token_at_def st True)
    ultimately show ?thesis by (simp add: rc_hub)
  next
    case False
    then have "token_at E pid w' m = token_at E pid w m" using v2(1) [OF False] t2 by (simp add: token_at_def st)
    then show ?thesis by (simp add: rc_same)
  qed
  then show ?thesis using ps P P' by simp
qed

lemma step_refines:
  assumes "swap_step E pid accs ix w = Inr w'" "clock_get E = Inr now" "runtime_ok E pid" "signer_rule E pid"
    and "swap_apart E pid [POOL_SEED]" "swap_apart E pid [TOKEN_SEED, arr_bytes m]" "signers_ok E pid accs"
  shows "pool_step (signers accs) ix (pool_at E pid w) (pool_at E pid w') \<and>
    rec_step now (signers accs) (pool_at E pid w) ix m (token_at E pid w m) (token_at E pid w' m)"
  using assms(1)
proof (cases rule: swap_accsE)
  case init
  then show ?thesis using init_refines [OF assms(3-6) _ assms(2)] assms(7) by simp
next
  case list
  then show ?thesis using list_refines [OF assms(3-6) _ assms(2)] by (simp add: pl_same)
next
  case price
  then show ?thesis using price_refines [OF assms(3-6) _ assms(2)] by (simp add: pl_same)
next
  case seed
  then show ?thesis using seed_refines [OF assms(3-6)] by (simp add: pl_same)
next
  case withdraw
  then show ?thesis using withdraw_refines [OF assms(3-6)] by (simp add: pl_same)
next
  case swap
  then show ?thesis using swap_refines [OF assms(3-6) _ assms(2)] by (simp add: pl_same)
next
  case (pause b a1 a2 r)
  from pause(3) obtain p where l: "load_pool E pid a1 w = Inr p" "is_signer a2"
    "ai_key a2 = ps_owner p \<or> b \<and> ps_guardian p \<noteq> 0 \<and> ai_key a2 = ps_guardian p"
    and st: "swap_store (ser_pool (p\<lparr>ps_paused := b\<rparr>)) a1 w = Inr w'"
    unfolding pause(2) swap_set_paused_iff by blast
  have "ai_key a2 \<in> signers accs" using l(2) by (auto simp: pause(2) signers_def)
  then have "pool_step (signers accs) ix (Some p) (Some (p\<lparr>ps_paused := b\<rparr>))"
    using l(3) by (cases b) (auto simp: pause(1) intro: pl_pause pl_unpause)
  then show ?thesis by (rule pool_write_refines [OF st l(1) assms(6)])
next
  case (role ro a1 a2 r)
  from role(3) obtain p p' where l: "load_pool E pid a1 w = Inr p" "is_signer a2" "ai_key a2 = ps_owner p"
    "set_role p ro = Some p'" and st: "swap_store (ser_pool p') a1 w = Inr w'"
    unfolding role(2) process_set_role_iff by blast
  have "ps_owner p \<in> signers accs" using l(2) l(3) [symmetric] by (auto simp: role(2) signers_def)
  then have "pool_step (signers accs) ix (Some p) (Some p')" using role(1) l(4) by (rule pl_role)
  then show ?thesis by (rule pool_write_refines [OF st l(1) assms(6)])
qed

end
