(* ===== verification/SwapSafety.thy ===== *)
theory SwapSafety
  imports SwapPool
begin

text \<open>
  Properties of the swap program over every history: instructions of anyone at any
  time, interleaved with steps of other programs, which cannot write the accounts of
  the pool, create its program-derived accounts, or take tokens from an account that
  only the pool's authority controls.
\<close>

section \<open>Histories\<close>

datatype swap_label = SwapExecuted i64 "account_info list" swap_instruction | SwapForeign

definition swap_foreign :: "env \<Rightarrow> pubkey \<Rightarrow> world \<Rightarrow> world \<Rightarrow> bool" where
  "swap_foreign E pid w w' \<longleftrightarrow>
     (\<forall>s. swap_seeds s \<longrightarrow> store pid w' (pda E pid s) = store pid w (pda E pid s)) \<and>
     (\<forall>m k n. vault_holds E pid w m k n \<longrightarrow> (\<exists>n' \<ge> n. vault_holds E pid w' m k n'))"

fun swap_event :: "env \<Rightarrow> pubkey \<Rightarrow> world \<Rightarrow> swap_label \<Rightarrow> world \<Rightarrow> bool" where
  "swap_event E pid w (SwapExecuted now accs ix) w' \<longleftrightarrow>
     signers_ok E pid accs \<and> swap_step (at_time E now) pid accs ix w = Inr w'"
| "swap_event E pid w SwapForeign w' \<longleftrightarrow> swap_foreign E pid w w'"

definition swap_trusted :: "env \<Rightarrow> pubkey \<Rightarrow> bool" where
  "swap_trusted E pid \<longleftrightarrow> runtime_ok E pid \<and> control_rule E pid \<and> signer_rule E pid"

lemma swap_at_time [simp]:
  "control_rule (at_time E t) pid = control_rule E pid" "signer_rule (at_time E t) pid = signer_rule E pid"
  "swap_apart (at_time E t) pid = swap_apart E pid" "signers_ok (at_time E t) pid = signers_ok E pid"
  "pool_at (at_time E t) = pool_at E" "token_at (at_time E t) = token_at E"
  "vault_holds (at_time E t) = vault_holds E" "solvent (at_time E t) = solvent E"
  by (simp_all add: control_rule_def signer_rule_def swap_apart_def signers_ok_def pool_at_def token_at_def
      vault_holds_def solvent_def fun_eq_iff)

lemma event_refines:
  assumes "swap_event E pid w (SwapExecuted now accs ix) w'" "swap_trusted E pid"
    and "swap_apart E pid [POOL_SEED]" "swap_apart E pid [TOKEN_SEED, arr_bytes m]"
  shows "pool_step (signers accs) ix (pool_at E pid w) (pool_at E pid w') \<and>
    rec_step now (signers accs) (pool_at E pid w) ix m (token_at E pid w m) (token_at E pid w' m)"
  using step_refines [of "at_time E now" pid accs ix w w' now m] assms by (simp add: swap_trusted_def)

lemma foreign_views:
  assumes "swap_event E pid w SwapForeign w'"
  shows "pool_at E pid w' = pool_at E pid w" "token_at E pid w' m = token_at E pid w m"
  using assms by (auto simp: swap_foreign_def pool_at_def token_at_def)

lemma step_solvent:
  assumes "swap_step E pid accs ix w = Inr w'" "swap_trusted E pid" "swap_apart E pid [TOKEN_SEED, arr_bytes m]"
    and "signers_ok E pid accs" "solvent E pid m w"
  shows "solvent E pid m w'"
proof -
  have t: "runtime_ok E pid" "control_rule E pid" "signer_rule E pid" using assms(2) by (auto simp: swap_trusted_def)
  from assms(1) show ?thesis
  proof (cases rule: swap_accsE)
    case init
    then show ?thesis using solvent_init [OF _ t(1,3) assms(3,5)] assms(4) by simp
  next
    case list
    then show ?thesis using solvent_list [OF _ t(1) assms(3,5)] by simp
  next
    case price
    then show ?thesis using solvent_set_price [OF _ t(1) assms(3,5)] by simp
  next
    case seed
    then show ?thesis using solvent_seed [OF _ t(1,2) assms(3,5)] by simp
  next
    case withdraw
    then show ?thesis using solvent_withdraw [OF _ t(1,2) assms(3,5)] by simp
  next
    case swap
    then show ?thesis using solvent_swap [OF _ t(1,2) assms(3,5)] by simp
  next
    case (pause b a1 a2 r)
    from pause(3) [unfolded pause(2)] obtain p where "load_pool E pid a1 w = Inr p" "swap_store (ser_pool (p\<lparr>ps_paused := b\<rparr>)) a1 w = Inr w'"
      unfolding swap_set_paused_iff by blast
    then show ?thesis using solvent_pool_write [OF _ _ t(1) assms(3,5)] by blast
  next
    case (role ro a1 a2 r)
    from role(3) [unfolded role(2)] obtain p p' where "load_pool E pid a1 w = Inr p" "swap_store (ser_pool p') a1 w = Inr w'"
      unfolding process_set_role_iff by blast
    then show ?thesis using solvent_pool_write [OF _ _ t(1) assms(3,5)] by blast
  qed
qed

text \<open>The steps of a history under the assumptions on the runtime and on the addresses.\<close>

definition guarded_event :: "env \<Rightarrow> pubkey \<Rightarrow> pubkey \<Rightarrow> world \<Rightarrow> swap_label \<Rightarrow> world \<Rightarrow> bool" where
  "guarded_event E pid m w e w' \<longleftrightarrow>
     swap_event E pid w e w' \<and> swap_trusted E pid \<and> swap_apart E pid [POOL_SEED] \<and>
     swap_apart E pid [TOKEN_SEED, arr_bytes m]"

lemma guard_trace:
  assumes "trace (swap_event E pid) w0 es w" "swap_trusted E pid" "swap_apart E pid [POOL_SEED]"
    and "swap_apart E pid [TOKEN_SEED, arr_bytes m]"
  shows "trace (guarded_event E pid m) w0 es w"
  using assms(1) by (rule trace_mono) (simp add: guarded_event_def assms(2-4))

section \<open>Invariants\<close>

definition pool_inv :: "pool_state \<Rightarrow> bool" where
  "pool_inv p \<longleftrightarrow> ps_fee_bps p \<le> MAX_FEE_BPS \<and> ps_max_price_deviation_bps p \<noteq> 0 \<and>
     ps_max_price_deviation_bps p \<le> BPS_DENOM \<and> 0 \<le> sint (ps_min_price_update_interval p) \<and>
     0 < sint (ps_max_price_age p)"

lemma pool_inv_init: "validate_init_args args = Inr () \<Longrightarrow> pool_inv (init_pool args payer hub)"
  by (auto simp: validate_init_args_def check_fee_bps_def check_deviation_bps_def pool_inv_def init_pool_def
      res_simps not_less DEFAULT_MAX_PRICE_AGE_def)

lemma pool_inv_role: "set_role p role = Some p' \<Longrightarrow> pool_inv p \<Longrightarrow> pool_inv p'"
  by (auto simp: set_role_def pool_inv_def split: swap_role.splits if_splits)

lemma set_role_identity:
  "set_role p role = Some p' \<Longrightarrow> ps_owner p' = ps_owner p \<and> ps_hub_mint p' = ps_hub_mint p"
  by (auto simp: set_role_def split: swap_role.splits if_splits)

lemma pool_step_inv: "pool_step S ix P P' \<Longrightarrow> pred_option pool_inv P \<Longrightarrow> pred_option pool_inv P'"
proof (induction rule: pool_step.induct)
  case (pl_role p ix role p')
  then show ?case using pool_inv_role by auto
qed (auto simp: pool_inv_init, auto simp: pool_inv_def)

text \<open>The pool, once created, keeps its owner and its unit of account.\<close>

definition same_pool :: "pool_state option \<Rightarrow> pool_state option \<Rightarrow> bool" where
  "same_pool P P' \<longleftrightarrow>
     (\<forall>p. P = Some p \<longrightarrow> (\<exists>p'. P' = Some p' \<and> ps_owner p' = ps_owner p \<and> ps_hub_mint p' = ps_hub_mint p))"

lemma pool_step_same: "pool_step S ix P P' \<Longrightarrow> same_pool P P'"
  by (induction rule: pool_step.induct) (auto simp: same_pool_def dest: set_role_identity)

text \<open>A token record, once created, keeps its mint, vault and decimals, and a positive price stays positive.\<close>

definition same_record :: "token_state option \<Rightarrow> token_state option \<Rightarrow> bool" where
  "same_record R R' \<longleftrightarrow>
     (\<forall>r. R = Some r \<longrightarrow> (\<exists>r'. R' = Some r' \<and> ts_mint r' = ts_mint r \<and> ts_vault r' = ts_vault r \<and>
        ts_decimals r' = ts_decimals r \<and> ts_listed r' = ts_listed r \<and> (ts_price r \<noteq> 0 \<longrightarrow> ts_price r' \<noteq> 0)))"

lemma same_record_trans: "same_record a b \<Longrightarrow> same_record b c \<Longrightarrow> same_record a c"
  unfolding same_record_def by fastforce

lemma rec_step_same: "rec_step now S P ix m R R' \<Longrightarrow> same_record R R'"
  by (cases R) (auto simp: same_record_def elim: rec_step_Some)

text \<open>The hub is listed at exactly one.\<close>

definition hub_pinned :: "env \<Rightarrow> pubkey \<Rightarrow> pubkey \<Rightarrow> world \<Rightarrow> bool" where
  "hub_pinned E pid h w \<longleftrightarrow>
     (\<exists>p r. pool_at E pid w = Some p \<and> ps_hub_mint p = h \<and> token_at E pid w h = Some r \<and>
        ts_mint r = h \<and> ts_price r = PRICE_ONE)"

lemma hub_pinned_step:
  assumes "pool_step S ix (pool_at E pid w) (pool_at E pid w')"
    and "rec_step now S (pool_at E pid w) ix h (token_at E pid w h) (token_at E pid w' h)" "hub_pinned E pid h w"
  shows "hub_pinned E pid h w'"
proof -
  obtain p r where w: "pool_at E pid w = Some p" "ps_hub_mint p = h" "token_at E pid w h = Some r" "ts_mint r = h"
    "ts_price r = PRICE_ONE" using assms(3) by (auto simp: hub_pinned_def)
  obtain p' where "pool_at E pid w' = Some p'" "ps_hub_mint p' = h"
    using pool_step_same [OF assms(1)] w by (auto simp: same_pool_def)
  moreover obtain r' where "token_at E pid w' h = Some r'" "ts_mint r' = h" "ts_price r' = PRICE_ONE"
    using assms(2) w by (auto elim: rec_step_Some)
  ultimately show ?thesis by (simp add: hub_pinned_def)
qed

interpretation solvency: preserved "guarded_event E pid m" "solvent E pid m" for E pid m
proof
  fix w e w'
  assume g: "guarded_event E pid m w e w'" and s: "solvent E pid m w"
  show "solvent E pid m w'"
  proof (cases e)
    case (SwapExecuted now accs ix)
    then show ?thesis
      using step_solvent [of "at_time E now" pid accs ix w w' m] g s by (simp add: guarded_event_def swap_trusted_def)
  next
    case SwapForeign
    then have f: "swap_foreign E pid w w'" using g by (simp add: guarded_event_def)
    have t: "token_at E pid w' m = token_at E pid w m" using foreign_views(2) f by simp
    show ?thesis
    proof (rule solventI)
      fix r
      assume "token_at E pid w' m = Some r"
      then obtain n where "ts_listed r" "ts_mint r = m" and n: "vault_holds E pid w m (ts_vault r) n" "unat (ts_reserve r) \<le> n"
        using s t by (auto simp: solvent_def)
      moreover obtain n' where "n \<le> n'" "vault_holds E pid w' m (ts_vault r) n'"
        using f n(1) unfolding swap_foreign_def by blast
      ultimately show "ts_listed r \<and> ts_mint r = m \<and>
          (\<exists>n. vault_holds E pid w' m (ts_vault r) n \<and> unat (ts_reserve r) \<le> n)"
        using le_trans by blast
    qed
  qed
qed

interpretation pinned: preserved "guarded_event E pid h" "hub_pinned E pid h" for E pid h
proof
  fix w e w'
  assume g: "guarded_event E pid h w e w'" and i: "hub_pinned E pid h w"
  show "hub_pinned E pid h w'"
  proof (cases e)
    case (SwapExecuted now accs ix)
    then show ?thesis
      using event_refines [of E pid w now accs ix w' h] hub_pinned_step [OF _ _ i] g by (auto simp: guarded_event_def)
  next
    case SwapForeign
    then show ?thesis using foreign_views [of E pid w w'] g i by (simp add: guarded_event_def hub_pinned_def)
  qed
qed

interpretation bounds: preserved "guarded_event E pid m" "\<lambda>w. pred_option pool_inv (pool_at E pid w)" for E pid m
proof
  fix w e w'
  assume g: "guarded_event E pid m w e w'" and i: "pred_option pool_inv (pool_at E pid w)"
  show "pred_option pool_inv (pool_at E pid w')"
  proof (cases e)
    case (SwapExecuted now accs ix)
    then show ?thesis
      using event_refines [of E pid w now accs ix w' m] pool_step_inv [OF _ i] g by (auto simp: guarded_event_def)
  next
    case SwapForeign
    then show ?thesis using foreign_views [of E pid w w'] g i by (simp add: guarded_event_def)
  qed
qed

interpretation identity: monotone_along "guarded_event E pid m"
  "\<lambda>w w'. same_pool (pool_at E pid w) (pool_at E pid w') \<and> same_record (token_at E pid w m) (token_at E pid w' m)" for E pid m
proof
  fix w0 w e w'
  assume i: "same_pool (pool_at E pid w0) (pool_at E pid w) \<and> same_record (token_at E pid w0 m) (token_at E pid w m)"
    and g: "guarded_event E pid m w e w'"
  have "same_pool (pool_at E pid w) (pool_at E pid w') \<and> same_record (token_at E pid w m) (token_at E pid w' m)"
  proof (cases e)
    case (SwapExecuted now accs ix)
    then show ?thesis
      using event_refines [of E pid w now accs ix w' m] g pool_step_same rec_step_same
      by (auto simp: guarded_event_def)
  next
    case SwapForeign
    then show ?thesis
      using foreign_views [of E pid w w'] g by (simp add: guarded_event_def same_pool_def same_record_def)
  qed
  then show "same_pool (pool_at E pid w0) (pool_at E pid w') \<and> same_record (token_at E pid w0 m) (token_at E pid w' m)"
    using i same_record_trans by (fastforce simp: same_pool_def)
qed (auto simp: same_pool_def same_record_def)

end
