(* ===== verification/RustStr.thy ===== *)
theory RustStr
  imports Prelude
begin

text \<open>
  Strings of the Rust standard library, as lists of code points, and the operations on
  them that the programs use: trimming, prefixes, splitting, parsing unsigned numbers.
\<close>

section \<open>Definitions\<close>

type_synonym rust_str = "nat list"

text \<open>\<open>char::is_whitespace\<close>: the Unicode property \<open>White_Space\<close>.\<close>

definition is_whitespace :: "nat \<Rightarrow> bool" where
  "is_whitespace c \<longleftrightarrow> (9 \<le> c \<and> c \<le> 13) \<or> (8192 \<le> c \<and> c \<le> 8202) \<or>
     c \<in> {32, 133, 160, 5760, 8232, 8233, 8239, 8287, 12288}"

definition trim :: "rust_str \<Rightarrow> rust_str" where
  "trim s = rev (dropWhile is_whitespace (rev (dropWhile is_whitespace s)))"

fun split_once :: "nat \<Rightarrow> rust_str \<Rightarrow> (rust_str \<times> rust_str) option" where
  "split_once c [] = None"
| "split_once c (x # xs) =
     (if x = c then Some ([], xs) else map_option (\<lambda>(a, b). (x # a, b)) (split_once c xs))"

definition is_ascii_digit :: "nat \<Rightarrow> bool" where
  "is_ascii_digit c \<longleftrightarrow> 48 \<le> c \<and> c \<le> 57"

definition rstr :: "string \<Rightarrow> rust_str" where
  "rstr s = map of_char s"

definition starts_with :: "rust_str \<Rightarrow> rust_str \<Rightarrow> bool" where
  "starts_with s p \<longleftrightarrow> take (length p) s = p"

definition strip_prefix :: "rust_str \<Rightarrow> rust_str \<Rightarrow> rust_str option" where
  "strip_prefix s p = (if starts_with s p then Some (drop (length p) s) else None)"

text \<open>The words between runs of white space.\<close>

function split_whitespace :: "rust_str \<Rightarrow> rust_str list" where
  "split_whitespace s =
     (case dropWhile is_whitespace s of
        [] \<Rightarrow> []
      | t \<Rightarrow> takeWhile (\<lambda>c. \<not> is_whitespace c) t # split_whitespace (dropWhile (\<lambda>c. \<not> is_whitespace c) t))"
  by pat_completeness auto

lemma dropWhile_not_head:
  assumes "dropWhile P s = t" "t \<noteq> []"
  shows "\<not> P (hd t)"
  using assms hd_dropWhile by blast

termination split_whitespace
proof (relation "measure length")
  fix s x y t
  assume t: "dropWhile is_whitespace s = x # y"
  have "length (dropWhile (\<lambda>c. \<not> is_whitespace c) (x # y)) \<le> length y"
    using dropWhile_not_head [OF t] length_dropWhile_le by auto
  also have "\<dots> < length s" using length_dropWhile_le [of is_whitespace s] by (simp add: t)
  finally show "(dropWhile (\<lambda>c. \<not> is_whitespace c) (x # y), s) \<in> measure length" by simp
qed simp

declare split_whitespace.simps [simp del]

text \<open>\<open>str::parse\<close> at an unsigned type: an optional plus sign, then at least one digit.\<close>

fun parse_digits :: "'a::len word \<Rightarrow> rust_str \<Rightarrow> 'a word option" where
  "parse_digits acc [] = Some acc"
| "parse_digits acc (c # cs) =
     (if is_ascii_digit c then do {
        m \<leftarrow> checked_mul acc 10;
        a \<leftarrow> checked_add m (of_nat (c - 48));
        parse_digits a cs }
      else None)"

definition parse_uint :: "rust_str \<Rightarrow> 'a::len word option" where
  "parse_uint s =
     (let digits = (if s \<noteq> [] \<and> hd s = 43 then tl s else s) in
      if digits = [] then None else parse_digits 0 digits)"

text \<open>\<open>to_string\<close> of an unsigned number, and \<open>to_ascii_lowercase\<close>.\<close>

fun dec_digits :: "nat \<Rightarrow> rust_str" where
  "dec_digits n = (if n < 10 then [48 + n] else dec_digits (n div 10) @ [48 + n mod 10])"

declare dec_digits.simps [simp del]

definition to_ascii_lowercase :: "rust_str \<Rightarrow> rust_str" where
  "to_ascii_lowercase s = map (\<lambda>c. if 65 \<le> c \<and> c \<le> 90 then c + 32 else c) s"

section \<open>Numbers survive printing\<close>

lemma dec_digits_nonempty: "dec_digits n \<noteq> []"
  by (subst dec_digits.simps) simp

lemma dec_digits_digit: "c \<in> set (dec_digits n) \<Longrightarrow> is_ascii_digit c"
  by (induction n rule: dec_digits.induct)
    (subst (asm) dec_digits.simps, auto simp: is_ascii_digit_def split: if_splits)

lemma parse_digits_snoc:
  "parse_digits acc (cs @ [c]) = do { a \<leftarrow> parse_digits acc cs; parse_digits a [c] }"
  by (induction acc cs rule: parse_digits.induct) (auto split: Option.bind_splits)

lemma unat_of_nat_lt: "n < 2 ^ LENGTH('a) \<Longrightarrow> unat (of_nat n :: 'a::len word) = n"
  by (simp add: unat_of_nat)

lemma parse_dec_digits:
  fixes x :: "'a::len word"
  assumes "unat x = n" "8 \<le> LENGTH('a)"
  shows "parse_digits (0 :: 'a word) (dec_digits n) = Some x"
  using assms(1)
proof (induction n arbitrary: x rule: dec_digits.induct)
  case (1 n)
  have big: "(2 :: nat) ^ 8 \<le> 2 ^ LENGTH('a)" using assms(2) by (intro power_increasing) simp_all
  have ten: "unat (10 :: 'a word) = 10" using big unat_of_nat_lt [of 10, where 'a = 'a] by simp
  have nx: "n < 2 ^ LENGTH('a)" using "1.prems" unsigned_less [of x, where 'a = nat] by simp
  have step: "parse_digits (of_nat q :: 'a word) [48 + d] = Some (of_nat (10 * q + d))"
    if "d < 10" "10 * q + d < 2 ^ LENGTH('a)" for q d
  proof -
    have q: "unat (of_nat q :: 'a word) = q" using that by (intro unat_of_nat_lt) linarith
    have m: "checked_mul (of_nat q :: 'a word) 10 = Some (of_nat (q * 10))"
      using that unfolding checked_mul_def q ten by (simp add: ac_simps)
    have "unat (of_nat (q * 10) :: 'a word) = q * 10" "unat (of_nat d :: 'a word) = d"
      using that by (intro unat_of_nat_lt; linarith)+
    then have "checked_add (of_nat (q * 10) :: 'a word) (of_nat d) = Some (of_nat (q * 10) + of_nat d)"
      using that by (simp add: checked_add_def)
    with m show ?thesis using that by (simp add: is_ascii_digit_def algebra_simps)
  qed
  have x: "x = of_nat n" using "1.prems" by (metis word_of_nat_eq_iff word_unat_eq_iff unat_of_nat_lt nx)
  show ?case
  proof (cases "n < 10")
    case True
    then show ?thesis using step [of n 0] nx by (subst dec_digits.simps) (simp add: x)
  next
    case False
    have "unat (of_nat (n div 10) :: 'a word) = n div 10"
      using nx by (intro unat_of_nat_lt) (simp add: less_le_trans [of "n div 10" "n + 1"] order.strict_trans1)
    from 1(1) [OF False this] have "parse_digits (0 :: 'a word) (dec_digits (n div 10)) = Some (of_nat (n div 10))" .
    then show ?thesis
      using step [of "n mod 10" "n div 10"] nx False
      by (subst dec_digits.simps) (simp add: parse_digits_snoc x)
  qed
qed

lemma parse_to_string:
  fixes x :: "'a::len word"
  assumes "8 \<le> LENGTH('a)"
  shows "parse_uint (dec_digits (unat x)) = Some x"
proof -
  obtain c cs where c: "dec_digits (unat x) = c # cs" using dec_digits_nonempty by (cases "dec_digits (unat x)") auto
  then have "c \<noteq> 43" using dec_digits_digit [of c "unat x"] by (auto simp: is_ascii_digit_def)
  then show ?thesis using parse_dec_digits [OF refl assms, of x] by (simp add: parse_uint_def c)
qed

end
