(* ===== verification/Refresh.thy ===== *)
theory Refresh
  imports SwapMath RustStr
begin

text \<open>
  The price refresher's decision (\<open>crates/swap-math/src/refresh.rs\<close>), shared by the
  EVM and the Solana price keeper: when to reprice a token, and to what. A planned
  update respects the guards of the pool, a trader cannot profit from it, and
  following the plan reaches the target price. Strings are lists of code points.
\<close>

section \<open>Planning\<close>

record price_state =
  pst_now :: i64
  pst_price :: u128
  pst_price_set_at :: i64
  pst_last_price_update :: i64
  pst_max_age :: "i64 option"
  pst_min_update_interval :: i64
  pst_max_deviation_bps :: u16
  pst_fee_bps :: u16

definition step_cap_bps :: "price_state \<Rightarrow> u16" where
  "step_cap_bps s = min (pst_max_deviation_bps s) (pst_fee_bps s)"

datatype plan_result = PlanIdle | PlanWait i64 | PlanSet u128 u128 bool

definition imax :: "i64 \<Rightarrow> i64 \<Rightarrow> i64" where
  "imax x y = (if sint x \<le> sint y then y else x)"

definition abs_diff :: "'a::len word \<Rightarrow> 'a word \<Rightarrow> 'a word" where
  "abs_diff x y = (if x < y then y - x else x - y)"

definition plan_due :: "price_state \<Rightarrow> i64 \<Rightarrow> bool" where
  "plan_due s margin =
     (case pst_max_age s of
        Some max_age \<Rightarrow>
          sint (isat_sub (pst_now s) (pst_price_set_at s)) \<ge> sint (imax (isat_sub max_age margin) 0)
      | None \<Rightarrow> False)"

definition plan :: "price_state \<Rightarrow> u128 \<Rightarrow> i64 \<Rightarrow> plan_result" where
  "plan s target margin =
     (let moving = (pst_price s \<noteq> target);
          due = plan_due s margin;
          until = isat_add (pst_last_price_update s) (pst_min_update_interval s) in
      if \<not> moving \<and> \<not> due then PlanIdle
      else if pst_last_price_update s \<noteq> 0 \<and> sint (pst_now s) < sint until then PlanWait until
      else
        let cap = (case mul_div_floor (pst_price s) (ucast (step_cap_bps s)) (ucast BPS_DENOM) of
                     Some c \<Rightarrow> c | None \<Rightarrow> 0);
            (nxt, step) =
              (if abs_diff (pst_price s) target \<le> cap then (target, False)
               else if target > pst_price s then (sat_add (pst_price s) cap, True)
               else (sat_sub (pst_price s) cap, True)) in
        if nxt = pst_price s \<and> \<not> due then PlanIdle
        else PlanSet (pst_price s) nxt step)"

definition due_in :: "price_state \<Rightarrow> i64 \<Rightarrow> i64 option" where
  "due_in s margin =
     (case pst_max_age s of
        None \<Rightarrow> None
      | Some max_age \<Rightarrow>
          let due_at = isat_add (pst_price_set_at s) (imax (isat_sub max_age margin) 0) in
          Some (imax (isat_sub due_at (pst_now s)) 0))"

section \<open>Parsing prices\<close>

text \<open>\<open>str::parse::<u128>\<close> on a non-empty string of digits.\<close>

fun parse_u128 :: "u128 \<Rightarrow> rust_str \<Rightarrow> u128 option" where
  "parse_u128 acc [] = Some acc"
| "parse_u128 acc (c # cs) = do {
     m \<leftarrow> checked_mul acc 10;
     a \<leftarrow> checked_add m (of_nat (c - 48));
     parse_u128 a cs }"

definition parse_price :: "rust_str \<Rightarrow> u128 option" where
  "parse_price str =
     (let s = trim str;
          (whole, frac) = (case split_once 46 s of Some p \<Rightarrow> p | None \<Rightarrow> (s, [])) in
      if whole = [] \<and> frac = [] then None
      else if \<not> list_all is_ascii_digit whole \<or> \<not> list_all is_ascii_digit frac then None
      else if length frac > 18 then None
      else do {
        w \<leftarrow> (if whole = [] then Some 0 else parse_u128 0 whole);
        f \<leftarrow> (if frac = [] then Some 0
              else do { n \<leftarrow> parse_u128 0 frac; checked_mul n (10 ^ (18 - length frac)) });
        m \<leftarrow> checked_mul w PRICE_ONE;
        v \<leftarrow> checked_add m f;
        if v > 0 then Some v else None })"

section \<open>Planned steps\<close>

lemma unat_abs_diff: "unat (abs_diff x y) = (if unat x < unat y then unat y - unat x else unat x - unat y)"
  by (auto simp: abs_diff_def word_less_nat_alt unat_sub word_le_nat_alt)

lemma unat_sat_add: "unat (sat_add x y) = min (unat x + unat y) (2 ^ LENGTH('a) - 1)"
  for x y :: "'a::len word"
  using unsigned_less [of x, where 'a = nat] unsigned_less [of y, where 'a = nat]
  by (auto simp: sat_add_def unat_word_ariths unsigned_minus_1_eq_mask mask_eq_exp_minus_1)

lemma bps_value [simp]: "unat (ucast BPS_DENOM :: u128) = 10000" "(ucast BPS_DENOM :: u128) \<noteq> 0"
  by (simp_all add: BPS_DENOM_def)

text \<open>The largest move of one update, a fraction of the current price; an overflow forbids any move.\<close>

definition step_cap :: "price_state \<Rightarrow> nat" where
  "step_cap s = (let c = unat (pst_price s) * unat (step_cap_bps s) div 10000 in if c < 2 ^ 128 then c else 0)"

lemma step_cap_word:
  "unat (case mul_div_floor (pst_price s) (ucast (step_cap_bps s)) (ucast BPS_DENOM) of
     Some c \<Rightarrow> c | None \<Rightarrow> 0) = step_cap s"
  by (simp add: mul_div_floor_exact step_cap_def unat_ucast_wide unat_of_nat_less)

lemma step_cap_le: "step_cap s * 10000 \<le> unat (pst_price s) * unat (step_cap_bps s)"
  by (simp add: step_cap_def Let_def)

text \<open>The price one update reaches, in exact arithmetic.\<close>

definition next_price :: "nat \<Rightarrow> nat \<Rightarrow> nat \<Rightarrow> nat" where
  "next_price p cap t = (if p < t then min t (p + cap) else max t (p - cap))"

definition cooled :: "price_state \<Rightarrow> bool" where
  "cooled s \<longleftrightarrow> pst_last_price_update s = 0 \<or>
     sint (isat_add (pst_last_price_update s) (pst_min_update_interval s)) \<le> sint (pst_now s)"

lemma plan_cooled:
  assumes "cooled s"
  shows "plan s target margin =
    (let nxt = of_nat (next_price (unat (pst_price s)) (step_cap s) (unat target)) in
     if (pst_price s = target \<or> nxt = pst_price s) \<and> \<not> plan_due s margin then PlanIdle
     else PlanSet (pst_price s) nxt (step_cap s < unat (abs_diff (pst_price s) target)))"
proof -
  define cap where "cap = (case mul_div_floor (pst_price s) (ucast (step_cap_bps s)) (ucast BPS_DENOM) of
     Some c \<Rightarrow> c | None \<Rightarrow> 0)"
  have cap: "unat cap = step_cap s" unfolding cap_def by (rule step_cap_word)
  let ?p = "pst_price s"
  have cases: "(if abs_diff ?p target \<le> cap then (target, False)
       else if target > ?p then (sat_add ?p cap, True) else (sat_sub ?p cap, True)) =
     (of_nat (next_price (unat ?p) (step_cap s) (unat target)), step_cap s < unat (abs_diff ?p target))"
  proof (cases "abs_diff ?p target \<le> cap")
    case True
    then have "next_price (unat ?p) (step_cap s) (unat target) = unat target"
      by (auto simp: next_price_def word_le_nat_alt unat_abs_diff cap split: if_splits)
    then show ?thesis using True by (simp add: word_le_nat_alt cap)
  next
    case False
    then have far: "step_cap s < unat (abs_diff ?p target)" by (simp add: word_le_nat_alt cap)
    have up: "sat_add ?p cap = of_nat (next_price (unat ?p) (step_cap s) (unat target))" if "unat ?p < unat target"
    proof -
      have "unat ?p + step_cap s < unat target" using far that by (simp add: unat_abs_diff)
      then show ?thesis
        using that u128_less [of target] by (simp add: next_price_def sat_add_def cap flip: cap)
    qed
    have down: "sat_sub ?p cap = of_nat (next_price (unat ?p) (step_cap s) (unat target))" if "\<not> unat ?p < unat target"
    proof -
      have "unat target \<le> unat ?p - step_cap s" "step_cap s \<le> unat ?p"
        using far that by (auto simp: unat_abs_diff)
      then show ?thesis
        using that by (simp add: next_price_def sat_sub_def word_le_nat_alt cap of_nat_diff flip: cap)
    qed
    show ?thesis using False far up down by (simp add: word_less_nat_alt)
  qed
  have "\<not> (pst_last_price_update s \<noteq> 0 \<and> sint (pst_now s) <
      sint (isat_add (pst_last_price_update s) (pst_min_update_interval s)))"
    using assms by (auto simp: cooled_def)
  then show ?thesis unfolding plan_def cap_def [symmetric] cases Let_def by auto
qed

lemma plan_waits:
  assumes "\<not> cooled s"
  shows "plan s target margin = (if pst_price s = target \<and> \<not> plan_due s margin then PlanIdle
    else PlanWait (isat_add (pst_last_price_update s) (pst_min_update_interval s)))"
  using assms by (auto simp: plan_def Let_def cooled_def)

lemma next_price_less: "p < 2 ^ 128 \<Longrightarrow> t < 2 ^ 128 \<Longrightarrow> next_price p c t < 2 ^ 128"
  by (auto simp: next_price_def)

lemma plan_Set:
  assumes "plan s target margin = PlanSet from p st"
  shows "cooled s" and "from = pst_price s"
    and "unat p = next_price (unat (pst_price s)) (step_cap s) (unat target)"
    and "st \<longleftrightarrow> step_cap s < unat (abs_diff (pst_price s) target)"
proof -
  show c: "cooled s" using plan_waits [of s target margin] assms by (cases "cooled s") (auto split: if_splits)
  have "next_price (unat (pst_price s)) (step_cap s) (unat target) < 2 ^ LENGTH(128)"
    using next_price_less [OF u128_less u128_less] by simp
  note n = unat_of_nat_less [OF this]
  show "from = pst_price s" "unat p = next_price (unat (pst_price s)) (step_cap s) (unat target)"
    "st \<longleftrightarrow> step_cap s < unat (abs_diff (pst_price s) target)"
    using assms n unfolding plan_cooled [OF c] Let_def by (auto split: if_splits)
qed

lemma next_price_step:
  "next_price p c t - p \<le> c \<and> p - next_price p c t \<le> c"
  "p < t \<Longrightarrow> p \<le> next_price p c t \<and> next_price p c t \<le> t"
  "t \<le> p \<Longrightarrow> t \<le> next_price p c t \<and> next_price p c t \<le> p"
  by (auto simp: next_price_def)

text \<open>
  A planned update names the price it was planned from, waits out the cooldown,
  moves the price by at most the smaller of the deviation cap and the swap fee (in
  basis points of the current price), towards the target and never past it, keeps a
  positive price positive, and is marked as a step exactly when it stops short of
  the target.
\<close>

theorem planned_step_legal:
  assumes "plan s target margin = PlanSet from price step"
  shows "from = pst_price s \<and>
    (pst_last_price_update s = 0 \<or>
      sint (isat_add (pst_last_price_update s) (pst_min_update_interval s)) \<le> sint (pst_now s)) \<and>
    unat (abs_diff from price) * 10000 \<le>
      unat from * min (unat (pst_max_deviation_bps s)) (unat (pst_fee_bps s)) \<and>
    (from \<le> price \<and> price \<le> target \<or> target \<le> price \<and> price \<le> from) \<and>
    (target \<noteq> 0 \<and> from \<noteq> 0 \<longrightarrow> price \<noteq> 0) \<and> (step \<longleftrightarrow> price \<noteq> target)"
proof -
  note p = plan_Set [OF assms]
  let ?p = "unat (pst_price s)" and ?t = "unat target"
  have m: "unat (step_cap_bps s) = min (unat (pst_max_deviation_bps s)) (unat (pst_fee_bps s))"
    by (simp add: step_cap_bps_def min_def word_le_nat_alt)
  have "unat (abs_diff from price) \<le> step_cap s"
    using p(2,3) next_price_step(1) [of ?p "step_cap s" ?t] by (simp add: unat_abs_diff)
  then have d: "unat (abs_diff from price) * 10000 \<le> unat from * min (unat (pst_max_deviation_bps s)) (unat (pst_fee_bps s))"
    using step_cap_le [of s] unfolding m p(2) by linarith
  have b: "from \<le> price \<and> price \<le> target \<or> target \<le> price \<and> price \<le> from"
    using p(2,3) by (auto simp: word_le_nat_alt next_price_def)
  then have z: "target \<noteq> 0 \<and> from \<noteq> 0 \<longrightarrow> price \<noteq> 0" by auto
  have "price = target \<longleftrightarrow> next_price ?p (step_cap s) ?t = ?t" using p(3) by (metis word_unat_eq_iff)
  moreover have "next_price ?p (step_cap s) ?t = ?t \<longleftrightarrow> \<not> step_cap s < unat (abs_diff (pst_price s) target)"
    by (auto simp: next_price_def unat_abs_diff)
  ultimately show ?thesis using p(1,2,4) d b z unfolding cooled_def by blast
qed

lemma fee_square:
  assumes "f \<le> (10000 :: nat)"
  shows "(10000 + f) * (10000 - f)\<^sup>2 \<le> 10000 * 10000\<^sup>2"
proof -
  have "(10000 + f) * (10000 - f) \<le> 10000 * 10000"
    using assms by (simp add: algebra_simps diff_mult_distrib2)
  then have "(10000 + f) * (10000 - f) * (10000 - f) \<le> 10000 * 10000 * 10000"
    by (rule mult_le_mono) simp
  then show ?thesis by (simp add: power2_eq_square mult.assoc)
qed

text \<open>
  Nobody profits from knowing the keeper's next update: buying the token just
  before a planned update and selling it just after never returns more than was put
  in, and neither does selling before and buying back after.
\<close>

theorem keeper_step_no_arbitrage:
  assumes "plan s target margin = PlanSet from price step" "f = pst_fee_bps s" "unat f \<le> 10000"
  shows "(\<forall>x y z. amount_out x po dp from dt f = Some y \<and> amount_out y price dt po dp f = Some z \<longrightarrow> z \<le> x) \<and>
    (\<forall>x y z. amount_out x from dt po dp f = Some y \<and> amount_out y po dp price dt f = Some z \<longrightarrow> z \<le> x)"
proof -
  let ?f = "10000 - unat f" and ?p = "unat from" and ?q = "unat price"
  have "unat (step_cap_bps s) \<le> unat f" by (simp add: step_cap_bps_def assms(2) min_def word_le_nat_alt)
  then have cap: "step_cap s * 10000 \<le> ?p * unat f"
    using step_cap_le [of s] plan_Set(2) [OF assms(1)] by (meson le_trans mult_le_mono2)
  have up: "?q * 10000 \<le> ?p * (10000 + unat f)" and down: "?p * ?f \<le> ?q * 10000"
    using cap next_price_step(1) [of ?p "step_cap s" "unat target"] plan_Set(2,3) [OF assms(1)]
    by (auto simp: algebra_simps diff_mult_distrib2)
  have 1: "unat z \<le> unat x" if "amount_out x po dp from dt f = Some y" "amount_out y price dt po dp f = Some z" for x y z
  proof (rule round_trip_bound [OF that])
    have "?q * 10000 * ?f\<^sup>2 \<le> ?p * (10000 + unat f) * ?f\<^sup>2" using up by (rule mult_le_mono1)
    also have "\<dots> = ?p * ((10000 + unat f) * ?f\<^sup>2)" by simp
    also have "\<dots> \<le> ?p * (10000 * 10000\<^sup>2)" by (rule mult_le_mono2) (rule fee_square [OF assms(3)])
    finally have "?q * ?f\<^sup>2 \<le> ?p * 10000\<^sup>2" by simp
    then show "unat po * ?q * ?f\<^sup>2 \<le> unat po * ?p * 10000\<^sup>2" by simp
  qed
  have 2: "unat z \<le> unat x" if "amount_out x from dt po dp f = Some y" "amount_out y po dp price dt f = Some z" for x y z
  proof (rule round_trip_bound [OF that])
    have "?p * ?f * ?f \<le> ?q * 10000 * 10000" by (rule mult_le_mono [OF down]) simp
    then have "?p * ?f\<^sup>2 \<le> ?q * 10000\<^sup>2" by (simp add: power2_eq_square mult.assoc)
    then have "?p * ?f\<^sup>2 * unat po \<le> ?q * 10000\<^sup>2 * unat po" by (rule mult_le_mono1)
    then show "?p * unat po * ?f\<^sup>2 \<le> ?q * unat po * 10000\<^sup>2" by (simp add: mult_ac)
  qed
  show ?thesis using 1 2 by (auto simp: word_le_nat_alt)
qed

section \<open>Reaching the target\<close>

text \<open>
  One round of the loop of a price keeper and the chain: a planned update is sent
  and lands, then the cooldown of the pool passes; a wait is waited out.
\<close>

definition keeper_round :: "u128 \<Rightarrow> i64 \<Rightarrow> price_state \<Rightarrow> price_state" where
  "keeper_round target margin s =
     (case plan s target margin of
        PlanIdle \<Rightarrow> s
      | PlanWait until \<Rightarrow> s\<lparr>pst_now := until\<rparr>
      | PlanSet from price step \<Rightarrow>
          s\<lparr>pst_price := price, pst_price_set_at := pst_now s, pst_last_price_update := pst_now s\<rparr>)"

definition distance :: "u128 \<Rightarrow> price_state \<Rightarrow> nat" where
  "distance target s = unat (abs_diff (pst_price s) target)"

text \<open>One update can move every price between the current one and the target.\<close>

definition movable :: "u128 \<Rightarrow> price_state \<Rightarrow> bool" where
  "movable target s \<longleftrightarrow> unat (step_cap_bps s) \<le> 10000 \<and>
     10000 \<le> min (unat (pst_price s)) (unat target) * unat (step_cap_bps s)"

lemma movable_cap: "movable target s \<Longrightarrow> step_cap s > 0"
proof -
  assume m: "movable target s"
  have "min (unat (pst_price s)) (unat target) * unat (step_cap_bps s) \<le> unat (pst_price s) * unat (step_cap_bps s)"
    by (rule mult_le_mono1) simp
  then have "10000 \<le> unat (pst_price s) * unat (step_cap_bps s)" using m unfolding movable_def by linarith
  then have "1 \<le> unat (pst_price s) * unat (step_cap_bps s) div 10000" by simp
  moreover have "unat (pst_price s) * unat (step_cap_bps s) div 10000 < 2 ^ 128"
  proof -
    have "unat (pst_price s) * unat (step_cap_bps s) \<le> unat (pst_price s) * 10000"
      using m by (intro mult_le_mono2) (simp add: movable_def)
    from div_le_mono [OF this, of 10000]
    have "unat (pst_price s) * unat (step_cap_bps s) div 10000 \<le> unat (pst_price s)" by simp
    then show ?thesis using u128_less [of "pst_price s"] by linarith
  qed
  ultimately show ?thesis by (simp add: step_cap_def Let_def)
qed

lemma round_cooled:
  assumes "movable target s" "cooled s" "pst_price s \<noteq> target"
  shows "distance target (keeper_round target margin s) < distance target s"
    and "movable target (keeper_round target margin s)"
proof -
  let ?n = "next_price (unat (pst_price s)) (step_cap s) (unat target)"
  have c: "step_cap s > 0" using movable_cap [OF assms(1)] .
  have ne: "unat (pst_price s) \<noteq> unat target" using assms(3) by (simp add: word_unat_eq_iff)
  have "?n < 2 ^ LENGTH(128)" using next_price_less [OF u128_less u128_less] by simp
  note n = unat_of_nat_less [OF this]
  have nn: "?n \<noteq> unat (pst_price s)" using c ne by (auto simp: next_price_def)
  then have "(of_nat ?n :: u128) \<noteq> pst_price s" using n by (metis)
  then have r: "keeper_round target margin s = s\<lparr>pst_price := of_nat ?n, pst_price_set_at := pst_now s,
      pst_last_price_update := pst_now s\<rparr>"
    using assms(3) by (simp add: keeper_round_def plan_cooled [OF assms(2)] Let_def)
  show "distance target (keeper_round target margin s) < distance target s"
  proof -
    have "distance target (keeper_round target margin s) =
        (if ?n < unat target then unat target - ?n else ?n - unat target)"
      by (simp add: r distance_def unat_abs_diff n)
    also have "\<dots> < (if unat (pst_price s) < unat target then unat target - unat (pst_price s)
        else unat (pst_price s) - unat target)"
      using c ne unfolding next_price_def by auto
    finally show ?thesis by (simp add: distance_def unat_abs_diff)
  qed
  have "min (unat (pst_price s)) (unat target) \<le> min ?n (unat target)" by (auto simp: next_price_def)
  then have "min (unat (pst_price s)) (unat target) * unat (step_cap_bps s) \<le> min ?n (unat target) * unat (step_cap_bps s)"
    by (rule mult_le_mono1)
  then have "10000 \<le> min ?n (unat target) * unat (step_cap_bps s)"
    using assms(1) unfolding movable_def by linarith
  moreover have "step_cap_bps (keeper_round target margin s) = step_cap_bps s"
    "unat (pst_price (keeper_round target margin s)) = ?n" by (simp_all add: r step_cap_bps_def n)
  ultimately show "movable target (keeper_round target margin s)"
    using assms(1) unfolding movable_def by simp
qed

lemma round_waits:
  assumes "\<not> cooled s" "pst_price s \<noteq> target"
  shows "cooled (keeper_round target margin s) \<and> pst_price (keeper_round target margin s) = pst_price s \<and>
    (movable target s \<longrightarrow> movable target (keeper_round target margin s)) \<and>
    distance target (keeper_round target margin s) = distance target s"
  using assms(2) by (simp add: keeper_round_def plan_waits [OF assms(1)])
    (simp add: cooled_def movable_def distance_def step_cap_bps_def)

lemma reaches:
  "movable target s \<Longrightarrow> \<exists>n \<le> 2 * distance target s. pst_price ((keeper_round target margin ^^ n) s) = target"
proof (induction "distance target s" arbitrary: s rule: less_induct)
  case less
  let ?r = "keeper_round target margin"
  show ?case
  proof (cases "pst_price s = target")
    case True
    then show ?thesis by (intro exI [of _ 0]) simp
  next
    case ne: False
    obtain k s' where k: "k \<le> 1" "s' = (?r ^^ k) s" "cooled s'" "pst_price s' \<noteq> target" "movable target s'"
      "distance target s' = distance target s"
    proof (cases "cooled s")
      case True
      then show ?thesis using that [of 0 s] ne less.prems by simp
    next
      case False
      then show ?thesis using that [of 1 "?r s"] round_waits [OF False ne] ne less.prems by simp
    qed
    note d = round_cooled [OF k(5,3,4), of margin]
    obtain n where n: "n \<le> 2 * distance target (?r s')" "pst_price ((?r ^^ n) (?r s')) = target"
      using less.hyps [of "?r s'"] d k(6) by auto
    have "(?r ^^ (n + 1 + k)) s = (?r ^^ n) (?r s')" by (simp add: k(2) funpow_add funpow_swap1)
    then show ?thesis using n k(1,6) d(1) by (intro exI [of _ "n + 1 + k"]) auto
  qed
qed

lemma round_stuck:
  assumes "unat (pst_price s) * unat (step_cap_bps s) < 10000"
  shows "pst_price (keeper_round target margin s) = pst_price s \<and>
    step_cap_bps (keeper_round target margin s) = step_cap_bps s"
proof -
  have "step_cap s = 0" using assms by (simp add: step_cap_def)
  then have "next_price (unat (pst_price s)) (step_cap s) (unat target) = unat (pst_price s)"
    by (auto simp: next_price_def)
  then show ?thesis
    by (cases "cooled s") (simp_all add: keeper_round_def plan_cooled plan_waits step_cap_bps_def Let_def)
qed

lemma rounds_stuck:
  assumes "unat (pst_price s) * unat (step_cap_bps s) < 10000"
  shows "pst_price ((keeper_round target margin ^^ n) s) = pst_price s \<and>
    step_cap_bps ((keeper_round target margin ^^ n) s) = step_cap_bps s"
proof (induction n)
  case (Suc n)
  then show ?case using round_stuck [of "(keeper_round target margin ^^ n) s" target margin] assms by simp
qed simp

text \<open>
  C18. Where the planned updates lead. The cap of one update is the lesser of the pool's
  deviation bound and its fee, as a fraction of the price. If the cap is at most the
  whole price and amounts to at least one unit at the current price and at the target,
  then after finitely many rounds (at most two per unit of distance) the price is the
  target, however far away it was. If the cap is less than one unit of the current
  price, which a pool without a fee always has, no number of rounds moves the price:
  such a pool is only refreshed.
\<close>

theorem plan_reaches_target:
  "(unat (step_cap_bps s) \<le> 10000 \<and>
      10000 \<le> min (unat (pst_price s)) (unat target) * unat (step_cap_bps s) \<longrightarrow>
    (\<exists>n \<le> 2 * unat (abs_diff (pst_price s) target).
       pst_price ((keeper_round target margin ^^ n) s) = target)) \<and>
   (unat (pst_price s) * unat (step_cap_bps s) < 10000 \<longrightarrow>
    (\<forall>n. pst_price ((keeper_round target margin ^^ n) s) = pst_price s))"
  using reaches [where target = target and s = s and margin = margin]
    rounds_stuck [where target = target and s = s and margin = margin] by (simp add: movable_def distance_def)

section \<open>Values of parsed prices\<close>

definition digits_value :: "nat \<Rightarrow> rust_str \<Rightarrow> nat" where
  "digits_value acc cs = foldl (\<lambda>a c. a * 10 + (c - 48)) acc cs"

lemma digits_value_simps [simp]:
  "digits_value acc [] = acc" "digits_value acc (c # cs) = digits_value (acc * 10 + (c - 48)) cs"
  by (simp_all add: digits_value_def)

lemma digits_value_ge: "acc \<le> digits_value acc cs"
proof (induction cs arbitrary: acc)
  case (Cons c cs)
  from this [of "acc * 10 + (c - 48)"] show ?case by simp
qed simp

lemma parse_u128_exact:
  assumes "list_all is_ascii_digit cs"
  shows "parse_u128 acc cs = (if digits_value (unat acc) cs < 2 ^ 128
    then Some (of_nat (digits_value (unat acc) cs)) else None)"
  using assms
proof (induction cs arbitrary: acc)
  case (Cons c cs)
  have c: "c - 48 < 10" using Cons.prems by (simp add: is_ascii_digit_def) linarith
  then have uc: "unat (of_nat (c - 48) :: u128) = c - 48" by (intro unat_of_nat_less) simp
  let ?v = "unat acc * 10 + (c - 48)"
  show ?case
  proof (cases "?v < 2 ^ 128")
    case True
    then have m: "checked_mul acc 10 = Some (acc * 10)" by (simp add: checked_mul_def)
    have um: "unat (acc * 10) = unat acc * 10" using checked_mul_Some [OF m] by simp
    have a: "checked_add (acc * 10) (of_nat (c - 48)) = Some (acc * 10 + of_nat (c - 48))"
      using True by (simp only: checked_add_def um uc) simp
    have ua: "unat (acc * 10 + of_nat (c - 48)) = ?v" using checked_add_Some [OF a] um uc by simp
    show ?thesis using Cons.prems by (simp add: m a Cons.IH ua del: of_nat_diff)
  next
    case False
    then have "\<not> digits_value (unat acc) (c # cs) < 2 ^ 128"
      using digits_value_ge [of ?v cs] by simp
    moreover have "parse_u128 acc (c # cs) = None"
    proof (cases "checked_mul acc 10")
      case (Some m)
      then have "unat m = unat acc * 10" using checked_mul_Some by fastforce
      then show ?thesis using False uc Some by (simp add: checked_add_def)
    qed simp
    ultimately show ?thesis by simp
  qed
qed (use u128_less in simp)

lemma split_once_digits:
  "list_all is_ascii_digit ws \<Longrightarrow> split_once 46 (ws @ 46 # fs) = Some (ws, fs)"
  by (induction ws) (auto simp: is_ascii_digit_def)

lemma dropWhile_all: "list_all P xs \<Longrightarrow> dropWhile P (xs @ ys) = dropWhile P ys"
  by (induction xs) auto

lemma trim_padded:
  assumes "list_all is_whitespace a" "list_all is_whitespace b"
    and "s \<noteq> []" "\<not> is_whitespace (hd s)" "\<not> is_whitespace (last s)"
  shows "trim (a @ s @ b) = s"
proof -
  have "dropWhile is_whitespace (a @ s @ b) = s @ b"
    using assms(1,3,4) by (cases s) (auto simp: dropWhile_all)
  moreover have "dropWhile is_whitespace (rev b @ rev s) = rev s"
    using assms(2,3,5) by (cases s rule: rev_cases) (auto simp: dropWhile_all list_all_rev)
  ultimately show ?thesis by (simp add: trim_def)
qed

lemma digit_not_space: "is_ascii_digit c \<Longrightarrow> \<not> is_whitespace c"
  by (auto simp: is_ascii_digit_def is_whitespace_def)

lemma frac_fits:
  assumes "list_all is_ascii_digit fs" "length fs \<le> 18"
  shows "digits_value 0 fs * 10 ^ (18 - length fs) < 10 ^ 18"
proof -
  have "digits_value acc fs < (acc + 1) * 10 ^ length fs" if "list_all is_ascii_digit fs" for acc fs
    using that
  proof (induction fs arbitrary: acc)
    case (Cons c cs)
    have "c - 48 + 1 \<le> 10" using Cons.prems by (simp add: is_ascii_digit_def) linarith
    then have "acc * 10 + (c - 48) + 1 \<le> (acc + 1) * 10" by simp
    then have "(acc * 10 + (c - 48) + 1) * 10 ^ length cs \<le> (acc + 1) * 10 * 10 ^ length cs"
      by (rule mult_le_mono1)
    then show ?case using Cons.IH [of "acc * 10 + (c - 48)"] Cons.prems by (simp add: algebra_simps)
  qed simp
  from this [OF assms(1), of 0] have "digits_value 0 fs < 10 ^ length fs" by simp
  then have "digits_value 0 fs * 10 ^ (18 - length fs) < 10 ^ length fs * 10 ^ (18 - length fs)" by simp
  also have "\<dots> = (10 :: nat) ^ 18" using assms(2) by (simp flip: power_add)
  finally show ?thesis .
qed

lemma PRICE_ONE_value: "unat PRICE_ONE = 10 ^ 18"
  by (simp add: PRICE_ONE_def)

lemma scale_frac:
  assumes "list_all is_ascii_digit fs" "length fs \<le> 18"
  shows "(if fs = [] then Some 0 else do { n \<leftarrow> parse_u128 0 fs; checked_mul n (10 ^ (18 - length fs)) }) =
    Some (of_nat (digits_value 0 fs * 10 ^ (18 - length fs)))"
proof (cases "fs = []")
  case False
  let ?v = "digits_value 0 fs" and ?k = "18 - length fs"
  have f: "?v * 10 ^ ?k < 10 ^ 18" by (rule frac_fits [OF assms])
  then have "?v < 10 ^ 18" by (metis le_less_trans mult_le_mono2 mult.right_neutral one_le_power one_le_numeral)
  then have v: "?v < 2 ^ 128" by simp
  then have uv: "unat (of_nat ?v :: u128) = ?v" by (intro unat_of_nat_less) simp
  have "(10 :: nat) ^ ?k \<le> 10 ^ 18" by (rule power_increasing) auto
  then have "unat (of_nat (10 ^ ?k) :: u128) = 10 ^ ?k" by (intro unat_of_nat_less) (simp add: le_less_trans)
  then have uk: "unat (10 ^ ?k :: u128) = 10 ^ ?k" by simp
  have "parse_u128 0 fs = Some (of_nat ?v)" using parse_u128_exact [OF assms(1), of 0] v by simp
  then show ?thesis using False f by (simp add: checked_mul_def uv uk)
qed simp

lemma parse_price_value:
  assumes "list_all is_ascii_digit ws" "list_all is_ascii_digit fs" "length fs \<le> 18"
    and "ws \<noteq> [] \<or> fs \<noteq> []" "trim str = ws @ 46 # fs \<or> fs = [] \<and> trim str = ws"
  shows "parse_price str = (let v = digits_value 0 ws * 10 ^ 18 + digits_value 0 fs * 10 ^ (18 - length fs) in
    if 0 < v \<and> v < 2 ^ 128 then Some (of_nat v) else None)"
proof -
  let ?w = "digits_value 0 ws" and ?f = "digits_value 0 fs * 10 ^ (18 - length fs)"
  have nodot: "split_once 46 ws = None" if "list_all is_ascii_digit ws" for ws
    using that by (induction ws) (auto simp: is_ascii_digit_def)
  have sp: "(case split_once 46 (trim str) of Some p \<Rightarrow> p | None \<Rightarrow> (trim str, [])) = (ws, fs)"
    using assms(1,5) by (auto simp: split_once_digits nodot)
  have w: "(if ws = [] then Some 0 else parse_u128 0 ws) = (if ?w < 2 ^ 128 then Some (of_nat ?w) else None)"
    using parse_u128_exact [OF assms(1), of 0] by simp
  have f: "?f < 2 ^ 128" using less_trans [OF frac_fits [OF assms(2,3)], of "2 ^ 128"] by simp
  define F where "F = (of_nat ?f :: u128)"
  have uf: "unat F = ?f" unfolding F_def using f by (intro unat_of_nat_less) simp
  have "parse_price str = do {
        w \<leftarrow> (if ?w < 2 ^ 128 then Some (of_nat ?w) else None);
        m \<leftarrow> checked_mul w PRICE_ONE;
        v \<leftarrow> checked_add m F;
        if v > 0 then Some v else None }"
    unfolding parse_price_def Let_def sp case_prod_conv w scale_frac [OF assms(2,3)] F_def
    using assms(1-4) by (auto split: bind_splits)
  also have "\<dots> = (let v = ?w * 10 ^ 18 + ?f in if 0 < v \<and> v < 2 ^ 128 then Some (of_nat v) else None)"
  proof (cases "?w * 10 ^ 18 < 2 ^ 128")
    case True
    define W where "W = (of_nat ?w :: u128)"
    have lt: "?w < 2 ^ 128" using True by simp
    then have uw: "unat W = ?w" unfolding W_def by (intro unat_of_nat_less) simp
    have m: "checked_mul W PRICE_ONE = Some (W * PRICE_ONE)"
      using True by (simp add: checked_mul_def uw PRICE_ONE_value)
    have um: "unat (W * PRICE_ONE) = ?w * 10 ^ 18" using checked_mul_Some [OF m] uw PRICE_ONE_value by simp
    define v where "v = ?w * 10 ^ 18 + ?f"
    have e: "W * PRICE_ONE + F = of_nat v"
      by (simp add: F_def W_def PRICE_ONE_def v_def)
    have a: "checked_add (W * PRICE_ONE) F = (if v < 2 ^ 128 then Some (of_nat v) else None)"
      unfolding checked_add_def e by (simp add: um uf v_def)
    have pos: "(of_nat v :: u128) > 0 \<longleftrightarrow> v > 0" if "v < 2 ^ 128"
      using that by (simp add: word_less_nat_alt unat_of_nat_less)
    show ?thesis using lt pos unfolding v_def [symmetric] W_def [symmetric] Let_def by (simp add: m a)
  next
    case False
    have "checked_mul (of_nat ?w :: u128) PRICE_ONE = None" if "?w < 2 ^ 128"
      using False that by (simp add: checked_mul_def PRICE_ONE_value unat_of_nat_less)
    then show ?thesis using False by (simp add: Let_def)
  qed
  finally show ?thesis .
qed

text \<open>
  A price written in decimal, surrounded by any whitespace, with a whole part, a
  point and at most 18 digits after it, parses to exactly the number it denotes in
  units of 10\<open>^\<close>-18, and is refused exactly when that is zero or does not fit 128 bits.
\<close>

theorem parse_price_exact:
  assumes "list_all is_whitespace pre" "list_all is_whitespace post"
    and "list_all is_ascii_digit ws" "list_all is_ascii_digit fs" "length fs \<le> 18" "ws \<noteq> [] \<or> fs \<noteq> []"
  shows "parse_price (pre @ (ws @ [46] @ fs) @ post) =
    (let v = digits_value 0 ws * 10 ^ 18 + digits_value 0 fs * 10 ^ (18 - length fs) in
     if 0 < v \<and> v < 2 ^ 128 then Some (of_nat v) else None)"
proof -
  have "\<not> is_whitespace 46" by (simp add: is_whitespace_def)
  then have "\<not> is_whitespace (hd (ws @ [46] @ fs))" "\<not> is_whitespace (last (ws @ [46] @ fs))"
    using assms(3,4) digit_not_space by (cases ws; cases fs rule: rev_cases; auto)+
  then have "trim (pre @ (ws @ [46] @ fs) @ post) = ws @ 46 # fs"
    using trim_padded [OF assms(1,2), of "ws @ [46] @ fs"] by simp
  then show ?thesis using assms(3-6) by (intro parse_price_value) auto
qed

text \<open>The price \<open>" 3180.5 "\<close>.\<close>

theorem parse_price_exact_witness:
  "parse_price ([32] @ ([51, 49, 56, 48] @ [46] @ [53]) @ [32]) = Some 3180500000000000000000"
proof -
  have d: "list_all is_ascii_digit [51, 49, 56, 48]" "list_all is_ascii_digit [53]" "list_all is_whitespace [32]"
    by (simp_all add: is_ascii_digit_def is_whitespace_def)
  show ?thesis using parse_price_exact [OF d(3,3,1,2)] by (simp add: Let_def)
qed

section \<open>Demonstration\<close>

definition demo_price_state :: price_state where
  "demo_price_state = \<lparr>pst_now = 100, pst_price = 1000000, pst_price_set_at = 0, pst_last_price_update = 0,
     pst_max_age = Some 3600, pst_min_update_interval = 60, pst_max_deviation_bps = 500, pst_fee_bps = 30\<rparr>"

lemma demo_plan: "plan demo_price_state 1100000 600 = PlanSet 1000000 1003000 True"
proof -
  have c: "cooled demo_price_state" by (simp add: cooled_def demo_price_state_def)
  have "step_cap demo_price_state = 3000"
    by (simp add: step_cap_def step_cap_bps_def demo_price_state_def min_def word_le_nat_alt)
  then show ?thesis
    unfolding plan_cooled [OF c]
    by (simp add: next_price_def Let_def demo_price_state_def abs_diff_def word_less_nat_alt)
qed

theorem planned_step_legal_witness:
  "plan demo_price_state 1100000 600 = PlanSet 1000000 1003000 True \<and>
   unat (abs_diff (1000000 :: u128) 1003000) * 10000 \<le>
     unat (1000000 :: u128) * min (unat (pst_max_deviation_bps demo_price_state)) (unat (pst_fee_bps demo_price_state))"
  using planned_step_legal [OF demo_plan] demo_plan by blast

theorem keeper_step_no_arbitrage_witness:
  "amount_out 1000 500000 6 1000000 6 30 = Some 498 \<and> amount_out 498 1003000 6 500000 6 30 = Some 994 \<and> (994 :: u64) \<le> 1000"
proof -
  have a: "amount_out 1000 500000 6 1000000 6 30 = Some 498" "amount_out 498 1003000 6 500000 6 30 = Some 994"
    by (simp_all add: swap_rule_exact usd_spec_def fee_spec_def out_spec_def Let_def)
  have f: "30 = pst_fee_bps demo_price_state" "unat (30 :: u16) \<le> 10000" by (simp_all add: demo_price_state_def)
  from conjunct1 [OF keeper_step_no_arbitrage [OF demo_plan f]] a show ?thesis by blast
qed

theorem plan_reaches_target_witness:
  "(\<exists>n \<le> 2 * 100000. pst_price ((keeper_round 1100000 600 ^^ n) demo_price_state) = 1100000) \<and>
   pst_price ((keeper_round 1100000 600 ^^ 7) (demo_price_state\<lparr>pst_fee_bps := 0\<rparr>)) = 1000000"
proof -
  have b: "step_cap_bps demo_price_state = 30" "step_cap_bps (demo_price_state\<lparr>pst_fee_bps := 0\<rparr>) = 0"
    by (simp_all add: step_cap_bps_def demo_price_state_def min_def word_le_nat_alt)
  have p: "pst_price demo_price_state = 1000000" by (simp add: demo_price_state_def)
  have d: "unat (abs_diff (1000000 :: u128) 1100000) = 100000"
    by (simp add: abs_diff_def word_less_nat_alt)
  have 1: "\<exists>n \<le> 2 * 100000. pst_price ((keeper_round 1100000 600 ^^ n) demo_price_state) = 1100000"
    using conjunct1 [OF plan_reaches_target [where s = demo_price_state and target = 1100000 and margin = 600]] by (simp add: b p d)
  have "\<forall>n. pst_price ((keeper_round 1100000 600 ^^ n) (demo_price_state\<lparr>pst_fee_bps := 0\<rparr>)) = 1000000"
    using conjunct2 [OF plan_reaches_target [where s = "demo_price_state\<lparr>pst_fee_bps := 0\<rparr>" and target = 1100000 and margin = 600]]
    by (simp add: b p)
  with 1 show ?thesis by blast
qed

end
