(* ===== verification/SwapDemo.thy ===== *)
theory SwapDemo
  imports SwapSafety Refresh
begin

text \<open>
  A small concrete runtime and a pool in it, with which the hypotheses of the swap
  program's properties are shown to be satisfiable: the services of the gate's
  demonstration, with allocation requiring a signature of the account.
\<close>

section \<open>The runtime\<close>

definition swap_demo_signed :: "pubkey \<Rightarrow> pubkey \<Rightarrow> account_info list \<Rightarrow> bytes list list \<Rightarrow> bool" where
  "swap_demo_signed pid k infos seeds \<longleftrightarrow>
     k \<in> set (map ai_key (filter is_signer infos)) \<or>
     (case seeds of [s] \<Rightarrow> k = fst (demo_find (butlast s) pid) | _ \<Rightarrow> False)"

definition swap_demo_invoke :: "pubkey \<Rightarrow> cpi_ix \<Rightarrow> account_info list \<Rightarrow> bytes list list \<Rightarrow>
    (pubkey \<Rightarrow> account) \<Rightarrow> program_error + (pubkey \<Rightarrow> account)" where
  "swap_demo_invoke pid ix infos seeds a =
     (case ix of
        SystemAllocate k n \<Rightarrow>
          if swap_demo_signed pid k infos seeds then demo_invoke pid ix infos seeds a
          else Inl MissingRequiredSignature
      | _ \<Rightarrow> demo_invoke pid ix infos seeds a)"

definition swap_demo_env :: env where
  "swap_demo_env = demo_env\<lparr>invoke_program := swap_demo_invoke\<rparr>"

lemma swap_demo_fields [simp]:
  "find_program_address swap_demo_env = demo_find" "clock_get swap_demo_env = Inr 0"
  "rent_minimum_balance swap_demo_env n = Inr 0" "unpack_account swap_demo_env = demo_unpack"
  "unpack_mint swap_demo_env = unpack_mint demo_env" "loader_state_of swap_demo_env = loader_state_of demo_env"
  "realloc_zeroed swap_demo_env = realloc_zeroed demo_env" "spl_token_id swap_demo_env = 200"
  "system_program_id swap_demo_env = 0" "loader_id swap_demo_env = 201" "invoke_program swap_demo_env = swap_demo_invoke"
  by (simp_all add: swap_demo_env_def)

lemma swap_demo_invoke_Inr:
  "swap_demo_invoke pid ix infos seeds a = Inr a' \<Longrightarrow> demo_invoke pid ix infos seeds a = Inr a'"
  by (auto simp: swap_demo_invoke_def split: cpi_ix.splits if_splits)

lemma swap_demo_runtime_ok:
  assumes "pid \<noteq> 0" "pid \<noteq> 200"
  shows "runtime_ok swap_demo_env pid"
proof -
  have tm: "token_moved swap_demo_env = token_moved demo_env" by (simp add: token_moved_def fun_eq_iff)
  have d: "owner_rule demo_env pid" "system_rule demo_env pid" "token_rule demo_env pid" "realloc_rule demo_env"
    using demo_runtime_ok [OF assms] by (simp_all add: runtime_ok_def)
  have "owner_rule swap_demo_env pid"
    using d(1) swap_demo_invoke_Inr unfolding owner_rule_def swap_demo_fields demo_env_fields by blast
  moreover have "system_rule swap_demo_env pid"
    using d(2) swap_demo_invoke_Inr unfolding system_rule_def swap_demo_fields demo_env_fields by meson
  moreover have "token_rule swap_demo_env pid"
    using d(3) swap_demo_invoke_Inr unfolding token_rule_def tm swap_demo_fields demo_env_fields by meson
  moreover have "realloc_rule swap_demo_env" using d(4) by (simp add: realloc_rule_def)
  ultimately show ?thesis by (simp add: runtime_ok_def)
qed

lemma swap_demo_control: "control_rule swap_demo_env pid"
  unfolding control_rule_def
proof (intro allI impI, elim conjE)
  fix p s m d au n dec infos seeds a a' k x
  assume i: "invoke_program swap_demo_env pid (SplTransferChecked p s m d au n dec) infos seeds a = Inr a'"
    and x: "unpack_account swap_demo_env (acct_data (a k)) = Some x"
  have t: "demo_transfer s d n a = Inr a'"
    using i by (auto simp: swap_demo_invoke_def split: option.splits if_splits)
  have xn: "spl_delegate x = None" "spl_close_authority x = None"
    using x by (auto simp: demo_unpack_def split: list.splits if_splits)
  have "a' = a \<or> (\<exists>u v. a' = demo_set_amount d v (demo_set_amount s u a) \<and> s \<noteq> d)"
    using t by (auto simp: demo_transfer_def split: if_splits option.splits)
  then have "\<exists>v :: u64. acct_data (a' k) = acct_data (a k) \<or> acct_data (a' k) = take 2 (acct_data (a k)) @ le_bytes 8 v"
    by (cases "k = d"; cases "k = s"; auto simp: demo_set_amount_def)
  then obtain v :: u64 where "acct_data (a' k) = acct_data (a k) \<or> acct_data (a' k) = take 2 (acct_data (a k)) @ le_bytes 8 v" ..
  then obtain x' where "demo_unpack (acct_data (a' k)) = Some x'" "x' = x \<or> x' = x\<lparr>spl_amount := v\<rparr>"
    using x demo_unpack_set [of "acct_data (a k)" x v] by auto
  then show "\<exists>x'. unpack_account swap_demo_env (acct_data (a' k)) = Some x' \<and> spl_mint x' = spl_mint x \<and>
      spl_owner x' = spl_owner x \<and> spl_close_authority x' = spl_close_authority x \<and>
      (spl_delegate x = None \<longrightarrow> spl_delegate x' = None)"
    using xn by auto
qed

lemma swap_demo_signer: "signer_rule swap_demo_env pid"
  unfolding signer_rule_def
  by (auto simp: swap_demo_invoke_def swap_demo_signed_def split: if_splits)

lemma swap_demo_trusted: "swap_trusted swap_demo_env 100"
  by (simp add: swap_trusted_def swap_demo_runtime_ok swap_demo_control swap_demo_signer)

lemma lit_ne: "POOL_SEED \<noteq> lit ''config''" "POOL_SEED \<noteq> lit ''vault_authority''" "demo_tag TOKEN_SEED = 7"
  by (simp_all add: POOL_SEED_def TOKEN_SEED_def lit_def demo_tag_def)

lemma demo_pool_pda [simp]: "demo_find [POOL_SEED] pid = (9, 255)"
  using lit_ne by (simp add: demo_find_def)

lemma demo_auth_pda [simp]: "demo_find [VAULT_AUTHORITY_SEED] pid = (2, 255)"
  by (simp add: VAULT_AUTHORITY_SEED_def)

lemma demo_token_pda:
  "demo_find [TOKEN_SEED, arr_bytes (m :: pubkey)] pid = (if m < 2 ^ 200 then 16 * m + 7 else 7, 255)"
  using lit_ne(3) by (simp add: demo_find_def of_be_arr_bytes)

lemma demo_token_ne_9: "fst (demo_find [TOKEN_SEED, arr_bytes (m :: pubkey)] pid) \<noteq> 9"
proof (cases "m < 2 ^ 200")
  case True
  have "unat (16 * m + 7) = 16 * unat m + 7" using demo_address [OF True, of 7] by simp
  then have "unat (16 * m + 7) \<noteq> 9" by presburger
  then have "16 * m + 7 \<noteq> 9" by auto
  then show ?thesis using True by (simp add: demo_token_pda)
qed (simp add: demo_token_pda)

lemma swap_demo_apart_pool: "swap_apart swap_demo_env pid [POOL_SEED]"
  using demo_token_ne_9 by (auto simp: swap_apart_def swap_seeds_def)

lemma swap_demo_apart_token:
  assumes "0 < m" "(m :: pubkey) < 2 ^ 200"
  shows "swap_apart swap_demo_env pid [TOKEN_SEED, arr_bytes m]"
proof -
  note um = demo_address [OF assms(2), of 7]
  have m0: "unat m > 0" using assms(1) by (simp add: word_less_nat_alt)
  have "fst (demo_find [TOKEN_SEED, arr_bytes m'] pid) \<noteq> fst (demo_find [TOKEN_SEED, arr_bytes m] pid)" if "m' \<noteq> m" for m' :: pubkey
  proof (cases "m' < 2 ^ 200")
    case True
    have "unat m' \<noteq> unat m" using that by (simp add: word_unat_eq_iff)
    then have "unat (16 * m' + 7) \<noteq> unat (16 * m + 7)" using demo_address [OF True, of 7] um by simp
    then show ?thesis using True assms(2) by (auto simp: demo_token_pda)
  next
    case False
    have "unat (16 * m + 7) \<noteq> 7" using um m0 by simp
    then have "16 * m + 7 \<noteq> 7" by auto
    then show ?thesis using False assms(2) by (simp add: demo_token_pda)
  qed
  moreover have "(9 :: pubkey) \<noteq> fst (demo_find [TOKEN_SEED, arr_bytes m] pid)" using demo_token_ne_9 [of m pid] by metis
  ultimately show ?thesis
    unfolding swap_apart_def swap_seeds_def swap_demo_fields by (metis demo_pool_pda fst_conv)
qed

section \<open>A pool\<close>

text \<open>
  The pool 100: its unit of account is mint 68 with vault 20; mint 70, worth two of
  it, has vault 21; user 8 has token accounts 36 and 52.
\<close>

definition swap_demo_world :: "pool_state \<Rightarrow> world" where
  "swap_demo_world p = \<lparr>accts = (\<lambda>k.
     if k = 9 then \<lparr>lamports = 0, acct_owner = 100, acct_data = the (ser_pool p) @ replicate 24 0\<rparr>
     else if k = 1095 then \<lparr>lamports = 0, acct_owner = 100,
       acct_data = the (ser_token (demo_rec 68 20 PRICE_ONE 40000)) @ replicate 24 0\<rparr>
     else if k = 1127 then \<lparr>lamports = 0, acct_owner = 100,
       acct_data = the (ser_token (demo_rec 70 21 (2 * PRICE_ONE) 70000)) @ replicate 24 0\<rparr>
     else if k = 20 then \<lparr>lamports = 0, acct_owner = 200, acct_data = demo_token 68 2 50000\<rparr>
     else if k = 21 then \<lparr>lamports = 0, acct_owner = 200, acct_data = demo_token 70 2 80000\<rparr>
     else if k = 36 then \<lparr>lamports = 0, acct_owner = 200, acct_data = demo_token 68 8 9000\<rparr>
     else if k = 52 then \<lparr>lamports = 0, acct_owner = 200, acct_data = demo_token 70 8 0\<rparr>
     else \<lparr>lamports = 0, acct_owner = 0, acct_data = []\<rparr>), logs = []\<rparr>"

lemma swap_demo_load_pool: "load_pool swap_demo_env 100 (demo_info 9) (swap_demo_world p) = Inr p"
proof -
  obtain bs where "ser_pool p = Some bs" using ser_pool_Some by meson
  then show ?thesis by (simp add: load_pool_Inr swap_demo_world_def poolc.deserialize_padded)
qed

lemma swap_demo_load_token:
  "load_token swap_demo_env 100 (demo_info 1095) 68 (swap_demo_world p) = Inr (demo_rec 68 20 PRICE_ONE 40000)"
  "load_token swap_demo_env 100 (demo_info 1127) 70 (swap_demo_world p) = Inr (demo_rec 70 21 (2 * PRICE_ONE) 70000)"
proof -
  obtain a b where "ser_token (demo_rec 68 20 PRICE_ONE 40000) = Some a"
    "ser_token (demo_rec 70 21 (2 * PRICE_ONE) 70000) = Some b" using ser_token_Some by meson
  then show "load_token swap_demo_env 100 (demo_info 1095) 68 (swap_demo_world p) = Inr (demo_rec 68 20 PRICE_ONE 40000)"
    "load_token swap_demo_env 100 (demo_info 1127) 70 (swap_demo_world p) = Inr (demo_rec 70 21 (2 * PRICE_ONE) 70000)"
    by (simp_all add: load_token_Inr swap_demo_world_def tokenc.deserialize_padded demo_token_pda word_less_nat_alt)
      (simp_all add: demo_rec_def)
qed

end
