(* ===== verification/SwapProps.thy ===== *)
theory SwapProps
  imports SwapDemo
begin

text \<open>
  The properties of the swap program: the guarantee of a successful swap, solvency,
  the refinement of the abstract pool machine with its invariants, and the agreement
  between the planned price updates and the guards of the program.
\<close>

section \<open>Swaps\<close>

definition paid :: "env \<Rightarrow> world \<Rightarrow> world \<Rightarrow> pubkey \<Rightarrow> pubkey \<Rightarrow> nat \<Rightarrow> bool" where
  "paid E w w' s d n \<longleftrightarrow>
     (\<exists>x y. balance E w s = Some x \<and> balance E w d = Some y \<and> n \<le> x \<and>
        balance E w' s = Some (if s = d then x else x - n) \<and>
        balance E w' d = Some (if s = d then x else y + n))"

lemma token_moved_paid:
  assumes "token_moved E s d n (accts w) (accts w')"
  shows "paid E w w' s d (unat n)"
proof -
  obtain sa da sa' da' where
    u: "unpack_account E (acct_data (accts w s)) = Some sa" "unpack_account E (acct_data (accts w d)) = Some da"
      "unpack_account E (acct_data (accts w' s)) = Some sa'" "unpack_account E (acct_data (accts w' d)) = Some da'"
      "unat n \<le> unat (spl_amount sa)"
      "if s = d then spl_amount sa' = spl_amount sa
       else unat (spl_amount sa') = unat (spl_amount sa) - unat n \<and> unat (spl_amount da') = unat (spl_amount da) + unat n"
    using assms unfolding token_moved_def by blast
  then show ?thesis by (cases "s = d") (auto simp: paid_def balance_def)
qed

lemma paid_cong:
  assumes "paid E w w' s d n" "\<And>k. k \<in> {s, d} \<Longrightarrow> acct_data (accts u k) = acct_data (accts w k) \<and> acct_data (accts u' k) = acct_data (accts w' k)"
  shows "paid E u u' s d n"
  using assms(1) assms(2) [of s] assms(2) [of d] unfolding paid_def balance_def by simp

text \<open>The accounts of a checked transfer are token accounts of its mint, before and after.\<close>

lemma transfer_mints:
  assumes "invoke_signed E pid (SplTransferChecked p s m d au n dec) infos seeds w = Inr w'" "runtime_ok E pid" "k \<in> {s, d}"
  shows "\<exists>x. unpack_account E (acct_data (accts w k)) = Some x \<and> spl_mint x = m"
    and "\<exists>x. unpack_account E (acct_data (accts w' k)) = Some x \<and> spl_mint x = m"
  using transfer_checked_effect(1,3) [OF assms(1,2)] assms(3) unfolding token_moved_def by auto

lemma transfer_frame:
  assumes "invoke_signed E pid (SplTransferChecked p s m d au n dec) infos seeds w = Inr w'" "runtime_ok E pid"
    and "k \<noteq> s" "k \<noteq> d"
  shows "accts w' k = accts w k"
  using transfer_checked_effect(1) [OF assms(1,2)] assms(3,4) by (simp add: token_moved_def)

lemma write_frame:
  assumes "swap_store v ai w = Inr w'" "owner_of w ai = pid" "ai_key ai \<noteq> k"
  shows "accts w' k = accts w k"
  using assms by (auto simp: swap_store_Inr)

text \<open>An account whose amount a transfer changes is not an account of the program.\<close>

lemma moved_not_owned:
  assumes "invoke_signed E pid (SplTransferChecked p s m d au n dec) infos seeds w = Inr w'" "runtime_ok E pid"
    and "s \<noteq> d" "n \<noteq> 0" "k \<in> {s, d}"
  shows "acct_owner (accts w k) \<noteq> pid"
proof
  assume o: "acct_owner (accts w k) = pid"
  have "owner_rule E pid" using assms(2) by (simp add: runtime_ok_def)
  then have same: "acct_data (accts w' k) = acct_data (accts w k)" using owned_data_invoke [OF _ assms(1) o] by simp
  have "unat n \<noteq> 0" using assms(4) by (simp add: unat_eq_0)
  then show False
    using token_moved_paid [OF transfer_checked_effect(1) [OF assms(1,2)]] same assms(3,5)
    by (auto simp: paid_def balance_def)
qed

lemma swapped_logged:
  assumes "swapped_log_fields e = Inr flds"
  shows "\<exists>body. flds = [SWAPPED_EVENT_TAG, body] \<and> try_from_slice de_swapped_event body = Some e"
  using assms by (auto simp: swapped_log_fields_def res_simps swappedc.try_from_slice_ser)

text \<open>
  C13. A successful swap ran on an unpaused pool with fresh prices on both sides; it
  took exactly the amount from the user's account into the input vault and paid, from
  the output vault to the account named by the user, exactly the price rule's output,
  at least the user's minimum and at most the reserve; both reserves follow, no other
  token account changed, and the event logged carries these amounts.
\<close>

theorem swap_guarantee:
  assumes "runtime_ok E pid"
    and "swap_apart E pid [TOKEN_SEED, arr_bytes (ai_key mint_in)]" "swap_apart E pid [TOKEN_SEED, arr_bytes (ai_key mint_out)]"
    and "solvent E pid (ai_key mint_in) w" "solvent E pid (ai_key mint_out) w"
    and "process_swap E pid (pool_ai # user # rec_in_ai # rec_out_ai # user_in # user_out # vault_in # vault_out #
      mint_in # mint_out # va # tp # rest) amount_in min_out w = Inr w'"
  shows "\<exists>pool r_in r_out now out body.
    pool_at E pid w = Some pool \<and> \<not> ps_paused pool \<and> is_signer user \<and>
    token_at E pid w (ai_key mint_in) = Some r_in \<and> token_at E pid w (ai_key mint_out) = Some r_out \<and>
    clock_get E = Inr now \<and> price_is_fresh pool r_in now \<and> price_is_fresh pool r_out now \<and>
    amount_out amount_in (ts_price r_in) (ts_decimals r_in) (ts_price r_out) (ts_decimals r_out) (ps_fee_bps pool) = Some out \<and>
    min_out \<le> out \<and> out \<noteq> 0 \<and> out \<le> ts_reserve r_out \<and>
    checked_add (ts_reserve r_in) amount_in = Some (ts_reserve r_in + amount_in) \<and>
    token_at E pid w' (ai_key mint_in) = Some (r_in\<lparr>ts_reserve := ts_reserve r_in + amount_in\<rparr>) \<and>
    token_at E pid w' (ai_key mint_out) = Some (r_out\<lparr>ts_reserve := ts_reserve r_out - out\<rparr>) \<and>
    paid E w w' (ai_key user_in) (ts_vault r_in) (unat amount_in) \<and>
    paid E w w' (ts_vault r_out) (ai_key user_out) (unat out) \<and>
    (\<forall>k. k \<notin> {ai_key user_in, ts_vault r_in, ts_vault r_out, ai_key user_out} \<and> acct_owner (accts w k) = spl_token_id E \<longrightarrow>
       accts w' k = accts w k) \<and>
    logs w' = logs w @ [[SWAPPED_EVENT_TAG, body]] \<and>
    try_from_slice de_swapped_event body =
      Some (swapped (ai_key user) (ai_key mint_in) (ai_key mint_out) amount_in out (ai_key user_out))"
proof -
  let ?i = "ai_key mint_in" and ?o = "ai_key mint_out"
  from assms(6) obtain pool r_in r_out now w1 w2 w3 w4 a b received out reserve flds where
    l: "load_pool E pid pool_ai w = Inr pool" "\<not> ps_paused pool" "is_signer user" "?i \<noteq> ?o" "amount_in \<noteq> 0"
      "load_token E pid rec_in_ai ?i w = Inr r_in" "load_token E pid rec_out_ai ?o w = Inr r_out"
      "ts_vault r_in = ai_key vault_in" "ts_vault r_out = ai_key vault_out" "clock_get E = Inr now"
      "price_is_fresh pool r_in now" "price_is_fresh pool r_out now"
    and ab: "unpack_account E (data_of w vault_in) = Some a" "unpack_account E (data_of w1 vault_in) = Some b"
      "checked_sub (spl_amount b) (spl_amount a) = Some received" "received \<noteq> 0"
    and q: "amount_out received (ts_price r_in) (ts_decimals r_in) (ts_price r_out) (ts_decimals r_out) (ps_fee_bps pool) = Some out"
      "out \<noteq> 0" "min_out \<le> out" "out \<le> ts_reserve r_out" "checked_add (ts_reserve r_in) received = Some reserve"
    and i1: "invoke_signed E pid (SplTransferChecked (ai_key tp) (ai_key user_in) ?i (ai_key vault_in)
          (ai_key user) amount_in (ts_decimals r_in)) [user_in, mint_in, vault_in, user, tp] [] w = Inr w1"
    and s1: "swap_store (ser_token (r_in\<lparr>ts_reserve := reserve\<rparr>)) rec_in_ai w1 = Inr w2"
    and s2: "swap_store (ser_token (r_out\<lparr>ts_reserve := ts_reserve r_out - out\<rparr>)) rec_out_ai w2 = Inr w3"
    and i2: "invoke_signed E pid (SplTransferChecked (ai_key tp) (ai_key vault_out) ?o (ai_key user_out)
          (pda E pid [VAULT_AUTHORITY_SEED]) out (ts_decimals r_out)) [vault_out, mint_out, user_out, va, tp]
        [[VAULT_AUTHORITY_SEED, [bump_of E pid [VAULT_AUTHORITY_SEED]]]] w3 = Inr w4"
    and ev: "swapped_log_fields (swapped (ai_key user) ?i ?o received out (ai_key user_out)) = Inr flds"
    and w': "w' = sol_log_data flds w4"
    unfolding process_swap_iff invoke_def by (elim exE conjE) (rule that)
  have ki: "ai_key rec_in_ai = pda E pid [TOKEN_SEED, arr_bytes ?i]" "owner_of w1 rec_in_ai = pid"
    and ko: "ai_key rec_out_ai = pda E pid [TOKEN_SEED, arr_bytes ?o]" "owner_of w1 rec_out_ai = pid"
    using load_token_key [OF l(6)] load_token_key [OF l(7)] transfer_checked_effect(5) [OF i1 assms(1)] by simp_all
  note e1 = store_token_effect [OF s1 ki(2,1)]
  have o2: "owner_of w2 rec_out_ai = pid" using e1(6) ko(2) by simp
  note e2 = store_token_effect [OF s2 o2 ko(1)]
  have p1: "paid E w w1 (ai_key user_in) (ai_key vault_in) (unat amount_in)"
    and p2: "paid E w3 w4 (ai_key vault_out) (ai_key user_out) (unat out)"
    using token_moved_paid transfer_checked_effect(1) [OF i1 assms(1)] transfer_checked_effect(1) [OF i2 assms(1)] by auto
  have ne: "ai_key user_in \<noteq> ai_key vault_in" and received: "received = amount_in"
  proof -
    have r: "unat received = unat (spl_amount b) - unat (spl_amount a)" "unat received \<noteq> 0"
      using checked_sub_Some [OF ab(3)] ab(4) by (auto simp: unat_eq_0)
    then show 1: "ai_key user_in \<noteq> ai_key vault_in" using p1 ab(1,2) by (auto simp: paid_def balance_def)
    then have "unat received = unat amount_in" using p1 ab(1,2) r(1) by (auto simp: paid_def balance_def)
    then show "received = amount_in" by (simp add: word_unat_eq_iff)
  qed
  have tok: "acct_owner (accts w (ai_key vault_in)) = spl_token_id E" "acct_owner (accts w (ai_key vault_out)) = spl_token_id E"
    using assms(4,5) load_token_at [OF l(6)] load_token_at [OF l(7)] l(8,9) by (auto simp: solvent_def vault_holds_def)
  have pid: "pid \<noteq> spl_token_id E" using assms(1) by (auto simp: runtime_ok_def token_rule_def)
  have own: "acct_owner (accts w3 k) = acct_owner (accts w k)" for k
    using e1(6) [of k] e2(6) [of k] transfer_checked_effect(5) [OF i1 assms(1), of k] by simp
  have st: "accts w3 k = accts w1 k" if "acct_owner (accts w k) \<noteq> pid" for k
    using e1(4) [of k] e1(6) [of k] e2(4) [of k] that transfer_checked_effect(5) [OF i1 assms(1), of k] by simp
  have npi: "acct_owner (accts w k) \<noteq> pid" if "k \<in> {ai_key user_in, ai_key vault_in}" for k
    using moved_not_owned [OF i1 assms(1) ne l(5) that] .
  have npo: "acct_owner (accts w k) \<noteq> pid" if "k \<in> {ai_key vault_out, ai_key user_out}" for k
  proof (cases "ai_key vault_out = ai_key user_out")
    case True
    then show ?thesis using that tok(2) pid by auto
  next
    case False
    then show ?thesis using moved_not_owned [OF i2 assms(1) False q(2) that] own by simp
  qed
  have dj: "{ai_key user_in, ai_key vault_in} \<inter> {ai_key vault_out, ai_key user_out} = {}"
  proof -
    have "x \<noteq> y" if x: "x \<in> {ai_key user_in, ai_key vault_in}" and y: "y \<in> {ai_key vault_out, ai_key user_out}" for x y
      using transfer_mints(2) [OF i1 assms(1) x] transfer_mints(1) [OF i2 assms(1) y] st [OF npi [OF x]] l(4) by auto
    then show ?thesis by blast
  qed
  have "acct_data (accts w4 k) = acct_data (accts w1 k)" if "k \<in> {ai_key user_in, ai_key vault_in}" for k
    using transfer_frame [OF i2 assms(1), of k] st [OF npi [OF that]] dj that by auto
  then have "paid E w w4 (ai_key user_in) (ai_key vault_in) (unat amount_in)" by (intro paid_cong [OF p1]) auto
  then have P1: "paid E w w' (ai_key user_in) (ai_key vault_in) (unat amount_in)" by (simp add: paid_def balance_def w')
  have "acct_data (accts w k) = acct_data (accts w3 k)" if "k \<in> {ai_key vault_out, ai_key user_out}" for k
    using transfer_frame [OF i1 assms(1), of k] st [OF npo [OF that]] dj that by auto
  then have "paid E w w4 (ai_key vault_out) (ai_key user_out) (unat out)" by (intro paid_cong [OF p2]) auto
  then have P2: "paid E w w' (ai_key vault_out) (ai_key user_out) (unat out)" by (simp add: paid_def balance_def w')
  have fr: "accts w' k = accts w k" if "k \<notin> {ai_key user_in, ai_key vault_in, ai_key vault_out, ai_key user_out}"
    "acct_owner (accts w k) = spl_token_id E" for k
    using transfer_frame [OF i1 assms(1), of k] transfer_frame [OF i2 assms(1), of k] st [of k] that pid by (simp add: w')
  have t: "token_at E pid w' ?i = Some (r_in\<lparr>ts_reserve := reserve\<rparr>)"
    "token_at E pid w' ?o = Some (r_out\<lparr>ts_reserve := ts_reserve r_out - out\<rparr>)"
    using e1(1) e2(1) e2(3) [OF assms(2) l(4)] transfer_views(2) [OF i2 assms(1)] by (simp_all add: w')
  have rs: "reserve = ts_reserve r_in + amount_in"
    using q(5) received by (auto simp: checked_add_def split: if_splits)
  obtain body where body: "flds = [SWAPPED_EVENT_TAG, body]"
    "try_from_slice de_swapped_event body = Some (swapped (ai_key user) ?i ?o received out (ai_key user_out))"
    using swapped_logged [OF ev] by blast
  have lg: "logs w' = logs w @ [[SWAPPED_EVENT_TAG, body]]"
    using e1(5) e2(5) transfer_checked_effect(4) [OF i1 assms(1)] transfer_checked_effect(4) [OF i2 assms(1)]
    by (simp add: w' body(1))
  show ?thesis
    using load_pool_at [OF l(1)] l(2,3) load_token_at [OF l(6)] load_token_at [OF l(7)] l(10-12) q received rs t P1 P2 fr lg body(2) l(8,9)
    by (intro exI [of _ pool] exI [of _ r_in] exI [of _ r_out] exI [of _ now] exI [of _ out] exI [of _ body]) simp
qed

section \<open>The machine\<close>

text \<open>
  Every successful instruction of the swap program, on any account list, is a step
  of the abstract pool machine on the pool account and on the record of every token:
  nothing changes without the signature, the bounds, the price guards and the
  freshness the machine asks for.
\<close>

theorem swap_refines_pool_machine:
  assumes "swap_step E pid accs ix w = Inr w'" "clock_get E = Inr now"
    and "runtime_ok E pid" "signer_rule E pid" "signers_ok E pid accs"
    and "swap_apart E pid [POOL_SEED]" "swap_apart E pid [TOKEN_SEED, arr_bytes m]"
  shows "pool_step (signers accs) ix (pool_at E pid w) (pool_at E pid w') \<and>
    rec_step now (signers accs) (pool_at E pid w) ix m (token_at E pid w m) (token_at E pid w' m)"
  by (rule step_refines [OF assms(1-4,6,7,5)])

text \<open>
  C14. The pool is solvent along every history: if a token's vault covered its reserve
  at the start (or the token was not listed yet), then whenever the token is listed its
  vault is a token account of that mint, owned by the pool's authority and by nobody
  else, and holds at least the reserve.
\<close>

theorem pool_solvent:
  assumes "swap_trusted E pid" "swap_apart E pid [POOL_SEED]" "swap_apart E pid [TOKEN_SEED, arr_bytes m]"
    and "trace (swap_event E pid) w0 es w" "solvent E pid m w0" "token_at E pid w m = Some r"
  shows "\<exists>n. vault_holds E pid w m (ts_vault r) n \<and> unat (ts_reserve r) \<le> n"
  using solvency.trace_inv [OF guard_trace [OF assms(4,1-3)] assms(5)] assms(6) by (auto simp: solvent_def)

text \<open>
  The fee never exceeds ten percent, the deviation cap stays within one basis point
  and one hundred percent, the cooldown is never negative and the age bound always
  positive; the owner and the unit of account of the pool and the vault and the
  decimals of a listed token never change, and a listed token keeps a positive price.
\<close>

theorem pool_bounds_permanent:
  assumes "swap_trusted E pid" "swap_apart E pid [POOL_SEED]" "swap_apart E pid [TOKEN_SEED, arr_bytes m]"
    and "trace (swap_event E pid) w0 es w" "pool_at E pid w0 = Some p0" "pool_inv p0"
    and "token_at E pid w0 m = Some r0" "ts_price r0 \<noteq> 0"
  shows "\<exists>p r. pool_at E pid w = Some p \<and> token_at E pid w m = Some r \<and>
    ps_fee_bps p \<le> 1000 \<and> 1 \<le> ps_max_price_deviation_bps p \<and> ps_max_price_deviation_bps p \<le> 10000 \<and>
    0 \<le> sint (ps_min_price_update_interval p) \<and> 0 < sint (ps_max_price_age p) \<and>
    ps_owner p = ps_owner p0 \<and> ps_hub_mint p = ps_hub_mint p0 \<and>
    ts_vault r = ts_vault r0 \<and> ts_decimals r = ts_decimals r0 \<and> ts_price r \<noteq> 0"
proof -
  note g = guard_trace [OF assms(4,1-3)]
  have i: "pred_option pool_inv (pool_at E pid w)"
    using bounds.trace_inv [OF g] assms(5,6) by simp
  from identity.trace_rel [OF g] assms(5,7,8)
  obtain p r where "pool_at E pid w = Some p" "ps_owner p = ps_owner p0" "ps_hub_mint p = ps_hub_mint p0"
    "token_at E pid w m = Some r" "ts_vault r = ts_vault r0" "ts_decimals r = ts_decimals r0" "ts_price r \<noteq> 0"
    by (auto simp: same_pool_def same_record_def)
  moreover have "1 \<le> ps_max_price_deviation_bps p" if "ps_max_price_deviation_bps p \<noteq> 0"
    using that by (simp add: word_le_nat_alt unat_eq_0 Suc_le_eq unat_gt_0)
  ultimately show ?thesis using i by (auto simp: pool_inv_def MAX_FEE_BPS_def BPS_DENOM_def)
qed

text \<open>
  Once the unit of account is listed at exactly 1.0, no instruction of anyone,
  the owner and the oracle included, ever moves its price.
\<close>

theorem hub_price_pinned:
  assumes "swap_trusted E pid" "swap_apart E pid [POOL_SEED]" "swap_apart E pid [TOKEN_SEED, arr_bytes h]"
    and "trace (swap_event E pid) w0 es w" "hub_pinned E pid h w0"
  shows "\<exists>p r. pool_at E pid w = Some p \<and> ps_hub_mint p = h \<and> token_at E pid w h = Some r \<and> ts_price r = PRICE_ONE"
  using pinned.trace_inv [OF guard_trace [OF assms(4,1-3)] assms(5)] by (auto simp: hub_pinned_def)

lemma price_move_abs: "unat (price_move old price) = unat (abs_diff old price)"
  by (auto simp: price_move_def unat_abs_diff word_less_nat_alt unat_sub word_le_nat_alt)

lemma swap_price_ok_bound:
  assumes "swap_price_ok p r price now"
  shows "unat (abs_diff (ts_price r) price) * 10000 \<le> unat (ts_price r) * unat (ps_max_price_deviation_bps p)"
proof -
  obtain cap where c: "mul_div_floor (ts_price r) (ucast (ps_max_price_deviation_bps p)) (ucast BPS_DENOM) = Some cap"
    and m: "price_move (ts_price r) price \<le> cap" using assms by (auto simp: swap_price_ok_def)
  have "unat cap = unat (ts_price r) * unat (ps_max_price_deviation_bps p) div 10000"
    using c by (auto simp: mul_div_floor_exact unat_ucast_wide unat_of_nat_less split: if_splits)
  then have "unat cap * 10000 \<le> unat (ts_price r) * unat (ps_max_price_deviation_bps p)" by simp
  moreover have "unat (abs_diff (ts_price r) price) \<le> unat cap"
    using m by (simp add: price_move_abs word_le_nat_alt flip: price_move_abs)
  ultimately show ?thesis by (meson le_trans mult_le_mono1)
qed

text \<open>
  The price of a listed token changes only through an update signed by the oracle
  that names the current price, on a token that is not the unit of account, after the
  cooldown, and by at most the deviation cap.
\<close>

theorem reprice_guarded:
  assumes "swap_event E pid w (SwapExecuted now accs ix) w'" "swap_trusted E pid"
    and "swap_apart E pid [POOL_SEED]" "swap_apart E pid [TOKEN_SEED, arr_bytes m]"
    and "token_at E pid w m = Some r" "token_at E pid w' m = Some r'" "ts_price r' \<noteq> ts_price r"
  shows "\<exists>p. pool_at E pid w = Some p \<and> ps_oracle p \<in> signers accs \<and> ts_mint r \<noteq> ps_hub_mint p \<and>
    ix = SetPriceFrom (ts_price r) (ts_price r') \<and> ts_price r' \<noteq> 0 \<and>
    (ts_last_price_update r = 0 \<or>
      sint (isat_add (ts_last_price_update r) (ps_min_price_update_interval p)) \<le> sint now) \<and>
    unat (abs_diff (ts_price r) (ts_price r')) * 10000 \<le> unat (ts_price r) * unat (ps_max_price_deviation_bps p)"
proof -
  have "rec_step now (signers accs) (pool_at E pid w) ix m (Some r) (Some r')"
    using event_refines [OF assms(1-4)] assms(5,6) by simp
  then obtain p where "pool_at E pid w = Some p" "ps_oracle p \<in> signers accs" "ts_price r' \<noteq> 0"
    "ts_mint r \<noteq> ps_hub_mint p" "ix = SetPriceFrom (ts_price r) (ts_price r')" "swap_price_ok p r (ts_price r') now"
    using assms(7) by (auto elim: rec_step_Some)
  then show ?thesis using swap_price_ok_bound [of p r "ts_price r'" now] by (auto simp: swap_price_ok_def)
qed

section \<open>The keeper and the program agree\<close>

text \<open>The state of a token and of the guards of the pool, as a price keeper reads them.\<close>

definition price_state_of :: "pool_state \<Rightarrow> token_state \<Rightarrow> i64 \<Rightarrow> price_state" where
  "price_state_of p r now = \<lparr>pst_now = now, pst_price = ts_price r, pst_price_set_at = ts_price_set_at r,
     pst_last_price_update = ts_last_price_update r, pst_max_age = Some (effective_max_price_age p),
     pst_min_update_interval = ps_min_price_update_interval p,
     pst_max_deviation_bps = ps_max_price_deviation_bps p, pst_fee_bps = ps_fee_bps p\<rparr>"

lemma cap_in_range:
  assumes "unat b \<le> 10000"
  shows "\<exists>cap. mul_div_floor x (ucast (b :: u16)) (ucast BPS_DENOM) = Some cap \<and> unat cap = unat x * unat b div 10000"
proof -
  have "unat x * unat b \<le> unat x * 10000" using assms by (rule mult_le_mono2)
  from div_le_mono [OF this, of 10000] have "unat x * unat b div 10000 \<le> unat x" by simp
  then have "unat x * unat b div 10000 < 2 ^ 128" using u128_less [of x] by linarith
  then show ?thesis by (simp add: mul_div_floor_exact unat_ucast_wide unat_of_nat_less)
qed

lemma plan_price_ok:
  assumes "plan (price_state_of p r now) target margin = PlanSet expected price step" "pool_inv p"
  shows "ts_price r = expected" "swap_price_ok p r price now"
proof -
  let ?s = "price_state_of p r now"
  note pl = plan_Set [OF assms(1)]
  show "ts_price r = expected" using pl(2) by (simp add: price_state_of_def)
  have "ps_max_price_deviation_bps p \<le> 10000" using assms(2) by (simp add: pool_inv_def BPS_DENOM_def)
  then have d: "unat (ps_max_price_deviation_bps p) \<le> 10000" by (simp add: word_le_nat_alt)
  obtain cap where cap: "mul_div_floor (ts_price r) (ucast (ps_max_price_deviation_bps p)) (ucast BPS_DENOM) = Some cap"
    "unat cap = unat (ts_price r) * unat (ps_max_price_deviation_bps p) div 10000"
    using cap_in_range [OF d] by blast
  have "step_cap ?s \<le> unat (ts_price r) * unat (step_cap_bps ?s) div 10000"
    by (simp add: step_cap_def Let_def price_state_of_def)
  also have "\<dots> \<le> unat cap" unfolding cap(2)
    by (intro div_le_mono mult_le_mono2) (simp add: step_cap_bps_def price_state_of_def word_le_nat_alt [symmetric])
  finally have "step_cap ?s \<le> unat cap" .
  moreover have "unat (abs_diff (ts_price r) price) \<le> step_cap ?s"
    using pl(3) next_price_step(1) [of "unat (ts_price r)" "step_cap ?s" "unat target"]
    by (simp add: unat_abs_diff price_state_of_def)
  ultimately have "price_move (ts_price r) price \<le> cap"
    by (simp add: word_le_nat_alt price_move_abs)
  then show "swap_price_ok p r price now"
    using cap(1) pl(1) by (auto simp: swap_price_ok_def cooled_def price_state_of_def)
qed

text \<open>
  C17. Every update the keeper plans from an honest reading of the chain is accepted by
  the program: signed by the oracle and sent while the chain is as read, it succeeds
  and sets exactly the planned price, whatever the target.
\<close>

theorem keeper_step_accepted:
  assumes "load_pool E pid pool_ai w = Inr p" "pool_inv p" "load_token E pid rec_ai m w = Inr r"
    and "ts_mint r = m" "m \<noteq> ps_hub_mint p" "ts_price r \<noteq> 0" "target \<noteq> 0" "clock_get E = Inr now"
    and "ai_key oracle = ps_oracle p" "is_signer oracle" "length (data_of w rec_ai) = TOKEN_SPACE"
    and "plan (price_state_of p r now) target margin = PlanSet expected price step"
  shows "\<exists>w'. swap_step E pid (pool_ai # oracle # rec_ai # rest) (SetPriceFrom expected price) w = Inr w' \<and>
    token_at E pid w' m = Some (r\<lparr>ts_price := price, ts_last_price_update := now, ts_price_set_at := now\<rparr>)"
proof -
  note ok = plan_price_ok [OF assms(12,2)]
  let ?r = "r\<lparr>ts_price := price, ts_last_price_update := now, ts_price_set_at := now\<rparr>"
  obtain bs where bs: "ser_token ?r = Some bs" "length bs = 106" using ser_token_Some by blast
  then obtain w' where st: "swap_store (ser_token ?r) rec_ai w = Inr w'"
    using assms(11) by (auto simp: swap_store_Inr TOKEN_SPACE_def)
  have "price \<noteq> 0"
  proof -
    have "unat price = next_price (unat (ts_price r)) (step_cap (price_state_of p r now)) (unat target)"
      using plan_Set(3) [OF assms(12)] by (simp add: price_state_of_def)
    moreover have "unat (ts_price r) > 0" "unat target > 0" using assms(6,7) by (simp_all add: unat_gt_0)
    ultimately show ?thesis by (auto simp: next_price_def split: if_splits)
  qed
  moreover have "load_token E pid rec_ai (ts_mint r) w = Inr r" using assms(3,4) by simp
  ultimately have "process_set_price E pid (pool_ai # oracle # rec_ai # rest) expected price w = Inr w'"
    using assms(1,5,4,8-10) ok st unfolding process_set_price_iff by blast
  moreover have "token_at E pid w' m = Some ?r"
    using store_token_effect(1) [OF st load_token_key [OF assms(3)]] .
  ultimately show ?thesis by auto
qed

text \<open>
  Trading stops when it must: a paused pool refuses every swap, a pool with a
  stale price on either side refuses the swap, and the removed unconditional price
  update always fails.
\<close>

theorem pool_refuses:
  assumes "load_pool E pid pool_ai w = Inr p"
    and "accs = pool_ai # user # rec_in # rec_out # user_in # user_out # vault_in # vault_out # mint_in # mint_out # va # tp # rest"
  shows "(ps_paused p \<longrightarrow> swap_step E pid accs (Swap n k) w = Inl (swap_err SwPaused)) \<and>
    (\<forall>r_in r_out now. \<not> ps_paused p \<and> is_signer user \<and> ai_key mint_in \<noteq> ai_key mint_out \<and> n \<noteq> 0 \<and>
       ai_key tp = spl_token_id E \<and> load_token E pid rec_in (ai_key mint_in) w = Inr r_in \<and>
       load_token E pid rec_out (ai_key mint_out) w = Inr r_out \<and> ts_vault r_in = ai_key vault_in \<and>
       ts_vault r_out = ai_key vault_out \<and> clock_get E = Inr now \<and>
       (\<not> price_is_fresh p r_in now \<or> \<not> price_is_fresh p r_out now) \<longrightarrow>
       swap_step E pid accs (Swap n k) w = Inl (swap_err SwStalePrice)) \<and>
    swap_step E pid accs (SetPrice price) w = Inl (swap_err SwSetPriceRemoved)"
  using assms(1) by (auto simp: assms(2) process_swap_def)

end
