(* ===== verification/SwapWitness.thy ===== *)
theory SwapWitness
  imports SwapProps
begin

text \<open>The properties of the swap program at work on the demonstration pool.\<close>

definition demo_swap_accs :: "account_info list" where
  "demo_swap_accs = [demo_info 9, demo_signer 8, demo_info 1095, demo_info 1127, demo_info 36, demo_info 52,
     demo_info 20, demo_info 21, demo_info 68, demo_info 70, demo_info 2, demo_info 200]"

definition demo_price_accs :: "account_info list" where
  "demo_price_accs = [demo_info 9, demo_signer 5, demo_info 1127]"

lemma demo_at_time [simp]: "at_time swap_demo_env 0 = swap_demo_env"
  by (simp add: at_time_def swap_demo_env_def demo_env_def)

lemma swap_store_runs:
  assumes "length (data_of w ai) = TOKEN_SPACE"
  shows "\<exists>w'. swap_store (ser_token r) ai w = Inr w' \<and> (\<forall>k. k \<noteq> ai_key ai \<longrightarrow> accts w' k = accts w k)"
proof -
  obtain bs where "ser_token r = Some bs" "length bs = 106" using ser_token_Some by blast
  then show ?thesis using assms by (auto simp: swap_store_Inr TOKEN_SPACE_def)
qed

lemma swap_demo_accts:
  "accts (swap_demo_world p) 20 = \<lparr>lamports = 0, acct_owner = 200, acct_data = demo_token 68 2 50000\<rparr>"
  "accts (swap_demo_world p) 21 = \<lparr>lamports = 0, acct_owner = 200, acct_data = demo_token 70 2 80000\<rparr>"
  "accts (swap_demo_world p) 36 = \<lparr>lamports = 0, acct_owner = 200, acct_data = demo_token 68 8 9000\<rparr>"
  "accts (swap_demo_world p) 52 = \<lparr>lamports = 0, acct_owner = 200, acct_data = demo_token 70 8 0\<rparr>"
  by (simp_all add: swap_demo_world_def)

lemma swap_demo_lengths:
  "length (acct_data (accts (swap_demo_world p) 1095)) = TOKEN_SPACE"
  "length (acct_data (accts (swap_demo_world p) 1127)) = TOKEN_SPACE"
proof -
  have l: "length (the (ser_token r)) = 106" for r using ser_token_Some [of r] by auto
  show "length (acct_data (accts (swap_demo_world p) 1095)) = TOKEN_SPACE"
    "length (acct_data (accts (swap_demo_world p) 1127)) = TOKEN_SPACE"
    by (simp_all add: swap_demo_world_def TOKEN_SPACE_def l)
qed

lemma demo_transfer_in:
  "swap_demo_invoke pid (SplTransferChecked p 36 68 20 au 1000 dec) infos seeds (accts (swap_demo_world q)) =
     Inr ((accts (swap_demo_world q))(36 := \<lparr>lamports = 0, acct_owner = 200, acct_data = demo_token 68 8 8000\<rparr>,
       20 := \<lparr>lamports = 0, acct_owner = 200, acct_data = demo_token 68 2 51000\<rparr>))"
  by (simp add: swap_demo_invoke_def swap_demo_accts demo_transfer_def demo_set_amount_def checked_add_def demo_set_token)

lemma demo_transfer_out:
  assumes "a 21 = \<lparr>lamports = 0, acct_owner = 200, acct_data = demo_token 70 2 80000\<rparr>"
    "a 52 = \<lparr>lamports = 0, acct_owner = 200, acct_data = demo_token 70 8 0\<rparr>"
  shows "\<exists>a'. swap_demo_invoke pid (SplTransferChecked p 21 70 52 au 498 dec) infos seeds a = Inr a'"
  by (simp add: swap_demo_invoke_def assms demo_transfer_def checked_add_def)

lemma demo_amount_out: "amount_out 1000 PRICE_ONE 6 (2 * PRICE_ONE) 6 30 = Some 498"
  by (simp add: swap_rule_exact usd_spec_def fee_spec_def out_spec_def Let_def PRICE_ONE_def)

lemma demo_fresh: "price_is_fresh demo_pool (demo_rec m v p r) 0"
  by (simp add: price_is_fresh_def demo_pool_def demo_rec_def sint_isat_sub effective_max_price_age_def i64_min_def i64_max_def)

lemma demo_swap_runs: "\<exists>w'. swap_step swap_demo_env 100 demo_swap_accs (Swap 1000 1) (swap_demo_world demo_pool) = Inr w'"
proof -
  let ?w = "swap_demo_world demo_pool"
  define w1 where "w1 = ?w\<lparr>accts := (accts ?w)(36 := \<lparr>lamports = 0, acct_owner = 200, acct_data = demo_token 68 8 8000\<rparr>,
       20 := \<lparr>lamports = 0, acct_owner = 200, acct_data = demo_token 68 2 51000\<rparr>)\<rparr>"
  define r_in where "r_in = demo_rec 68 20 PRICE_ONE 40000"
  define r_out where "r_out = demo_rec 70 21 (2 * PRICE_ONE) 70000"
  note ld = swap_demo_load_token [of demo_pool, folded r_in_def r_out_def]
  have len: "length (data_of w1 (demo_info 1095)) = TOKEN_SPACE" "length (data_of w1 (demo_info 1127)) = TOKEN_SPACE"
    by (simp_all add: w1_def swap_demo_lengths)
  obtain w2 where s1: "swap_store (ser_token (r_in\<lparr>ts_reserve := 41000\<rparr>)) (demo_info 1095) w1 = Inr w2"
    and w2: "\<forall>k. k \<noteq> 1095 \<longrightarrow> accts w2 k = accts w1 k" using swap_store_runs [OF len(1)] by auto
  have "length (data_of w2 (demo_info 1127)) = TOKEN_SPACE" using w2 len(2) by simp
  then obtain w3 where s2: "swap_store (ser_token (r_out\<lparr>ts_reserve := 69502\<rparr>)) (demo_info 1127) w2 = Inr w3"
    and w3: "\<forall>k. k \<noteq> 1127 \<longrightarrow> accts w3 k = accts w2 k"
    using swap_store_runs [of w2 "demo_info 1127" "r_out\<lparr>ts_reserve := 69502\<rparr>"] by auto
  have "accts w3 21 = \<lparr>lamports = 0, acct_owner = 200, acct_data = demo_token 70 2 80000\<rparr>"
    "accts w3 52 = \<lparr>lamports = 0, acct_owner = 200, acct_data = demo_token 70 8 0\<rparr>"
    using w2 w3 by (simp_all add: w1_def swap_demo_accts)
  then obtain a where i2: "swap_demo_invoke 100 (SplTransferChecked 200 21 70 52 2 498 6)
      [demo_info 21, demo_info 70, demo_info 52, demo_info 2, demo_info 200] [[VAULT_AUTHORITY_SEED, [255]]] (accts w3) = Inr a"
    using demo_transfer_out by blast
  obtain b where ev: "ser_swapped_event (swapped 8 68 70 1000 498 52) = Some b" using ser_swapped_Some by blast
  have f: "ts_vault r_in = 20" "ts_vault r_out = 21" "ts_decimals r_in = 6" "ts_decimals r_out = 6"
    "ts_price r_in = PRICE_ONE" "ts_price r_out = 2 * PRICE_ONE" "ts_reserve r_in = 40000" "ts_reserve r_out = 70000"
    by (simp_all add: r_in_def r_out_def demo_rec_def)
  have fr: "price_is_fresh demo_pool r_in 0" "price_is_fresh demo_pool r_out 0"
    unfolding r_in_def r_out_def by (rule demo_fresh)+
  have pp: "\<not> ps_paused demo_pool" "ps_fee_bps demo_pool = 30" by (simp_all add: demo_pool_def)
  have i1: "invoke_signed swap_demo_env 100 (SplTransferChecked 200 36 68 20 8 1000 6)
      [demo_info 36, demo_info 68, demo_info 20, demo_signer 8, demo_info 200] [] ?w = Inr w1"
    by (simp add: invoke_signed_def demo_transfer_in w1_def)
  have bal: "demo_unpack (acct_data (accts ?w 20)) = Some \<lparr>spl_mint = 68, spl_owner = 2, spl_amount = 50000,
       spl_delegate = None, spl_close_authority = None\<rparr>"
    "demo_unpack (acct_data (accts w1 20)) = Some \<lparr>spl_mint = 68, spl_owner = 2, spl_amount = 51000,
       spl_delegate = None, spl_close_authority = None\<rparr>"
    by (simp_all add: swap_demo_accts w1_def)
  have sum: "checked_sub (51000 :: u64) 50000 = Some 1000" "checked_add (40000 :: u64) 1000 = Some 41000"
    by (simp_all add: checked_sub_def checked_add_def)
  have lg: "swapped_log_fields (swapped 8 68 70 1000 498 52) = Inr [SWAPPED_EVENT_TAG, b]"
    by (simp add: swapped_log_fields_def ev)
  have i2': "invoke_signed swap_demo_env 100 (SplTransferChecked 200 21 70 52 2 498 6)
      [demo_info 21, demo_info 70, demo_info 52, demo_info 2, demo_info 200] [[VAULT_AUTHORITY_SEED, [255]]] w3 =
      Inr (w3\<lparr>accts := a\<rparr>)"
    using i2 by (simp add: invoke_signed_def)
  have "process_swap swap_demo_env 100 demo_swap_accs 1000 1 ?w =
      Inr (sol_log_data [SWAPPED_EVENT_TAG, b] (w3\<lparr>accts := a\<rparr>))"
    unfolding demo_swap_accs_def process_swap_iff
    by (rule exI [of _ demo_pool], rule exI [of _ r_in], rule exI [of _ r_out], rule exI [of _ "0 :: i64"],
      rule exI [of _ w1], rule exI [of _ w2], rule exI [of _ w3], rule exI [of _ "w3\<lparr>accts := a\<rparr>"],
      rule exI [of _ "\<lparr>spl_mint = 68, spl_owner = 2, spl_amount = 50000, spl_delegate = None, spl_close_authority = None\<rparr>"], rule exI [of _ "\<lparr>spl_mint = 68, spl_owner = 2, spl_amount = 51000, spl_delegate = None, spl_close_authority = None\<rparr>"], rule exI [of _ "1000 :: u64"], rule exI [of _ "498 :: u64"],
      rule exI [of _ "41000 :: u64"], rule exI [of _ "[SWAPPED_EVENT_TAG, b]"],
      intro conjI)
      (simp_all add: ld f fr pp i1 bal s1 s2 i2' lg sum demo_amount_out swap_demo_load_pool invoke_def)
  then show ?thesis by simp
qed

lemma demo_records:
  "pool_at swap_demo_env 100 (swap_demo_world p) = Some p"
  "token_at swap_demo_env 100 (swap_demo_world p) 68 = Some (demo_rec 68 20 PRICE_ONE 40000)"
  "token_at swap_demo_env 100 (swap_demo_world p) 70 = Some (demo_rec 70 21 (2 * PRICE_ONE) 70000)"
  using load_pool_at [OF swap_demo_load_pool] load_token_at [OF swap_demo_load_token(1)]
    load_token_at [OF swap_demo_load_token(2)] by auto

lemma demo_solvent:
  "solvent swap_demo_env 100 68 (swap_demo_world p)" "solvent swap_demo_env 100 70 (swap_demo_world p)"
  by (simp_all add: solvent_def demo_records vault_holds_def swap_demo_accts demo_rec_def)

lemma demo_not_pda:
  assumes "swap_seeds s" "k = 8 \<or> k = 5"
  shows "k \<noteq> pda swap_demo_env 100 s"
proof -
  have "k \<noteq> fst (demo_find [TOKEN_SEED, arr_bytes (m :: pubkey)] 100)" for m
  proof (cases "m < 2 ^ 200")
    case True
    have "unat (16 * m + 7) = 16 * unat m + 7" using demo_address [OF True, of 7] by simp
    then have "unat (16 * m + 7) \<noteq> 8 \<and> unat (16 * m + 7) \<noteq> 5" by presburger
    moreover have "x \<noteq> 8 \<and> x \<noteq> 5" if "unat x \<noteq> 8 \<and> unat x \<noteq> 5" for x :: pubkey using that by auto
    ultimately have "16 * m + 7 \<noteq> 8 \<and> 16 * m + 7 \<noteq> 5" by blast
    then show ?thesis using True assms(2) by (auto simp: demo_token_pda)
  qed (use assms(2) in \<open>auto simp: demo_token_pda\<close>)
  then show ?thesis using assms by (auto simp: swap_seeds_def)
qed

lemma demo_signers:
  "signers_ok swap_demo_env 100 demo_swap_accs" "signers_ok swap_demo_env 100 demo_price_accs"
  using demo_not_pda by (auto simp: signers_ok_def demo_swap_accs_def demo_price_accs_def)

lemma demo_apart_tokens:
  "swap_apart swap_demo_env 100 [TOKEN_SEED, arr_bytes (68 :: pubkey)]"
  "swap_apart swap_demo_env 100 [TOKEN_SEED, arr_bytes (70 :: pubkey)]"
  by (rule swap_demo_apart_token; simp add: word_less_nat_alt)+

lemma demo_swap_event:
  "\<exists>w'. swap_event swap_demo_env 100 (swap_demo_world demo_pool) (SwapExecuted 0 demo_swap_accs (Swap 1000 1)) w'"
  using demo_swap_runs demo_signers(1) by simp

text \<open>The hypotheses on the runtime and on the addresses, for the demonstration pool.\<close>

lemmas demo_base = swap_demo_trusted swap_demo_apart_pool

lemma demo_runtime: "runtime_ok swap_demo_env 100" "signer_rule swap_demo_env 100"
  using swap_demo_trusted by (simp_all add: swap_trusted_def)

lemma demo_pool_inv: "pool_inv demo_pool"
  by (simp add: pool_inv_def demo_pool_def MAX_FEE_BPS_def BPS_DENOM_def)

section \<open>Witnesses\<close>

theorem swap_guarantee_witness:
  "\<exists>w'. process_swap swap_demo_env 100 demo_swap_accs 1000 1 (swap_demo_world demo_pool) = Inr w' \<and>
     paid swap_demo_env (swap_demo_world demo_pool) w' 36 20 1000 \<and> paid swap_demo_env (swap_demo_world demo_pool) w' 21 52 498"
proof -
  obtain w' where r: "process_swap swap_demo_env 100 demo_swap_accs 1000 1 (swap_demo_world demo_pool) = Inr w'"
    using demo_swap_runs by auto
  have "paid swap_demo_env (swap_demo_world demo_pool) w' 36 20 1000 \<and> paid swap_demo_env (swap_demo_world demo_pool) w' 21 52 498"
    using swap_guarantee [where mint_in = "demo_info 68" and mint_out = "demo_info 70", simplified demo_infos,
        OF demo_runtime(1) demo_apart_tokens demo_solvent r [unfolded demo_swap_accs_def]] demo_amount_out
    by (auto simp: demo_records demo_rec_def demo_pool_def)
  then show ?thesis using r by blast
qed

theorem swap_refines_pool_machine_witness:
  "\<exists>w'. rec_step 0 {8} (Some demo_pool) (Swap 1000 1) 70 (Some (demo_rec 70 21 (2 * PRICE_ONE) 70000))
     (token_at swap_demo_env 100 w' 70) \<and>
     swap_step swap_demo_env 100 demo_swap_accs (Swap 1000 1) (swap_demo_world demo_pool) = Inr w'"
proof -
  obtain w' where r: "swap_step swap_demo_env 100 demo_swap_accs (Swap 1000 1) (swap_demo_world demo_pool) = Inr w'"
    using demo_swap_runs by blast
  have s: "signers demo_swap_accs = {8}" by (simp add: signers_def demo_swap_accs_def)
  show ?thesis
    using swap_refines_pool_machine [OF r _ demo_runtime demo_signers(1) swap_demo_apart_pool demo_apart_tokens(2)] r
    unfolding s demo_records by auto
qed

theorem pool_solvent_witness:
  "\<exists>w r n. trace (swap_event swap_demo_env 100) (swap_demo_world demo_pool) [SwapExecuted 0 demo_swap_accs (Swap 1000 1)] w \<and>
     token_at swap_demo_env 100 w 70 = Some r \<and> vault_holds swap_demo_env 100 w 70 (ts_vault r) n \<and> unat (ts_reserve r) \<le> n"
proof -
  obtain w where t: "trace (swap_event swap_demo_env 100) (swap_demo_world demo_pool) [SwapExecuted 0 demo_swap_accs (Swap 1000 1)] w"
    using trace_single demo_swap_event by metis
  obtain r where r: "token_at swap_demo_env 100 w 70 = Some r"
    using identity.trace_rel [OF guard_trace [OF t demo_base demo_apart_tokens(2)]] demo_records [of demo_pool]
    by (auto simp: same_record_def same_pool_def demo_rec_def PRICE_ONE_def)
  show ?thesis using pool_solvent [OF demo_base demo_apart_tokens(2) t demo_solvent(2) r] t r by blast
qed

theorem pool_bounds_permanent_witness:
  "\<exists>w p. trace (swap_event swap_demo_env 100) (swap_demo_world demo_pool) [SwapExecuted 0 demo_swap_accs (Swap 1000 1)] w \<and>
     pool_at swap_demo_env 100 w = Some p \<and> ps_fee_bps p \<le> 1000 \<and> ps_owner p = 4"
proof -
  obtain w where t: "trace (swap_event swap_demo_env 100) (swap_demo_world demo_pool) [SwapExecuted 0 demo_swap_accs (Swap 1000 1)] w"
    using trace_single demo_swap_event by metis
  have "ts_price (demo_rec 70 21 (2 * PRICE_ONE) 70000) \<noteq> 0" by (simp add: demo_rec_def PRICE_ONE_def)
  from pool_bounds_permanent [OF demo_base demo_apart_tokens(2) t demo_records(1) demo_pool_inv demo_records(3) this]
  show ?thesis using t by (auto simp: demo_pool_def)
qed

theorem hub_price_pinned_witness:
  "\<exists>w r. trace (swap_event swap_demo_env 100) (swap_demo_world demo_pool) [SwapExecuted 0 demo_swap_accs (Swap 1000 1)] w \<and>
     token_at swap_demo_env 100 w 68 = Some r \<and> ts_price r = PRICE_ONE"
proof -
  obtain w where t: "trace (swap_event swap_demo_env 100) (swap_demo_world demo_pool) [SwapExecuted 0 demo_swap_accs (Swap 1000 1)] w"
    using trace_single demo_swap_event by metis
  have "hub_pinned swap_demo_env 100 68 (swap_demo_world demo_pool)"
    unfolding hub_pinned_def demo_records by (simp add: demo_rec_def demo_pool_def)
  from hub_price_pinned [OF demo_base demo_apart_tokens(1) t this] show ?thesis using t by auto
qed

definition demo_eth :: token_state where
  "demo_eth = demo_rec 70 21 (2 * PRICE_ONE) 70000"

lemma demo_eth_plan:
  "plan (price_state_of demo_pool demo_eth 0) 2100000000000000000 60 = PlanSet 2000000000000000000 2006000000000000000 True"
proof -
  let ?s = "price_state_of demo_pool demo_eth 0"
  have f: "pst_price ?s = 2000000000000000000" "pst_last_price_update ?s = 0" "pst_now ?s = 0"
    "pst_fee_bps ?s = 30" "pst_max_deviation_bps ?s = 500"
    by (simp_all add: price_state_of_def demo_eth_def demo_rec_def demo_pool_def PRICE_ONE_def)
  have c: "cooled ?s" by (simp add: cooled_def f)
  have "step_cap ?s = 6000000000000000"
    by (simp add: step_cap_def step_cap_bps_def f min_def word_le_nat_alt)
  then show ?thesis
    unfolding plan_cooled [OF c] by (simp add: next_price_def Let_def f abs_diff_def word_less_nat_alt)
qed

lemma demo_reprices:
  "\<exists>w'. swap_step swap_demo_env 100 demo_price_accs (SetPriceFrom 2000000000000000000 2006000000000000000)
      (swap_demo_world demo_pool) = Inr w' \<and>
     token_at swap_demo_env 100 w' 70 = Some (demo_eth\<lparr>ts_price := 2006000000000000000,
       ts_last_price_update := 0, ts_price_set_at := 0\<rparr>)"
proof -
  let ?r = "demo_eth\<lparr>ts_price := 2006000000000000000, ts_last_price_update := 0, ts_price_set_at := 0\<rparr>"
  have ld: "load_token swap_demo_env 100 (demo_info 1127) 70 (swap_demo_world demo_pool) = Inr demo_eth"
    unfolding demo_eth_def by (rule swap_demo_load_token)
  have f: "ts_mint demo_eth = 70" "ts_price demo_eth = 2000000000000000000"
    by (simp_all add: demo_eth_def demo_rec_def PRICE_ONE_def)
  have g: "ps_hub_mint demo_pool = 68" "ps_oracle demo_pool = 5" by (simp_all add: demo_pool_def)
  obtain w' where st: "swap_store (ser_token ?r) (demo_info 1127) (swap_demo_world demo_pool) = Inr w'"
    using swap_store_runs [of "swap_demo_world demo_pool" "demo_info 1127" ?r] swap_demo_lengths(2) by auto
  have "process_set_price swap_demo_env 100 demo_price_accs 2000000000000000000 2006000000000000000
      (swap_demo_world demo_pool) = Inr w'"
    unfolding demo_price_accs_def process_set_price_iff
    by (rule exI [of _ demo_pool], rule exI [of _ demo_eth], rule exI [of _ 0])
      (use ld st plan_price_ok [OF demo_eth_plan demo_pool_inv] in \<open>simp add: swap_demo_load_pool f g\<close>)
  moreover have "token_at swap_demo_env 100 w' 70 = Some ?r"
    using store_token_effect(1) [OF st load_token_key [OF ld]] .
  ultimately show ?thesis by auto
qed

theorem reprice_guarded_witness:
  "ps_oracle demo_pool \<in> signers demo_price_accs \<and>
   unat (abs_diff (2000000000000000000 :: u128) 2006000000000000000) * 10000 \<le> 2000000000000000000 * 500"
proof -
  obtain w' where r: "swap_step swap_demo_env 100 demo_price_accs (SetPriceFrom 2000000000000000000 2006000000000000000)
      (swap_demo_world demo_pool) = Inr w'" and t: "token_at swap_demo_env 100 w' 70 =
      Some (demo_eth\<lparr>ts_price := 2006000000000000000, ts_last_price_update := 0, ts_price_set_at := 0\<rparr>)"
    using demo_reprices by blast
  have e: "swap_event swap_demo_env 100 (swap_demo_world demo_pool)
      (SwapExecuted 0 demo_price_accs (SetPriceFrom 2000000000000000000 2006000000000000000)) w'"
    using r demo_signers(2) by simp
  have f: "ts_price demo_eth = 2000000000000000000" by (simp add: demo_eth_def demo_rec_def PRICE_ONE_def)
  have n: "ts_price (demo_eth\<lparr>ts_price := 2006000000000000000, ts_last_price_update := 0, ts_price_set_at := 0\<rparr>) \<noteq> ts_price demo_eth"
    by (simp add: f)
  have d: "ps_max_price_deviation_bps demo_pool = 500" by (simp add: demo_pool_def)
  from reprice_guarded [OF e demo_base demo_apart_tokens(2) demo_records(3) [folded demo_eth_def] t n]
  show ?thesis by (simp add: demo_records f d)
qed

theorem keeper_step_accepted_witness:
  "\<exists>w'. swap_step swap_demo_env 100 demo_price_accs (SetPriceFrom 2000000000000000000 2006000000000000000)
      (swap_demo_world demo_pool) = Inr w'"
proof -
  have ld: "load_token swap_demo_env 100 (demo_info 1127) 70 (swap_demo_world demo_pool) = Inr demo_eth"
    unfolding demo_eth_def by (rule swap_demo_load_token)
  have f: "ts_mint demo_eth = 70" "70 \<noteq> ps_hub_mint demo_pool" "ts_price demo_eth \<noteq> 0"
    "ai_key (demo_signer 5) = ps_oracle demo_pool"
    by (simp_all add: demo_eth_def demo_rec_def PRICE_ONE_def demo_pool_def)
  have l: "length (data_of (swap_demo_world demo_pool) (demo_info 1127)) = TOKEN_SPACE"
    by (simp add: swap_demo_lengths)
  have n: "(2100000000000000000 :: u128) \<noteq> 0" "clock_get swap_demo_env = Inr 0" "is_signer (demo_signer 5)" by simp_all
  show ?thesis
    using keeper_step_accepted [OF swap_demo_load_pool demo_pool_inv ld f(1-3) n(1,2) f(4) n(3) l demo_eth_plan, of "[]"]
    unfolding demo_price_accs_def by blast
qed

theorem pool_refuses_witness:
  "swap_step swap_demo_env 100 demo_swap_accs (Swap 1000 1) (swap_demo_world (demo_pool\<lparr>ps_paused := True\<rparr>)) =
     Inl (swap_err SwPaused)"
  using pool_refuses [OF swap_demo_load_pool demo_swap_accs_def, of "demo_pool\<lparr>ps_paused := True\<rparr>" 1000 1]
  by (simp add: demo_pool_def)

end
