(* ===== verification/HostIds.thy ===== *)
theory HostIds
  imports GateSends
begin

text \<open>
  The ids as the off-chain components compute them: \<open>bridge-solana\<close> (crate hash.rs,
  fixed arrays, the Solana relayers) and \<open>bridge-core\<close> (lib.rs and submission.rs, EVM
  words, the validator and the store). Keccak is a parameter. All three
  implementations, the gate program included, compute the same ids; a signature made
  by one component would otherwise never be accepted by another.
\<close>

section \<open>bridge-solana\<close>

text \<open>\<open>[u8; 32]\<close> is the word whose big-endian bytes the array holds.\<close>

record host_auto =
  ha_execution_fee :: bytes32
  ha_flags :: bytes32
  ha_fallback_address :: bytes
  ha_data :: bytes
  ha_native_sender :: bytes

definition host_be32 :: "u64 \<Rightarrow> bytes32" where
  "host_be32 v = of_be (replicate 24 0 @ be_bytes 8 v)"

definition host_amount_word :: "u128 \<Rightarrow> bytes32" where
  "host_amount_word amount = of_be (replicate 16 0 @ be_bytes 16 amount)"

definition host_debridge_id :: "(bytes \<Rightarrow> bytes32) \<Rightarrow> u64 \<Rightarrow> address \<Rightarrow> bytes32" where
  "host_debridge_id K native_chain_id native_token =
     K (arr_bytes (host_be32 native_chain_id) @ arr_bytes native_token)"

definition host_packed_submission ::
  "bytes32 \<Rightarrow> bytes32 \<Rightarrow> u8 \<Rightarrow> bytes32 \<Rightarrow> u64 \<Rightarrow> u64 \<Rightarrow> u64 \<Rightarrow> bytes \<Rightarrow> bytes" where
  "host_packed_submission domain did bd amount chain_from chain_to nonce receiver =
     arr_bytes (host_be32 SUBMISSION_PREFIX) @ arr_bytes domain @ arr_bytes did @
     arr_bytes (host_be32 chain_from) @ arr_bytes (host_be32 chain_to) @ [bd] @ arr_bytes amount @
     receiver @ arr_bytes (host_be32 nonce)"

definition host_submission_id ::
  "(bytes \<Rightarrow> bytes32) \<Rightarrow> bytes32 \<Rightarrow> bytes32 \<Rightarrow> u8 \<Rightarrow> bytes32 \<Rightarrow> u64 \<Rightarrow> u64 \<Rightarrow> u64 \<Rightarrow> bytes \<Rightarrow> bytes32" where
  "host_submission_id K domain did bd amount chain_from chain_to nonce receiver =
     K (host_packed_submission domain did bd amount chain_from chain_to nonce receiver)"

definition host_submission_id_with_auto ::
  "(bytes \<Rightarrow> bytes32) \<Rightarrow> bytes32 \<Rightarrow> bytes32 \<Rightarrow> u8 \<Rightarrow> bytes32 \<Rightarrow> u64 \<Rightarrow> u64 \<Rightarrow> u64 \<Rightarrow> bytes \<Rightarrow>
   host_auto \<Rightarrow> bytes32" where
  "host_submission_id_with_auto K domain did bd amount chain_from chain_to nonce receiver auto =
     K (host_packed_submission domain did bd amount chain_from chain_to nonce receiver @
        arr_bytes (ha_execution_fee auto) @ arr_bytes (ha_flags auto) @
        arr_bytes (K (ha_fallback_address auto)) @ arr_bytes (K (ha_data auto)) @
        arr_bytes (K (ha_native_sender auto)))"

text \<open>The Borsh form of a payload and the form the hash uses (relayer.rs).\<close>

definition auto_to_wire :: "host_auto \<Rightarrow> auto_params" where
  "auto_to_wire a =
     \<lparr>ap_execution_fee = of_be (drop 16 (arr_bytes (ha_execution_fee a))),
      ap_flags = of_be (drop 24 (arr_bytes (ha_flags a))),
      ap_fallback_address = ha_fallback_address a, ap_data = ha_data a\<rparr>"

definition wire_to_auto :: "auto_params \<Rightarrow> bytes \<Rightarrow> host_auto" where
  "wire_to_auto w native_sender =
     \<lparr>ha_execution_fee = of_be (replicate 16 0 @ be_bytes 16 (ap_execution_fee w)),
      ha_flags = of_be (replicate 24 0 @ be_bytes 8 (ap_flags w)),
      ha_fallback_address = ap_fallback_address w, ha_data = ap_data w,
      ha_native_sender = native_sender\<rparr>"

section \<open>bridge-core\<close>

text \<open>\<open>U256\<close> and \<open>B256\<close> are 256-bit words; \<open>to_be_bytes::<32>\<close> are their 32 bytes.\<close>

record core_auto =
  ca_execution_fee :: bytes32
  ca_flags :: bytes32
  ca_fallback_address :: bytes
  ca_auto_data :: bytes
  ca_auto_sender :: bytes

definition core_debridge_id :: "(bytes \<Rightarrow> bytes32) \<Rightarrow> bytes32 \<Rightarrow> address \<Rightarrow> bytes32" where
  "core_debridge_id K native_chain_id native_token =
     K (be_bytes 32 native_chain_id @ arr_bytes native_token)"

definition core_packed_submission ::
  "bytes32 \<Rightarrow> bytes32 \<Rightarrow> u8 \<Rightarrow> bytes32 \<Rightarrow> bytes32 \<Rightarrow> bytes32 \<Rightarrow> bytes32 \<Rightarrow> bytes \<Rightarrow> bytes" where
  "core_packed_submission domain did bd amount chain_from chain_to nonce receiver =
     be_bytes 32 (ucast SUBMISSION_PREFIX :: bytes32) @ arr_bytes domain @ arr_bytes did @
     be_bytes 32 chain_from @ be_bytes 32 chain_to @ [bd] @ be_bytes 32 amount @ receiver @
     be_bytes 32 nonce"

definition core_submission_id ::
  "(bytes \<Rightarrow> bytes32) \<Rightarrow> bytes32 \<Rightarrow> bytes32 \<Rightarrow> u8 \<Rightarrow> bytes32 \<Rightarrow> bytes32 \<Rightarrow> bytes32 \<Rightarrow> bytes32 \<Rightarrow> bytes \<Rightarrow>
   bytes32" where
  "core_submission_id K domain did bd amount chain_from chain_to nonce receiver =
     K (core_packed_submission domain did bd amount chain_from chain_to nonce receiver)"

definition core_submission_id_with_auto ::
  "(bytes \<Rightarrow> bytes32) \<Rightarrow> bytes32 \<Rightarrow> bytes32 \<Rightarrow> u8 \<Rightarrow> bytes32 \<Rightarrow> bytes32 \<Rightarrow> bytes32 \<Rightarrow> bytes32 \<Rightarrow> bytes \<Rightarrow>
   core_auto \<Rightarrow> bytes32" where
  "core_submission_id_with_auto K domain did bd amount chain_from chain_to nonce receiver auto =
     K (core_packed_submission domain did bd amount chain_from chain_to nonce receiver @
        be_bytes 32 (ca_execution_fee auto) @ be_bytes 32 (ca_flags auto) @
        arr_bytes (K (ca_fallback_address auto)) @ arr_bytes (K (ca_auto_data auto)) @
        arr_bytes (K (ca_auto_sender auto)))"

definition domain_id :: "(bytes \<Rightarrow> bytes32) \<Rightarrow> u64 \<Rightarrow> bytes32 \<Rightarrow> bytes32" where
  "domain_id K prefix sid = K (be_bytes 32 (ucast prefix :: bytes32) @ arr_bytes sid)"

definition core_cancel_id :: "(bytes \<Rightarrow> bytes32) \<Rightarrow> bytes32 \<Rightarrow> bytes32" where
  "core_cancel_id K sid = domain_id K CANCEL_PREFIX sid"

definition core_refund_id :: "(bytes \<Rightarrow> bytes32) \<Rightarrow> bytes32 \<Rightarrow> bytes32" where
  "core_refund_id K sid = domain_id K REFUND_PREFIX sid"

text \<open>The transfer as a validator reads it from a \<open>Sent\<close> event (submission.rs).\<close>

record submission =
  sub_bridge_domain :: bytes32
  sub_debridge_id :: bytes32
  sub_bridge_decimals :: u8
  sub_amount :: bytes32
  sub_chain_id_from :: bytes32
  sub_chain_id_to :: bytes32
  sub_nonce :: bytes32
  sub_receiver :: bytes
  sub_auto :: "core_auto option"

definition compute_id :: "(bytes \<Rightarrow> bytes32) \<Rightarrow> submission \<Rightarrow> bytes32" where
  "compute_id K s =
     (case sub_auto s of
        None \<Rightarrow> core_submission_id K (sub_bridge_domain s) (sub_debridge_id s) (sub_bridge_decimals s)
          (sub_amount s) (sub_chain_id_from s) (sub_chain_id_to s) (sub_nonce s) (sub_receiver s)
      | Some auto \<Rightarrow> core_submission_id_with_auto K (sub_bridge_domain s) (sub_debridge_id s)
          (sub_bridge_decimals s) (sub_amount s) (sub_chain_id_from s) (sub_chain_id_to s) (sub_nonce s)
          (sub_receiver s) auto)"

text \<open>The event of the EVM gate, and alloy's decoder of \<open>abi.encode(AutoParamsTo)\<close>, a parameter.\<close>

record evm_sent =
  es_debridge_id :: bytes32
  es_bridge_decimals :: u8
  es_amount :: bytes32
  es_chain_id_from :: bytes32
  es_chain_id_to :: bytes32
  es_nonce :: bytes32
  es_receiver :: bytes
  es_native_sender :: bytes
  es_auto_params :: bytes

type_synonym abi_decoder = "bytes \<Rightarrow> (bytes32 \<times> bytes32 \<times> bytes \<times> bytes) option"

definition decode_auto_params :: "abi_decoder \<Rightarrow> bytes \<Rightarrow> bytes \<Rightarrow> core_auto option option" where
  "decode_auto_params abi auto_params native_sender =
     (if auto_params = [] then Some None
      else do {
        (fee, flags, fallback, payload) \<leftarrow> abi auto_params;
        Some (Some \<lparr>ca_execution_fee = fee, ca_flags = flags, ca_fallback_address = fallback,
                    ca_auto_data = payload, ca_auto_sender = native_sender\<rparr>) })"

definition from_sent_event :: "abi_decoder \<Rightarrow> evm_sent \<Rightarrow> bytes32 \<Rightarrow> submission option" where
  "from_sent_event abi ev domain = do {
     auto \<leftarrow> decode_auto_params abi (es_auto_params ev) (es_native_sender ev);
     Some \<lparr>sub_bridge_domain = domain, sub_debridge_id = es_debridge_id ev,
           sub_bridge_decimals = es_bridge_decimals ev, sub_amount = es_amount ev,
           sub_chain_id_from = es_chain_id_from ev, sub_chain_id_to = es_chain_id_to ev,
           sub_nonce = es_nonce ev, sub_receiver = es_receiver ev, sub_auto = auto\<rparr> }"

section \<open>Words and arrays\<close>

text \<open>Widening a word puts zero bytes in front of its big-endian form.\<close>

lemma le_bytes_add: "le_bytes (m + n) x = le_bytes m x @ le_bytes n (drop_bit (8 * m) x)"
  by (induction m arbitrary: x) (simp_all add: drop_bit_drop_bit algebra_simps)

lemma le_bytes_ucast:
  assumes "8 * n \<le> LENGTH('b)" "LENGTH('a) \<le> LENGTH('b)"
  shows "le_bytes n (ucast (x :: 'a::len word) :: 'b::len word) = le_bytes n x"
  using assms
proof (induction n arbitrary: x)
  case (Suc n)
  have d: "drop_bit 8 (ucast x :: 'b word) = ucast (drop_bit 8 x)"
    by (rule bit_word_eqI) (use Suc.prems(2) in \<open>auto simp: bit_simps dest: bit_imp_le_length\<close>)
  have "(ucast (ucast x :: 'b word) :: u8) = ucast x"
    by (rule bit_word_eqI) (use Suc.prems in \<open>auto simp: bit_simps\<close>)
  then show ?case using Suc.IH [of "drop_bit 8 x"] Suc.prems by (simp add: d)
qed simp

lemma be_bytes_widen:
  assumes "m \<le> n" "8 * n \<le> LENGTH('b)" "LENGTH('a) \<le> 8 * m"
  shows "be_bytes n (ucast (x :: 'a::len word) :: 'b::len word) = replicate (n - m) 0 @ be_bytes m x"
proof -
  have l: "LENGTH('a) \<le> LENGTH('b)" using assms by linarith
  have "drop_bit (8 * m) x = 0" using assms(3) by (intro bit_word_eqI) (auto simp: bit_simps dest: bit_imp_le_length)
  then have "le_bytes n (ucast x :: 'b word) = le_bytes m x @ replicate (n - m) 0"
    using le_bytes_add [of m "n - m" x] assms(1) by (simp add: le_bytes_ucast [OF assms(2) l] le_bytes_zero)
  then show ?thesis by (simp add: be_bytes_def)
qed

lemma arr_be32: "arr_bytes (host_be32 v) = be32 v"
  by (simp add: host_be32_def be32_def arr_bytes_of_be)

lemma wide_be32: "be_bytes 32 (ucast (v :: u64) :: bytes32) = be32 v"
  using be_bytes_widen [of 8 32 v, where 'b = 256] by (simp add: be32_def)

lemma arr_amount: "arr_bytes (host_amount_word (ucast (v :: u64))) = amount_word v"
proof -
  have "replicate 16 0 @ replicate 8 0 @ be_bytes 8 v = (replicate 24 0 @ be_bytes 8 v :: bytes)"
    unfolding append_assoc [symmetric] replicate_add [symmetric] by simp
  then show ?thesis
    using be_bytes_widen [of 8 16 v, where 'b = 128]
    by (simp add: host_amount_word_def amount_word_def arr_bytes_of_be)
qed

lemma wide_amount: "be_bytes 32 (ucast (v :: u64) :: bytes32) = amount_word v"
  by (simp add: wide_be32 be32_def amount_word_def)

lemma wide_fee: "be_bytes 32 (ucast (v :: u128) :: bytes32) = replicate 16 0 @ be_bytes 16 v"
  using be_bytes_widen [of 16 32 v, where 'b = 256] by simp

lemma auto_words:
  "arr_bytes (ha_execution_fee (wire_to_auto a ns)) = replicate 16 0 @ be_bytes 16 (ap_execution_fee a)"
  "arr_bytes (ha_flags (wire_to_auto a ns)) = be32 (ap_flags a)"
  by (simp_all add: wire_to_auto_def be32_def arr_bytes_of_be)

lemma auto_wire_inverse: "auto_to_wire (wire_to_auto a ns) = a"
  by (simp add: auto_to_wire_def auto_words be32_def of_be_bytes_full) (simp add: wire_to_auto_def)

section \<open>Agreement\<close>

definition core_auto_of :: "auto_params \<Rightarrow> bytes \<Rightarrow> core_auto" where
  "core_auto_of a ns =
     \<lparr>ca_execution_fee = ucast (ap_execution_fee a), ca_flags = ucast (ap_flags a),
      ca_fallback_address = ap_fallback_address a, ca_auto_data = ap_data a, ca_auto_sender = ns\<rparr>"

lemma base_agrees:
  "concat (submission_base domain did bd amount cf ct nonce receiver) =
     host_packed_submission domain did bd (host_amount_word (ucast amount)) cf ct nonce receiver"
  "concat (submission_base domain did bd amount cf ct nonce receiver) =
     core_packed_submission domain did bd (ucast amount) (ucast cf) (ucast ct) (ucast nonce) receiver"
  by (simp_all add: submission_base_def host_packed_submission_def core_packed_submission_def arr_be32
      arr_amount wide_be32 wide_amount be32_def amount_word_def)

lemma host_id_agrees:
  "submission_id E domain did bd amount cf ct nonce receiver auto ns =
     (case auto of
        None \<Rightarrow> host_submission_id (keccak E) domain did bd (host_amount_word (ucast amount)) cf ct nonce receiver
      | Some a \<Rightarrow> host_submission_id_with_auto (keccak E) domain did bd (host_amount_word (ucast amount)) cf ct nonce
          receiver (wire_to_auto a ns))"
proof -
  have w: "ha_fallback_address (wire_to_auto a ns) = ap_fallback_address a" "ha_data (wire_to_auto a ns) = ap_data a"
    "ha_native_sender (wire_to_auto a ns) = ns" for a
    by (simp_all add: wire_to_auto_def)
  show ?thesis
    unfolding submission_id_def submission_parts_def hashv_def concat_append
    by (cases auto)
      (simp_all add: base_agrees(1) host_submission_id_def host_submission_id_with_auto_def auto_tail_def hashv_def auto_words w)
qed

lemma core_id_agrees:
  "submission_id E domain did bd amount cf ct nonce receiver auto ns =
     compute_id (keccak E) \<lparr>sub_bridge_domain = domain, sub_debridge_id = did, sub_bridge_decimals = bd,
       sub_amount = ucast amount, sub_chain_id_from = ucast cf, sub_chain_id_to = ucast ct,
       sub_nonce = ucast nonce, sub_receiver = receiver, sub_auto = map_option (\<lambda>a. core_auto_of a ns) auto\<rparr>"
  unfolding submission_id_def submission_parts_def hashv_def concat_append compute_id_def
  by (cases auto)
    (simp_all add: base_agrees(2) core_submission_id_def core_submission_id_with_auto_def core_auto_of_def
      auto_tail_def hashv_def wide_fee wide_be32)

lemma domain_id_agrees:
  "cancel_id E sid = core_cancel_id (keccak E) sid" "refund_id E sid = core_refund_id (keccak E) sid"
  by (simp_all add: cancel_id_def refund_id_def core_cancel_id_def core_refund_id_def domain_id_def hashv_def wide_be32)

text \<open>
  C19. The gate program, the Solana relayers and the validator compute the same id for
  the same transfer, with or without an execution payload, and the same cancel and
  refund digests.
\<close>

theorem ids_agree:
  "submission_id E domain did bd amount cf ct nonce receiver auto ns =
     (case auto of
        None \<Rightarrow> host_submission_id (keccak E) domain did bd (host_amount_word (ucast amount)) cf ct nonce receiver
      | Some a \<Rightarrow> host_submission_id_with_auto (keccak E) domain did bd (host_amount_word (ucast amount)) cf ct nonce
          receiver (wire_to_auto a ns)) \<and>
   submission_id E domain did bd amount cf ct nonce receiver auto ns =
     compute_id (keccak E) \<lparr>sub_bridge_domain = domain, sub_debridge_id = did, sub_bridge_decimals = bd,
       sub_amount = ucast amount, sub_chain_id_from = ucast cf, sub_chain_id_to = ucast ct,
       sub_nonce = ucast nonce, sub_receiver = receiver, sub_auto = map_option (\<lambda>a. core_auto_of a ns) auto\<rparr> \<and>
   cancel_id E sid = core_cancel_id (keccak E) sid \<and> refund_id E sid = core_refund_id (keccak E) sid"
  by (intro conjI host_id_agrees core_id_agrees domain_id_agrees)

end
