(* ===== verification/HostVerify.thy ===== *)
theory HostVerify
  imports HostIds
begin

text \<open>
  Signatures as the off-chain components handle them (\<open>bridge-solana\<close>, verify.rs):
  recovery, the threshold check, and the canonical form in which a signature must be
  submitted. The arithmetic on the group order is written with byte loops in the code
  and shown here to be the arithmetic it means.
\<close>

section \<open>Recovery and threshold\<close>

datatype verify_error = VBadLength | VBadRecoveryId u8 | VUnrecoverable | VInvalidSignerOrder
  | VNotEnoughSignatures u32 u32

definition host_eth_signed_digest :: "(bytes \<Rightarrow> bytes32) \<Rightarrow> bytes32 \<Rightarrow> bytes32" where
  "host_eth_signed_digest K sid = K (eth_prefix @ arr_bytes sid)"

text \<open>
  The recovery of crate k256, a parameter: digest, recovery id and \<open>r || s\<close> to the
  64 bytes of the public key.
\<close>

type_synonym recovery = "bytes32 \<Rightarrow> u8 \<Rightarrow> bytes \<Rightarrow> bytes option"

definition host_recover :: "(bytes \<Rightarrow> bytes32) \<Rightarrow> recovery \<Rightarrow> bytes32 \<Rightarrow> bytes \<Rightarrow> verify_error + address" where
  "host_recover K R digest sig65 =
     (if length sig65 \<noteq> 65 then Inl VBadLength
      else let v = sig65 ! 64 in
        if v \<noteq> 27 \<and> v \<noteq> 28 then Inl (VBadRecoveryId v)
        else case R digest (v - 27) (take 64 sig65) of
            None \<Rightarrow> Inl VUnrecoverable
          | Some pubkey \<Rightarrow> Inr (of_be (drop 12 (arr_bytes (K pubkey)))))"

fun host_verify_loop ::
  "(bytes \<Rightarrow> bytes32) \<Rightarrow> recovery \<Rightarrow> (address \<Rightarrow> bool) \<Rightarrow> bytes32 \<Rightarrow> address \<Rightarrow> u32 \<Rightarrow> bytes list \<Rightarrow>
   verify_error + u32" where
  "host_verify_loop K R is_val digest lst count [] = Inr count"
| "host_verify_loop K R is_val digest lst count (sig # sigs) =
     bind_res (host_recover K R digest sig) (\<lambda>signer.
     if signer \<le> lst then Inl VInvalidSignerOrder
     else host_verify_loop K R is_val digest signer (if is_val signer then count + 1 else count) sigs)"

definition host_verify_threshold ::
  "(bytes \<Rightarrow> bytes32) \<Rightarrow> recovery \<Rightarrow> bytes32 \<Rightarrow> bytes list \<Rightarrow> (address \<Rightarrow> bool) \<Rightarrow> u32 \<Rightarrow> verify_error + u32" where
  "host_verify_threshold K R sid signatures is_val want =
     bind_res (host_verify_loop K R is_val (host_eth_signed_digest K sid) 0 0 signatures) (\<lambda>count.
     if count < want then Inl (VNotEnoughSignatures count want) else Inr count)"

section \<open>Canonical signatures\<close>

definition SECP256K1_N :: bytes where
  "SECP256K1_N =
     [0xFF, 0xFF, 0xFF, 0xFF, 0xFF, 0xFF, 0xFF, 0xFF, 0xFF, 0xFF, 0xFF, 0xFF, 0xFF, 0xFF, 0xFF, 0xFE,
      0xBA, 0xAE, 0xDC, 0xE6, 0xAF, 0x48, 0xA0, 0x3B, 0xBF, 0xD2, 0x5E, 0x8C, 0xD0, 0x36, 0x41, 0x41]"

text \<open>The shift by one bit, from the most significant byte with the bit carried over.\<close>

fun half_loop :: "u8 \<Rightarrow> bytes \<Rightarrow> bytes" where
  "half_loop carry [] = []"
| "half_loop carry (b # bs) = or (drop_bit 1 b) (push_bit 7 carry) # half_loop (and b 1) bs"

text \<open>Arrays compare lexicographically.\<close>

fun bytes_gt :: "bytes \<Rightarrow> bytes \<Rightarrow> bool" where
  "bytes_gt (x # xs) (y # ys) = (x > y \<or> x = y \<and> bytes_gt xs ys)"
| "bytes_gt xs ys = (xs \<noteq> [] \<and> ys = [])"

definition is_high_s :: "bytes \<Rightarrow> bool" where
  "is_high_s s = bytes_gt s (half_loop 0 SECP256K1_N)"

text \<open>The subtraction with borrow, from the least significant byte; an \<open>i16\<close> holds every difference.\<close>

fun sub_loop :: "int \<Rightarrow> bytes \<Rightarrow> bytes \<Rightarrow> bytes" where
  "sub_loop borrow (n # ns) (s # ss) =
     (let diff = uint n - uint s - borrow in
      if diff < 0 then word_of_int (diff + 256) # sub_loop 1 ns ss
      else word_of_int diff # sub_loop 0 ns ss)"
| "sub_loop borrow _ _ = []"

definition canonical_signature :: "bytes \<Rightarrow> bytes option" where
  "canonical_signature sig65 =
     (if length sig65 \<noteq> 65 then None
      else do {
        v \<leftarrow> (if sig65 ! 64 = 0 \<or> sig65 ! 64 = 27 then Some 27
             else if sig65 ! 64 = 1 \<or> sig65 ! 64 = 28 then Some 28 else None);
        let r = take 32 sig65;
        let s = take 32 (drop 32 sig65);
        if is_high_s s
        then Some (r @ rev (sub_loop 0 (rev SECP256K1_N) (rev s)) @ [if v = 27 then 28 else 27])
        else Some (r @ s @ [v]) })"

section \<open>Values of byte strings\<close>

fun le_val :: "bytes \<Rightarrow> nat" where
  "le_val [] = 0"
| "le_val (b # bs) = unat b + 256 * le_val bs"

definition be_val :: "bytes \<Rightarrow> nat" where
  "be_val bs = le_val (rev bs)"

definition secp_n :: nat where
  "secp_n = 0xFFFFFFFFFFFFFFFFFFFFFFFFFFFFFFFEBAAEDCE6AF48A03BBFD25E8CD0364141"

lemma u8_less: "unat (b :: u8) < 256"
  using unsigned_less [of b, where ?'a = nat] by simp

lemma u8_of_int: "0 \<le> d \<Longrightarrow> d < 256 \<Longrightarrow> int (unat (word_of_int d :: u8)) = d"
  by (simp add: uint_word_of_int_eq take_bit_int_eq_self)

lemma le_val_append: "le_val (xs @ ys) = le_val xs + 256 ^ length xs * le_val ys"
  by (induction xs) (simp_all add: algebra_simps)

lemma le_val_less: "le_val bs < 256 ^ length bs"
proof (induction bs)
  case (Cons b bs)
  have "unat b + 256 * le_val bs < 256 + 256 * le_val bs" using u8_less by simp
  also have "\<dots> \<le> 256 * 256 ^ length bs" using Cons by simp
  finally show ?case by simp
qed simp

lemma be_val_Cons: "be_val (b # bs) = unat b * 256 ^ length bs + be_val bs"
  by (simp add: be_val_def le_val_append)

lemma be_val_Nil: "be_val [] = 0"
  by (simp add: be_val_def)

lemma be_val_less: "be_val bs < 256 ^ length bs"
  using le_val_less [of "rev bs"] by (simp add: be_val_def)

lemma le_val_le_bytes: "le_val (le_bytes n x) = unat (x :: 'a::len word) mod 256 ^ n"
proof (induction n arbitrary: x)
  case (Suc n)
  have "unat (ucast x :: u8) = unat x mod 256" by (simp add: unsigned_ucast_eq unsigned_take_bit_eq take_bit_eq_mod)
  moreover have "unat (drop_bit 8 x) = unat x div 256" 
    using unsigned_less [of x, where ?'a = nat]
    by (simp only: unsigned_drop_bit_eq take_bit_nat_eq_self) (simp add: drop_bit_eq_div)
  ultimately show ?case using Suc [of "drop_bit 8 x"] by (simp add: mod_mult2_eq)
qed simp

lemma be_val_arr_bytes: "be_val (arr_bytes v) = unat (v :: bytes32)"
  using unsigned_less [of v, where ?'a = nat] by (simp add: be_val_def arr_bytes_def be_bytes_def le_val_le_bytes)

lemma bytes_gt_val: "length xs = length ys \<Longrightarrow> bytes_gt xs ys \<longleftrightarrow> be_val xs > be_val ys"
proof (induction xs ys rule: list_induct2)
  case (Cons x xs y ys)
  have lt: "unat a * 256 ^ length xs + be_val as < unat b * 256 ^ length ys + be_val bs"
    if "unat a < unat b" "length as = length xs" for a b :: u8 and as bs
  proof -
    have "unat a * 256 ^ length xs + be_val as < (unat a + 1) * 256 ^ length xs"
      using be_val_less [of as] that(2) by simp
    also have "\<dots> \<le> unat b * 256 ^ length xs" using that(1) by (intro mult_le_mono1) simp
    finally show ?thesis using Cons.hyps by simp
  qed
  consider "x = y" | "unat x < unat y" | "unat y < unat x"
    using nat_neq_iff word_unat_eq_iff by blast
  then show ?case
  proof cases
    case 1
    then show ?thesis using Cons by (simp add: be_val_Cons)
  next
    case 2
    then show ?thesis using lt [OF 2, of xs ys] Cons.hyps by (auto simp: be_val_Cons word_less_nat_alt)
  next
    case 3
    then show ?thesis using lt [OF 3, of ys xs] Cons.hyps by (auto simp: be_val_Cons word_less_nat_alt)
  qed
qed simp

lemma half_value: "be_val (half_loop 0 SECP256K1_N) = secp_n div 2" and N_value: "be_val SECP256K1_N = secp_n"
  and half_length: "length (half_loop 0 SECP256K1_N) = 32" and N_length: "length SECP256K1_N = 32"
  by (simp_all add: SECP256K1_N_def secp_n_def be_val_def)

lemma is_high_s_iff: "length s = 32 \<Longrightarrow> is_high_s s \<longleftrightarrow> secp_n div 2 < be_val s"
  by (simp add: is_high_s_def bytes_gt_val half_length half_value)

lemma length_sub_loop: "length ns = length ss \<Longrightarrow> length (sub_loop b ns ss) = length ns"
  by (induction b ns ss rule: sub_loop.induct) (auto simp: Let_def)

text \<open>The loop computes the difference modulo the width; nothing is lost when it is not negative.\<close>

lemma sub_loop_val:
  assumes "length ns = length ss" "b = 0 \<or> b = 1"
  shows "\<exists>c. (c = 0 \<or> c = 1) \<and>
    int (le_val (sub_loop b ns ss)) = int (le_val ns) - int (le_val ss) - b + c * 256 ^ length ns"
  using assms
proof (induction b ns ss rule: sub_loop.induct)
  case (1 b n ns s ss)
  let ?d = "uint n - uint s - b"
  have "uint n < 256" "uint s < 256" using unsigned_less [of n, where ?'a = int] unsigned_less [of s, where ?'a = int] by simp_all
  moreover have "0 \<le> uint n" "0 \<le> uint s" by simp_all
  ultimately have r: "- 256 \<le> ?d" "?d < 256" using 1(4) by linarith+
  show ?case
  proof (cases "?d < 0")
    case True
    then obtain c where c: "c = 0 \<or> c = 1"
      "int (le_val (sub_loop 1 ns ss)) = int (le_val ns) - int (le_val ss) - 1 + c * 256 ^ length ns"
      using 1(1) [OF refl True] 1(3) by auto
    have "int (unat (word_of_int (?d + 256) :: u8)) = ?d + 256"
      using True r by (intro u8_of_int) simp_all
    then have "int (le_val (sub_loop b (n # ns) (s # ss))) = ?d + 256 + 256 * int (le_val (sub_loop 1 ns ss))"
      using True by (simp add: Let_def)
    then show ?thesis using c by (intro exI [of _ c]) (auto simp: algebra_simps)
  next
    case False
    then obtain c where c: "c = 0 \<or> c = 1"
      "int (le_val (sub_loop 0 ns ss)) = int (le_val ns) - int (le_val ss) + c * 256 ^ length ns"
      using 1(2) [OF refl False] 1(3) by auto
    have "int (unat (word_of_int ?d :: u8)) = ?d"
      using False r by (intro u8_of_int) simp_all
    then have "int (le_val (sub_loop b (n # ns) (s # ss))) = ?d + 256 * int (le_val (sub_loop 0 ns ss))"
      using False by (simp add: Let_def)
    then show ?thesis using c by (intro exI [of _ c]) (auto simp: algebra_simps)
  qed
qed auto

lemma order_minus:
  assumes "length s = 32" "be_val s \<le> secp_n"
  shows "be_val (rev (sub_loop 0 (rev SECP256K1_N) (rev s))) = secp_n - be_val s"
proof -
  let ?l = "sub_loop 0 (rev SECP256K1_N) (rev s)"
  have len: "length (rev SECP256K1_N) = length (rev s)" using assms(1) by (simp add: N_length)
  obtain c where c: "c = 0 \<or> c = 1"
    and v: "int (le_val ?l) = int secp_n - int (be_val s) + c * 256 ^ 32"
    using sub_loop_val [OF len, of 0] N_value N_length by (auto simp: be_val_def)
  have "int (le_val ?l) < 256 ^ 32"
    using le_val_less [of ?l] length_sub_loop [OF len, of 0] by (simp add: N_length flip: of_nat_less_iff)
  then have "c = 0" using c v assms(2) by auto
  then show ?thesis using v assms(2) by (simp add: be_val_def of_nat_diff [symmetric])
qed

section \<open>The canonical form\<close>

definition sig_r :: "bytes \<Rightarrow> bytes" where "sig_r sig = take 32 sig"
definition sig_s :: "bytes \<Rightarrow> nat" where "sig_s sig = be_val (take 32 (drop 32 sig))"

text \<open>The parity bit of the recovery id, in either of the two encodings.\<close>

definition sig_parity :: "bytes \<Rightarrow> bool option" where
  "sig_parity sig =
     (if sig ! 64 = 0 \<or> sig ! 64 = 27 then Some False
      else if sig ! 64 = 1 \<or> sig ! 64 = 28 then Some True else None)"

lemma sig_split:
  assumes "length sig = 65"
  shows "sig = sig_r sig @ take 32 (drop 32 sig) @ [sig ! 64]"
proof -
  have "drop 64 sig = [sig ! 64]" using assms Cons_nth_drop_Suc [of 64 sig] by simp
  then have "take 32 (drop 32 sig) @ [sig ! 64] = drop 32 sig"
    using append_take_drop_id [of 32 "drop 32 sig"] by simp
  then show ?thesis by (simp add: sig_r_def)
qed

lemma sig_parts:
  assumes "length r = 32" "length s = 32"
  shows "length (r @ s @ [v]) = 65" "sig_r (r @ s @ [v]) = r" "sig_s (r @ s @ [v]) = be_val s" "(r @ s @ [v]) ! 64 = v"
  using assms by (simp_all add: sig_r_def sig_s_def nth_append)

text \<open>
  The canonical form of a signature exists exactly for 65 bytes with a recovery id
  0, 1, 27 or 28. It keeps r; it replaces an s above half the group order by its
  negation modulo the order and then flips the parity, so it denotes the same signer;
  its s is at most half the order and its recovery id 27 or 28, the only form the
  gates accept; and it is its own canonical form.
\<close>

theorem canonical_signature_exact:
  assumes "length sig = 65" "sig_s sig < secp_n" "sig_parity sig = Some par"
  shows "\<exists>out. canonical_signature sig = Some out \<and> length out = 65 \<and> sig_r out = sig_r sig \<and>
    sig_s out = (if secp_n div 2 < sig_s sig then secp_n - sig_s sig else sig_s sig) \<and>
    sig_parity out = Some (par \<noteq> (secp_n div 2 < sig_s sig)) \<and> (out ! 64 = 27 \<or> out ! 64 = 28) \<and>
    sig_s out \<le> secp_n div 2 \<and> canonical_signature out = Some out"
proof -
  let ?r = "take 32 sig" and ?s = "take 32 (drop 32 sig)"
  let ?low = "rev (sub_loop 0 (rev SECP256K1_N) (rev ?s))"
  let ?v = "if par then 28 else 27 :: u8" and ?w = "if par then 27 else 28 :: u8"
  have l: "length ?r = 32" "length ?s = 32" "length ?low = 32"
    using assms(1) by (simp_all add: length_sub_loop N_length)
  have h: "is_high_s ?s \<longleftrightarrow> secp_n div 2 < sig_s sig" by (simp add: is_high_s_iff [OF l(2)] sig_s_def)
  have low: "be_val ?low = secp_n - sig_s sig"
    using order_minus [OF l(2)] assms(2) by (simp add: sig_s_def)
  have c: "canonical_signature sig = Some (if is_high_s ?s then ?r @ ?low @ [?w] else ?r @ ?s @ [?v])"
    using assms(1,3) by (auto simp: canonical_signature_def sig_parity_def Let_def split: if_splits)
  have idem: "canonical_signature (?r @ s @ [v]) = Some (?r @ s @ [v])"
    if "length s = 32" "\<not> is_high_s s" "v = 27 \<or> v = 28" for s v
    using that l(1) sig_parts [OF l(1) that(1), of v] by (auto simp: canonical_signature_def Let_def)
  show ?thesis
  proof (cases "is_high_s ?s")
    case True
    have "secp_n - sig_s sig \<le> secp_n div 2" using True h by linarith
    then have n: "\<not> is_high_s ?low" by (simp add: is_high_s_iff [OF l(3)] low)
    show ?thesis
      using c True h low idem [OF l(3) n] sig_parts [OF l(1,3)] is_high_s_iff [OF l(3)] n
      by (intro exI [of _ "?r @ ?low @ [?w]"]) (auto simp: sig_parity_def sig_r_def)
  next
    case False
    show ?thesis
      using c False h idem [OF l(2) False] sig_parts [OF l(1,2)]
      by (intro exI [of _ "?r @ ?s @ [?v]"]) (auto simp: sig_parity_def sig_r_def sig_s_def)
  qed
qed

text \<open>The signature with s one below the group order and recovery id 0 becomes s = 1 with id 28.\<close>

definition demo_high_sig :: bytes where
  "demo_high_sig = replicate 32 7 @ (butlast SECP256K1_N @ [0x40]) @ [0]"

theorem canonical_signature_exact_witness:
  "\<exists>out. canonical_signature demo_high_sig = Some out \<and> sig_r out = replicate 32 7 \<and> sig_s out = 1 \<and> out ! 64 = 28"
proof -
  have l: "length (butlast SECP256K1_N @ [0x40]) = 32" by (simp add: N_length)
  note p = sig_parts [of "replicate 32 7", OF _ l, of 0, folded demo_high_sig_def, simplified]
  have s: "sig_s demo_high_sig = secp_n - 1"
    unfolding p by (simp add: SECP256K1_N_def secp_n_def be_val_def)
  have n: "sig_s demo_high_sig < secp_n" "secp_n div 2 < sig_s demo_high_sig" unfolding s by (simp_all add: secp_n_def)
  have par: "sig_parity demo_high_sig = Some False" by (simp add: sig_parity_def p)
  obtain out where "canonical_signature demo_high_sig = Some out" "sig_r out = sig_r demo_high_sig"
    "sig_s out = secp_n - sig_s demo_high_sig" "sig_parity out = Some True" "out ! 64 = 27 \<or> out ! 64 = 28"
    using canonical_signature_exact [OF p(1) n(1) par] n(2) by auto
  then show ?thesis using p(2) s by (auto simp: sig_parity_def secp_n_def)
qed

end
