(* ===== verification/HostAbi.thy ===== *)
theory HostAbi
  imports HostIds
begin

text \<open>
  The execution payload of a transfer as the EVM side carries it, the blob
  \<open>abi.encode(AutoParamsTo)\<close>, against the form the gate hashes (\<open>bridge-solana\<close>,
  relayer.rs). Offsets and lengths are \<open>usize\<close> of 64 bits, written as naturals with
  the checks for overflow; a range past the end of the data does not exist.
\<close>

section \<open>Definitions\<close>

datatype auto_error = AbiMalformed string | AbiUnrepresentable string

definition abi_word :: "bytes \<Rightarrow> nat \<Rightarrow> auto_error + bytes" where
  "abi_word blob pos =
     (if pos + 32 \<le> length blob then Inr (take 32 (drop pos blob)) else Inl (AbiMalformed ''truncated word''))"

definition abi_usize :: "bytes \<Rightarrow> nat \<Rightarrow> auto_error + nat" where
  "abi_usize blob pos =
     bind_res (abi_word blob pos) (\<lambda>w.
     if list_ex (\<lambda>b. b \<noteq> 0) (take 24 w) then Inl (AbiMalformed ''offset/length too large'')
     else Inr (unat (of_be (drop 24 w) :: u64)))"

definition usize_add :: "nat \<Rightarrow> nat \<Rightarrow> nat option" where
  "usize_add a b = (if a + b < 2 ^ 64 then Some (a + b) else None)"

definition abi_bytes :: "bytes \<Rightarrow> nat \<Rightarrow> nat \<Rightarrow> auto_error + bytes" where
  "abi_bytes blob base head =
     bind_res (abi_usize blob head) (\<lambda>rel.
     bind_res (ok_or (usize_add base rel) (AbiMalformed ''offset overflow'')) (\<lambda>off.
     bind_res (abi_usize blob off) (\<lambda>len.
     let start = off + 32 in
     bind_res (ok_or (usize_add start len) (AbiMalformed ''length overflow'')) (\<lambda>stop.
     if stop \<le> length blob then Inr (take len (drop start blob))
     else Inl (AbiMalformed ''bytes run past the blob'')))))"

definition decode_evm_auto_params :: "bytes \<Rightarrow> auto_error + auto_params option" where
  "decode_evm_auto_params blob =
     (if blob = [] then Inr None
      else
        bind_res (abi_usize blob 0) (\<lambda>base.
        if base \<noteq> 32 then Inl (AbiMalformed ''tuple offset is not 0x20'')
        else
        bind_res (abi_word blob base) (\<lambda>fee.
        bind_res (abi_word blob (base + 32)) (\<lambda>flags.
        if list_ex (\<lambda>b. b \<noteq> 0) (take 16 fee) then Inl (AbiUnrepresentable ''executionFee'')
        else if list_ex (\<lambda>b. b \<noteq> 0) (take 24 flags) then Inl (AbiUnrepresentable ''flags'')
        else
        bind_res (abi_bytes blob base (base + 64)) (\<lambda>fallback.
        bind_res (abi_bytes blob base (base + 96)) (\<lambda>payload.
        Inr (Some \<lparr>ap_execution_fee = of_be (drop 16 fee), ap_flags = of_be (drop 24 flags),
                   ap_fallback_address = fallback, ap_data = payload\<rparr>)))))))"

definition enc_word :: "u128 \<Rightarrow> bytes" where
  "enc_word v = replicate 16 0 @ be_bytes 16 v"

definition enc_padded :: "bytes \<Rightarrow> bytes" where
  "enc_padded b = enc_word (of_nat (length b)) @ b @ replicate ((length b + 31) div 32 * 32 - length b) 0"

definition encode_evm_auto_params :: "auto_params \<Rightarrow> bytes" where
  "encode_evm_auto_params w =
     (let fallback = enc_padded (ap_fallback_address w); payload = enc_padded (ap_data w) in
      enc_word 32 @ enc_word (ap_execution_fee w) @ enc_word (ucast (ap_flags w)) @ enc_word 128 @
      enc_word (128 + of_nat (length fallback)) @ fallback @ payload)"

section \<open>Round trip\<close>

lemma length_enc_word [simp]: "length (enc_word v) = 32"
  by (simp add: enc_word_def)

lemma enc_word_narrow: "enc_word (ucast (v :: u64)) = be32 v"
proof -
  have "replicate 16 0 @ replicate 8 0 @ be_bytes 8 v = (replicate 24 0 @ be_bytes 8 v :: bytes)"
    unfolding append_assoc [symmetric] replicate_add [symmetric] by simp
  then show ?thesis using be_bytes_widen [of 8 16 v, where 'b = 128] by (simp add: enc_word_def be32_def)
qed

lemma of_nat_narrow:
  assumes "n < 2 ^ 64"
  shows "(of_nat n :: u128) = ucast (of_nat n :: u64)"
proof -
  have "take_bit 128 n = n" using assms by (simp add: take_bit_nat_eq_self)
  then show ?thesis using assms by (simp add: word_unat_eq_iff unat_of_nat unsigned_ucast_eq)
qed

text \<open>Reading a word that was written at a position.\<close>

lemma abi_word_at: "length pre = pos \<Longrightarrow> length w = 32 \<Longrightarrow> abi_word (pre @ w @ rest) pos = Inr w"
  by (auto simp: abi_word_def)

lemma abi_usize_at:
  assumes "length pre = pos" "n < 2 ^ 64"
  shows "abi_usize (pre @ enc_word (of_nat n) @ rest) pos = Inr n"
proof -
  have e: "enc_word (of_nat n) = be32 (of_nat n)" unfolding of_nat_narrow [OF assms(2)] by (rule enc_word_narrow)
  have "unat (of_nat n :: u64) = n" using assms(2) by (simp add: unat_of_nat)
  then show ?thesis
    unfolding e abi_usize_def abi_word_at [OF assms(1) length_be32]
    by (simp add: be32_def of_be_bytes_full list_ex_iff)
qed

lemma abi_bytes_at:
  assumes "abi_usize blob head = Inr rel" "base + rel = length pre" "blob = pre @ enc_padded b @ rest"
    and "length blob < 2 ^ 64"
  shows "abi_bytes blob base head = Inr b"
proof -
  have l: "length blob = length pre + 32 + length b + ((length b + 31) div 32 * 32 - length b) + length rest"
    by (simp add: assms(3) enc_padded_def)
  have s: "abi_usize blob (length pre) = Inr (length b)"
    unfolding assms(3) enc_padded_def append_assoc by (rule abi_usize_at) (use assms(4) l in simp_all)
  show ?thesis
    using assms(1,2,4) s l unfolding abi_bytes_def
    by (simp add: usize_add_def Let_def) (simp add: assms(3) enc_padded_def)
qed

lemma evm_auto_decodes:
  assumes "length (encode_evm_auto_params a) < 2 ^ 64"
  shows "decode_evm_auto_params (encode_evm_auto_params a) = Inr (Some a)"
proof -
  let ?fb = "enc_padded (ap_fallback_address a)" and ?pl = "enc_padded (ap_data a)"
  define blob where "blob = encode_evm_auto_params a"
  define head where "head = enc_word (of_nat 32) @ enc_word (ap_execution_fee a) @ enc_word (ucast (ap_flags a)) @
    enc_word (of_nat 128) @ enc_word (of_nat (128 + length ?fb))"
  have e: "blob = head @ ?fb @ ?pl" by (simp add: blob_def head_def encode_evm_auto_params_def Let_def)
  have lh: "length head = 160" by (simp add: head_def)
  have lb: "160 + length ?fb + length ?pl < 2 ^ 64" using assms lh by (simp add: e flip: blob_def)
  note parts = e [unfolded head_def append_assoc]
  have base: "abi_usize blob 0 = Inr 32"
    unfolding parts using abi_usize_at [of "[]" 0 32] by simp
  have fee: "abi_word blob 32 = Inr (enc_word (ap_execution_fee a))"
    unfolding parts by (rule abi_word_at) simp_all
  have flags: "abi_word blob 64 = Inr (enc_word (ucast (ap_flags a)))"
    unfolding parts using abi_word_at [of "enc_word (of_nat 32) @ enc_word (ap_execution_fee a)" 64] by simp
  have h1: "abi_usize blob 96 = Inr 128"
    unfolding parts
    using abi_usize_at [of "enc_word (of_nat 32) @ enc_word (ap_execution_fee a) @ enc_word (ucast (ap_flags a))" 96 128]
    by simp
  have h2: "abi_usize blob 128 = Inr (128 + length ?fb)"
    unfolding parts
    using lb abi_usize_at [of "enc_word (of_nat 32) @ enc_word (ap_execution_fee a) @ enc_word (ucast (ap_flags a)) @
      enc_word (of_nat 128)" 128 "128 + length ?fb"]
    by simp
  have lt: "length blob < 2 ^ 64" using assms by (simp add: blob_def)
  have fb: "abi_bytes blob 32 96 = Inr (ap_fallback_address a)"
    by (rule abi_bytes_at [OF h1 _ e lt]) (simp add: lh)
  have pl: "abi_bytes blob 32 128 = Inr (ap_data a)"
    by (rule abi_bytes_at [OF h2, of _ "head @ ?fb" _ "[]"]) (use lt in \<open>simp_all add: lh e\<close>)
  have "blob \<noteq> []" using lh by (auto simp: e)
  then show ?thesis
    unfolding blob_def [symmetric] decode_evm_auto_params_def
    by (simp add: base fee flags fb pl)
      (simp add: enc_word_narrow, simp add: enc_word_def be32_def of_be_bytes_full list_ex_iff)
qed

text \<open>
  The payload of every transfer a Solana gate can emit survives the EVM encoding:
  decoding the blob that was written gives back the payload, so the id that the
  store, the validators and the gates compute from it is the same.
\<close>

theorem evm_auto_roundtrip:
  assumes "length (encode_evm_auto_params a) < 2 ^ 64"
  shows "decode_evm_auto_params (encode_evm_auto_params a) = Inr (Some a)"
  using assms by (rule evm_auto_decodes)

theorem evm_auto_roundtrip_witness:
  "decode_evm_auto_params (encode_evm_auto_params
     \<lparr>ap_execution_fee = 7, ap_flags = 1, ap_fallback_address = replicate 20 9, ap_data = [1, 2, 3]\<rparr>) =
   Inr (Some \<lparr>ap_execution_fee = 7, ap_flags = 1, ap_fallback_address = replicate 20 9, ap_data = [1, 2, 3]\<rparr>)"
  by (rule evm_auto_roundtrip) (simp add: encode_evm_auto_params_def enc_padded_def Let_def)

end
