(* ===== verification/RelayerTarget.thy ===== *)
theory RelayerTarget
  imports HostVerify HostAbi GateWire RustStr
begin

text \<open>
  The Solana relayer as a submitter (\<open>crates/solana-relayer\<close>, gate.rs and target.rs):
  reading the gate's accounts, checking a stored record against this gate, choosing
  and ordering the signatures, and building the instruction. The hexadecimal decoder
  of crate hex and the recovery of crate libsecp256k1 are parameters.
\<close>

section \<open>Reading the gate\<close>

record config_view =
  cv_owner :: bytes32
  cv_bridge_domain :: bytes32
  cv_guardian :: bytes32
  cv_validators :: "address list"
  cv_threshold :: u32
  cv_chain_id :: u64
  cv_paused :: bool

definition de_config_view :: "config_view parser" where
  "de_config_view bs = do {
     (o1, bs) \<leftarrow> de_arr bs; (d, bs) \<leftarrow> de_arr bs; (g, bs) \<leftarrow> de_arr bs;
     (vs, bs) \<leftarrow> de_vec de_arr bs; (th, bs) \<leftarrow> de_word bs; (ci, bs) \<leftarrow> de_word bs;
     (pa, bs) \<leftarrow> de_bool bs;
     Some (\<lparr>cv_owner = o1, cv_bridge_domain = d, cv_guardian = g, cv_validators = vs, cv_threshold = th,
            cv_chain_id = ci, cv_paused = pa\<rparr>, bs) }"

record gate_view =
  gv_validators :: "address list"
  gv_threshold :: u32
  gv_bridge_domain :: bytes32

definition decode_config_view :: "bytes \<Rightarrow> config_view option" where
  "decode_config_view d = deserialize de_config_view d"

definition decode_gate_config :: "bytes \<Rightarrow> gate_view option" where
  "decode_gate_config d = do {
     view \<leftarrow> decode_config_view d;
     if cv_validators view = [] then None
     else Some \<lparr>gv_validators = cv_validators view, gv_threshold = cv_threshold view,
                gv_bridge_domain = cv_bridge_domain view\<rparr> }"

definition LEGACY_ASSET_LEN :: nat where "LEGACY_ASSET_LEN = 32 * 3"

definition asset_vault :: "bool \<Rightarrow> bytes \<Rightarrow> bytes32 \<Rightarrow> bytes32 option" where
  "asset_vault owner_is_program d did =
     (if \<not> owner_is_program then None
      else do {
        (recorded, vault) \<leftarrow>
          (if length d = LEGACY_ASSET_LEN \<or> length d = LEGACY_ASSET_LEN + 1 then do {
             (i, bs) \<leftarrow> de_arr (take LEGACY_ASSET_LEN d); (_ :: bytes32, bs) \<leftarrow> de_arr bs; (v, bs) \<leftarrow> de_arr bs;
             Some (i, v) }
           else do { a \<leftarrow> deserialize de_asset_config d; Some (as_debridge_id a, as_vault a) });
        if recorded = did then Some vault else None })"

definition asset_bridge_unit :: "bytes \<Rightarrow> u64 option" where
  "asset_bridge_unit d =
     (if length d = LEGACY_ASSET_LEN \<or> length d = LEGACY_ASSET_LEN + 1 then Some 1
      else do {
        a \<leftarrow> deserialize de_asset_config d;
        ex \<leftarrow> checked_sub (as_local_decimals a) (as_bridge_decimals a);
        checked_pow 10 (unat ex) })"

section \<open>Records\<close>

type_synonym hex_decoder = "rust_str \<Rightarrow> bytes option"

definition hex_bytes :: "hex_decoder \<Rightarrow> rust_str \<Rightarrow> bytes option" where
  "hex_bytes H s =
     (let s = (case strip_prefix s (rstr ''0x'') of Some t \<Rightarrow> t | None \<Rightarrow> s) in
      if s = [] then Some [] else H s)"

definition hex32 :: "hex_decoder \<Rightarrow> rust_str \<Rightarrow> bytes32 option" where
  "hex32 H s = do { b \<leftarrow> hex_bytes H s; if length b = 32 then Some (of_be b) else None }"

record signer_sig =
  ss_signer :: rust_str
  ss_signature :: rust_str

record submission_record =
  rc_submission_id :: rust_str
  rc_bridge_domain :: rust_str
  rc_debridge_id :: rust_str
  rc_amount :: rust_str
  rc_bridge_decimals :: "u8 option"
  rc_chain_id_from :: u64
  rc_chain_id_to :: u64
  rc_nonce :: u64
  rc_receiver :: rust_str
  rc_auto_params :: rust_str
  rc_native_sender :: rust_str
  rc_token :: rust_str
  rc_signatures :: "signer_sig list"
  rc_cancel_signatures :: "signer_sig list"
  rc_refund_signatures :: "signer_sig list"

datatype unencodable = UAutoParams auto_error | UAmount | UField string | UIdMismatch
  | UDomainMismatch bytes32 bytes32

record encodable_record =
  en_id :: bytes32
  en_debridge_id :: bytes32
  en_amount :: u64
  en_bridge_decimals :: u8
  en_receiver :: bytes
  en_native_sender :: bytes
  en_auto :: "auto_params option"

definition recomputed_id ::
  "(bytes \<Rightarrow> bytes32) \<Rightarrow> bytes32 \<Rightarrow> bytes32 \<Rightarrow> u8 \<Rightarrow> u64 \<Rightarrow> u64 \<Rightarrow> u64 \<Rightarrow> u64 \<Rightarrow> bytes \<Rightarrow>
   auto_params option \<Rightarrow> bytes \<Rightarrow> bytes32" where
  "recomputed_id K domain did bd amount chain_from chain_to nonce receiver auto sender =
     (let word = host_amount_word (ucast amount) in
      case auto of
        None \<Rightarrow> host_submission_id K domain did bd word chain_from chain_to nonce receiver
      | Some w \<Rightarrow> host_submission_id_with_auto K domain did bd word chain_from chain_to nonce receiver
          (wire_to_auto w sender))"

definition encodable ::
  "(bytes \<Rightarrow> bytes32) \<Rightarrow> hex_decoder \<Rightarrow> submission_record \<Rightarrow> bytes32 \<Rightarrow> unencodable + encodable_record" where
  "encodable K H rc gate_domain =
     bind_res (ok_or (hex32 H (rc_submission_id rc)) (UField ''submission_id'')) (\<lambda>sid.
     bind_res (ok_or (hex32 H (rc_bridge_domain rc)) (UField ''bridge_domain'')) (\<lambda>domain.
     if domain \<noteq> gate_domain then Inl (UDomainMismatch domain gate_domain)
     else
     bind_res (ok_or (hex32 H (rc_debridge_id rc)) (UField ''debridge_id'')) (\<lambda>did.
     bind_res (ok_or (hex_bytes H (rc_receiver rc)) (UField ''receiver'')) (\<lambda>receiver.
     bind_res (ok_or (hex_bytes H (rc_native_sender rc)) (UField ''native_sender'')) (\<lambda>sender.
     bind_res (ok_or (parse_uint (rc_amount rc)) UAmount) (\<lambda>amount :: u64.
     bind_res (ok_or (rc_bridge_decimals rc) (UField ''bridge_decimals'')) (\<lambda>bd.
     bind_res (ok_or (hex_bytes H (rc_auto_params rc)) (UField ''auto_params'')) (\<lambda>blob.
     bind_res (map_err UAutoParams (decode_evm_auto_params blob)) (\<lambda>auto.
     let recomputed = recomputed_id K domain did bd amount (rc_chain_id_from rc) (rc_chain_id_to rc)
           (rc_nonce rc) receiver auto sender in
     if recomputed \<noteq> sid then Inl UIdMismatch
     else Inr \<lparr>en_id = sid, en_debridge_id = did, en_amount = amount, en_bridge_decimals = bd,
               en_receiver = receiver, en_native_sender = sender, en_auto = auto\<rparr>)))))))))"

section \<open>Signatures\<close>

text \<open>
  The recovery of crate libsecp256k1: parsing of the recovery id and of the signature
  and the recovery itself, to the 64 bytes of the public key.
\<close>

definition recovered_address :: "(bytes \<Rightarrow> bytes32) \<Rightarrow> recovery \<Rightarrow> bytes32 \<Rightarrow> bytes \<Rightarrow> address option" where
  "recovered_address K R digest sig65 =
     (if length sig65 \<noteq> 65 then None
      else do {
        recid \<leftarrow> checked_sub (sig65 ! 64) 27;
        pubkey \<leftarrow> R digest recid (take 64 sig65);
        Some (of_be (drop 12 (arr_bytes (K pubkey)))) })"

text \<open>\<open>dedup_by_key\<close> keeps the first of a run of elements with one key.\<close>

fun dedup_by_key :: "('a \<Rightarrow> 'b) \<Rightarrow> 'a list \<Rightarrow> 'a list" where
  "dedup_by_key f (x # y # ys) =
     (if f x = f y then dedup_by_key f (x # ys) else x # dedup_by_key f (y # ys))"
| "dedup_by_key f xs = xs"

definition ordered_signatures ::
  "(bytes \<Rightarrow> bytes32) \<Rightarrow> recovery \<Rightarrow> bytes32 \<Rightarrow> bytes list \<Rightarrow> gate_view \<Rightarrow> bytes list" where
  "ordered_signatures K R digest_input raw cfg =
     (let digest = host_eth_signed_digest K digest_input;
          with_addr = filter (\<lambda>(a, _). a \<in> set (gv_validators cfg))
            (List.map_filter (\<lambda>s. map_option (\<lambda>a. (a, s)) (recovered_address K R digest s))
              (List.map_filter canonical_signature raw));
          sorted = dedup_by_key fst (sort_key fst with_addr) in
      map snd (take (min (unat (gv_threshold cfg)) (length (gv_validators cfg))) sorted))"

section \<open>Instructions\<close>

definition claim_instruction_data :: "claim_args \<Rightarrow> bytes option" where
  "claim_instruction_data args = map_option (\<lambda>b. 2 # b) (ser_claim_args args)"

definition cancel_instruction_data :: "cancel_args \<Rightarrow> bytes option" where
  "cancel_instruction_data args = map_option (\<lambda>b. 10 # b) (ser_cancel_args args)"

definition refund_instruction_data :: "refund_args \<Rightarrow> bytes option" where
  "refund_instruction_data args = map_option (\<lambda>b. 11 # b) (ser_refund_args args)"

text \<open>The arguments \<open>try_claim\<close>, \<open>try_cancel\<close> and \<open>try_refund\<close> build.\<close>

definition claim_of_record :: "encodable_record \<Rightarrow> submission_record \<Rightarrow> bytes list \<Rightarrow> claim_args" where
  "claim_of_record enc rc sigs =
     \<lparr>ca_debridge_id = en_debridge_id enc, ca_amount = en_amount enc,
      ca_bridge_decimals = en_bridge_decimals enc, ca_chain_id_from = rc_chain_id_from rc,
      ca_nonce = rc_nonce rc, ca_receiver = en_receiver enc, ca_auto = en_auto enc,
      ca_native_sender = en_native_sender enc, ca_signatures = sigs\<rparr>"

definition cancel_of_record :: "encodable_record \<Rightarrow> submission_record \<Rightarrow> bytes list \<Rightarrow> cancel_args" where
  "cancel_of_record enc rc sigs =
     \<lparr>xa_debridge_id = en_debridge_id enc, xa_amount = en_amount enc,
      xa_bridge_decimals = en_bridge_decimals enc, xa_chain_id_from = rc_chain_id_from rc,
      xa_nonce = rc_nonce rc, xa_receiver = en_receiver enc, xa_auto = en_auto enc,
      xa_native_sender = en_native_sender enc, xa_signatures = sigs\<rparr>"

definition refund_of_record :: "encodable_record \<Rightarrow> submission_record \<Rightarrow> bytes list \<Rightarrow> refund_args" where
  "refund_of_record enc rc sigs =
     \<lparr>ra_debridge_id = en_debridge_id enc, ra_amount = en_amount enc,
      ra_bridge_decimals = en_bridge_decimals enc, ra_chain_id_to = rc_chain_id_to rc,
      ra_nonce = rc_nonce rc, ra_receiver = en_receiver enc, ra_auto = en_auto enc,
      ra_native_sender = en_native_sender enc, ra_signatures = sigs\<rparr>"

text \<open>The raw signatures of a record, and the decision to submit.\<close>

definition raw_signatures :: "hex_decoder \<Rightarrow> signer_sig list \<Rightarrow> bytes list" where
  "raw_signatures H sigs = List.map_filter (\<lambda>s. hex_bytes H (ss_signature s)) sigs"

definition claim_submission ::
  "(bytes \<Rightarrow> bytes32) \<Rightarrow> recovery \<Rightarrow> hex_decoder \<Rightarrow> submission_record \<Rightarrow> gate_view \<Rightarrow> claim_args option" where
  "claim_submission K R H rc g =
     (case encodable K H rc (gv_bridge_domain g) of
        Inl _ \<Rightarrow> None
      | Inr enc \<Rightarrow>
          if length (en_receiver enc) \<noteq> 32 then None
          else let sigs = ordered_signatures K R (en_id enc) (raw_signatures H (rc_signatures rc)) g in
            if length sigs < unat (gv_threshold g) then None else Some (claim_of_record enc rc sigs))"

section \<open>The id of an encodable record\<close>

lemma recomputed_agrees:
  "recomputed_id (keccak E) domain did bd amount cf ct nonce receiver auto ns =
   submission_id E domain did bd amount cf ct nonce receiver auto ns"
  by (simp add: recomputed_id_def host_id_agrees Let_def)

lemma encodable_id:
  assumes "encodable (keccak E) H rc domain = Inr enc"
  shows "en_id enc = submission_id E domain (en_debridge_id enc) (en_bridge_decimals enc) (en_amount enc)
    (rc_chain_id_from rc) (rc_chain_id_to rc) (rc_nonce rc) (en_receiver enc) (en_auto enc) (en_native_sender enc)"
  using assms unfolding encodable_def Let_def recomputed_agrees by (auto simp: res_simps)

section \<open>The gate's accounts, read from outside\<close>

lemma config_view_of:
  assumes "deserialize de_config d = Some cfg" "validators cfg \<noteq> []"
  shows "decode_gate_config d =
    Some \<lparr>gv_validators = validators cfg, gv_threshold = threshold cfg, gv_bridge_domain = bridge_domain cfg\<rparr>"
  using assms
  by (auto simp: deserialize_def de_config_def decode_gate_config_def decode_config_view_def de_config_view_def
      split: Option.bind_splits)

lemma asset_vault_agrees:
  assumes "decode_asset_config d = Inr a"
  shows "asset_vault True d (as_debridge_id a) = Some (as_vault a)"
proof (cases "length d = LEGACY_ASSET_CONFIG_LEN \<or> length d = LEGACY_ASSET_CONFIG_LEN + 1")
  case True
  have l: "LEGACY_ASSET_LEN = LEGACY_ASSET_CONFIG_LEN" by (simp add: LEGACY_ASSET_LEN_def LEGACY_ASSET_CONFIG_LEN_def)
  obtain did bs m bs' v bs'' where
    "de_arr (take LEGACY_ASSET_CONFIG_LEN d) = Some (did, bs)" "de_arr bs = Some (m, bs')" "de_arr bs' = Some (v, bs'')"
    "a = \<lparr>as_debridge_id = did, as_mint = m, as_vault = v, as_bridge_decimals = 0, as_local_decimals = 0\<rparr>"
    using assms True unfolding decode_asset_config_def Let_def if_P [OF True] res_simps by (auto simp: res_simps)
  then show ?thesis using True by (simp add: asset_vault_def l)
next
  case False
  then show ?thesis
    using assms by (simp add: decode_asset_config_def asset_vault_def LEGACY_ASSET_LEN_def LEGACY_ASSET_CONFIG_LEN_def res_simps)
qed

lemma asset_bridge_unit_agrees:
  assumes "decode_asset_config d = Inr a"
  shows "asset_bridge_unit d = bridge_unit (as_local_decimals a) (as_bridge_decimals a)"
  using assms
  by (auto simp: decode_asset_config_def asset_bridge_unit_def LEGACY_ASSET_LEN_def LEGACY_ASSET_CONFIG_LEN_def
      bridge_unit_def checked_sub_def checked_pow_def res_simps Let_def split: if_splits)

end
