(* ===== verification/RelayerQuorum.thy ===== *)
theory RelayerQuorum
  imports RelayerTarget
begin

text \<open>
  The submitter and the gate agree: from whatever the store holds, the relayer builds
  an instruction whose signatures the gate accepts as soon as a quorum is among them.
\<close>

section \<open>The two recoveries\<close>

text \<open>
  The off-chain recovery refuses an s outside the group order, and agrees with the
  runtime's on the signatures the runtime accepts, those with a low s.
\<close>

definition recovery_agrees :: "env \<Rightarrow> recovery \<Rightarrow> bool" where
  "recovery_agrees E R \<longleftrightarrow>
     (\<forall>d v rs. length rs = 64 \<longrightarrow>
        (\<forall>pk. R d v rs = Some pk \<longrightarrow> sig_s rs < secp_n) \<and>
        (sig_s rs \<le> secp_n div 2 \<longrightarrow> secp256k1_recover E d v rs = R d v rs))"

lemma sig_s_take: "length sig = 65 \<Longrightarrow> sig_s (take 64 sig) = sig_s sig"
  by (simp add: sig_s_def drop_take)

lemma order_minus_large:
  assumes "length s = 32" "secp_n < be_val s"
  shows "secp_n < be_val (rev (sub_loop 0 (rev SECP256K1_N) (rev s)))"
proof -
  let ?l = "sub_loop 0 (rev SECP256K1_N) (rev s)"
  have len: "length (rev SECP256K1_N) = length (rev s)" using assms(1) by (simp add: N_length)
  obtain c where c: "c = 0 \<or> c = 1"
    and v: "int (le_val ?l) = int secp_n - int (be_val s) + c * 256 ^ 32"
    using sub_loop_val [OF len, of 0] N_value N_length by (auto simp: be_val_def)
  have "c = 1" using c v assms(2) by auto
  moreover have "be_val s < 256 ^ 32" using be_val_less [of s] assms(1) by simp
  ultimately show ?thesis using v by (simp add: be_val_def)
qed

text \<open>A canonical form that the off-chain recovery accepts has a low s and an id of 27 or 28.\<close>

lemma canonical_recovers_low:
  assumes "canonical_signature sig = Some out" "R d v (take 64 out) = Some pk" "recovery_agrees E R"
  shows "length out = 65" "sig_s out \<le> secp_n div 2" "out ! 64 = 27 \<or> out ! 64 = 28"
proof -
  let ?r = "take 32 sig" and ?s = "take 32 (drop 32 sig)"
  let ?low = "rev (sub_loop 0 (rev SECP256K1_N) (rev ?s))"
  have len: "length sig = 65" using assms(1) by (auto simp: canonical_signature_def split: if_splits)
  have l: "length ?r = 32" "length ?s = 32" "length ?low = 32"
    using len by (simp_all add: length_sub_loop N_length)
  have "\<exists>b. (b = 27 \<or> b = 28) \<and> out = (if is_high_s ?s then ?r @ ?low @ [b] else ?r @ ?s @ [b])"
    using assms(1) len by (auto simp: canonical_signature_def Let_def split: if_splits)
  then obtain b where b: "b = 27 \<or> b = 28" and o: "out = (if is_high_s ?s then ?r @ ?low @ [b] else ?r @ ?s @ [b])"
    by blast
  show "length out = 65" "out ! 64 = 27 \<or> out ! 64 = 28"
    using b l sig_parts(1,4) by (auto simp: o nth_append)
  have lt: "sig_s out < secp_n"
  proof -
    have "length (take 64 out) = 64" using \<open>length out = 65\<close> by simp
    then have "sig_s (take 64 out) < secp_n" using assms(2,3) unfolding recovery_agrees_def by blast
    then show ?thesis by (simp add: sig_s_take [OF \<open>length out = 65\<close>])
  qed
  show "sig_s out \<le> secp_n div 2"
  proof (cases "is_high_s ?s")
    case True
    then have o': "sig_s out = be_val ?low" using sig_parts(3) [OF l(1,3)] by (simp add: o)
    have "be_val ?s \<le> secp_n" using order_minus_large [OF l(2)] lt o' by fastforce
    then have "be_val ?low = secp_n - be_val ?s" by (rule order_minus [OF l(2)])
    then show ?thesis using True o' by (simp add: is_high_s_iff [OF l(2)])
  next
    case False
    then show ?thesis using sig_parts(3) [OF l(1,2)] by (simp add: o is_high_s_iff [OF l(2)])
  qed
qed

lemma digest_agrees: "host_eth_signed_digest (keccak E) i = eth_signed_digest E i"
  by (simp add: host_eth_signed_digest_def eth_signed_digest_def hashv_def)

lemma recovered_on_chain:
  assumes "canonical_signature sig = Some out" "recovered_address (keccak E) R d out = Some a" "recovery_agrees E R"
  shows "recover_evm_address E d out = Inr a"
proof -
  obtain v pk where v: "checked_sub (out ! 64) 27 = Some v" "R d v (take 64 out) = Some pk"
    "a = of_be (drop 12 (arr_bytes (keccak E pk)))"
    using assms(2) by (auto simp: recovered_address_def split: if_splits Option.bind_splits)
  note c = canonical_recovers_low [OF assms(1) v(2) assms(3)]
  have "v = out ! 64 - 27" using v(1) by (auto simp: checked_sub_def split: if_splits)
  moreover have "secp256k1_recover E d v (take 64 out) = Some pk"
    using assms(3) v(2) c sig_s_take [OF c(1)] by (simp add: recovery_agrees_def)
  ultimately show ?thesis using c(1,3) v(3) by (auto simp: recover_evm_address_def hashv_def Let_def)
qed

section \<open>Sorting and removing duplicates\<close>

lemma dedup_by_key_props:
  assumes "sorted (map f xs)"
  shows "sorted_wrt (<) (map f (dedup_by_key f xs)) \<and> f ` set (dedup_by_key f xs) = f ` set xs \<and>
    set (dedup_by_key f xs) \<subseteq> set xs \<and> (xs \<noteq> [] \<longrightarrow> hd (dedup_by_key f xs) = hd xs \<and> dedup_by_key f xs \<noteq> [])"
  using assms
proof (induction f xs rule: dedup_by_key.induct)
  case (1 f x y ys)
  show ?case
  proof (cases "f x = f y")
    case True
    then have "sorted (map f (x # ys))" using "1.prems" by simp
    from 1(1) [OF True this] show ?thesis using True by auto
  next
    case False
    let ?d = "dedup_by_key f (y # ys)"
    have s: "sorted (map f (y # ys))" using "1.prems" by simp
    note ih = 1(2) [OF False s]
    have xy: "f x < f y" using False "1.prems" by auto
    have all: "f x < f z" if "z \<in> set (y # ys)" for z
      using that s xy by (auto intro: less_le_trans)
    then show ?thesis using False ih by auto
  qed
qed auto

lemma map_filter_set: "y \<in> set (List.map_filter g xs) \<longleftrightarrow> (\<exists>x \<in> set xs. g x = Some y)"
  by (auto simp: List.map_filter_def image_iff)

text \<open>The chosen signatures and their signers.\<close>

lemma ordered_signatures_props:
  assumes "recovery_agrees E R"
  shows "\<exists>signers. map (recover_evm_address E (eth_signed_digest E i)) (ordered_signatures (keccak E) R i raw g) =
      map Inr signers \<and>
    sorted_wrt (<) signers \<and> set signers \<subseteq> set (gv_validators g) \<and>
    length signers \<le> min (unat (gv_threshold g)) (length (gv_validators g)) \<and>
    (\<forall>S. S \<subseteq> set (gv_validators g) \<and>
       (\<forall>a \<in> S. \<exists>s \<in> set raw. \<exists>c. canonical_signature s = Some c \<and>
          recovered_address (keccak E) R (eth_signed_digest E i) c = Some a) \<longrightarrow>
       min (card S) (min (unat (gv_threshold g)) (length (gv_validators g))) \<le> length signers)"
proof -
  let ?d = "eth_signed_digest E i"
  let ?rec = "recovered_address (keccak E) R ?d"
  define W where "W = filter (\<lambda>(a, _). a \<in> set (gv_validators g))
    (List.map_filter (\<lambda>s. map_option (\<lambda>a. (a, s)) (?rec s)) (List.map_filter canonical_signature raw))"
  define D where "D = dedup_by_key fst (sort_key fst W)"
  let ?n = "min (unat (gv_threshold g)) (length (gv_validators g))"
  have o: "ordered_signatures (keccak E) R i raw g = map snd (take ?n D)"
    by (simp add: ordered_signatures_def digest_agrees W_def D_def Let_def)
  have W: "(a, c) \<in> set W \<longleftrightarrow> a \<in> set (gv_validators g) \<and> (\<exists>s \<in> set raw. canonical_signature s = Some c \<and> ?rec c = Some a)" for a c
    by (auto simp: W_def map_filter_set)
  have dd: "sorted_wrt (<) (map fst D)" "fst ` set D = fst ` set W" "set D \<subseteq> set W"
    using dedup_by_key_props [of fst "sort_key fst W"] by (simp_all add: D_def)
  have "recover_evm_address E ?d c = Inr a" if "(a, c) \<in> set D" for a c
    using that dd(3) W recovered_on_chain [OF _ _ assms] by blast
  then have "map (recover_evm_address E ?d) (map snd (take ?n D)) = map Inr (map fst (take ?n D))"
    using set_take_subset [of ?n D] by (auto simp: map_eq_conv)
  moreover have "sorted_wrt (<) (map fst (take ?n D))"
    using dd(1) by (metis sorted_wrt_take take_map)
  moreover have "set (map fst (take ?n D)) \<subseteq> set (gv_validators g)"
    using set_take_subset [of ?n D] dd(3) W by fastforce
  moreover have "min (card S) ?n \<le> length (map fst (take ?n D))"
    if "S \<subseteq> set (gv_validators g)"
      "\<forall>a \<in> S. \<exists>s \<in> set raw. \<exists>c. canonical_signature s = Some c \<and> ?rec c = Some a" for S
  proof -
    have "S \<subseteq> fst ` set W"
    proof
      fix a assume "a \<in> S"
      with that obtain c where "(a, c) \<in> set W" using W by blast
      then show "a \<in> fst ` set W" by force
    qed
    then have "card S \<le> card (fst ` set D)" unfolding dd(2) by (intro card_mono) simp_all
    also have "\<dots> \<le> length D" by (metis card_image_le card_length le_trans List.finite_set)
    finally show ?thesis by auto
  qed
  ultimately show ?thesis unfolding o by (intro exI [of _ "map fst (take ?n D)"]) auto
qed

section \<open>Claims\<close>

text \<open>
  What a claim needs of the destination apart from signatures: the accounts the claim
  instruction takes, in its order, of an unpaused and sealed gate; the asset registered
  with the scale of the record and an amount that fits local units; the token accounts
  of the vault and of the receiver the record names, both of the asset's mint; no marker
  of the transfer yet; and a runtime that can create the marker and a token program that
  can make the transfer.
\<close>

definition payout_ready ::
  "env \<Rightarrow> pubkey \<Rightarrow> config \<Rightarrow> encodable_record \<Rightarrow> account_info list \<Rightarrow> world \<Rightarrow> bool" where
  "payout_ready E pid cfg enc accs w \<longleftrightarrow>
     (\<exists>config_ai asset_ai executed_ai payer vault receiver_token vault_authority token_program sys rest
        asset n va ra w1 w'.
      accs = config_ai # asset_ai # executed_ai # payer # vault # receiver_token # vault_authority #
        token_program # sys # rest \<and>
      load_config E pid config_ai w = Inr cfg \<and> \<not> paused cfg \<and> sealed cfg \<and>
      load_asset E pid (en_debridge_id enc) asset_ai w = Inr asset \<and>
      en_bridge_decimals enc = as_bridge_decimals asset \<and> to_local asset (en_amount enc) = Inr n \<and>
      ai_key receiver_token = of_be (en_receiver enc) \<and> ai_key token_program = spl_token_id E \<and>
      ai_key vault = as_vault asset \<and> ai_key vault_authority = pda E pid [lit ''vault_authority''] \<and>
      owner_of w vault = spl_token_id E \<and> owner_of w receiver_token = spl_token_id E \<and>
      unpack_account E (data_of w vault) = Some va \<and> spl_mint va = as_mint asset \<and>
      unpack_account E (data_of w receiver_token) = Some ra \<and> spl_mint ra = as_mint asset \<and>
      ai_key executed_ai = pda E pid [lit ''executed'', arr_bytes (en_id enc)] \<and> owner_of w executed_ai \<noteq> pid \<and>
      create_marker E pid payer executed_ai sys [lit ''executed'', arr_bytes (en_id enc)]
        (bump_of E pid [lit ''executed'', arr_bytes (en_id enc)]) MARKER_CLAIMED w = Inr w1 \<and>
      invoke_signed E pid (SplTransfer (spl_token_id E) (as_vault asset) (ai_key receiver_token)
        (ai_key vault_authority) n) [vault, receiver_token, vault_authority, token_program]
        [[lit ''vault_authority'', [bump_of E pid [lit ''vault_authority'']]]] w1 = Inr w')"

text \<open>The lengths that Borsh can write.\<close>

definition record_fits :: "encodable_record \<Rightarrow> bool" where
  "record_fits enc \<longleftrightarrow> length (en_native_sender enc) < 2 ^ 32 \<and>
     (case en_auto enc of None \<Rightarrow> True
      | Some a \<Rightarrow> length (ap_fallback_address a) < 2 ^ 32 \<and> length (ap_data a) < 2 ^ 32)"

lemma claim_fits:
  assumes "record_fits enc" "length (en_receiver enc) = 32"
    and "length sigs < 2 ^ 32" "\<And>s. s \<in> set sigs \<Longrightarrow> length s = 65"
  shows "\<exists>ix. claim_instruction_data (claim_of_record enc rc sigs) = Some ix"
proof -
  have auto: "\<exists>b. ser_opt ser_auto (en_auto enc) = Some b"
  proof (cases "en_auto enc")
    case (Some a)
    then obtain b c where "ser_bytes (ap_fallback_address a) = Some b" "ser_bytes (ap_data a) = Some c"
      using assms(1) ser_bytes_total by (fastforce simp: record_fits_def)
    then show ?thesis by (simp add: Some ser_auto_def ser_word_def)
  qed simp
  have "\<forall>s \<in> set sigs. ser_bytes s \<noteq> None" using assms(4) ser_bytes_total by fastforce
  then have sigs: "\<exists>b. ser_vec ser_bytes sigs = Some b"
    using ser_total_seq [of sigs ser_bytes] assms(3) by (auto simp: ser_vec_def ser_word_def)
  have "\<exists>b. ser_bytes (en_receiver enc) = Some b" "\<exists>b. ser_bytes (en_native_sender enc) = Some b"
    using assms(1,2) by (simp_all add: ser_bytes_total record_fits_def)
  with auto sigs show ?thesis
    by (auto simp: claim_instruction_data_def ser_claim_args_def claim_of_record_def ser_word_def ser_arr_def)
qed

lemma payout_ready_claim:
  assumes "payout_ready E pid cfg enc accs w" "runtime_ok E pid" "length (en_receiver enc) = 32"
    and "claim_sid E cfg (claim_of_record enc rc sigs) = en_id enc"
    and "verify_threshold E cfg (en_id enc) sigs = Inr ()"
  shows "\<exists>w'. process_claim E pid accs (claim_of_record enc rc sigs) w = Inr w' \<and>
    store pid w' (pda E pid [lit ''executed'', arr_bytes (en_id enc)]) = Some [MARKER_CLAIMED]"
proof -
  have f: "ca_debridge_id (claim_of_record enc rc sigs) = en_debridge_id enc"
    "ca_receiver (claim_of_record enc rc sigs) = en_receiver enc"
    "ca_bridge_decimals (claim_of_record enc rc sigs) = en_bridge_decimals enc"
    "ca_amount (claim_of_record enc rc sigs) = en_amount enc"
    "ca_signatures (claim_of_record enc rc sigs) = sigs" by (simp_all add: claim_of_record_def)
  from assms(1) obtain a1 a2 a3 a4 a5 a6 a7 a8 a9 rest asset n va ra w1 w' where
    accs: "accs = a1 # a2 # a3 # a4 # a5 # a6 # a7 # a8 # a9 # rest"
    and l: "load_config E pid a1 w = Inr cfg"
    and p: "\<not> paused cfg" "sealed cfg" "load_asset E pid (en_debridge_id enc) a2 w = Inr asset"
      "en_bridge_decimals enc = as_bridge_decimals asset" "to_local asset (en_amount enc) = Inr n"
      "ai_key a6 = of_be (en_receiver enc)" "ai_key a8 = spl_token_id E"
      "ai_key a5 = as_vault asset" "ai_key a7 = pda E pid [lit ''vault_authority'']"
      "owner_of w a5 = spl_token_id E" "owner_of w a6 = spl_token_id E"
      "unpack_account E (data_of w a5) = Some va" "spl_mint va = as_mint asset"
      "unpack_account E (data_of w a6) = Some ra" "spl_mint ra = as_mint asset"
      "ai_key a3 = pda E pid [lit ''executed'', arr_bytes (en_id enc)]" "owner_of w a3 \<noteq> pid"
      "create_marker E pid a4 a3 a9 [lit ''executed'', arr_bytes (en_id enc)]
        (bump_of E pid [lit ''executed'', arr_bytes (en_id enc)]) MARKER_CLAIMED w = Inr w1"
      "invoke_signed E pid (SplTransfer (spl_token_id E) (as_vault asset) (ai_key a6) (ai_key a7) n)
        [a5, a6, a7, a8] [[lit ''vault_authority'', [bump_of E pid [lit ''vault_authority'']]]] w1 = Inr w'"
    unfolding payout_ready_def by (elim exE conjE) (rule that)
  have c: "process_claim E pid accs (claim_of_record enc rc sigs) w = Inr w'"
    unfolding accs process_claim_iff f
    by (rule exI [of _ cfg], rule exI [of _ asset], rule exI [of _ n], rule exI [of _ w1], rule exI [of _ va],
        rule exI [of _ ra]) (use l p assms(3-5) in \<open>simp add: is_already_executed_def\<close>)
  from c [unfolded accs] assms(2) obtain cfg' where "load_config E pid a1 w = Inr cfg'"
    "store pid w' = (store pid w)
       (pda E pid [lit ''executed'', arr_bytes (claim_sid E cfg' (claim_of_record enc rc sigs))] \<mapsto> [MARKER_CLAIMED])"
    by (rule store_claim)
  then show ?thesis using c l assms(4) by simp
qed

text \<open>
  C20. The relayer turns a quorum into a claim the gate accepts. If the signatures stored
  with a record (in any order and encoding, repeated, and mixed with signatures of
  strangers or garbage) contain those of threshold many validators of the gate, then
  the relayer encodes a claim instruction; the gate computes from it the id of the
  record, and, where nothing but signatures is missing for the payout, it executes the
  instruction and marks the transfer as executed.
\<close>

theorem relayer_claim_accepted:
  assumes "recovery_agrees E R" "runtime_ok E pid"
    and "deserialize de_config d = Some cfg" "config_inv cfg" "decode_gate_config d = Some g"
    and "encodable (keccak E) H rc (gv_bridge_domain g) = Inr enc"
    and "rc_chain_id_to rc = chain_id cfg" "length (en_receiver enc) = 32" "record_fits enc"
    and "S \<subseteq> set (validators cfg)" "unat (threshold cfg) \<le> card S"
    and "\<And>a. a \<in> S \<Longrightarrow> \<exists>s \<in> set (raw_signatures H (rc_signatures rc)). \<exists>c. canonical_signature s = Some c \<and>
      recovered_address (keccak E) R (eth_signed_digest E (en_id enc)) c = Some a"
    and "payout_ready E pid cfg enc accs w"
  shows "\<exists>args ix w'. claim_submission (keccak E) R H rc g = Some args \<and> claim_sid E cfg args = en_id enc \<and>
    claim_instruction_data args = Some ix \<and> process_instruction E pid accs ix w = Inr w' \<and>
    store pid w' (pda E pid [lit ''executed'', arr_bytes (en_id enc)]) = Some [MARKER_CLAIMED]"
proof -
  have inv: "threshold cfg \<noteq> 0" "unat (threshold cfg) \<le> length (validators cfg)" "0 \<notin> set (validators cfg)"
    "length (validators cfg) \<le> unat (max_validators cfg)"
    using assms(4) by (simp_all add: config_inv_def)
  have "validators cfg \<noteq> []" using inv(1,2) by (auto simp: unat_eq_0)
  then have g: "g = \<lparr>gv_validators = validators cfg, gv_threshold = threshold cfg, gv_bridge_domain = bridge_domain cfg\<rparr>"
    using config_view_of [OF assms(3)] assms(5) by simp
  define sigs where "sigs = ordered_signatures (keccak E) R (en_id enc) (raw_signatures H (rc_signatures rc)) g"
  obtain signers where s: "map (recover_evm_address E (eth_signed_digest E (en_id enc))) sigs = map Inr signers"
    "sorted_wrt (<) signers" "set signers \<subseteq> set (validators cfg)"
    and n: "min (card S) (min (unat (threshold cfg)) (length (validators cfg))) \<le> length signers"
    using ordered_signatures_props [OF assms(1), of "en_id enc" "raw_signatures H (rc_signatures rc)" g] assms(10,12)
    unfolding sigs_def g by fastforce
  have t: "unat (threshold cfg) \<le> length signers" using n assms(11) inv(2) by simp
  have "length sigs = length signers" using s(1) by (metis length_map)
  then have sub: "claim_submission (keccak E) R H rc g = Some (claim_of_record enc rc sigs)"
    using assms(6,8) t by (simp add: claim_submission_def sigs_def g Let_def)
  have sid: "claim_sid E cfg (claim_of_record enc rc sigs) = en_id enc"
    using encodable_id [OF assms(6)] assms(7) by (simp add: claim_sid_def claim_of_record_def g)
  have "length (validators cfg) < 2 ^ 32" using inv(4) unsigned_less [of "max_validators cfg", where ?'a = nat] by simp
  then have v: "verify_threshold E cfg (en_id enc) sigs = Inr ()"
    by (rule verify_threshold_complete [OF _ s(1,2) _ s(3) t]) (use inv(3) s(3) in blast)
  have l65: "length s = 65" if "s \<in> set sigs" for s
  proof -
    have "recover_evm_address E (eth_signed_digest E (en_id enc)) s \<in> Inr ` set signers"
      using that s(1) by (metis image_eqI set_map)
    then show ?thesis by (auto simp: recover_evm_address_def split: if_splits)
  qed
  have "length sigs < 2 ^ 32"
    using ordered_signatures_props [OF assms(1), of "en_id enc" "raw_signatures H (rc_signatures rc)" g] inv(4)
      unsigned_less [of "max_validators cfg", where ?'a = nat]
    by (auto simp: sigs_def g dest!: arg_cong [of "map _ _" _ length])
  from claim_fits [OF assms(9,8) this l65] obtain ix where ix: "claim_instruction_data (claim_of_record enc rc sigs) = Some ix"
    by blast
  then have "try_from_slice de_instruction ix = Some (Claim (claim_of_record enc rc sigs))"
    by (intro instrc.try_from_slice_ser) (auto simp: claim_instruction_data_def)
  then have "process_instruction E pid accs ix w = process_claim E pid accs (claim_of_record enc rc sigs) w"
    by (simp add: process_instruction_def)
  then show ?thesis using payout_ready_claim [OF assms(13,2,8) sid v] sub sid ix by auto
qed

section \<open>Demonstration\<close>

text \<open>A decoder of \<open>hex\<close> for which the code points are the bytes, and a recovery that refuses a high s.\<close>

definition demo_hex :: hex_decoder where
  "demo_hex s = Some (map of_nat s)"

definition demo_recovery :: recovery where
  "demo_recovery d v rs = (if sig_s rs \<le> secp_n div 2 then Some rs else None)"

lemma demo_recovery_agrees: "recovery_agrees demo_env demo_recovery"
proof -
  have "secp_n div 2 < secp_n" by (simp add: secp_n_def)
  then show ?thesis by (auto simp: recovery_agrees_def demo_recovery_def)
qed

text \<open>The record holds a stranger's signature, garbage, and two validators' in the wrong order.\<close>

definition demo_stored :: "bytes32 \<Rightarrow> signer_sig" where
  "demo_stored v = \<lparr>ss_signer = [], ss_signature = map unat (demo_sig v)\<rparr>"

definition demo_stored_record :: submission_record where
  "demo_stored_record = \<lparr>rc_submission_id = replicate 31 0 @ [5], rc_bridge_domain = replicate 31 0 @ [1],
     rc_debridge_id = replicate 31 0 @ [5], rc_amount = [49, 48], rc_bridge_decimals = Some 3,
     rc_chain_id_from = 9, rc_chain_id_to = 7, rc_nonce = 5, rc_receiver = replicate 31 0 @ [52],
     rc_auto_params = [], rc_native_sender = [], rc_token = [],
     rc_signatures = [demo_stored 2, \<lparr>ss_signer = [], ss_signature = [1, 2, 3]\<rparr>, demo_stored 77, demo_stored 1, demo_stored 2],
     rc_cancel_signatures = [], rc_refund_signatures = []\<rparr>"

lemma demo_sig_s: "sig_s (demo_sig v) = unat v" "length (demo_sig v) = 65" "demo_sig v ! 64 = 27"
  by (simp_all add: sig_s_def demo_sig_def be_val_arr_bytes nth_append)

lemma demo_canonical:
  assumes "unat v \<le> secp_n div 2"
  shows "canonical_signature (demo_sig v) = Some (demo_sig v)"
proof -
  have "\<not> is_high_s (arr_bytes v)" using assms by (simp add: is_high_s_iff be_val_arr_bytes)
  then show ?thesis using demo_sig_s by (simp add: canonical_signature_def) (simp add: demo_sig_def)
qed

lemma demo_recovered:
  assumes "unat v \<le> secp_n div 2"
  shows "recovered_address demo_keccak demo_recovery dg (demo_sig v) = Some (ucast v)"
proof -
  have "recover_evm_address demo_env dg (demo_sig v) = Inr (ucast v)" by (rule demo_recover)
  moreover have "demo_recovery dg 0 (take 64 (demo_sig v)) = Some (take 64 (demo_sig v))"
    using assms by (simp add: demo_recovery_def sig_s_take demo_sig_s)
  ultimately show ?thesis
    by (simp add: recovered_address_def demo_sig_s checked_sub_def recover_evm_address_def hashv_def Let_def)
qed

lemma demo_hex32: "hex32 demo_hex (replicate 31 0 @ [5]) = Some 5" "hex32 demo_hex (replicate 31 0 @ [1]) = Some 1"
  by code_simp+

lemma demo_amt: "parse_uint [49, 48] = Some (10 :: u64)"
  by (simp add: parse_uint_def is_ascii_digit_def checked_mul_def checked_add_def)

definition demo_encoded :: encodable_record where
  "demo_encoded = \<lparr>en_id = 5, en_debridge_id = 5, en_amount = 10, en_bridge_decimals = 3,
     en_receiver = replicate 31 0 @ [52], en_native_sender = [], en_auto = None\<rparr>"

lemma demo_encodable:
  "encodable demo_keccak demo_hex demo_stored_record 1 = Inr demo_encoded"
proof -
  have h: "hex_bytes demo_hex [] = Some []" "hex_bytes demo_hex (replicate 31 0 @ [52]) = Some (replicate 31 0 @ [52])"
    by (simp add: hex_bytes_def strip_prefix_def starts_with_def rstr_def) code_simp
  have i: "host_submission_id demo_keccak 1 5 3 (host_amount_word 10) 9 7 5 r = 5" for r
    using host_id_agrees [of demo_env 1 5 3 10 9 7 5 r None "[]"] by simp
  show ?thesis
    by (simp add: demo_encoded_def encodable_def demo_stored_record_def demo_hex32 [unfolded One_nat_def] demo_amt h recomputed_id_def Let_def decode_evm_auto_params_def map_err_def i Let_def)
qed

lemma demo_payout_ready:
  "payout_ready demo_env 100 demo_config demo_encoded [demo_info 1, demo_info 94, demo_info 90, demo_signer 4,
     demo_info 20, demo_info 52, demo_info 2, demo_info 200, demo_info 0] (demo_world demo_config)"
proof -
  have c: "\<not> paused demo_config" "sealed demo_config" by (simp_all add: demo_config_def)
  have a: "as_vault demo_asset = 20" "as_mint demo_asset = 68" "as_bridge_decimals demo_asset = 3"
    by (simp_all add: demo_asset_def)
  have r: "of_be (en_receiver demo_encoded) = (52 :: pubkey)" unfolding demo_encoded_def by code_simp
  have f: "en_id demo_encoded = 5" "en_debridge_id demo_encoded = 5" "en_amount demo_encoded = 10"
    "en_bridge_decimals demo_encoded = 3" by (simp_all add: demo_encoded_def)
  show ?thesis
    unfolding payout_ready_def
    by (simp add: demo_load f demo_load_asset demo_to_local c r a demo_pda_executed demo_world_at
        demo_create_marker invoke_signed_def demo_transfer_def checked_add_def)
qed

lemma demo_raw: "raw_signatures demo_hex (rc_signatures demo_stored_record) =
    [demo_sig 2, [1, 2, 3], demo_sig 77, demo_sig 1, demo_sig 2]"
proof -
  have "hex_bytes demo_hex (map unat (demo_sig v)) = Some (demo_sig v)" for v
    by (simp add: hex_bytes_def demo_hex_def strip_prefix_def starts_with_def rstr_def demo_sig_def comp_def)
  moreover have "hex_bytes demo_hex [1, 2, 3] = Some [1, 2, 3]"
    by (simp add: hex_bytes_def demo_hex_def strip_prefix_def starts_with_def rstr_def)
  ultimately show ?thesis by (simp add: raw_signatures_def demo_stored_record_def demo_stored_def List.map_filter_simps)
qed

lemma demo_de_config: "\<exists>d. deserialize de_config d = Some demo_config \<and>
    decode_gate_config d = Some \<lparr>gv_validators = [1, 2, 3], gv_threshold = 2, gv_bridge_domain = 1\<rparr>"
proof -
  obtain d where d: "ser_config demo_config = Some d" using demo_ser_config by auto
  then have "deserialize de_config (d @ replicate 0 0) = Some demo_config" by (rule configc.deserialize_padded)
  then show ?thesis using config_view_of [of d demo_config] by (auto simp: demo_config_def)
qed

theorem relayer_claim_accepted_witness:
  "\<exists>args ix w'. claim_submission demo_keccak demo_recovery demo_hex demo_stored_record
      \<lparr>gv_validators = [1, 2, 3], gv_threshold = 2, gv_bridge_domain = 1\<rparr> = Some args \<and>
    claim_instruction_data args = Some ix \<and>
    process_instruction demo_env 100 [demo_info 1, demo_info 94, demo_info 90, demo_signer 4,
     demo_info 20, demo_info 52, demo_info 2, demo_info 200, demo_info 0] ix (demo_world demo_config) = Inr w'"
proof -
  obtain d where d: "deserialize de_config d = Some demo_config"
    "decode_gate_config d = Some \<lparr>gv_validators = [1, 2, 3], gv_threshold = 2, gv_bridge_domain = 1\<rparr>" (is "_ = Some ?g")
    using demo_de_config by blast
  have ok: "runtime_ok demo_env 100" by (rule demo_runtime_ok) simp_all
  have inv: "config_inv demo_config" by (simp add: config_inv_def demo_config_def MAX_THRESHOLD_def)
  have e: "encodable (keccak demo_env) demo_hex demo_stored_record (gv_bridge_domain ?g) = Inr demo_encoded"
    "length (en_receiver demo_encoded) = 32" "record_fits demo_encoded"
    using demo_encodable by (simp_all add: demo_encoded_def record_fits_def)
  have c: "rc_chain_id_to demo_stored_record = chain_id demo_config" by (simp add: demo_stored_record_def demo_config_def)
  have S: "{1, 2} \<subseteq> set (validators demo_config)" "unat (threshold demo_config) \<le> card {1, 2 :: address}"
    by (simp_all add: demo_config_def)
  have n: "(1 :: nat) \<le> secp_n div 2" "(2 :: nat) \<le> secp_n div 2" by (simp_all add: secp_n_def)
  have q: "\<exists>s \<in> set (raw_signatures demo_hex (rc_signatures demo_stored_record)). \<exists>c. canonical_signature s = Some c \<and>
      recovered_address (keccak demo_env) demo_recovery (eth_signed_digest demo_env (en_id demo_encoded)) c = Some a"
    if "a \<in> {1, 2}" for a :: address
    using that demo_canonical [of 1] demo_canonical [of 2] demo_recovered [of 1] demo_recovered [of 2] n
    by (auto simp: demo_raw)
  from relayer_claim_accepted [OF demo_recovery_agrees ok d(1) inv d(2) e(1) c e(2,3) S q demo_payout_ready]
  show ?thesis by simp blast
qed

end
