(* ===== verification/HostEvents.thy ===== *)
theory HostEvents
  imports HostIds RustStr
begin

text \<open>
  How the Solana relayers learn of a transfer (\<open>bridge-solana\<close>, relayer.rs): the event
  in the transaction's log, which lines of a log the gate wrote, and the check of an
  event against the gate's own record. Base64 (crate base64) is a parameter.
\<close>

section \<open>Events\<close>

text \<open>The event's Borsh mirror on the host is the record of the program, field by field.\<close>

definition de_sent_event :: "sent_event parser" where
  "de_sent_event bs = do {
     (v, bs) \<leftarrow> de_word bs; (i, bs) \<leftarrow> de_arr bs; (d, bs) \<leftarrow> de_arr bs; (m, bs) \<leftarrow> de_arr bs;
     (a, bs) \<leftarrow> de_word bs; (b, bs) \<leftarrow> de_word bs; (cf, bs) \<leftarrow> de_word bs; (ct, bs) \<leftarrow> de_word bs;
     (n, bs) \<leftarrow> de_word bs; (r, bs) \<leftarrow> de_bytes bs; (s, bs) \<leftarrow> de_bytes bs; (au, bs) \<leftarrow> de_opt de_auto bs;
     Some (\<lparr>ev_version = v, ev_submission_id = i, ev_debridge_id = d, ev_mint = m, ev_amount = a,
            ev_bridge_decimals = b, ev_chain_id_from = cf, ev_chain_id_to = ct, ev_nonce = n,
            ev_receiver = r, ev_native_sender = s, ev_auto = au\<rparr>, bs) }"

interpretation eventc: borsh_codec ser_sent_event de_sent_event
  by unfold_locales
    (auto simp: ser_sent_event_def de_sent_event_def ser_struct_simps leaf_codecs autooptc.de_ser
       simp del: ser_seq.simps(2))

record host_sent =
  hs_submission_id :: bytes32
  hs_debridge_id :: bytes32
  hs_amount :: u64
  hs_bridge_decimals :: u8
  hs_chain_id_from :: u64
  hs_chain_id_to :: u64
  hs_receiver :: bytes
  hs_nonce :: u64
  hs_native_sender :: bytes
  hs_auto :: "host_auto option"

definition from_sent :: "host_sent \<Rightarrow> bytes32 \<Rightarrow> sent_event" where
  "from_sent s mint =
     \<lparr>ev_version = SENT_EVENT_VERSION, ev_submission_id = hs_submission_id s,
      ev_debridge_id = hs_debridge_id s, ev_mint = mint, ev_amount = hs_amount s,
      ev_bridge_decimals = hs_bridge_decimals s, ev_chain_id_from = hs_chain_id_from s,
      ev_chain_id_to = hs_chain_id_to s, ev_nonce = hs_nonce s, ev_receiver = hs_receiver s,
      ev_native_sender = hs_native_sender s, ev_auto = map_option auto_to_wire (hs_auto s)\<rparr>"

text \<open>The error of \<open>to_sent\<close> carries the unsupported version.\<close>

definition to_sent :: "sent_event \<Rightarrow> u8 + host_sent" where
  "to_sent e =
     (if ev_version e \<noteq> SENT_EVENT_VERSION then Inl (ev_version e)
      else Inr \<lparr>hs_submission_id = ev_submission_id e, hs_debridge_id = ev_debridge_id e,
        hs_amount = ev_amount e, hs_bridge_decimals = ev_bridge_decimals e,
        hs_chain_id_from = ev_chain_id_from e, hs_chain_id_to = ev_chain_id_to e,
        hs_receiver = ev_receiver e, hs_nonce = ev_nonce e, hs_native_sender = ev_native_sender e,
        hs_auto = map_option (\<lambda>w. wire_to_auto w (ev_native_sender e)) (ev_auto e)\<rparr>)"

definition PROGRAM_DATA_PREFIX :: rust_str where "PROGRAM_DATA_PREFIX = rstr ''Program data:''"

type_synonym b64_encoder = "bytes \<Rightarrow> rust_str"
type_synonym b64_decoder = "rust_str \<Rightarrow> bytes option"

definition sent_event_to_program_data_line :: "b64_encoder \<Rightarrow> sent_event \<Rightarrow> rust_str option" where
  "sent_event_to_program_data_line enc e = do {
     b \<leftarrow> ser_sent_event e;
     Some (PROGRAM_DATA_PREFIX @ [32] @ enc SENT_EVENT_TAG @ [32] @ enc b) }"

datatype event_error = MissingPayload | BadBase64 | BadBorsh

definition parse_sent_event_line :: "b64_decoder \<Rightarrow> rust_str \<Rightarrow> (event_error + sent_event) option" where
  "parse_sent_event_line dec line = do {
     rest \<leftarrow> strip_prefix (trim line) PROGRAM_DATA_PREFIX;
     (tag_b64, fs) \<leftarrow> (case split_whitespace (trim rest) of [] \<Rightarrow> None | t # fs \<Rightarrow> Some (t, fs));
     tag \<leftarrow> dec tag_b64;
     if tag \<noteq> SENT_EVENT_TAG then None
     else Some (case fs of
         [] \<Rightarrow> Inl MissingPayload
       | payload_b64 # _ \<Rightarrow>
           bind_res (ok_or (dec payload_b64) BadBase64) (\<lambda>b. ok_or (try_from_slice de_sent_event b) BadBorsh)) }"

definition parse_sent_log_line :: "b64_decoder \<Rightarrow> rust_str \<Rightarrow> ((event_error + u8) + host_sent) option" where
  "parse_sent_log_line dec line = do {
     r \<leftarrow> parse_sent_event_line dec line;
     Some (case r of Inl e \<Rightarrow> Inl (Inl e) | Inr ev \<Rightarrow> map_err Inr (to_sent ev)) }"

section \<open>Attribution\<close>

definition parse_invoke :: "rust_str \<Rightarrow> rust_str option" where
  "parse_invoke line = do {
     rest \<leftarrow> strip_prefix line (rstr ''Program '');
     (who, tail) \<leftarrow> split_once 32 rest;
     if starts_with tail (rstr ''invoke ['') then Some who else None }"

definition parse_terminator :: "rust_str \<Rightarrow> rust_str option" where
  "parse_terminator line = do {
     rest \<leftarrow> strip_prefix line (rstr ''Program '');
     (who, tail) \<leftarrow> split_once 32 rest;
     if tail = rstr ''success'' \<or> starts_with tail (rstr ''failed'') then Some who else None }"

text \<open>
  The loop of \<open>gate_program_data_lines\<close>; the top of the stack is the head of the list, and
  popping an empty stack leaves it empty.
\<close>

fun data_lines :: "rust_str \<Rightarrow> rust_str list \<Rightarrow> rust_str list \<Rightarrow> rust_str list \<times> rust_str list" where
  "data_lines pid stack [] = ([], stack)"
| "data_lines pid stack (l # ls) =
     (let line = trim l in
      case parse_invoke line of
        Some who \<Rightarrow> data_lines pid (who # stack) ls
      | None \<Rightarrow>
          if parse_terminator line \<noteq> None then data_lines pid (tl stack) ls
          else if starts_with line PROGRAM_DATA_PREFIX \<and> stack \<noteq> [] \<and> hd stack = pid
          then (let (out, st) = data_lines pid stack ls in (line # out, st))
          else data_lines pid stack ls)"

definition gate_program_data_lines :: "rust_str list \<Rightarrow> rust_str \<Rightarrow> rust_str list" where
  "gate_program_data_lines ls pid = fst (data_lines pid [] ls)"

section \<open>The origin record\<close>

definition HOST_SENT_RECORD_LEN :: nat where "HOST_SENT_RECORD_LEN = 32 + 32 + 32 + 32 + 8 + 8"
definition LEGACY_SENT_RECORD_LEN :: nat where "LEGACY_SENT_RECORD_LEN = HOST_SENT_RECORD_LEN - 8"

definition host_decode_sent_record :: "bytes \<Rightarrow> sent_record option" where
  "host_decode_sent_record d =
     (if length d = HOST_SENT_RECORD_LEN then try_from_slice de_sent_record d
      else if length d = LEGACY_SENT_RECORD_LEN then try_from_slice de_sent_record (d @ replicate 8 0)
      else None)"

datatype sent_record_error = SrMissing | SrNotProgramOwned | SrBadLength nat | SrMalformed | SrRetired
  | SrMismatch string | SrBadBridgeUnit

definition verify_sent_record ::
  "(bool \<times> bytes) option \<Rightarrow> sent_event \<Rightarrow> u64 \<Rightarrow> sent_record_error + sent_record" where
  "verify_sent_record acc event unit =
     (if unit = 0 then Inl SrBadBridgeUnit
      else case acc of
        None \<Rightarrow> Inl SrMissing
      | Some (owner_is_program, d) \<Rightarrow>
          if \<not> owner_is_program then Inl SrNotProgramOwned
          else if d = [] then Inl SrMissing
          else if length d \<noteq> HOST_SENT_RECORD_LEN \<and> length d \<noteq> LEGACY_SENT_RECORD_LEN
          then Inl (SrBadLength (length d))
          else
          bind_res (ok_or (host_decode_sent_record d) SrMalformed) (\<lambda>r.
          if sr_amount r = 0 \<and> sr_debridge_id r = 0 then Inl SrRetired
          else if sr_debridge_id r \<noteq> ev_debridge_id event then Inl (SrMismatch ''debridge_id'')
          else
          bind_res (ok_or (checked_mul (ev_amount event) unit) (SrMismatch ''amount'')) (\<lambda>expected_local.
          if sr_amount r \<noteq> expected_local then Inl (SrMismatch ''amount'')
          else if sr_mint r \<noteq> ev_mint event then Inl (SrMismatch ''mint'')
          else Inr r)))"

section \<open>Facts about events\<close>

lemma from_to_sent:
  assumes "to_sent e = Inr s"
  shows "from_sent s (ev_mint e) = e"
  using assms by (auto simp: to_sent_def from_sent_def option.map_comp comp_def auto_wire_inverse option.map_ident split: if_splits)

lemma to_from_sent:
  assumes "\<And>a. hs_auto s = Some a \<Longrightarrow> \<exists>w. a = wire_to_auto w (hs_native_sender s)"
  shows "to_sent (from_sent s mint) = Inr s"
proof (cases "hs_auto s")
  case None
  then show ?thesis by (simp add: to_sent_def from_sent_def)
next
  case (Some a)
  then obtain w where "a = wire_to_auto w (hs_native_sender s)" using assms by blast
  then have "wire_to_auto (auto_to_wire a) (hs_native_sender s) = a" by (simp add: auto_wire_inverse)
  then show ?thesis using Some by (simp add: to_sent_def from_sent_def)
qed

end
