(* ===== verification/HostLogs.thy ===== *)
theory HostLogs
  imports HostEvents
begin

text \<open>
  Reading logs (\<open>bridge-solana\<close>, relayer.rs): the event line round trip, and the
  attribution of lines to programs. The log of a transaction is modelled as the runtime
  prints it, frames of programs that nest on invocation; a program chooses the text of
  its own lines. The selection of lines is shown to return exactly the gate's.
\<close>

section \<open>White space\<close>

definition no_space :: "rust_str \<Rightarrow> bool" where
  "no_space s \<longleftrightarrow> s \<noteq> [] \<and> list_all (\<lambda>c. \<not> is_whitespace c) s"

lemma no_spaceD: "no_space s \<Longrightarrow> s \<noteq> [] \<and> (\<forall>c \<in> set s. \<not> is_whitespace c)"
  by (simp add: no_space_def list_all_iff)

lemma trim_id:
  assumes "s \<noteq> []" "\<not> is_whitespace (hd s)" "\<not> is_whitespace (last s)"
  shows "trim s = s"
proof -
  have "dropWhile P xs = xs" if "xs \<noteq> []" "\<not> P (hd xs)" for P and xs :: rust_str
    using that by (cases xs) auto
  then show ?thesis using assms by (simp add: trim_def hd_rev)
qed

lemma trim_space: "is_whitespace c \<Longrightarrow> trim (c # s) = trim s"
  by (simp add: trim_def)

lemma split_first:
  assumes "no_space a" "is_whitespace c"
  shows "split_whitespace (a @ c # s) = a # split_whitespace (c # s)"
proof -
  note na = no_spaceD [OF assms(1)]
  then obtain x xs where a: "a = x # xs" by (cases a) auto
  have "dropWhile is_whitespace (a @ c # s) = a @ c # s" using na by (simp add: a)
  moreover have "takeWhile (\<lambda>c. \<not> is_whitespace c) (a @ c # s) = a"
    "dropWhile (\<lambda>c. \<not> is_whitespace c) (a @ c # s) = c # s"
    using na assms(2) by (simp_all add: takeWhile_append2 dropWhile_append2)
  ultimately show ?thesis
    by (subst split_whitespace.simps) (simp add: a)
qed

lemma split_space: "is_whitespace c \<Longrightarrow> split_whitespace (c # s) = split_whitespace s"
  by (subst (1 2) split_whitespace.simps) simp

lemma split_one:
  assumes "no_space a"
  shows "split_whitespace a = [a]"
proof -
  note na = no_spaceD [OF assms]
  have "dropWhile is_whitespace a = a" using na by (cases a) auto
  moreover have "takeWhile (\<lambda>c. \<not> is_whitespace c) a = a" "dropWhile (\<lambda>c. \<not> is_whitespace c) a = []"
    using na by (simp_all add: takeWhile_eq_all_conv dropWhile_eq_Nil_conv)
  moreover have "split_whitespace [] = []" by (subst split_whitespace.simps) simp
  moreover obtain x xs where "a = x # xs" using na by (cases a) auto
  ultimately show ?thesis by (subst split_whitespace.simps) simp
qed

lemma space_32: "is_whitespace 32"
  by (simp add: is_whitespace_def)

section \<open>The event line\<close>

text \<open>Standard base64: it decodes what it encodes, and its alphabet has no white space.\<close>

definition b64_ok :: "b64_encoder \<Rightarrow> b64_decoder \<Rightarrow> bool" where
  "b64_ok enc dec \<longleftrightarrow> (\<forall>b. dec (enc b) = Some b \<and> (b \<noteq> [] \<longrightarrow> no_space (enc b)))"

lemma prefix_ends: "PROGRAM_DATA_PREFIX \<noteq> []" "\<not> is_whitespace (hd PROGRAM_DATA_PREFIX)"
  by (simp_all add: PROGRAM_DATA_PREFIX_def rstr_def is_whitespace_def)

lemma ser_sent_event_nonempty: "ser_sent_event e = Some b \<Longrightarrow> b \<noteq> []"
  by (auto simp: ser_sent_event_def ser_struct_simps ser_word_def le_bytes.simps(2) [of 0, unfolded One_nat_def [symmetric]]
      simp del: ser_seq.simps(2))

lemma event_line_parses:
  assumes "b64_ok enc dec" "sent_event_to_program_data_line enc e = Some line"
  shows "parse_sent_event_line dec line = Some (Inr e)"
    and "trim line = line" "starts_with line PROGRAM_DATA_PREFIX"
proof -
  obtain b where b: "ser_sent_event e = Some b"
    and l: "line = PROGRAM_DATA_PREFIX @ [32] @ enc SENT_EVENT_TAG @ [32] @ enc b"
    using assms(2) by (auto simp: sent_event_to_program_data_line_def split: Option.bind_splits)
  have "SENT_EVENT_TAG \<noteq> []" by (simp add: SENT_EVENT_TAG_def lit_def)
  then have t: "dec (enc SENT_EVENT_TAG) = Some SENT_EVENT_TAG" "no_space (enc SENT_EVENT_TAG)"
    using assms(1) unfolding b64_ok_def by blast+
  have p: "dec (enc b) = Some b" "no_space (enc b)"
    using assms(1) ser_sent_event_nonempty [OF b] unfolding b64_ok_def by blast+
  have lasts: "\<not> is_whitespace (last (enc b))" "\<not> is_whitespace (hd (enc SENT_EVENT_TAG))"
    using no_spaceD [OF p(2)] no_spaceD [OF t(2)] by simp_all
  show tl: "trim line = line"
    by (rule trim_id) (use prefix_ends lasts no_spaceD [OF p(2)] in \<open>auto simp: l\<close>)
  show st: "starts_with line PROGRAM_DATA_PREFIX" by (simp add: l starts_with_def)
  have "trim ([32] @ enc SENT_EVENT_TAG @ [32] @ enc b) = enc SENT_EVENT_TAG @ [32] @ enc b"
    using trim_space [OF space_32] trim_id [of "enc SENT_EVENT_TAG @ [32] @ enc b"] lasts no_spaceD [OF p(2)]
      no_spaceD [OF t(2)] by simp
  moreover have "split_whitespace (enc SENT_EVENT_TAG @ [32] @ enc b) = [enc SENT_EVENT_TAG, enc b]"
    using split_first [OF t(2) space_32] split_space [OF space_32] split_one [OF p(2)] by simp
  moreover have "strip_prefix (trim line) PROGRAM_DATA_PREFIX = Some ([32] @ enc SENT_EVENT_TAG @ [32] @ enc b)"
    using st by (simp add: tl strip_prefix_def) (simp add: l)
  ultimately show "parse_sent_event_line dec line = Some (Inr e)"
    by (simp add: parse_sent_event_line_def t p eventc.try_from_slice_ser [OF b])
qed

section \<open>Frames\<close>

text \<open>What a program prints: lines of its own, and the frames of the programs it invokes.\<close>

datatype log_item = LogLine rust_str | LogCall log_frame
and log_frame = LogFrame (frame_program: rust_str) (frame_depth: rust_str) (frame_items: "log_item list")
  (frame_end: rust_str)

definition invoke_line :: "rust_str \<Rightarrow> rust_str \<Rightarrow> rust_str" where
  "invoke_line who depth = rstr ''Program '' @ who @ rstr '' invoke ['' @ depth @ rstr '']''"

definition end_line :: "rust_str \<Rightarrow> rust_str \<Rightarrow> rust_str" where
  "end_line who reason = rstr ''Program '' @ who @ [32] @ reason"

primrec render_item :: "log_item \<Rightarrow> rust_str list" and render_frame :: "log_frame \<Rightarrow> rust_str list" where
  "render_item (LogLine l) = [l]"
| "render_item (LogCall f) = render_frame f"
| "render_frame (LogFrame who d items end) =
     invoke_line who d # concat (map render_item items) @ [end_line who end]"

text \<open>The data lines of a program's own frames, in order.\<close>

primrec own_item :: "rust_str \<Rightarrow> bool \<Rightarrow> log_item \<Rightarrow> rust_str list"
  and own_frame :: "rust_str \<Rightarrow> log_frame \<Rightarrow> rust_str list" where
  "own_item g mine (LogLine l) =
     (if mine \<and> starts_with (trim l) PROGRAM_DATA_PREFIX then [trim l] else [])"
| "own_item g mine (LogCall f) = own_frame g f"
| "own_frame g (LogFrame who d items end) = concat (map (own_item g (who = g)) items)"

definition plain_line :: "rust_str \<Rightarrow> bool" where
  "plain_line l \<longleftrightarrow> parse_invoke (trim l) = None \<and> parse_terminator (trim l) = None"

text \<open>The runtime's own lines: a program id without spaces, and a frame ends with success or failure.\<close>

definition frame_lines_ok :: "rust_str \<Rightarrow> rust_str \<Rightarrow> bool" where
  "frame_lines_ok who end \<longleftrightarrow> no_space who \<and>
     (end = rstr ''success'' \<or> (starts_with end (rstr ''failed'') \<and> \<not> is_whitespace (last end)))"

text \<open>A frame in which every program prints plain lines only: the gate and what it invokes.\<close>

primrec tame_item :: "log_item \<Rightarrow> bool" and tame_frame :: "log_frame \<Rightarrow> bool" where
  "tame_item (LogLine l) = plain_line l"
| "tame_item (LogCall f) = tame_frame f"
| "tame_frame (LogFrame who d items end) = (frame_lines_ok who end \<and> list_all tame_item items)"

text \<open>
  Any other frame: a program that is not the gate prints what it likes, even lines that
  read as the end of a frame, but for the line that opens a frame of the gate, which
  only the runtime prints; it may invoke the gate and others.
\<close>

primrec wild_item :: "rust_str \<Rightarrow> log_item \<Rightarrow> bool" and wild_frame :: "rust_str \<Rightarrow> log_frame \<Rightarrow> bool" where
  "wild_item g (LogLine l) = (parse_invoke (trim l) \<noteq> Some g)"
| "wild_item g (LogCall f) = (tame_frame f \<or> wild_frame g f)"
| "wild_frame g (LogFrame who d items end) =
     (who \<noteq> g \<and> frame_lines_ok who end \<and> list_all (wild_item g) items)"

section \<open>The selection is exact\<close>

lemma strip_prefix_append: "strip_prefix (p @ s) p = Some s"
  by (simp add: strip_prefix_def starts_with_def)

lemma split_once_word:
  assumes "\<forall>c \<in> set w. c \<noteq> 32"
  shows "split_once 32 (w @ 32 # s) = Some (w, s)"
  using assms by (induction w) auto

lemma word_no_32: "no_space w \<Longrightarrow> \<forall>c \<in> set w. c \<noteq> 32"
  using no_spaceD space_32 by blast

lemma program_line_trim:
  assumes "s \<noteq> []" "\<not> is_whitespace (last s)"
  shows "trim (rstr ''Program '' @ s) = rstr ''Program '' @ s"
proof (rule trim_id)
  show "\<not> is_whitespace (hd (rstr ''Program '' @ s))" by (simp add: rstr_def is_whitespace_def)
qed (use assms in simp_all)

lemma parse_invoke_line:
  assumes "no_space who"
  shows "parse_invoke (trim (invoke_line who d)) = Some who"
proof -
  have e: "rstr '' invoke ['' = 32 # rstr ''invoke [''" by (simp add: rstr_def)
  have "trim (invoke_line who d) = invoke_line who d"
    unfolding invoke_line_def by (rule program_line_trim) (simp_all add: rstr_def is_whitespace_def)
  moreover have "invoke_line who d = rstr ''Program '' @ who @ 32 # rstr ''invoke ['' @ d @ rstr '']''"
    by (simp add: invoke_line_def e)
  ultimately show ?thesis
    using split_once_word [OF word_no_32 [OF assms]]
    by (simp add: parse_invoke_def strip_prefix_append starts_with_def)
qed

lemma end_line_trim:
  assumes "frame_lines_ok who end"
  shows "trim (end_line who end) = end_line who end"
proof -
  have "end \<noteq> []" "\<not> is_whitespace (last end)"
    using assms by (auto simp: frame_lines_ok_def rstr_def starts_with_def is_whitespace_def)
  then show ?thesis unfolding end_line_def by (intro program_line_trim) simp_all
qed

lemma parse_end_line:
  assumes "frame_lines_ok who end"
  shows "parse_invoke (trim (end_line who end)) = None" "parse_terminator (trim (end_line who end)) \<noteq> None"
proof -
  have "no_space who" using assms by (simp add: frame_lines_ok_def)
  note sp = split_once_word [OF word_no_32 [OF this], of "end"]
  have "\<not> starts_with end (rstr ''invoke ['')"
    using assms by (cases "end") (auto simp: frame_lines_ok_def starts_with_def rstr_def)
  then show "parse_invoke (trim (end_line who end)) = None"
    using sp by (simp add: end_line_trim [OF assms] parse_invoke_def) (simp add: end_line_def strip_prefix_append)
  show "parse_terminator (trim (end_line who end)) \<noteq> None"
    using sp assms by (auto simp: end_line_trim [OF assms] parse_terminator_def frame_lines_ok_def)
      (auto simp: end_line_def strip_prefix_append)
qed

lemma data_lines_append:
  "data_lines g st (xs @ ys) =
     (let (o1, s1) = data_lines g st xs; (o2, s2) = data_lines g s1 ys in (o1 @ o2, s2))"
  by (induction g st xs rule: data_lines.induct)
    (auto simp: Let_def split: option.split prod.split if_splits)

lemma data_lines_frame:
  assumes "frame_lines_ok who end"
  shows "data_lines g st (render_frame (LogFrame who d items end)) =
    (let (out, st') = data_lines g (who # st) (concat (map render_item items)) in (out, tl st'))"
proof -
  have "no_space who" using assms by (simp add: frame_lines_ok_def)
  then show ?thesis
    using parse_end_line [OF assms]
    by (simp add: data_lines_append parse_invoke_line Let_def split: prod.split)
qed

lemma tame_lines:
  "tame_item i \<Longrightarrow> data_lines g (who # st) (render_item i) = (own_item g (who = g) i, who # st)"
  "tame_frame f \<Longrightarrow> data_lines g st (render_frame f) = (own_frame g f, st)"
proof (induction i and f arbitrary: who st and st)
  case (LogLine l)
  then show ?case by (simp add: plain_line_def Let_def)
next
  case (LogCall f)
  then show ?case by simp
next
  case (LogFrame who d items "end")
  have "data_lines g (who # st) (concat (map render_item items)) =
      (concat (map (own_item g (who = g)) items), who # st)"
    using LogFrame by (induction items) (simp_all add: data_lines_append)
  then show ?case using LogFrame.prems by (simp add: data_lines_frame del: render_frame.simps)
qed

lemma wild_lines:
  "wild_item g i \<Longrightarrow> g \<notin> set st \<Longrightarrow>
    \<exists>st'. g \<notin> set st' \<and> data_lines g st (render_item i) = (own_item g False i, st')"
  "wild_frame g f \<Longrightarrow> g \<notin> set st \<Longrightarrow>
    \<exists>st'. g \<notin> set st' \<and> data_lines g st (render_frame f) = (own_frame g f, st')"
proof (induction i and f arbitrary: st and st)
  case (LogLine l)
  have "g \<notin> set (tl st)" using LogLine.prems(2) by (cases st) auto
  moreover have "\<not> (st \<noteq> [] \<and> hd st = g)" using LogLine.prems(2) by auto
  ultimately show ?case using LogLine.prems by (auto simp: Let_def split: option.split)
next
  case (LogCall f)
  then show ?case using tame_lines(2) by (cases "tame_frame f") auto
next
  case (LogFrame who d items "end")
  have "\<exists>st'. g \<notin> set st' \<and> data_lines g st (concat (map render_item items)) =
      (concat (map (own_item g False) items), st')" if "g \<notin> set st" for st
    using LogFrame.IH LogFrame.prems(1) that
  proof (induction items arbitrary: st)
    case (Cons i items)
    obtain s1 where 1: "g \<notin> set s1" "data_lines g st (render_item i) = (own_item g False i, s1)"
      using Cons.prems(1) [of i st] Cons.prems(2,3) by auto
    obtain s2 where "g \<notin> set s2" "data_lines g s1 (concat (map render_item items)) =
        (concat (map (own_item g False) items), s2)"
      using Cons.IH [OF _ _ 1(1)] Cons.prems(1,2) by fastforce
    then show ?case using 1 by (simp add: data_lines_append)
  qed simp
  moreover have "g \<notin> set (who # st)" "who \<noteq> g" "frame_lines_ok who end" using LogFrame.prems by auto
  ultimately obtain st' where "g \<notin> set st'" "data_lines g (who # st) (concat (map render_item items)) =
      (concat (map (own_item g False) items), st')" by blast
  moreover have "g \<notin> set (tl st')" using \<open>g \<notin> set st'\<close> by (cases st') auto
  ultimately show ?case
    using \<open>who \<noteq> g\<close> \<open>frame_lines_ok who end\<close> by (simp add: data_lines_frame del: render_frame.simps)
qed

text \<open>
  C23. A transaction runs programs, one frame after the other; each prints lines and
  invokes further programs. If the lines of the gate and of what it invokes are plain,
  then whatever the other programs print, the lines that the relayer attributes to the
  gate are exactly the data lines the gate itself printed, in order.
\<close>

theorem attribution_exact:
  assumes "\<And>f. f \<in> set frames \<Longrightarrow> tame_frame f \<or> wild_frame g f"
  shows "gate_program_data_lines (concat (map render_frame frames)) g = concat (map (own_frame g) frames)"
proof -
  have "\<exists>st'. g \<notin> set st' \<and> data_lines g st (concat (map render_frame frames)) =
      (concat (map (own_frame g) frames), st')" if "g \<notin> set st" for st
    using assms that
  proof (induction frames arbitrary: st)
    case (Cons f frames)
    have "tame_frame f \<or> wild_frame g f" using Cons.prems(1) by simp
    then obtain s1 where 1: "g \<notin> set s1" "data_lines g st (render_frame f) = (own_frame g f, s1)"
      using tame_lines(2) wild_lines(2) Cons.prems(2) by blast
    obtain s2 where "g \<notin> set s2" "data_lines g s1 (concat (map render_frame frames)) =
        (concat (map (own_frame g) frames), s2)"
      using Cons.IH [OF _ 1(1)] Cons.prems(1) by auto
    then show ?case using 1 by (simp add: data_lines_append)
  qed simp
  from this [of "[]"] show ?thesis by (auto simp: gate_program_data_lines_def)
qed

text \<open>
  A program invokes the gate and then forges: it prints a line that reads as the end of
  its frame, and a data line that is not the gate's. Only the gate's line is kept.
\<close>

definition demo_gate_name :: rust_str where "demo_gate_name = rstr ''Gate''"

definition demo_frames :: "log_frame list" where
  "demo_frames =
     [LogFrame (rstr ''Evil'') (rstr ''1'')
        [LogCall (LogFrame demo_gate_name (rstr ''2'')
           [LogLine (rstr ''Program log: sent''),
            LogCall (LogFrame (rstr ''Token'') (rstr ''3'') [LogLine (rstr ''Program log: moved'')] (rstr ''success'')),
            LogLine (rstr ''Program data: AAAA'')] (rstr ''success'')),
         LogLine (rstr ''Program log: success''), LogLine (rstr ''Program data: BBBB'')] (rstr ''success'')]"

lemmas log_text_defs = plain_line_def parse_invoke_def parse_terminator_def trim_def is_whitespace_def rstr_def
  strip_prefix_def starts_with_def frame_lines_ok_def no_space_def PROGRAM_DATA_PREFIX_def

text \<open>A line that a program prints can have the shape of a frame line.\<close>

lemma printed_line_taken_for_frame:
  "parse_terminator (rstr ''Program log: success'') = Some (rstr ''log:'')"
  "parse_invoke (rstr ''Program log: invoke [1]'') = Some (rstr ''log:'')"
  by (simp_all add: log_text_defs)

lemma demo_frames_ok:
  assumes "f \<in> set demo_frames"
  shows "tame_frame f \<or> wild_frame demo_gate_name f"
proof -
  have "list_all (wild_frame demo_gate_name) demo_frames" by (simp add: demo_frames_def demo_gate_name_def log_text_defs)
  then show ?thesis using assms by (simp add: list_all_iff)
qed

theorem attribution_exact_witness:
  "gate_program_data_lines (concat (map render_frame demo_frames)) demo_gate_name = [rstr ''Program data: AAAA'']"
proof -
  have "concat (map (own_frame demo_gate_name) demo_frames) = [rstr ''Program data: AAAA'']"
    by (simp add: demo_frames_def demo_gate_name_def log_text_defs)
  then show ?thesis using attribution_exact [of demo_frames demo_gate_name, OF demo_frames_ok] by simp
qed

end
