(* ===== verification/RelayerScan.thy ===== *)
theory RelayerScan
  imports RelayerQuorum HostLogs
begin

text \<open>
  The Solana relayer as a scanner (\<open>crates/solana-relayer\<close>, source.rs, state.rs,
  store.rs): it reads the gate's transactions, checks every event against the gate's
  own accounts, and hands a signed record to the store. What the RPC node, the
  destination gates and the store answer are parameters, as are base64, hex and the
  signing function; an answer that is missing is a fault in transit. Warnings in the
  log and the file the cursor is saved to are left out.
\<close>

section \<open>The allowlist\<close>

record allowlist =
  al_debridge_ids :: "rust_str list"
  al_chains :: "(u64 \<times> u64) list"

text \<open>\<open>HashSet\<close>s are lists here; the rows of the two tables are given as their keys.\<close>

definition from_parts :: "rust_str list \<Rightarrow> (u64 \<times> u64) list \<Rightarrow> allowlist" where
  "from_parts tokens pairs =
     \<lparr>al_debridge_ids = map to_ascii_lowercase tokens, al_chains = pairs\<rparr>"

definition token_allowed :: "allowlist \<Rightarrow> rust_str \<Rightarrow> bool" where
  "token_allowed a did \<longleftrightarrow>
     al_debridge_ids a = [] \<or> to_ascii_lowercase did \<in> set (al_debridge_ids a)"

definition chain_allowed :: "allowlist \<Rightarrow> u64 \<Rightarrow> u64 \<Rightarrow> bool" where
  "chain_allowed a cf ct \<longleftrightarrow> al_chains a = [] \<or> (cf, ct) \<in> set (al_chains a)"

definition allowlist_permits :: "allowlist option \<Rightarrow> rust_str \<Rightarrow> u64 \<Rightarrow> u64 \<Rightarrow> bool" where
  "allowlist_permits al did cf ct =
     (case al of None \<Rightarrow> True | Some a \<Rightarrow> token_allowed a did \<and> chain_allowed a cf ct)"

section \<open>State and answers\<close>

text \<open>
  Why an event was quarantined. The code keeps the reason as text; the constructors
  stand for the texts.
\<close>

datatype reason = RMalformed event_error | RVersion u8 | RIdMismatch bytes32 bytes32
  | RChainMismatch u64 u64 | RStoreRefused nat

type_synonym tx_signature = rust_str

record cursor =
  last_signature :: "tx_signature option"
  quarantined :: "(tx_signature \<times> reason) list"

record scanner =
  sc_cursor :: cursor
  sc_allowlist :: "allowlist option"
  sc_scale_cache :: "(u64 \<times> bytes32) \<rightharpoonup> u8"
  sc_outbox :: "submission_record list"

text \<open>\<open>sc_outbox\<close> collects the records handed to the store: the signatures that leave the process.\<close>

datatype upsert_reply = Stored | Rejected nat | Unreachable

record answers =
  an_account :: "pubkey \<Rightarrow> account option option"
  an_decimals :: "u64 \<Rightarrow> bytes32 \<Rightarrow> u8 option option"
  an_upsert :: "submission_record \<Rightarrow> upsert_reply"

record scan_config =
  cx_program_id :: pubkey
  cx_bridge_domain :: bytes32
  cx_chain_id :: u64
  cx_evm_gates :: "u64 list"
  cx_signer :: rust_str
  cx_sign :: "bytes32 \<Rightarrow> bytes \<times> u8"
  cx_hex :: "bytes \<Rightarrow> rust_str"
  cx_b64 :: b64_decoder
  cx_program_name :: rust_str
  cx_sig_from_str :: "rust_str \<Rightarrow> tx_signature option"
  cx_start_at_tip :: bool
  cx_max_batch :: nat

datatype scan_error = EAhead u8 | ETransit | EUnsignable reason | EPermanent reason | ETooDeep | EBadSignature
  | EUnreachable

definition MAX_QUARANTINED :: nat where "MAX_QUARANTINED = 1024"

definition cursor_quarantine :: "cursor \<Rightarrow> tx_signature \<Rightarrow> reason \<Rightarrow> bool \<times> cursor" where
  "cursor_quarantine c tx r =
     (if (tx, r) \<in> set (quarantined c) then (False, c)
      else
        let q = quarantined c @ [(tx, r)] in
        (True, c\<lparr>quarantined := (if length q > MAX_QUARANTINED then drop (length q - MAX_QUARANTINED) q else q)\<rparr>))"

definition is_permanent :: "nat \<Rightarrow> bool" where
  "is_permanent status \<longleftrightarrow> status = 400 \<or> status = 409 \<or> status = 413 \<or> status = 422"

section \<open>Checks of one event\<close>

definition recompute :: "env \<Rightarrow> host_sent \<Rightarrow> bytes32 \<Rightarrow> bytes32" where
  "recompute E s domain =
     (case hs_auto s of
        None \<Rightarrow> host_submission_id (keccak E) domain (hs_debridge_id s) (hs_bridge_decimals s)
          (host_amount_word (ucast (hs_amount s))) (hs_chain_id_from s) (hs_chain_id_to s) (hs_nonce s) (hs_receiver s)
      | Some auto \<Rightarrow> host_submission_id_with_auto (keccak E) domain (hs_debridge_id s) (hs_bridge_decimals s)
          (host_amount_word (ucast (hs_amount s))) (hs_chain_id_from s) (hs_chain_id_to s) (hs_nonce s) (hs_receiver s)
          auto)"

definition signable :: "env \<Rightarrow> host_sent \<Rightarrow> bytes32 \<Rightarrow> u64 \<Rightarrow> reason + unit" where
  "signable E s domain chain =
     (if recompute E s domain \<noteq> hs_submission_id s
      then Inl (RIdMismatch (hs_submission_id s) (recompute E s domain))
      else if hs_chain_id_from s \<noteq> chain then Inl (RChainMismatch (hs_chain_id_from s) chain)
      else Inr ())"

definition payload_version :: "b64_decoder \<Rightarrow> rust_str \<Rightarrow> u8 option" where
  "payload_version dec line = do {
     rest \<leftarrow> strip_prefix (trim line) PROGRAM_DATA_PREFIX;
     payload \<leftarrow> (case split_whitespace rest of _ # p # _ \<Rightarrow> Some p | _ \<Rightarrow> None);
     b \<leftarrow> dec payload;
     case b of [] \<Rightarrow> None | v # _ \<Rightarrow> Some v }"

text \<open>An account's \<open>bridge_unit\<close>; a reply that is missing is a fault.\<close>

definition asset_account_unit :: "asset_config \<Rightarrow> u64 option" where
  "asset_account_unit a = do {
     ex \<leftarrow> checked_sub (as_local_decimals a) (as_bridge_decimals a);
     checked_pow 10 (unat ex) }"

definition asset_for :: "env \<Rightarrow> scan_config \<Rightarrow> answers \<Rightarrow> bytes32 \<Rightarrow> scan_error + asset_config option" where
  "asset_for E cx an did =
     bind_res (ok_or (an_account an (pda E (cx_program_id cx) [lit ''asset'', arr_bytes did])) ETransit) (\<lambda>acc.
     case acc of
       None \<Rightarrow> Inr None
     | Some a \<Rightarrow>
         if acct_owner a \<noteq> cx_program_id cx then Inr None
         else Inr (deserialize de_asset_config (acct_data a)))"

definition origin_proof_holds ::
  "env \<Rightarrow> scan_config \<Rightarrow> answers \<Rightarrow> sent_event \<Rightarrow> host_sent \<Rightarrow> asset_config \<Rightarrow> scan_error + bool" where
  "origin_proof_holds E cx an event s asset =
     bind_res (ok_or (an_account an (pda E (cx_program_id cx) [lit ''sent'', arr_bytes (hs_submission_id s)])) ETransit)
     (\<lambda>acc.
     let view = map_option (\<lambda>a. (acct_owner a = cx_program_id cx, acct_data a)) acc in
     case asset_account_unit asset of
       None \<Rightarrow> Inr False
     | Some unit \<Rightarrow>
         (case verify_sent_record view event unit of Inr _ \<Rightarrow> Inr True | Inl _ \<Rightarrow> Inr False))"

text \<open>The cache keeps successful reads only.\<close>

definition scale_agrees ::
  "scan_config \<Rightarrow> answers \<Rightarrow> host_sent \<Rightarrow> asset_config \<Rightarrow> scanner \<Rightarrow> (scan_error + bool) \<times> scanner" where
  "scale_agrees cx an s asset st =
     (if hs_chain_id_to s \<notin> set (cx_evm_gates cx) then (Inr False, st)
      else
        let key = (hs_chain_id_to s, hs_debridge_id s) in
        case sc_scale_cache st key of
          Some d \<Rightarrow> (Inr (d = as_bridge_decimals asset), st)
        | None \<Rightarrow>
            (case an_decimals an (hs_chain_id_to s) (hs_debridge_id s) of
               None \<Rightarrow> (Inl ETransit, st)
             | Some None \<Rightarrow> (Inr False, st)
             | Some (Some d) \<Rightarrow>
                 (Inr (d = as_bridge_decimals asset), st\<lparr>sc_scale_cache := (sc_scale_cache st)(key \<mapsto> d)\<rparr>)))"

section \<open>Signing\<close>

definition hex0x :: "scan_config \<Rightarrow> bytes \<Rightarrow> rust_str" where
  "hex0x cx b = rstr ''0x'' @ cx_hex cx b"

definition sign :: "env \<Rightarrow> scan_config \<Rightarrow> bytes32 \<Rightarrow> rust_str" where
  "sign E cx digest32 =
     (let (rs, recid) = cx_sign cx (host_eth_signed_digest (keccak E) digest32) in hex0x cx (rs @ [recid + 27]))"

definition signed_record :: "env \<Rightarrow> scan_config \<Rightarrow> host_sent \<Rightarrow> submission_record" where
  "signed_record E cx s =
     \<lparr>rc_submission_id = hex0x cx (arr_bytes (hs_submission_id s)),
      rc_bridge_domain = hex0x cx (arr_bytes (cx_bridge_domain cx)),
      rc_debridge_id = hex0x cx (arr_bytes (hs_debridge_id s)),
      rc_amount = dec_digits (unat (hs_amount s)),
      rc_bridge_decimals = Some (hs_bridge_decimals s),
      rc_chain_id_from = hs_chain_id_from s, rc_chain_id_to = hs_chain_id_to s, rc_nonce = hs_nonce s,
      rc_receiver = hex0x cx (hs_receiver s),
      rc_auto_params = (case hs_auto s of None \<Rightarrow> rstr ''0x''
        | Some auto \<Rightarrow> hex0x cx (encode_evm_auto_params (auto_to_wire auto))),
      rc_native_sender = hex0x cx (hs_native_sender s), rc_token = [],
      rc_signatures = [\<lparr>ss_signer = cx_signer cx, ss_signature = sign E cx (hs_submission_id s)\<rparr>],
      rc_cancel_signatures = [], rc_refund_signatures = []\<rparr>"

text \<open>\<open>store.upsert\<close> and the sorting of its answer.\<close>

definition post_record :: "answers \<Rightarrow> submission_record \<Rightarrow> scanner \<Rightarrow> (scan_error + bool) \<times> scanner" where
  "post_record an rc st =
     (let st = st\<lparr>sc_outbox := sc_outbox st @ [rc]\<rparr> in
      case an_upsert an rc of
        Stored \<Rightarrow> (Inr True, st)
      | Rejected status \<Rightarrow> (Inl (if is_permanent status then EPermanent (RStoreRefused status) else ETransit), st)
      | Unreachable \<Rightarrow> (Inl ETransit, st))"

definition handle ::
  "env \<Rightarrow> scan_config \<Rightarrow> answers \<Rightarrow> sent_event \<Rightarrow> host_sent \<Rightarrow> scanner \<Rightarrow> (scan_error + bool) \<times> scanner" where
  "handle E cx an event s st =
     (case signable E s (cx_bridge_domain cx) (cx_chain_id cx) of
        Inl r \<Rightarrow> (Inl (EUnsignable r), st)
      | Inr _ \<Rightarrow>
     (case asset_for E cx an (ev_debridge_id event) of
        Inl e \<Rightarrow> (Inl e, st)
      | Inr None \<Rightarrow> (Inr False, st)
      | Inr (Some asset) \<Rightarrow>
     (case origin_proof_holds E cx an event s asset of
        Inl e \<Rightarrow> (Inl e, st)
      | Inr False \<Rightarrow> (Inr False, st)
      | Inr True \<Rightarrow>
     (case scale_agrees cx an s asset st of
        (Inl e, st) \<Rightarrow> (Inl e, st)
      | (Inr False, st) \<Rightarrow> (Inr False, st)
      | (Inr True, st) \<Rightarrow>
          if \<not> allowlist_permits (sc_allowlist st) (hex0x cx (arr_bytes (hs_debridge_id s)))
                (hs_chain_id_from s) (hs_chain_id_to s)
          then (Inr False, st)
          else post_record an (signed_record E cx s) st))))"

definition quarantine :: "tx_signature \<Rightarrow> reason \<Rightarrow> scanner \<Rightarrow> (scan_error + bool) \<times> scanner" where
  "quarantine tx r st = (Inr False, st\<lparr>sc_cursor := snd (cursor_quarantine (sc_cursor st) tx r)\<rparr>)"

definition process_line ::
  "env \<Rightarrow> scan_config \<Rightarrow> answers \<Rightarrow> rust_str \<Rightarrow> tx_signature \<Rightarrow> scanner \<Rightarrow> (scan_error + bool) \<times> scanner" where
  "process_line E cx an line tx st =
     (case parse_sent_event_line (cx_b64 cx) line of
        None \<Rightarrow> (Inr False, st)
      | Some (Inl e) \<Rightarrow>
          (case payload_version (cx_b64 cx) line of
             Some v \<Rightarrow> if v > SENT_EVENT_VERSION then (Inl (EAhead v), st) else quarantine tx (RMalformed e) st
           | None \<Rightarrow> quarantine tx (RMalformed e) st)
      | Some (Inr event) \<Rightarrow>
          if ev_version event > SENT_EVENT_VERSION then (Inl (EAhead (ev_version event)), st)
          else
          (case to_sent event of
             Inl v \<Rightarrow> quarantine tx (RVersion v) st
           | Inr s \<Rightarrow>
               (case signable E s (cx_bridge_domain cx) (cx_chain_id cx) of
                  Inl r \<Rightarrow> quarantine tx r st
                | Inr _ \<Rightarrow>
                    (case handle E cx an event s st of
                       (Inl (EPermanent r), st) \<Rightarrow> quarantine tx r st
                     | other \<Rightarrow> other))))"

section \<open>Pages of signatures\<close>

datatype page_action = Complete | KeepWalking | TooDeep

definition MAX_PAGES :: nat where "MAX_PAGES = 100"

definition walks_to_start :: "bool \<Rightarrow> bool \<Rightarrow> bool" where
  "walks_to_start has_cursor start_at_tip \<longleftrightarrow> has_cursor \<or> \<not> start_at_tip"

definition next_page_action :: "nat \<Rightarrow> nat \<Rightarrow> bool \<Rightarrow> nat \<Rightarrow> page_action" where
  "next_page_action page_len max_batch walk_to_start page_index =
     (if page_len < max_batch then Complete
      else if \<not> walk_to_start then Complete
      else if page_index + 1 \<ge> MAX_PAGES then TooDeep
      else KeepWalking)"

record entry =
  en_signature :: rust_str
  en_failed :: bool

text \<open>
  \<open>pages i before until\<close> is the node's answer to the request of page \<open>i\<close>, newest first.
\<close>

type_synonym page_source = "nat \<Rightarrow> tx_signature option \<Rightarrow> tx_signature option \<Rightarrow> entry list option"

fun collect_loop ::
  "scan_config \<Rightarrow> page_source \<Rightarrow> tx_signature option \<Rightarrow> nat \<Rightarrow> nat \<Rightarrow> tx_signature option \<Rightarrow> entry list \<Rightarrow>
   scan_error + entry list" where
  "collect_loop cx pages until 0 page before newest_first = Inl EUnreachable"
| "collect_loop cx pages until (Suc left) page before newest_first =
     bind_res (ok_or (pages page before until) ETransit) (\<lambda>sigs.
     let act = next_page_action (length sigs) (cx_max_batch cx)
           (walks_to_start (until \<noteq> None) (cx_start_at_tip cx)) page;
         newest_first = newest_first @ sigs in
     case act of
       Complete \<Rightarrow> Inr (rev newest_first)
     | TooDeep \<Rightarrow> Inl ETooDeep
     | KeepWalking \<Rightarrow>
         (case (if sigs = [] then None else cx_sig_from_str cx (en_signature (last sigs))) of
            Some b \<Rightarrow> collect_loop cx pages until left (page + 1) (Some b) newest_first
          | None \<Rightarrow> Inl EBadSignature))"

definition collect_since_cursor :: "scan_config \<Rightarrow> page_source \<Rightarrow> cursor \<Rightarrow> scan_error + entry list" where
  "collect_since_cursor cx pages c =
     collect_loop cx pages (Option.bind (last_signature c) (cx_sig_from_str cx)) MAX_PAGES 0 None []"

section \<open>One tick\<close>

text \<open>
  \<open>logs_of\<close> is the node's answer for a transaction, \<open>an tx i\<close> the answers while line
  \<open>i\<close> of its gate lines is handled. The cursor moves when a transaction is done.
\<close>

fun tick_lines ::
  "env \<Rightarrow> scan_config \<Rightarrow> (nat \<Rightarrow> answers) \<Rightarrow> tx_signature \<Rightarrow> nat \<Rightarrow> rust_str list \<Rightarrow> nat \<Rightarrow> scanner \<Rightarrow>
   (scan_error + nat) \<times> scanner" where
  "tick_lines E cx an tx i [] handled st = (Inr handled, st)"
| "tick_lines E cx an tx i (line # ls) handled st =
     (case process_line E cx (an i) line tx st of
        (Inl e, st) \<Rightarrow> (Inl e, st)
      | (Inr b, st) \<Rightarrow> tick_lines E cx an tx (Suc i) ls (if b then handled + 1 else handled) st)"

definition advance :: "entry \<Rightarrow> scanner \<Rightarrow> scanner" where
  "advance e st = st\<lparr>sc_cursor := (sc_cursor st)\<lparr>last_signature := Some (en_signature e)\<rparr>\<rparr>"

fun tick_entries ::
  "env \<Rightarrow> scan_config \<Rightarrow> (rust_str \<Rightarrow> rust_str list option) \<Rightarrow> (rust_str \<Rightarrow> nat \<Rightarrow> answers) \<Rightarrow> entry list \<Rightarrow>
   nat \<Rightarrow> scanner \<Rightarrow> (scan_error + nat) \<times> scanner" where
  "tick_entries E cx logs_of an [] handled st = (Inr handled, st)"
| "tick_entries E cx logs_of an (e # es) handled st =
     (if en_failed e then tick_entries E cx logs_of an es handled (advance e st)
      else
        case cx_sig_from_str cx (en_signature e) of
          None \<Rightarrow> (Inl EBadSignature, st)
        | Some _ \<Rightarrow>
            (case logs_of (en_signature e) of
               None \<Rightarrow> (Inl ETransit, st)
             | Some ls \<Rightarrow>
                 (case tick_lines E cx (an (en_signature e)) (en_signature e) 0
                     (gate_program_data_lines ls (cx_program_name cx)) handled st of
                    (Inl err, st) \<Rightarrow> (Inl err, st)
                  | (Inr handled, st) \<Rightarrow> tick_entries E cx logs_of an es handled (advance e st))))"

definition tick ::
  "env \<Rightarrow> scan_config \<Rightarrow> allowlist option \<Rightarrow> page_source \<Rightarrow> (rust_str \<Rightarrow> rust_str list option) \<Rightarrow>
   (rust_str \<Rightarrow> nat \<Rightarrow> answers) \<Rightarrow> scanner \<Rightarrow> (scan_error + nat) \<times> scanner" where
  "tick E cx fetched pages logs_of an st =
     (case fetched of
        None \<Rightarrow> (Inl ETransit, st)
      | Some al \<Rightarrow>
          let st = st\<lparr>sc_allowlist := Some al\<rparr> in
          case collect_since_cursor cx pages (sc_cursor st) of
            Inl e \<Rightarrow> (Inl e, st)
          | Inr es \<Rightarrow> tick_entries E cx logs_of an es 0 st)"

end
