(* ===== verification/RelayerOrigin.thy ===== *)
theory RelayerOrigin
  imports RelayerScan
begin

text \<open>
  The scanner and the gate program together. What the scanner signs was sent: behind
  every record it hands out there is a send of the gate's history with those fields.
  What was sent is signed: the event of a successful send passes every check.
\<close>

section \<open>Sends and their events\<close>

definition send_event :: "env \<Rightarrow> config \<Rightarrow> asset_config \<Rightarrow> send_args \<Rightarrow> pubkey \<Rightarrow> u64 \<Rightarrow> sent_event" where
  "send_event E cfg asset args sender wire =
     \<lparr>ev_version = SENT_EVENT_VERSION,
      ev_submission_id = submission_id E (bridge_domain cfg) (sa_debridge_id args) (as_bridge_decimals asset) wire
        (chain_id cfg) (sa_chain_id_to args) (nonce_of cfg (sa_chain_id_to args)) (sa_receiver args) (sa_auto args)
        (arr_bytes sender),
      ev_debridge_id = sa_debridge_id args, ev_mint = as_mint asset, ev_amount = wire,
      ev_bridge_decimals = as_bridge_decimals asset, ev_chain_id_from = chain_id cfg,
      ev_chain_id_to = sa_chain_id_to args, ev_nonce = nonce_of cfg (sa_chain_id_to args),
      ev_receiver = sa_receiver args, ev_native_sender = arr_bytes sender, ev_auto = sa_auto args\<rparr>"

lemma send_event_sid: "ev_submission_id (send_event E cfg asset args sender wire) =
    event_sid E (bridge_domain cfg) (send_event E cfg asset args sender wire)"
  by (simp add: send_event_def event_sid_def)

lemma send_event_at_time [simp]: "send_event (at_time E t) = send_event E"
  by (simp add: send_event_def fun_eq_iff)

definition event_record :: "sent_event \<Rightarrow> send_args \<Rightarrow> pubkey \<Rightarrow> pubkey \<Rightarrow> i64 \<Rightarrow> sent_record" where
  "event_record ev args sender source now =
     \<lparr>sr_debridge_id = sa_debridge_id args, sr_sender = sender, sr_source_token = source,
      sr_mint = ev_mint ev, sr_amount = sa_amount args, sr_locked_at = now\<rparr>"

text \<open>What a successful send does to the gate's accounts and to the log.\<close>

lemma send_effect:
  assumes "process_send E pid accs args w = Inr w'" "runtime_ok E pid"
  shows "\<exists>cfg asset wire ev dc cfg' ds now.
    gate_config E pid w = Some cfg \<and> load_asset E pid (sa_debridge_id args) (accs ! 1) w = Inr asset \<and>
    to_wire asset (sa_amount args) = Inr wire \<and> receiver_width_ok (sa_receiver args) \<and> sa_amount args \<noteq> 0 \<and>
    ev = send_event E cfg asset args (ai_key (accs ! 2)) wire \<and>
    store pid w' = (store pid w)(pda E pid [lit ''config''] \<mapsto> dc,
      pda E pid [lit ''sent'', arr_bytes (ev_submission_id ev)] \<mapsto> ds) \<and>
    deserialize de_config dc = Some cfg' \<and>
    decode_sent_record ds = Inr (event_record ev args (ai_key (accs ! 2)) (ai_key (accs ! 3)) now) \<and>
    length ds = SENT_RECORD_LEN \<and> clock_get E = Inr now \<and>
    (\<exists>b. ser_sent_event ev = Some b \<and> logs w' = logs w @ [[SENT_EVENT_TAG, b]]) \<and>
    store pid w (pda E pid [lit ''sent'', arr_bytes (ev_submission_id ev)]) = None"
proof -
  from assms(1) obtain config_ai asset_ai payer user_token vault tp sent_ai sys rest
    where accs: "accs = config_ai # asset_ai # payer # user_token # vault # tp # sent_ai # sys # rest"
    by (rule send_accs)
  from process_send_success [OF assms(1) [unfolded accs]]
  obtain cfg asset wire cfg' w1 now w2 w3 bump sid tk au infos where
    a: "load_config E pid config_ai w = Inr cfg" "load_asset E pid (sa_debridge_id args) asset_ai w = Inr asset"
      "to_wire asset (sa_amount args) = Inr wire" "receiver_width_ok (sa_receiver args)" "sa_amount args \<noteq> 0"
      "bump_nonce cfg (sa_chain_id_to args) = Inr cfg'"
    and s: "config_store cfg' config_ai w = Inr w1"
    and k: "ai_key sent_ai = pda E pid [lit ''sent'', arr_bytes sid]"
    and sid: "sid = submission_id E (bridge_domain cfg) (sa_debridge_id args) (as_bridge_decimals asset) wire
        (chain_id cfg) (sa_chain_id_to args) (nonce_of cfg (sa_chain_id_to args))
        (sa_receiver args) (sa_auto args) (arr_bytes (ai_key payer))"
    and ck0: "clock_get E = Inr now"
    and r: "create_sent_record E pid payer sent_ai sys sid bump
        \<lparr>sr_debridge_id = sa_debridge_id args, sr_sender = ai_key payer,
         sr_source_token = ai_key user_token, sr_mint = as_mint asset,
         sr_amount = sa_amount args, sr_locked_at = now\<rparr> w1 = Inr w2" (is "create_sent_record _ _ _ _ _ _ _ ?r _ = _")
    and e: "emit_sent sid args wire (as_bridge_decimals asset) (chain_id cfg')
        (nonce_of cfg (sa_chain_id_to args)) (arr_bytes (ai_key payer)) (as_mint asset) w2 = Inr w3"
    and i: "invoke E pid (SplTransfer tk (ai_key user_token) (ai_key vault) au (sa_amount args)) infos w3 = Inr w'"
    by (elim exE conjE) (rule that)
  define ev where "ev = send_event E cfg asset args (ai_key payer) wire"
  have es: "ev_submission_id ev = sid" by (simp add: ev_def send_event_def sid)
  have er: "event_record ev args (ai_key payer) (ai_key user_token) now = ?r"
    by (simp add: ev_def send_event_def event_record_def)
  have ck: "ai_key config_ai = pda E pid [lit ''config'']" and o: "owner_of w config_ai = pid"
    using a(1) by (auto simp: load_config_Inr)
  from s o obtain dc where dc: "store pid w1 = (store pid w)(ai_key config_ai \<mapsto> dc)"
    "deserialize de_config dc = Some cfg'" by (rule store_config_store)
  note sr = store_create_sent [OF r assms(2)]
  obtain ds where ds: "store pid w2 = (store pid w1)(ai_key sent_ai \<mapsto> ds)" "decode_sent_record ds = Inr ?r"
    using sr(2) by blast
  have "length ds = SENT_RECORD_LEN"
  proof -
    have "system_rule E pid" using assms(2) by (simp add: runtime_ok_def)
    moreover have "ds = data_of w2 sent_ai" using ds(1) by (metis fun_upd_same store_eq_iff)
    ultimately show ?thesis using create_sent_record_effect(7) [OF r] by simp
  qed
  moreover have n: "store pid w (ai_key sent_ai) = None"
    using sr(1) dc(1) by (metis fun_upd_apply option.simps(3))
  obtain b where b: "ser_sent_event ev = Some b" "w3 = sol_log_data [SENT_EVENT_TAG, b] w2"
    using e config_le_bump [OF a(6)] by (auto simp: emit_sent_def res_simps ev_def send_event_def sid config_le_def)
  have "store pid w' = store pid w2"
    using store_spl_transfer [OF assms(2) i [unfolded invoke_def]] store_same_accts [OF emit_sent_Inr [OF e]]
    by simp
  moreover have "logs w1 = logs w" using s by (rule config_store_Inr) simp
  moreover have "logs w2 = logs w1"
    using create_sent_record_effect(5) [OF r] assms(2) by (simp add: runtime_ok_def)
  moreover have "logs w' = logs w3" using invoke_signed_logs [OF i [unfolded invoke_def]] .
  ultimately show ?thesis
    using a gate_config_load [OF a(1)] dc ds b k ck n er es ck0
    by (intro exI [of _ cfg] exI [of _ asset] exI [of _ wire] exI [of _ ev] exI [of _ dc] exI [of _ cfg']
        exI [of _ ds] exI [of _ now])
      (simp add: accs ev_def [symmetric])
qed

section \<open>Sends of a run\<close>

definition sent_in ::
  "env \<Rightarrow> pubkey \<Rightarrow> world \<Rightarrow> run_event list \<Rightarrow> world \<Rightarrow> i64 \<Rightarrow> send_args \<Rightarrow> pubkey \<Rightarrow> config \<Rightarrow>
   asset_config \<Rightarrow> u64 \<Rightarrow> bool" where
  "sent_in E pid w0 es w now args sender cfg asset wire \<longleftrightarrow>
     (\<exists>es1 accs es2 w1 w2.
        es = es1 @ Executed now accs (Send args) # es2 \<and> gate_run E pid w0 es1 w1 \<and>
        gate_step (at_time E now) pid accs (Send args) w1 = Inr w2 \<and> gate_run E pid w2 es2 w \<and>
        gate_config E pid w1 = Some cfg \<and> load_asset E pid (sa_debridge_id args) (accs ! 1) w1 = Inr asset \<and>
        to_wire asset (sa_amount args) = Inr wire \<and> sender = ai_key (accs ! 2))"

text \<open>One more event of a run.\<close>

inductive run_one :: "env \<Rightarrow> pubkey \<Rightarrow> world \<Rightarrow> run_event \<Rightarrow> world \<Rightarrow> bool" for E pid w where
  ev_ix: "gate_step (at_time E now) pid accs ix w = Inr w' \<Longrightarrow> run_one E pid w (Executed now accs ix) w'"
| ev_foreign: "foreign_step E pid w w' \<Longrightarrow> run_one E pid w Foreign w'"

lemma run_more: "gate_run E pid w0 es w \<Longrightarrow> run_one E pid w e w' \<Longrightarrow> gate_run E pid w0 (es @ [e]) w'"
  by (auto elim!: run_one.cases intro: gate_run.intros)

lemma sent_in_snoc:
  assumes "sent_in E pid w0 es w now args sender cfg asset wire" "run_one E pid w e w'"
  shows "sent_in E pid w0 (es @ [e]) w' now args sender cfg asset wire"
proof -
  obtain es1 accs es2 w1 w2 where a: "es = es1 @ Executed now accs (Send args) # es2" "gate_run E pid w2 es2 w"
    "gate_run E pid w0 es1 w1" "gate_step (at_time E now) pid accs (Send args) w1 = Inr w2"
    "gate_config E pid w1 = Some cfg" "load_asset E pid (sa_debridge_id args) (accs ! 1) w1 = Inr asset"
    "to_wire asset (sa_amount args) = Inr wire" "sender = ai_key (accs ! 2)"
    using assms(1) unfolding sent_in_def by (elim exE conjE) (rule that)
  have "gate_run E pid w2 (es2 @ [e]) w'" by (rule run_more [OF a(2) assms(2)])
  then show ?thesis
    unfolding sent_in_def
    by (intro exI [of _ es1] exI [of _ accs] exI [of _ "es2 @ [e]"] exI [of _ w1] exI [of _ w2]) (use a in simp)
qed

text \<open>
  The contents of a record: what a send of the run wrote, under the id it is stored at,
  or the zeros that a refund left.
\<close>

definition record_of ::
  "env \<Rightarrow> pubkey \<Rightarrow> world \<Rightarrow> run_event list \<Rightarrow> world \<Rightarrow> bytes32 \<Rightarrow> bytes \<Rightarrow> bool" where
  "record_of E pid w0 es w sid d \<longleftrightarrow>
     length d = SENT_RECORD_LEN \<and>
     (\<exists>t args sender cfg asset wire source ev.
        sent_in E pid w0 es w t args sender cfg asset wire \<and> ev = send_event E cfg asset args sender wire \<and>
        sid = ev_submission_id ev \<and> receiver_width_ok (sa_receiver args) \<and>
        (decode_sent_record d = Inr (event_record ev args sender source t) \<and> sa_amount args \<noteq> 0 \<or>
         d = replicate SENT_RECORD_LEN 0))"

lemma record_of_snoc:
  "record_of E pid w0 es w sid d \<Longrightarrow> run_one E pid w e w' \<Longrightarrow> record_of E pid w0 (es @ [e]) w' sid d"
  unfolding record_of_def
  by (elim conjE exE, rule conjI, assumption, intro exI, rule conjI, erule (1) sent_in_snoc, intro conjI) assumption+

lemma record_of_zeroed:
  assumes "record_of E pid w0 es w sid d"
  shows "record_of E pid w0 es w sid (replicate (length d) 0)"
proof -
  have "length d = SENT_RECORD_LEN" using assms by (simp add: record_of_def)
  then show ?thesis using assms unfolding record_of_def by fastforce
qed

lemma record_of_send:
  assumes "gate_run E pid w0 es w" "runtime_ok E pid" "process_send (at_time E now) pid accs args w = Inr w'"
    and "apart E pid [lit ''sent'', arr_bytes (sid :: bytes32)]"
    and "store pid w' (pda E pid [lit ''sent'', arr_bytes sid]) = Some d"
    and "store pid w (pda E pid [lit ''sent'', arr_bytes sid]) \<noteq> Some d"
  shows "record_of E pid w0 (es @ [Executed now accs (Send args)]) w' sid d"
proof -
  have "runtime_ok (at_time E now) pid" using assms(2) by simp
  from send_effect [OF assms(3) this] obtain cfg asset wire ev dc ds now' where
    c: "gate_config E pid w = Some cfg" "load_asset E pid (sa_debridge_id args) (accs ! 1) w = Inr asset"
    "to_wire asset (sa_amount args) = Inr wire" "receiver_width_ok (sa_receiver args)" "sa_amount args \<noteq> 0"
    and ev: "ev = send_event E cfg asset args (ai_key (accs ! 2)) wire"
    and s: "store pid w' = (store pid w)(pda E pid [lit ''config''] \<mapsto> dc,
      pda E pid [lit ''sent'', arr_bytes (ev_submission_id ev)] \<mapsto> ds)"
    and d: "decode_sent_record ds = Inr (event_record ev args (ai_key (accs ! 2)) (ai_key (accs ! 3)) now')"
      "length ds = SENT_RECORD_LEN" "now = now'"
    by (simp only: views_at_time load_asset_at_time send_event_at_time at_time_fields sum.inject) (elim exE conjE, rule that)
  have "pda E pid [lit ''config''] \<noteq> pda E pid [lit ''sent'', arr_bytes sid]"
    using assms(4) gate_seeds_config unfolding apart_def by blast
  then have "pda E pid [lit ''sent'', arr_bytes (ev_submission_id ev)] = pda E pid [lit ''sent'', arr_bytes sid]"
    using assms(5,6) s by (metis fun_upd_other)
  then have "arr_bytes (ev_submission_id ev) = arr_bytes sid"
    using assms(4) gate_seedsI [of "''sent''" "ev_submission_id ev"] unfolding apart_def by blast
  then have sid: "sid = ev_submission_id ev" by simp
  then have "ds = d" using s assms(5) by simp
  moreover have "sent_in E pid w0 (es @ [Executed now accs (Send args)]) w' now args (ai_key (accs ! 2)) cfg asset wire"
    unfolding sent_in_def
    by (rule exI [of _ es], rule exI [of _ accs], rule exI [of _ "[]"], rule exI [of _ w],
        rule exI [of _ w']) (use assms(1,3) c run_nil in simp)
  ultimately show ?thesis unfolding record_of_def using ev c(4,5) d sid by blast
qed

text \<open>A record of the gate was written by a send of the run, whose id is the one it is stored under.\<close>

lemma record_was_sent:
  assumes "gate_run E pid w0 es w" "runtime_ok E pid"
    and "apart E pid [lit ''sent'', arr_bytes (sid :: bytes32)]"
    and "store pid w0 (pda E pid [lit ''sent'', arr_bytes sid]) = None"
    and "store pid w (pda E pid [lit ''sent'', arr_bytes sid]) = Some d"
  shows "record_of E pid w0 es w sid d"
  using assms(1,5)
proof (induction arbitrary: d)
  case run_nil
  then show ?case using assms(4) by simp
next
  case (run_ix es w now accs ix w')
  let ?k = "pda E pid [lit ''sent'', arr_bytes sid]"
  have r: "runtime_ok (at_time E now) pid" "apart (at_time E now) pid [lit ''sent'', arr_bytes sid]"
    using assms(2,3) by simp_all
  show ?case
  proof (cases "store pid w ?k = Some d")
    case True
    then show ?thesis using run_ix.IH record_of_snoc ev_ix [OF run_ix(2)] by blast
  next
    case False
    then have "may_write (at_time E now) accs ix (gate_config E pid w) [lit ''sent'', arr_bytes sid] d"
      using gate_step_at [OF run_ix(2) r] run_ix.prems by auto
    then consider rargs cfg where "ix = Refund rargs" "gate_config E pid w = Some cfg" "sid = refund_sid E cfg rargs"
      | args where "ix = Send args"
      by (auto elim!: may_write_sentE)
    then show ?thesis
    proof cases
      case (1 rargs cfg)
      then have g: "process_refund (at_time E now) pid accs rargs w = Inr w'" using run_ix(2) by simp
      then obtain a1 a2 a3 a4 a5 a6 a7 a8 a9 a10 rest
        where accs: "accs = a1 # a2 # a3 # a4 # a5 # a6 # a7 # a8 # a9 # a10 # rest" by (rule refund_accs)
      from g [unfolded accs] r(1) obtain cfg' sent d0 where c: "load_config (at_time E now) pid a1 w = Inr cfg'"
        and s: "store pid w (pda E pid [lit ''sent'', arr_bytes (refund_sid E cfg' rargs)]) = Some d0"
          "store pid w' = (store pid w)
           (pda E pid [lit ''refunded'', arr_bytes (refund_sid E cfg' rargs)] \<mapsto> [MARKER_CLAIMED],
            pda E pid [lit ''sent'', arr_bytes (refund_sid E cfg' rargs)] \<mapsto> replicate (length d0) 0)"
        by (rule store_refund) simp
      have "cfg' = cfg" using gate_config_load [OF c] 1(2) by simp
      then have s': "store pid w ?k = Some d0" "store pid w' ?k = Some (replicate (length d0) 0)"
        using s 1(3) by simp_all
      then have "record_of E pid w0 es w sid (replicate (length d0) 0)"
        using run_ix.IH record_of_zeroed by blast
      then show ?thesis using s'(2) run_ix.prems record_of_snoc [OF _ ev_ix [OF run_ix(2)]] by simp
    next
      case (2 args)
      then have "process_send (at_time E now) pid accs args w = Inr w'" using run_ix(2) by simp
      from record_of_send [OF run_ix(1) assms(2) this assms(3) run_ix.prems False] show ?thesis using 2 by simp
    qed
  qed
next
  case (run_foreign es w w')
  have "gate_seeds [lit ''sent'', arr_bytes sid]" by (simp add: gate_seedsI)
  then have "store pid w (pda E pid [lit ''sent'', arr_bytes sid]) = Some d"
    using run_foreign(2) run_foreign.prems by (simp add: foreign_step_def)
  then show ?case using run_foreign.IH record_of_snoc ev_foreign [OF run_foreign(2)] by blast
qed

section \<open>What leaves the scanner\<close>

lemma post_record_outbox: "sc_outbox (snd (post_record an rc st)) = sc_outbox st @ [rc]"
  by (simp add: post_record_def Let_def split: upsert_reply.split)

lemma scale_agrees_cases:
  assumes "scale_agrees cx an s asset st = (r, st')"
  shows "sc_outbox st' = sc_outbox st" "sc_allowlist st' = sc_allowlist st"
    and "r = Inr True \<Longrightarrow> hs_chain_id_to s \<in> set (cx_evm_gates cx) \<and>
      (sc_scale_cache st (hs_chain_id_to s, hs_debridge_id s) = Some (as_bridge_decimals asset) \<or>
       an_decimals an (hs_chain_id_to s) (hs_debridge_id s) = Some (Some (as_bridge_decimals asset)))"
  using assms by (auto simp: scale_agrees_def Let_def split: if_splits option.splits)

definition signs :: "env \<Rightarrow> scan_config \<Rightarrow> answers \<Rightarrow> sent_event \<Rightarrow> host_sent \<Rightarrow> asset_config \<Rightarrow> scanner \<Rightarrow> bool" where
  "signs E cx an ev s asset st \<longleftrightarrow>
     to_sent ev = Inr s \<and> signable E s (cx_bridge_domain cx) (cx_chain_id cx) = Inr () \<and>
     asset_for E cx an (ev_debridge_id ev) = Inr (Some asset) \<and>
     origin_proof_holds E cx an ev s asset = Inr True \<and>
     fst (scale_agrees cx an s asset st) = Inr True \<and>
     allowlist_permits (sc_allowlist st) (hex0x cx (arr_bytes (hs_debridge_id s))) (hs_chain_id_from s) (hs_chain_id_to s)"

lemma handle_posts:
  assumes "handle E cx an ev s st = (r, st')" "to_sent ev = Inr s"
  shows "sc_outbox st' = sc_outbox st \<or>
    (\<exists>asset. signs E cx an ev s asset st \<and> sc_outbox st' = sc_outbox st @ [signed_record E cx s])"
proof (cases "sc_outbox st' = sc_outbox st")
  case False
  have g: "signable E s (cx_bridge_domain cx) (cx_chain_id cx) = Inr ()"
    using assms(1) False by (auto simp: handle_def split: sum.splits)
  obtain asset where a: "asset_for E cx an (ev_debridge_id ev) = Inr (Some asset)"
    using assms(1) False by (auto simp: handle_def g split: sum.splits option.splits)
  have o: "origin_proof_holds E cx an ev s asset = Inr True"
    using assms(1) False by (auto simp: handle_def g a split: sum.splits bool.splits)
  obtain q st1 where q: "scale_agrees cx an s asset st = (q, st1)" by fastforce
  note c = scale_agrees_cases [OF q]
  have "q = Inr True" using assms(1) False c(1) by (auto simp: handle_def g a o q split: sum.splits bool.splits)
  moreover have p: "allowlist_permits (sc_allowlist st) (hex0x cx (arr_bytes (hs_debridge_id s))) (hs_chain_id_from s) (hs_chain_id_to s)"
    using assms(1) False c(1,2) by (auto simp: handle_def g a o q \<open>q = Inr True\<close> split: if_splits)
  moreover have "st' = snd (post_record an (signed_record E cx s) st1)"
    using assms(1) p c(2) by (simp add: handle_def g a o q \<open>q = Inr True\<close>)
  ultimately show ?thesis using assms(2) g a o q c(1) post_record_outbox by (auto simp: signs_def)
qed simp

lemma process_line_posts:
  assumes "process_line E cx an line tx st = (r, st')" "sc_outbox st' \<noteq> sc_outbox st"
  shows "\<exists>ev s asset. parse_sent_event_line (cx_b64 cx) line = Some (Inr ev) \<and> signs E cx an ev s asset st \<and>
    sc_outbox st' = sc_outbox st @ [signed_record E cx s]"
proof -
  have q: "sc_outbox (snd (quarantine tx x y)) = sc_outbox y" for x y by (simp add: quarantine_def)
  obtain ev s where ev: "parse_sent_event_line (cx_b64 cx) line = Some (Inr ev)" "to_sent ev = Inr s"
    and h: "sc_outbox st' = sc_outbox (snd (handle E cx an ev s st))"
    using assms q unfolding process_line_def
    by (auto simp: quarantine_def split: option.splits sum.splits if_splits scan_error.splits prod.splits)
  obtain r1 st1 where h1: "handle E cx an ev s st = (r1, st1)" by fastforce
  from handle_posts [OF h1 ev(2)] show ?thesis using ev h h1 assms(2) by auto
qed

section \<open>A genuine event passes\<close>

lemma signs_id:
  assumes "to_sent ev = Inr s"
  shows "recompute E s domain = event_sid E domain ev"
  using assms unfolding to_sent_def
  by (cases "ev_auto ev") (auto simp: recompute_def event_sid_def host_id_agrees split: if_splits)

lemma to_wire_mul:
  assumes "to_wire a n = Inr wire" "asset_account_unit a = Some u"
  shows "checked_mul wire u = Some n"
proof -
  have u: "bridge_unit (as_local_decimals a) (as_bridge_decimals a) = Some u"
    using assms(2) by (simp add: asset_account_unit_def bridge_unit_def)
  have e: "unat n = unat wire * unat u" using to_wire_value [OF assms(1)] bridge_unit_Some(2) [OF u] by simp
  then have "unat wire * unat u < 2 ^ 64" using unsigned_less [of n, where 'a = nat] by simp
  moreover from this e have "wire * u = n" by (simp add: word_unat_eq_iff unat_word_ariths)
  ultimately show ?thesis by (simp add: checked_mul_def)
qed

lemma to_wire_unit:
  assumes "to_wire a n = Inr wire"
  obtains u where "asset_account_unit a = Some u" "u \<noteq> 0"
proof -
  obtain u where u: "bridge_unit (as_local_decimals a) (as_bridge_decimals a) = Some u"
    using assms by (auto simp: to_wire_def asset_unit_def res_simps)
  then have "asset_account_unit a = Some u" by (simp add: asset_account_unit_def bridge_unit_def)
  moreover have "u \<noteq> 0" using bridge_unit_pos [OF u] by auto
  ultimately show ?thesis by (rule that)
qed

lemma de_sent_record_exact:
  assumes "de_sent_record d = Some (r, rest)"
  shows "length d = SENT_RECORD_LEN + length rest"
  using assms unfolding de_sent_record_def de_arr_def de_word_def SENT_RECORD_LEN_def Let_def
  by (auto split: if_splits Option.bind_splits)

lemma host_decode_agrees:
  assumes "length d = SENT_RECORD_LEN" "decode_sent_record d = Inr r"
  shows "host_decode_sent_record d = Some r"
proof -
  have "length d \<noteq> SENT_RECORD_LEN - 8" using assms(1) by (simp add: SENT_RECORD_LEN_def)
  then obtain rest where r: "de_sent_record d = Some (r, rest)"
    using assms(2) by (auto simp: decode_sent_record_def deserialize_def res_simps)
  have "rest = []" using de_sent_record_exact [OF r] assms(1) by simp
  then show ?thesis using assms(1) r
    by (simp add: host_decode_sent_record_def try_from_slice_def SENT_RECORD_LEN_def HOST_SENT_RECORD_LEN_def)
qed

lemma verify_genuine:
  assumes "to_wire asset (sa_amount args) = Inr wire" "asset_account_unit asset = Some u" "u \<noteq> 0"
    and "ev = send_event E cfg asset args sender wire" "sa_amount args \<noteq> 0"
    and "decode_sent_record d = Inr (event_record ev args sender source now)" "length d = SENT_RECORD_LEN"
  shows "verify_sent_record (Some (True, d)) ev u = Inr (event_record ev args sender source now)"
proof -
  note f = host_decode_agrees [OF assms(7,6)] to_wire_mul [OF assms(1,2)]
  have "d \<noteq> []" using assms(7) by (auto simp: SENT_RECORD_LEN_def)
  moreover have "length d = HOST_SENT_RECORD_LEN" using assms(7) by (simp add: SENT_RECORD_LEN_def HOST_SENT_RECORD_LEN_def)
  ultimately show ?thesis
    using assms(3,5) f(2) by (simp add: verify_sent_record_def f(1)) (simp add: event_record_def assms(4) send_event_def)
qed

lemma asset_read:
  assumes "load_asset E pid did ai w = Inr asset" "\<not> is_legacy_asset_len (length (data_of w ai))"
    and "store pid w' (pda E pid [lit ''asset'', arr_bytes did]) = store pid w (pda E pid [lit ''asset'', arr_bytes did])"
    and "\<And>k. an_account an k = Some (Some (accts w' k))" "cx_program_id cx = pid"
  shows "asset_for E cx an did = Inr (Some asset)"
proof -
  have k: "ai_key ai = pda E pid [lit ''asset'', arr_bytes did]" "owner_of w ai = pid"
    "decode_asset_config (data_of w ai) = Inr asset"
    using assms(1) by (auto simp: load_asset_def verify_asset_account_def res_simps)
  have "deserialize de_asset_config (data_of w ai) = Some asset"
    using k(3) assms(2) by (auto simp: decode_asset_config_def is_legacy_asset_len_def res_simps split: if_splits)
  moreover have "store pid w' (pda E pid [lit ''asset'', arr_bytes did]) = Some (data_of w ai)"
    using assms(3) k(1,2) by (simp add: store_def)
  ultimately show ?thesis using assms(4,5) by (simp add: asset_for_def store_eq_iff)
qed

text \<open>The answers of a node that has seen the world \<open>w\<close>, a destination of the same scale, a store that accepts.\<close>

definition good_answers :: "scan_config \<Rightarrow> answers \<Rightarrow> world \<Rightarrow> scanner \<Rightarrow> u64 \<Rightarrow> bytes32 \<Rightarrow> u8 \<Rightarrow> bool" where
  "good_answers cx an w st ct did bd \<longleftrightarrow>
     (\<forall>k. an_account an k = Some (Some (accts w k))) \<and> ct \<in> set (cx_evm_gates cx) \<and>
     (sc_scale_cache st (ct, did) = Some bd \<or>
      sc_scale_cache st (ct, did) = None \<and> an_decimals an ct did = Some (Some bd)) \<and>
     (\<forall>rc. an_upsert an rc = Stored)"

lemma handle_accepts:
  assumes "signs E cx an ev s asset st" "\<And>rc. an_upsert an rc = Stored"
  shows "\<exists>st'. handle E cx an ev s st = (Inr True, st') \<and> sc_outbox st' = sc_outbox st @ [signed_record E cx s]"
proof -
  obtain q st1 where q: "scale_agrees cx an s asset st = (q, st1)" by fastforce
  note c = scale_agrees_cases [OF q]
  have "handle E cx an ev s st = post_record an (signed_record E cx s) st1"
    using assms(1) q c(2) by (auto simp: signs_def handle_def)
  moreover have "fst (post_record an (signed_record E cx s) st1) = Inr True" using assms(2) by (simp add: post_record_def Let_def)
  ultimately show ?thesis using post_record_outbox c(1) by (metis prod.collapse)
qed

lemma genuine_signed:
  assumes "runtime_ok E pid" "process_send E pid accs args w = Inr w'"
    and "gate_config E pid w = Some cfg" "load_asset E pid (sa_debridge_id args) (accs ! 1) w = Inr asset"
    and "\<not> is_legacy_asset_len (length (data_of w (accs ! 1)))"
    and "apart E pid [lit ''asset'', arr_bytes (sa_debridge_id args)]"
    and "cx_program_id cx = pid" "cx_bridge_domain cx = bridge_domain cfg" "cx_chain_id cx = chain_id cfg"
    and "b64_ok enc (cx_b64 cx)"
    and "good_answers cx an w' st (sa_chain_id_to args) (sa_debridge_id args) (as_bridge_decimals asset)"
    and "allowlist_permits (sc_allowlist st) (hex0x cx (arr_bytes (sa_debridge_id args))) (chain_id cfg) (sa_chain_id_to args)"
  shows "\<exists>wire ev b line s st'. ev = send_event E cfg asset args (ai_key (accs ! 2)) wire \<and>
    to_wire asset (sa_amount args) = Inr wire \<and>
    ser_sent_event ev = Some b \<and> logs w' = logs w @ [[SENT_EVENT_TAG, b]] \<and>
    sent_event_to_program_data_line enc ev = Some line \<and> to_sent ev = Inr s \<and>
    process_line E cx an line tx st = (Inr True, st') \<and> sc_outbox st' = sc_outbox st @ [signed_record E cx s]"
proof -
  from send_effect [OF assms(2,1)] obtain cfg1 asset1 wire ev dc ds now b where
    e: "gate_config E pid w = Some cfg1" "load_asset E pid (sa_debridge_id args) (accs ! 1) w = Inr asset1"
    "to_wire asset1 (sa_amount args) = Inr wire" "sa_amount args \<noteq> 0"
    and ev: "ev = send_event E cfg1 asset1 args (ai_key (accs ! 2)) wire"
    and s: "store pid w' = (store pid w)(pda E pid [lit ''config''] \<mapsto> dc,
      pda E pid [lit ''sent'', arr_bytes (ev_submission_id ev)] \<mapsto> ds)"
    and d: "decode_sent_record ds = Inr (event_record ev args (ai_key (accs ! 2)) (ai_key (accs ! 3)) now)"
      "length ds = SENT_RECORD_LEN" "clock_get E = Inr now"
    and b': "ser_sent_event ev = Some b" "logs w' = logs w @ [[SENT_EVENT_TAG, b]]"
    and n: "store pid w (pda E pid [lit ''sent'', arr_bytes (ev_submission_id ev)]) = None"
    by (elim exE conjE) (rule that)
  have [simp]: "cfg1 = cfg" "asset1 = asset" using e(1,2) assms(3,4) by simp_all
  obtain hs where hs: "to_sent ev = Inr hs" by (simp add: to_sent_def ev send_event_def)
  then have f: "hs_submission_id hs = ev_submission_id ev" "hs_chain_id_from hs = chain_id cfg"
    "hs_chain_id_to hs = sa_chain_id_to args" "hs_debridge_id hs = sa_debridge_id args"
    by (auto simp: to_sent_def ev send_event_def split: if_splits)
  have g: "ev_debridge_id ev = sa_debridge_id args" by (simp add: ev send_event_def)
  obtain u where u: "asset_account_unit asset = Some u" "u \<noteq> 0" using to_wire_unit [OF e(3)] by auto
  have ap: "pda E pid [lit ''asset'', arr_bytes (sa_debridge_id args)] \<noteq> pda E pid [lit ''config'']"
    using assms(6) gate_seeds_config unfolding apart_def by (metis list.inject not_Cons_self2)
  have "store pid w (pda E pid [lit ''asset'', arr_bytes (sa_debridge_id args)]) \<noteq> None"
    using assms(4) by (auto simp: load_asset_def verify_asset_account_def res_simps store_def)
  then have as: "store pid w' (pda E pid [lit ''asset'', arr_bytes (sa_debridge_id args)]) =
      store pid w (pda E pid [lit ''asset'', arr_bytes (sa_debridge_id args)])" using s n ap by auto
  have an: "\<And>k. an_account an k = Some (Some (accts w' k))" using assms(11) by (simp add: good_answers_def)
  have "store pid w' (pda E pid [lit ''sent'', arr_bytes (ev_submission_id ev)]) = Some ds" using s by simp
  then have op: "origin_proof_holds E cx an ev hs asset = Inr True"
    using an u verify_genuine [OF e(3) [simplified] u ev [simplified] e(4) d(1,2)] assms(7)
    by (simp add: origin_proof_holds_def f store_eq_iff)
  have sg: "signable E hs (cx_bridge_domain cx) (cx_chain_id cx) = Inr ()"
    using signs_id [OF hs] send_event_sid f assms(8,9) by (simp add: signable_def ev)
  have sc: "fst (scale_agrees cx an hs asset st) = Inr True"
    using assms(11) f by (auto simp: good_answers_def scale_agrees_def Let_def)
  have sgn: "signs E cx an ev hs asset st"
    using hs sg asset_read [OF assms(4,5) as an assms(7)] op sc assms(12) f g by (simp add: signs_def)
  have "\<And>rc. an_upsert an rc = Stored" using assms(11) by (simp add: good_answers_def)
  from handle_accepts [OF sgn this] obtain st' where h: "handle E cx an ev hs st = (Inr True, st')"
    "sc_outbox st' = sc_outbox st @ [signed_record E cx hs]" by blast
  from b'(1) obtain line where l: "sent_event_to_program_data_line enc ev = Some line"
    by (simp add: sent_event_to_program_data_line_def)
  have "\<not> ev_version ev > SENT_EVENT_VERSION" by (simp add: ev send_event_def)
  then have "process_line E cx an line tx st = (Inr True, st')"
    using event_line_parses(1) [OF assms(10) l] hs sg h(1) by (simp add: process_line_def)
  then show ?thesis using ev e(3) b' l hs h(2) by auto
qed

end
