(* ===== verification/RelayerPages.thy ===== *)
theory RelayerPages
  imports RelayerScan
begin

text \<open>
  Pagination of the scanner. The node serves a page from the newest end of what lies
  between two signatures; the history may grow while the pages are read. The range
  that the scanner collects has no hole.
\<close>

section \<open>The node\<close>

definition sigs_of :: "entry list \<Rightarrow> rust_str list" where
  "sigs_of es = map en_signature es"

text \<open>A history is newest first.\<close>

definition before_in :: "tx_signature option \<Rightarrow> entry list \<Rightarrow> entry list" where
  "before_in b h = (case b of None \<Rightarrow> h | Some s \<Rightarrow> tl (dropWhile (\<lambda>e. en_signature e \<noteq> s) h))"

definition until_in :: "tx_signature option \<Rightarrow> entry list \<Rightarrow> entry list" where
  "until_in u h = (case u of None \<Rightarrow> h | Some s \<Rightarrow> takeWhile (\<lambda>e. en_signature e \<noteq> s) h)"

text \<open>\<open>getSignaturesForAddress\<close>, as documented: walk back from \<open>before\<close>, stop at \<open>until\<close> or at the limit.\<close>

definition serves :: "nat \<Rightarrow> (nat \<Rightarrow> entry list) \<Rightarrow> page_source \<Rightarrow> bool" where
  "serves limit hist pages \<longleftrightarrow>
     (\<forall>i. distinct (sigs_of (hist i)) \<and> (\<exists>new. hist (Suc i) = new @ hist i)) \<and>
     (\<forall>i b u. pages i b u = Some (take limit (until_in u (before_in b (hist i)))))"

lemma serves_grows:
  assumes "serves limit hist pages"
  shows "\<exists>new. hist i = new @ hist 0"
proof (induction i)
  case (Suc i)
  then show ?case using assms unfolding serves_def by (metis append_assoc)
qed simp

lemma before_in_mid:
  assumes "distinct (sigs_of (xs @ e # ys))"
  shows "before_in (Some (en_signature e)) (xs @ e # ys) = ys"
proof -
  have "\<forall>x \<in> set xs. en_signature x \<noteq> en_signature e" using assms by (auto simp: sigs_of_def) (metis image_eqI)
  then show ?thesis by (simp add: before_in_def dropWhile_append2)
qed

lemma until_in_drop:
  assumes "n \<le> length (until_in u h)"
  shows "until_in u (drop n h) = drop n (until_in u h)"
proof (cases u)
  case (Some s)
  have "takeWhile P (drop n xs) = drop n (takeWhile P xs)" if "n \<le> length (takeWhile P xs)"
    for P and xs :: "entry list"
    using that
  proof (induction n arbitrary: xs)
    case (Suc n)
    then show ?case by (cases xs) (auto split: if_splits)
  qed simp
  then show ?thesis using assms Some by (simp add: until_in_def)
qed (simp add: until_in_def)

lemma until_in_prefix: "\<exists>rest. h = until_in u h @ rest"
  by (cases u) (auto simp: until_in_def intro: takeWhile_dropWhile_id [symmetric])

section \<open>The range\<close>

lemma page_of:
  assumes "serves limit hist pages" "n \<le> length (until_in u (hist 0))"
    and "b = (if n = 0 then None else Some (en_signature (until_in u (hist 0) ! (n - 1))))"
    and "n = 0 \<Longrightarrow> i = 0"
  shows "pages i b u = Some (take limit (drop n (until_in u (hist 0))))"
proof -
  let ?R = "until_in u (hist 0)"
  obtain rest where r: "hist 0 = ?R @ rest" using until_in_prefix by blast
  have p: "pages i b u = Some (take limit (until_in u (before_in b (hist i))))"
    using assms(1) by (simp add: serves_def)
  show ?thesis
  proof (cases "n = 0")
    case True
    then show ?thesis using p assms(3,4) by (simp add: before_in_def)
  next
    case False
    obtain new where h: "hist i = new @ hist 0" using serves_grows [OF assms(1)] by blast
    let ?e = "?R ! (n - 1)"
    have "?R = take (n - 1) ?R @ ?e # drop n ?R"
      using False assms(2) id_take_nth_drop [of "n - 1" ?R] by simp
    then have s: "hist i = (new @ take (n - 1) ?R) @ ?e # drop n ?R @ rest" using h r by (metis append_Cons append_assoc)
    moreover have "distinct (sigs_of (hist i))" using assms(1) by (simp add: serves_def)
    ultimately have "before_in (Some (en_signature ?e)) (hist i) = drop n ?R @ rest" by (metis before_in_mid)
    also have "\<dots> = drop n (hist 0)" using assms(2) by (subst r) simp
    finally show ?thesis using p assms(2,3) False until_in_drop [OF assms(2)] by simp
  qed
qed

lemma collect_walk:
  assumes "serves (cx_max_batch cx) hist pages" "0 < cx_max_batch cx"
    and "\<And>i e. e \<in> set (hist i) \<Longrightarrow> cx_sig_from_str cx (en_signature e) = Some (en_signature e)"
    and "walks_to_start (u \<noteq> None) (cx_start_at_tip cx)"
    and "p + left = MAX_PAGES" "left > 0" "p * cx_max_batch cx \<le> length (until_in u (hist 0))"
    and "b = (if p = 0 then None else Some (en_signature (until_in u (hist 0) ! (p * cx_max_batch cx - 1))))"
  shows "collect_loop cx pages u left p b (take (p * cx_max_batch cx) (until_in u (hist 0))) =
    (if length (until_in u (hist 0)) < MAX_PAGES * cx_max_batch cx then Inr (rev (until_in u (hist 0))) else Inl ETooDeep)"
  using assms(5-8)
proof (induction left arbitrary: p b)
  case (Suc left)
  let ?R = "until_in u (hist 0)" and ?m = "cx_max_batch cx"
  let ?page = "take ?m (drop (p * ?m) ?R)"
  have pg: "pages p b u = Some ?page"
    using Suc.prems(3,4) assms(2) by (intro page_of [OF assms(1)]) auto
  have acc: "take (p * ?m) ?R @ ?page = take (Suc p * ?m) ?R" by (metis add.commute mult_Suc take_add)
  show ?case
  proof (cases "length ?page < ?m")
    case True
    then have l: "length ?R < Suc p * ?m" by simp
    also have "\<dots> \<le> MAX_PAGES * ?m" using Suc.prems(1) by (intro mult_le_mono) simp_all
    finally have "length ?R < MAX_PAGES * ?m" .
    moreover have "take (Suc p * ?m) ?R = ?R" using l by simp
    moreover have "next_page_action (length ?page) ?m w p = Complete" for w
      using True by (simp only: next_page_action_def if_True)
    ultimately show ?thesis by (simp add: pg acc Let_def del: mult_Suc length_take)
  next
    case False
    then have full: "Suc p * ?m \<le> length ?R" "length ?page = ?m" using assms(2) by (auto simp: not_less)
    show ?thesis
    proof (cases "p + 1 \<ge> MAX_PAGES")
      case True
      then have "p + 1 = MAX_PAGES" using Suc.prems(1) by simp
      then have "MAX_PAGES * ?m \<le> length ?R" using full(1) by (metis Suc_eq_plus1)
      moreover have "next_page_action (length ?page) ?m (walks_to_start (u \<noteq> None) (cx_start_at_tip cx)) p = TooDeep"
        using False True assms(4) by (simp only: next_page_action_def if_True if_False not_True_eq_False)
      ultimately show ?thesis by (simp add: pg Let_def del: length_take)
    next
      case deeper: False
      have ne: "?page \<noteq> []" using full(2) assms(2) by (metis length_0_conv less_numeral_extra(3))
      have "last ?page = ?R ! (Suc p * ?m - 1)"
        using full ne assms(2) by (simp add: last_conv_nth nth_drop algebra_simps)
      moreover have "?R ! (Suc p * ?m - 1) \<in> set (hist 0)"
      proof -
        have "?R ! (Suc p * ?m - 1) \<in> set ?R" using full(1) assms(2) by (intro nth_mem) (cases "Suc p * ?m"; simp)
        then show ?thesis using until_in_prefix [of "hist 0" u] by (metis Un_iff set_append)
      qed
      ultimately have b': "cx_sig_from_str cx (en_signature (last ?page)) = Some (en_signature (?R ! (Suc p * ?m - 1)))"
        using assms(3) by simp
      have "collect_loop cx pages u left (Suc p) (Some (en_signature (?R ! (Suc p * ?m - 1)))) (take (Suc p * ?m) ?R) =
          (if length ?R < MAX_PAGES * ?m then Inr (rev ?R) else Inl ETooDeep)"
        by (rule Suc.IH) (use Suc.prems(1) deeper full(1) in simp_all)
      moreover have "next_page_action (length ?page) ?m (walks_to_start (u \<noteq> None) (cx_start_at_tip cx)) p = KeepWalking"
        using False deeper assms(4) by (simp only: next_page_action_def if_False not_True_eq_False)
      ultimately show ?thesis using ne b' by (simp add: pg acc Let_def del: mult_Suc length_take)
    qed
  qed
qed simp

lemma collect_tip:
  assumes "serves (cx_max_batch cx) hist pages" "\<not> walks_to_start (u \<noteq> None) (cx_start_at_tip cx)"
  shows "collect_loop cx pages u MAX_PAGES 0 None [] = Inr (rev (take (cx_max_batch cx) (hist 0)))"
proof -
  have u: "u = None" using assms(2) by (simp add: walks_to_start_def)
  have "pages 0 None u = Some (take (cx_max_batch cx) (hist 0))"
    using page_of [OF assms(1), of 0 None None 0] u by (simp add: until_in_def)
  moreover have "next_page_action n (cx_max_batch cx) (walks_to_start (u \<noteq> None) (cx_start_at_tip cx)) 0 = Complete" for n
    using assms(2) by (simp add: next_page_action_def)
  ultimately show ?thesis by (simp add: MAX_PAGES_def Let_def numeral_eq_Suc u)
qed

text \<open>
  C24. The scanner never skips a transaction. With a cursor, or without one unless the
  operator chose to start at the tip, the collected range is all that is newer than
  the cursor when the walk begins, oldest first, whatever arrives while the pages are
  read; it fails exactly when that range fills all its pages, and then it collects
  nothing.
\<close>

theorem collect_contiguous:
  assumes "serves (cx_max_batch cx) hist pages" "0 < cx_max_batch cx"
    and "\<And>i e. e \<in> set (hist i) \<Longrightarrow> cx_sig_from_str cx (en_signature e) = Some (en_signature e)"
    and "u = Option.bind (last_signature c) (cx_sig_from_str cx)"
  shows "collect_since_cursor cx pages c =
    (if u = None \<and> cx_start_at_tip cx then Inr (rev (take (cx_max_batch cx) (hist 0)))
     else if length (until_in u (hist 0)) < MAX_PAGES * cx_max_batch cx then Inr (rev (until_in u (hist 0)))
     else Inl ETooDeep)"
proof (cases "walks_to_start (u \<noteq> None) (cx_start_at_tip cx)")
  case True
  have "collect_loop cx pages u MAX_PAGES 0 None (take (0 * cx_max_batch cx) (until_in u (hist 0))) =
    (if length (until_in u (hist 0)) < MAX_PAGES * cx_max_batch cx then Inr (rev (until_in u (hist 0))) else Inl ETooDeep)"
    by (rule collect_walk [OF assms(1-3) True]) (simp_all add: MAX_PAGES_def)
  moreover have "collect_since_cursor cx pages c = collect_loop cx pages u MAX_PAGES 0 None []"
    unfolding collect_since_cursor_def assms(4) by (rule refl)
  moreover have "\<not> (u = None \<and> cx_start_at_tip cx)" using True by (simp add: walks_to_start_def)
  ultimately show ?thesis by (simp only: mult_0 take_0 if_False)
next
  case False
  have "collect_since_cursor cx pages c = collect_loop cx pages u MAX_PAGES 0 None []"
    unfolding collect_since_cursor_def assms(4) by (rule refl)
  then show ?thesis
    using collect_tip [OF assms(1) False] False unfolding walks_to_start_def by simp
qed

text \<open>Five transactions, pages of two, the cursor at the oldest; a sixth arrives during the walk.\<close>

definition demo_scan_config :: scan_config where
  "demo_scan_config =
     \<lparr>cx_program_id = 100, cx_bridge_domain = 1, cx_chain_id = 7, cx_evm_gates = [9], cx_signer = [],
      cx_sign = (\<lambda>d. ([], 0)), cx_hex = map unat, cx_b64 = (\<lambda>s. Some (map (\<lambda>c. of_nat (c - 20000)) s)), cx_program_name = rstr ''Gate'',
      cx_sig_from_str = Some, cx_start_at_tip = False, cx_max_batch = 2\<rparr>"

definition demo_entry :: "nat \<Rightarrow> entry" where
  "demo_entry n = \<lparr>en_signature = [n], en_failed = False\<rparr>"

definition demo_history :: "nat \<Rightarrow> entry list" where
  "demo_history i = map demo_entry (if i = 0 then [5, 4, 3, 2, 1] else [6, 5, 4, 3, 2, 1])"

definition demo_pages :: page_source where
  "demo_pages i b u = Some (take 2 (until_in u (before_in b (demo_history i))))"

lemma demo_serves: "serves (cx_max_batch demo_scan_config) demo_history demo_pages"
proof -
  have "\<exists>new. demo_history (Suc i) = new @ demo_history i" for i
    by (cases i) (auto simp: demo_history_def intro: exI [of _ "[demo_entry 6]"])
  moreover have "distinct (sigs_of (demo_history i))" for i
    by (simp add: demo_history_def sigs_of_def demo_entry_def)
  ultimately show ?thesis by (simp add: serves_def demo_pages_def demo_scan_config_def)
qed

theorem collect_contiguous_witness:
  "collect_since_cursor demo_scan_config demo_pages \<lparr>last_signature = Some [1], quarantined = []\<rparr> =
    Inr [demo_entry 2, demo_entry 3, demo_entry 4, demo_entry 5]"
proof -
  let ?c = "\<lparr>last_signature = Some [1], quarantined = []\<rparr> :: cursor"
  have s: "cx_sig_from_str demo_scan_config = Some" "cx_max_batch demo_scan_config = 2"
    by (simp_all add: demo_scan_config_def)
  have r: "until_in (Some [1]) (demo_history 0) = [demo_entry 5, demo_entry 4, demo_entry 3, demo_entry 2]"
    by (simp add: until_in_def demo_history_def demo_entry_def)
  show ?thesis
    using collect_contiguous [OF demo_serves, of "Some [1]" ?c] by (simp add: s r [unfolded One_nat_def] MAX_PAGES_def)
qed

end
