(* ===== verification/RelayerOriginProps.thy ===== *)
theory RelayerOriginProps
  imports RelayerOrigin RelayerPages
begin

text \<open>The scanner signs what was sent, and only that.\<close>

section \<open>Only what was sent\<close>

definition event_inputs :: "env \<Rightarrow> bytes32 \<Rightarrow> sent_event \<Rightarrow> bytes set" where
  "event_inputs E domain ev =
     id_inputs E domain (ev_debridge_id ev) (ev_bridge_decimals ev) (ev_amount ev) (ev_chain_id_from ev)
       (ev_chain_id_to ev) (ev_nonce ev) (ev_receiver ev) (ev_auto ev) (ev_native_sender ev)"

text \<open>What the gate hashed for the ids of the sends of a run.\<close>

definition run_inputs :: "env \<Rightarrow> pubkey \<Rightarrow> world \<Rightarrow> run_event list \<Rightarrow> bytes set" where
  "run_inputs E pid w0 es =
     \<Union> {event_inputs E (bridge_domain cfg) (send_event E cfg asset args sender wire) |w t args sender cfg asset wire.
        sent_in E pid w0 es w t args sender cfg asset wire}"

text \<open>A node may refuse to answer, but what it answers about an account is the account.\<close>

definition truthful :: "answers \<Rightarrow> world \<Rightarrow> bool" where
  "truthful an w \<longleftrightarrow> (\<forall>k a. an_account an k = Some (Some a) \<longrightarrow> a = accts w k)"

definition same_transfer :: "sent_event \<Rightarrow> bytes32 \<Rightarrow> config \<Rightarrow> asset_config \<Rightarrow> send_args \<Rightarrow> pubkey \<Rightarrow> u64 \<Rightarrow> bool" where
  "same_transfer ev domain cfg asset args sender wire \<longleftrightarrow>
     domain = bridge_domain cfg \<and> ev_debridge_id ev = sa_debridge_id args \<and>
     ev_bridge_decimals ev = as_bridge_decimals asset \<and> ev_amount ev = wire \<and>
     ev_chain_id_from ev = chain_id cfg \<and> ev_chain_id_to ev = sa_chain_id_to args \<and>
     ev_nonce ev = nonce_of cfg (sa_chain_id_to args) \<and> ev_receiver ev = sa_receiver args \<and>
     ev_auto ev = sa_auto args \<and> (ev_auto ev \<noteq> None \<longrightarrow> ev_native_sender ev = arr_bytes sender)"

lemma origin_proof_True:
  assumes "origin_proof_holds E cx an ev s asset = Inr True"
  obtains acc u rec where
    "an_account an (pda E (cx_program_id cx) [lit ''sent'', arr_bytes (hs_submission_id s)]) = Some acc"
    "verify_sent_record (map_option (\<lambda>a. (acct_owner a = cx_program_id cx, acct_data a)) acc) ev u = Inr rec"
proof -
  obtain acc where a: "an_account an (pda E (cx_program_id cx) [lit ''sent'', arr_bytes (hs_submission_id s)]) = Some acc"
    using assms by (auto simp: origin_proof_holds_def res_simps)
  obtain u where u: "asset_account_unit asset = Some u"
    using assms a by (cases "asset_account_unit asset") (auto simp: origin_proof_holds_def)
  show ?thesis
    using assms a u that
    by (cases "verify_sent_record (map_option (\<lambda>a. (acct_owner a = cx_program_id cx, acct_data a)) acc) ev u")
      (auto simp: origin_proof_holds_def)
qed

lemma signs_record:
  assumes "signs E cx an ev s asset st" "truthful an w" "cx_program_id cx = pid"
  obtains d where "store pid w (pda E pid [lit ''sent'', arr_bytes (ev_submission_id ev)]) = Some d"
proof -
  have sid: "hs_submission_id s = ev_submission_id ev"
    using assms(1) by (auto simp: signs_def to_sent_def split: if_splits)
  have "origin_proof_holds E cx an ev s asset = Inr True" using assms(1) by (simp add: signs_def)
  then obtain acc u rec where
    a: "an_account an (pda E pid [lit ''sent'', arr_bytes (ev_submission_id ev)]) = Some acc"
    and v: "verify_sent_record (map_option (\<lambda>a. (acct_owner a = pid, acct_data a)) acc) ev u = Inr rec"
    by (rule origin_proof_True) (simp add: sid assms(3))
  then obtain a' where "acc = Some a'" "acct_owner a' = pid"
    by (cases acc) (auto simp: verify_sent_record_def split: if_splits)
  then show ?thesis using a assms(2) that by (auto simp: truthful_def store_def)
qed

lemma signs_sid:
  assumes "signs E cx an ev s asset st"
  shows "ev_submission_id ev = event_sid E (cx_bridge_domain cx) ev"
proof -
  have "to_sent ev = Inr s" "recompute E s (cx_bridge_domain cx) = hs_submission_id s"
    using assms by (auto simp: signs_def signable_def split: if_splits)
  moreover have "hs_submission_id s = ev_submission_id ev"
    using \<open>to_sent ev = Inr s\<close> by (auto simp: to_sent_def split: if_splits)
  ultimately show ?thesis using signs_id by metis
qed

text \<open>The fields in front of the receiver have fixed widths: equal ids fix them whatever the receivers are.\<close>

lemma submission_id_prefix:
  assumes "submission_id E dmn did bd amt cf ct nonce r auto ns =
      submission_id E dmn' did' bd' amt' cf' ct' nonce' r' auto' ns'"
    and "inj_on (keccak E) (id_inputs E dmn did bd amt cf ct nonce r auto ns \<union>
      id_inputs E dmn' did' bd' amt' cf' ct' nonce' r' auto' ns')"
  shows "dmn = dmn' \<and> did = did' \<and> bd = bd' \<and> amt = amt' \<and> cf = cf' \<and> ct = ct'"
proof -
  have "concat (submission_parts E dmn did bd amt cf ct nonce r auto ns) =
      concat (submission_parts E dmn' did' bd' amt' cf' ct' nonce' r' auto' ns')"
    using inj_onD [OF assms(2) assms(1) [unfolded submission_id_def hashv_def]] by (simp add: id_inputs_def)
  then show ?thesis by (simp add: submission_parts_def submission_base_def)
qed

text \<open>
  C21. The scanner signs only what was sent. Whatever line it is given, whoever wrote
  it, if it hands out a record then an earlier instruction of the gate's history was a
  successful send with the id that was signed, and that send agrees with the signed
  event in domain, asset, scale and both chains, and its wire amount, the locked amount
  in the event's units, is the event's. If moreover the event's receiver has one of the
  two widths the gate accepts, 20 or 32 bytes, which the scanner does not check itself,
  the two agree in nonce, receiver and payload too: the id alone does not say where a
  receiver of another width would end. The node may withhold answers but not lie about
  accounts, and keccak must not collide on the strings the gate and the scanner hashed.
\<close>

theorem signed_was_sent:
  assumes "runtime_ok E pid" "gate_run E pid w0 es w" "truthful an w" "cx_program_id cx = pid"
    and "process_line E cx an line tx st = (r, st')" "sc_outbox st' \<noteq> sc_outbox st"
    and "parse_sent_event_line (cx_b64 cx) line = Some (Inr ev)"
    and "apart E pid [lit ''sent'', arr_bytes (ev_submission_id ev)]"
    and "store pid w0 (pda E pid [lit ''sent'', arr_bytes (ev_submission_id ev)]) = None"
    and "inj_on (keccak E) (event_inputs E (cx_bridge_domain cx) ev \<union> run_inputs E pid w0 es)"
  shows "\<exists>s t args sender cfg asset wire. to_sent ev = Inr s \<and> sc_outbox st' = sc_outbox st @ [signed_record E cx s] \<and>
    sent_in E pid w0 es w t args sender cfg asset wire \<and>
    ev_submission_id ev = ev_submission_id (send_event E cfg asset args sender wire) \<and>
    cx_bridge_domain cx = bridge_domain cfg \<and> ev_debridge_id ev = sa_debridge_id args \<and>
    ev_bridge_decimals ev = as_bridge_decimals asset \<and> ev_amount ev = wire \<and>
    ev_chain_id_from ev = chain_id cfg \<and> ev_chain_id_to ev = sa_chain_id_to args \<and>
    (receiver_width_ok (ev_receiver ev) \<longrightarrow>
       same_transfer ev (cx_bridge_domain cx) cfg asset args sender wire)"
proof -
  obtain s asset0 where s: "signs E cx an ev s asset0 st" "sc_outbox st' = sc_outbox st @ [signed_record E cx s]"
    using process_line_posts [OF assms(5,6)] assms(7) by auto
  obtain d where d: "store pid w (pda E pid [lit ''sent'', arr_bytes (ev_submission_id ev)]) = Some d"
    by (rule signs_record [OF s(1) assms(3,4)])
  from record_was_sent [OF assms(2,1,8,9) d] obtain t args sender cfg asset wire where
    p: "sent_in E pid w0 es w t args sender cfg asset wire"
    "ev_submission_id ev = ev_submission_id (send_event E cfg asset args sender wire)"
    "receiver_width_ok (sa_receiver args)" unfolding record_of_def by blast
  let ?e = "send_event E cfg asset args sender wire"
  have "event_sid E (cx_bridge_domain cx) ev = event_sid E (bridge_domain cfg) ?e"
    using signs_sid [OF s(1)] p(2) send_event_sid by metis
  note eq = this [unfolded event_sid_def]
  have r: "receiver_width_ok (ev_receiver ?e)" using p(3) by (simp add: send_event_def)
  have "event_inputs E (bridge_domain cfg) ?e \<subseteq> run_inputs E pid w0 es"
    unfolding run_inputs_def using p(1) by blast
  then have i: "inj_on (keccak E) (event_inputs E (cx_bridge_domain cx) ev \<union> event_inputs E (bridge_domain cfg) ?e)"
    by (intro inj_on_subset [OF assms(10)]) blast
  note pre = submission_id_prefix [OF eq i [unfolded event_inputs_def]]
  have "cx_bridge_domain cx = bridge_domain cfg \<and> ev_debridge_id ev = sa_debridge_id args \<and>
    ev_bridge_decimals ev = as_bridge_decimals asset \<and> ev_amount ev = wire \<and>
    ev_chain_id_from ev = chain_id cfg \<and> ev_chain_id_to ev = sa_chain_id_to args"
    using pre by (simp add: send_event_def)
  moreover have "same_transfer ev (cx_bridge_domain cx) cfg asset args sender wire" if w: "receiver_width_ok (ev_receiver ev)"
  proof -
    note f = submission_id_inject [OF eq w r i [unfolded event_inputs_def]]
    then show ?thesis by (simp add: same_transfer_def) (simp add: send_event_def)
  qed
  ultimately show ?thesis using s p(1,2) unfolding signs_def by blast
qed

section \<open>All that was sent\<close>

text \<open>Hexadecimal: it decodes what it encodes.\<close>

definition hex_ok :: "(bytes \<Rightarrow> rust_str) \<Rightarrow> hex_decoder \<Rightarrow> bool" where
  "hex_ok enc H \<longleftrightarrow> (\<forall>b. H (enc b) = Some b \<and> (enc b = [] \<longrightarrow> b = []))"

lemma hex_bytes_hex0x: "hex_ok (cx_hex cx) H \<Longrightarrow> hex_bytes H (hex0x cx b) = Some b"
  using strip_prefix_append [of "rstr ''0x''" "cx_hex cx b"]
  by (auto simp: hex_bytes_def hex0x_def hex_ok_def Let_def)

lemma hex32_hex0x: "hex_ok (cx_hex cx) H \<Longrightarrow> hex32 H (hex0x cx (arr_bytes (x :: bytes32))) = Some x"
  by (simp add: hex32_def hex_bytes_hex0x of_be_arr_bytes)

lemma hex_bytes_0x: "hex_bytes H (rstr ''0x'') = Some []"
  by (simp add: hex_bytes_def strip_prefix_def starts_with_def rstr_def)

lemma signed_record_encodable:
  assumes "to_sent ev = Inr s" "hex_ok (cx_hex cx) H" "ev_submission_id ev = event_sid E (cx_bridge_domain cx) ev"
    and "\<And>a. ev_auto ev = Some a \<Longrightarrow> length (encode_evm_auto_params a) < 2 ^ 64"
  shows "encodable (keccak E) H (signed_record E cx s) (cx_bridge_domain cx) =
    Inr \<lparr>en_id = ev_submission_id ev, en_debridge_id = ev_debridge_id ev, en_amount = ev_amount ev,
      en_bridge_decimals = ev_bridge_decimals ev, en_receiver = ev_receiver ev,
      en_native_sender = ev_native_sender ev, en_auto = ev_auto ev\<rparr>"
proof -
  have s: "hs_submission_id s = ev_submission_id ev" "hs_debridge_id s = ev_debridge_id ev" "hs_amount s = ev_amount ev"
    "hs_bridge_decimals s = ev_bridge_decimals ev" "hs_chain_id_from s = ev_chain_id_from ev"
    "hs_chain_id_to s = ev_chain_id_to ev" "hs_nonce s = ev_nonce ev" "hs_receiver s = ev_receiver ev"
    "hs_native_sender s = ev_native_sender ev" "hs_auto s = map_option (\<lambda>w. wire_to_auto w (ev_native_sender ev)) (ev_auto ev)"
    using assms(1) by (auto simp: to_sent_def split: if_splits)
  have blob: "bind_res (ok_or (hex_bytes H (rc_auto_params (signed_record E cx s))) x) (\<lambda>blob.
      bind_res (map_err UAutoParams (decode_evm_auto_params blob)) f) = f (ev_auto ev)" for x f
  proof (cases "ev_auto ev")
    case None
    then show ?thesis by (simp add: signed_record_def s hex_bytes_0x decode_evm_auto_params_def)
  next
    case (Some a)
    then show ?thesis
      using evm_auto_decodes [OF assms(4) [OF Some]]
      by (simp add: signed_record_def s hex_bytes_hex0x [OF assms(2)] auto_wire_inverse)
  qed
  have "recomputed_id (keccak E) (cx_bridge_domain cx) (ev_debridge_id ev) (ev_bridge_decimals ev) (ev_amount ev)
      (ev_chain_id_from ev) (ev_chain_id_to ev) (ev_nonce ev) (ev_receiver ev) (ev_auto ev) (ev_native_sender ev) =
      ev_submission_id ev"
    unfolding recomputed_agrees assms(3) [unfolded event_sid_def, symmetric] by (rule refl)
  then show ?thesis
    unfolding encodable_def blob
    by (simp add: signed_record_def s hex32_hex0x [OF assms(2)] hex_bytes_hex0x [OF assms(2)] parse_to_string Let_def)
qed

lemma ser_auto_lengths:
  assumes "ser_sent_event ev = Some b" "ev_auto ev = Some a"
  shows "length (encode_evm_auto_params a) < 2 ^ 64"
proof -
  have "\<exists>x. ser_auto a = Some x"
    using assms by (auto simp: ser_sent_event_def ser_struct_simps ser_opt.simps simp del: ser_seq.simps(2) split: Option.bind_splits)
  then have "length (ap_fallback_address a) < 2 ^ 32" "length (ap_data a) < 2 ^ 32"
    by (auto simp: ser_auto_def ser_struct_simps ser_bytes_def ser_vec_def simp del: ser_seq.simps(2) split: if_splits)
  moreover have "length (enc_padded x) \<le> 64 + length x" for x
  proof -
    have "(length x + 31) div 32 * 32 \<le> length x + 31" by (rule div_times_less_eq_dividend)
    then show ?thesis by (simp add: enc_padded_def)
  qed
  from this [of "ap_fallback_address a"] this [of "ap_data a"]
  have "length (encode_evm_auto_params a) \<le> 288 + length (ap_fallback_address a) + length (ap_data a)"
    by (simp add: encode_evm_auto_params_def Let_def)
  ultimately show ?thesis by simp
qed

text \<open>
  C22. What was sent is signed, and in a form every reader understands. After a
  successful send of an asset stored in the current format, the line the runtime prints
  for its event makes the scanner sign and store one record; whoever reads that record
  back recomputes the id of the send and finds its fields. The answers must be those
  of the chain, the destination must use the same scale, and the allowlist must permit
  the transfer.
\<close>

theorem genuine_event_signed:
  assumes "runtime_ok E pid" "process_send E pid accs args w = Inr w'"
    and "gate_config E pid w = Some cfg" "load_asset E pid (sa_debridge_id args) (accs ! 1) w = Inr asset"
    and "\<not> is_legacy_asset_len (length (data_of w (accs ! 1)))"
    and "apart E pid [lit ''asset'', arr_bytes (sa_debridge_id args)]"
    and "cx_program_id cx = pid" "cx_bridge_domain cx = bridge_domain cfg" "cx_chain_id cx = chain_id cfg"
    and "b64_ok enc (cx_b64 cx)" "hex_ok (cx_hex cx) H"
    and "good_answers cx an w' st (sa_chain_id_to args) (sa_debridge_id args) (as_bridge_decimals asset)"
    and "allowlist_permits (sc_allowlist st) (hex0x cx (arr_bytes (sa_debridge_id args))) (chain_id cfg) (sa_chain_id_to args)"
  shows "\<exists>wire ev b line st' rc. ev = send_event E cfg asset args (ai_key (accs ! 2)) wire \<and>
    to_wire asset (sa_amount args) = Inr wire \<and>
    ser_sent_event ev = Some b \<and> logs w' = logs w @ [[SENT_EVENT_TAG, b]] \<and>
    sent_event_to_program_data_line enc ev = Some line \<and>
    process_line E cx an line tx st = (Inr True, st') \<and> sc_outbox st' = sc_outbox st @ [rc] \<and>
    encodable (keccak E) H rc (bridge_domain cfg) =
      Inr \<lparr>en_id = ev_submission_id ev, en_debridge_id = ev_debridge_id ev, en_amount = ev_amount ev,
        en_bridge_decimals = ev_bridge_decimals ev, en_receiver = ev_receiver ev,
        en_native_sender = ev_native_sender ev, en_auto = ev_auto ev\<rparr>"
proof -
  from genuine_signed [OF assms(1-10,12,13), of tx] obtain wire ev b line s st' where
    e: "ev = send_event E cfg asset args (ai_key (accs ! 2)) wire" "to_wire asset (sa_amount args) = Inr wire"
      "ser_sent_event ev = Some b" "logs w' = logs w @ [[SENT_EVENT_TAG, b]]"
      "sent_event_to_program_data_line enc ev = Some line"
      "process_line E cx an line tx st = (Inr True, st')" "sc_outbox st' = sc_outbox st @ [signed_record E cx s]"
    and s: "to_sent ev = Inr s" by (elim exE conjE) (rule that)
  have "ev_submission_id ev = event_sid E (cx_bridge_domain cx) ev" unfolding e(1) assms(8) by (rule send_event_sid)
  from signed_record_encodable [OF s assms(11) this] ser_auto_lengths [OF e(3)]
  have "encodable (keccak E) H (signed_record E cx s) (bridge_domain cfg) =
      Inr \<lparr>en_id = ev_submission_id ev, en_debridge_id = ev_debridge_id ev, en_amount = ev_amount ev,
        en_bridge_decimals = ev_bridge_decimals ev, en_receiver = ev_receiver ev,
        en_native_sender = ev_native_sender ev, en_auto = ev_auto ev\<rparr>" unfolding assms(8) by blast
  with e show ?thesis
    by (intro exI [of _ wire] exI [of _ ev] exI [of _ b] exI [of _ line] exI [of _ st']
        exI [of _ "signed_record E cx s"] conjI)
qed

text \<open>
  The exception: an asset stored in the layout of the first program version. The gate
  reads it, with unit one, and sends; the scanner does not, so such a transfer is
  passed over unsigned, as if it had been forged.
\<close>

lemma legacy_asset_withheld:
  assumes "is_legacy_asset_len (length d)"
    and "an_account an (pda E (cx_program_id cx) [lit ''asset'', arr_bytes did]) =
      Some (Some \<lparr>lamports = l, acct_owner = cx_program_id cx, acct_data = d\<rparr>)"
  shows "\<exists>a. decode_asset_config d = Inr a \<and> asset_unit a = Inr 1" "asset_bridge_unit d = Some 1"
    and "asset_for E cx an did = Inr None"
proof -
  have l: "length d < 98" "96 \<le> length d" using assms(1) by (auto simp: is_legacy_asset_len_def LEGACY_ASSET_CONFIG_LEN_def)
  have "deserialize de_asset_config d = None"
    using l(1) by (auto simp: deserialize_def de_asset_config_def de_arr_def de_word_def Let_def split: if_splits Option.bind_splits)
  then show "asset_for E cx an did = Inr None" using assms(2) by (simp add: asset_for_def)
  show "asset_bridge_unit d = Some 1"
    using assms(1) by (simp add: asset_bridge_unit_def is_legacy_asset_len_def LEGACY_ASSET_CONFIG_LEN_def LEGACY_ASSET_LEN_def)
  show "\<exists>a. decode_asset_config d = Inr a \<and> asset_unit a = Inr 1"
    using assms(1) l
    by (auto simp: decode_asset_config_def is_legacy_asset_len_def LEGACY_ASSET_CONFIG_LEN_def de_arr_def Let_def
        asset_unit_def bridge_unit_def checked_sub_def checked_pow_def)
qed

section \<open>Demonstration\<close>

definition demo_answers :: "world \<Rightarrow> answers" where
  "demo_answers w = \<lparr>an_account = (\<lambda>k. Some (Some (accts w k))), an_decimals = (\<lambda>c d. Some (Some 3)),
     an_upsert = (\<lambda>rc. Stored)\<rparr>"

definition demo_scanner :: scanner where
  "demo_scanner = \<lparr>sc_cursor = \<lparr>last_signature = None, quarantined = []\<rparr>,
     sc_allowlist = Some \<lparr>al_debridge_ids = [], al_chains = [(7, 9)]\<rparr>, sc_scale_cache = Map.empty, sc_outbox = []\<rparr>"

definition demo_b64 :: b64_encoder where
  "demo_b64 b = map (\<lambda>x. unat x + 20000) b"

lemma demo_codecs:
  "b64_ok demo_b64 (cx_b64 demo_scan_config)" "hex_ok (cx_hex demo_scan_config) demo_hex"
  by (auto simp: b64_ok_def hex_ok_def demo_b64_def demo_hex_def demo_scan_config_def no_space_def list_all_iff
      is_whitespace_def comp_def)



lemma demo_origin_setup:
  obtains w' where "process_send demo_env 100 [demo_info 1, demo_info 94, demo_signer 4, demo_info 36, demo_info 20,
     demo_info 200, demo_info 12, demo_info 0] demo_send (demo_world demo_config) = Inr w'"
    "gate_config demo_env 100 (demo_world demo_config) = Some demo_config"
    "load_asset demo_env 100 5 (demo_info 94) (demo_world demo_config) = Inr demo_asset"
    "\<not> is_legacy_asset_len (length (data_of (demo_world demo_config) (demo_info 94)))"
    "good_answers demo_scan_config (demo_answers w') w' demo_scanner 9 5 3"
    "allowlist_permits (sc_allowlist demo_scanner) (hex0x demo_scan_config (arr_bytes (5 :: bytes32))) 7 9"
proof -
  obtain w' where w': "process_send demo_env 100 [demo_info 1, demo_info 94, demo_signer 4, demo_info 36, demo_info 20,
     demo_info 200, demo_info 12, demo_info 0] demo_send (demo_world demo_config) = Inr w'"
    using demo_send_runs by blast
  have c: "gate_config demo_env 100 (demo_world demo_config) = Some demo_config"
    using gate_config_load [OF demo_load] by simp
  have l: "length (data_of (demo_world demo_config) (demo_info 94)) = 130"
  proof -
    obtain bs where "ser_asset_config demo_asset = Some bs" "length bs = 98"
      by (simp add: ser_asset_config_def demo_asset_def ser_struct_simps ser_arr_def ser_word_def)
    then show ?thesis by (simp add: demo_world_def demo_accts_def)
  qed
  have nl: "\<not> is_legacy_asset_len (length (data_of (demo_world demo_config) (demo_info 94)))"
    unfolding l by (simp add: is_legacy_asset_len_def LEGACY_ASSET_CONFIG_LEN_def)
  show ?thesis
    by (rule that [OF w' c demo_load_asset nl])
      (simp_all add: good_answers_def demo_answers_def
        demo_scan_config_def demo_scanner_def allowlist_permits_def token_allowed_def chain_allowed_def)
qed

theorem genuine_event_signed_witness:
  "\<exists>w' line st' rc enc. process_send demo_env 100 [demo_info 1, demo_info 94, demo_signer 4, demo_info 36, demo_info 20,
     demo_info 200, demo_info 12, demo_info 0] demo_send (demo_world demo_config) = Inr w' \<and>
   process_line demo_env demo_scan_config (demo_answers w') line [1] demo_scanner = (Inr True, st') \<and>
   sc_outbox st' = [rc] \<and> encodable demo_keccak demo_hex rc 1 = Inr enc \<and> en_amount enc = 2"
proof -
  obtain w' where w: "process_send demo_env 100 [demo_info 1, demo_info 94, demo_signer 4, demo_info 36, demo_info 20,
     demo_info 200, demo_info 12, demo_info 0] demo_send (demo_world demo_config) = Inr w'"
    "gate_config demo_env 100 (demo_world demo_config) = Some demo_config"
    "load_asset demo_env 100 5 (demo_info 94) (demo_world demo_config) = Inr demo_asset"
    "\<not> is_legacy_asset_len (length (data_of (demo_world demo_config) (demo_info 94)))"
    "good_answers demo_scan_config (demo_answers w') w' demo_scanner 9 5 3"
    "allowlist_permits (sc_allowlist demo_scanner) (hex0x demo_scan_config (arr_bytes (5 :: bytes32))) 7 9"
    by (rule demo_origin_setup)
  have f: "sa_debridge_id demo_send = 5" "sa_chain_id_to demo_send = 9" "sa_amount demo_send = 2000"
    "as_bridge_decimals demo_asset = 3" "cx_program_id demo_scan_config = 100"
    "cx_bridge_domain demo_scan_config = 1" "bridge_domain demo_config = 1" "cx_chain_id demo_scan_config = 7"
    "chain_id demo_config = 7" "sc_outbox demo_scanner = []"
    by (simp_all add: demo_send_def demo_asset_def demo_scan_config_def demo_config_def demo_scanner_def)
  have ok: "runtime_ok demo_env 100" by (rule demo_runtime_ok) simp_all
  have ap: "apart demo_env 100 [lit ''asset'', arr_bytes (5 :: bytes32)]" by (rule demo_apart) simp_all
  have wire: "to_wire demo_asset 2000 = Inr 2"
    by (simp add: to_wire_def asset_unit_def bridge_unit_def demo_asset_def checked_sub_def checked_pow_def)
  have "\<exists>wire ev b line st' rc. ev = send_event demo_env demo_config demo_asset demo_send 4 wire \<and>
    to_wire demo_asset 2000 = Inr wire \<and> ser_sent_event ev = Some b \<and>
    logs w' = logs (demo_world demo_config) @ [[SENT_EVENT_TAG, b]] \<and>
    sent_event_to_program_data_line demo_b64 ev = Some line \<and>
    process_line demo_env demo_scan_config (demo_answers w') line [1] demo_scanner = (Inr True, st') \<and>
    sc_outbox st' = sc_outbox demo_scanner @ [rc] \<and>
    encodable (keccak demo_env) demo_hex rc (bridge_domain demo_config) =
      Inr \<lparr>en_id = ev_submission_id ev, en_debridge_id = ev_debridge_id ev, en_amount = ev_amount ev,
        en_bridge_decimals = ev_bridge_decimals ev, en_receiver = ev_receiver ev,
        en_native_sender = ev_native_sender ev, en_auto = ev_auto ev\<rparr>"
    using genuine_event_signed [OF ok w(1,2) _ _ _ _ _ _ demo_codecs, of demo_asset "demo_answers w'" demo_scanner "[1]"]
      w(3-6) ap by (simp add: f)
  then obtain wire' ev line st' rc where r: "ev = send_event demo_env demo_config demo_asset demo_send 4 wire'"
    "to_wire demo_asset 2000 = Inr wire'"
    "process_line demo_env demo_scan_config (demo_answers w') line [1] demo_scanner = (Inr True, st')"
    "sc_outbox st' = sc_outbox demo_scanner @ [rc]"
    "encodable (keccak demo_env) demo_hex rc (bridge_domain demo_config) =
      Inr \<lparr>en_id = ev_submission_id ev, en_debridge_id = ev_debridge_id ev, en_amount = ev_amount ev,
        en_bridge_decimals = ev_bridge_decimals ev, en_receiver = ev_receiver ev,
        en_native_sender = ev_native_sender ev, en_auto = ev_auto ev\<rparr>"
    by (elim exE conjE) (rule that)
  have "ev_amount ev = 2" using r(1,2) wire by (simp add: send_event_def)
  let ?enc = "\<lparr>en_id = ev_submission_id ev, en_debridge_id = ev_debridge_id ev, en_amount = ev_amount ev,
        en_bridge_decimals = ev_bridge_decimals ev, en_receiver = ev_receiver ev,
        en_native_sender = ev_native_sender ev, en_auto = ev_auto ev\<rparr>"
  show ?thesis
    by (rule exI [of _ w'], rule exI [of _ line], rule exI [of _ st'], rule exI [of _ rc], rule exI [of _ ?enc])
      (use w(1) r(3-5) \<open>ev_amount ev = 2\<close> in \<open>simp add: f\<close>)
qed

lemma demo_run_inputs:
  "run_inputs demo_env 100 (demo_world demo_config) [Executed 0 [demo_info 1, demo_info 94, demo_signer 4, demo_info 36,
     demo_info 20, demo_info 200, demo_info 12, demo_info 0] (Send demo_send)] \<subseteq>
   event_inputs demo_env 1 (send_event demo_env demo_config demo_asset demo_send 4 2)"
proof -
  have wire: "to_wire demo_asset 2000 = Inr 2"
    by (simp add: to_wire_def asset_unit_def bridge_unit_def demo_asset_def checked_sub_def checked_pow_def)
  have f: "sa_debridge_id demo_send = 5" "sa_amount demo_send = 2000" "bridge_domain demo_config = 1"
    by (simp_all add: demo_send_def demo_config_def)
  have c: "gate_config demo_env 100 (demo_world demo_config) = Some demo_config"
    using gate_config_load [OF demo_load] by simp
  have *: "args = demo_send \<and> sender = 4 \<and> cfg = demo_config \<and> asset = demo_asset \<and> wire = 2"
    if sent: "sent_in demo_env 100 (demo_world demo_config) [Executed 0 [demo_info 1, demo_info 94, demo_signer 4, demo_info 36,
      demo_info 20, demo_info 200, demo_info 12, demo_info 0] (Send demo_send)] w t args sender cfg asset wire"
    for w t args sender cfg asset wire
  proof -
    obtain es1 accs es2 w1 where e: "[Executed 0 [demo_info 1, demo_info 94, demo_signer 4, demo_info 36,
        demo_info 20, demo_info 200, demo_info 12, demo_info 0] (Send demo_send)] = es1 @ Executed t accs (Send args) # es2"
      and r: "gate_run demo_env 100 (demo_world demo_config) es1 w1" "gate_config demo_env 100 w1 = Some cfg"
      "load_asset demo_env 100 (sa_debridge_id args) (accs ! 1) w1 = Inr asset"
      "to_wire asset (sa_amount args) = Inr wire" "sender = ai_key (accs ! 2)"
      using sent unfolding sent_in_def by (elim exE conjE) (rule that)
    have s: "es1 = []" "args = demo_send" "accs = [demo_info 1, demo_info 94, demo_signer 4, demo_info 36,
        demo_info 20, demo_info 200, demo_info 12, demo_info 0]"
      using e by (cases es1; simp)+
    have "w1 = demo_world demo_config" using r(1) unfolding s(1) by (cases rule: gate_run.cases) auto
    then show ?thesis using r(2-5) s c demo_load_asset wire f by simp
  qed
  show ?thesis
  proof
    fix x
    assume "x \<in> run_inputs demo_env 100 (demo_world demo_config) [Executed 0 [demo_info 1, demo_info 94, demo_signer 4,
      demo_info 36, demo_info 20, demo_info 200, demo_info 12, demo_info 0] (Send demo_send)]"
    then obtain w t args sender cfg asset wire where
      x: "x \<in> event_inputs demo_env (bridge_domain cfg) (send_event demo_env cfg asset args sender wire)"
      and "sent_in demo_env 100 (demo_world demo_config) [Executed 0 [demo_info 1, demo_info 94, demo_signer 4, demo_info 36,
        demo_info 20, demo_info 200, demo_info 12, demo_info 0] (Send demo_send)] w t args sender cfg asset wire"
      unfolding run_inputs_def by blast
    note * [OF this(2)]
    then show "x \<in> event_inputs demo_env 1 (send_event demo_env demo_config demo_asset demo_send 4 2)"
      using x f(3) by metis
  qed
qed

theorem signed_was_sent_witness:
  "\<exists>w' line st' rc t args sender cfg asset wire.
     process_line demo_env demo_scan_config (demo_answers w') line [1] demo_scanner = (Inr True, st') \<and>
     sc_outbox st' = [rc] \<and>
     sent_in demo_env 100 (demo_world demo_config) [Executed 0 [demo_info 1, demo_info 94, demo_signer 4, demo_info 36,
       demo_info 20, demo_info 200, demo_info 12, demo_info 0] (Send demo_send)] w' t args sender cfg asset wire \<and>
     ev_amount (send_event demo_env demo_config demo_asset demo_send 4 2) = wire"
proof -
  let ?accs = "[demo_info 1, demo_info 94, demo_signer 4, demo_info 36, demo_info 20, demo_info 200, demo_info 12, demo_info 0]"
  let ?es = "[Executed 0 ?accs (Send demo_send)]" and ?w0 = "demo_world demo_config"
  obtain w' where w: "process_send demo_env 100 ?accs demo_send ?w0 = Inr w'"
    "gate_config demo_env 100 ?w0 = Some demo_config"
    "load_asset demo_env 100 5 (demo_info 94) ?w0 = Inr demo_asset"
    "\<not> is_legacy_asset_len (length (data_of ?w0 (demo_info 94)))"
    "good_answers demo_scan_config (demo_answers w') w' demo_scanner 9 5 3"
    "allowlist_permits (sc_allowlist demo_scanner) (hex0x demo_scan_config (arr_bytes (5 :: bytes32))) 7 9"
    by (rule demo_origin_setup)
  have f: "sa_debridge_id demo_send = 5" "sa_chain_id_to demo_send = 9" "sa_amount demo_send = 2000"
    "as_bridge_decimals demo_asset = 3" "cx_program_id demo_scan_config = 100"
    "cx_bridge_domain demo_scan_config = 1" "bridge_domain demo_config = 1" "cx_chain_id demo_scan_config = 7"
    "chain_id demo_config = 7" "sc_outbox demo_scanner = []" "sa_auto demo_send = None" "sa_receiver demo_send = replicate 20 1"
    "nonce_of demo_config 9 = 0"
    by (simp_all add: demo_send_def demo_asset_def demo_scan_config_def demo_config_def demo_scanner_def nonce_of_def)
  have ok: "runtime_ok demo_env 100" by (rule demo_runtime_ok) simp_all
  have ap: "apart demo_env 100 [lit ''asset'', arr_bytes (5 :: bytes32)]" by (rule demo_apart) simp_all
  have wire: "to_wire demo_asset 2000 = Inr 2"
    by (simp add: to_wire_def asset_unit_def bridge_unit_def demo_asset_def checked_sub_def checked_pow_def)
  let ?ev = "send_event demo_env demo_config demo_asset demo_send 4 2"
  have "\<exists>wire ev b line s st'. ev = send_event demo_env demo_config demo_asset demo_send 4 wire \<and>
    to_wire demo_asset 2000 = Inr wire \<and> ser_sent_event ev = Some b \<and> logs w' = logs ?w0 @ [[SENT_EVENT_TAG, b]] \<and>
    sent_event_to_program_data_line demo_b64 ev = Some line \<and> to_sent ev = Inr s \<and>
    process_line demo_env demo_scan_config (demo_answers w') line [1] demo_scanner = (Inr True, st') \<and>
    sc_outbox st' = sc_outbox demo_scanner @ [signed_record demo_env demo_scan_config s]"
    using genuine_signed [OF ok w(1,2) _ _ _ _ _ _ demo_codecs(1), of demo_asset "demo_answers w'" demo_scanner "[1]"]
      w(3-6) ap by (simp add: f)
  then obtain line s st' where l: "sent_event_to_program_data_line demo_b64 ?ev = Some line" "to_sent ?ev = Inr s"
    "process_line demo_env demo_scan_config (demo_answers w') line [1] demo_scanner = (Inr True, st')"
    "sc_outbox st' = [signed_record demo_env demo_scan_config s]"
    using wire f(10) by auto
  have g: "gate_run demo_env 100 ?w0 ?es w'"
    using run_ix [OF run_nil, of demo_env 0 100 ?accs "Send demo_send" ?w0 w'] w(1) by (simp add: demo_at_time_0)
  have tr: "truthful (demo_answers w') w'" by (simp add: truthful_def demo_answers_def)
  have parse: "parse_sent_event_line (cx_b64 demo_scan_config) line = Some (Inr ?ev)"
    by (rule event_line_parses(1) [OF demo_codecs(1) l(1)])
  have sid: "ev_submission_id ?ev = 0" by (simp add: send_event_def f)
  have rw: "receiver_width_ok (ev_receiver ?ev)" by (simp add: send_event_def f receiver_width_ok_def)
  have ap0: "apart demo_env 100 [lit ''sent'', arr_bytes (ev_submission_id ?ev)]" unfolding sid by (rule demo_apart) simp_all
  have no: "store 100 ?w0 (pda demo_env 100 [lit ''sent'', arr_bytes (ev_submission_id ?ev)]) = None"
    unfolding sid by (simp add: demo_pda_sent store_def demo_world_def demo_accts_def)
  have "event_inputs demo_env 1 ?ev \<union> run_inputs demo_env 100 ?w0 ?es = event_inputs demo_env 1 ?ev"
    using demo_run_inputs by blast
  moreover have "inj_on (keccak demo_env) (event_inputs demo_env 1 ?ev)"
    by (simp add: event_inputs_def id_inputs_def auto_inputs_def send_event_def f)
  ultimately have inj: "inj_on (keccak demo_env) (event_inputs demo_env (cx_bridge_domain demo_scan_config) ?ev \<union>
      run_inputs demo_env 100 ?w0 ?es)" by (simp add: f)
  have out: "sc_outbox st' \<noteq> sc_outbox demo_scanner" using l(4) f(10) by simp
  from signed_was_sent [OF ok g tr f(5) l(3) out parse ap0 no inj] rw
  obtain t args sender cfg asset wire where "sent_in demo_env 100 ?w0 ?es w' t args sender cfg asset wire"
    "ev_amount ?ev = wire" by (auto simp: same_transfer_def)
  then show ?thesis using l(3,4) by blast
qed

end
