(* ===== verification/EvmReader.thy ===== *)
theory EvmReader
  imports RustStr GateTypes
begin

text \<open>
  The view of an EVM gate that the relayer reads over JSON-RPC
  (solana-relayer/src/evm.rs): the decoders of the getters' return words, the reads at a
  confirmed block, and the search for a block that is old by the chain's own clock. The
  node is a parameter: what it answers to one round of questions.
\<close>

section \<open>Words\<close>

definition selector :: "(bytes \<Rightarrow> bytes32) \<Rightarrow> string \<Rightarrow> bytes" where
  "selector K signature = take 4 (arr_bytes (K (lit signature)))"

definition encode_bytes32_call :: "(bytes \<Rightarrow> bytes32) \<Rightarrow> string \<Rightarrow> bytes32 \<Rightarrow> bytes" where
  "encode_bytes32_call K signature x = selector K signature @ arr_bytes x"

definition encode_address_call :: "(bytes \<Rightarrow> bytes32) \<Rightarrow> string \<Rightarrow> address \<Rightarrow> bytes" where
  "encode_address_call K signature a = selector K signature @ replicate 12 0 @ arr_bytes a"

definition decode_bool :: "bytes \<Rightarrow> bool option" where
  "decode_bool ret =
     (if length ret \<noteq> 32 then None
      else if list_ex (\<lambda>b. b \<noteq> 0) (take 31 ret) \<or> ret ! 31 > 1 then None
      else Some (ret ! 31 = 1))"

definition decode_address_is_set :: "bytes \<Rightarrow> bool option" where
  "decode_address_is_set ret =
     (if length ret \<noteq> 32 then None
      else if list_ex (\<lambda>b. b \<noteq> 0) (take 12 ret) then None
      else Some (list_ex (\<lambda>b. b \<noteq> 0) (drop 12 ret)))"

definition decode_address :: "bytes \<Rightarrow> address option option" where
  "decode_address ret =
     (if length ret \<noteq> 32 then None
      else if list_ex (\<lambda>b. b \<noteq> 0) (take 12 ret) then None
      else let a = of_be (drop 12 ret) in Some (if a \<noteq> 0 then Some a else None))"

definition decode_bridge_decimals_for :: "bytes \<Rightarrow> u8 option option" where
  "decode_bridge_decimals_for ret =
     (if length ret < 128 then None
      else if list_ex (\<lambda>b. b \<noteq> 0) (take 31 ret) \<or> ret ! 31 > 1 then None
      else if ret ! 31 = 0 then Some None
      else if list_ex (\<lambda>b. b \<noteq> 0) (take 31 (drop 32 ret)) then None
      else Some (Some (ret ! 63)))"

definition decode_bridge_decimals_of :: "bytes \<Rightarrow> u8 option option" where
  "decode_bridge_decimals_of ret =
     (if length ret < 96 then None
      else if list_ex (\<lambda>b. b \<noteq> 0) (take 31 ret) \<or> ret ! 31 > 1 then None
      else if ret ! 31 = 0 then Some None
      else if list_ex (\<lambda>b. b \<noteq> 0) (take 31 (drop 32 ret)) then None
      else Some (Some (ret ! 63)))"

text \<open>\<open>u64::from_str_radix(_, 16)\<close>.\<close>

definition hex_digit :: "nat \<Rightarrow> nat option" where
  "hex_digit c =
     (if 48 \<le> c \<and> c \<le> 57 then Some (c - 48)
      else if 97 \<le> c \<and> c \<le> 102 then Some (c - 87)
      else if 65 \<le> c \<and> c \<le> 70 then Some (c - 55)
      else None)"

fun parse_hex_digits :: "u64 \<Rightarrow> rust_str \<Rightarrow> u64 option" where
  "parse_hex_digits acc [] = Some acc"
| "parse_hex_digits acc (c # cs) = do {
     d \<leftarrow> hex_digit c;
     m \<leftarrow> checked_mul acc 16;
     a \<leftarrow> checked_add m (of_nat d);
     parse_hex_digits a cs }"

definition from_str_radix_16 :: "rust_str \<Rightarrow> u64 option" where
  "from_str_radix_16 s =
     (let digits = (if s \<noteq> [] \<and> hd s = 43 then tl s else s) in
      if digits = [] then None else parse_hex_digits 0 digits)"

definition quantity :: "rust_str \<Rightarrow> u64 option" where
  "quantity v =
     (let s = (case strip_prefix v (rstr ''0x'') of Some t \<Rightarrow> t | None \<Rightarrow> v) in
      from_str_radix_16 (if s = [] then rstr ''0'' else s))"

section \<open>Reads\<close>

text \<open>What a call ended with: the returned bytes, a revert, or a failure in transit.\<close>

datatype call_reply = Returned bytes | Reverted | CallFailed

record evm_node =
  nd_block_number :: "rust_str option"
  nd_timestamp :: "u64 \<Rightarrow> rust_str option"
  nd_call :: "bytes \<Rightarrow> u64 \<Rightarrow> call_reply"

record gate_reader =
  gr_chain_id :: u64
  gr_block_confirmation :: u64

definition confirmed_block :: "gate_reader \<Rightarrow> evm_node \<Rightarrow> u64 option" where
  "confirmed_block r nd =
     Option.bind (nd_block_number nd) (\<lambda>q. map_option (\<lambda>latest. sat_sub latest (gr_block_confirmation r)) (quantity q))"

definition block_timestamp :: "evm_node \<Rightarrow> u64 \<Rightarrow> i64 option" where
  "block_timestamp nd number = Option.bind (nd_timestamp nd number) quantity"

definition evm_call :: "evm_node \<Rightarrow> bytes \<Rightarrow> u64 \<Rightarrow> bytes option" where
  "evm_call nd d block = (case nd_call nd d block of Returned b \<Rightarrow> Some b | _ \<Rightarrow> None)"

record dest_state =
  ds_executed :: bool
  ds_cancelled :: bool

record source_state =
  src_sent :: bool
  src_refunded :: bool

definition evm_destination_state ::
  "(bytes \<Rightarrow> bytes32) \<Rightarrow> gate_reader \<Rightarrow> evm_node \<Rightarrow> bytes32 \<Rightarrow> dest_state option" where
  "evm_destination_state K r nd x = do {
     block \<leftarrow> confirmed_block r nd;
     a \<leftarrow> evm_call nd (encode_bytes32_call K ''executed(bytes32)'' x) block;
     executed \<leftarrow> decode_bool a;
     b \<leftarrow> evm_call nd (encode_bytes32_call K ''cancelled(bytes32)'' x) block;
     cancelled \<leftarrow> decode_bool b;
     Some \<lparr>ds_executed = executed, ds_cancelled = cancelled\<rparr> }"

definition evm_source_state ::
  "(bytes \<Rightarrow> bytes32) \<Rightarrow> gate_reader \<Rightarrow> evm_node \<Rightarrow> bytes32 \<Rightarrow> source_state option" where
  "evm_source_state K r nd x = do {
     block \<leftarrow> confirmed_block r nd;
     a \<leftarrow> evm_call nd (encode_bytes32_call K ''sentBy(bytes32)'' x) block;
     sent \<leftarrow> decode_address_is_set a;
     b \<leftarrow> evm_call nd (encode_bytes32_call K ''refunded(bytes32)'' x) block;
     refunded \<leftarrow> decode_bool b;
     Some \<lparr>src_sent = sent, src_refunded = refunded\<rparr> }"

text \<open>
  \<open>None\<close> is a failure in transit, \<open>Some None\<close> the gate's answer that it cannot vouch
  for a scale. A gate without the combined getter is asked with the two it is made of.
\<close>

definition bridge_decimals_for ::
  "(bytes \<Rightarrow> bytes32) \<Rightarrow> gate_reader \<Rightarrow> evm_node \<Rightarrow> bytes32 \<Rightarrow> u8 option option" where
  "bridge_decimals_for K r nd did = do {
     block \<leftarrow> confirmed_block r nd;
     case (case nd_call nd (encode_bytes32_call K ''bridgeDecimalsFor(bytes32)'' did) block of
             Returned ret \<Rightarrow> decode_bridge_decimals_for ret | _ \<Rightarrow> None) of
       Some v \<Rightarrow> Some v
     | None \<Rightarrow>
         (case nd_call nd (encode_bytes32_call K ''tokenOf(bytes32)'' did) block of
            CallFailed \<Rightarrow> None
          | Reverted \<Rightarrow> Some None
          | Returned ret \<Rightarrow>
              (case decode_address ret of
                 None \<Rightarrow> Some None
               | Some None \<Rightarrow> Some None
               | Some (Some local) \<Rightarrow>
                   (case nd_call nd (encode_address_call K ''bridgeDecimalsOf(address)'' local) block of
                      Returned ret \<Rightarrow>
                        Some (case decode_bridge_decimals_of ret of Some v \<Rightarrow> v | None \<Rightarrow> None)
                    | Reverted \<Rightarrow> Some None
                    | CallFailed \<Rightarrow> None))) }"

section \<open>Age\<close>

definition sat_mul :: "u64 \<Rightarrow> u64 \<Rightarrow> u64" where
  "sat_mul x y = (if unat x * unat y < 2 ^ 64 then x * y else - 1)"

text \<open>The loop steps back from the head, twice as far each time.\<close>

fun aged_loop :: "evm_node \<Rightarrow> u64 \<Rightarrow> i64 \<Rightarrow> nat \<Rightarrow> u64 \<Rightarrow> u64 option option" where
  "aged_loop nd head_num target 0 step = Some None"
| "aged_loop nd head_num target (Suc left) step =
     (case checked_sub head_num step of
        None \<Rightarrow> Some None
      | Some candidate \<Rightarrow>
          (case block_timestamp nd candidate of
             None \<Rightarrow> None
           | Some ts \<Rightarrow>
               if sint ts \<le> sint target then Some (Some candidate)
               else aged_loop nd head_num target left (sat_mul step 2)))"

definition first_step :: "i64 \<Rightarrow> u64" where
  "first_step timeout = max ((if sint timeout > 1 then timeout else 1) div 12) 1"

definition aged_block :: "gate_reader \<Rightarrow> evm_node \<Rightarrow> i64 \<Rightarrow> u64 option option" where
  "aged_block r nd timeout = do {
     head_num \<leftarrow> confirmed_block r nd;
     ts \<leftarrow> block_timestamp nd head_num;
     aged_loop nd head_num (isat_sub ts timeout) 24 (first_step timeout) }"

definition was_sent_by_block :: "(bytes \<Rightarrow> bytes32) \<Rightarrow> evm_node \<Rightarrow> bytes32 \<Rightarrow> u64 \<Rightarrow> bool option" where
  "was_sent_by_block K nd x block =
     Option.bind (evm_call nd (encode_bytes32_call K ''sentBy(bytes32)'' x) block) decode_address_is_set"

definition evm_aged_out :: "(bytes \<Rightarrow> bytes32) \<Rightarrow> gate_reader \<Rightarrow> evm_node \<Rightarrow> bytes32 \<Rightarrow> i64 \<Rightarrow> bool option" where
  "evm_aged_out K r nd x timeout = do {
     b \<leftarrow> aged_block r nd timeout;
     case b of Some block \<Rightarrow> was_sent_by_block K nd x block | None \<Rightarrow> Some False }"

section \<open>What a word means\<close>

lemma decode_bool_iff: "decode_bool ret = Some b \<longleftrightarrow> ret = replicate 31 0 @ [if b then 1 else 0]"
proof
  assume d: "decode_bool ret = Some b"
  then have l: "length ret = 32" and z: "\<forall>x \<in> set (take 31 ret). x = 0" and v: "ret ! 31 \<le> 1" "b \<longleftrightarrow> ret ! 31 = 1"
    by (auto simp: decode_bool_def list_ex_iff not_less split: if_splits)
  have "take 31 ret = replicate 31 0" using l z by (intro replicate_eqI) simp_all
  moreover have "ret = take 31 ret @ ret ! 31 # drop (Suc 31) ret" using l by (intro id_take_nth_drop) simp
  moreover have "drop (Suc 31) ret = []" using l by simp
  moreover have "ret ! 31 = (if b then 1 else 0)"
  proof -
    have "unat (ret ! 31) \<le> 1" using v(1) by (simp add: word_le_nat_alt)
    then have "ret ! 31 = 0 \<or> ret ! 31 = 1" by (auto simp: word_unat_eq_iff le_Suc_eq)
    then show ?thesis using v(2) by auto
  qed
  ultimately show "ret = replicate 31 0 @ [if b then 1 else 0]" by metis
qed (simp add: decode_bool_def list_ex_iff nth_append)

section \<open>What an old block shows\<close>

lemma aged_loop_old:
  "aged_loop nd head_num target left step = Some (Some block) \<Longrightarrow>
   \<exists>ts. block_timestamp nd block = Some ts \<and> sint ts \<le> sint target \<and> block \<le> head_num"
proof (induction nd head_num target left step rule: aged_loop.induct)
  case (2 nd head_num target left step)
  obtain candidate ts where c: "checked_sub head_num step = Some candidate" "block_timestamp nd candidate = Some ts"
    using "2.prems" by (auto split: option.splits)
  have "candidate \<le> head_num" using checked_sub_Some [OF c(1)] by (simp add: word_le_nat_alt)
  then show ?case using 2 c by (cases "sint ts \<le> sint target") auto
qed simp

lemma isat_sub_below:
  assumes "sint t \<le> sint (isat_sub x y)" "0 \<le> sint x" "0 \<le> sint y"
  shows "sint t + sint y \<le> sint x"
  using assms sint_i64_bounds [of x] sint_i64_bounds [of y]
  by (auto simp: sint_isat_sub i64_min_def i64_max_def)

text \<open>The times of the chain are after 1970.\<close>

definition clock_sane :: "evm_node \<Rightarrow> bool" where
  "clock_sane nd \<longleftrightarrow> (\<forall>n ts. block_timestamp nd n = Some ts \<longrightarrow> 0 \<le> sint ts)"

text \<open>A transfer is called old only when a block of at least that age has it.\<close>

lemma evm_aged_out_True:
  assumes "evm_aged_out K r nd x timeout = Some True" "0 \<le> sint timeout"
    and "clock_sane nd"
  obtains head_num block ts0 ts where "confirmed_block r nd = Some head_num" "block \<le> head_num"
    "block_timestamp nd head_num = Some ts0" "block_timestamp nd block = Some ts"
    "sint ts + sint timeout \<le> sint ts0" "was_sent_by_block K nd x block = Some True"
proof -
  obtain b where b: "aged_block r nd timeout = Some (Some b)" "was_sent_by_block K nd x b = Some True"
    using assms(1) by (auto simp: evm_aged_out_def split: Option.bind_splits option.splits)
  obtain h ts0 where h: "confirmed_block r nd = Some h" "block_timestamp nd h = Some ts0"
    "aged_loop nd h (isat_sub ts0 timeout) 24 (first_step timeout) = Some (Some b)"
    using b(1) by (auto simp: aged_block_def split: Option.bind_splits)
  obtain ts where "block_timestamp nd b = Some ts" "sint ts \<le> sint (isat_sub ts0 timeout)" "b \<le> h"
    using aged_loop_old [OF h(3)] by blast
  then show ?thesis using that h b(2) isat_sub_below assms(2,3) unfolding clock_sane_def by blast
qed

end
