(* ===== verification/RelayerRefund.thy ===== *)
theory RelayerRefund
  imports RelayerOriginProps RelayerQuorum EvmReader
begin

text \<open>
  The refund attester (solana-relayer/src/refund.rs): for each candidate of the store's
  queue, the facts it reads from the two chains, its decision, and the attestation it
  posts; and the walk over the queue. What the node answers about a candidate and what
  the store answers to a page request are parameters.
\<close>

section \<open>Decisions\<close>

datatype skip_reason = SkipDelivered | SkipSource | SkipRefundDone | SkipCancelDone | SkipAgeUnknown | SkipTooYoung

datatype decision = AttestCancel | AttestRefund | Skip skip_reason

definition decide :: "source_state option \<Rightarrow> dest_state \<Rightarrow> bool option \<Rightarrow> bool \<Rightarrow> bool \<Rightarrow> decision" where
  "decide src dst aged already_cancel already_refund =
     (if ds_executed dst \<and> \<not> ds_cancelled dst then Skip SkipDelivered
      else if (case src of Some s \<Rightarrow> src_refunded s \<or> \<not> src_sent s | None \<Rightarrow> False) then Skip SkipSource
      else if ds_cancelled dst then (if already_refund then Skip SkipRefundDone else AttestRefund)
      else if already_cancel then Skip SkipCancelDone
      else case aged of
        None \<Rightarrow> Skip SkipAgeUnknown
      | Some False \<Rightarrow> Skip SkipTooYoung
      | Some True \<Rightarrow> AttestCancel)"

definition solana_aged_out :: "i64 \<Rightarrow> i64 \<Rightarrow> i64 \<Rightarrow> bool" where
  "solana_aged_out locked_at now timeout \<longleftrightarrow> sint locked_at > 0 \<and> sint (isat_sub now locked_at) \<ge> sint timeout"

record solana_source =
  so_state :: source_state
  so_locked_at :: i64

definition solana_source_record :: "(bool \<times> bytes) option \<Rightarrow> solana_source" where
  "solana_source_record account =
     (let not_sent = \<lparr>so_state = \<lparr>src_sent = False, src_refunded = False\<rparr>, so_locked_at = 0\<rparr> in
      case account of
        None \<Rightarrow> not_sent
      | Some (owner_is_program, d) \<Rightarrow>
          if \<not> owner_is_program then not_sent
          else case host_decode_sent_record d of
            None \<Rightarrow> not_sent
          | Some r \<Rightarrow>
              if sr_amount r = 0 \<and> sr_debridge_id r = 0
              then \<lparr>so_state = \<lparr>src_sent = True, src_refunded = True\<rparr>, so_locked_at = 0\<rparr>
              else \<lparr>so_state = \<lparr>src_sent = True, src_refunded = False\<rparr>, so_locked_at = sr_locked_at r\<rparr>)"

section \<open>The candidate\<close>

text \<open>The id of a record whose own parameters hash to it.\<close>

definition bound_submission_id ::
  "(bytes \<Rightarrow> bytes32) \<Rightarrow> hex_decoder \<Rightarrow> submission_record \<Rightarrow> unencodable + bytes32" where
  "bound_submission_id K H rc =
     bind_res (ok_or (hex32 H (rc_submission_id rc)) (UField ''submission_id'')) (\<lambda>claimed.
     bind_res (ok_or (hex32 H (rc_bridge_domain rc)) (UField ''bridge_domain'')) (\<lambda>domain.
     bind_res (ok_or (hex32 H (rc_debridge_id rc)) (UField ''debridge_id'')) (\<lambda>did.
     bind_res (ok_or (parse_uint (rc_amount rc)) UAmount) (\<lambda>amount :: u128.
     bind_res (ok_or (rc_bridge_decimals rc) (UField ''bridge_decimals'')) (\<lambda>decimals.
     bind_res (ok_or (hex_bytes H (rc_receiver rc)) (UField ''receiver'')) (\<lambda>receiver.
     bind_res (ok_or (hex_bytes H (rc_native_sender rc)) (UField ''native_sender'')) (\<lambda>native_sender.
     bind_res (ok_or (hex_bytes H (rc_auto_params rc)) (UField ''auto_params'')) (\<lambda>blob.
     bind_res (map_err UAutoParams (decode_evm_auto_params blob)) (\<lambda>auto.
     let word = host_amount_word amount;
         computed = (case auto of
           None \<Rightarrow> host_submission_id K domain did decimals word (rc_chain_id_from rc) (rc_chain_id_to rc)
             (rc_nonce rc) receiver
         | Some w \<Rightarrow> host_submission_id_with_auto K domain did decimals word (rc_chain_id_from rc)
             (rc_chain_id_to rc) (rc_nonce rc) receiver (wire_to_auto w native_sender)) in
     if computed \<noteq> claimed then Inl UIdMismatch else Inr claimed)))))))))"

definition relayer_domain_id :: "(bytes \<Rightarrow> bytes32) \<Rightarrow> u64 \<Rightarrow> bytes32 \<Rightarrow> bytes32" where
  "relayer_domain_id K prefix sid = K (arr_bytes (host_be32 prefix) @ arr_bytes sid)"

definition attested_by ::
  "(bytes \<Rightarrow> bytes32) \<Rightarrow> recovery \<Rightarrow> hex_decoder \<Rightarrow> signer_sig list \<Rightarrow> bytes32 \<Rightarrow> address \<Rightarrow> bool" where
  "attested_by K R H sigs digest_input me =
     (let digest = host_eth_signed_digest K digest_input in
      list_ex (\<lambda>s. Option.bind (hex_bytes H (ss_signature s)) (recovered_address K R digest) = Some me) sigs)"

section \<open>Facts\<close>

record attester =
  at_source :: scan_config
  at_me :: address
  at_unhex :: hex_decoder
  at_recover :: recovery
  at_timeout :: "i64 option"
  at_evm :: "u64 \<Rightarrow> gate_reader option"
  at_cursor :: "rust_str option"

text \<open>The answers about one candidate; \<open>cr_evm i\<close> is the EVM node during read \<open>i\<close>.\<close>

record cand_replies =
  cr_account :: "pubkey \<Rightarrow> account option option"
  cr_clock :: "i64 option"
  cr_evm :: "nat \<Rightarrow> evm_node"

definition solana_destination_state :: "env \<Rightarrow> pubkey \<Rightarrow> cand_replies \<Rightarrow> bytes32 \<Rightarrow> dest_state option" where
  "solana_destination_state E pid cr x = do {
     acc \<leftarrow> cr_account cr (pda E pid [lit ''executed'', arr_bytes x]);
     Some (case acc of
        Some a \<Rightarrow>
          if acct_owner a = pid \<and> acct_data a \<noteq> []
          then \<lparr>ds_executed = True, ds_cancelled = acct_data a ! 0 = MARKER_CANCELLED\<rparr>
          else \<lparr>ds_executed = False, ds_cancelled = False\<rparr>
      | None \<Rightarrow> \<lparr>ds_executed = False, ds_cancelled = False\<rparr>) }"

definition solana_source_state :: "env \<Rightarrow> pubkey \<Rightarrow> cand_replies \<Rightarrow> bytes32 \<Rightarrow> solana_source option" where
  "solana_source_state E pid cr x =
     map_option (\<lambda>acc. solana_source_record (map_option (\<lambda>a. (acct_owner a = pid, acct_data a)) acc))
       (cr_account cr (pda E pid [lit ''sent'', arr_bytes x]))"

type_synonym facts = "source_state option \<times> dest_state \<times> bool option"

definition evm_to_solana_facts :: "env \<Rightarrow> attester \<Rightarrow> cand_replies \<Rightarrow> bytes32 \<Rightarrow> u64 \<Rightarrow> facts option option" where
  "evm_to_solana_facts E A cr x chain_id_from = do {
     dst \<leftarrow> solana_destination_state E (cx_program_id (at_source A)) cr x;
     (case (at_timeout A, at_evm A chain_id_from) of
        (Some timeout, Some reader) \<Rightarrow> do {
          s \<leftarrow> evm_source_state (keccak E) reader (cr_evm cr 0) x;
          aged \<leftarrow> (if ds_cancelled dst then Some None
            else map_option Some (evm_aged_out (keccak E) reader (cr_evm cr 1) x timeout));
          Some (Some (Some s, dst, aged)) }
      | _ \<Rightarrow> Some (Some (None, dst, None))) }"

definition solana_to_evm_facts :: "env \<Rightarrow> attester \<Rightarrow> cand_replies \<Rightarrow> bytes32 \<Rightarrow> u64 \<Rightarrow> facts option option" where
  "solana_to_evm_facts E A cr x chain_id_to =
     (case at_evm A chain_id_to of
        None \<Rightarrow> Some None
      | Some reader \<Rightarrow> do {
          dst \<leftarrow> evm_destination_state (keccak E) reader (cr_evm cr 0) x;
          src \<leftarrow> solana_source_state E (cx_program_id (at_source A)) cr x;
          aged \<leftarrow> (case at_timeout A of
             Some timeout \<Rightarrow>
               if \<not> ds_cancelled dst \<and> src_sent (so_state src) \<and> \<not> src_refunded (so_state src)
               then map_option (\<lambda>now. Some (solana_aged_out (so_locked_at src) now timeout)) (cr_clock cr)
               else Some None
           | None \<Rightarrow> Some None);
          Some (Some (Some (so_state src), dst, aged)) })"

section \<open>The tick\<close>

datatype att_kind = CancelKind | RefundKind

type_synonym attestation = "rust_str \<times> att_kind \<times> rust_str"

definition candidate_facts ::
  "env \<Rightarrow> attester \<Rightarrow> cand_replies \<Rightarrow> submission_record \<Rightarrow> bytes32 \<Rightarrow> facts option option" where
  "candidate_facts E A cr rc x =
     (if rc_chain_id_to rc = cx_chain_id (at_source A) then evm_to_solana_facts E A cr x (rc_chain_id_from rc)
      else if rc_chain_id_from rc = cx_chain_id (at_source A) then solana_to_evm_facts E A cr x (rc_chain_id_to rc)
      else Some None)"

definition candidate_decision ::
  "env \<Rightarrow> attester \<Rightarrow> submission_record \<Rightarrow> bytes32 \<Rightarrow> facts \<Rightarrow> decision" where
  "candidate_decision E A rc x f =
     (case f of (src, dst, aged) \<Rightarrow>
        decide src dst aged
          (attested_by (keccak E) (at_recover A) (at_unhex A) (rc_cancel_signatures rc)
             (relayer_domain_id (keccak E) CANCEL_PREFIX x) (at_me A))
          (attested_by (keccak E) (at_recover A) (at_unhex A) (rc_refund_signatures rc)
             (relayer_domain_id (keccak E) REFUND_PREFIX x) (at_me A)))"

text \<open>What is posted for one candidate, if anything.\<close>

definition attest_candidate :: "env \<Rightarrow> attester \<Rightarrow> cand_replies \<Rightarrow> submission_record \<Rightarrow> attestation option" where
  "attest_candidate E A cr rc =
     (case bound_submission_id (keccak E) (at_unhex A) rc of
        Inl _ \<Rightarrow> None
      | Inr x \<Rightarrow>
          (case candidate_facts E A cr rc x of
             None \<Rightarrow> None
           | Some None \<Rightarrow> None
           | Some (Some f) \<Rightarrow>
               (case candidate_decision E A rc x f of
                  Skip _ \<Rightarrow> None
                | AttestCancel \<Rightarrow> Some (rc_submission_id rc, CancelKind,
                    sign E (at_source A) (relayer_domain_id (keccak E) CANCEL_PREFIX x))
                | AttestRefund \<Rightarrow> Some (rc_submission_id rc, RefundKind,
                    sign E (at_source A) (relayer_domain_id (keccak E) REFUND_PREFIX x)))))"

definition REFUND_PAGE :: nat where "REFUND_PAGE = 500"
definition MAX_REFUND_PAGES :: nat where "MAX_REFUND_PAGES = 20"

text \<open>\<open>pages i limit after\<close> is the store's answer to page request \<open>i\<close>.\<close>

type_synonym queue_source = "nat \<Rightarrow> nat \<Rightarrow> rust_str option \<Rightarrow> submission_record list option"

fun walk_loop ::
  "queue_source \<Rightarrow> nat \<Rightarrow> nat \<Rightarrow> rust_str option \<Rightarrow> submission_record list \<Rightarrow>
   (bool \<times> rust_str option \<times> submission_record list) option" where
  "walk_loop pages 0 i after candidates = Some (False, after, candidates)"
| "walk_loop pages (Suc left) i after candidates =
     (case pages i REFUND_PAGE after of
        None \<Rightarrow> None
      | Some page \<Rightarrow>
          let short = length page < REFUND_PAGE;
              after = (if page = [] then after else Some (rc_submission_id (last page)));
              candidates = candidates @ page in
          if short then Some (True, after, candidates) else walk_loop pages left (Suc i) after candidates)"

definition walk_queue :: "queue_source \<Rightarrow> attester \<Rightarrow> (submission_record list \<times> attester) option" where
  "walk_queue pages A =
     map_option (\<lambda>(reached_end, after, candidates).
         (candidates, A\<lparr>at_cursor := (if reached_end then None else after)\<rparr>))
       (walk_loop pages MAX_REFUND_PAGES 0 (at_cursor A) [])"

text \<open>The attestations of a tick, with \<open>replies i\<close> for candidate \<open>i\<close>.\<close>

definition refund_tick ::
  "env \<Rightarrow> queue_source \<Rightarrow> (nat \<Rightarrow> cand_replies) \<Rightarrow> attester \<Rightarrow> attestation list option \<times> attester" where
  "refund_tick E pages replies A =
     (case walk_queue pages A of
        None \<Rightarrow> (None, A)
      | Some (candidates, A) \<Rightarrow>
          (Some (List.map_filter (\<lambda>(i, rc). attest_candidate E A (replies i) rc) (enumerate 0 candidates)), A))"

section \<open>What an attestation rests on\<close>

lemma decision_cases:
  "candidate_decision E A rc x (src, dst, aged) = AttestRefund \<Longrightarrow> ds_cancelled dst"
  "candidate_decision E A rc x (src, dst, aged) = AttestCancel \<Longrightarrow>
    \<not> ds_executed dst \<and> \<not> ds_cancelled dst \<and> aged = Some True \<and>
    (src = None \<or> (\<exists>s. src = Some s \<and> src_sent s \<and> \<not> src_refunded s))"
  by (auto simp: candidate_decision_def decide_def split: if_splits option.splits bool.splits)

lemma attest_candidate_Some:
  assumes "attest_candidate E A cr rc = Some (i, k, sg)" "bound_submission_id (keccak E) (at_unhex A) rc = Inr x"
  obtains src dst aged where "candidate_facts E A cr rc x = Some (Some (src, dst, aged))"
    "candidate_decision E A rc x (src, dst, aged) = (case k of CancelKind \<Rightarrow> AttestCancel | RefundKind \<Rightarrow> AttestRefund)"
  using assms by (fastforce simp: attest_candidate_def split: sum.splits option.splits decision.splits)

lemma refund_tick_posts:
  assumes "refund_tick E pages replies A = (Some posts, A')" "p \<in> set posts"
  shows "\<exists>i rc. attest_candidate E A' (replies i) rc = Some p"
  using assms by (auto simp: refund_tick_def List.map_filter_def split: option.splits) blast

section \<open>Markers of the gate\<close>

inductive_cases may_write_executedE: "may_write E accs ix c [lit ''executed'', arr_bytes (x :: bytes32)] d"

text \<open>A settlement marker never changes again.\<close>

lemma marker_kept:
  assumes "gate_run E pid w es w'" "runtime_ok E pid" "apart E pid [lit ''executed'', arr_bytes (x :: bytes32)]"
    and "store pid w (pda E pid [lit ''executed'', arr_bytes x]) = Some d"
  shows "store pid w' (pda E pid [lit ''executed'', arr_bytes x]) = Some d"
  using assms(1,4)
proof induction
  case (run_ix es w1 now accs ix w2)
  let ?k = "pda E pid [lit ''executed'', arr_bytes x]"
  have r: "runtime_ok (at_time E now) pid" "apart (at_time E now) pid [lit ''executed'', arr_bytes x]"
    using assms(2,3) by simp_all
  have old: "store pid w1 ?k = Some d" using run_ix by simp
  show ?case
  proof (rule ccontr)
    assume n: "store pid w2 ?k \<noteq> Some d"
    then obtain d' where "may_write (at_time E now) accs ix (gate_config E pid w1) [lit ''executed'', arr_bytes x] d'"
      using gate_step_at [OF run_ix(2) r] old by auto
    then obtain cfg where "gate_config E pid w1 = Some cfg" "settled_id E cfg ix = Some x"
      by (auto simp: settled_id_def elim!: may_write_executedE)
    then have "store pid w1 ?k = None" using settle_marks(1) [OF run_ix(2) r(1)] by simp
    then show False using old by simp
  qed
next
  case (run_foreign es w1 w2)
  have "gate_seeds [lit ''executed'', arr_bytes x]" by (simp add: gate_seedsI)
  then show ?case using run_foreign by (simp add: foreign_step_def)
qed

end
