(* ===== verification/RelayerRefundProps.thy ===== *)
theory RelayerRefundProps
  imports RelayerRefund
begin

text \<open>
  What an attestation of the refund attester stands for: a REFUND for a burn that is
  final, a CANCEL for a transfer that was sent long enough ago and not delivered. And no
  candidate waits for ever: the walk over the queue reaches every row.
\<close>

definition replies_true :: "cand_replies \<Rightarrow> world \<Rightarrow> bool" where
  "replies_true cr w \<longleftrightarrow> (\<forall>k a. cr_account cr k = Some (Some a) \<longrightarrow> a = accts w k)"

section \<open>A refund follows a burn\<close>

text \<open>A claim of \<open>x\<close> that succeeds.\<close>

definition claims :: "env \<Rightarrow> pubkey \<Rightarrow> bytes32 \<Rightarrow> world \<Rightarrow> world \<Rightarrow> bool" where
  "claims E pid x w w' \<longleftrightarrow>
     (\<exists>t accs args cfg. gate_step (at_time E t) pid accs (Claim args) w = Inr w' \<and>
        gate_config E pid w = Some cfg \<and> claim_sid E cfg args = x)"

lemma claims_store:
  assumes "claims E pid x w w'" "runtime_ok E pid"
  shows "store pid w (pda E pid [lit ''executed'', arr_bytes x]) = None"
    "store pid w' (pda E pid [lit ''executed'', arr_bytes x]) = Some [MARKER_CLAIMED]"
proof -
  obtain t accs args cfg where c: "gate_step (at_time E t) pid accs (Claim args) w = Inr w'"
    "gate_config E pid w = Some cfg" "claim_sid E cfg args = x" using assms(1) by (auto simp: claims_def)
  have r: "runtime_ok (at_time E t) pid" using assms(2) by simp
  have st: "process_claim (at_time E t) pid accs args w = Inr w'" using c(1) by simp
  then obtain a1 a2 a3 a4 a5 a6 a7 a8 a9 rest
    where accs: "accs = a1 # a2 # a3 # a4 # a5 # a6 # a7 # a8 # a9 # rest" by (rule claim_accs)
  from st [unfolded accs] r obtain cfg' where l: "load_config (at_time E t) pid a1 w = Inr cfg'"
    and s: "store pid w (pda E pid [lit ''executed'', arr_bytes (claim_sid E cfg' args)]) = None"
      "store pid w' = (store pid w) (pda E pid [lit ''executed'', arr_bytes (claim_sid E cfg' args)] \<mapsto> [MARKER_CLAIMED])"
    by (rule store_claim) simp
  have "cfg' = cfg" using gate_config_load [OF l] c(2) by simp
  then show "store pid w (pda E pid [lit ''executed'', arr_bytes x]) = None"
    "store pid w' (pda E pid [lit ''executed'', arr_bytes x]) = Some [MARKER_CLAIMED]" using s c(3) by simp_all
qed

text \<open>Facts for a transfer to Solana.\<close>

lemma to_solana_facts:
  assumes "candidate_facts E A cr rc x = Some (Some (src, dst, aged))"
    and "rc_chain_id_to rc = cx_chain_id (at_source A)"
  shows "solana_destination_state E (cx_program_id (at_source A)) cr x = Some dst"
    and "aged = Some b \<Longrightarrow> \<exists>timeout reader. at_timeout A = Some timeout \<and>
      at_evm A (rc_chain_id_from rc) = Some reader \<and>
      evm_aged_out (keccak E) reader (cr_evm cr 1) x timeout = Some b"
  using assms
  by (auto simp: candidate_facts_def evm_to_solana_facts_def split: Option.bind_splits option.splits if_splits)

lemma cancelled_marker:
  assumes "solana_destination_state E pid cr x = Some dst" "ds_cancelled dst" "replies_true cr w"
  obtains d where "store pid w (pda E pid [lit ''executed'', arr_bytes x]) = Some (MARKER_CANCELLED # d)"
proof -
  obtain acc where a: "cr_account cr (pda E pid [lit ''executed'', arr_bytes x]) = Some (Some acc)"
    "acct_owner acc = pid" "acct_data acc \<noteq> []" "acct_data acc ! 0 = MARKER_CANCELLED"
    using assms(1,2) by (auto simp: solana_destination_state_def split: Option.bind_splits option.splits if_splits)
  have "acc = accts w (pda E pid [lit ''executed'', arr_bytes x])" using a(1) assms(3) by (simp add: replies_true_def)
  moreover obtain d where "acct_data acc = MARKER_CANCELLED # d" using a(3,4) by (cases "acct_data acc") auto
  ultimately show ?thesis using that a(2) by (simp add: store_def)
qed

text \<open>
  C27. A REFUND is attested only for a transfer that can never be delivered. When the
  attester votes to repay a transfer whose destination is Solana, no claim of it has
  succeeded in the history that led to the world it read, and none will in any
  continuation: the burn marker it saw stays. The node may withhold answers but not lie
  about accounts.
\<close>

theorem refund_attestation_final:
  assumes "runtime_ok E pid" "cx_program_id (at_source A) = pid" "replies_true cr w"
    and "attest_candidate E A cr rc = Some (i, RefundKind, sg)"
    and "rc_chain_id_to rc = cx_chain_id (at_source A)"
    and "bound_submission_id (keccak E) (at_unhex A) rc = Inr x"
    and "apart E pid [lit ''executed'', arr_bytes x]"
  shows "(\<nexists>w1 w2 es. claims E pid x w1 w2 \<and> gate_run E pid w2 es w) \<and>
    (\<nexists>w1 w2 es. gate_run E pid w es w1 \<and> claims E pid x w1 w2)"
proof -
  let ?k = "pda E pid [lit ''executed'', arr_bytes x]"
  obtain src dst aged where f: "candidate_facts E A cr rc x = Some (Some (src, dst, aged))"
    and d: "candidate_decision E A rc x (src, dst, aged) = AttestRefund"
    by (rule attest_candidate_Some [OF assms(4,6)]) simp
  have "ds_cancelled dst" by (rule decision_cases(1) [OF d])
  then obtain d where m: "store pid w ?k = Some (MARKER_CANCELLED # d)"
    using cancelled_marker [OF to_solana_facts(1) [OF f assms(5)] _ assms(3)] assms(2) by metis
  show ?thesis
  proof (intro conjI notI; elim exE conjE)
    fix w1 w2 es
    assume c: "claims E pid x w1 w2" "gate_run E pid w2 es w"
    have "store pid w ?k = Some [MARKER_CLAIMED]"
      by (rule marker_kept [OF c(2) assms(1,7) claims_store(2) [OF c(1) assms(1)]])
    then show False using m by (simp add: MARKER_CLAIMED_def MARKER_CANCELLED_def)
  next
    fix w1 w2 es
    assume c: "gate_run E pid w es w1" "claims E pid x w1 w2"
    have "store pid w1 ?k = Some (MARKER_CANCELLED # d)" by (rule marker_kept [OF c(1) assms(1,7) m])
    then show False using claims_store(1) [OF c(2) assms(1)] by simp
  qed
qed

section \<open>A cancel follows the timeout\<close>

text \<open>Facts for a transfer from Solana.\<close>

lemma from_solana_facts:
  assumes "candidate_facts E A cr rc x = Some (Some (src, dst, Some b))"
    and "rc_chain_id_from rc = cx_chain_id (at_source A)" "rc_chain_id_to rc \<noteq> cx_chain_id (at_source A)"
  obtains so reader timeout now where
    "solana_source_state E (cx_program_id (at_source A)) cr x = Some so" "src = Some (so_state so)"
    "at_evm A (rc_chain_id_to rc) = Some reader"
    "evm_destination_state (keccak E) reader (cr_evm cr 0) x = Some dst"
    "at_timeout A = Some timeout" "cr_clock cr = Some now"
    "b = solana_aged_out (so_locked_at so) now timeout"
  using assms
  by (auto simp: candidate_facts_def solana_to_evm_facts_def split: Option.bind_splits option.splits if_splits)

lemma live_record:
  assumes "solana_source_state E pid cr x = Some so" "src_sent (so_state so)" "\<not> src_refunded (so_state so)"
    and "replies_true cr w"
  obtains d r where "store pid w (pda E pid [lit ''sent'', arr_bytes x]) = Some d"
    "host_decode_sent_record d = Some r" "\<not> (sr_amount r = 0 \<and> sr_debridge_id r = 0)" "so_locked_at so = sr_locked_at r"
proof -
  obtain acc where a: "cr_account cr (pda E pid [lit ''sent'', arr_bytes x]) = Some acc"
    "so = solana_source_record (map_option (\<lambda>a. (acct_owner a = pid, acct_data a)) acc)"
    using assms(1) by (auto simp: solana_source_state_def)
  obtain a' r where a': "acc = Some a'" "acct_owner a' = pid" and r: "host_decode_sent_record (acct_data a') = Some r"
    "\<not> (sr_amount r = 0 \<and> sr_debridge_id r = 0)" "so_locked_at so = sr_locked_at r"
    using a(2) assms(2,3) by (auto simp: solana_source_record_def Let_def split: option.splits if_splits)
  have "a' = accts w (pda E pid [lit ''sent'', arr_bytes x])" using a(1) a'(1) assms(4) by (simp add: replies_true_def)
  then show ?thesis using that a'(2) r by (simp add: store_def)
qed

lemma zero_record:
  assumes "host_decode_sent_record (replicate SENT_RECORD_LEN 0) = Some r"
  shows "sr_amount r = 0 \<and> sr_debridge_id r = 0"
  using assms of_le_zeros [of 8] of_le_zeros [of 32]
  by (auto simp: host_decode_sent_record_def SENT_RECORD_LEN_def HOST_SENT_RECORD_LEN_def try_from_slice_def
      de_sent_record_def de_arr_def de_word_def of_be_def Let_def split: Option.bind_splits list.splits)

lemma solana_aged_out_age:
  assumes "solana_aged_out locked now timeout" "0 \<le> sint timeout"
  shows "sint locked + sint timeout \<le> sint now"
  using assms sint_i64_bounds [of now] sint_i64_bounds [of timeout]
  by (auto simp: solana_aged_out_def sint_isat_sub i64_min_def i64_max_def)

text \<open>
  C28. A CANCEL is attested only for a transfer that was sent and has waited. When the
  attester votes to burn a transfer from Solana, the history of the gate has a
  successful send of exactly this id, at a time at least the timeout before the cluster
  clock it read, and the destination gate reported it neither delivered nor burned.
\<close>

theorem cancel_attestation_aged:
  assumes "runtime_ok E pid" "cx_program_id (at_source A) = pid" "gate_run E pid w0 es w" "replies_true cr w"
    and "attest_candidate E A cr rc = Some (i, CancelKind, sg)"
    and "rc_chain_id_from rc = cx_chain_id (at_source A)" "rc_chain_id_to rc \<noteq> cx_chain_id (at_source A)"
    and "bound_submission_id (keccak E) (at_unhex A) rc = Inr x"
    and "apart E pid [lit ''sent'', arr_bytes x]" "store pid w0 (pda E pid [lit ''sent'', arr_bytes x]) = None"
    and "at_timeout A = Some timeout" "0 \<le> sint timeout"
  shows "\<exists>t args sender cfg asset wire now reader.
    sent_in E pid w0 es w t args sender cfg asset wire \<and>
    x = ev_submission_id (send_event E cfg asset args sender wire) \<and>
    cr_clock cr = Some now \<and> sint t + sint timeout \<le> sint now \<and>
    at_evm A (rc_chain_id_to rc) = Some reader \<and>
    evm_destination_state (keccak E) reader (cr_evm cr 0) x = Some \<lparr>ds_executed = False, ds_cancelled = False\<rparr>"
proof -
  obtain src dst aged where f: "candidate_facts E A cr rc x = Some (Some (src, dst, aged))"
    and d: "candidate_decision E A rc x (src, dst, aged) = AttestCancel"
    by (rule attest_candidate_Some [OF assms(5,8)]) simp
  have c: "\<not> ds_executed dst" "\<not> ds_cancelled dst" "aged = Some True"
    "src = None \<or> (\<exists>s. src = Some s \<and> src_sent s \<and> \<not> src_refunded s)"
    using decision_cases(2) [OF d] by simp_all
  obtain so reader now where s: "solana_source_state E pid cr x = Some so" "src = Some (so_state so)"
    and e: "at_evm A (rc_chain_id_to rc) = Some reader"
      "evm_destination_state (keccak E) reader (cr_evm cr 0) x = Some dst"
    and n: "cr_clock cr = Some now" "solana_aged_out (so_locked_at so) now timeout"
    by (rule from_solana_facts [OF f [unfolded c(3)] assms(6,7)]) (use assms(2,11) in simp)
  obtain dd r where r: "store pid w (pda E pid [lit ''sent'', arr_bytes x]) = Some dd"
    "host_decode_sent_record dd = Some r" "\<not> (sr_amount r = 0 \<and> sr_debridge_id r = 0)" "so_locked_at so = sr_locked_at r"
    using live_record [OF s(1) _ _ assms(4)] c(4) s(2) by auto
  from record_was_sent [OF assms(3,1,9,10) r(1)] obtain t args sender cfg asset wire source ev where
    p: "sent_in E pid w0 es w t args sender cfg asset wire" "ev = send_event E cfg asset args sender wire"
      "x = ev_submission_id ev" "length dd = SENT_RECORD_LEN"
      "decode_sent_record dd = Inr (event_record ev args sender source t) \<or> dd = replicate SENT_RECORD_LEN 0"
    unfolding record_of_def by blast
  have "dd \<noteq> replicate SENT_RECORD_LEN 0" using zero_record r(2,3) by blast
  then have "r = event_record ev args sender source t" using p(5) host_decode_agrees [OF p(4)] r(2) by simp
  then have "so_locked_at so = t" using r(4) by (simp add: event_record_def)
  then have "sint t + sint timeout \<le> sint now" using solana_aged_out_age n(2) assms(12) by simp
  moreover have "dst = \<lparr>ds_executed = False, ds_cancelled = False\<rparr>" using c(1,2) by (cases dst) simp
  ultimately show ?thesis using p e n(1) by blast
qed

text \<open>
  A CANCEL of a transfer to Solana rests on the source chain's own clock: a block
  of the source gate that already had the transfer locked, and is older than the block
  it trusts by at least the timeout; and the marker of the transfer is not on Solana in
  the world the attester read.
\<close>

theorem cancel_attestation_aged_evm:
  assumes "cx_program_id (at_source A) = pid" "attest_candidate E A cr rc = Some (i, CancelKind, sg)"
    and "rc_chain_id_to rc = cx_chain_id (at_source A)"
    and "bound_submission_id (keccak E) (at_unhex A) rc = Inr x"
    and "at_timeout A = Some timeout" "0 \<le> sint timeout"
    and "clock_sane (cr_evm cr 1)"
    and "\<And>k. cr_account cr k = Some (Some (accts w k))"
  shows "\<exists>reader head_num block ts0 ts. at_evm A (rc_chain_id_from rc) = Some reader \<and>
    confirmed_block reader (cr_evm cr 1) = Some head_num \<and> block \<le> head_num \<and>
    block_timestamp (cr_evm cr 1) head_num = Some ts0 \<and> block_timestamp (cr_evm cr 1) block = Some ts \<and>
    sint ts + sint timeout \<le> sint ts0 \<and> was_sent_by_block (keccak E) (cr_evm cr 1) x block = Some True \<and>
    store pid w (pda E pid [lit ''executed'', arr_bytes x]) \<in> {None, Some []}"
proof -
  obtain src dst aged where f: "candidate_facts E A cr rc x = Some (Some (src, dst, aged))"
    and d: "candidate_decision E A rc x (src, dst, aged) = AttestCancel"
    by (rule attest_candidate_Some [OF assms(2,4)]) simp
  have c: "\<not> ds_executed dst" "aged = Some True" using decision_cases(2) [OF d] by simp_all
  obtain reader where r: "at_evm A (rc_chain_id_from rc) = Some reader"
    "evm_aged_out (keccak E) reader (cr_evm cr 1) x timeout = Some True"
    using to_solana_facts(2) [OF f assms(3) c(2)] assms(5) by auto
  obtain head_num block ts0 ts where "confirmed_block reader (cr_evm cr 1) = Some head_num" "block \<le> head_num"
    "block_timestamp (cr_evm cr 1) head_num = Some ts0" "block_timestamp (cr_evm cr 1) block = Some ts"
    "sint ts + sint timeout \<le> sint ts0" "was_sent_by_block (keccak E) (cr_evm cr 1) x block = Some True"
    by (rule evm_aged_out_True [OF r(2) assms(6,7)])
  moreover have "store pid w (pda E pid [lit ''executed'', arr_bytes x]) \<in> {None, Some []}"
    using to_solana_facts(1) [OF f assms(3)] c(1) assms(1,8)
    by (auto simp: solana_destination_state_def store_def split: if_splits)
  ultimately show ?thesis using r(1) by blast
qed

section \<open>No candidate waits for ever\<close>

text \<open>A store that serves the queue \<open>q\<close> in order, from the row after the cursor.\<close>

definition after_in :: "rust_str option \<Rightarrow> submission_record list \<Rightarrow> submission_record list" where
  "after_in after q =
     (case after of None \<Rightarrow> q | Some x \<Rightarrow> tl (dropWhile (\<lambda>r. rc_submission_id r \<noteq> x) q))"

definition serves_queue :: "submission_record list \<Rightarrow> queue_source \<Rightarrow> bool" where
  "serves_queue q pages \<longleftrightarrow> (\<forall>i limit after. pages i limit after = Some (take limit (after_in after q)))"

lemma after_in_row:
  assumes "distinct (map rc_submission_id q)" "n < length q"
  shows "after_in (Some (rc_submission_id (q ! n))) q = drop (Suc n) q"
proof -
  let ?P = "\<lambda>r. rc_submission_id r \<noteq> rc_submission_id (q ! n)"
  have "?P y" if y: "y \<in> set (take n q)" for y
  proof -
    obtain k where "k < length (take n q)" "y = take n q ! k" using y unfolding in_set_conv_nth by blast
    then show ?thesis using assms(2) nth_eq_iff_index_eq [OF assms(1), of k n] by auto
  qed
  then have "dropWhile ?P (take n q @ q ! n # drop (Suc n) q) = q ! n # drop (Suc n) q"
    by (subst dropWhile_append2) simp_all
  then show ?thesis using assms(2) by (simp add: after_in_def id_take_nth_drop [symmetric])
qed

text \<open>Where a walk of so many pages from position \<open>p\<close> ends.\<close>

lemma walk_loop_serves:
  assumes "serves_queue q pages" "distinct (map rc_submission_id q)"
  shows "after_in after q = drop p q \<Longrightarrow> p \<le> length q \<Longrightarrow>
    \<exists>after'. walk_loop pages left i after acc =
      Some (length q < p + left * REFUND_PAGE, after', acc @ take (left * REFUND_PAGE) (drop p q)) \<and>
      (p + left * REFUND_PAGE \<le> length q \<longrightarrow> after_in after' q = drop (p + left * REFUND_PAGE) q)"
proof (induction left arbitrary: i after acc p)
  case 0
  then show ?case by auto
next
  case (Suc left)
  let ?page = "take REFUND_PAGE (drop p q)"
  let ?after = "if ?page = [] then after else Some (rc_submission_id (last ?page))"
  have page: "pages i REFUND_PAGE after = Some ?page" using assms(1) Suc.prems by (simp add: serves_queue_def)
  show ?case
  proof (cases "length q < p + REFUND_PAGE")
    case True
    then have "length ?page < REFUND_PAGE" by (simp add: less_diff_conv2 Suc.prems(2))
    moreover have "take (Suc left * REFUND_PAGE) (drop p q) = ?page" using True by simp
    ultimately show ?thesis using page True by (auto simp: Let_def)
  next
    case False
    then have l: "length ?page = REFUND_PAGE" by simp
    have pos: "0 < REFUND_PAGE" by (simp add: REFUND_PAGE_def)
    then have "?page \<noteq> []" using l by auto
    moreover have "last ?page = q ! (p + REFUND_PAGE - 1)"
      using l pos False by (simp add: last_conv_nth \<open>?page \<noteq> []\<close>)
    ultimately have a: "after_in ?after q = drop (p + REFUND_PAGE) q"
      using after_in_row [OF assms(2), of "p + REFUND_PAGE - 1"] pos False by simp
    have "p + REFUND_PAGE \<le> length q" using False by simp
    from Suc.IH [OF a this, of "Suc i" "acc @ ?page"]
    show ?thesis using page l by (simp add: Let_def ac_simps take_add)
  qed
qed

primrec attester_after ::
  "env \<Rightarrow> (nat \<Rightarrow> queue_source) \<Rightarrow> (nat \<Rightarrow> nat \<Rightarrow> cand_replies) \<Rightarrow> nat \<Rightarrow> attester \<Rightarrow> attester" where
  "attester_after E pages replies 0 A = A"
| "attester_after E pages replies (Suc n) A =
     snd (refund_tick E (pages n) (replies n) (attester_after E pages replies n A))"

definition TICK_ROWS :: nat where "TICK_ROWS = MAX_REFUND_PAGES * REFUND_PAGE"

lemma attest_any_cursor [simp]: "attest_candidate E (A\<lparr>at_cursor := c\<rparr>) = attest_candidate E A"
  by (simp add: attest_candidate_def candidate_facts_def candidate_decision_def evm_to_solana_facts_def
      solana_to_evm_facts_def fun_eq_iff cong del: option.case_cong_weak sum.case_cong_weak if_weak_cong
      decision.case_cong_weak prod.case_cong_weak)

lemma walk_queue_serves:
  assumes "serves_queue q pages" "distinct (map rc_submission_id q)"
    and "after_in (at_cursor A) q = drop p q" "p \<le> length q"
  shows "\<exists>c. walk_queue pages A = Some (take TICK_ROWS (drop p q), A\<lparr>at_cursor := c\<rparr>) \<and>
    (p + TICK_ROWS \<le> length q \<longrightarrow> after_in c q = drop (p + TICK_ROWS) q)"
proof -
  obtain after' where w: "walk_loop pages MAX_REFUND_PAGES 0 (at_cursor A) [] =
      Some (length q < p + TICK_ROWS, after', take TICK_ROWS (drop p q))"
    "p + TICK_ROWS \<le> length q \<longrightarrow> after_in after' q = drop (p + TICK_ROWS) q"
    using walk_loop_serves [OF assms, of MAX_REFUND_PAGES 0 "[]"] by (auto simp: TICK_ROWS_def)
  then show ?thesis by (auto simp: walk_queue_def)
qed

lemma attester_after_serves:
  assumes "\<And>n. serves_queue q (pages n)" "distinct (map rc_submission_id q)" "at_cursor A = None"
  shows "n * TICK_ROWS \<le> length q \<Longrightarrow>
    \<exists>c. attester_after E pages replies n A = A\<lparr>at_cursor := c\<rparr> \<and> after_in c q = drop (n * TICK_ROWS) q"
proof (induction n)
  case 0
  then show ?case using assms(3) by (intro exI [of _ None]) (simp add: after_in_def)
next
  case (Suc n)
  then obtain c where c: "attester_after E pages replies n A = A\<lparr>at_cursor := c\<rparr>"
    "after_in c q = drop (n * TICK_ROWS) q" by auto
  obtain c' where "walk_queue (pages n) (A\<lparr>at_cursor := c\<rparr>) =
      Some (take TICK_ROWS (drop (n * TICK_ROWS) q), A\<lparr>at_cursor := c'\<rparr>)"
    "after_in c' q = drop (Suc n * TICK_ROWS) q"
    using walk_queue_serves [OF assms(1) assms(2), of "A\<lparr>at_cursor := c\<rparr>" "n * TICK_ROWS" n] c(2) Suc.prems
    by (auto simp: ac_simps)
  then show ?case using c(1) by (auto simp: refund_tick_def)
qed

text \<open>
  C29. No candidate waits for ever. However long the queue, when the attester starts at
  its head the row number \<open>j\<close> is taken up in tick \<open>j div 10000\<close>, and whatever the
  attester decides for it then is posted: rows before it that never leave do not hide it.
\<close>

theorem queue_row_attested:
  assumes "\<And>n. serves_queue q (pages n)" "distinct (map rc_submission_id q)" "at_cursor A = None" "j < length q"
  shows "\<exists>posts A'.
    refund_tick E (pages (j div TICK_ROWS)) (replies (j div TICK_ROWS))
      (attester_after E pages replies (j div TICK_ROWS) A) = (Some posts, A') \<and>
    set_option (attest_candidate E A (replies (j div TICK_ROWS) (j mod TICK_ROWS)) (q ! j)) \<subseteq> set posts"
proof -
  define n i where "n = j div TICK_ROWS" and "i = j mod TICK_ROWS"
  have pos: "0 < TICK_ROWS" by (simp add: TICK_ROWS_def MAX_REFUND_PAGES_def REFUND_PAGE_def)
  have j: "j = n * TICK_ROWS + i" by (simp add: n_def i_def div_mult_mod_eq)
  have lt: "i < TICK_ROWS" using pos by (simp add: i_def)
  have le: "n * TICK_ROWS \<le> length q" using j assms(4) by linarith
  from attester_after_serves [where pages = pages and E = E and replies = replies, OF assms(1,2,3) this] obtain c where
    c: "attester_after E pages replies n A = A\<lparr>at_cursor := c\<rparr>" "after_in c q = drop (n * TICK_ROWS) q" by blast
  let ?rows = "take TICK_ROWS (drop (n * TICK_ROWS) q)"
  obtain c' where w: "walk_queue (pages n) (A\<lparr>at_cursor := c\<rparr>) = Some (?rows, A\<lparr>at_cursor := c'\<rparr>)"
    using walk_queue_serves [OF assms(1) assms(2), of "A\<lparr>at_cursor := c\<rparr>" "n * TICK_ROWS" n] c(2) le by auto
  have i: "i < length ?rows" "?rows ! i = q ! j" using le assms(4) j lt by simp_all
  let ?posts = "List.map_filter (\<lambda>(i, rc). attest_candidate E A (replies n i) rc) (enumerate 0 ?rows)"
  have "(i, ?rows ! i) \<in> set (enumerate 0 ?rows)" using i(1) by (simp add: in_set_enumerate_eq)
  then have "set_option (attest_candidate E A (replies n i) (q ! j)) \<subseteq> set ?posts"
    unfolding i(2) by (force simp: List.map_filter_def)
  then show ?thesis using c(1) w unfolding n_def [symmetric] i_def [symmetric] by (auto simp: refund_tick_def)
qed

end
