(* ===== verification/RelayerRefundDemo.thy ===== *)
theory RelayerRefundDemo
  imports RelayerRefundProps
begin

text \<open>Concrete histories, nodes and queues for the properties of the refund attester.\<close>

section \<open>A burned transfer\<close>

definition demo_attester :: attester where
  "demo_attester = \<lparr>at_source = demo_scan_config, at_me = 0, at_unhex = demo_hex, at_recover = demo_recovery,
     at_timeout = Some 60,
     at_evm = (\<lambda>c. if c = 9 then Some \<lparr>gr_chain_id = 9, gr_block_confirmation = 2\<rparr> else None), at_cursor = None\<rparr>"

definition demo_bystander :: attester where
  "demo_bystander = demo_attester\<lparr>at_timeout := None\<rparr>"

definition demo_burned_world :: world where
  "demo_burned_world = (demo_world demo_config)\<lparr>accts := (demo_accts demo_config)
     (90 := \<lparr>lamports = 0, acct_owner = 100, acct_data = [2]\<rparr>)\<rparr>"

definition demo_replies :: "world \<Rightarrow> (nat \<Rightarrow> evm_node) \<Rightarrow> cand_replies" where
  "demo_replies w nd = \<lparr>cr_account = (\<lambda>k. Some (Some (accts w k))), cr_clock = Some 200, cr_evm = nd\<rparr>"

lemma demo_replies_true: "replies_true (demo_replies w nd) w"
  by (simp add: replies_true_def demo_replies_def)

lemma demo_attester_fields:
  "at_unhex demo_attester = demo_hex" "at_source demo_attester = demo_scan_config" "at_timeout demo_attester = Some 60"
  "at_unhex demo_bystander = demo_hex" "at_source demo_bystander = demo_scan_config" "at_timeout demo_bystander = None"
  "cx_chain_id demo_scan_config = 7" "cx_program_id demo_scan_config = 100" "at_cursor demo_bystander = None"
  by (simp_all add: demo_attester_def demo_bystander_def demo_scan_config_def)

lemma demo_hex_empty: "hex_bytes demo_hex [] = Some []"
  by (simp add: hex_bytes_def strip_prefix_def starts_with_def rstr_def)

text \<open>A keccak whose last bytes are those it hashes, on a preimage of an id.\<close>

lemma demo_bound:
  assumes "\<And>r. host_submission_id K 1 5 3 (host_amount_word 10) 9 7 5 r = 5"
  shows "bound_submission_id K demo_hex demo_stored_record = Inr 5"
proof -
  have h: "hex_bytes demo_hex (replicate 31 0 @ [52]) = Some (replicate 31 0 @ [52])" by code_simp
  have p: "parse_uint [49, 48] = Some (10 :: u128)"
    by (simp add: parse_uint_def is_ascii_digit_def checked_mul_def checked_add_def)
  show ?thesis
    by (simp add: bound_submission_id_def demo_stored_record_def demo_hex32 [unfolded One_nat_def] p h demo_hex_empty
        Let_def decode_evm_auto_params_def map_err_def assms)
qed

lemma demo_bound_demo: "bound_submission_id demo_keccak demo_hex demo_stored_record = Inr 5"
  by (rule demo_bound) (use host_id_agrees [of demo_env 1 5 3 10 9 7 5 _ None "[]"] in simp)

lemma demo_marker_pda: "pda demo_env 100 [lit ''executed'', arr_bytes (5 :: bytes32)] = 90"
  using demo_pda [of 5 "lit ''executed''"] by (simp add: demo_tag_def)

lemma demo_record_chains: "rc_chain_id_to demo_stored_record = 7" "rc_chain_id_from demo_stored_record = 9"
  "rc_cancel_signatures demo_stored_record = []" "rc_refund_signatures demo_stored_record = []"
  by (simp_all add: demo_stored_record_def)

lemma demo_burned_attested:
  "\<exists>sg. attest_candidate demo_env demo_bystander (demo_replies demo_burned_world nd) demo_stored_record =
    Some (rc_submission_id demo_stored_record, RefundKind, sg)"
proof -
  have "solana_destination_state demo_env 100 (demo_replies demo_burned_world nd) 5 =
      Some \<lparr>ds_executed = True, ds_cancelled = True\<rparr>"
    by (simp only: solana_destination_state_def demo_marker_pda)
      (simp add: demo_replies_def demo_burned_world_def MARKER_CANCELLED_def)
  then show ?thesis
    by (simp add: attest_candidate_def demo_attester_fields demo_bound_demo candidate_facts_def demo_record_chains
        evm_to_solana_facts_def candidate_decision_def decide_def attested_by_def)
qed

theorem refund_attestation_final_witness:
  "\<exists>sg. attest_candidate demo_env demo_bystander (demo_replies demo_burned_world (\<lambda>_. undefined)) demo_stored_record =
      Some (rc_submission_id demo_stored_record, RefundKind, sg) \<and>
    (\<nexists>w1 w2 es. gate_run demo_env 100 demo_burned_world es w1 \<and> claims demo_env 100 5 w1 w2)"
proof -
  obtain sg where a: "attest_candidate demo_env demo_bystander (demo_replies demo_burned_world (\<lambda>_. undefined))
      demo_stored_record = Some (rc_submission_id demo_stored_record, RefundKind, sg)" using demo_burned_attested by blast
  have ok: "runtime_ok demo_env 100" by (rule demo_runtime_ok) simp_all
  have ap: "apart demo_env 100 [lit ''executed'', arr_bytes (5 :: bytes32)]" by (rule demo_apart) simp_all
  have "bound_submission_id (keccak demo_env) (at_unhex demo_bystander) demo_stored_record = Inr 5"
    by (simp add: demo_attester_fields demo_bound_demo)
  from refund_attestation_final [OF ok _ demo_replies_true a _ this ap] a show ?thesis
    by (auto simp: demo_attester_fields demo_record_chains)
qed

theorem queue_row_attested_witness:
  "\<exists>posts A' sg. refund_tick demo_env (\<lambda>i limit after. Some (take limit (after_in after [demo_stored_record])))
      (\<lambda>i. demo_replies demo_burned_world (\<lambda>_. undefined)) demo_bystander = (Some posts, A') \<and>
    (rc_submission_id demo_stored_record, RefundKind, sg) \<in> set posts"
proof -
  obtain sg where a: "attest_candidate demo_env demo_bystander (demo_replies demo_burned_world (\<lambda>_. undefined))
      demo_stored_record = Some (rc_submission_id demo_stored_record, RefundKind, sg)" using demo_burned_attested by blast
  have s: "serves_queue [demo_stored_record] (\<lambda>i limit after. Some (take limit (after_in after [demo_stored_record])))"
    by (simp add: serves_queue_def)
  from queue_row_attested [of "[demo_stored_record]" "\<lambda>n. \<lambda>i limit after. Some (take limit (after_in after [demo_stored_record]))"
      demo_bystander 0 demo_env "\<lambda>n i. demo_replies demo_burned_world (\<lambda>_. undefined)"] s a show ?thesis
    by (auto simp: demo_attester_fields)
qed

section \<open>An old send\<close>

definition demo_sent_candidate :: submission_record where
  "demo_sent_candidate = demo_stored_record\<lparr>rc_submission_id := replicate 32 0, rc_amount := [50],
     rc_chain_id_from := 7, rc_chain_id_to := 9, rc_nonce := 0, rc_receiver := replicate 20 1\<rparr>"

text \<open>A node at block 100 that answers every getter with \<open>false\<close>.\<close>

definition demo_quiet_node :: evm_node where
  "demo_quiet_node = \<lparr>nd_block_number = Some (rstr ''0x64''), nd_timestamp = (\<lambda>_. None),
     nd_call = (\<lambda>_ _. Returned (replicate 32 0))\<rparr>"

lemma demo_quantity: "quantity (rstr ''0x64'') = Some 100"
  by (simp add: quantity_def strip_prefix_def starts_with_def rstr_def from_str_radix_16_def hex_digit_def
      checked_mul_def checked_add_def)

lemma demo_quiet_destination:
  "evm_destination_state K r demo_quiet_node x = Some \<lparr>ds_executed = False, ds_cancelled = False\<rparr>"
  by (simp add: evm_destination_state_def confirmed_block_def demo_quiet_node_def demo_quantity evm_call_def
      decode_bool_def list_ex_iff)

lemma demo_sent_bound: "bound_submission_id demo_keccak demo_hex demo_sent_candidate = Inr 0"
proof -
  have h: "hex_bytes demo_hex (replicate 20 1) = Some (replicate 20 1)" "hex32 demo_hex (replicate 32 0) = Some 0"
    by code_simp+
  have p: "parse_uint [50] = Some (2 :: u128)"
    by (simp add: parse_uint_def is_ascii_digit_def checked_mul_def checked_add_def)
  have i: "host_submission_id demo_keccak 1 5 3 (host_amount_word 2) 7 9 0 r = 0" for r
    using host_id_agrees [of demo_env 1 5 3 2 7 9 0 r None "[]"] by simp
  show ?thesis
    by (simp add: bound_submission_id_def demo_sent_candidate_def demo_stored_record_def
        demo_hex32 [unfolded One_nat_def] p h [unfolded One_nat_def] demo_hex_empty
        Let_def decode_evm_auto_params_def map_err_def i)
qed

abbreviation demo_send_accs :: "account_info list" where
  "demo_send_accs \<equiv> [demo_info 1, demo_info 94, demo_signer 4, demo_info 36, demo_info 20,
     demo_info 200, demo_info 12, demo_info 0]"

text \<open>The record that the send of the demonstration writes at time 50.\<close>

lemma demo_send_at_50:
  obtains w' d r where "process_send (at_time demo_env 50) 100 demo_send_accs demo_send (demo_world demo_config) = Inr w'"
    "acct_owner (accts w' 12) = 100" "acct_data (accts w' 12) = d"
    "host_decode_sent_record d = Some r" "sr_amount r = 2000" "sr_locked_at r = 50"
proof -
  obtain w' where w: "process_send (at_time demo_env 50) 100 demo_send_accs demo_send (demo_world demo_config) = Inr w'"
    using demo_send_runs_at [of 50] by (auto simp: at_time_def)
  have "runtime_ok (at_time demo_env 50) 100" using demo_runtime_ok [of 100] by simp
  from send_effect [OF w this] obtain cfg asset wire ev dc ds now where
    st: "store 100 w' = (store 100 (demo_world demo_config))(pda demo_env 100 [lit ''config''] \<mapsto> dc,
      pda demo_env 100 [lit ''sent'', arr_bytes (ev_submission_id ev)] \<mapsto> ds)"
    and ev: "ev = send_event demo_env cfg asset demo_send 4 wire"
    and c: "gate_config demo_env 100 (demo_world demo_config) = Some cfg"
    and d: "decode_sent_record ds = Inr (event_record ev demo_send 4 36 now)" "length ds = SENT_RECORD_LEN" "now = 50"
    by (auto simp: demo_send_def)
  have "cfg = demo_config" using gate_config_load [OF demo_load] c by simp
  then have "ev_submission_id ev = 0" using ev by (simp add: send_event_def demo_send_def demo_config_def nonce_of_def)
  then have "store 100 w' 12 = Some ds" using st by (simp add: demo_pda_sent)
  then show ?thesis
    using that [OF w _ _ host_decode_agrees [OF d(2,1)]] d(3)
    by (simp add: store_eq_iff event_record_def demo_send_def)
qed

theorem cancel_attestation_aged_witness:
  "\<exists>w sg t args sender cfg asset wire.
    attest_candidate demo_env demo_attester (demo_replies w (\<lambda>_. demo_quiet_node)) demo_sent_candidate =
      Some (replicate 32 0, CancelKind, sg) \<and>
    sent_in demo_env 100 (demo_world demo_config) [Executed 50 demo_send_accs (Send demo_send)] w t args sender cfg asset wire \<and>
    sint t + 60 \<le> 200"
proof -
  obtain w d r where w: "process_send (at_time demo_env 50) 100 demo_send_accs demo_send (demo_world demo_config) = Inr w"
    and a: "acct_owner (accts w 12) = 100" "acct_data (accts w 12) = d"
    and r: "host_decode_sent_record d = Some r" "sr_amount r = 2000" "sr_locked_at r = 50"
    by (rule demo_send_at_50)
  let ?cr = "demo_replies w (\<lambda>_. demo_quiet_node)"
  have f: "rc_chain_id_to demo_sent_candidate = 9" "rc_chain_id_from demo_sent_candidate = 7"
    "rc_cancel_signatures demo_sent_candidate = []" "rc_refund_signatures demo_sent_candidate = []"
    "rc_submission_id demo_sent_candidate = replicate 32 0"
    by (simp_all add: demo_sent_candidate_def demo_stored_record_def)
  have so: "solana_source_state demo_env 100 ?cr 0 =
      Some \<lparr>so_state = \<lparr>src_sent = True, src_refunded = False\<rparr>, so_locked_at = 50\<rparr>"
    by (simp add: solana_source_state_def demo_replies_def demo_pda_sent solana_source_record_def a r)
  have age: "solana_aged_out 50 200 60" by (simp add: solana_aged_out_def sint_isat_sub i64_min_def i64_max_def)
  have cl: "cr_clock ?cr = Some 200" "cr_evm ?cr = (\<lambda>_. demo_quiet_node)" by (simp_all add: demo_replies_def)
  have p: "cx_program_id (at_source demo_attester) = 100" "cx_chain_id (at_source demo_attester) = 7"
    by (simp_all add: demo_attester_fields)
  have "candidate_facts demo_env demo_attester ?cr demo_sent_candidate 0 =
      Some (Some (Some \<lparr>src_sent = True, src_refunded = False\<rparr>, \<lparr>ds_executed = False, ds_cancelled = False\<rparr>, Some True))"
    unfolding candidate_facts_def solana_to_evm_facts_def p f so
    by (simp add: demo_attester_def demo_quiet_destination cl age)
  then have "\<exists>sg. attest_candidate demo_env demo_attester ?cr demo_sent_candidate = Some (replicate 32 0, CancelKind, sg)"
    by (simp add: attest_candidate_def demo_attester_fields demo_sent_bound f candidate_decision_def decide_def attested_by_def)
  then obtain sg where at: "attest_candidate demo_env demo_attester ?cr demo_sent_candidate =
      Some (replicate 32 0, CancelKind, sg)" by blast
  have g: "gate_run demo_env 100 (demo_world demo_config) ([] @ [Executed 50 demo_send_accs (Send demo_send)]) w"
    by (rule run_ix [OF run_nil]) (use w in simp)
  have ok: "runtime_ok demo_env 100" by (rule demo_runtime_ok) simp_all
  have b: "bound_submission_id (keccak demo_env) (at_unhex demo_attester) demo_sent_candidate = Inr 0"
    by (simp add: demo_attester_fields demo_sent_bound)
  have ap: "apart demo_env 100 [lit ''sent'', arr_bytes (0 :: bytes32)]" by (rule demo_apart) simp_all
  have n: "store 100 (demo_world demo_config) (pda demo_env 100 [lit ''sent'', arr_bytes (0 :: bytes32)]) = None"
    by (simp add: demo_pda_sent store_def demo_world_def demo_accts_def)
  from cancel_attestation_aged [OF ok _ g demo_replies_true at _ _ b ap n demo_attester_fields(3)] cl at
  show ?thesis by (auto simp: demo_attester_fields f) blast
qed

section \<open>An old transfer from the other side\<close>

text \<open>A hash that keeps the selectors apart: the first four bytes of short strings.\<close>

definition demo_short_keccak :: "bytes \<Rightarrow> bytes32" where
  "demo_short_keccak b = (if length b < 20 then of_be (take 4 b @ replicate 28 0) else demo_keccak b)"

definition demo_short_env :: env where
  "demo_short_env = demo_env\<lparr>keccak := demo_short_keccak\<rparr>"

definition demo_sent_by_call :: bytes where
  "demo_sent_by_call = lit ''sent'' @ arr_bytes (5 :: bytes32)"

text \<open>A node whose gate locked transfer 5 before block 90; one block takes ten seconds.\<close>

definition demo_locked_node :: evm_node where
  "demo_locked_node = \<lparr>nd_block_number = Some (rstr ''0x64''),
     nd_timestamp = (\<lambda>n. Some (rstr (if n = 98 then ''0x3d4'' else ''0x20''))),
     nd_call = (\<lambda>d b. Returned (if d = demo_sent_by_call then replicate 31 0 @ [1] else replicate 32 0))\<rparr>"

lemma demo_short_selectors:
  "selector demo_short_keccak ''sentBy(bytes32)'' = lit ''sent''"
  "selector demo_short_keccak ''refunded(bytes32)'' = lit ''refu''"
  by code_simp+

lemma demo_timestamps:
  "quantity (rstr ''0x3d4'') = Some 980" "quantity (rstr ''0x20'') = Some 32"
  by (simp_all add: quantity_def strip_prefix_def starts_with_def rstr_def from_str_radix_16_def hex_digit_def
      checked_mul_def checked_add_def)

lemma demo_locked_time: "block_timestamp demo_locked_node n = Some (if n = 98 then 980 else 32)"
  by (simp add: block_timestamp_def demo_locked_node_def demo_timestamps)

lemma demo_locked_reads:
  "confirmed_block \<lparr>gr_chain_id = 9, gr_block_confirmation = 2\<rparr> demo_locked_node = Some 98"
  "evm_source_state demo_short_keccak \<lparr>gr_chain_id = 9, gr_block_confirmation = 2\<rparr> demo_locked_node 5 =
    Some \<lparr>src_sent = True, src_refunded = False\<rparr>"
  "evm_aged_out demo_short_keccak \<lparr>gr_chain_id = 9, gr_block_confirmation = 2\<rparr> demo_locked_node 5 60 = Some True"
proof -
  let ?r = "\<lparr>gr_chain_id = 9, gr_block_confirmation = 2\<rparr>"
  show c: "confirmed_block ?r demo_locked_node = Some 98"
    by (simp add: confirmed_block_def demo_locked_node_def demo_quantity sat_sub_def)
  have e: "encode_bytes32_call demo_short_keccak ''sentBy(bytes32)'' 5 = demo_sent_by_call"
    "encode_bytes32_call demo_short_keccak ''refunded(bytes32)'' 5 \<noteq> demo_sent_by_call"
    by (simp_all add: encode_bytes32_call_def demo_short_selectors demo_sent_by_call_def lit_def)
  have s: "decode_address_is_set (replicate 31 0 @ [1]) = Some True" by code_simp
  have b: "decode_bool (replicate 32 0) = Some False" by (simp add: decode_bool_def list_ex_iff)
  have k: "evm_call demo_locked_node demo_sent_by_call n = Some (replicate 31 0 @ [1])"
    "d \<noteq> demo_sent_by_call \<Longrightarrow> evm_call demo_locked_node d n = Some (replicate 32 0)" for d n
    by (simp_all add: evm_call_def demo_locked_node_def)
  show "evm_source_state demo_short_keccak ?r demo_locked_node 5 = Some \<lparr>src_sent = True, src_refunded = False\<rparr>"
    unfolding evm_source_state_def c e(1) k(1) k(2) [OF e(2)] bind.bind_lunit s b by simp
  have "sint (32 :: i64) \<le> sint (isat_sub 980 60)" by (simp add: sint_isat_sub i64_min_def i64_max_def)
  then have "aged_loop demo_locked_node 98 (isat_sub 980 60) 24 5 = Some (Some 93)"
    using aged_loop.simps(2) [of demo_locked_node 98 "isat_sub 980 60" 23 5]
    by (simp add: checked_sub_def demo_locked_time)
  then have a: "aged_block ?r demo_locked_node 60 = Some (Some 93)"
    by (simp add: aged_block_def c demo_locked_time first_step_def)
  show "evm_aged_out demo_short_keccak ?r demo_locked_node 5 60 = Some True"
    unfolding evm_aged_out_def a was_sent_by_block_def e(1) k(1) by (simp add: s)
qed

theorem cancel_attestation_aged_evm_witness:
  "\<exists>sg block. attest_candidate demo_short_env demo_attester
      (demo_replies (demo_world demo_config) (\<lambda>_. demo_locked_node)) demo_stored_record =
      Some (rc_submission_id demo_stored_record, CancelKind, sg) \<and>
    block \<le> 98 \<and> was_sent_by_block demo_short_keccak demo_locked_node 5 block = Some True"
proof -
  let ?cr = "demo_replies (demo_world demo_config) (\<lambda>_. demo_locked_node)"
  have K: "keccak demo_short_env = demo_short_keccak" "find_program_address demo_short_env = demo_find"
    by (simp_all add: demo_short_env_def)
  have "host_submission_id demo_short_keccak 1 5 3 (host_amount_word 10) 9 7 5 r =
      host_submission_id demo_keccak 1 5 3 (host_amount_word 10) 9 7 5 r" for r
    by (simp add: host_submission_id_def demo_short_keccak_def host_packed_submission_def)
  then have b: "bound_submission_id demo_short_keccak demo_hex demo_stored_record = Inr 5"
    using host_id_agrees [of demo_env 1 5 3 10 9 7 5 _ None "[]"] by (intro demo_bound) simp
  have d: "solana_destination_state demo_short_env 100 ?cr 5 = Some \<lparr>ds_executed = False, ds_cancelled = False\<rparr>"
    using demo_pda [of 5 "lit ''executed''"]
    by (simp add: solana_destination_state_def K demo_tag_def demo_replies_def demo_world_def demo_accts_def)
  have p: "cx_program_id (at_source demo_attester) = 100" "cx_chain_id (at_source demo_attester) = 7"
    "at_unhex demo_attester = demo_hex"
    by (simp_all add: demo_attester_fields)
  have "candidate_facts demo_short_env demo_attester ?cr demo_stored_record 5 =
      Some (Some (Some \<lparr>src_sent = True, src_refunded = False\<rparr>, \<lparr>ds_executed = False, ds_cancelled = False\<rparr>, Some True))"
    unfolding candidate_facts_def evm_to_solana_facts_def p demo_record_chains d K
    by (simp add: demo_attester_def demo_replies_def demo_locked_reads)
  then have "\<exists>sg. attest_candidate demo_short_env demo_attester ?cr demo_stored_record =
      Some (rc_submission_id demo_stored_record, CancelKind, sg)"
    by (simp add: attest_candidate_def p K b demo_record_chains candidate_decision_def decide_def attested_by_def)
  then obtain sg where at: "attest_candidate demo_short_env demo_attester ?cr demo_stored_record =
      Some (rc_submission_id demo_stored_record, CancelKind, sg)" by blast
  have e: "cr_evm ?cr = (\<lambda>_. demo_locked_node)" "\<And>k. cr_account ?cr k = Some (Some (accts (demo_world demo_config) k))"
    by (simp_all add: demo_replies_def)
  have t: "clock_sane (cr_evm ?cr 1)" by (simp add: clock_sane_def e demo_locked_time)
  have bb: "bound_submission_id (keccak demo_short_env) (at_unhex demo_attester) demo_stored_record = Inr 5"
    using b by (simp add: p K)
  have c: "rc_chain_id_to demo_stored_record = cx_chain_id (at_source demo_attester)" "0 \<le> sint (60 :: i64)"
    by (simp_all add: demo_record_chains p)
  note h = cancel_attestation_aged_evm [OF p(1) at c(1) bb demo_attester_fields(3) c(2), where w = "demo_world demo_config"]
  obtain reader head_num block where
    "at_evm demo_attester 9 = Some reader" "confirmed_block reader demo_locked_node = Some head_num" "block \<le> head_num"
    "was_sent_by_block demo_short_keccak demo_locked_node 5 block = Some True"
    using h [OF t e(2), unfolded e demo_record_chains K] by blast
  then show ?thesis using at demo_locked_reads(1) by (auto simp: demo_attester_def)
qed

end
