(* ===== verification/ValidatorLogs.thy ===== *)
theory ValidatorLogs
  imports GateTypes "HOL-Library.Multiset"
begin

text \<open>
  How the EVM validator reads a chain through several endpoints that may be wrong
  (validator/src/provider.rs, bridge-core/src/scan.rs): the majority rules for point
  reads and for heads, the comparison of the logs of a window, and the corroborated read
  of a window. The endpoints' answers are parameters.
\<close>

section \<open>Majorities\<close>

definition min_agree :: "nat \<Rightarrow> bool \<Rightarrow> nat" where
  "min_agree configured require = (if configured \<ge> 2 \<or> require then 2 else 1)"

text \<open>The refusal says whether endpoints answered and differed.\<close>

definition backers :: "('u \<times> 'a) list \<Rightarrow> 'a \<Rightarrow> nat" where
  "backers answers v = length (filter (\<lambda>(_, a). a = v) answers)"

fun majority_loop :: "('u \<times> 'a) list \<Rightarrow> nat \<Rightarrow> ('u \<times> 'a) list \<Rightarrow> bool + 'a" where
  "majority_loop answers m [] = Inl True"
| "majority_loop answers m ((u, v) # rest) =
     (if backers answers v \<ge> m \<and> backers answers v * 2 > length answers then Inr v
      else majority_loop answers m rest)"

definition majority :: "('u \<times> 'a) list \<Rightarrow> nat \<Rightarrow> bool + 'a" where
  "majority answers m = (if length answers < m then Inl False else majority_loop answers m answers)"

definition majority_floor :: "'a::linorder list \<Rightarrow> 'a option" where
  "majority_floor values = (if values = [] then None else Some (rev (sort values) ! (length values div 2)))"

section \<open>Windows\<close>

definition clamp_scan_window :: "u64 \<Rightarrow> u64 \<Rightarrow> u64 \<Rightarrow> u64 \<Rightarrow> u64 option" where
  "clamp_scan_window from_block to_block endpoint_head confirmations =
     (let confirmed = sat_sub endpoint_head confirmations in
      if confirmed < from_block then None else Some (min to_block confirmed))"

text \<open>\<open>find_map\<close>\<close>

fun find_map :: "('a \<Rightarrow> 'b option) \<Rightarrow> 'a list \<Rightarrow> 'b option" where
  "find_map f [] = None"
| "find_map f (x # xs) = (case f x of Some y \<Rightarrow> Some y | None \<Rightarrow> find_map f xs)"

definition corroborated_window_end :: "u64 \<Rightarrow> u64 \<Rightarrow> u64 list \<Rightarrow> u64 \<Rightarrow> u64 option" where
  "corroborated_window_end from_block serving_to peer_heads confirmations =
     find_map (\<lambda>head. clamp_scan_window from_block serving_to head confirmations) peer_heads"

section \<open>Logs\<close>

record evm_log =
  lg_block :: "u64 option"
  lg_index :: "u64 option"
  lg_tx :: "bytes32 option"
  lg_address :: address
  lg_topics :: "bytes32 list"
  lg_data :: bytes
  lg_removed :: bool

type_synonym log_key = "u64 \<times> u64 \<times> bytes32 option \<times> address \<times> bytes32 list \<times> bytes"

definition unwrap_or_default :: "u64 option \<Rightarrow> u64" where
  "unwrap_or_default x = (case x of Some v \<Rightarrow> v | None \<Rightarrow> 0)"

definition log_key :: "evm_log \<Rightarrow> log_key" where
  "log_key l = (unwrap_or_default (lg_block l), unwrap_or_default (lg_index l), lg_tx l, lg_address l, lg_topics l, lg_data l)"

definition live_logs :: "evm_log list \<Rightarrow> evm_log list" where
  "live_logs ls = filter (\<lambda>l. \<not> lg_removed l) ls"

definition log_bag :: "evm_log list \<Rightarrow> log_key multiset" where
  "log_bag ls = mset (map log_key (live_logs ls))"

definition bag_excess :: "log_key multiset \<Rightarrow> log_key multiset \<Rightarrow> nat" where
  "bag_excess a b = size (a - b)"

type_synonym log_pos = "u64 option \<times> u64 option"

definition log_pos :: "evm_log \<Rightarrow> log_pos" where
  "log_pos l = (lg_block l, lg_index l)"

fun repeats :: "log_pos list \<Rightarrow> log_pos list \<Rightarrow> nat" where
  "repeats seen [] = 0"
| "repeats seen (p # ps) = (if p \<in> set seen then Suc (repeats seen ps) else repeats (p # seen) ps)"

definition duplicate_positions :: "evm_log list \<Rightarrow> nat" where
  "duplicate_positions ls = repeats [] (map log_pos (live_logs ls))"

text \<open>
  The loop of \<open>dedupe_logs\<close>: what is kept, and the first position that holds two different
  logs. The result counts the copies dropped.
\<close>

fun dedupe_loop ::
  "(log_pos \<Rightarrow> log_key option) \<Rightarrow> log_pos option \<Rightarrow> evm_log list \<Rightarrow> evm_log list \<times> log_pos option" where
  "dedupe_loop seen conflict [] = ([], conflict)"
| "dedupe_loop seen conflict (l # ls) =
     (case seen (log_pos l) of
        None \<Rightarrow>
          (let (kept, c) = dedupe_loop (seen(log_pos l \<mapsto> log_key l)) conflict ls in (l # kept, c))
      | Some k \<Rightarrow>
          if k = log_key l then dedupe_loop seen conflict ls
          else
            (let (kept, c) =
                 dedupe_loop seen (case conflict of None \<Rightarrow> Some (log_pos l) | Some p \<Rightarrow> Some p) ls in
             (l # kept, c)))"

definition dedupe_logs :: "evm_log list \<Rightarrow> (log_pos + nat) \<times> evm_log list" where
  "dedupe_logs ls =
     (case dedupe_loop (\<lambda>_. None) None ls of
        (kept, Some p) \<Rightarrow> (Inl p, kept)
      | (kept, None) \<Rightarrow> (Inr (length ls - length kept), kept))"

section \<open>Counting endpoints\<close>

text \<open>\<open>None\<close> is the panic of an \<open>expect\<close>; a disagreement names the counts of its message.\<close>

datatype tally = NoAnswer | TAgreed nat nat
  | TDisagreed nat "nat option" nat nat nat nat

definition tally_promote ::
  "log_key multiset \<Rightarrow> nat \<Rightarrow> nat \<Rightarrow> (nat \<times> log_key multiset) list \<Rightarrow> nat option" where
  "tally_promote mine tot first_dissenter sets =
     find_map (\<lambda>(_, candidate).
         let backing = map fst (filter (\<lambda>(_, s). s = candidate) sets) in
         if candidate \<noteq> mine \<and> length backing * 2 > tot
         then find (\<lambda>i. i \<noteq> first_dissenter) backing else None) sets"

definition tally :: "evm_log list \<Rightarrow> (nat \<times> evm_log list) list \<Rightarrow> tally option" where
  "tally served answers =
     (if answers = [] then Some NoAnswer
      else
        let mine = log_bag served;
            sets = map (\<lambda>(i, ls). (i, log_bag ls)) answers;
            tot = length sets + 1;
            for_served = 1 + length (filter (\<lambda>(_, s). s = mine) sets) in
        if for_served * 2 > tot
        then map_option (\<lambda>(i, _). TAgreed i (tot - for_served)) (find (\<lambda>(_, s). s = mine) sets)
        else
          map_option (\<lambda>(i, theirs).
              TDisagreed i (tally_promote mine tot i sets) (bag_excess mine theirs) (bag_excess theirs mine)
                for_served tot)
            (find (\<lambda>(_, s). s \<noteq> mine) sets))"

section \<open>The corroborated read\<close>

text \<open>
  The pool: how many endpoints there are and which is asked first. \<open>rq_head r i\<close> is the
  head endpoint \<open>i\<close> reports in round \<open>r\<close> of a read, \<open>rq_logs i a b\<close> its logs.
\<close>

record failover =
  fo_count :: nat
  fo_active :: nat

record replies =
  rq_head :: "nat \<Rightarrow> nat \<Rightarrow> u64 option"
  rq_logs :: "nat \<Rightarrow> u64 \<Rightarrow> u64 \<Rightarrow> evm_log list option"

fun with_failover :: "(nat \<Rightarrow> 'a option) \<Rightarrow> nat \<Rightarrow> nat \<Rightarrow> nat \<Rightarrow> failover \<Rightarrow> 'a option \<times> failover" where
  "with_failover ask 0 attempt first fo = (None, fo)"
| "with_failover ask (Suc left) attempt first fo =
     (let idx = (first + attempt) mod fo_count fo in
      case ask idx of
        Some v \<Rightarrow> (Some v, fo\<lparr>fo_active := idx\<rparr>)
      | None \<Rightarrow> with_failover ask left (Suc attempt) first fo)"

definition get_block_number :: "replies \<Rightarrow> failover \<Rightarrow> u64 option \<times> failover" where
  "get_block_number rq fo = with_failover (rq_head rq 0) (fo_count fo) 0 (fo_active fo) fo"

definition HEAD_LAG_ROTATE :: u64 where "HEAD_LAG_ROTATE = 64"

definition scan_head :: "replies \<Rightarrow> failover \<Rightarrow> u64 option \<times> failover" where
  "scan_head rq fo =
     (let n = fo_count fo;
          heads = List.map_filter (\<lambda>i. map_option (Pair i) (rq_head rq 0 i)) [0..<n] in
      case majority_floor (map snd heads) of
        None \<Rightarrow> (None, fo)
      | Some head \<Rightarrow>
          let active_head = map_option snd (find (\<lambda>(i, _). i = fo_active fo) heads) in
          if (case active_head of None \<Rightarrow> True | Some h \<Rightarrow> sat_add h HEAD_LAG_ROTATE < head)
          then
            (case find (\<lambda>i. list_ex (\<lambda>(j, h). j = i \<and> h \<ge> head) heads)
                (map (\<lambda>k. (fo_active fo + k) mod n) [1..<n]) of
               Some to \<Rightarrow> (Some head, fo\<lparr>fo_active := to\<rparr>)
             | None \<Rightarrow> (Some head, fo))
          else (Some head, fo))"

definition stagger :: "nat \<Rightarrow> 'e list \<Rightarrow> 'e list" where
  "stagger offset endpoints =
     (if length endpoints > 1 then rotate (offset mod length endpoints) endpoints else endpoints)"

datatype corroboration = Agreed nat | Disagreed nat nat | Inconclusive | Unavailable

text \<open>The loop over the peers, each with its head; it stops at a first answer that agrees.\<close>

fun ask_peers ::
  "replies \<Rightarrow> u64 \<Rightarrow> u64 \<Rightarrow> u64 \<Rightarrow> log_key multiset \<Rightarrow> (nat \<times> u64) list \<Rightarrow> (nat \<times> evm_log list) list \<Rightarrow>
   (nat \<times> evm_log list) list" where
  "ask_peers rq from_block scanned_to confirmations served [] answers = answers"
| "ask_peers rq from_block scanned_to confirmations served ((idx, head) # peers) answers =
     (if sat_sub head confirmations < scanned_to
      then ask_peers rq from_block scanned_to confirmations served peers answers
      else case rq_logs rq idx from_block scanned_to of
        None \<Rightarrow> ask_peers rq from_block scanned_to confirmations served peers answers
      | Some ls \<Rightarrow>
          let answers = answers @ [(idx, ls)] in
          if log_bag ls = served \<and> length answers = 1 then answers
          else ask_peers rq from_block scanned_to confirmations served peers answers)"

text \<open>
  The result: a failure, \<open>Some None\<close> when the serving endpoint has nothing confirmed, or
  the logs, the end of the window and the verdict.
\<close>

type_synonym window_read = "(evm_log list \<times> u64 \<times> corroboration) option option"

definition get_logs_corroborated ::
  "replies \<Rightarrow> u64 \<Rightarrow> u64 \<Rightarrow> u64 \<Rightarrow> failover \<Rightarrow> window_read \<times> failover" where
  "get_logs_corroborated rq from_block to_block confirmations fo =
     (let n = fo_count fo in
      case get_block_number rq fo of
        (None, fo) \<Rightarrow> (None, fo)
      | (Some serving_head, fo) \<Rightarrow>
     (let s = fo_active fo in
      case clamp_scan_window from_block to_block serving_head confirmations of
        None \<Rightarrow> (Some None, fo)
      | Some serving_to \<Rightarrow>
      if n < 2 then
        (case rq_logs rq s from_block serving_to of
           None \<Rightarrow> (None, fo)
         | Some ls \<Rightarrow> (Some (Some (ls, serving_to, Unavailable)), fo))
      else
      let peers = List.map_filter (\<lambda>step.
            let idx = (s + step) mod n in map_option (Pair idx) (rq_head rq 1 idx)) [1..<n] in
      case corroborated_window_end from_block serving_to (map snd peers) confirmations of
        None \<Rightarrow> (Some (Some ([], serving_to, Inconclusive)), fo)
      | Some scanned_to \<Rightarrow>
      (case rq_logs rq s from_block scanned_to of
         None \<Rightarrow> (None, fo\<lparr>fo_active := (s + 1) mod n\<rparr>)
       | Some served \<Rightarrow>
       if duplicate_positions served > 0
       then (Some (Some (served, scanned_to, Disagreed s s)), fo\<lparr>fo_active := (s + 1) mod n\<rparr>)
       else
       (case tally served (ask_peers rq from_block scanned_to confirmations (log_bag served) peers []) of
          None \<Rightarrow> (None, fo)
        | Some NoAnswer \<Rightarrow> (Some (Some (served, scanned_to, Inconclusive)), fo)
        | Some (TAgreed by dissenters) \<Rightarrow> (Some (Some (served, scanned_to, Agreed by)), fo)
        | Some (TDisagreed first_dissenter promoted _ _ _ _) \<Rightarrow>
            (Some (Some (served, scanned_to, Disagreed s first_dissenter)),
             case promoted of Some to \<Rightarrow> fo\<lparr>fo_active := to\<rparr> | None \<Rightarrow> fo)))))"

section \<open>What a majority says\<close>

lemma majority_loop_Inr:
  assumes "majority_loop answers m rest = Inr v"
  shows "m \<le> backers answers v" "length answers < 2 * backers answers v"
  using assms by (induction answers m rest rule: majority_loop.induct) (auto split: if_splits)

lemma majority_loop_finds:
  "\<exists>u. (u, v) \<in> set rest \<Longrightarrow> m \<le> backers answers v \<Longrightarrow> length answers < 2 * backers answers v \<Longrightarrow>
   \<exists>w. majority_loop answers m rest = Inr w"
  by (induction answers m rest rule: majority_loop.induct) auto

lemma two_majorities:
  assumes "length answers < 2 * backers answers v" "length answers < 2 * backers answers w"
  shows "v = w"
proof (rule ccontr)
  assume "v \<noteq> w"
  have "backers answers v + backers answers w \<le> length answers"
    unfolding backers_def using \<open>v \<noteq> w\<close> by (induction answers) auto
  then show False using assms by simp
qed

lemma backers_pos: "0 < backers answers v \<Longrightarrow> \<exists>u. (u, v) \<in> set answers"
  unfolding backers_def by (induction answers) (auto split: if_splits)

lemma majority_Inr_iff:
  "majority answers m = Inr v \<longleftrightarrow> m \<le> backers answers v \<and> length answers < 2 * backers answers v"
proof
  assume "majority answers m = Inr v"
  then show "m \<le> backers answers v \<and> length answers < 2 * backers answers v"
    using majority_loop_Inr by (auto simp: majority_def split: if_splits)
next
  assume b: "m \<le> backers answers v \<and> length answers < 2 * backers answers v"
  have "backers answers v \<le> length answers" by (simp add: backers_def)
  then have l: "\<not> length answers < m" using b by simp
  have "\<exists>u. (u, v) \<in> set answers" using b by (intro backers_pos) linarith
  then obtain w where w: "majority_loop answers m answers = Inr w" using majority_loop_finds [of v answers m answers] b by auto
  have "w = v" using two_majorities [OF majority_loop_Inr(2) [OF w]] b by simp
  then show "majority answers m = Inr v" using w l by (simp add: majority_def)
qed

section \<open>What a corroborated window says\<close>

lemma find_map_Some: "find_map f xs = Some y \<Longrightarrow> \<exists>x \<in> set xs. f x = Some y"
  by (induction xs) (auto split: option.splits)

lemma find_None_iff': "find P xs = None \<longleftrightarrow> (\<forall>x \<in> set xs. \<not> P x)"
  by (induction xs) auto

lemma find_SomeD: "find P xs = Some x \<Longrightarrow> x \<in> set xs \<and> P x"
  by (induction xs) (auto split: if_splits)

text \<open>The \<open>expect\<close>s are never reached.\<close>

lemma tally_total: "tally served answers \<noteq> None"
proof -
  define sets where "sets = map (\<lambda>(i, ls). (i, log_bag ls)) answers"
  let ?mine = "log_bag served"
  let ?for = "1 + length (filter (\<lambda>(_, s). s = ?mine) sets)"
  have ne: "answers \<noteq> [] \<Longrightarrow> sets \<noteq> []" by (simp add: sets_def)
  have a: "find (\<lambda>(_, s). s = ?mine) sets \<noteq> None" if l: "?for * 2 > length sets + 1" and "sets \<noteq> []"
  proof
    assume "find (\<lambda>(_, s). s = ?mine) sets = None"
    then have "filter (\<lambda>(_, s). s = ?mine) sets = []" by (auto simp: find_None_iff' filter_empty_conv)
    then show False using l \<open>sets \<noteq> []\<close> by simp
  qed
  have d: "find (\<lambda>(_, s). s \<noteq> ?mine) sets \<noteq> None" if l: "\<not> ?for * 2 > length sets + 1" and "sets \<noteq> []"
  proof
    assume "find (\<lambda>(_, s). s \<noteq> ?mine) sets = None"
    then have "filter (\<lambda>(_, s). s = ?mine) sets = sets" by (auto simp: find_None_iff' filter_id_conv)
    then show False using l by simp
  qed
  show ?thesis using a d ne unfolding tally_def Let_def sets_def [symmetric] by auto
qed

lemma tally_agreed:
  assumes "tally served answers = Some (TAgreed by d)"
  shows "\<exists>ls. (by, ls) \<in> set answers \<and> log_bag ls = log_bag served"
proof -
  obtain t where "find (\<lambda>(_, s). s = log_bag served) (map (\<lambda>(i, ls). (i, log_bag ls)) answers) = Some (by, t)"
    using assms by (auto simp: tally_def Let_def split: if_splits)
  note find_SomeD [OF this]
  then show ?thesis by auto
qed

lemma ask_peers_answers:
  "(i, ls) \<in> set (ask_peers rq a b c served peers answers) \<Longrightarrow>
   (i, ls) \<in> set answers \<or>
   (\<exists>head. (i, head) \<in> set peers \<and> b \<le> sat_sub head c) \<and> rq_logs rq i a b = Some ls"
proof (induction rq a b c served peers answers rule: ask_peers.induct)
  case (2 rq a b c served idx head peers answers)
  then show ?case by (auto simp: Let_def not_less split: if_splits option.splits)
qed simp

lemma clamp_scan_window_Some:
  "clamp_scan_window a b head c = Some e \<Longrightarrow> a \<le> sat_sub head c \<and> e \<le> b \<and> e \<le> sat_sub head c"
  by (auto simp: clamp_scan_window_def Let_def split: if_splits)

lemma with_failover_Some:
  "with_failover ask left attempt first fo = (Some v, fo') \<Longrightarrow>
   ask (fo_active fo') = Some v \<and> fo_count fo' = fo_count fo"
  by (induction ask left attempt first fo rule: with_failover.induct) (auto simp: Let_def split: option.splits)

text \<open>The parts of an agreed read.\<close>

lemma corroborated_agreed:
  assumes "get_logs_corroborated rq a b c fo = (Some (Some (served, e, Agreed by)), fo')"
  obtains s h ls where "rq_head rq 0 s = Some h" "rq_logs rq s a e = Some served" "e \<le> b" "e \<le> sat_sub h c"
    "duplicate_positions served = 0" "rq_logs rq by a e = Some ls" "log_bag ls = log_bag served" "by \<noteq> s"
    "\<exists>ph. rq_head rq 1 by = Some ph \<and> e \<le> sat_sub ph c"
proof -
  obtain q fo1 where q: "get_block_number rq fo = (q, fo1)" by fastforce
  then obtain h where h: "get_block_number rq fo = (Some h, fo1)"
    using assms by (cases q) (auto simp: get_logs_corroborated_def)
  define n where "n = fo_count fo"
  define s where "s = fo_active fo1"
  note f = with_failover_Some [OF h [unfolded get_block_number_def]]
  obtain st where st: "clamp_scan_window a b h c = Some st" and n: "\<not> n < 2"
    using assms by (auto simp: get_logs_corroborated_def h n_def Let_def split: option.splits if_splits)
  define peers where "peers = List.map_filter (\<lambda>step. let idx = (s + step) mod n in map_option (Pair idx) (rq_head rq 1 idx)) [1..<n]"
  note r = assms [unfolded get_logs_corroborated_def h prod.case Let_def n_def [symmetric] option.case s_def [symmetric] st
      if_not_P [OF n] peers_def [unfolded Let_def, symmetric]]
  obtain e' where e': "corroborated_window_end a st (map snd peers) c = Some e'"
    using r by (auto split: option.splits)
  obtain sv where sv: "rq_logs rq s a e' = Some sv" using r by (auto simp: e' split: option.splits)
  have dup: "duplicate_positions sv = 0" using r by (auto simp: e' sv split: if_splits)
  obtain d where t: "tally sv (ask_peers rq a e' c (log_bag sv) peers []) = Some (TAgreed by d)"
    and eq: "sv = served" "e' = e"
    using r by (auto simp: e' sv dup split: option.splits tally.splits)
  obtain ls where ls: "(by, ls) \<in> set (ask_peers rq a e c (log_bag served) peers [])" "log_bag ls = log_bag served"
    using tally_agreed [OF t] eq by auto
  obtain ph where ph: "(by, ph) \<in> set peers" "e \<le> sat_sub ph c" "rq_logs rq by a e = Some ls"
    using ask_peers_answers [OF ls(1)] by auto
  obtain step where step: "1 \<le> step" "step < n" "by = (s + step) mod n" "rq_head rq 1 by = Some ph"
    using ph(1) by (auto simp: peers_def Let_def List.map_filter_def)
  obtain head where "clamp_scan_window a st head c = Some e"
    using find_map_Some [OF e' [unfolded corroborated_window_end_def eq(2)]] by auto
  then have "e \<le> st" by (simp add: clamp_scan_window_Some)
  moreover note clamp_scan_window_Some [OF st]
  ultimately have "e \<le> b" "e \<le> sat_sub h c" by auto
  moreover have "by \<noteq> s"
  proof
    assume "by = s"
    then have m: "(s + step) mod n = s" using step(3) by simp
    have "(s + step) mod n < n" using step(2) by simp
    then have "(s + step) mod n = s mod n" unfolding m by simp
    then have "n dvd step" by (metis add_diff_cancel_left' le_add1 mod_eq_dvd_iff_nat)
    then show False using step(1,2) by (auto dest: dvd_imp_le)
  qed
  ultimately show ?thesis
    using that [of s h ls] f h sv dup eq ls(2) ph step(4) by (auto simp: s_def)
qed

end
