(* ===== verification/ValidatorScan.thy ===== *)
theory ValidatorScan
  imports ValidatorLogs RelayerScan
begin

text \<open>
  The scan loop of the EVM validator (validator/src/main.rs, state.rs): the persisted
  cursor with its sequential nonces and its safety stop, the handling of one event, and
  one turn of the loop over a window. The allowlist policy is bridge-core's, the scale
  check and the store's replies are parameters of a turn.
\<close>

section \<open>The persisted state\<close>

datatype pause_reason = Operator
  | MissedNonce u64 u64 u64 u64
  | DuplicatedNonce u64 u64 u64 u64
  | IdMismatch bytes32

record persist =
  ps_last_block :: u64
  ps_nonces :: "u64 \<Rightarrow> (u64 \<Rightarrow> u64 option) option"
  ps_paused :: bool
  ps_pause_reason :: "pause_reason option"

datatype nonce_decision = Accept | Duplicated | Missed

text \<open>The runtime: the state, and what the state file holds.\<close>

record runtime =
  rt_persist :: persist
  rt_file :: "persist option"

definition fresh_persist :: "u64 \<Rightarrow> persist" where
  "fresh_persist start_block =
     \<lparr>ps_last_block = sat_sub start_block 1, ps_nonces = Map.empty, ps_paused = False, ps_pause_reason = None\<rparr>"

text \<open>The state file: missing, unreadable, or a state.\<close>

datatype state_file = Missing | Garbled | Holds persist

definition load_or_init :: "state_file \<Rightarrow> u64 \<Rightarrow> runtime option" where
  "load_or_init file start_block =
     (case file of
        Missing \<Rightarrow> Some \<lparr>rt_persist = fresh_persist start_block, rt_file = None\<rparr>
      | Garbled \<Rightarrow> None
      | Holds p \<Rightarrow> Some \<lparr>rt_persist = p, rt_file = Some p\<rparr>)"

definition save :: "bool \<Rightarrow> runtime \<Rightarrow> runtime" where
  "save ok rt = (if ok then rt\<lparr>rt_file := Some (rt_persist rt)\<rparr> else rt)"

definition upd_persist :: "(persist \<Rightarrow> persist) \<Rightarrow> runtime \<Rightarrow> runtime" where
  "upd_persist f rt = rt\<lparr>rt_persist := f (rt_persist rt)\<rparr>"

definition next_block :: "runtime \<Rightarrow> u64" where
  "next_block rt = ps_last_block (rt_persist rt) + 1"

definition last_nonce :: "runtime \<Rightarrow> u64 \<Rightarrow> u64 \<Rightarrow> u64 option" where
  "last_nonce rt chain_from chain_to = Option.bind (ps_nonces (rt_persist rt) chain_from) (\<lambda>m. m chain_to)"

definition check_nonce :: "runtime \<Rightarrow> u64 \<Rightarrow> u64 \<Rightarrow> u64 \<Rightarrow> nonce_decision" where
  "check_nonce rt chain_from chain_to nonce =
     (case last_nonce rt chain_from chain_to of
        None \<Rightarrow> Accept
      | Some prev \<Rightarrow>
          if nonce = prev + 1 then Accept else if nonce \<le> prev then Duplicated else Missed)"

definition accept_nonce :: "u64 \<Rightarrow> u64 \<Rightarrow> u64 \<Rightarrow> runtime \<Rightarrow> runtime" where
  "accept_nonce chain_from chain_to nonce =
     upd_persist (\<lambda>p. p\<lparr>ps_nonces :=
       (ps_nonces p)(chain_from \<mapsto>
          (case ps_nonces p chain_from of Some m \<Rightarrow> m | None \<Rightarrow> Map.empty)(chain_to \<mapsto> nonce))\<rparr>)"

definition restore_nonces :: "(u64 \<Rightarrow> (u64 \<Rightarrow> u64 option) option) \<Rightarrow> runtime \<Rightarrow> runtime" where
  "restore_nonces snapshot = upd_persist (\<lambda>p. p\<lparr>ps_nonces := snapshot\<rparr>)"

definition pause :: "pause_reason \<Rightarrow> runtime \<Rightarrow> runtime" where
  "pause r = upd_persist (\<lambda>p. p\<lparr>ps_paused := True, ps_pause_reason := Some r\<rparr>)"

definition resume :: "runtime \<Rightarrow> runtime" where
  "resume = upd_persist (\<lambda>p. p\<lparr>ps_paused := False, ps_pause_reason := None\<rparr>)"

definition rescan_from :: "u64 \<Rightarrow> runtime \<Rightarrow> runtime" where
  "rescan_from from_block rt =
     resume (upd_persist (\<lambda>p. p\<lparr>ps_last_block := sat_sub from_block 1, ps_nonces := Map.empty\<rparr>) rt)"

section \<open>The allowlist the store serves\<close>

datatype allowlist_view = NotConfigured | Enforcing allowlist | EmptyList

datatype allowlist_refusal = RefEmpty | RefNotConfigured | MissingPin rust_str | EmptyDimension rust_str

record allowlist_policy =
  ap_require :: bool
  ap_pinned_tokens :: "rust_str list"
  ap_pinned_chains :: "(u64 \<times> u64) list"

definition policy_required :: "allowlist_policy \<Rightarrow> bool" where
  "policy_required p \<longleftrightarrow> ap_require p \<or> ap_pinned_tokens p \<noteq> [] \<or> ap_pinned_chains p \<noteq> []"

definition has_token :: "allowlist \<Rightarrow> rust_str \<Rightarrow> bool" where
  "has_token l d \<longleftrightarrow> to_ascii_lowercase d \<in> set (al_debridge_ids l)"

definition has_chain :: "allowlist \<Rightarrow> u64 \<times> u64 \<Rightarrow> bool" where
  "has_chain l c \<longleftrightarrow> c \<in> set (al_chains l)"

definition policy_check :: "allowlist_policy \<Rightarrow> allowlist_view \<Rightarrow> allowlist_refusal + allowlist option" where
  "policy_check p view =
     (case view of
        NotConfigured \<Rightarrow> if policy_required p then Inl RefNotConfigured else Inr None
      | EmptyList \<Rightarrow> if policy_required p then Inl RefEmpty else Inr None
      | Enforcing l \<Rightarrow>
          if policy_required p \<and> al_debridge_ids l = [] then Inl (EmptyDimension (rstr ''token''))
          else if policy_required p \<and> al_chains l = [] then Inl (EmptyDimension (rstr ''chain pair''))
          else
            (case find (\<lambda>t. \<not> has_token l t) (ap_pinned_tokens p) of
               Some t \<Rightarrow> Inl (MissingPin (to_ascii_lowercase t))
             | None \<Rightarrow>
                 (case find (\<lambda>c. \<not> has_chain l c) (ap_pinned_chains p) of
                    Some (a, b) \<Rightarrow> 
                      Inl (MissingPin (rstr ''chain pair '' @ dec_digits (unat a) @ rstr ''->'' @ dec_digits (unat b)))
                  | None \<Rightarrow> Inr (Some l))))"

section \<open>One event\<close>

text \<open>The decoded event: its id, its fields and the token.\<close>

record sent_log =
  sl_submission_id :: bytes32
  sl_event :: evm_sent
  sl_token :: address

definition as_u64 :: "bytes32 \<Rightarrow> u64 option" where
  "as_u64 x = (if unat x < 2 ^ 64 then Some (ucast x) else None)"

definition record_from_sent_event :: "(bytes \<Rightarrow> rust_str) \<Rightarrow> sent_log \<Rightarrow> bytes32 \<Rightarrow> submission_record option" where
  "record_from_sent_event hex sl domain =
     (let ev = sl_event sl; h = (\<lambda>b. rstr ''0x'' @ hex b) in
      do {
        chain_from \<leftarrow> as_u64 (es_chain_id_from ev);
        chain_to \<leftarrow> as_u64 (es_chain_id_to ev);
        nonce \<leftarrow> as_u64 (es_nonce ev);
        Some \<lparr>rc_submission_id = h (arr_bytes (sl_submission_id sl)), rc_bridge_domain = h (arr_bytes domain),
          rc_debridge_id = h (arr_bytes (es_debridge_id ev)), rc_amount = dec_digits (unat (es_amount ev)),
          rc_bridge_decimals = Some (es_bridge_decimals ev), rc_chain_id_from = chain_from,
          rc_chain_id_to = chain_to, rc_nonce = nonce, rc_receiver = h (es_receiver ev),
          rc_auto_params = h (es_auto_params ev), rc_native_sender = h (es_native_sender ev),
          rc_token = h (arr_bytes (sl_token sl)), rc_signatures = [], rc_cancel_signatures = [],
          rc_refund_signatures = []\<rparr> })"

definition MAX_ACCOUNT_BYTES :: nat where "MAX_ACCOUNT_BYTES = 32"
definition MAX_AUTO_PARAMS_BYTES :: nat where "MAX_AUTO_PARAMS_BYTES = 32 * 1024"
definition MAX_UINT256_DECIMAL_LEN :: nat where "MAX_UINT256_DECIMAL_LEN = 78"

definition bounded_hex :: "rust_str \<Rightarrow> nat \<Rightarrow> bool" where
  "bounded_hex s max_bytes \<longleftrightarrow>
     length (case strip_prefix s (rstr ''0x'') of Some t \<Rightarrow> t | None \<Rightarrow> s) \<le> 2 * max_bytes"

definition check_storable :: "submission_record \<Rightarrow> bool" where
  "check_storable r \<longleftrightarrow>
     bounded_hex (rc_receiver r) MAX_ACCOUNT_BYTES \<and> bounded_hex (rc_native_sender r) MAX_ACCOUNT_BYTES \<and>
     bounded_hex (rc_auto_params r) MAX_AUTO_PARAMS_BYTES \<and> bounded_hex (rc_bridge_domain r) 32 \<and>
     bounded_hex (rc_debridge_id r) 32 \<and> bounded_hex (rc_token r) 20 \<and>
     length (rc_amount r) \<le> MAX_UINT256_DECIMAL_LEN"

datatype verdict = Agree u8 | Mismatch u8 u8 | Unknown

record validator_config =
  vc_keccak :: "bytes \<Rightarrow> bytes32"
  vc_abi :: abi_decoder
  vc_hex :: "bytes \<Rightarrow> rust_str"
  vc_decode :: "evm_log \<Rightarrow> sent_log option"
  vc_signer :: rust_str
  vc_bridge_domain :: bytes32
  vc_block_confirmation :: u64
  vc_max_block_range :: u64
  vc_require_corroboration :: bool
  vc_policy :: allowlist_policy

text \<open>The replies while one log is handled: the scale check, the signer, the store.\<close>

record log_replies =
  lr_verdict :: "u8 \<Rightarrow> u64 \<Rightarrow> bytes32 \<Rightarrow> verdict option"
  lr_sign :: "bytes32 \<Rightarrow> rust_str option"
  lr_upsert :: "submission_record \<Rightarrow> signer_sig \<Rightarrow> bool"
  lr_save :: bool

text \<open>The state of a batch, with what was posted.\<close>

record batch =
  bt_runtime :: runtime
  bt_stored :: "bytes32 list"
  bt_posted :: "(submission_record \<times> signer_sig) list"

definition upd_runtime :: "(runtime \<Rightarrow> runtime) \<Rightarrow> batch \<Rightarrow> batch" where
  "upd_runtime f st = st\<lparr>bt_runtime := f (bt_runtime st)\<rparr>"

text \<open>\<open>None\<close> is an error; \<open>Some False\<close> a safety stop.\<close>

definition withheld :: "submission_record \<Rightarrow> batch \<Rightarrow> bool option \<times> batch" where
  "withheld rc st =
     (Some True, upd_runtime (accept_nonce (rc_chain_id_from rc) (rc_chain_id_to rc) (rc_nonce rc)) st)"

definition stopped :: "bool \<Rightarrow> pause_reason \<Rightarrow> batch \<Rightarrow> bool option \<times> batch" where
  "stopped ok r st = (Some False, upd_runtime (\<lambda>rt. save ok (pause r rt)) st)"

definition store_signed ::
  "validator_config \<Rightarrow> log_replies \<Rightarrow> submission_record \<Rightarrow> bytes32 \<Rightarrow> batch \<Rightarrow> bool option \<times> batch" where
  "store_signed vc lr rc emitted_id st =
     (if emitted_id \<in> set (bt_stored st) then withheld rc st
      else case lr_sign lr emitted_id of
        None \<Rightarrow> (None, st)
      | Some sig \<Rightarrow>
          let s = \<lparr>ss_signer = vc_signer vc, ss_signature = sig\<rparr>;
              st = st\<lparr>bt_posted := bt_posted st @ [(rc, s)]\<rparr> in
          if lr_upsert lr rc s then withheld rc (st\<lparr>bt_stored := emitted_id # bt_stored st\<rparr>)
          else (None, st))"

definition handle_log ::
  "validator_config \<Rightarrow> allowlist option \<Rightarrow> log_replies \<Rightarrow> evm_log \<Rightarrow> batch \<Rightarrow> bool option \<times> batch" where
  "handle_log vc allow lr l st =
     (case vc_decode vc l of
        None \<Rightarrow> (None, st)
      | Some sl \<Rightarrow>
      (case record_from_sent_event (vc_hex vc) sl (vc_bridge_domain vc) of
         None \<Rightarrow> (Some True, st)
       | Some rc \<Rightarrow>
      (let cf = rc_chain_id_from rc; ct = rc_chain_id_to rc; nonce = rc_nonce rc; rt = bt_runtime st;
           ev = sl_event sl in
       case check_nonce rt cf ct nonce of
         Missed \<Rightarrow>
           stopped (lr_save lr) (MissedNonce cf ct
             (case last_nonce rt cf ct of Some n \<Rightarrow> n + 1 | None \<Rightarrow> 0) nonce) st
       | Duplicated \<Rightarrow>
           stopped (lr_save lr) (DuplicatedNonce cf ct
             (case last_nonce rt cf ct of Some n \<Rightarrow> n | None \<Rightarrow> 0) nonce) st
       | Accept \<Rightarrow>
      (case from_sent_event (vc_abi vc) ev (vc_bridge_domain vc) of
         None \<Rightarrow> withheld rc st
       | Some sub \<Rightarrow>
           if compute_id (vc_keccak vc) sub \<noteq> sl_submission_id sl
           then stopped (lr_save lr) (IdMismatch (sl_submission_id sl)) st
           else if \<not> check_storable rc then withheld rc st
           else if (case allow of
                 None \<Rightarrow> False
               | Some al \<Rightarrow> \<not> token_allowed al (rstr ''0x'' @ vc_hex vc (arr_bytes (es_debridge_id ev))) \<or>
                   \<not> chain_allowed al cf ct)
           then withheld rc st
           else case lr_verdict lr (es_bridge_decimals ev) ct (es_debridge_id ev) of
             None \<Rightarrow> (None, st)
           | Some (Agree _) \<Rightarrow> store_signed vc lr rc (sl_submission_id sl) st
           | Some _ \<Rightarrow> withheld rc st))))"

section \<open>One turn\<close>

text \<open>How the loop over the logs of a window ended.\<close>

datatype batch_end = Done | PausedEnd | FailedEnd

fun handle_logs ::
  "validator_config \<Rightarrow> allowlist option \<Rightarrow> (nat \<Rightarrow> log_replies) \<Rightarrow> nat \<Rightarrow> evm_log list \<Rightarrow> batch \<Rightarrow>
   batch_end \<times> batch" where
  "handle_logs vc allow lr i [] st = (Done, st)"
| "handle_logs vc allow lr i (l # ls) st =
     (case handle_log vc allow (lr i) l st of
        (Some True, st) \<Rightarrow> handle_logs vc allow lr (Suc i) ls st
      | (Some False, st) \<Rightarrow> (PausedEnd, st)
      | (None, st) \<Rightarrow> (FailedEnd, st))"

definition finish_batch ::
  "batch_end \<Rightarrow> (u64 \<Rightarrow> (u64 \<Rightarrow> u64 option) option) \<Rightarrow> u64 \<Rightarrow> bool \<Rightarrow> runtime \<Rightarrow> runtime" where
  "finish_batch be nonces_before scanned_to ok rt =
     save ok (if be \<noteq> Done then restore_nonces nonces_before rt
              else upd_persist (\<lambda>p. p\<lparr>ps_last_block := scanned_to\<rparr>) rt)"

text \<open>The loop's own state: the runtime, the pool, the cached head, the window size, the progress.\<close>

record scan_state =
  sn_runtime :: runtime
  sn_failover :: failover
  sn_cached :: "u64 option"
  sn_streak :: nat
  sn_cap :: u64
  sn_progress_from :: "u64 option"
  sn_stored :: "bytes32 list"
  sn_posted :: "(submission_record \<times> signer_sig) list"

record turn_replies =
  tn_heads :: replies
  tn_window :: replies
  tn_allow :: "allowlist_view option"
  tn_logs :: "nat \<Rightarrow> log_replies"
  tn_save :: bool

definition for_window :: "u64 \<Rightarrow> scan_state \<Rightarrow> scan_state" where
  "for_window from_block s =
     (if sn_progress_from s \<noteq> Some from_block
      then s\<lparr>sn_progress_from := Some from_block, sn_stored := []\<rparr> else s)"

text \<open>The sort key, the pair of block and index, as a number.\<close>

definition by_position :: "evm_log \<Rightarrow> nat" where
  "by_position l = unat (unwrap_or_default (lg_block l)) * 2 ^ 64 + unat (unwrap_or_default (lg_index l))"

text \<open>What happens to the logs of a window that may be used.\<close>

definition process_window ::
  "validator_config \<Rightarrow> turn_replies \<Rightarrow> u64 \<Rightarrow> u64 \<Rightarrow> evm_log list \<Rightarrow> scan_state \<Rightarrow> scan_state" where
  "process_window vc tn from_block scanned_to ls s =
     (let ls = live_logs (sort_key by_position ls) in
      case dedupe_logs ls of
        (Inl _, _) \<Rightarrow> s
      | (Inr _, ls) \<Rightarrow>
      (case tn_allow tn of
         None \<Rightarrow> s
       | Some view \<Rightarrow>
      (case policy_check (vc_policy vc) view of
         Inl _ \<Rightarrow> s
       | Inr allow \<Rightarrow>
           let nonces_before = ps_nonces (rt_persist (sn_runtime s));
               s = for_window from_block s;
               (be, b) = handle_logs vc allow (tn_logs tn) 0 ls
                 \<lparr>bt_runtime = sn_runtime s, bt_stored = sn_stored s, bt_posted = sn_posted s\<rparr> in
           s\<lparr>sn_runtime := finish_batch be nonces_before scanned_to (tn_save tn) (bt_runtime b),
             sn_stored := bt_stored b, sn_posted := bt_posted b\<rparr>)))"

definition refresh_head :: "validator_config \<Rightarrow> turn_replies \<Rightarrow> u64 \<Rightarrow> scan_state \<Rightarrow> bool \<times> scan_state" where
  "refresh_head vc tn from_block s =
     (if (case sn_cached s of None \<Rightarrow> True | Some l \<Rightarrow> from_block + vc_block_confirmation vc > l)
      then
        (case scan_head (tn_heads tn) (sn_failover s) of
           (Some v, fo) \<Rightarrow> (True, s\<lparr>sn_cached := Some v, sn_failover := fo\<rparr>)
         | (None, fo) \<Rightarrow> (False, s\<lparr>sn_failover := fo\<rparr>))
      else (True, s))"

definition scan_turn :: "validator_config \<Rightarrow> turn_replies \<Rightarrow> scan_state \<Rightarrow> scan_state" where
  "scan_turn vc tn s =
     (if ps_paused (rt_persist (sn_runtime s)) then s
      else
        let from_block = next_block (sn_runtime s) in
        case refresh_head vc tn from_block s of
          (False, s) \<Rightarrow> s
        | (True, s) \<Rightarrow>
        (let confirmed = sat_sub (case sn_cached s of Some l \<Rightarrow> l | None \<Rightarrow> 0) (vc_block_confirmation vc) in
         if confirmed < from_block then s
         else
           let to_block = min confirmed (from_block + sn_cap s - 1) in
           case get_logs_corroborated (tn_window tn) from_block to_block (vc_block_confirmation vc) (sn_failover s) of
             (None, fo) \<Rightarrow> s\<lparr>sn_failover := fo\<rparr>
           | (Some None, fo) \<Rightarrow> s\<lparr>sn_failover := fo, sn_cached := None\<rparr>
           | (Some (Some (ls, scanned_to, v)), fo) \<Rightarrow>
               let s = s\<lparr>sn_failover := fo\<rparr> in
               (case v of
                  Agreed _ \<Rightarrow> process_window vc tn from_block scanned_to ls
                    (s\<lparr>sn_streak := 0,
                       sn_cap := min (if unat (sn_cap s) * 2 < 2 ^ 64 then sn_cap s * 2 else - 1) (max (vc_max_block_range vc) 1)\<rparr>)
                | Disagreed _ _ \<Rightarrow> s\<lparr>sn_streak := 0\<rparr>
                | Inconclusive \<Rightarrow> s\<lparr>sn_streak := min (sn_streak s + 1) (2 ^ 32 - 1), sn_cap := max (sn_cap s div 2) 1\<rparr>
                | Unavailable \<Rightarrow>
                    if vc_require_corroboration vc then s else process_window vc tn from_block scanned_to ls s)))"

end
