(* ===== verification/ValidatorReads.thy ===== *)
theory ValidatorReads
  imports ValidatorLogs
begin

text \<open>What the validator may conclude from several endpoints of which one lies.\<close>

section \<open>Point reads and heads\<close>

lemma length_filter_rev_sort: "length (filter P (rev (sort xs))) = length (filter P xs)"
  by (metis length_rev mset_filter mset_rev mset_sort size_mset)

lemma majority_floor_counts:
  assumes "majority_floor xs = Some x"
  shows "length xs < 2 * length (filter (\<lambda>v. x \<le> v) xs)" "2 * length (filter (\<lambda>v. x < v) xs) \<le> length xs"
    "x \<in> set xs"
proof -
  let ?d = "rev (sort xs)" and ?k = "length xs div 2"
  have ne: "xs \<noteq> []" and x: "x = ?d ! ?k" using assms by (auto simp: majority_floor_def split: if_splits)
  have k: "?k < length ?d" using ne by simp
  have so: "sorted (rev ?d)" by simp
  have hi: "x \<le> v" if "v \<in> set (take (Suc ?k) ?d)" for v
    using that k so unfolding x by (auto simp: in_set_conv_nth less_Suc_eq_le intro!: sorted_rev_nth_mono)
  have lo: "v \<le> x" if "v \<in> set (drop ?k ?d)" for v
    using that k so unfolding x by (auto simp: in_set_conv_nth intro!: sorted_rev_nth_mono)
  have "Suc ?k = length (filter (\<lambda>v. x \<le> v) (take (Suc ?k) ?d))"
    using hi k by (simp add: filter_id_conv [THEN iffD2] Suc_leI)
  also have "\<dots> \<le> length (filter (\<lambda>v. x \<le> v) ?d)"
    by (metis append_take_drop_id filter_append le_add1 length_append)
  finally show "length xs < 2 * length (filter (\<lambda>v. x \<le> v) xs)" by (simp add: length_filter_rev_sort)
  have "filter (\<lambda>v. x < v) (drop ?k ?d) = []" using lo by (fastforce simp: filter_empty_conv not_less)
  then have "filter (\<lambda>v. x < v) ?d = filter (\<lambda>v. x < v) (take ?k ?d)"
    by (metis append_take_drop_id append_Nil2 filter_append)
  then have "length (filter (\<lambda>v. x < v) ?d) \<le> ?k" by (metis length_filter_le length_take min.bounded_iff)
  then show "2 * length (filter (\<lambda>v. x < v) xs) \<le> length xs" by (simp add: length_filter_rev_sort)
  show "x \<in> set xs" using nth_mem [OF k] unfolding x by simp
qed

text \<open>
  What the validator takes from several endpoints is what most of them said. A point
  read returns a value exactly when at least the required number of endpoints and a
  strict majority of those that answered gave it, whatever their order; a head is the
  highest value that a strict majority reported or passed, so neither an inflated nor a
  stuck minority moves it.
\<close>

theorem reads_are_majorities:
  fixes heads :: "u64 list"
  shows "(majority answers m = Inr v \<longleftrightarrow> m \<le> backers answers v \<and> length answers < 2 * backers answers v) \<and>
    (majority_floor heads = Some h \<longleftrightarrow>
      h \<in> set heads \<and> length heads < 2 * length (filter (\<lambda>x. h \<le> x) heads) \<and>
      2 * length (filter (\<lambda>x. h < x) heads) \<le> length heads)"
proof
  show "majority answers m = Inr v \<longleftrightarrow> m \<le> backers answers v \<and> length answers < 2 * backers answers v"
    by (rule majority_Inr_iff)
  show "majority_floor heads = Some h \<longleftrightarrow>
      h \<in> set heads \<and> length heads < 2 * length (filter (\<lambda>x. h \<le> x) heads) \<and>
      2 * length (filter (\<lambda>x. h < x) heads) \<le> length heads" (is "?l \<longleftrightarrow> ?r")
  proof
    assume ?l
    from majority_floor_counts [OF this] show ?r by simp
  next
    assume r: ?r
    then have "heads \<noteq> []" by auto
    then obtain g where g: "majority_floor heads = Some g" by (simp add: majority_floor_def)
    note c = majority_floor_counts [OF g]
    have mono: "length (filter (\<lambda>x. b \<le> x) heads) \<le> length (filter (\<lambda>x. a < x) heads)" if "a < b" for a b :: u64
    proof -
      have "filter (\<lambda>x. b \<le> x) heads = filter (\<lambda>x. b \<le> x) (filter (\<lambda>x. a < x) heads)"
        using that by (auto intro!: filter_cong)
      then show ?thesis by (metis length_filter_le)
    qed
    have "\<not> g < h" using mono [of g h] r c by linarith
    moreover have "\<not> h < g" using mono [of h g] r c by linarith
    ultimately show ?l using g by simp
  qed
qed

section \<open>Windows of logs\<close>

text \<open>
  An endpoint is honest about a window when, if it answers, the logs it returns are those
  of the chain.
\<close>

definition honest :: "replies \<Rightarrow> (u64 \<Rightarrow> u64 \<Rightarrow> log_key multiset) \<Rightarrow> nat \<Rightarrow> bool" where
  "honest rq chain i \<longleftrightarrow> (\<forall>a e ls. rq_logs rq i a e = Some ls \<longrightarrow> log_bag ls = chain a e)"

lemma agreed_window_parts:
  assumes "get_logs_corroborated rq a b c fo = (Some (Some (served, e, Agreed by)), fo')"
    and "\<And>i. i \<noteq> liar \<Longrightarrow> honest rq chain i"
  shows "log_bag served = chain a e \<and> duplicate_positions served = 0 \<and> e \<le> b \<and>
    (\<exists>s h ph. s \<noteq> by \<and> rq_head rq 0 s = Some h \<and> e \<le> sat_sub h c \<and> rq_head rq 1 by = Some ph \<and> e \<le> sat_sub ph c)"
proof -
  obtain s h ls where c: "rq_head rq 0 s = Some h" "rq_logs rq s a e = Some served" "e \<le> b" "e \<le> sat_sub h c"
    "duplicate_positions served = 0" "rq_logs rq by a e = Some ls" "log_bag ls = log_bag served" "by \<noteq> s"
    "\<exists>ph. rq_head rq 1 by = Some ph \<and> e \<le> sat_sub ph c"
    by (rule corroborated_agreed [OF assms(1)])
  have "s \<noteq> liar \<or> by \<noteq> liar" using c(8) by auto
  then have "log_bag served = chain a e" using assms(2) c(2,6,7) unfolding honest_def by metis
  moreover obtain ph where "rq_head rq 1 by = Some ph" "e \<le> sat_sub ph c" using c(9) by blast
  ultimately show ?thesis
    using c(1,3,4,5,8) by (intro conjI exI [of _ s] exI [of _ h] exI [of _ ph]) auto
qed

lemma agreed_window_logs:
  assumes "get_logs_corroborated rq a b c fo = (Some (Some (served, e, Agreed by)), fo')"
    and "\<And>i. i \<noteq> liar \<Longrightarrow> honest rq chain i"
  shows "log_bag served = chain a e"
  using agreed_window_parts [OF assms] by simp

text \<open>
  C26. A window is never signed on one endpoint's word. Whoever serves it, and whatever
  it claims about its own head, if at most one endpoint of the pool lies then the logs
  of an agreed window are exactly those of the chain: none fabricated, none hidden, none
  repeated; and the window ends below the confirmed head of two endpoints.
\<close>

theorem agreed_window_true:
  assumes "get_logs_corroborated rq a b c fo = (Some (Some (served, e, Agreed by)), fo')"
    and "\<And>i. i \<noteq> liar \<Longrightarrow> honest rq chain i"
  shows "log_bag served = chain a e \<and> duplicate_positions served = 0 \<and> e \<le> b \<and>
    (\<exists>s h ph. s \<noteq> by \<and> rq_head rq 0 s = Some h \<and> e \<le> sat_sub h c \<and> rq_head rq 1 by = Some ph \<and> e \<le> sat_sub ph c)"
  by (rule agreed_window_parts [OF assms])

end
