(* ===== verification/ValidatorScanProps.thy ===== *)
theory ValidatorScanProps
  imports ValidatorScan ValidatorReads
begin

text \<open>
  What the EVM validator signs, when its cursor moves, and when it stops. The lemmas follow
  the calls of the loop inwards: a turn, a window, a batch, an event.
\<close>

section \<open>The parts of a turn\<close>

text \<open>A turn that reads nothing it may use leaves the runtime and the store alone.\<close>

definition idle :: "scan_state \<Rightarrow> scan_state \<Rightarrow> bool" where
  "idle s s' \<longleftrightarrow> sn_runtime s' = sn_runtime s \<and> sn_posted s' = sn_posted s \<and> sn_stored s' = sn_stored s"

definition usable :: "validator_config \<Rightarrow> corroboration \<Rightarrow> bool" where
  "usable vc v \<longleftrightarrow> (case v of Agreed _ \<Rightarrow> True | Unavailable \<Rightarrow> \<not> vc_require_corroboration vc | _ \<Rightarrow> False)"

definition same_progress :: "scan_state \<Rightarrow> scan_state \<Rightarrow> bool" where
  "same_progress s s' \<longleftrightarrow> idle s s' \<and> sn_progress_from s' = sn_progress_from s"

lemma refresh_head_same: "refresh_head vc tn a s = (ok, s') \<Longrightarrow> same_progress s s' \<and> sn_cap s' = sn_cap s"
  by (auto simp: refresh_head_def same_progress_def idle_def split: if_splits option.splits prod.splits)

text \<open>The end of a window that was read lies in the window that was asked for.\<close>

lemma clamp_between: "clamp_scan_window a b h c = Some e \<Longrightarrow> a \<le> b \<Longrightarrow> a \<le> e \<and> e \<le> b"
  by (auto simp: clamp_scan_window_def Let_def split: if_splits)

lemma window_between:
  assumes "get_logs_corroborated rq a b c fo = (Some (Some (ls, e, v)), fo')" "a \<le> b"
  shows "a \<le> e \<and> e \<le> b"
proof -
  obtain q fo1 where q: "get_block_number rq fo = (q, fo1)" by fastforce
  then obtain h where h: "get_block_number rq fo = (Some h, fo1)"
    using assms(1) by (cases q) (auto simp: get_logs_corroborated_def)
  obtain st where st: "clamp_scan_window a b h c = Some st"
    using assms(1) by (auto simp: get_logs_corroborated_def h Let_def split: option.splits if_splits)
  have "e = st \<or> (\<exists>heads. corroborated_window_end a st heads c = Some e)"
    using assms(1) by (auto simp: get_logs_corroborated_def h st Let_def split: option.splits if_splits tally.splits)
  moreover note s = clamp_between [OF st assms(2)]
  moreover have "a \<le> e \<and> e \<le> st" if "corroborated_window_end a st heads c = Some e" for heads
    using find_map_Some [OF that [unfolded corroborated_window_end_def]] clamp_between [of a st _ c e] s by auto
  ultimately show ?thesis by (meson order_trans)
qed

lemma scan_turn_cap: "0 < sn_cap s \<Longrightarrow> 0 < sn_cap (scan_turn vc tn s)"
proof -
  assume c: "0 < sn_cap s"
  have p: "sn_cap (process_window vc tn a e ls u) = sn_cap u" for a e ls u
    by (auto simp: process_window_def for_window_def Let_def split: sum.splits option.splits prod.splits)
  have d: "0 < min (if unat (sn_cap s) * 2 < 2 ^ 64 then sn_cap s * 2 else - 1) (max (vc_max_block_range vc) 1)"
  proof -
    have "0 < sn_cap s * 2" if "unat (sn_cap s) * 2 < 2 ^ 64"
    proof -
      have "unat (sn_cap s * 2) = unat (sn_cap s) * 2" using that by (simp add: unat_word_ariths)
      moreover have "0 < unat (sn_cap s)" using c by (simp add: word_less_nat_alt)
      ultimately show ?thesis by (simp add: word_less_nat_alt)
    qed
    moreover have "(0 :: u64) < max (vc_max_block_range vc) 1" by (rule less_le_trans [of _ 1]) simp_all
    ultimately show ?thesis by (simp add: word_gt_0)
  qed
  have h: "0 < max (sn_cap s div 2) 1" by (rule less_le_trans [of _ 1]) simp_all
  obtain ok s0 where r: "refresh_head vc tn (next_block (sn_runtime s)) s = (ok, s0)" by fastforce
  have s0: "sn_cap s0 = sn_cap s" using refresh_head_same [OF r] by simp
  show ?thesis
    using c d h
    by (auto simp: scan_turn_def r Let_def p s0 split: bool.splits option.splits prod.splits corroboration.splits simp del: max_def min_def)
qed

lemma scan_turn_cases:
  obtains "idle s (scan_turn vc tn s)"
  | ls e v s1 fo fo' b where "\<not> ps_paused (rt_persist (sn_runtime s))"
      "b \<le> next_block (sn_runtime s) + sn_cap s - 1"
      "next_block (sn_runtime s) \<le> next_block (sn_runtime s) + sn_cap s - 1 \<longrightarrow> next_block (sn_runtime s) \<le> b"
      "get_logs_corroborated (tn_window tn) (next_block (sn_runtime s)) b (vc_block_confirmation vc) fo =
         (Some (Some (ls, e, v)), fo')"
      "usable vc v" "same_progress s s1"
      "scan_turn vc tn s = process_window vc tn (next_block (sn_runtime s)) e ls s1"
proof (cases "ps_paused (rt_persist (sn_runtime s))")
  case True
  then show ?thesis using that(1) by (simp add: scan_turn_def idle_def)
next
  case np: False
  define a where "a = next_block (sn_runtime s)"
  obtain ok s0 where r: "refresh_head vc tn a s = (ok, s0)" by fastforce
  note same = refresh_head_same [OF r, THEN conjunct1]
  let ?c = "sat_sub (case sn_cached s0 of Some l \<Rightarrow> l | None \<Rightarrow> 0) (vc_block_confirmation vc)"
  let ?b = "min ?c (a + sn_cap s0 - 1)"
  show ?thesis
  proof (cases "\<not> ok \<or> ?c < a")
    case True
    then have "scan_turn vc tn s = s0" using np r by (auto simp: scan_turn_def Let_def a_def split: bool.splits)
    then show ?thesis using that(1) same by (simp add: same_progress_def)
  next
    case False
    obtain g fo' where g: "get_logs_corroborated (tn_window tn) a ?b (vc_block_confirmation vc) (sn_failover s0) = (g, fo')"
      by fastforce
    have cap: "sn_cap s0 = sn_cap s" using refresh_head_same [OF r] by simp
    have b1: "?b \<le> next_block (sn_runtime s) + sn_cap s - 1" by (simp add: a_def cap)
    have b2: "next_block (sn_runtime s) \<le> next_block (sn_runtime s) + sn_cap s - 1 \<longrightarrow> next_block (sn_runtime s) \<le> ?b"
      using False by (simp add: a_def cap not_less)
    have t: "scan_turn vc tn s = (case (g, fo') of (None, fo) \<Rightarrow> s0\<lparr>sn_failover := fo\<rparr>
           | (Some None, fo) \<Rightarrow> s0\<lparr>sn_failover := fo, sn_cached := None\<rparr>
           | (Some (Some (ls, scanned_to, v)), fo) \<Rightarrow>
               let s = s0\<lparr>sn_failover := fo\<rparr> in
               (case v of
                  Agreed _ \<Rightarrow> process_window vc tn a scanned_to ls
                    (s\<lparr>sn_streak := 0,
                       sn_cap := min (if unat (sn_cap s) * 2 < 2 ^ 64 then sn_cap s * 2 else - 1) (max (vc_max_block_range vc) 1)\<rparr>)
                | Disagreed _ _ \<Rightarrow> s\<lparr>sn_streak := 0\<rparr>
                | Inconclusive \<Rightarrow> s\<lparr>sn_streak := min (sn_streak s + 1) (2 ^ 32 - 1), sn_cap := max (sn_cap s div 2) 1\<rparr>
                | Unavailable \<Rightarrow>
                    if vc_require_corroboration vc then s else process_window vc tn a scanned_to ls s))"
      using np False r unfolding scan_turn_def Let_def a_def [symmetric] r g by (simp add: g cong: if_cong)
    have idle: "idle s (s0\<lparr>sn_failover := f, sn_cached := c\<rparr>)" "idle s (s0\<lparr>sn_failover := f\<rparr>)"
      "idle s (s0\<lparr>sn_failover := f, sn_streak := k\<rparr>)" "idle s (s0\<lparr>sn_failover := f, sn_streak := k, sn_cap := m\<rparr>)"
      for f c k m
      using same by (auto simp: same_progress_def idle_def)
    have go: "same_progress s (s0\<lparr>sn_failover := f, sn_streak := k, sn_cap := m\<rparr>)" "same_progress s (s0\<lparr>sn_failover := f\<rparr>)"
      for f k m
      using same by (auto simp: same_progress_def idle_def)
    show ?thesis
    proof (cases g)
      case None
      then show ?thesis using that(1) t idle by simp
    next
      case (Some w)
      show ?thesis
      proof (cases w)
        case None
        then show ?thesis using that(1) t idle Some by simp
      next
        case w: (Some x)
        obtain ls e v where x: "x = (ls, e, v)" by (cases x)
        note g' = g [unfolded Some w x]
        note w' = that(2) [OF np b1 [unfolded a_def] b2 [unfolded a_def] g' [unfolded a_def]]
        show ?thesis
        proof (cases "usable vc v")
          case True
          then show ?thesis
            using w' [OF True go(1)] w' [OF True go(2)] t unfolding Some w x a_def
            by (auto simp: usable_def Let_def split: corroboration.splits)
        next
          case False
          then show ?thesis using that(1) t idle Some w x
            by (auto simp: usable_def Let_def split: corroboration.splits if_splits)
        qed
      qed
    qed
  qed
qed

lemma dedupe_loop_subset: "dedupe_loop seen c ls = (kept, c') \<Longrightarrow> set kept \<subseteq> set ls"
  by (induction seen c ls arbitrary: kept c' rule: dedupe_loop.induct)
    (auto simp: Let_def split: option.splits if_splits prod.splits, blast+)

lemma dedupe_logs_subset: "dedupe_logs ls = (r, kept) \<Longrightarrow> set kept \<subseteq> set ls"
  by (auto simp: dedupe_logs_def split: prod.splits option.splits dest!: dedupe_loop_subset)

text \<open>Of every log that is dropped, a copy is kept.\<close>

lemma dedupe_loop_keeps:
  "dedupe_loop seen c ls = (kept, c') \<Longrightarrow> log_key ` set ls \<subseteq> log_key ` set kept \<union> ran seen"
proof (induction seen c ls arbitrary: kept c' rule: dedupe_loop.induct)
  case (2 seen conflict l ls)
  show ?case
  proof (cases "seen (log_pos l)")
    case None
    obtain k2 c2 where r: "dedupe_loop (seen(log_pos l \<mapsto> log_key l)) conflict ls = (k2, c2)" by fastforce
    have "log_key ` set ls \<subseteq> log_key ` set k2 \<union> ran (seen(log_pos l \<mapsto> log_key l))" by (rule 2(1) [OF None r])
    then show ?thesis using 2(4) None r by (auto simp: ran_map_upd)
  next
    case (Some k)
    show ?thesis
    proof (cases "k = log_key l")
      case True
      have "log_key l \<in> ran seen" using Some True by (auto intro: ranI)
      moreover have "log_key ` set ls \<subseteq> log_key ` set kept \<union> ran seen"
        using 2(2) [OF Some True] 2(4) Some True by simp
      ultimately show ?thesis by simp
    next
      case False
      let ?c = "case conflict of None \<Rightarrow> Some (log_pos l) | Some p \<Rightarrow> Some p"
      obtain k2 c2 where r: "dedupe_loop seen ?c ls = (k2, c2)" by fastforce
      show ?thesis using 2(3) [OF Some False r] 2(4) Some False r by auto
    qed
  qed
qed simp

lemma dedupe_logs_keeps: "dedupe_logs ls = (r, kept) \<Longrightarrow> log_key ` set ls \<subseteq> log_key ` set kept"
  by (auto simp: dedupe_logs_def split: prod.splits option.splits dest!: dedupe_loop_keeps)

text \<open>Without a conflict no position is kept twice.\<close>

lemma dedupe_loop_conflict: "dedupe_loop seen (Some p) ls = (kept, c) \<Longrightarrow> c \<noteq> None"
  by (induction seen "Some p" ls arbitrary: p kept c rule: dedupe_loop.induct)
    (auto simp: Let_def split: option.splits if_splits prod.splits)

lemma dedupe_loop_distinct:
  "dedupe_loop seen None ls = (kept, None) \<Longrightarrow>
   distinct (map log_pos kept) \<and> (\<forall>l \<in> set kept. seen (log_pos l) = None)"
proof (induction seen "None :: log_pos option" ls arbitrary: kept rule: dedupe_loop.induct)
  case (2 seen l ls)
  show ?case
  proof (cases "seen (log_pos l)")
    case None
    obtain k2 c2 where r: "dedupe_loop (seen(log_pos l \<mapsto> log_key l)) None ls = (k2, c2)" by fastforce
    then have k: "kept = l # k2" "c2 = None" using 2(4) None by auto
    note ih = 2(1) [OF None r [unfolded k(2)]]
    then have "\<And>m. m \<in> set k2 \<Longrightarrow> log_pos m \<noteq> log_pos l \<and> seen (log_pos m) = None"
      by (metis fun_upd_apply option.simps(3))
    then show ?thesis using ih None by (force simp: k(1))
  next
    case (Some k)
    show ?thesis
    proof (cases "k = log_key l")
      case True
      then show ?thesis using 2(2) [OF Some True] 2(4) Some by simp
    next
      case False
      obtain k2 c2 where r: "dedupe_loop seen (Some (log_pos l)) ls = (k2, c2)" by fastforce
      then show ?thesis using 2(4) Some False dedupe_loop_conflict [OF r] by simp
    qed
  qed
qed simp

lemma dedupe_logs_distinct: "dedupe_logs ls = (Inr n, kept) \<Longrightarrow> distinct (map log_pos kept)"
  using dedupe_loop_distinct by (auto simp: dedupe_logs_def split: prod.splits option.splits)

lemma process_window_cases:
  obtains "idle s (process_window vc tn a e ls s)"
  | ls' view allow be b where "set ls' \<subseteq> set (live_logs ls)"
      "log_key ` set (live_logs ls) \<subseteq> log_key ` set ls'" "distinct (map log_pos ls')" "tn_allow tn = Some view"
      "policy_check (vc_policy vc) view = Inr allow"
      "handle_logs vc allow (tn_logs tn) 0 ls'
         \<lparr>bt_runtime = sn_runtime s, bt_stored = sn_stored (for_window a s), bt_posted = sn_posted s\<rparr> = (be, b)"
      "sn_runtime (process_window vc tn a e ls s) =
         finish_batch be (ps_nonces (rt_persist (sn_runtime s))) e (tn_save tn) (bt_runtime b)"
      "sn_stored (process_window vc tn a e ls s) = bt_stored b"
      "sn_posted (process_window vc tn a e ls s) = bt_posted b"
proof -
  let ?l = "live_logs (sort_key by_position ls)"
  obtain r ls' where d: "dedupe_logs ?l = (r, ls')" by fastforce
  have sub: "set ls' \<subseteq> set (live_logs ls)" using dedupe_logs_subset [OF d] by (auto simp: live_logs_def)
  have keep: "log_key ` set (live_logs ls) \<subseteq> log_key ` set ls'"
    using dedupe_logs_keeps [OF d] by (auto simp: live_logs_def)
  have f: "sn_runtime (for_window a s) = sn_runtime s" "sn_posted (for_window a s) = sn_posted s"
    by (simp_all add: for_window_def)
  show ?thesis
  proof (cases r)
    case Inl
    then show ?thesis using that(1) d by (simp add: process_window_def idle_def)
  next
    case (Inr n)
    show ?thesis
    proof (cases "tn_allow tn")
      case None
      then show ?thesis using that(1) d Inr by (simp add: process_window_def idle_def)
    next
      case (Some view)
      show ?thesis
      proof (cases "policy_check (vc_policy vc) view")
        case Inl
        then show ?thesis using that(1) d Inr Some by (simp add: process_window_def idle_def)
      next
        case i: (Inr allow)
        obtain be b where h: "handle_logs vc allow (tn_logs tn) 0 ls'
         \<lparr>bt_runtime = sn_runtime s, bt_stored = sn_stored (for_window a s), bt_posted = sn_posted s\<rparr> = (be, b)" by fastforce
        show ?thesis by (rule that(2) [OF sub keep dedupe_logs_distinct [OF d [unfolded Inr]] Some i h]) (simp_all add: process_window_def d Inr Some i h f Let_def)
      qed
    qed
  qed
qed

section \<open>What is posted\<close>

text \<open>The checks an event passes before its record is posted with a signature.\<close>

definition vouched ::
  "validator_config \<Rightarrow> allowlist option \<Rightarrow> log_replies \<Rightarrow> evm_log \<Rightarrow> submission_record \<Rightarrow> signer_sig \<Rightarrow> bool" where
  "vouched vc allow lr l rc sg \<longleftrightarrow>
     (\<exists>sl sub d. vc_decode vc l = Some sl \<and>
        record_from_sent_event (vc_hex vc) sl (vc_bridge_domain vc) = Some rc \<and>
        from_sent_event (vc_abi vc) (sl_event sl) (vc_bridge_domain vc) = Some sub \<and>
        compute_id (vc_keccak vc) sub = sl_submission_id sl \<and> check_storable rc \<and>
        (\<forall>al. allow = Some al \<longrightarrow>
           token_allowed al (rstr ''0x'' @ vc_hex vc (arr_bytes (es_debridge_id (sl_event sl)))) \<and>
           chain_allowed al (rc_chain_id_from rc) (rc_chain_id_to rc)) \<and>
        lr_verdict lr (es_bridge_decimals (sl_event sl)) (rc_chain_id_to rc) (es_debridge_id (sl_event sl)) = Some (Agree d) \<and>
        lr_sign lr (sl_submission_id sl) = Some (ss_signature sg) \<and> ss_signer sg = vc_signer vc)"

lemma upd_runtime_posted: "bt_posted (upd_runtime f st) = bt_posted st" "bt_stored (upd_runtime f st) = bt_stored st"
  by (simp_all add: upd_runtime_def)

lemma withheld_posted: "bt_posted (snd (withheld rc st)) = bt_posted st"
  by (simp add: withheld_def upd_runtime_posted)

lemma handle_log_posted:
  assumes "(rc, sg) \<in> set (bt_posted (snd (handle_log vc allow lr l st)))" "(rc, sg) \<notin> set (bt_posted st)"
  shows "vouched vc allow lr l rc sg"
  using assms unfolding handle_log_def vouched_def stopped_def store_signed_def
  by (auto simp: Let_def upd_runtime_posted withheld_posted
      split: option.splits nonce_decision.splits if_splits verdict.splits)

lemma handle_logs_posted:
  assumes "handle_logs vc allow lr i ls st = (be, st')" "(rc, sg) \<in> set (bt_posted st')" "(rc, sg) \<notin> set (bt_posted st)"
  shows "\<exists>l \<in> set ls. \<exists>j. vouched vc allow (lr j) l rc sg"
  using assms
proof (induction vc allow lr i ls st rule: handle_logs.induct)
  case (2 vc allow lr i l ls st)
  obtain r st1 where h: "handle_log vc allow (lr i) l st = (r, st1)" by fastforce
  show ?case
  proof (cases "(rc, sg) \<in> set (bt_posted st1)")
    case True
    then have "vouched vc allow (lr i) l rc sg" using handle_log_posted [of rc sg vc allow "lr i" l st] h 2(4) by simp
    then show ?thesis by auto
  next
    case False
    then have "r = Some True" using 2(2,3) h by (auto split: option.splits bool.splits)
    then show ?thesis using 2(1) [OF h [symmetric]] 2(2,3) False h by auto
  qed
qed simp



section \<open>When the cursor moves\<close>

text \<open>An event that will not be signed has a reason; any other is posted and stored.\<close>

definition refused :: "validator_config \<Rightarrow> allowlist option \<Rightarrow> log_replies \<Rightarrow> sent_log \<Rightarrow> submission_record \<Rightarrow> bool" where
  "refused vc allow lr sl rc \<longleftrightarrow>
     from_sent_event (vc_abi vc) (sl_event sl) (vc_bridge_domain vc) = None \<or> \<not> check_storable rc \<or>
     (\<exists>al. allow = Some al \<and>
        \<not> (token_allowed al (rstr ''0x'' @ vc_hex vc (arr_bytes (es_debridge_id (sl_event sl)))) \<and>
           chain_allowed al (rc_chain_id_from rc) (rc_chain_id_to rc))) \<or>
     (\<exists>v. lr_verdict lr (es_bridge_decimals (sl_event sl)) (rc_chain_id_to rc) (es_debridge_id (sl_event sl)) = Some v \<and>
        (\<forall>d. v \<noteq> Agree d))"

definition settled ::
  "validator_config \<Rightarrow> allowlist option \<Rightarrow> log_replies \<Rightarrow> evm_log \<Rightarrow> bytes32 set \<Rightarrow> bool" where
  "settled vc allow lr l ids \<longleftrightarrow>
     (\<exists>sl. vc_decode vc l = Some sl \<and>
        (\<forall>rc. record_from_sent_event (vc_hex vc) sl (vc_bridge_domain vc) = Some rc \<longrightarrow>
           refused vc allow lr sl rc \<or> sl_submission_id sl \<in> ids))"

lemma settled_mono: "settled vc allow lr l ids \<Longrightarrow> ids \<subseteq> ids' \<Longrightarrow> settled vc allow lr l ids'"
  unfolding settled_def by blast

lemma store_signed_True:
  assumes "store_signed vc lr rc sid st = (r, st')"
  shows "set (bt_stored st) \<subseteq> set (bt_stored st')" "r = Some True \<Longrightarrow> sid \<in> set (bt_stored st')"
  using assms unfolding store_signed_def withheld_def
  by (auto simp: Let_def upd_runtime_posted split: option.splits if_splits)

lemma handle_log_stored:
  assumes "handle_log vc allow lr l st = (r, st')"
  shows "set (bt_stored st) \<subseteq> set (bt_stored st')"
    "r = Some True \<Longrightarrow> settled vc allow lr l (set (bt_stored st'))"
  using assms store_signed_True unfolding handle_log_def settled_def refused_def stopped_def withheld_def
  by (auto simp: Let_def upd_runtime_posted
      split: option.splits nonce_decision.splits if_splits verdict.splits)

lemma handle_logs_settled:
  "handle_logs vc allow lr i ls st = (Done, st') \<Longrightarrow>
   set (bt_stored st) \<subseteq> set (bt_stored st') \<and>
   (\<forall>j < length ls. settled vc allow (lr (i + j)) (ls ! j) (set (bt_stored st')))"
proof (induction vc allow lr i ls st rule: handle_logs.induct)
  case (2 vc allow lr i l ls st)
  obtain r st1 where h: "handle_log vc allow (lr i) l st = (r, st1)" by fastforce
  then have r: "r = Some True" using 2(2) by (auto split: option.splits bool.splits)
  note s = handle_log_stored [OF h]
  have ih: "set (bt_stored st1) \<subseteq> set (bt_stored st')"
    "\<And>j. j < length ls \<Longrightarrow> settled vc allow (lr (Suc i + j)) (ls ! j) (set (bt_stored st'))"
    using 2(1) [OF h [symmetric] r refl] 2(2) h r by auto
  have "settled vc allow (lr (i + j)) ((l # ls) ! j) (set (bt_stored st'))" if "j < length (l # ls)" for j
    using that ih(2) [of "j - 1"] settled_mono [OF s(2) [OF r] ih(1)] by (cases j) simp_all
  then show ?case using s(1) ih(1) by blast
qed simp

lemma handle_logs_stored:
  assumes "handle_logs vc allow lr i ls st = (be, st')"
  shows "set (bt_stored st) \<subseteq> set (bt_stored st')"
    "be = Done \<Longrightarrow> l \<in> set ls \<Longrightarrow> \<exists>j. settled vc allow (lr j) l (set (bt_stored st'))"
proof -
  have "set (bt_stored st) \<subseteq> set (bt_stored st') \<and>
    (be = Done \<longrightarrow> (\<forall>l \<in> set ls. \<exists>j. settled vc allow (lr j) l (set (bt_stored st'))))"
    using assms
  proof (induction vc allow lr i ls st rule: handle_logs.induct)
    case (2 vc allow lr i l ls st)
    obtain r st1 where h: "handle_log vc allow (lr i) l st = (r, st1)" by fastforce
    note k = handle_log_stored [OF h]
    show ?case
    proof (cases "r = Some True")
      case True
      then have rest: "handle_logs vc allow lr (Suc i) ls st1 = (be, st')" using 2(2) h by simp
      note ih = 2(1) [OF h [symmetric] True refl rest]
      have "settled vc allow (lr i) l (set (bt_stored st'))" using settled_mono [OF k(2) [OF True]] ih by simp
      then show ?thesis using ih k(1) by auto
    next
      case False
      then show ?thesis using 2(2) h k(1) by (auto split: option.splits bool.splits)
    qed
  qed simp
  then show "set (bt_stored st) \<subseteq> set (bt_stored st')"
    "be = Done \<Longrightarrow> l \<in> set ls \<Longrightarrow> \<exists>j. settled vc allow (lr j) l (set (bt_stored st'))" by auto
qed

end
