(* ===== verification/ValidatorDemo.thy ===== *)
theory ValidatorDemo
  imports ValidatorScanProps
begin

text \<open>
  A pool of three endpoints of which one hides every log, and a turn over a window with one
  transfer in it: the concrete inputs of the properties of the validator.
\<close>

section \<open>The pool and the window\<close>

definition demo_log :: evm_log where
  "demo_log = \<lparr>lg_block = Some 7, lg_index = Some 0, lg_tx = Some 4, lg_address = 9, lg_topics = [], lg_data = [],
     lg_removed = False\<rparr>"

definition demo_pool :: failover where "demo_pool = \<lparr>fo_count = 3, fo_active = 0\<rparr>"

definition demo_pool_replies :: replies where
  "demo_pool_replies = \<lparr>rq_head = (\<lambda>r i. Some 100), rq_logs = (\<lambda>i a b. Some (if i = 1 then [] else [demo_log]))\<rparr>"

definition demo_chain :: "u64 \<Rightarrow> u64 \<Rightarrow> log_key multiset" where
  "demo_chain a b = {#log_key demo_log#}"

lemma demo_bag: "log_bag [demo_log] = {#log_key demo_log#}" "log_bag [] = {#}"
  by (simp_all add: log_bag_def live_logs_def demo_log_def)

lemma demo_honest: "i \<noteq> 1 \<Longrightarrow> honest demo_pool_replies demo_chain i"
  by (simp add: honest_def demo_pool_replies_def demo_chain_def demo_bag)

lemma demo_peers:
  "List.map_filter (\<lambda>step. let idx = (0 + step) mod 3 in map_option (Pair idx) (rq_head demo_pool_replies 1 idx)) [1..<3] =
   [(1, 100), (2, 100)]"
  by (simp add: List.map_filter_def demo_pool_replies_def upt_rec)

lemma demo_window:
  "get_logs_corroborated demo_pool_replies 1 10 5 demo_pool = (Some (Some ([demo_log], 10, Agreed 2)), demo_pool)"
proof -
  have g: "get_block_number demo_pool_replies demo_pool = (Some 100, demo_pool)"
    using with_failover.simps(2) [of "rq_head demo_pool_replies 0" 2 0 0 demo_pool]
    by (simp add: get_block_number_def demo_pool_def demo_pool_replies_def Let_def)
  have c: "clamp_scan_window 1 10 100 5 = Some 10" by (simp add: clamp_scan_window_def Let_def sat_sub_def)
  have w: "corroborated_window_end 1 10 [100, 100] 5 = Some 10"
    by (simp add: corroborated_window_end_def c)
  have d: "duplicate_positions [demo_log] = 0"
    by (simp add: duplicate_positions_def live_logs_def demo_log_def)
  have a: "ask_peers demo_pool_replies 1 10 5 (log_bag [demo_log]) [(1, 100), (2, 100)] [] = [(1, []), (2, [demo_log])]"
    by (simp add: demo_pool_replies_def Let_def sat_sub_def demo_bag)
  have t: "tally [demo_log] [(1, []), (2, [demo_log])] = Some (TAgreed 2 1)"
    by (simp add: tally_def Let_def demo_bag)
  have f: "fo_count demo_pool = 3" "fo_active demo_pool = 0" by (simp_all add: demo_pool_def)
  have l: "rq_logs demo_pool_replies 0 1 10 = Some [demo_log]" by (simp add: demo_pool_replies_def)
  show ?thesis
    by (simp add: get_logs_corroborated_def g f c demo_peers [unfolded Let_def, simplified] w l d
        a [unfolded One_nat_def] t [unfolded One_nat_def] Let_def del: ask_peers.simps)
qed

theorem agreed_window_true_witness:
  "get_logs_corroborated demo_pool_replies 1 10 5 demo_pool = (Some (Some ([demo_log], 10, Agreed 2)), demo_pool) \<and>
   log_bag [demo_log] = demo_chain 1 10 \<and> duplicate_positions [demo_log] = 0"
  using agreed_window_true [OF demo_window demo_honest] demo_window by simp

section \<open>A turn\<close>

definition demo_evm_sent :: evm_sent where
  "demo_evm_sent = \<lparr>es_debridge_id = 3, es_bridge_decimals = 6, es_amount = 10, es_chain_id_from = 1, es_chain_id_to = 7,
     es_nonce = 0, es_receiver = [8], es_native_sender = [6], es_auto_params = []\<rparr>"

definition demo_sent_log :: sent_log where
  "demo_sent_log = \<lparr>sl_submission_id = 5, sl_event = demo_evm_sent, sl_token = 2\<rparr>"

text \<open>A hash and a hex coder that are enough for one transfer.\<close>

definition demo_validator :: validator_config where
  "demo_validator = \<lparr>vc_keccak = (\<lambda>_. 5), vc_abi = (\<lambda>_. None), vc_hex = (\<lambda>b. replicate (2 * length b) 48),
     vc_decode = (\<lambda>l. if l = demo_log then Some demo_sent_log else None), vc_signer = [49], vc_bridge_domain = 1,
     vc_block_confirmation = 5, vc_max_block_range = 100, vc_require_corroboration = True,
     vc_policy = \<lparr>ap_require = False, ap_pinned_tokens = [], ap_pinned_chains = []\<rparr>\<rparr>"

definition demo_log_replies :: log_replies where
  "demo_log_replies = \<lparr>lr_verdict = (\<lambda>d c t. Some (Agree d)), lr_sign = (\<lambda>_. Some [50]), lr_upsert = (\<lambda>_ _. True),
     lr_save = True\<rparr>"

definition demo_turn :: turn_replies where
  "demo_turn = \<lparr>tn_heads = demo_pool_replies, tn_window = demo_pool_replies, tn_allow = Some EmptyList,
     tn_logs = (\<lambda>_. demo_log_replies), tn_save = True\<rparr>"

definition demo_runtime :: runtime where
  "demo_runtime = \<lparr>rt_persist = fresh_persist 1, rt_file = None\<rparr>"

definition demo_scan :: scan_state where
  "demo_scan = \<lparr>sn_runtime = demo_runtime, sn_failover = demo_pool, sn_cached = Some 15, sn_streak = 0, sn_cap = 100,
     sn_progress_from = None, sn_stored = [], sn_posted = []\<rparr>"

definition demo_record :: submission_record where
  "demo_record = the (record_from_sent_event (vc_hex demo_validator) demo_sent_log 1)"

lemma demo_record_eq: "record_from_sent_event (vc_hex demo_validator) demo_sent_log 1 = Some demo_record"
  "check_storable demo_record" "rc_chain_id_from demo_record = 1" "rc_chain_id_to demo_record = 7" "rc_nonce demo_record = 0"
proof -
  have d: "length (dec_digits 10) \<le> 78" by (simp add: dec_digits.simps [of 10] dec_digits.simps [of "Suc 0"])
  have "\<exists>r. record_from_sent_event (vc_hex demo_validator) demo_sent_log 1 = Some r \<and> check_storable r \<and>
    rc_chain_id_from r = 1 \<and> rc_chain_id_to r = 7 \<and> rc_nonce r = 0"
    by (simp add: record_from_sent_event_def demo_sent_log_def demo_evm_sent_def demo_validator_def as_u64_def Let_def
        check_storable_def bounded_hex_def MAX_ACCOUNT_BYTES_def MAX_AUTO_PARAMS_BYTES_def MAX_UINT256_DECIMAL_LEN_def
        strip_prefix_def starts_with_def rstr_def d)
  then show "record_from_sent_event (vc_hex demo_validator) demo_sent_log 1 = Some demo_record"
    "check_storable demo_record" "rc_chain_id_from demo_record = 1" "rc_chain_id_to demo_record = 7" "rc_nonce demo_record = 0"
    by (auto simp: demo_record_def)
qed

definition demo_posted :: "submission_record \<times> signer_sig" where
  "demo_posted = (demo_record, \<lparr>ss_signer = [49], ss_signature = [50]\<rparr>)"

lemma demo_submission: "\<exists>sub. from_sent_event (\<lambda>_. None) demo_evm_sent 1 = Some sub \<and> compute_id (\<lambda>_. 5) sub = 5"
  by (simp add: from_sent_event_def demo_evm_sent_def decode_auto_params_def compute_id_def core_submission_id_def)

lemma demo_handled:
  "handle_log demo_validator None demo_log_replies demo_log \<lparr>bt_runtime = demo_runtime, bt_stored = [], bt_posted = []\<rparr> =
   (Some True, \<lparr>bt_runtime = accept_nonce 1 7 0 demo_runtime, bt_stored = [5], bt_posted = [demo_posted]\<rparr>)"
proof -
  obtain sub where sub: "from_sent_event (\<lambda>_. None) demo_evm_sent 1 = Some sub" "compute_id (\<lambda>_. 5) sub = 5"
    using demo_submission by blast
  have v: "vc_decode demo_validator demo_log = Some demo_sent_log" "vc_bridge_domain demo_validator = 1"
    "vc_abi demo_validator = (\<lambda>_. None)" "vc_keccak demo_validator = (\<lambda>_. 5)" "vc_signer demo_validator = [49]"
    by (simp_all add: demo_validator_def)
  have n: "check_nonce demo_runtime 1 7 0 = Accept"
    by (simp add: check_nonce_def last_nonce_def demo_runtime_def fresh_persist_def)
  show ?thesis
    by (simp add: handle_log_def v demo_record_eq Let_def n sub demo_sent_log_def [THEN arg_cong [where f = sl_event]]
        demo_sent_log_def [THEN arg_cong [where f = sl_submission_id]] demo_log_replies_def store_signed_def withheld_def
        upd_runtime_def demo_posted_def)
qed

text \<open>A turn over the window from a runtime whose cursor is at 0.\<close>

lemma demo_turn_window:
  assumes "\<not> ps_paused (rt_persist rt)" "ps_last_block (rt_persist rt) = 0"
    and "handle_log demo_validator None demo_log_replies demo_log \<lparr>bt_runtime = rt, bt_stored = [], bt_posted = []\<rparr> = (r, b)"
  shows "sn_posted (scan_turn demo_validator demo_turn (demo_scan\<lparr>sn_runtime := rt\<rparr>)) = bt_posted b"
    "sn_runtime (scan_turn demo_validator demo_turn (demo_scan\<lparr>sn_runtime := rt\<rparr>)) =
      finish_batch (case r of Some True \<Rightarrow> Done | Some False \<Rightarrow> PausedEnd | None \<Rightarrow> FailedEnd)
        (ps_nonces (rt_persist rt)) 10 True (bt_runtime b)"
proof -
  let ?s = "demo_scan\<lparr>sn_runtime := rt\<rparr>"
  have p: "next_block rt = 1" using assms(2) by (simp add: next_block_def)
  have rh: "refresh_head demo_validator demo_turn 1 ?s = (True, ?s)"
    by (simp add: refresh_head_def demo_scan_def demo_validator_def)
  have v: "vc_block_confirmation demo_validator = 5" "sn_cached ?s = Some 15" "sn_cap ?s = 100" "sn_runtime ?s = rt"
    "sn_failover ?s = demo_pool" "tn_window demo_turn = demo_pool_replies" "tn_allow demo_turn = Some EmptyList"
    "tn_logs demo_turn = (\<lambda>_. demo_log_replies)" "tn_save demo_turn"
    by (simp_all add: demo_validator_def demo_scan_def demo_turn_def)
  have d: "dedupe_logs (live_logs [demo_log]) = (Inr 0, [demo_log])"
    by (simp add: dedupe_logs_def live_logs_def demo_log_def)
  have k: "policy_check (vc_policy demo_validator) EmptyList = Inr None"
    by (simp add: policy_check_def policy_required_def demo_validator_def)
  have h: "handle_logs demo_validator None (\<lambda>_. demo_log_replies) 0 [demo_log]
      \<lparr>bt_runtime = rt, bt_stored = [], bt_posted = []\<rparr> =
      (case r of Some True \<Rightarrow> Done | Some False \<Rightarrow> PausedEnd | None \<Rightarrow> FailedEnd, b)"
    using assms(3) by (auto split: option.splits bool.splits)
  have pw: "sn_posted (process_window demo_validator demo_turn 1 10 [demo_log] s) = bt_posted b"
    "sn_runtime (process_window demo_validator demo_turn 1 10 [demo_log] s) =
      finish_batch (case r of Some True \<Rightarrow> Done | Some False \<Rightarrow> PausedEnd | None \<Rightarrow> FailedEnd)
        (ps_nonces (rt_persist rt)) 10 True (bt_runtime b)"
    if s: "sn_runtime s = rt" "sn_posted s = []" "sn_stored s = []" for s
  proof -
    have f: "sn_stored (for_window 1 s) = []" "sn_runtime (for_window 1 s) = rt" "sn_posted (for_window 1 s) = []"
      using s by (simp_all add: for_window_def)
    show "sn_posted (process_window demo_validator demo_turn 1 10 [demo_log] s) = bt_posted b"
      "sn_runtime (process_window demo_validator demo_turn 1 10 [demo_log] s) =
      finish_batch (case r of Some True \<Rightarrow> Done | Some False \<Rightarrow> PausedEnd | None \<Rightarrow> FailedEnd)
        (ps_nonces (rt_persist rt)) 10 True (bt_runtime b)"
      by (simp_all add: process_window_def d v k f s h Let_def del: handle_logs.simps)
  qed
  have "sat_sub 15 5 = (10 :: u64)" "min 10 (1 + 100 - 1) = (10 :: u64)" by (simp_all add: sat_sub_def)
  moreover have "sn_posted ?s = []" "sn_stored ?s = []" by (simp_all add: demo_scan_def)
  ultimately show "sn_posted (scan_turn demo_validator demo_turn ?s) = bt_posted b"
    "sn_runtime (scan_turn demo_validator demo_turn ?s) =
      finish_batch (case r of Some True \<Rightarrow> Done | Some False \<Rightarrow> PausedEnd | None \<Rightarrow> FailedEnd)
        (ps_nonces (rt_persist rt)) 10 True (bt_runtime b)"
    using pw p rh demo_window v assms(1) by (simp_all add: scan_turn_def Let_def)
qed

lemma demo_scan_runtime: "demo_scan\<lparr>sn_runtime := demo_runtime\<rparr> = demo_scan"
  by (simp add: demo_scan_def)

lemma demo_runtime_fields: "\<not> ps_paused (rt_persist demo_runtime)" "ps_last_block (rt_persist demo_runtime) = 0"
  by (simp_all add: demo_runtime_def fresh_persist_def sat_sub_def)

lemma demo_turn_posts: "sn_posted (scan_turn demo_validator demo_turn demo_scan) = [demo_posted]"
  using demo_turn_window(1) [OF demo_runtime_fields demo_handled] by (simp add: demo_scan_runtime)


end
