(* ===== verification/ValidatorCursor.thy ===== *)
theory ValidatorCursor
  imports ValidatorScanProps
begin

text \<open>
  The validator's cursors: what the block cursor leaves behind it, how the nonces move with
  it, when a window stops the scanner, and what a stop survives.
\<close>

section \<open>The store's progress\<close>

text \<open>Everything the loop takes as already stored was posted, with a signature.\<close>

definition posted_ids :: "validator_config \<Rightarrow> (submission_record \<times> signer_sig) list \<Rightarrow> bytes32 set" where
  "posted_ids vc posted =
     {sid. \<exists>rc sg. (rc, sg) \<in> set posted \<and> rc_submission_id rc = rstr ''0x'' @ vc_hex vc (arr_bytes sid)}"

lemma posted_ids_mono: "set xs \<subseteq> set ys \<Longrightarrow> posted_ids vc xs \<subseteq> posted_ids vc ys"
  unfolding posted_ids_def by blast

lemma record_id:
  "record_from_sent_event hex sl d = Some rc \<Longrightarrow> rc_submission_id rc = rstr ''0x'' @ hex (arr_bytes (sl_submission_id sl))"
  by (auto simp: record_from_sent_event_def Let_def split: bind_splits)

lemma store_signed_progress:
  assumes "store_signed vc lr rc sid st = (r, st')" "rc_submission_id rc = rstr ''0x'' @ vc_hex vc (arr_bytes sid)"
    "set (bt_stored st) \<subseteq> posted_ids vc (bt_posted st)"
  shows "set (bt_stored st') \<subseteq> posted_ids vc (bt_posted st')"
  using assms unfolding store_signed_def withheld_def posted_ids_def
  by (auto simp: Let_def upd_runtime_posted split: option.splits if_splits) blast+

lemma handle_log_progress:
  assumes "handle_log vc allow lr l st = (r, st')" "set (bt_stored st) \<subseteq> posted_ids vc (bt_posted st)"
  shows "set (bt_stored st') \<subseteq> posted_ids vc (bt_posted st')"
  using assms store_signed_progress record_id
  unfolding handle_log_def stopped_def withheld_def
  by (auto simp: Let_def upd_runtime_posted split: option.splits nonce_decision.splits if_splits verdict.splits)

lemma handle_logs_progress:
  "handle_logs vc allow lr i ls st = (be, st') \<Longrightarrow> set (bt_stored st) \<subseteq> posted_ids vc (bt_posted st) \<Longrightarrow>
   set (bt_stored st') \<subseteq> posted_ids vc (bt_posted st')"
proof (induction vc allow lr i ls st rule: handle_logs.induct)
  case (2 vc allow lr i l ls st)
  obtain r st1 where h: "handle_log vc allow (lr i) l st = (r, st1)" by fastforce
  note k = handle_log_progress [OF h 2(3)]
  show ?case
  proof (cases "r = Some True")
    case True
    then show ?thesis using 2(1) [OF h [symmetric] True refl _ k] 2(2) h by simp
  next
    case False
    then show ?thesis using 2(2) h k by (auto split: option.splits bool.splits)
  qed
qed simp

definition progress_ok :: "validator_config \<Rightarrow> scan_state \<Rightarrow> bool" where
  "progress_ok vc s \<longleftrightarrow> set (sn_stored s) \<subseteq> posted_ids vc (sn_posted s)"

lemma for_window_progress: "progress_ok vc s \<Longrightarrow> set (sn_stored (for_window a s)) \<subseteq> posted_ids vc (sn_posted s)"
  by (auto simp: for_window_def progress_ok_def)

lemma process_window_progress:
  assumes "progress_ok vc s"
  shows "progress_ok vc (process_window vc tn a e ls s)"
  by (rule process_window_cases [of s vc tn a e ls])
    (use assms handle_logs_progress for_window_progress [OF assms] in \<open>force simp: progress_ok_def idle_def\<close>)+

lemma scan_turn_progress:
  assumes "progress_ok vc s"
  shows "progress_ok vc (scan_turn vc tn s)"
  by (rule scan_turn_cases [of s vc tn])
    (use assms process_window_progress in \<open>auto simp: progress_ok_def idle_def same_progress_def\<close>)

section \<open>What the cursor leaves behind\<close>

lemma finish_batch_block:
  "ps_last_block (rt_persist (finish_batch be nb e ok rt)) = (if be = Done then e else ps_last_block (rt_persist rt))"
  by (simp add: finish_batch_def save_def restore_nonces_def upd_persist_def)

lemma upd_runtime_fields: "bt_runtime (upd_runtime f st) = f (bt_runtime st)" by (simp add: upd_runtime_def)

text \<open>Handling an event changes the nonces or the safety stop, never the block.\<close>

lemma accept_nonce_fields:
  "ps_last_block (rt_persist (accept_nonce a b n rt)) = ps_last_block (rt_persist rt)"
  "ps_paused (rt_persist (accept_nonce a b n rt)) = ps_paused (rt_persist rt)"
  by (simp_all add: accept_nonce_def upd_persist_def)

lemma stopped_fields:
  "fst (stopped ok r st) = Some False"
  "ps_last_block (rt_persist (bt_runtime (snd (stopped ok r st)))) = ps_last_block (rt_persist (bt_runtime st))"
  "ps_paused (rt_persist (bt_runtime (snd (stopped ok r st))))"
  by (simp_all add: stopped_def upd_runtime_fields save_def pause_def upd_persist_def)

lemma withheld_fields:
  "fst (withheld rc st) = Some True"
  "bt_runtime (snd (withheld rc st)) = accept_nonce (rc_chain_id_from rc) (rc_chain_id_to rc) (rc_nonce rc) (bt_runtime st)"
  by (simp_all add: withheld_def upd_runtime_fields)

text \<open>The outcomes of handling an event: an error, an event of another kind, the next nonce, a stop.\<close>

definition log_record :: "validator_config \<Rightarrow> evm_log \<Rightarrow> submission_record option" where
  "log_record vc l =
     Option.bind (vc_decode vc l) (\<lambda>sl. record_from_sent_event (vc_hex vc) sl (vc_bridge_domain vc))"

definition next_event :: "submission_record \<Rightarrow> runtime \<Rightarrow> runtime" where
  "next_event rc = accept_nonce (rc_chain_id_from rc) (rc_chain_id_to rc) (rc_nonce rc)"

lemma store_signed_outcome:
  assumes "store_signed vc lr rc sid st = (r, st')"
  shows "r = None \<and> bt_runtime st' = bt_runtime st \<or> r = Some True \<and> bt_runtime st' = next_event rc (bt_runtime st)"
  using assms unfolding store_signed_def withheld_def next_event_def
  by (auto simp: Let_def upd_runtime_fields split: option.splits if_splits)

definition log_outcome :: "validator_config \<Rightarrow> evm_log \<Rightarrow> runtime \<Rightarrow> bool option \<Rightarrow> runtime \<Rightarrow> bool" where
  "log_outcome vc l rt r rt' \<longleftrightarrow>
     (case r of
        None \<Rightarrow> rt' = rt
      | Some True \<Rightarrow>
          (case log_record vc l of
             None \<Rightarrow> rt' = rt
           | Some rc \<Rightarrow> check_nonce rt (rc_chain_id_from rc) (rc_chain_id_to rc) (rc_nonce rc) = Accept \<and>
               rt' = next_event rc rt)
      | Some False \<Rightarrow> ps_last_block (rt_persist rt') = ps_last_block (rt_persist rt) \<and> ps_paused (rt_persist rt'))"

lemma stopped_outcome: "stopped ok rs st = (r, st') \<Longrightarrow> log_outcome vc l (bt_runtime st) r (bt_runtime st')"
  using stopped_fields [of ok rs st] by (auto simp: log_outcome_def)

lemma handle_log_outcome:
  assumes "handle_log vc allow lr l st = (r, st')"
  shows "log_outcome vc l (bt_runtime st) r (bt_runtime st')"
proof (cases "log_record vc l")
  case None
  then show ?thesis using assms
    by (auto simp: handle_log_def log_record_def log_outcome_def split: option.splits)
next
  case (Some rc)
  then obtain sl where d: "vc_decode vc l = Some sl" "record_from_sent_event (vc_hex vc) sl (vc_bridge_domain vc) = Some rc"
    by (auto simp: log_record_def split: bind_splits)
  note h = assms [unfolded handle_log_def d option.case Let_def]
  show ?thesis
  proof (cases "check_nonce (bt_runtime st) (rc_chain_id_from rc) (rc_chain_id_to rc) (rc_nonce rc)")
    case Accept
    have w: "log_outcome vc l (bt_runtime st) (fst (withheld rc st)) (bt_runtime (snd (withheld rc st)))"
      using Accept by (simp add: log_outcome_def Some withheld_fields next_event_def)
    have g: "log_outcome vc l (bt_runtime st) r (bt_runtime st')" if "store_signed vc lr rc sid st = (r, st')" for sid
      using store_signed_outcome [OF that] Accept by (auto simp: log_outcome_def Some)
    show ?thesis using h w g stopped_outcome unfolding Accept nonce_decision.case
      by (auto simp: log_outcome_def [of vc l _ None] split: option.splits if_splits verdict.splits)
  next
    case Duplicated
    then show ?thesis using h stopped_outcome by simp
  next
    case Missed
    then show ?thesis using h stopped_outcome by simp
  qed
qed


section \<open>A batch\<close>

text \<open>The events of a corridor among the logs of a batch.\<close>

definition corridor_events :: "validator_config \<Rightarrow> evm_log list \<Rightarrow> u64 \<Rightarrow> u64 \<Rightarrow> nat" where
  "corridor_events vc ls cf ct =
     length (filter (\<lambda>l. case log_record vc l of None \<Rightarrow> False
       | Some rc \<Rightarrow> rc_chain_id_from rc = cf \<and> rc_chain_id_to rc = ct) ls)"

lemma last_nonce_next_event:
  "last_nonce (next_event rc rt) cf ct =
   (if rc_chain_id_from rc = cf \<and> rc_chain_id_to rc = ct then Some (rc_nonce rc) else last_nonce rt cf ct)"
  by (auto simp: last_nonce_def next_event_def accept_nonce_def upd_persist_def split: option.splits)

lemma check_nonce_accept:
  "check_nonce rt cf ct n = Accept \<Longrightarrow> last_nonce rt cf ct = Some m \<Longrightarrow> n = m + 1"
  by (auto simp: check_nonce_def split: if_splits)

lemma next_event_fields:
  "ps_last_block (rt_persist (next_event rc rt)) = ps_last_block (rt_persist rt)"
  "ps_paused (rt_persist (next_event rc rt)) = ps_paused (rt_persist rt)"
  by (simp_all add: next_event_def accept_nonce_fields)

lemma log_outcome_step:
  assumes "log_outcome vc l rt (Some True) rt'"
  shows "ps_last_block (rt_persist rt') = ps_last_block (rt_persist rt)" "ps_paused (rt_persist rt') = ps_paused (rt_persist rt)"
    "last_nonce rt cf ct = Some n \<Longrightarrow> last_nonce rt' cf ct = Some (n + of_nat (corridor_events vc [l] cf ct))"
  using assms check_nonce_accept [of rt cf ct _ n]
  by (auto simp: log_outcome_def next_event_fields last_nonce_next_event corridor_events_def split: option.splits)

lemma corridor_events_Cons: "corridor_events vc (l # ls) cf ct = corridor_events vc [l] cf ct + corridor_events vc ls cf ct"
  by (auto simp: corridor_events_def split: option.splits)

lemma handle_logs_outcome:
  "handle_logs vc allow lr i ls st = (be, st') \<Longrightarrow>
   ps_last_block (rt_persist (bt_runtime st')) = ps_last_block (rt_persist (bt_runtime st)) \<and>
   ps_paused (rt_persist (bt_runtime st')) = (ps_paused (rt_persist (bt_runtime st)) \<or> be = PausedEnd) \<and>
   (be = Done \<longrightarrow> last_nonce (bt_runtime st) cf ct = Some n \<longrightarrow>
      last_nonce (bt_runtime st') cf ct = Some (n + of_nat (corridor_events vc ls cf ct)))"
proof (induction vc allow lr i ls st arbitrary: n rule: handle_logs.induct)
  case (1 vc allow lr i st)
  then show ?case by (auto simp: corridor_events_def)
next
  case (2 vc allow lr i l ls st)
  obtain r st1 where h: "handle_log vc allow (lr i) l st = (r, st1)" by fastforce
  note o1 = handle_log_outcome [OF h]
  show ?case
  proof (cases "r = Some True")
    case True
    then have rest: "handle_logs vc allow lr (Suc i) ls st1 = (be, st')" using 2(2) h by simp
    note ih = 2(1) [OF h [symmetric] True refl rest]
    note s = log_outcome_step [OF o1 [unfolded True]]
    show ?thesis
      using ih [of "n + of_nat (corridor_events vc [l] cf ct)"] s(1,2) s(3) [of cf ct n]
      by (simp add: corridor_events_Cons [of vc l ls] add.assoc)
  next
    case False
    then show ?thesis using 2(2) h o1 by (auto simp: log_outcome_def split: option.splits bool.splits)
  qed
qed

lemma finish_batch_fields:
  "ps_nonces (rt_persist (finish_batch be nb e ok rt)) = (if be = Done then ps_nonces (rt_persist rt) else nb)"
  "ps_paused (rt_persist (finish_batch be nb e ok rt)) = ps_paused (rt_persist rt)"
  "ok \<Longrightarrow> rt_file (finish_batch be nb e ok rt) = Some (rt_persist (finish_batch be nb e ok rt))"
  by (auto simp: finish_batch_def save_def restore_nonces_def upd_persist_def)

lemma last_nonce_cong: "ps_nonces (rt_persist a) = ps_nonces (rt_persist b) \<Longrightarrow> last_nonce a = last_nonce b"
  by (simp add: last_nonce_def fun_eq_iff)

text \<open>
  A batch that is handled to its end moves the block cursor to the end of what was read and
  every corridor's nonce by exactly the number of its events; one that stops early, on an
  anomaly or on an error, leaves both cursors where they were.
\<close>

lemma batch_moves_both:
  assumes "handle_logs vc allow lr i ls \<lparr>bt_runtime = rt, bt_stored = ids, bt_posted = posts\<rparr> = (be, b)"
    and "rt' = finish_batch be (ps_nonces (rt_persist rt)) e ok (bt_runtime b)"
  shows "ps_paused (rt_persist rt') = (ps_paused (rt_persist rt) \<or> be = PausedEnd) \<and>
    (if be = Done
     then ps_last_block (rt_persist rt') = e \<and>
       (\<forall>cf ct n. last_nonce rt cf ct = Some n \<longrightarrow>
          last_nonce rt' cf ct = Some (n + of_nat (corridor_events vc ls cf ct)))
     else ps_last_block (rt_persist rt') = ps_last_block (rt_persist rt) \<and>
       ps_nonces (rt_persist rt') = ps_nonces (rt_persist rt))"
proof -
  note h = handle_logs_outcome [OF assms(1), unfolded batch.select_convs]
  have f: "be = Done \<Longrightarrow> last_nonce rt' = last_nonce (bt_runtime b)"
    by (rule last_nonce_cong) (simp add: assms(2) finish_batch_fields)
  show ?thesis
    using h f by (auto simp: assms(2) finish_batch_fields finish_batch_block)
qed

text \<open>What a turn may do to the cursors: nothing, or forward over the logs of one read window.\<close>

definition stays :: "persist \<Rightarrow> persist \<Rightarrow> bool" where
  "stays p p' \<longleftrightarrow> ps_last_block p' = ps_last_block p \<and> ps_nonces p' = ps_nonces p"

definition advances :: "validator_config \<Rightarrow> turn_replies \<Rightarrow> u64 \<Rightarrow> runtime \<Rightarrow> runtime \<Rightarrow> bool" where
  "advances vc tn cap rt rt' \<longleftrightarrow>
     \<not> ps_paused (rt_persist rt) \<and> \<not> ps_paused (rt_persist rt') \<and>
     unat (ps_last_block (rt_persist rt)) < unat (ps_last_block (rt_persist rt')) \<and>
     unat (ps_last_block (rt_persist rt')) \<le> unat (ps_last_block (rt_persist rt)) + unat cap \<and>
     (\<exists>read b fo fo' v ls.
        get_logs_corroborated (tn_window tn) (ps_last_block (rt_persist rt) + 1) b (vc_block_confirmation vc) fo =
          (Some (Some (read, ps_last_block (rt_persist rt'), v)), fo') \<and>
        log_key ` set ls = log_key ` set (live_logs read) \<and> distinct (map log_pos ls) \<and>
        (\<forall>cf ct n. last_nonce rt cf ct = Some n \<longrightarrow>
           last_nonce rt' cf ct = Some (n + of_nat (corridor_events vc ls cf ct))))"

lemma next_block_window:
  assumes "0 < cap" "unat (ps_last_block (rt_persist rt)) + unat cap < 2 ^ 64"
  shows "unat (next_block rt) = unat (ps_last_block (rt_persist rt)) + 1"
    and "unat (next_block rt + cap - 1) = unat (ps_last_block (rt_persist rt)) + unat cap"
proof -
  have c: "0 < unat cap" using assms(1) by (simp add: word_less_nat_alt)
  then show "unat (next_block rt) = unat (ps_last_block (rt_persist rt)) + 1"
    using assms(2) by (simp add: next_block_def unat_word_ariths)
  have e: "next_block rt + cap - 1 = ps_last_block (rt_persist rt) + cap" by (simp add: next_block_def)
  show "unat (next_block rt + cap - 1) = unat (ps_last_block (rt_persist rt)) + unat cap"
    unfolding e using assms(2) by (simp add: unat_word_ariths)
qed

text \<open>
  C37. The block cursor and the nonce cursor of the validator move together and forward only.
  Let the window size be positive, which every turn keeps it, and let block numbers not run
  out within a window. Whatever a turn is answered, it leaves both cursors where they were,
  on a stop and on an error too; or, outside a stop, it moves the block cursor up by at least
  one block and at most the window size, to the end of a window that was read from the block
  behind the cursor, and the nonce of every corridor it knows by exactly the number of that
  corridor's events among the logs of the window, each position taken once.
\<close>

theorem cursors_move_together:
  assumes "0 < sn_cap s" "unat (ps_last_block (rt_persist (sn_runtime s))) + unat (sn_cap s) < 2 ^ 64"
  shows "0 < sn_cap (scan_turn vc tn s) \<and>
    (stays (rt_persist (sn_runtime s)) (rt_persist (sn_runtime (scan_turn vc tn s))) \<or>
     advances vc tn (sn_cap s) (sn_runtime s) (sn_runtime (scan_turn vc tn s)))"
proof (rule conjI [OF scan_turn_cap [OF assms(1)]], rule scan_turn_cases [of s vc tn])
  let ?a = "next_block (sn_runtime s)" and ?p = "rt_persist (sn_runtime s)"
  assume "idle s (scan_turn vc tn s)"
  then show "stays ?p (rt_persist (sn_runtime (scan_turn vc tn s))) \<or>
     advances vc tn (sn_cap s) (sn_runtime s) (sn_runtime (scan_turn vc tn s))" by (simp add: idle_def stays_def)
next
  let ?a = "next_block (sn_runtime s)" and ?p = "rt_persist (sn_runtime s)"
  note nb = next_block_window [OF assms]
  fix ls e v s1 fo fo' b
  assume np: "\<not> ps_paused ?p" and b1: "b \<le> ?a + sn_cap s - 1"
    and b2: "?a \<le> ?a + sn_cap s - 1 \<longrightarrow> ?a \<le> b"
    and g: "get_logs_corroborated (tn_window tn) ?a b (vc_block_confirmation vc) fo = (Some (Some (ls, e, v)), fo')"
    and same: "same_progress s s1" and t: "scan_turn vc tn s = process_window vc tn ?a e ls s1"
  have "0 < unat (sn_cap s)" using assms(1) by (simp add: word_less_nat_alt)
  then have "?a \<le> b" using b2 nb by (simp add: word_le_nat_alt)
  from window_between [OF g this] b1
  have e: "unat (ps_last_block ?p) < unat e" "unat e \<le> unat (ps_last_block ?p) + unat (sn_cap s)"
    using nb by (simp_all add: word_le_nat_alt)
  have eq: "sn_runtime s1 = sn_runtime s" using same by (simp add: same_progress_def idle_def)
  show "stays ?p (rt_persist (sn_runtime (scan_turn vc tn s))) \<or>
     advances vc tn (sn_cap s) (sn_runtime s) (sn_runtime (scan_turn vc tn s))"
  proof (rule process_window_cases [of s1 vc tn ?a e ls])
    assume "idle s1 (process_window vc tn ?a e ls s1)"
    then show ?thesis using t eq by (simp add: idle_def stays_def)
  next
    fix ls' view allow be bt
    assume sub: "set ls' \<subseteq> set (live_logs ls)" and kept: "log_key ` set (live_logs ls) \<subseteq> log_key ` set ls'"
      and once: "distinct (map log_pos ls')"
      and h: "handle_logs vc allow (tn_logs tn) 0 ls'
         \<lparr>bt_runtime = sn_runtime s1, bt_stored = sn_stored (for_window ?a s1), bt_posted = sn_posted s1\<rparr> = (be, bt)"
      and r: "sn_runtime (process_window vc tn ?a e ls s1) =
         finish_batch be (ps_nonces (rt_persist (sn_runtime s1))) e (tn_save tn) (bt_runtime bt)"
    note m = batch_moves_both [OF h r]
    show ?thesis
    proof (cases "be = Done")
      case True
      then have l: "ps_last_block (rt_persist (sn_runtime (scan_turn vc tn s))) = e"
        "\<not> ps_paused (rt_persist (sn_runtime (scan_turn vc tn s)))"
        using m np by (simp_all add: t eq)
      have n: "\<forall>cf ct n. last_nonce (sn_runtime s) cf ct = Some n \<longrightarrow>
          last_nonce (sn_runtime (scan_turn vc tn s)) cf ct = Some (n + of_nat (corridor_events vc ls' cf ct))"
        using m True by (simp add: t eq)
      have "log_key ` set ls' = log_key ` set (live_logs ls)" using sub kept by blast
      then have "advances vc tn (sn_cap s) (sn_runtime s) (sn_runtime (scan_turn vc tn s))"
        unfolding advances_def l(1) using np l(2) e g [unfolded next_block_def] once n by blast
      then show ?thesis ..
    next
      case False
      then show ?thesis using m by (simp add: t eq stays_def)
    qed
  qed
qed

section \<open>Windows in order\<close>

text \<open>
  The nonces of a corridor's events among logs, in their order, and the nonce that the state
  file holds for a corridor.
\<close>

definition corridor_nonces :: "validator_config \<Rightarrow> evm_log list \<Rightarrow> u64 \<Rightarrow> u64 \<Rightarrow> u64 list" where
  "corridor_nonces vc ls cf ct =
     map rc_nonce (filter (\<lambda>rc. rc_chain_id_from rc = cf \<and> rc_chain_id_to rc = ct) (List.map_filter (log_record vc) ls))"

definition persisted_nonce :: "persist \<Rightarrow> u64 \<Rightarrow> u64 \<Rightarrow> u64 option" where
  "persisted_nonce p cf ct = (case ps_nonces p cf of None \<Rightarrow> None | Some m \<Rightarrow> m ct)"

text \<open>
  A window is in order from a state on: the nonces of every corridor's events are consecutive
  numbers, and where the state holds a nonce for the corridor they begin right behind it;
  and the id of every event is the hash of its own fields.
\<close>

definition in_order :: "validator_config \<Rightarrow> persist \<Rightarrow> evm_log list \<Rightarrow> bool" where
  "in_order vc p ls \<longleftrightarrow>
     (\<forall>cf ct. \<exists>n. map unat (corridor_nonces vc ls cf ct) = [n..<n + length (corridor_nonces vc ls cf ct)] \<and>
        (\<forall>m. persisted_nonce p cf ct = Some m \<longrightarrow> n = unat m + 1)) \<and>
     (\<forall>l \<in> set ls. \<forall>sl sub. vc_decode vc l = Some sl \<longrightarrow>
        from_sent_event (vc_abi vc) (sl_event sl) (vc_bridge_domain vc) = Some sub \<longrightarrow>
        compute_id (vc_keccak vc) sub = sl_submission_id sl)"

lemma persisted_last: "persisted_nonce (rt_persist rt) cf ct = last_nonce rt cf ct"
  by (simp add: persisted_nonce_def last_nonce_def split: option.split)

lemma corridor_nonces_Cons:
  "corridor_nonces vc (l # ls) cf ct =
   (case log_record vc l of None \<Rightarrow> []
    | Some rc \<Rightarrow> if rc_chain_id_from rc = cf \<and> rc_chain_id_to rc = ct then [rc_nonce rc] else []) @
   corridor_nonces vc ls cf ct"
  by (simp add: corridor_nonces_def List.map_filter_simps split: option.split)

text \<open>The next event of a window in order is accepted, and the window stays in order behind it.\<close>

lemma in_order_tail:
  assumes "in_order vc (rt_persist rt) (l # ls)" "log_record vc l = None"
  shows "in_order vc (rt_persist rt) ls"
  using assms by (simp add: in_order_def corridor_nonces_Cons)

lemma in_order_next:
  assumes "in_order vc (rt_persist rt) (l # ls)" "log_record vc l = Some rc"
  shows "check_nonce rt (rc_chain_id_from rc) (rc_chain_id_to rc) (rc_nonce rc) = Accept"
    and "in_order vc (rt_persist (next_event rc rt)) ls"
proof -
  let ?cf = "rc_chain_id_from rc" and ?ct = "rc_chain_id_to rc"
  have o: "\<exists>n. map unat (corridor_nonces vc (l # ls) cf ct) = [n..<n + length (corridor_nonces vc (l # ls) cf ct)] \<and>
      (\<forall>m. last_nonce rt cf ct = Some m \<longrightarrow> n = unat m + 1)" for cf ct
    using assms(1) by (simp add: in_order_def persisted_last)
  have c: "corridor_nonces vc (l # ls) ?cf ?ct = rc_nonce rc # corridor_nonces vc ls ?cf ?ct"
    by (simp add: corridor_nonces_Cons assms(2))
  obtain n where n: "unat (rc_nonce rc) = n"
    "map unat (corridor_nonces vc ls ?cf ?ct) = [Suc n..<Suc n + length (corridor_nonces vc ls ?cf ?ct)]"
    "\<And>m. last_nonce rt ?cf ?ct = Some m \<Longrightarrow> n = unat m + 1"
    using o [of ?cf ?ct] unfolding c by (auto simp: upt_conv_Cons simp del: upt_Suc)
  show "check_nonce rt ?cf ?ct (rc_nonce rc) = Accept"
  proof (cases "last_nonce rt ?cf ?ct")
    case (Some m)
    have "unat (rc_nonce rc) = unat m + 1" using n(1,3) Some by simp
    then have "rc_nonce rc = m + 1"
      using unsigned_less [of "rc_nonce rc", where ?'a = nat] by (simp add: word_unat_eq_iff unat_word_ariths)
    then show ?thesis by (simp add: check_nonce_def Some)
  qed (simp add: check_nonce_def)
  have "\<exists>n. map unat (corridor_nonces vc ls cf ct) = [n..<n + length (corridor_nonces vc ls cf ct)] \<and>
      (\<forall>m. last_nonce (next_event rc rt) cf ct = Some m \<longrightarrow> n = unat m + 1)" for cf ct
  proof (cases "?cf = cf \<and> ?ct = ct")
    case True
    then show ?thesis using n(1,2) by (intro exI [of _ "Suc n"]) (auto simp: last_nonce_next_event)
  next
    case False
    then have "corridor_nonces vc (l # ls) cf ct = corridor_nonces vc ls cf ct"
      unfolding corridor_nonces_Cons [of vc l ls] assms(2) option.case if_not_P [OF False] by simp
    moreover have "last_nonce (next_event rc rt) cf ct = last_nonce rt cf ct"
      using False by (simp only: last_nonce_next_event if_False)
    ultimately show ?thesis using o [of cf ct] by simp
  qed
  then show "in_order vc (rt_persist (next_event rc rt)) ls"
    using assms(1) by (simp add: in_order_def persisted_last)
qed

lemma handle_log_in_order:
  assumes "handle_log vc allow lr l st = (r, st')" "in_order vc (rt_persist (bt_runtime st)) (l # ls)"
  shows "r \<noteq> Some False" "r = Some True \<Longrightarrow> in_order vc (rt_persist (bt_runtime st')) ls"
proof -
  have nf: "store_signed vc lr rc sid st \<noteq> (Some False, st'')" for rc sid st''
    by (auto simp: store_signed_def withheld_def Let_def split: option.splits if_splits)
  have ids: "vc_decode vc l = Some sl \<Longrightarrow> from_sent_event (vc_abi vc) (sl_event sl) (vc_bridge_domain vc) = Some sub \<Longrightarrow>
      compute_id (vc_keccak vc) sub = sl_submission_id sl" for sl sub
    using assms(2) by (simp add: in_order_def)
  have acc: "check_nonce (bt_runtime st) (rc_chain_id_from rc) (rc_chain_id_to rc) (rc_nonce rc) = Accept"
    if "vc_decode vc l = Some sl" "record_from_sent_event (vc_hex vc) sl (vc_bridge_domain vc) = Some rc" for sl rc
    using in_order_next(1) [OF assms(2)] that by (simp add: log_record_def)
  show "r \<noteq> Some False"
    using assms(1) nf ids acc unfolding handle_log_def withheld_def
    by (auto simp: Let_def split: option.splits if_splits verdict.splits)
  assume t: "r = Some True"
  note o = handle_log_outcome [OF assms(1), unfolded t]
  show "in_order vc (rt_persist (bt_runtime st')) ls"
  proof (cases "log_record vc l")
    case None
    then show ?thesis using o in_order_tail [OF assms(2) None] by (simp add: log_outcome_def)
  next
    case (Some rc)
    then show ?thesis using o in_order_next(2) [OF assms(2) Some] by (simp add: log_outcome_def)
  qed
qed

lemma handle_logs_in_order:
  "handle_logs vc allow lr i ls st = (be, st') \<Longrightarrow> in_order vc (rt_persist (bt_runtime st)) ls \<Longrightarrow> be \<noteq> PausedEnd"
proof (induction vc allow lr i ls st rule: handle_logs.induct)
  case (2 vc allow lr i l ls st)
  obtain r st1 where h: "handle_log vc allow (lr i) l st = (r, st1)" by fastforce
  note k = handle_log_in_order [OF h 2(3)]
  show ?case
  proof (cases "r = Some True")
    case True
    then show ?thesis using 2(1) [OF h [symmetric] True refl _ k(2) [OF True]] 2(2) h by simp
  next
    case False
    then show ?thesis using 2(2) h k(1) by (auto split: option.splits bool.splits)
  qed
qed simp

lemma in_order_cong: "ps_nonces p = ps_nonces p' \<Longrightarrow> in_order vc p ls = in_order vc p' ls"
  by (simp add: in_order_def persisted_nonce_def)

text \<open>
  C38. A window whose events are in order never stops the validator. Let the nonces of every
  corridor, by both of its chains, count up by one over the events of the window, from the
  one behind the persisted nonce where there is one, and let every event's id be the hash of
  its fields. Then, however the signer, the store and the scale check answer while it is
  handled, there is no safety stop; and if the batch fails half way, the rolled back state
  finds the same window in order again, so that the retry cannot mistake its own events for
  a replay.
\<close>

theorem honest_window_never_pauses:
  assumes "in_order vc (rt_persist rt) ls"
    and "handle_logs vc allow lr i ls \<lparr>bt_runtime = rt, bt_stored = ids, bt_posted = posts\<rparr> = (be, b)"
  shows "be \<noteq> PausedEnd \<and>
    ps_paused (rt_persist (finish_batch be (ps_nonces (rt_persist rt)) e ok (bt_runtime b))) = ps_paused (rt_persist rt) \<and>
    (be = FailedEnd \<longrightarrow>
       in_order vc (rt_persist (finish_batch be (ps_nonces (rt_persist rt)) e ok (bt_runtime b))) ls)"
proof -
  have p: "be \<noteq> PausedEnd" using handle_logs_in_order [OF assms(2)] assms(1) by simp
  moreover have "ps_paused (rt_persist (bt_runtime b)) = ps_paused (rt_persist rt)"
    using handle_logs_outcome [OF assms(2)] p by simp
  moreover have "in_order vc (rt_persist (finish_batch FailedEnd (ps_nonces (rt_persist rt)) e ok (bt_runtime b))) ls"
    using in_order_cong [of "rt_persist (finish_batch FailedEnd (ps_nonces (rt_persist rt)) e ok (bt_runtime b))" "rt_persist rt"]
      assms(1) by (simp add: finish_batch_fields)
  ultimately show ?thesis by (simp add: finish_batch_fields)
qed

section \<open>What is left behind\<close>

text \<open>
  C39. The cursor leaves nothing behind. When a turn moves the block cursor, corroboration is
  required and at most one endpoint lies, then the allowlist the turn fetched passed the
  operator's policy, and the turn handled one list of logs, all events of the chain in the
  blocks passed, in which every such event stands: each log of it, under that allowlist and
  with the answers given for it, either is refused for a reason that is its own (its payload
  does not decode, the store could never hold it, the allowlist, the scale, a number of
  it exceeds 64 bits), or its record was posted with this validator's signature.
\<close>

theorem cursor_leaves_nothing_behind:
  assumes "progress_ok vc s" "vc_require_corroboration vc" "\<And>i. i \<noteq> liar \<Longrightarrow> honest (tn_window tn) chain i"
    and "ps_last_block (rt_persist (sn_runtime (scan_turn vc tn s))) \<noteq> ps_last_block (rt_persist (sn_runtime s))"
  shows "\<exists>view allow ls. tn_allow tn = Some view \<and> policy_check (vc_policy vc) view = Inr allow \<and>
    log_key ` set ls =
      set_mset (chain (next_block (sn_runtime s)) (ps_last_block (rt_persist (sn_runtime (scan_turn vc tn s))))) \<and>
    (\<forall>j < length ls. settled vc allow (tn_logs tn j) (ls ! j) (posted_ids vc (sn_posted (scan_turn vc tn s))))"
proof (rule scan_turn_cases [of s vc tn])
  assume "idle s (scan_turn vc tn s)"
  then show ?thesis using assms(4) by (simp add: idle_def)
next
  fix ls e v s1 fo fo' b
  let ?a = "next_block (sn_runtime s)"
  assume g: "get_logs_corroborated (tn_window tn) ?a b (vc_block_confirmation vc) fo = (Some (Some (ls, e, v)), fo')"
    and u: "usable vc v" and same: "same_progress s s1" and t: "scan_turn vc tn s = process_window vc tn ?a e ls s1"
  have eq: "sn_runtime s1 = sn_runtime s" and ok: "progress_ok vc s1"
    using same assms(1) by (simp_all add: same_progress_def idle_def progress_ok_def)
  obtain peer where v: "v = Agreed peer" using u assms(2) by (auto simp: usable_def split: corroboration.splits)
  note true = agreed_window_logs [OF g [unfolded v] assms(3)]
  show ?thesis
  proof (rule process_window_cases [of s1 vc tn ?a e ls])
    assume "idle s1 (process_window vc tn ?a e ls s1)"
    then show ?thesis using assms(4) t eq by (simp add: idle_def)
  next
    fix ls' view allow be bt
    assume sub: "set ls' \<subseteq> set (live_logs ls)" and kept: "log_key ` set (live_logs ls) \<subseteq> log_key ` set ls'"
      and al: "tn_allow tn = Some view" "policy_check (vc_policy vc) view = Inr allow"
      and h: "handle_logs vc allow (tn_logs tn) 0 ls'
         \<lparr>bt_runtime = sn_runtime s1, bt_stored = sn_stored (for_window ?a s1), bt_posted = sn_posted s1\<rparr> = (be, bt)"
      and r: "sn_runtime (process_window vc tn ?a e ls s1) =
         finish_batch be (ps_nonces (rt_persist (sn_runtime s1))) e (tn_save tn) (bt_runtime bt)"
      and po: "sn_posted (process_window vc tn ?a e ls s1) = bt_posted bt"
    have d: "be = Done" using assms(4) handle_logs_outcome [OF h] by (auto simp: t r eq finish_batch_block split: if_splits)
    then have l: "ps_last_block (rt_persist (sn_runtime (scan_turn vc tn s))) = e" by (simp add: t r finish_batch_block)
    have "set_mset (log_bag ls) = log_key ` set (live_logs ls)" by (simp add: log_bag_def)
    then have keys: "log_key ` set ls' = set_mset (chain ?a e)" using sub kept true by auto
    have p: "set (bt_stored bt) \<subseteq> posted_ids vc (bt_posted bt)"
      using handle_logs_progress [OF h] for_window_progress [OF ok] by simp
    have "settled vc allow (tn_logs tn j) (ls' ! j) (posted_ids vc (sn_posted (scan_turn vc tn s)))" if "j < length ls'" for j
      using settled_mono [OF _ p] handle_logs_settled [OF h [unfolded d]] that unfolding t po by simp
    then show ?thesis using al keys unfolding l by blast
  qed
qed

section \<open>Stops and rescans\<close>

lemma idle_or_window:
  obtains "idle s (scan_turn vc tn s)"
  | ls allow be b e ids where
      "handle_logs vc allow (tn_logs tn) 0 ls
         \<lparr>bt_runtime = sn_runtime s, bt_stored = ids, bt_posted = sn_posted s\<rparr> = (be, b)"
      "sn_runtime (scan_turn vc tn s) =
         finish_batch be (ps_nonces (rt_persist (sn_runtime s))) e (tn_save tn) (bt_runtime b)"
proof (rule scan_turn_cases [of s vc tn])
  assume "idle s (scan_turn vc tn s)"
  then show ?thesis by (rule that(1))
next
  fix ls e v s1 fo fo' b
  assume same: "same_progress s s1"
    and t: "scan_turn vc tn s = process_window vc tn (next_block (sn_runtime s)) e ls s1"
  have eq: "sn_runtime s1 = sn_runtime s" "sn_posted s1 = sn_posted s" using same by (simp_all add: same_progress_def idle_def)
  show ?thesis
  proof (rule process_window_cases [of s1 vc tn "next_block (sn_runtime s)" e ls])
    assume "idle s1 (process_window vc tn (next_block (sn_runtime s)) e ls s1)"
    then show ?thesis using that(1) same t by (simp add: idle_def same_progress_def)
  next
    fix ls' view allow be bt
    assume "handle_logs vc allow (tn_logs tn) 0 ls'
         \<lparr>bt_runtime = sn_runtime s1, bt_stored = sn_stored (for_window (next_block (sn_runtime s)) s1),
           bt_posted = sn_posted s1\<rparr> = (be, bt)"
      and "sn_runtime (process_window vc tn (next_block (sn_runtime s)) e ls s1) =
         finish_batch be (ps_nonces (rt_persist (sn_runtime s1))) e (tn_save tn) (bt_runtime bt)"
    then show ?thesis using that(2) t unfolding eq by metis
  qed
qed

text \<open>
  C40. A safety stop survives a restart. When a turn stops the scanner and its state can be
  saved, the file holds the stop with both cursors as before the turn; loading it, with
  whatever start block, gives the stopped runtime; and no turn does anything until an
  operator resumes it.
\<close>

theorem stop_survives_restart:
  assumes "ps_paused (rt_persist (sn_runtime (scan_turn vc tn s)))" "\<not> ps_paused (rt_persist (sn_runtime s))"
    and "tn_save tn"
  shows "ps_last_block (rt_persist (sn_runtime (scan_turn vc tn s))) = ps_last_block (rt_persist (sn_runtime s)) \<and>
    ps_nonces (rt_persist (sn_runtime (scan_turn vc tn s))) = ps_nonces (rt_persist (sn_runtime s)) \<and>
    rt_file (sn_runtime (scan_turn vc tn s)) = Some (rt_persist (sn_runtime (scan_turn vc tn s))) \<and>
    load_or_init (Holds (rt_persist (sn_runtime (scan_turn vc tn s)))) start = Some (sn_runtime (scan_turn vc tn s)) \<and>
    scan_turn vc tn' (scan_turn vc tn s) = scan_turn vc tn s"
proof (rule idle_or_window [of s vc tn])
  assume "idle s (scan_turn vc tn s)"
  then show ?thesis using assms(1,2) by (simp add: idle_def)
next
  fix ls allow be b e ids
  assume h: "handle_logs vc allow (tn_logs tn) 0 ls
         \<lparr>bt_runtime = sn_runtime s, bt_stored = ids, bt_posted = sn_posted s\<rparr> = (be, b)"
    and r: "sn_runtime (scan_turn vc tn s) =
         finish_batch be (ps_nonces (rt_persist (sn_runtime s))) e (tn_save tn) (bt_runtime b)"
  let ?rt = "sn_runtime (scan_turn vc tn s)"
  note o = handle_logs_outcome [OF h]
  have "be = PausedEnd" using assms(1,2) o by (simp add: r finish_batch_fields)
  then have "ps_last_block (rt_persist ?rt) = ps_last_block (rt_persist (sn_runtime s))"
    "ps_nonces (rt_persist ?rt) = ps_nonces (rt_persist (sn_runtime s))" "rt_file ?rt = Some (rt_persist ?rt)"
    using o assms(3) by (simp_all add: r finish_batch_fields finish_batch_block)
  moreover have "load_or_init (Holds (rt_persist ?rt)) start = Some ?rt"
    using calculation(3) by (simp add: load_or_init_def runtime.equality)
  moreover have "scan_turn vc tn' (scan_turn vc tn s) = scan_turn vc tn s" using assms(1) by (simp add: scan_turn_def)
  ultimately show ?thesis by simp
qed

text \<open>
  An operator's rescan that falls between the last event of a batch and the end of that
  batch is lost: the end overwrites the rewound block cursor, or, after a stop or an error,
  puts back the nonces the rescan had cleared.
\<close>

lemma rescan_during_batch_lost:
  "ps_last_block (rt_persist (finish_batch Done nb e ok (rescan_from from_block rt))) = e"
  "be \<noteq> Done \<Longrightarrow> ps_nonces (rt_persist (finish_batch be nb e ok (rescan_from from_block rt))) = nb \<and>
     ps_last_block (rt_persist (finish_batch be nb e ok (rescan_from from_block rt))) = sat_sub from_block 1"
  by (simp_all add: finish_batch_block finish_batch_fields rescan_from_def resume_def upd_persist_def)

end
