(* ===== verification/ValidatorCursorDemo.thy ===== *)
theory ValidatorCursorDemo
  imports ValidatorDemo ValidatorCursor
begin

text \<open>Turns and batches over the one window of the demonstration, for the properties of the cursors.\<close>

lemma demo_moves: "ps_last_block (rt_persist (sn_runtime (scan_turn demo_validator demo_turn demo_scan))) = 10"
  using demo_turn_window(2) [OF demo_runtime_fields demo_handled] by (simp add: demo_scan_runtime finish_batch_block)

lemma demo_scan_fields: "sn_runtime demo_scan = demo_runtime" "progress_ok demo_validator demo_scan"
  by (simp_all add: demo_scan_def progress_ok_def)

theorem cursor_leaves_nothing_behind_witness:
  "ps_last_block (rt_persist (sn_runtime (scan_turn demo_validator demo_turn demo_scan))) = 10 \<and>
   (\<exists>view allow ls. tn_allow demo_turn = Some view \<and> policy_check (vc_policy demo_validator) view = Inr allow \<and>
      log_key ` set ls = {log_key demo_log} \<and>
      settled demo_validator allow (tn_logs demo_turn 0) (ls ! 0)
        (posted_ids demo_validator (sn_posted (scan_turn demo_validator demo_turn demo_scan))))"
proof -
  have w: "tn_window demo_turn = demo_pool_replies" "vc_require_corroboration demo_validator"
    by (simp_all add: demo_turn_def demo_validator_def)
  have hon: "\<And>i. i \<noteq> 1 \<Longrightarrow> honest (tn_window demo_turn) demo_chain i" using demo_honest w(1) by simp
  have moved: "ps_last_block (rt_persist (sn_runtime (scan_turn demo_validator demo_turn demo_scan))) \<noteq>
    ps_last_block (rt_persist (sn_runtime demo_scan))"
    by (simp add: demo_moves demo_scan_fields demo_runtime_fields)
  have "\<exists>view allow ls. tn_allow demo_turn = Some view \<and> policy_check (vc_policy demo_validator) view = Inr allow \<and>
      log_key ` set ls = set_mset (demo_chain (next_block (sn_runtime demo_scan))
        (ps_last_block (rt_persist (sn_runtime (scan_turn demo_validator demo_turn demo_scan))))) \<and>
      (\<forall>j < length ls. settled demo_validator allow (tn_logs demo_turn j) (ls ! j)
        (posted_ids demo_validator (sn_posted (scan_turn demo_validator demo_turn demo_scan))))"
    by (rule cursor_leaves_nothing_behind [where liar = 1, OF demo_scan_fields(2) w(2) _ moved]) (rule hon)
  then obtain view allow ls where
    l: "tn_allow demo_turn = Some view" "policy_check (vc_policy demo_validator) view = Inr allow"
      "log_key ` set ls = {log_key demo_log}"
      "\<forall>j < length ls. settled demo_validator allow (tn_logs demo_turn j) (ls ! j)
        (posted_ids demo_validator (sn_posted (scan_turn demo_validator demo_turn demo_scan)))"
    unfolding demo_moves by (simp add: demo_chain_def) blast
  have "0 < length ls" using l(3) by (cases ls) auto
  with l demo_moves show ?thesis by blast
qed

text \<open>A store that refuses the record.\<close>

definition demo_failing_replies :: log_replies where
  "demo_failing_replies = demo_log_replies\<lparr>lr_upsert := (\<lambda>_ _. False)\<rparr>"

theorem cursors_move_together_witness:
  "advances demo_validator demo_turn 100 demo_runtime (sn_runtime (scan_turn demo_validator demo_turn demo_scan))"
proof -
  have c: "0 < sn_cap demo_scan" "unat (ps_last_block (rt_persist (sn_runtime demo_scan))) + unat (sn_cap demo_scan) < 2 ^ 64"
    by (simp_all add: demo_scan_fields demo_runtime_fields) (simp_all add: demo_scan_def)
  have "\<not> stays (rt_persist (sn_runtime demo_scan)) (rt_persist (sn_runtime (scan_turn demo_validator demo_turn demo_scan)))"
    by (simp add: stays_def demo_moves demo_scan_fields demo_runtime_fields)
  then have "advances demo_validator demo_turn (sn_cap demo_scan) (sn_runtime demo_scan)
      (sn_runtime (scan_turn demo_validator demo_turn demo_scan))"
    using cursors_move_together [OF c, of demo_validator demo_turn] by blast
  moreover have "sn_cap demo_scan = 100" by (simp add: demo_scan_def)
  ultimately show ?thesis by (simp add: demo_scan_fields)
qed

lemma demo_record_log:
  "vc_decode demo_validator demo_log = Some demo_sent_log" "vc_bridge_domain demo_validator = 1"
  "vc_abi demo_validator = (\<lambda>_. None)" "vc_keccak demo_validator = (\<lambda>_. 5)"
  "sl_event demo_sent_log = demo_evm_sent" "sl_submission_id demo_sent_log = 5"
  by (simp_all add: demo_validator_def demo_sent_log_def)

lemma demo_in_order: "in_order demo_validator (rt_persist demo_runtime) [demo_log]"
proof -
  obtain sub where sub: "from_sent_event (\<lambda>_. None) demo_evm_sent 1 = Some sub" "compute_id (\<lambda>_. 5) sub = 5"
    using demo_submission by blast
  have "log_record demo_validator demo_log = Some demo_record"
    by (simp add: log_record_def demo_record_log demo_record_eq)
  then have n: "corridor_nonces demo_validator [demo_log] cf ct = (if cf = 1 \<and> ct = 7 then [0] else [])" for cf ct
    by (auto simp: corridor_nonces_def List.map_filter_simps demo_record_eq)
  have p: "persisted_nonce (rt_persist demo_runtime) cf ct = None" for cf ct
    by (simp add: persisted_nonce_def demo_runtime_def fresh_persist_def)
  show ?thesis
    using sub by (auto simp: in_order_def n p demo_record_log)
qed

theorem honest_window_never_pauses_witness:
  "\<exists>b. handle_logs demo_validator None (\<lambda>_. demo_failing_replies) 0 [demo_log]
      \<lparr>bt_runtime = demo_runtime, bt_stored = [], bt_posted = []\<rparr> = (FailedEnd, b) \<and>
    in_order demo_validator (rt_persist (finish_batch FailedEnd (ps_nonces (rt_persist demo_runtime)) 10 True (bt_runtime b))) [demo_log]"
proof -
  have n: "check_nonce demo_runtime 1 7 0 = Accept"
    by (simp add: check_nonce_def last_nonce_def demo_runtime_def fresh_persist_def)
  obtain sub where sub: "from_sent_event (\<lambda>_. None) demo_evm_sent 1 = Some sub" "compute_id (\<lambda>_. 5) sub = 5"
    using demo_submission by blast
  have "\<exists>b. handle_log demo_validator None demo_failing_replies demo_log
      \<lparr>bt_runtime = demo_runtime, bt_stored = [], bt_posted = []\<rparr> = (None, b)"
    by (simp add: handle_log_def demo_record_log demo_record_eq Let_def n sub store_signed_def demo_failing_replies_def
        demo_log_replies_def)
  then obtain b where b: "handle_logs demo_validator None (\<lambda>_. demo_failing_replies) 0 [demo_log]
      \<lparr>bt_runtime = demo_runtime, bt_stored = [], bt_posted = []\<rparr> = (FailedEnd, b)"
    by auto
  show ?thesis using honest_window_never_pauses [OF demo_in_order b, of 10 True] b by auto
qed

text \<open>A runtime that has already seen the transfer's nonce.\<close>

definition demo_ahead :: runtime where "demo_ahead = accept_nonce 1 7 5 demo_runtime"

theorem stop_survives_restart_witness:
  "ps_paused (rt_persist (sn_runtime (scan_turn demo_validator demo_turn (demo_scan\<lparr>sn_runtime := demo_ahead\<rparr>)))) \<and>
   load_or_init (Holds (rt_persist (sn_runtime (scan_turn demo_validator demo_turn (demo_scan\<lparr>sn_runtime := demo_ahead\<rparr>))))) 1 =
     Some (sn_runtime (scan_turn demo_validator demo_turn (demo_scan\<lparr>sn_runtime := demo_ahead\<rparr>)))"
proof -
  have f: "\<not> ps_paused (rt_persist demo_ahead)" "ps_last_block (rt_persist demo_ahead) = 0"
    by (simp_all add: demo_ahead_def accept_nonce_fields demo_runtime_fields)
  have n: "check_nonce demo_ahead 1 7 0 = Duplicated"
    by (simp add: check_nonce_def last_nonce_def demo_ahead_def accept_nonce_def upd_persist_def demo_runtime_def
        fresh_persist_def)
  obtain r b where h: "handle_log demo_validator None demo_log_replies demo_log
      \<lparr>bt_runtime = demo_ahead, bt_stored = [], bt_posted = []\<rparr> = (Some False, b)" "ps_paused (rt_persist (bt_runtime b))"
    by (simp add: handle_log_def demo_record_log demo_record_eq Let_def n stopped_def upd_runtime_def save_def pause_def
        upd_persist_def)
  have p: "ps_paused (rt_persist (sn_runtime (scan_turn demo_validator demo_turn (demo_scan\<lparr>sn_runtime := demo_ahead\<rparr>))))"
    using demo_turn_window(2) [OF f h(1)] h(2) by (simp add: finish_batch_fields)
  have s: "\<not> ps_paused (rt_persist (sn_runtime (demo_scan\<lparr>sn_runtime := demo_ahead\<rparr>)))" "tn_save demo_turn"
    using f(1) by (simp_all add: demo_turn_def)
  show ?thesis using stop_survives_restart [OF p s, of 1] p by simp
qed

end
