(* ===== verification/CoreStore.thy ===== *)
theory CoreStore
  imports ValidatorScan
begin

text \<open>
  The signature store on files (bridge-core/src/store.rs): the binding of a record to its
  id, the authentication and the canonical form of signatures, and the two writers. The
  parsers, the hash and the signature type of alloy and the crate hex are parameters.
\<close>

section \<open>The library\<close>

definition eq_ignore_case :: "rust_str \<Rightarrow> rust_str \<Rightarrow> bool" where
  "eq_ignore_case a b \<longleftrightarrow> to_ascii_lowercase a = to_ascii_lowercase b"

record core_lib =
  cl_keccak :: "bytes \<Rightarrow> bytes32"
  cl_abi :: abi_decoder
  cl_hex :: hex_decoder
  cl_enhex :: "bytes \<Rightarrow> rust_str"
  cl_b256 :: "rust_str \<Rightarrow> bytes32 option"
  cl_u256 :: "rust_str \<Rightarrow> bytes32 option"
  cl_address :: "rust_str \<Rightarrow> address option"
  cl_recover :: "bytes32 \<Rightarrow> bytes \<Rightarrow> address option"
  cl_canonical :: "bytes \<Rightarrow> bytes option"

text \<open>
  What the store relies on: hexadecimal decodes what it encodes; the canonical form of a
  signature is not empty, is its own canonical form, and recovers to the same signer; two
  spellings of a 32-byte number that differ in case only are not read as different numbers.
\<close>

definition core_lib_ok :: "core_lib \<Rightarrow> bool" where
  "core_lib_ok L \<longleftrightarrow>
     (\<forall>b. cl_hex L (cl_enhex L b) = Some b) \<and> (\<forall>b. b \<noteq> [] \<longrightarrow> cl_enhex L b \<noteq> []) \<and>
     (\<forall>raw b. cl_canonical L raw = Some b \<longrightarrow>
        b \<noteq> [] \<and> cl_canonical L b = Some b \<and> (\<forall>m. cl_recover L m b = cl_recover L m raw)) \<and>
     (\<forall>a b x y. cl_b256 L a = Some x \<longrightarrow> cl_b256 L b = Some y \<longrightarrow> eq_ignore_case a b \<longrightarrow> x = y)"

section \<open>Kinds, errors and bounds\<close>

datatype sig_kind = Transfer | Cancelling | Refunding

definition sig_kind_str :: "sig_kind \<Rightarrow> rust_str" where
  "sig_kind_str k = (case k of Transfer \<Rightarrow> rstr ''transfer'' | Cancelling \<Rightarrow> rstr ''cancel'' | Refunding \<Rightarrow> rstr ''refund'')"

definition sig_kind_parse :: "rust_str \<Rightarrow> sig_kind option" where
  "sig_kind_parse s =
     (if s = rstr ''transfer'' then Some Transfer
      else if s = rstr ''cancel'' then Some Cancelling
      else if s = rstr ''refund'' then Some Refunding
      else None)"

definition digest_of :: "(bytes \<Rightarrow> bytes32) \<Rightarrow> sig_kind \<Rightarrow> bytes32 \<Rightarrow> bytes32" where
  "digest_of K k x = (case k of Transfer \<Rightarrow> x | Cancelling \<Rightarrow> core_cancel_id K x | Refunding \<Rightarrow> core_refund_id K x)"

datatype store_error = IoError | JsonError | BadField string
  | StoreIdMismatch bytes32 bytes32 | ParamsConflict rust_str | BadSignature | SignerMismatch address address
  | TokenMismatch address bytes32 u64 | TooManySignatures rust_str

definition MAX_SIGNATURES_PER_SUBMISSION :: nat where "MAX_SIGNATURES_PER_SUBMISSION = 64"

definition push_capped :: "signer_sig list \<Rightarrow> signer_sig \<Rightarrow> rust_str \<Rightarrow> store_error + signer_sig list" where
  "push_capped bucket sig kind =
     (if list_ex (\<lambda>s. eq_ignore_case (ss_signer s) (ss_signer sig)) bucket then Inr bucket
      else if length bucket \<ge> MAX_SIGNATURES_PER_SUBMISSION then Inl (TooManySignatures kind)
      else Inr (bucket @ [sig]))"

definition is_hex_digit :: "nat \<Rightarrow> bool" where
  "is_hex_digit c \<longleftrightarrow> 48 \<le> c \<and> c \<le> 57 \<or> 65 \<le> c \<and> c \<le> 70 \<or> 97 \<le> c \<and> c \<le> 102"

definition without_0x :: "rust_str \<Rightarrow> rust_str" where
  "without_0x s = (case strip_prefix s (rstr ''0x'') of Some t \<Rightarrow> t | None \<Rightarrow> s)"

definition is_valid_submission_id :: "rust_str \<Rightarrow> bool" where
  "is_valid_submission_id s \<longleftrightarrow> length (without_0x s) = 64 \<and> list_all is_hex_digit (without_0x s)"

text \<open>The file of an id, by the stem of its name.\<close>

definition file_path :: "rust_str \<Rightarrow> rust_str" where
  "file_path sid = without_0x sid"

definition same_params :: "submission_record \<Rightarrow> submission_record \<Rightarrow> bool" where
  "same_params a b \<longleftrightarrow>
     eq_ignore_case (rc_submission_id a) (rc_submission_id b) \<and> eq_ignore_case (rc_debridge_id a) (rc_debridge_id b) \<and>
     rc_amount a = rc_amount b \<and> rc_chain_id_from a = rc_chain_id_from b \<and> rc_chain_id_to a = rc_chain_id_to b \<and>
     rc_nonce a = rc_nonce b \<and> eq_ignore_case (rc_receiver a) (rc_receiver b) \<and>
     eq_ignore_case (rc_auto_params a) (rc_auto_params b) \<and> eq_ignore_case (rc_native_sender a) (rc_native_sender b)"

text \<open>\<open>ok_or\<close> and \<open>map_err\<close> to a field's error.\<close>

definition field_of :: "string \<Rightarrow> 'a option \<Rightarrow> store_error + 'a" where
  "field_of f x = (case x of Some v \<Rightarrow> Inr v | None \<Rightarrow> Inl (BadField f))"

definition core_hex_bytes :: "core_lib \<Rightarrow> string \<Rightarrow> rust_str \<Rightarrow> store_error + bytes" where
  "core_hex_bytes L f s = field_of f (hex_bytes (cl_hex L) s)"

section \<open>Binding and authentication\<close>

definition canonical_submission_id :: "core_lib \<Rightarrow> submission_record \<Rightarrow> store_error + bytes32" where
  "canonical_submission_id L rc =
     bind_res (field_of ''bridge_domain'' (cl_b256 L (rc_bridge_domain rc))) (\<lambda>domain.
     bind_res (field_of ''debridge_id'' (cl_b256 L (rc_debridge_id rc))) (\<lambda>did.
     bind_res (field_of ''amount'' (cl_u256 L (rc_amount rc))) (\<lambda>amount.
     bind_res (field_of ''bridge_decimals'' (rc_bridge_decimals rc)) (\<lambda>decimals.
     bind_res (core_hex_bytes L ''receiver'' (rc_receiver rc)) (\<lambda>receiver.
     bind_res (core_hex_bytes L ''auto_params'' (rc_auto_params rc)) (\<lambda>auto_params.
     bind_res (core_hex_bytes L ''native_sender'' (rc_native_sender rc)) (\<lambda>native_sender.
     bind_res (field_of ''auto_params'' (decode_auto_params (cl_abi L) auto_params native_sender)) (\<lambda>auto.
     let chain_from = (ucast (rc_chain_id_from rc) :: bytes32);
         chain_to = (ucast (rc_chain_id_to rc) :: bytes32);
         nonce = (ucast (rc_nonce rc) :: bytes32)
     in Inr (case auto of
         None \<Rightarrow> core_submission_id (cl_keccak L) domain did decimals amount chain_from chain_to nonce receiver
       | Some a \<Rightarrow> core_submission_id_with_auto (cl_keccak L) domain did decimals amount chain_from chain_to nonce receiver a)))))))))"

definition verify_signature :: "core_lib \<Rightarrow> bytes32 \<Rightarrow> signer_sig \<Rightarrow> store_error + address" where
  "verify_signature L x sig =
     bind_res (field_of ''signer'' (cl_address L (ss_signer sig))) (\<lambda>claimed.
     bind_res (core_hex_bytes L ''signature'' (ss_signature sig)) (\<lambda>raw.
     (case cl_recover L x raw of
        None \<Rightarrow> Inl BadSignature
      | Some recovered \<Rightarrow> if recovered \<noteq> claimed then Inl (SignerMismatch claimed recovered) else Inr recovered)))"

definition core_canonical_signature :: "core_lib \<Rightarrow> signer_sig \<Rightarrow> store_error + signer_sig" where
  "core_canonical_signature L sig =
     bind_res (core_hex_bytes L ''signature'' (ss_signature sig)) (\<lambda>raw.
     (case cl_canonical L raw of
        None \<Rightarrow> Inl BadSignature
      | Some b \<Rightarrow> Inr \<lparr>ss_signer = ss_signer sig, ss_signature = rstr ''0x'' @ cl_enhex L b\<rparr>))"

definition verify_token_binding :: "core_lib \<Rightarrow> submission_record \<Rightarrow> store_error + unit" where
  "verify_token_binding L rc =
     (if rc_token rc = [] then Inr ()
      else 
     bind_res (field_of ''token'' (cl_address L (rc_token rc))) (\<lambda>token.
     bind_res (field_of ''debridge_id'' (cl_b256 L (rc_debridge_id rc))) (\<lambda>did.
     (if core_debridge_id (cl_keccak L) (ucast (rc_chain_id_from rc)) token \<noteq> did
         then Inl (TokenMismatch token did (rc_chain_id_from rc)) else Inr ()))))"

definition verify_attestation :: "core_lib \<Rightarrow> bytes32 \<Rightarrow> sig_kind \<Rightarrow> signer_sig \<Rightarrow> store_error + address" where
  "verify_attestation L x kind sig = verify_signature L (digest_of (cl_keccak L) kind x) sig"

section \<open>The directory\<close>

text \<open>A file holds a record, or what an interrupted write left of one.\<close>

datatype stored_file = Parsed submission_record | Torn

type_synonym store_dir = "rust_str \<Rightarrow> stored_file option"

text \<open>How a write ends.\<close>

datatype write_end = Written | NotWritten | TornWrite

definition write_record ::
  "write_end \<Rightarrow> rust_str \<Rightarrow> submission_record \<Rightarrow> store_dir \<Rightarrow> (store_error + submission_record) \<times> store_dir" where
  "write_record we path rc d =
     (case we of
        Written \<Rightarrow> (Inr rc, d(path \<mapsto> Parsed rc))
      | NotWritten \<Rightarrow> (Inl IoError, d)
      | TornWrite \<Rightarrow> (Inl IoError, d(path \<mapsto> Torn)))"

text \<open>The checks on an incoming record, and the signature to be stored.\<close>

definition check_incoming :: "core_lib \<Rightarrow> submission_record \<Rightarrow> signer_sig \<Rightarrow> store_error + signer_sig" where
  "check_incoming L rc sig =
     (if \<not> is_valid_submission_id (rc_submission_id rc) then Inl (BadField ''submission_id'')
      else if \<not> check_storable rc then Inl (BadField ''size'')
      else 
     bind_res (canonical_submission_id L rc) (\<lambda>computed.
     bind_res (field_of ''submission_id'' (cl_b256 L (rc_submission_id rc))) (\<lambda>claimed.
     (if computed \<noteq> claimed then Inl (StoreIdMismatch claimed computed)
         else 
     bind_res (verify_signature L computed sig) (\<lambda>_.
     bind_res (core_canonical_signature L sig) (\<lambda>sig.
     bind_res (verify_token_binding L rc) (\<lambda>_.
     Inr sig)))))))"

text \<open>The stored record's signatures, and its token if it has one, in place of the incoming one's.\<close>

definition merge_existing :: "submission_record \<Rightarrow> submission_record \<Rightarrow> submission_record" where
  "merge_existing old rc =
     rc\<lparr>rc_signatures := rc_signatures old, rc_cancel_signatures := rc_cancel_signatures old,
       rc_refund_signatures := rc_refund_signatures old,
       rc_token := (if rc_token old \<noteq> [] then rc_token old else rc_token rc)\<rparr>"

definition upsert_signature ::
  "core_lib \<Rightarrow> write_end \<Rightarrow> submission_record \<Rightarrow> signer_sig \<Rightarrow> store_dir \<Rightarrow>
   (store_error + submission_record) \<times> store_dir" where
  "upsert_signature L we rc sig d =
     (case check_incoming L rc sig of
        Inl e \<Rightarrow> (Inl e, d)
      | Inr sig \<Rightarrow>
     (let path = file_path (rc_submission_id rc) in
      case (case d path of
              None \<Rightarrow> Inr rc
            | Some Torn \<Rightarrow> Inl JsonError
            | Some (Parsed old) \<Rightarrow>
                if same_params old rc then Inr (merge_existing old rc)
                else Inl (ParamsConflict (rc_submission_id rc))) of
        Inl e \<Rightarrow> (Inl e, d)
      | Inr rc \<Rightarrow>
          (case push_capped (rc_signatures rc) sig (rstr ''transfer'') of
             Inl e \<Rightarrow> (Inl e, d)
           | Inr sigs \<Rightarrow> write_record we path (rc\<lparr>rc_signatures := sigs\<rparr>) d)))"

definition bucket_of :: "sig_kind \<Rightarrow> submission_record \<Rightarrow> signer_sig list" where
  "bucket_of k rc =
     (case k of Transfer \<Rightarrow> rc_signatures rc | Cancelling \<Rightarrow> rc_cancel_signatures rc | Refunding \<Rightarrow> rc_refund_signatures rc)"

definition set_bucket :: "sig_kind \<Rightarrow> signer_sig list \<Rightarrow> submission_record \<Rightarrow> submission_record" where
  "set_bucket k sigs rc =
     (case k of Transfer \<Rightarrow> rc\<lparr>rc_signatures := sigs\<rparr> | Cancelling \<Rightarrow> rc\<lparr>rc_cancel_signatures := sigs\<rparr>
      | Refunding \<Rightarrow> rc\<lparr>rc_refund_signatures := sigs\<rparr>)"

definition upsert_attestation ::
  "core_lib \<Rightarrow> write_end \<Rightarrow> rust_str \<Rightarrow> sig_kind \<Rightarrow> signer_sig \<Rightarrow> store_dir \<Rightarrow>
   (store_error + submission_record) \<times> store_dir" where
  "upsert_attestation L we sid kind sig d =
     (if \<not> is_valid_submission_id sid then (Inl (BadField ''submission_id''), d)
      else case d (file_path sid) of
        None \<Rightarrow> (Inl (BadField ''submission_id''), d)
      | Some Torn \<Rightarrow> (Inl JsonError, d)
      | Some (Parsed rc) \<Rightarrow>
          (case 
     bind_res (field_of ''submission_id'' (cl_b256 L (rc_submission_id rc))) (\<lambda>x.
     bind_res (verify_attestation L x kind sig) (\<lambda>_.
     bind_res (core_canonical_signature L sig) (\<lambda>sig.
     push_capped (bucket_of kind rc) sig (sig_kind_str kind)))) of
             Inl e \<Rightarrow> (Inl e, d)
           | Inr sigs \<Rightarrow> write_record we (file_path sid) (set_bucket kind sigs rc) d))"

definition store_load :: "rust_str \<Rightarrow> store_dir \<Rightarrow> store_error + submission_record option" where
  "store_load sid d =
     (if \<not> is_valid_submission_id sid then Inr None
      else case d (file_path sid) of
        None \<Rightarrow> Inr None
      | Some Torn \<Rightarrow> Inl JsonError
      | Some (Parsed rc) \<Rightarrow> Inr (Some rc))"

end
