(* ===== verification/ValidatorRefund.thy ===== *)
theory ValidatorRefund
  imports CoreStore EvmReader "HOL-Library.Option_ord" "HOL-Library.AList"
begin

text \<open>
  The validator's refund attester (validator/src/refund.rs) with the walk over the store's
  queue (bridge-core/src/backend.rs): reads of gate state that several endpoints must agree
  on, the decision, the attestation of a candidate, and one turn of the loop. The answers of
  the endpoints and of the store and the signer are parameters; times are milliseconds.
\<close>

section \<open>The walk over the queue\<close>

definition CORE_REFUND_PAGE :: nat where "CORE_REFUND_PAGE = 500"
definition CORE_MAX_REFUND_PAGES :: nat where "CORE_MAX_REFUND_PAGES = 20"

record refund_walk =
  rw_candidates :: "submission_record list"
  rw_truncated :: bool

text \<open>\<open>fetch i limit after\<close> answers page request \<open>i\<close>; the cursor is written as the walk goes on.\<close>

fun core_walk_loop ::
  "(nat \<Rightarrow> nat \<Rightarrow> rust_str option \<Rightarrow> submission_record list option) \<Rightarrow> nat \<Rightarrow> nat \<Rightarrow> rust_str option \<Rightarrow>
   submission_record list \<Rightarrow> refund_walk option \<times> rust_str option" where
  "core_walk_loop fetch 0 i after candidates = (Some \<lparr>rw_candidates = candidates, rw_truncated = True\<rparr>, after)"
| "core_walk_loop fetch (Suc left) i after candidates =
     (case fetch i CORE_REFUND_PAGE after of
        None \<Rightarrow> (None, after)
      | Some page \<Rightarrow>
          let short = length page < CORE_REFUND_PAGE;
              after = (if page = [] then after else Some (rc_submission_id (last page)));
              candidates = candidates @ page in
          if short then (Some \<lparr>rw_candidates = candidates, rw_truncated = False\<rparr>, None)
          else core_walk_loop fetch left (Suc i) after candidates)"

definition core_walk ::
  "(nat \<Rightarrow> nat \<Rightarrow> rust_str option \<Rightarrow> submission_record list option) \<Rightarrow> rust_str option \<Rightarrow>
   refund_walk option \<times> rust_str option" where
  "core_walk fetch after = core_walk_loop fetch CORE_MAX_REFUND_PAGES 0 after []"

section \<open>Corroborated reads\<close>

text \<open>One endpoint's answers while a candidate is treated: its head at each read, and the gate's state and the time at a block.\<close>

record rpc_endpoint =
  rp_head :: "nat \<Rightarrow> u64 option"
  rp_destination :: "u64 \<Rightarrow> bytes32 \<Rightarrow> (bool \<times> bool) option"
  rp_source :: "u64 \<Rightarrow> bytes32 \<Rightarrow> (address \<times> bool) option"
  rp_sent_by :: "u64 \<Rightarrow> bytes32 \<Rightarrow> address option"
  rp_time :: "u64 \<Rightarrow> u64 option"

record refund_reader =
  rr_endpoints :: "rpc_endpoint list"
  rr_confirmation :: u64
  rr_min_agree :: nat

text \<open>The healthy ones of the configured endpoints, if they are enough.\<close>

definition connect_reader :: "nat \<Rightarrow> rpc_endpoint list \<Rightarrow> u64 \<Rightarrow> bool \<Rightarrow> refund_reader option" where
  "connect_reader configured healthy block_confirmation require =
     (let m = min_agree configured require in
      if length healthy < m then None
      else Some \<lparr>rr_endpoints = healthy, rr_confirmation = block_confirmation, rr_min_agree = m\<rparr>)"

definition ask_all :: "(rpc_endpoint \<Rightarrow> 'a option) \<Rightarrow> rpc_endpoint list \<Rightarrow> (nat \<times> 'a) list" where
  "ask_all rd eps = List.map_filter (\<lambda>(i, ep). map_option (Pair i) (rd ep)) (enumerate 0 eps)"

definition agreed :: "refund_reader \<Rightarrow> (rpc_endpoint \<Rightarrow> 'a option) \<Rightarrow> 'a option" where
  "agreed r rd = (case majority (ask_all rd (rr_endpoints r)) (rr_min_agree r) of Inr v \<Rightarrow> Some v | Inl _ \<Rightarrow> None)"

definition agreed_head :: "refund_reader \<Rightarrow> nat \<Rightarrow> u64 option" where
  "agreed_head r i =
     (let heads = List.map_filter (\<lambda>ep. rp_head ep i) (rr_endpoints r) in
      if length heads < rr_min_agree r then None
      else map_option (\<lambda>latest. sat_sub latest (rr_confirmation r)) (majority_floor heads))"

record refund_dest =
  vd_executed :: bool
  vd_cancelled :: bool

record refund_src =
  vs_sent_by :: address
  vs_refunded :: bool

definition read_destination :: "refund_reader \<Rightarrow> nat \<Rightarrow> bytes32 \<Rightarrow> refund_dest option" where
  "read_destination r i x = do {
     block \<leftarrow> agreed_head r i;
     s \<leftarrow> agreed r (\<lambda>ep. rp_destination ep block x);
     Some \<lparr>vd_executed = fst s, vd_cancelled = snd s\<rparr> }"

definition read_source :: "refund_reader \<Rightarrow> nat \<Rightarrow> bytes32 \<Rightarrow> refund_src option" where
  "read_source r i x = do {
     block \<leftarrow> agreed_head r i;
     s \<leftarrow> agreed r (\<lambda>ep. rp_source ep block x);
     Some \<lparr>vs_sent_by = fst s, vs_refunded = snd s\<rparr> }"

section \<open>Age\<close>

fun aged_steps :: "rpc_endpoint \<Rightarrow> u64 \<Rightarrow> i64 \<Rightarrow> nat \<Rightarrow> u64 \<Rightarrow> u64 option option" where
  "aged_steps ep head_num target 0 step = Some None"
| "aged_steps ep head_num target (Suc left) step =
     (case checked_sub head_num step of
        None \<Rightarrow> Some None
      | Some candidate \<Rightarrow>
          (case rp_time ep candidate of
             None \<Rightarrow> None
           | Some ts \<Rightarrow>
               if sint (ucast ts :: i64) \<le> sint target then Some (Some candidate)
               else aged_steps ep head_num target left (sat_mul step 2)))"

definition aged_block_on :: "rpc_endpoint \<Rightarrow> u64 \<Rightarrow> i64 \<Rightarrow> u64 option option" where
  "aged_block_on ep head_num timeout = do {
     ts \<leftarrow> rp_time ep head_num;
     aged_steps ep head_num (isat_sub (ucast ts) timeout) 24 (first_step timeout) }"

definition agreed_aged_block :: "u64 option list \<Rightarrow> u64 option" where
  "agreed_aged_block found = Option.bind (majority_floor found) (\<lambda>b. b)"

definition reader_aged_block :: "refund_reader \<Rightarrow> nat \<Rightarrow> i64 \<Rightarrow> u64 option option" where
  "reader_aged_block r i timeout = do {
     head_num \<leftarrow> agreed_head r i;
     let found = List.map_filter (\<lambda>ep. aged_block_on ep head_num timeout) (rr_endpoints r);
     if length found < rr_min_agree r then None else Some (agreed_aged_block found) }"

definition sent_by_block :: "refund_reader \<Rightarrow> bytes32 \<Rightarrow> u64 \<Rightarrow> bool option" where
  "sent_by_block r x block = agreed r (\<lambda>ep. map_option (\<lambda>a. a \<noteq> 0) (rp_sent_by ep block x))"

section \<open>Readers that connect late\<close>

record lazy_reader =
  lz_configured :: nat
  lz_reader :: "refund_reader option"

text \<open>\<open>healthy\<close> are the endpoints that pass the probe of this turn, if it succeeds.\<close>

definition lazy_ensure :: "rpc_endpoint list option \<Rightarrow> u64 \<Rightarrow> bool \<Rightarrow> lazy_reader \<Rightarrow> lazy_reader" where
  "lazy_ensure healthy block_confirmation require l =
     (if lz_reader l \<noteq> None then l
      else l\<lparr>lz_reader := Option.bind healthy (\<lambda>h. connect_reader (lz_configured l) h block_confirmation require)\<rparr>)"

datatype reader_found = Ready refund_reader | NotReady | NoReader

definition lookup_reader :: "(u64 \<Rightarrow> lazy_reader option) \<Rightarrow> u64 \<Rightarrow> reader_found" where
  "lookup_reader readers c =
     (case readers c of
        None \<Rightarrow> NoReader
      | Some l \<Rightarrow> (case lz_reader l of Some r \<Rightarrow> Ready r | None \<Rightarrow> NotReady))"

section \<open>The decision\<close>

datatype vote_skip = VoteDelivered | VoteSource | VoteUnreadable | VoteRefundDone | VoteCancelDone | VoteTooYoung

datatype vote = VoteCancel | VoteRefund | VoteSkip vote_skip

definition vote_of :: "refund_src option \<Rightarrow> refund_dest \<Rightarrow> bool \<Rightarrow> bool \<Rightarrow> bool \<Rightarrow> vote" where
  "vote_of src dst aged_out already_cancel already_refund =
     (if vd_executed dst \<and> \<not> vd_cancelled dst then VoteSkip VoteDelivered
      else if (case src of Some s \<Rightarrow> vs_refunded s \<or> vs_sent_by s = 0 | None \<Rightarrow> False) then VoteSkip VoteSource
      else if src = None \<and> \<not> vd_cancelled dst then VoteSkip VoteUnreadable
      else if vd_cancelled dst then (if already_refund then VoteSkip VoteRefundDone else VoteRefund)
      else if already_cancel then VoteSkip VoteCancelDone
      else if \<not> aged_out then VoteSkip VoteTooYoung
      else VoteCancel)"

definition voted_by :: "core_lib \<Rightarrow> signer_sig list \<Rightarrow> bytes32 \<Rightarrow> sig_kind \<Rightarrow> address \<Rightarrow> bool" where
  "voted_by L sigs x kind me = list_ex (\<lambda>s. verify_attestation L x kind s = Inr me) sigs"

definition fully_attested_by_us :: "core_lib \<Rightarrow> submission_record \<Rightarrow> bytes32 \<Rightarrow> address \<Rightarrow> bool" where
  "fully_attested_by_us L rc x me \<longleftrightarrow>
     voted_by L (rc_cancel_signatures rc) x Cancelling me \<and> voted_by L (rc_refund_signatures rc) x Refunding me"

definition vote_id :: "core_lib \<Rightarrow> submission_record \<Rightarrow> bytes32 option" where
  "vote_id L rc =
     (case (cl_b256 L (rc_submission_id rc), canonical_submission_id L rc) of
        (Some claimed, Inr computed) \<Rightarrow> if computed = claimed then Some claimed else None
      | _ \<Rightarrow> None)"

section \<open>The memo of rows never sent\<close>

definition NOT_SENT_REST :: nat where "NOT_SENT_REST = 10 * 60 * 1000"
definition NOT_SENT_MAX_REST :: nat where "NOT_SENT_MAX_REST = 24 * 60 * 60 * 1000"
definition NOT_SENT_MAX_ENTRIES :: nat where "NOT_SENT_MAX_ENTRIES = 100000"

text \<open>Of an id, until when not to read it again and its current rest.\<close>

type_synonym not_sent_memo = "(bytes32 \<times> nat \<times> nat) list"

definition is_resting :: "not_sent_memo \<Rightarrow> bytes32 \<Rightarrow> nat \<Rightarrow> bool" where
  "is_resting rows x now = (case map_of rows x of Some (until, _) \<Rightarrow> now < until | None \<Rightarrow> False)"

definition rest_row :: "not_sent_memo \<Rightarrow> bytes32 \<Rightarrow> nat \<Rightarrow> not_sent_memo" where
  "rest_row rows x now =
     (case map_of rows x of
        Some (_, prev) \<Rightarrow> let rest = min (prev * 2) NOT_SENT_MAX_REST in AList.update x (now + rest, rest) rows
      | None \<Rightarrow>
          if length rows \<ge> NOT_SENT_MAX_ENTRIES then rows
          else AList.update x (now + NOT_SENT_REST, NOT_SENT_REST) rows)"

definition prune_rows :: "not_sent_memo \<Rightarrow> nat \<Rightarrow> not_sent_memo" where
  "prune_rows rows now = filter (\<lambda>(_, until, _). now < until + NOT_SENT_MAX_REST) rows"

section \<open>A candidate\<close>

datatype cand_outcome = CandDone | CandNotSent

text \<open>The validator: its library, address, signing function, timeout and readers.\<close>

record refund_voter =
  rv_core :: core_lib
  rv_me :: address
  rv_label :: rust_str
  rv_sign :: "bytes32 \<Rightarrow> rust_str"
  rv_timeout :: i64
  rv_sources :: "u64 \<Rightarrow> lazy_reader option"
  rv_dests :: "u64 \<Rightarrow> lazy_reader option"

text \<open>Whether the age is shown: not needed after a burn, and not to be had without a source.\<close>

definition vote_aged :: "refund_voter \<Rightarrow> refund_reader option \<Rightarrow> bool \<Rightarrow> bytes32 \<Rightarrow> bool option" where
  "vote_aged V src cancelled x =
     (if cancelled then Some True
      else case src of
        None \<Rightarrow> Some False
      | Some r \<Rightarrow> do {
          b \<leftarrow> reader_aged_block r 2 (rv_timeout V);
          case b of Some block \<Rightarrow> sent_by_block r x block | None \<Rightarrow> Some False })"

text \<open>The outcome, \<open>None\<close> on an error before anything is posted, and the attestation that is posted.\<close>

definition handle_candidate ::
  "refund_voter \<Rightarrow> submission_record \<Rightarrow> bytes32 \<Rightarrow> cand_outcome option \<times> (sig_kind \<times> signer_sig) option" where
  "handle_candidate V rc x =
     (case (lookup_reader (rv_dests V) (rc_chain_id_to rc), lookup_reader (rv_sources V) (rc_chain_id_from rc)) of
        (Ready dst, NotReady) \<Rightarrow> (Some CandDone, None)
      | (Ready dst, src) \<Rightarrow>
          let src = (case src of Ready r \<Rightarrow> Some r | _ \<Rightarrow> None) in
          (case read_destination dst 0 x of
             None \<Rightarrow> (None, None)
           | Some d \<Rightarrow>
               (case (case src of None \<Rightarrow> Some None | Some r \<Rightarrow> map_option Some (read_source r 1 x)) of
                  None \<Rightarrow> (None, None)
                | Some s \<Rightarrow>
                    if (case s of Some s \<Rightarrow> vs_sent_by s = 0 \<and> \<not> vs_refunded s | None \<Rightarrow> False) then (Some CandNotSent, None)
                    else if (case s of Some s \<Rightarrow> vs_refunded s | None \<Rightarrow> False) then (Some CandDone, None)
                    else case vote_aged V src (vd_cancelled d) x of
                      None \<Rightarrow> (None, None)
                    | Some aged_out \<Rightarrow>
                        let post = (\<lambda>kind. (Some CandDone, Some (kind,
                              \<lparr>ss_signer = rv_label V, ss_signature = rv_sign V (digest_of (cl_keccak (rv_core V)) kind x)\<rparr>))) in
                        (case vote_of s d aged_out
                            (voted_by (rv_core V) (rc_cancel_signatures rc) x Cancelling (rv_me V))
                            (voted_by (rv_core V) (rc_refund_signatures rc) x Refunding (rv_me V)) of
                           VoteSkip _ \<Rightarrow> (Some CandDone, None)
                         | VoteCancel \<Rightarrow> post Cancelling
                         | VoteRefund \<Rightarrow> post Refunding)))
      | _ \<Rightarrow> (Some CandDone, None))"

section \<open>One turn\<close>

record refund_loop =
  rl_cursor :: "rust_str option"
  rl_not_sent :: not_sent_memo

text \<open>The posts of a turn; \<open>voter i\<close> holds the answers while candidate \<open>i\<close> is treated.\<close>

fun vote_rows ::
  "(nat \<Rightarrow> refund_voter) \<Rightarrow> nat \<Rightarrow> nat \<Rightarrow> submission_record list \<Rightarrow> not_sent_memo \<Rightarrow>
   (rust_str \<times> sig_kind \<times> signer_sig) list \<times> not_sent_memo" where
  "vote_rows voter now i [] rows = ([], rows)"
| "vote_rows voter now i (rc # rcs) rows =
     (case vote_id (rv_core (voter i)) rc of
        None \<Rightarrow> vote_rows voter now (Suc i) rcs rows
      | Some x \<Rightarrow>
          if fully_attested_by_us (rv_core (voter i)) rc x (rv_me (voter i)) \<or> is_resting rows x now
          then vote_rows voter now (Suc i) rcs rows
          else case handle_candidate (voter i) rc x of
            (outcome, posted) \<Rightarrow>
              (case vote_rows voter now (Suc i) rcs (if outcome = Some CandNotSent then rest_row rows x now else rows) of
                 (posts, rows) \<Rightarrow> ((case posted of None \<Rightarrow> [] | Some p \<Rightarrow> [(rc_submission_id rc, p)]) @ posts, rows)))"

definition vote_turn ::
  "(nat \<Rightarrow> nat \<Rightarrow> rust_str option \<Rightarrow> submission_record list option) \<Rightarrow> (nat \<Rightarrow> refund_voter) \<Rightarrow> nat \<Rightarrow> refund_loop \<Rightarrow>
   (rust_str \<times> sig_kind \<times> signer_sig) list \<times> refund_loop" where
  "vote_turn fetch voter now st =
     (case core_walk fetch (rl_cursor st) of
        (None, after) \<Rightarrow> ([], st\<lparr>rl_cursor := after\<rparr>)
      | (Some w, after) \<Rightarrow>
          (case vote_rows voter now 0 (rw_candidates w) (prune_rows (rl_not_sent st) now) of
             (posts, rows) \<Rightarrow> (posts, st\<lparr>rl_cursor := after, rl_not_sent := rows\<rparr>)))"

end
