(* ===== verification/ValidatorRefundProps.thy ===== *)
theory ValidatorRefundProps
  imports ValidatorRefund ValidatorReads
begin

text \<open>What an attestation of the validator's refund loop rests on when one endpoint of a chain lies.\<close>

section \<open>Several endpoints of which one lies\<close>

text \<open>What is the case on a chain: the gate's state of an id and the time, by block.\<close>

record chain_facts =
  cf_destination :: "u64 \<Rightarrow> bytes32 \<Rightarrow> bool \<times> bool"
  cf_source :: "u64 \<Rightarrow> bytes32 \<Rightarrow> address \<times> bool"
  cf_time :: "u64 \<Rightarrow> u64"

definition endpoint_true :: "chain_facts \<Rightarrow> rpc_endpoint \<Rightarrow> bool" where
  "endpoint_true C ep \<longleftrightarrow>
     (\<forall>b x v. rp_destination ep b x = Some v \<longrightarrow> v = cf_destination C b x) \<and>
     (\<forall>b x v. rp_source ep b x = Some v \<longrightarrow> v = cf_source C b x) \<and>
     (\<forall>b x v. rp_sent_by ep b x = Some v \<longrightarrow> v = fst (cf_source C b x)) \<and>
     (\<forall>b t. rp_time ep b = Some t \<longrightarrow> t = cf_time C b)"

text \<open>At most one of the endpoints may say what is not so.\<close>

definition one_liar :: "chain_facts \<Rightarrow> refund_reader \<Rightarrow> bool" where
  "one_liar C r \<longleftrightarrow>
     (\<exists>liar. \<forall>i < length (rr_endpoints r). i \<noteq> liar \<longrightarrow> endpoint_true C (rr_endpoints r ! i))"

text \<open>
  Two endpoints must agree: so for every chain that is configured with a second endpoint or
  with \<open>require\<close>. A chain with a single endpoint and without it gets along with one answer,
  of which the code itself warns; nothing is claimed about it.
\<close>

lemma connect_reader_two:
  "connect_reader configured healthy conf require = Some r \<Longrightarrow> 2 \<le> configured \<or> require \<Longrightarrow> 2 \<le> rr_min_agree r"
  by (auto simp: connect_reader_def min_agree_def Let_def split: if_splits)

text \<open>
  The block of a read: of the heads that the endpoints report at read \<open>i\<close>, at least as many
  as must agree, the highest that a strict majority has reached, less the confirmations of
  the chain. An endpoint that tells the truth has seen the chain that far.
\<close>

definition reported_heads :: "refund_reader \<Rightarrow> nat \<Rightarrow> u64 list" where
  "reported_heads r i = List.map_filter (\<lambda>ep. rp_head ep i) (rr_endpoints r)"

definition confirmed_read :: "chain_facts \<Rightarrow> refund_reader \<Rightarrow> nat \<Rightarrow> u64 \<Rightarrow> bool" where
  "confirmed_read C r i b \<longleftrightarrow>
     (\<exists>h. h \<in> set (reported_heads r i) \<and> rr_min_agree r \<le> length (reported_heads r i) \<and>
        length (reported_heads r i) < 2 * length (filter (\<lambda>v. h \<le> v) (reported_heads r i)) \<and>
        2 * length (filter (\<lambda>v. h < v) (reported_heads r i)) \<le> length (reported_heads r i) \<and>
        unat b = unat h - unat (rr_confirmation r) \<and>
        (\<exists>ep \<in> set (rr_endpoints r). endpoint_true C ep \<and> (\<exists>seen. rp_head ep i = Some seen \<and> h \<le> seen)))"

lemma two_indices:
  assumes "distinct (map fst xs)" "2 \<le> length (filter (\<lambda>(_, v). P v) xs)"
  shows "\<exists>i v. (i, v) \<in> set xs \<and> i \<noteq> liar \<and> P v"
proof (rule ccontr)
  assume n: "\<not> ?thesis"
  let ?ys = "filter (\<lambda>(_, v). P v) xs"
  have "set (map fst ?ys) \<subseteq> {liar}"
  proof
    fix i assume "i \<in> set (map fst ?ys)"
    then obtain v where "(i, v) \<in> set xs" "P v" by auto
    then show "i \<in> {liar}" using n by blast
  qed
  moreover have "distinct (map fst ?ys)" using assms(1) by (rule distinct_map_filter)
  ultimately have "length (map fst ?ys) \<le> 1" using distinct_card card_mono [of "{liar}"] by (metis card.empty card_insert_disjoint empty_iff finite.intros One_nat_def)
  then show False using assms(2) by simp
qed

lemma ask_all_facts:
  "(i, v) \<in> set (ask_all rd eps) \<Longrightarrow> i < length eps \<and> rd (eps ! i) = Some v"
  "distinct (map fst (ask_all rd eps))" "map snd (ask_all rd eps) = List.map_filter rd eps"
proof -
  have "(i, v) \<in> set (List.map_filter (\<lambda>(i, ep). map_option (Pair i) (rd ep)) (enumerate n eps)) \<Longrightarrow>
      n \<le> i \<and> i < n + length eps \<and> rd (eps ! (i - n)) = Some v" for n
    by (auto simp: List.map_filter_def in_set_enumerate_eq)
  from this [of 0] show "(i, v) \<in> set (ask_all rd eps) \<Longrightarrow> i < length eps \<and> rd (eps ! i) = Some v"
    by (simp add: ask_all_def)
  let ?f = "\<lambda>(i, ep). map_option (Pair i) (rd ep)"
  have fst: "map fst (List.map_filter ?f xs) = map fst (filter (\<lambda>x. ?f x \<noteq> None) xs)" for xs
    by (induction xs) (auto simp: List.map_filter_simps split: option.splits)
  have "distinct (map fst (filter (\<lambda>x. ?f x \<noteq> None) (enumerate 0 eps)))" by (rule distinct_map_filter) simp
  then show "distinct (map fst (ask_all rd eps))" unfolding ask_all_def fst .
  have "map snd (List.map_filter ?f (enumerate n eps)) = List.map_filter rd eps" for n
    by (induction eps arbitrary: n) (auto simp: List.map_filter_simps split: option.splits)
  then show "map snd (ask_all rd eps) = List.map_filter rd eps" by (simp add: ask_all_def)
qed

lemma agreed_truth:
  assumes "agreed r rd = Some v" "one_liar C r" "2 \<le> rr_min_agree r"
  shows "\<exists>ep. endpoint_true C ep \<and> rd ep = Some v"
proof -
  let ?xs = "ask_all rd (rr_endpoints r)"
  obtain liar where h: "2 \<le> rr_min_agree r" "\<And>i. i < length (rr_endpoints r) \<Longrightarrow> i \<noteq> liar \<Longrightarrow> endpoint_true C (rr_endpoints r ! i)"
    using assms(2,3) by (auto simp: one_liar_def)
  have "majority ?xs (rr_min_agree r) = Inr v" using assms(1) by (simp add: agreed_def split: sum.splits)
  then have "2 \<le> length (filter (\<lambda>(_, w). w = v) ?xs)" using h(1) by (simp add: majority_Inr_iff backers_def)
  from two_indices [OF ask_all_facts(2) this] obtain i where i: "(i, v) \<in> set ?xs" "i \<noteq> liar" by blast
  from ask_all_facts(1) [OF i(1)] h(2) [of i] i(2) show ?thesis by blast
qed

lemma agreed_head_confirmed:
  assumes "agreed_head r i = Some b" "one_liar C r" "2 \<le> rr_min_agree r"
  shows "confirmed_read C r i b"
proof -
  let ?rd = "\<lambda>ep. rp_head ep i"
  let ?xs = "ask_all ?rd (rr_endpoints r)"
  have heads: "reported_heads r i = map snd ?xs" unfolding reported_heads_def by (rule ask_all_facts(3) [symmetric])
  obtain h where h: "majority_floor (reported_heads r i) = Some h" "b = sat_sub h (rr_confirmation r)"
    and n: "rr_min_agree r \<le> length (reported_heads r i)"
    using assms(1) unfolding agreed_head_def reported_heads_def [symmetric] by (auto simp: Let_def split: if_splits)
  note c = majority_floor_counts [OF h(1)]
  obtain liar where l: "\<And>j. j < length (rr_endpoints r) \<Longrightarrow> j \<noteq> liar \<Longrightarrow> endpoint_true C (rr_endpoints r ! j)"
    using assms(2) by (auto simp: one_liar_def)
  have "2 \<le> length (filter (\<lambda>(_, v). h \<le> v) ?xs)"
    using c(1) n assms(3) unfolding heads by (simp add: filter_map comp_def case_prod_unfold)
  from two_indices [OF ask_all_facts(2) this] obtain j v where j: "(j, v) \<in> set ?xs" "j \<noteq> liar" "h \<le> v" by blast
  have ep: "j < length (rr_endpoints r)" "rp_head (rr_endpoints r ! j) i = Some v"
    using ask_all_facts(1) [OF j(1)] by simp_all
  have "unat b = unat h - unat (rr_confirmation r)"
    by (simp add: h(2) sat_sub_def unat_sub word_le_nat_alt)
  then show ?thesis
    unfolding confirmed_read_def using c n l [OF ep(1) j(2)] ep j(3) nth_mem [OF ep(1)] by blast
qed

section \<open>Age\<close>

lemma aged_steps_old:
  "aged_steps ep head_num target left step = Some (Some b) \<Longrightarrow>
     b \<le> head_num \<and> (\<exists>ts. rp_time ep b = Some ts \<and> sint (ucast ts :: i64) \<le> sint target)"
proof (induction ep head_num target left step rule: aged_steps.induct)
  case (2 ep head_num target left step)
  then show ?case
    by (auto simp: checked_sub_def word_le_nat_alt unat_sub_if' split: if_splits option.splits)
qed simp

lemma reader_aged_block_old:
  assumes "reader_aged_block r i timeout = Some (Some block)" "one_liar C r" "2 \<le> rr_min_agree r"
  shows "\<exists>h b. confirmed_read C r i h \<and> block \<le> b \<and> b \<le> h \<and>
    sint (ucast (cf_time C b) :: i64) \<le> sint (isat_sub (ucast (cf_time C h)) timeout)"
proof -
  obtain h where h: "agreed_head r i = Some h" using assms(1) by (auto simp: reader_aged_block_def split: bind_splits)
  let ?rd = "\<lambda>ep. aged_block_on ep h timeout"
  let ?xs = "ask_all ?rd (rr_endpoints r)"
  obtain liar where t: "2 \<le> rr_min_agree r" "\<And>i. i < length (rr_endpoints r) \<Longrightarrow> i \<noteq> liar \<Longrightarrow> endpoint_true C (rr_endpoints r ! i)"
    using assms(2,3) by (auto simp: one_liar_def)
  have f: "rr_min_agree r \<le> length ?xs" "majority_floor (map snd ?xs) = Some (Some block)"
  proof -
    have found: "List.map_filter ?rd (rr_endpoints r) = map snd ?xs" by (rule ask_all_facts(3) [symmetric])
    have "\<not> length (List.map_filter ?rd (rr_endpoints r)) < rr_min_agree r"
      "majority_floor (List.map_filter ?rd (rr_endpoints r)) = Some (Some block)"
      using assms(1) h by (auto simp: reader_aged_block_def agreed_aged_block_def Let_def split: if_splits bind_splits)
    then show "rr_min_agree r \<le> length ?xs" "majority_floor (map snd ?xs) = Some (Some block)"
      unfolding found by simp_all
  qed
  have "length (map snd ?xs) < 2 * length (filter (\<lambda>v. Some block \<le> v) (map snd ?xs))"
    by (rule majority_floor_counts(1) [OF f(2)])
  then have "2 \<le> length (filter (\<lambda>(_, v). Some block \<le> v) ?xs)"
    using f(1) t(1) by (simp add: filter_map comp_def case_prod_unfold)
  from two_indices [OF ask_all_facts(2) this] obtain j v where j: "(j, v) \<in> set ?xs" "j \<noteq> liar" "Some block \<le> v" by blast
  then obtain b where b: "v = Some b" "block \<le> b" by (cases v) auto
  have e: "endpoint_true C (rr_endpoints r ! j)" "aged_block_on (rr_endpoints r ! j) h timeout = Some (Some b)"
    using ask_all_facts(1) [OF j(1)] t(2) [of j] j(2) b(1) by simp_all
  obtain ts where ts: "rp_time (rr_endpoints r ! j) h = Some ts"
    "aged_steps (rr_endpoints r ! j) h (isat_sub (ucast ts) timeout) 24 (first_step timeout) = Some (Some b)"
    using e(2) by (auto simp: aged_block_on_def split: bind_splits)
  obtain tb where tb: "b \<le> h" "rp_time (rr_endpoints r ! j) b = Some tb"
    "sint (ucast tb :: i64) \<le> sint (isat_sub (ucast ts) timeout)"
    using aged_steps_old [OF ts(2)] by blast
  have "tb = cf_time C b" "ts = cf_time C h" using e(1) tb(2) ts(1) unfolding endpoint_true_def by blast+
  then show ?thesis using agreed_head_confirmed [OF h assms(2,3)] b(2) tb(1,3) by blast
qed

section \<open>Votes\<close>

lemma read_destination_true:
  assumes "read_destination r i x = Some d" "one_liar C r" "2 \<le> rr_min_agree r"
  shows "\<exists>b. confirmed_read C r i b \<and> cf_destination C b x = (vd_executed d, vd_cancelled d)"
proof -
  obtain b s where s: "agreed_head r i = Some b" "agreed r (\<lambda>ep. rp_destination ep b x) = Some s"
    "d = \<lparr>vd_executed = fst s, vd_cancelled = snd s\<rparr>"
    using assms(1) by (auto simp: read_destination_def split: bind_splits)
  from agreed_truth [OF s(2) assms(2,3)] have "s = cf_destination C b x" unfolding endpoint_true_def by blast
  then show ?thesis using s(3) agreed_head_confirmed [OF s(1) assms(2,3)] by (intro exI [of _ b]) simp
qed

lemma read_source_true:
  assumes "read_source r i x = Some s" "one_liar C r" "2 \<le> rr_min_agree r"
  shows "\<exists>b. confirmed_read C r i b \<and> cf_source C b x = (vs_sent_by s, vs_refunded s)"
proof -
  obtain b v where v: "agreed_head r i = Some b" "agreed r (\<lambda>ep. rp_source ep b x) = Some v"
    "s = \<lparr>vs_sent_by = fst v, vs_refunded = snd v\<rparr>"
    using assms(1) by (auto simp: read_source_def split: bind_splits)
  from agreed_truth [OF v(2) assms(2,3)] have "v = cf_source C b x" unfolding endpoint_true_def by blast
  then show ?thesis using v(3) agreed_head_confirmed [OF v(1) assms(2,3)] by (intro exI [of _ b]) simp
qed

text \<open>
  That a deposit is old by the source chain itself: it stood in a block no later than one
  whose time lies the timeout before the time of the confirmed block of the third read.
\<close>

definition deposit_aged :: "chain_facts \<Rightarrow> refund_reader \<Rightarrow> i64 \<Rightarrow> bytes32 \<Rightarrow> bool" where
  "deposit_aged C r timeout x \<longleftrightarrow>
     (\<exists>block b h. confirmed_read C r 2 h \<and> block \<le> b \<and> b \<le> h \<and> fst (cf_source C block x) \<noteq> 0 \<and>
        sint (ucast (cf_time C b) :: i64) \<le> sint (isat_sub (ucast (cf_time C h)) timeout))"

lemma vote_aged_true:
  assumes "vote_aged V (Some r) False x = Some True" "one_liar C r" "2 \<le> rr_min_agree r"
  shows "deposit_aged C r (rv_timeout V) x"
proof -
  obtain block where b: "reader_aged_block r 2 (rv_timeout V) = Some (Some block)" "sent_by_block r x block = Some True"
    using assms(1) by (auto simp: vote_aged_def split: bind_splits option.splits)
  obtain ep where "endpoint_true C ep" "map_option (\<lambda>a. a \<noteq> 0) (rp_sent_by ep block x) = Some True"
    using agreed_truth [OF b(2) [unfolded sent_by_block_def] assms(2,3)] by blast
  then have "fst (cf_source C block x) \<noteq> 0" by (auto simp: endpoint_true_def)
  then show ?thesis using reader_aged_block_old [OF b(1) assms(2,3)] unfolding deposit_aged_def by blast
qed

text \<open>What the source gate holds at the confirmed block of the second read: sent, and not paid back.\<close>

definition source_owes :: "chain_facts \<Rightarrow> refund_reader \<Rightarrow> bytes32 \<Rightarrow> bool" where
  "source_owes C r x \<longleftrightarrow>
     (\<exists>b. confirmed_read C r 1 b \<and> fst (cf_source C b x) \<noteq> 0 \<and> \<not> snd (cf_source C b x))"

text \<open>What the answers were when an attestation was posted.\<close>

lemma handle_candidate_posts:
  assumes "handle_candidate V rc x = (out, Some (kind, sg))"
  obtains dst d s aged where "lookup_reader (rv_dests V) (rc_chain_id_to rc) = Ready dst"
    "read_destination dst 0 x = Some d"
    "case lookup_reader (rv_sources V) (rc_chain_id_from rc) of
       Ready r \<Rightarrow> (\<exists>s'. s = Some s' \<and> read_source r 1 x = Some s' \<and> vote_aged V (Some r) (vd_cancelled d) x = Some aged)
     | NotReady \<Rightarrow> False | NoReader \<Rightarrow> s = None"
    "kind = Cancelling \<and> vote_of s d aged False (voted_by (rv_core V) (rc_refund_signatures rc) x Refunding (rv_me V)) = VoteCancel \<or>
     kind = Refunding \<and> vd_cancelled d \<and> (\<forall>s'. s = Some s' \<longrightarrow> \<not> vs_refunded s' \<and> vs_sent_by s' \<noteq> 0)"
    "ss_signature sg = rv_sign V (digest_of (cl_keccak (rv_core V)) kind x)"
proof -
  show ?thesis
    using assms that
    by (auto simp: handle_candidate_def Let_def vote_of_def split: reader_found.splits option.splits if_splits vote.splits)
qed

text \<open>
  C32. What a validator's refund vote rests on. Let both chains be configured so that two
  endpoints must agree (a second endpoint or \<open>require\<close>), and let at most one endpoint of
  each lie. However the store nominates and labels a candidate, a refund is attested only
  when the destination gate holds the transfer cancelled at the confirmed block of the
  read, and then, unless no source is configured at all, only if at its own confirmed block
  the source gate has the transfer sent and not paid back; a cancel only when the
  destination gate holds it neither executed nor cancelled at the confirmed block, the
  source gate has it sent and not paid back at its own, and the deposit is older than the
  source's confirmed block by the timeout. The signature is over the message of the kind that is
  posted, and it is never a claim's.
\<close>

theorem validator_votes_grounded:
  assumes "handle_candidate V rc x = (out, Some (kind, sg))"
    and "\<And>r. lookup_reader (rv_dests V) (rc_chain_id_to rc) = Ready r \<Longrightarrow> one_liar D r"
    and "\<And>r. lookup_reader (rv_dests V) (rc_chain_id_to rc) = Ready r \<Longrightarrow> 2 \<le> rr_min_agree r"
    and "\<And>r. lookup_reader (rv_sources V) (rc_chain_id_from rc) = Ready r \<Longrightarrow> one_liar S r"
    and "\<And>r. lookup_reader (rv_sources V) (rc_chain_id_from rc) = Ready r \<Longrightarrow> 2 \<le> rr_min_agree r"
  shows "ss_signature sg = rv_sign V (digest_of (cl_keccak (rv_core V)) kind x) \<and>
    (\<exists>dst b. lookup_reader (rv_dests V) (rc_chain_id_to rc) = Ready dst \<and> confirmed_read D dst 0 b \<and>
      (kind = Refunding \<and> snd (cf_destination D b x) \<and>
         (lookup_reader (rv_sources V) (rc_chain_id_from rc) = NoReader \<or>
          (\<exists>src. lookup_reader (rv_sources V) (rc_chain_id_from rc) = Ready src \<and> source_owes S src x)) \<or>
       kind = Cancelling \<and> cf_destination D b x = (False, False) \<and>
         (\<exists>src. lookup_reader (rv_sources V) (rc_chain_id_from rc) = Ready src \<and> source_owes S src x \<and>
            deposit_aged S src (rv_timeout V) x)))"
proof -
  obtain dst d s aged where h: "lookup_reader (rv_dests V) (rc_chain_id_to rc) = Ready dst"
    "read_destination dst 0 x = Some d"
    "case lookup_reader (rv_sources V) (rc_chain_id_from rc) of
       Ready r \<Rightarrow> (\<exists>s'. s = Some s' \<and> read_source r 1 x = Some s' \<and> vote_aged V (Some r) (vd_cancelled d) x = Some aged)
     | NotReady \<Rightarrow> False | NoReader \<Rightarrow> s = None"
    "kind = Cancelling \<and> vote_of s d aged False (voted_by (rv_core V) (rc_refund_signatures rc) x Refunding (rv_me V)) = VoteCancel \<or>
     kind = Refunding \<and> vd_cancelled d \<and> (\<forall>s'. s = Some s' \<longrightarrow> \<not> vs_refunded s' \<and> vs_sent_by s' \<noteq> 0)"
    and sg: "ss_signature sg = rv_sign V (digest_of (cl_keccak (rv_core V)) kind x)"
    by (rule handle_candidate_posts [OF assms(1)])
  obtain b where b: "confirmed_read D dst 0 b" "cf_destination D b x = (vd_executed d, vd_cancelled d)"
    using read_destination_true [OF h(2) assms(2,3) [OF h(1)]] by blast
  have src: "source_owes S r x"
    if "lookup_reader (rv_sources V) (rc_chain_id_from rc) = Ready r" "read_source r 1 x = Some s'"
      "\<not> vs_refunded s'" "vs_sent_by s' \<noteq> 0" for r s'
    using read_source_true [OF that(2) assms(4,5) [OF that(1)]] that(3,4) unfolding source_owes_def by (metis fst_conv snd_conv)
  from h(4) show ?thesis
  proof
    assume k: "kind = Refunding \<and> vd_cancelled d \<and> (\<forall>s'. s = Some s' \<longrightarrow> \<not> vs_refunded s' \<and> vs_sent_by s' \<noteq> 0)"
    then have "snd (cf_destination D b x)" using b by simp
    moreover have "lookup_reader (rv_sources V) (rc_chain_id_from rc) = NoReader \<or>
        (\<exists>src. lookup_reader (rv_sources V) (rc_chain_id_from rc) = Ready src \<and> source_owes S src x)"
    proof (cases "lookup_reader (rv_sources V) (rc_chain_id_from rc)")
      case (Ready r)
      then obtain s' where "s = Some s'" "read_source r 1 x = Some s'" using h(3) by auto
      then show ?thesis using src [OF Ready] k Ready by blast
    qed (use h(3) in simp_all)
    ultimately show ?thesis using k sg h(1) b(1) by blast
  next
    assume k: "kind = Cancelling \<and> vote_of s d aged False (voted_by (rv_core V) (rc_refund_signatures rc) x Refunding (rv_me V)) = VoteCancel"
    then have v: "\<not> vd_executed d" "\<not> vd_cancelled d" "aged" "s \<noteq> None" "\<forall>s'. s = Some s' \<longrightarrow> \<not> vs_refunded s' \<and> vs_sent_by s' \<noteq> 0"
      by (auto simp: vote_of_def split: if_splits option.splits)
    obtain r s' where r: "lookup_reader (rv_sources V) (rc_chain_id_from rc) = Ready r" "s = Some s'" "read_source r 1 x = Some s'"
      "vote_aged V (Some r) False x = Some True"
      using h(3) v by (cases "lookup_reader (rv_sources V) (rc_chain_id_from rc)") auto
    have "deposit_aged S r (rv_timeout V) x" by (rule vote_aged_true [OF r(4) assms(4,5) [OF r(1)]])
    moreover have "cf_destination D b x = (False, False)" using b v by simp
    moreover have "source_owes S r x" using src [OF r(1,3)] v(5) r(2) by blast
    ultimately show ?thesis using k sg h(1) b(1) r(1) by blast
  qed
qed

section \<open>The walk and the memo\<close>

text \<open>
  A page that fails after others have been read: their rows are handed to nobody, and the
  cursor has passed them, so that the next turn goes on behind them.
\<close>

lemma failed_page_skips_rows:
  fixes rcs :: "submission_record list"
  assumes "length rcs = CORE_REFUND_PAGE" "fetch 0 CORE_REFUND_PAGE (rl_cursor st) = Some rcs"
    "fetch 1 CORE_REFUND_PAGE (Some (rc_submission_id (last rcs))) = None"
  shows "vote_turn fetch voter now st = ([], st\<lparr>rl_cursor := Some (rc_submission_id (last rcs))\<rparr>)"
proof -
  have ne: "rcs \<noteq> []" using assms(1) by (auto simp: CORE_REFUND_PAGE_def)
  have "core_walk_loop fetch (Suc (Suc n)) 0 (rl_cursor st) [] = (None, Some (rc_submission_id (last rcs)))" for n
    using assms ne by simp
  moreover have "CORE_MAX_REFUND_PAGES = Suc (Suc 18)" by (simp add: CORE_MAX_REFUND_PAGES_def)
  ultimately have "core_walk fetch (rl_cursor st) = (None, Some (rc_submission_id (last rcs)))"
    unfolding core_walk_def by metis
  then show ?thesis by (simp add: vote_turn_def)
qed

text \<open>No row rests longer than a day.\<close>

definition rests_bounded :: "not_sent_memo \<Rightarrow> bool" where
  "rests_bounded rows \<longleftrightarrow> (\<forall>x until rest. map_of rows x = Some (until, rest) \<longrightarrow> rest \<le> NOT_SENT_MAX_REST)"

lemma rest_row_bounded: "rests_bounded rows \<Longrightarrow> rests_bounded (rest_row rows x now)"
  by (auto simp: rests_bounded_def rest_row_def Let_def update_conv' NOT_SENT_REST_def NOT_SENT_MAX_REST_def
      split: option.splits if_splits)

end
