(* ===== verification/CoreStoreProps.thy ===== *)
theory CoreStoreProps
  imports CoreStore
begin

text \<open>What the signature store promises to those that read it, over any sequence of writes.\<close>

section \<open>Well-formed stores\<close>

text \<open>A signature the gate will accept, by its claimed signer, over the message of a kind.\<close>

definition authentic :: "core_lib \<Rightarrow> sig_kind \<Rightarrow> bytes32 \<Rightarrow> signer_sig \<Rightarrow> bool" where
  "authentic L k x s \<longleftrightarrow>
     (\<exists>a raw. cl_address L (ss_signer s) = Some a \<and> hex_bytes (cl_hex L) (ss_signature s) = Some raw \<and>
        cl_recover L (digest_of (cl_keccak L) k x) raw = Some a \<and> cl_canonical L raw = Some raw)"

text \<open>
  A list that began as \<open>base\<close>, unchecked, and to which only authentic signatures were added,
  each under a label (case aside) that was not yet there, and none beyond the bound.
\<close>

definition bucket_from :: "core_lib \<Rightarrow> sig_kind \<Rightarrow> bytes32 \<Rightarrow> signer_sig list \<Rightarrow> signer_sig list \<Rightarrow> bool" where
  "bucket_from L k x base sigs \<longleftrightarrow>
     (\<exists>added. sigs = base @ added \<and> length sigs \<le> max MAX_SIGNATURES_PER_SUBMISSION (length base) \<and>
        distinct (map (to_ascii_lowercase \<circ> ss_signer) added) \<and>
        (\<forall>s \<in> set added. authentic L k x s \<and> (\<forall>b \<in> set base. \<not> eq_ignore_case (ss_signer b) (ss_signer s))))"

text \<open>A record that began as one of those posted.\<close>

definition record_ok :: "core_lib \<Rightarrow> submission_record list \<Rightarrow> rust_str \<Rightarrow> submission_record \<Rightarrow> bool" where
  "record_ok L posts path rc \<longleftrightarrow>
     file_path (rc_submission_id rc) = path \<and> check_storable rc \<and> verify_token_binding L rc = Inr () \<and>
     (\<exists>x. canonical_submission_id L rc = Inr x \<and> cl_b256 L (rc_submission_id rc) = Some x \<and>
        (\<exists>first \<in> set posts. same_params first rc \<and> (\<forall>k. bucket_from L k x (bucket_of k first) (bucket_of k rc))))"

definition store_ok :: "core_lib \<Rightarrow> submission_record list \<Rightarrow> store_dir \<Rightarrow> bool" where
  "store_ok L posts d \<longleftrightarrow> (\<forall>path rc. d path = Some (Parsed rc) \<longrightarrow> record_ok L posts path rc)"

text \<open>The writes: a post of any record with a signature, and an attestation.\<close>

inductive store_step :: "core_lib \<Rightarrow> store_dir \<Rightarrow> submission_record option \<Rightarrow> store_dir \<Rightarrow> bool" for L where
  upsert: "upsert_signature L we rc sig d = (r, d') \<Longrightarrow> store_step L d (Some rc) d'"
| attest: "upsert_attestation L we sid k sig d = (r, d') \<Longrightarrow> store_step L d None d'"

text \<open>Sequences of writes, with the records that they posted.\<close>

inductive store_run :: "core_lib \<Rightarrow> store_dir \<Rightarrow> submission_record list \<Rightarrow> store_dir \<Rightarrow> bool" for L d where
  run_refl: "store_run L d [] d"
| run_step: "store_run L d posts d1 \<Longrightarrow> store_step L d1 p d2 \<Longrightarrow>
    store_run L d (posts @ (case p of None \<Rightarrow> [] | Some rc \<Rightarrow> [rc])) d2"

text \<open>A record made from an event carries no signatures of its own.\<close>

definition bare :: "submission_record \<Rightarrow> bool" where
  "bare rc \<longleftrightarrow> (\<forall>k. bucket_of k rc = [])"

section \<open>Signatures\<close>

lemma field_of_Inr [res_simps]: "field_of f x = Inr v \<longleftrightarrow> x = Some v"
  by (simp add: field_of_def split: option.splits)

lemma hex_bytes_0x_enhex:
  assumes "core_lib_ok L" "b \<noteq> []"
  shows "hex_bytes (cl_hex L) (rstr ''0x'' @ cl_enhex L b) = Some b"
  using assms by (simp add: hex_bytes_def strip_prefix_def starts_with_def core_lib_ok_def)

lemma stored_signature_authentic:
  assumes "core_lib_ok L" "verify_signature L (digest_of (cl_keccak L) k x) sig = Inr a"
    "core_canonical_signature L sig = Inr s"
  shows "authentic L k x s"
proof -
  obtain raw where raw: "cl_address L (ss_signer sig) = Some a" "hex_bytes (cl_hex L) (ss_signature sig) = Some raw"
    "cl_recover L (digest_of (cl_keccak L) k x) raw = Some a"
    using assms(2) by (auto simp: verify_signature_def core_hex_bytes_def res_simps split: option.splits if_splits)
  obtain b where b: "cl_canonical L raw = Some b" "s = \<lparr>ss_signer = ss_signer sig, ss_signature = rstr ''0x'' @ cl_enhex L b\<rparr>"
    using assms(3) raw(2) by (auto simp: core_canonical_signature_def core_hex_bytes_def res_simps split: option.splits)
  have ok: "b \<noteq> []" "cl_canonical L b = Some b" "cl_recover L m b = cl_recover L m raw" for m
    using assms(1) b(1) unfolding core_lib_ok_def by blast+
  show ?thesis
    unfolding authentic_def
    using raw ok b(2) hex_bytes_0x_enhex [OF assms(1) ok(1)] by (intro exI [of _ a] exI [of _ b]) simp
qed

lemma push_capped_from:
  assumes "push_capped sigs s kind = Inr sigs'" "bucket_from L k x base sigs" "authentic L k x s"
  shows "bucket_from L k x base sigs'"
proof (cases "sigs' = sigs")
  case False
  then have n: "sigs' = sigs @ [s]" "length sigs < MAX_SIGNATURES_PER_SUBMISSION"
    "\<And>b. b \<in> set sigs \<Longrightarrow> \<not> eq_ignore_case (ss_signer b) (ss_signer s)"
    using assms(1) by (auto simp: push_capped_def list_ex_iff split: if_splits)
  from assms(2) obtain added where a: "sigs = base @ added"
    "distinct (map (to_ascii_lowercase \<circ> ss_signer) added)"
    "\<And>s. s \<in> set added \<Longrightarrow> authentic L k x s \<and> (\<forall>b \<in> set base. \<not> eq_ignore_case (ss_signer b) (ss_signer s))"
    unfolding bucket_from_def by blast
  have "distinct (map (to_ascii_lowercase \<circ> ss_signer) (added @ [s]))"
    using a(1,2) n(3) by (force simp: eq_ignore_case_def)
  then show ?thesis
    unfolding bucket_from_def using a(1,3) n assms(3) by (intro exI [of _ "added @ [s]"]) auto
qed (use assms(2) in simp)

lemma bucket_from_refl: "bucket_from L k x base base"
  by (simp add: bucket_from_def)

lemma push_capped_set: "push_capped sigs s kind = Inr sigs' \<Longrightarrow> set sigs \<subseteq> set sigs'"
  by (auto simp: push_capped_def split: if_splits)

section \<open>Records\<close>

lemma canonical_id_updates:
  "canonical_submission_id L (rc\<lparr>rc_signatures := s\<rparr>) = canonical_submission_id L rc"
  "canonical_submission_id L (rc\<lparr>rc_cancel_signatures := s\<rparr>) = canonical_submission_id L rc"
  "canonical_submission_id L (rc\<lparr>rc_refund_signatures := s\<rparr>) = canonical_submission_id L rc"
  "canonical_submission_id L (merge_existing old rc) = canonical_submission_id L rc"
  by (simp_all add: canonical_submission_id_def merge_existing_def)

lemma storable_updates:
  "check_storable (rc\<lparr>rc_signatures := s\<rparr>) = check_storable rc"
  "check_storable (rc\<lparr>rc_cancel_signatures := s\<rparr>) = check_storable rc"
  "check_storable (rc\<lparr>rc_refund_signatures := s\<rparr>) = check_storable rc"
  by (simp_all add: check_storable_def)

lemma token_updates:
  "verify_token_binding L (rc\<lparr>rc_signatures := s\<rparr>) = verify_token_binding L rc"
  "verify_token_binding L (rc\<lparr>rc_cancel_signatures := s\<rparr>) = verify_token_binding L rc"
  "verify_token_binding L (rc\<lparr>rc_refund_signatures := s\<rparr>) = verify_token_binding L rc"
  by (simp_all add: verify_token_binding_def cong: if_cong)

lemma bucket_of_updates:
  "bucket_of k' (set_bucket k s rc) = (if k' = k then s else bucket_of k' rc)"
  "bucket_of k (merge_existing old rc) = bucket_of k old"
  "set_bucket Transfer s rc = rc\<lparr>rc_signatures := s\<rparr>"
  by (cases k; cases k'; simp add: bucket_of_def set_bucket_def merge_existing_def)
     (cases k; simp add: bucket_of_def set_bucket_def merge_existing_def)+

lemma set_bucket_fields:
  "rc_submission_id (set_bucket k s rc) = rc_submission_id rc" "rc_token (set_bucket k s rc) = rc_token rc"
  "check_storable (set_bucket k s rc) = check_storable rc"
  "canonical_submission_id L (set_bucket k s rc) = canonical_submission_id L rc"
  "verify_token_binding L (set_bucket k s rc) = verify_token_binding L rc"
  "same_params a (set_bucket k s rc) = same_params a rc"
  by (cases k; simp add: set_bucket_def storable_updates canonical_id_updates token_updates same_params_def)+

lemma merge_existing_fields:
  "rc_submission_id (merge_existing old rc) = rc_submission_id rc"
  "rc_debridge_id (merge_existing old rc) = rc_debridge_id rc" "rc_chain_id_from (merge_existing old rc) = rc_chain_id_from rc"
  "rc_token (merge_existing old rc) = (if rc_token old \<noteq> [] then rc_token old else rc_token rc)"
  "same_params a (merge_existing old rc) = same_params a rc"
  by (simp_all add: merge_existing_def same_params_def)

lemma same_params_refl: "same_params a a"
  by (simp add: same_params_def eq_ignore_case_def)

lemma same_params_trans: "same_params a b \<Longrightarrow> same_params b c \<Longrightarrow> same_params a c"
  by (simp add: same_params_def eq_ignore_case_def)

lemma same_params_fields:
  "same_params first (merge_existing old rc) = same_params first rc"
  "same_params first (rc\<lparr>rc_signatures := s\<rparr>) = same_params first rc"
  by (simp_all add: merge_existing_def same_params_def)

lemma set_bucket_ok:
  assumes "record_ok L posts p rc" "cl_b256 L (rc_submission_id rc) = Some x"
    and "\<And>base. bucket_from L k x base (bucket_of k rc) \<Longrightarrow> bucket_from L k x base sigs"
  shows "record_ok L posts p (set_bucket k sigs rc)"
  using assms(1,2) unfolding record_ok_def
  by (auto simp: set_bucket_fields bucket_of_updates intro!: assms(3))

lemma record_ok_mono: "record_ok L posts p rc \<Longrightarrow> set posts \<subseteq> set posts' \<Longrightarrow> record_ok L posts' p rc"
  unfolding record_ok_def by blast

lemma store_ok_mono: "store_ok L posts d \<Longrightarrow> set posts \<subseteq> set posts' \<Longrightarrow> store_ok L posts' d"
  unfolding store_ok_def using record_ok_mono by blast

lemma check_incoming_Inr:
  assumes "core_lib_ok L" "check_incoming L rc sig = Inr s"
  obtains x where "check_storable rc" "canonical_submission_id L rc = Inr x" "cl_b256 L (rc_submission_id rc) = Some x"
    "authentic L Transfer x s" "verify_token_binding L rc = Inr ()"
proof -
  obtain x a where c: "check_storable rc" "canonical_submission_id L rc = Inr x" "cl_b256 L (rc_submission_id rc) = Some x"
    "verify_signature L x sig = Inr a" "core_canonical_signature L sig = Inr s" "verify_token_binding L rc = Inr ()"
    using assms(2) by (auto simp: check_incoming_def res_simps split: if_splits)
  have "authentic L Transfer x s"
    using stored_signature_authentic [OF assms(1) _ c(5), of Transfer x a] c(4) by (simp add: digest_of_def)
  then show ?thesis using that c by blast
qed

lemma merge_existing_ok:
  assumes "core_lib_ok L" "record_ok L posts p old" "same_params old rc"
    and "check_storable rc" "canonical_submission_id L rc = Inr x" "cl_b256 L (rc_submission_id rc) = Some x"
      "verify_token_binding L rc = Inr ()" "file_path (rc_submission_id rc) = p"
  shows "record_ok L posts p (merge_existing old rc)"
proof -
  obtain y first where y: "cl_b256 L (rc_submission_id old) = Some y"
    "\<And>k. bucket_from L k y (bucket_of k first) (bucket_of k old)"
    "check_storable old" "verify_token_binding L old = Inr ()" "first \<in> set posts" "same_params first old"
    using assms(2) by (auto simp: record_ok_def)
  have same: "cl_b256 L a = Some u \<Longrightarrow> cl_b256 L b = Some v \<Longrightarrow> eq_ignore_case a b \<Longrightarrow> u = v" for a b u v
    using assms(1) unfolding core_lib_ok_def by blast
  have e: "eq_ignore_case (rc_submission_id old) (rc_submission_id rc)" "eq_ignore_case (rc_debridge_id old) (rc_debridge_id rc)"
    "rc_chain_id_from old = rc_chain_id_from rc"
    using assms(3) by (simp_all add: same_params_def)
  have "y = x" by (rule same [OF y(1) assms(6) e(1)])
  moreover have "check_storable (merge_existing old rc)"
    using assms(4) y(3) by (simp add: check_storable_def merge_existing_def)
  moreover have "verify_token_binding L (merge_existing old rc) = Inr ()"
  proof (cases "rc_token old = []")
    case True
    then show ?thesis using assms(7) by (simp add: verify_token_binding_def merge_existing_fields cong: if_cong)
  next
    case False
    obtain did' where d': "cl_b256 L (rc_debridge_id rc) = Some did'"
      using assms(5) by (auto simp: canonical_submission_id_def res_simps)
    obtain tok did where d: "cl_address L (rc_token old) = Some tok" "cl_b256 L (rc_debridge_id old) = Some did"
      "core_debridge_id (cl_keccak L) (ucast (rc_chain_id_from old)) tok = did"
      using y(4) False by (auto simp: verify_token_binding_def res_simps split: if_splits)
    have "did = did'" by (rule same [OF d(2) d' e(2)])
    then show ?thesis using False d d' e(3) by (simp add: verify_token_binding_def merge_existing_fields field_of_def)
  qed
  ultimately show ?thesis
    using assms(5,6,8) y(2,5) same_params_trans [OF y(6) assms(3)]
    by (auto simp: record_ok_def merge_existing_fields canonical_id_updates bucket_of_updates)
qed

section \<open>Writes\<close>

lemma write_record_cases:
  assumes "write_record we path rc d = (r, d')"
  shows "d' = d \<or> d' = d(path \<mapsto> Torn) \<or> d' = d(path \<mapsto> Parsed rc)"
  using assms by (auto simp: write_record_def split: write_end.splits)

lemma store_ok_upd:
  assumes "write_record we path rc d = (r, d')" "store_ok L posts d" "record_ok L posts path rc"
  shows "store_ok L posts d'"
  using write_record_cases [OF assms(1)] assms(2,3) by (auto simp: store_ok_def split: if_splits)

text \<open>What an upsert writes, when it writes.\<close>

lemma upsert_signature_cases:
  assumes "upsert_signature L we rc sig d = (r, d')"
  obtains "d' = d"
  | s sigs where "check_incoming L rc sig = Inr s" "d (file_path (rc_submission_id rc)) = None"
      "push_capped (rc_signatures rc) s (rstr ''transfer'') = Inr sigs"
      "write_record we (file_path (rc_submission_id rc)) (rc\<lparr>rc_signatures := sigs\<rparr>) d = (r, d')"
  | s sigs old where "check_incoming L rc sig = Inr s" "d (file_path (rc_submission_id rc)) = Some (Parsed old)"
      "same_params old rc" "push_capped (rc_signatures old) s (rstr ''transfer'') = Inr sigs"
      "write_record we (file_path (rc_submission_id rc)) ((merge_existing old rc)\<lparr>rc_signatures := sigs\<rparr>) d = (r, d')"
proof -
  have m: "rc_signatures (merge_existing old rc) = rc_signatures old" for old by (simp add: merge_existing_def)
  show ?thesis
    using assms that unfolding upsert_signature_def Let_def
    by (auto simp: m split: sum.splits option.splits stored_file.splits if_splits)
qed

lemma upsert_attestation_cases:
  assumes "upsert_attestation L we sid kind sig d = (r, d')"
  obtains "d' = d"
  | rc x a s sigs where "d (file_path sid) = Some (Parsed rc)" "cl_b256 L (rc_submission_id rc) = Some x"
      "verify_attestation L x kind sig = Inr a" "core_canonical_signature L sig = Inr s"
      "push_capped (bucket_of kind rc) s (sig_kind_str kind) = Inr sigs"
      "write_record we (file_path sid) (set_bucket kind sigs rc) d = (r, d')"
  using assms that unfolding upsert_attestation_def
  by (auto simp: res_simps split: sum.splits option.splits stored_file.splits if_splits)

lemma upsert_ok:
  assumes "core_lib_ok L" "upsert_signature L we rc sig d = (r, d')" "store_ok L posts d" "rc \<in> set posts"
  shows "store_ok L posts d'"
  using assms(2)
proof (cases rule: upsert_signature_cases)
  case 1
  then show ?thesis using assms(3) by simp
next
  case (2 s sigs)
  obtain x where x: "check_storable rc" "canonical_submission_id L rc = Inr x" "cl_b256 L (rc_submission_id rc) = Some x"
    "authentic L Transfer x s" "verify_token_binding L rc = Inr ()"
    by (rule check_incoming_Inr [OF assms(1) 2(1)])
  have "record_ok L posts (file_path (rc_submission_id rc)) rc"
    unfolding record_ok_def using x assms(4) same_params_refl [of rc] bucket_from_refl by blast
  then show ?thesis
    using store_ok_upd [OF 2(4) assms(3)] push_capped_from [OF 2(3) _ x(4)]
      set_bucket_ok [OF _ x(3), of posts _ Transfer sigs]
    by (simp add: bucket_of_updates) (simp add: bucket_of_def)
next
  case (3 s sigs old)
  obtain x where x: "check_storable rc" "canonical_submission_id L rc = Inr x" "cl_b256 L (rc_submission_id rc) = Some x"
    "authentic L Transfer x s" "verify_token_binding L rc = Inr ()"
    by (rule check_incoming_Inr [OF assms(1) 3(1)])
  have "record_ok L posts (file_path (rc_submission_id rc)) old" using assms(3) 3(2) by (simp add: store_ok_def)
  note m = merge_existing_ok [OF assms(1) this 3(3) x(1,2,3,5) refl]
  have "record_ok L posts (file_path (rc_submission_id rc)) (set_bucket Transfer sigs (merge_existing old rc))"
    by (rule set_bucket_ok [OF m, of x])
      (use push_capped_from [OF 3(4) _ x(4)] x(3) in
        \<open>simp_all add: merge_existing_fields bucket_of_updates, simp add: bucket_of_def\<close>)
  then show ?thesis
    using store_ok_upd [OF 3(5) assms(3)] by (simp add: bucket_of_updates merge_existing_fields)
qed

lemma attest_ok:
  assumes "core_lib_ok L" "upsert_attestation L we sid k sig d = (r, d')" "store_ok L posts d"
  shows "store_ok L posts d'"
  using assms(2)
proof (cases rule: upsert_attestation_cases)
  case 1
  then show ?thesis using assms(3) by simp
next
  case (2 rc x a s sigs)
  have ok: "record_ok L posts (file_path sid) rc" using assms(3) 2(1) by (simp add: store_ok_def)
  have "authentic L k x s"
    by (rule stored_signature_authentic [OF assms(1) 2(3) [unfolded verify_attestation_def] 2(4)])
  then show ?thesis
    by (intro store_ok_upd [OF 2(6) assms(3) set_bucket_ok [OF ok 2(2)]] push_capped_from [OF 2(5)])
qed

lemma store_run_ok: "store_run L (\<lambda>_. None) posts d \<Longrightarrow> core_lib_ok L \<Longrightarrow> store_ok L posts d"
proof (induction rule: store_run.induct)
  case run_refl
  show ?case by (simp add: store_ok_def)
next
  case (run_step posts d1 p d2)
  have "store_ok L (posts @ (case p of None \<Rightarrow> [] | Some rc \<Rightarrow> [rc])) d1"
    using store_ok_mono [OF run_step.IH [OF run_step.prems]] by simp
  with run_step(2) run_step.prems show ?case
    by cases (auto intro: upsert_ok attest_ok)
qed

text \<open>With nothing but bare records posted, all that is in a list is authentic.\<close>

lemma store_run_bare:
  assumes "store_run L (\<lambda>_. None) posts d" "core_lib_ok L" "\<And>p. p \<in> set posts \<Longrightarrow> bare p" "d path = Some (Parsed rc)"
  shows "\<exists>x. canonical_submission_id L rc = Inr x \<and> cl_b256 L (rc_submission_id rc) = Some x \<and>
    (\<forall>k. \<forall>s \<in> set (bucket_of k rc). authentic L k x s)"
proof -
  have "record_ok L posts path rc" using store_run_ok [OF assms(1,2)] assms(4) by (simp add: store_ok_def)
  then show ?thesis using assms(3) by (fastforce simp: record_ok_def bucket_from_def bare_def)
qed


text \<open>
  The label is compared, not the address: a signer whose address is read from two labels,
  as with and without the leading \<open>0x\<close>, gets two rows.
\<close>

lemma two_rows_of_one_signer:
  assumes "authentic L k x s" "cl_address L other = cl_address L (ss_signer s)" "\<not> eq_ignore_case (ss_signer s) other"
  shows "authentic L k x (s\<lparr>ss_signer := other\<rparr>) \<and>
    push_capped [s] (s\<lparr>ss_signer := other\<rparr>) kind = Inr [s, s\<lparr>ss_signer := other\<rparr>]"
  using assms by (simp add: authentic_def push_capped_def MAX_SIGNATURES_PER_SUBMISSION_def)

section \<open>Permanence\<close>

text \<open>What a later state of the store keeps of a record, and of a file.\<close>

definition record_kept :: "submission_record \<Rightarrow> submission_record \<Rightarrow> bool" where
  "record_kept rc rc' \<longleftrightarrow>
     same_params rc rc' \<and> (rc_token rc \<noteq> [] \<longrightarrow> rc_token rc' = rc_token rc) \<and>
     (\<forall>k. set (bucket_of k rc) \<subseteq> set (bucket_of k rc'))"

lemma record_kept_refl: "record_kept rc rc"
  by (simp add: record_kept_def same_params_refl)

lemma record_kept_trans: "record_kept a b \<Longrightarrow> record_kept b c \<Longrightarrow> record_kept a c"
  using same_params_trans [of a b c] unfolding record_kept_def by fastforce

definition kept_file :: "stored_file option \<Rightarrow> stored_file option \<Rightarrow> bool" where
  "kept_file f f' \<longleftrightarrow>
     (case f of
        None \<Rightarrow> True
      | Some Torn \<Rightarrow> f' = Some Torn
      | Some (Parsed rc) \<Rightarrow> f' = Some Torn \<or> (\<exists>rc'. f' = Some (Parsed rc') \<and> record_kept rc rc'))"

lemma kept_file_refl: "kept_file f f"
  by (auto simp: kept_file_def record_kept_refl split: option.splits stored_file.splits)

lemma kept_file_trans: "kept_file f g \<Longrightarrow> kept_file g h \<Longrightarrow> kept_file f h"
  by (auto simp: kept_file_def split: option.splits stored_file.splits dest: record_kept_trans)

lemma kept_file_write:
  assumes "write_record we path new d = (r, d')" "kept_file (d path) (Some (Parsed new))"
  shows "kept_file (d p) (d' p)"
proof (cases "p = path")
  case True
  have "kept_file (d path) (Some Torn)" if "d path \<noteq> None" using that by (auto simp: kept_file_def split: option.splits stored_file.splits)
  moreover have "kept_file None f" for f by (simp add: kept_file_def)
  ultimately show ?thesis
    using write_record_cases [OF assms(1)] assms(2) True kept_file_refl
    by (cases "d path") auto
next
  case False
  then show ?thesis using write_record_cases [OF assms(1)] kept_file_refl by auto
qed

lemma store_step_kept:
  assumes "store_step L d p' d'"
  shows "kept_file (d p) (d' p)"
  using assms
proof cases
  case (upsert we rc sig r)
  from upsert(2) show ?thesis
  proof (cases rule: upsert_signature_cases)
    case 1
    then show ?thesis by (simp add: kept_file_refl)
  next
    case (2 s sigs)
    show ?thesis by (rule kept_file_write [OF 2(4)]) (simp add: 2(2) kept_file_def)
  next
    case (3 s sigs old)
    have "set (bucket_of k old) \<subseteq> set (bucket_of k (set_bucket Transfer sigs (merge_existing old rc)))" for k
      using push_capped_set [OF 3(4)] by (cases k) (auto simp: bucket_of_updates bucket_of_def set_bucket_def merge_existing_def)
    then show ?thesis
      by (intro kept_file_write [OF 3(5)])
        (simp add: 3(2,3) kept_file_def record_kept_def set_bucket_fields merge_existing_fields flip: bucket_of_updates(3))
  qed
next
  case (attest we sid k sig r)
  from attest(2) show ?thesis
  proof (cases rule: upsert_attestation_cases)
    case 1
    then show ?thesis by (simp add: kept_file_refl)
  next
    case (2 rc x a s sigs)
    have "set (bucket_of k' rc) \<subseteq> set (bucket_of k' (set_bucket k sigs rc))" for k'
      using push_capped_set [OF 2(5)] by (simp add: bucket_of_updates)
    then show ?thesis
      by (intro kept_file_write [OF 2(6)]) (simp add: 2(1) kept_file_def record_kept_def set_bucket_fields same_params_refl)
  qed
qed

lemma store_run_kept: "store_run L d posts d' \<Longrightarrow> kept_file (d p) (d' p)"
  by (induction rule: store_run.induct) (auto intro: kept_file_refl kept_file_trans store_step_kept)

text \<open>
  What is stored stays. Once a record is stored, no sequence of writes changes its
  parameters or its token, or removes a signature from it; the only other thing that can
  happen to its file is a write that the disk tore.
\<close>

theorem stored_params_immutable:
  assumes "store_run L d posts d'" "d path = Some (Parsed rc)"
  shows "d' path = Some Torn \<or>
    (\<exists>rc'. d' path = Some (Parsed rc') \<and> same_params rc rc' \<and> (rc_token rc \<noteq> [] \<longrightarrow> rc_token rc' = rc_token rc) \<and>
       (\<forall>k. set (bucket_of k rc) \<subseteq> set (bucket_of k rc')))"
  using store_run_kept [OF assms(1), of path] assms(2) by (simp add: kept_file_def record_kept_def)

text \<open>
  The lists of a record that is not yet stored are not checked: whatever cancel and refund
  signatures it carries are stored with it.
\<close>

lemma first_post_unchecked:
  assumes "check_incoming L rc sig = Inr s" "d (file_path (rc_submission_id rc)) = None" "rc_signatures rc = []"
  shows "\<exists>rc'. upsert_signature L Written rc sig d = (Inr rc', d(file_path (rc_submission_id rc) \<mapsto> Parsed rc')) \<and>
    rc_cancel_signatures rc' = rc_cancel_signatures rc \<and> rc_refund_signatures rc' = rc_refund_signatures rc"
  using assms by (simp add: upsert_signature_def Let_def push_capped_def write_record_def MAX_SIGNATURES_PER_SUBMISSION_def)

end
