(* ===== verification/CoreStoreDemo.thy ===== *)
theory CoreStoreDemo
  imports CoreStoreProps
begin

text \<open>One write to an empty store, under a library in which every number reads as the same one.\<close>

definition demo_lib :: core_lib where
  "demo_lib = \<lparr>cl_keccak = (\<lambda>_. 5), cl_abi = (\<lambda>_. None), cl_hex = (\<lambda>s. Some (map of_nat s)),
     cl_enhex = map unat, cl_b256 = (\<lambda>_. Some 5), cl_u256 = (\<lambda>_. Some 10), cl_address = (\<lambda>_. Some 7),
     cl_recover = (\<lambda>_ _. Some 7), cl_canonical = (\<lambda>b. if b = [] then None else Some b)\<rparr>"

lemma demo_lib_ok: "core_lib_ok demo_lib"
  by (simp add: core_lib_ok_def demo_lib_def comp_def)

definition demo_stored_id :: rust_str where "demo_stored_id = replicate 64 48"

definition demo_incoming :: submission_record where
  "demo_incoming = \<lparr>rc_submission_id = demo_stored_id, rc_bridge_domain = [49], rc_debridge_id = [49], rc_amount = [49, 48],
     rc_bridge_decimals = Some 6, rc_chain_id_from = 1, rc_chain_id_to = 7, rc_nonce = 0, rc_receiver = [8],
     rc_auto_params = [], rc_native_sender = [6], rc_token = [50], rc_signatures = [], rc_cancel_signatures = [],
     rc_refund_signatures = []\<rparr>"

definition demo_signature :: signer_sig where
  "demo_signature = \<lparr>ss_signer = [55], ss_signature = [1, 2]\<rparr>"

lemma demo_stored_id_valid: "is_valid_submission_id demo_stored_id" "file_path demo_stored_id = demo_stored_id"
  by (simp_all add: is_valid_submission_id_def file_path_def without_0x_def strip_prefix_def starts_with_def rstr_def
      demo_stored_id_def is_hex_digit_def list_all_iff numeral_eq_Suc)

lemma demo_checked: "\<exists>s. check_incoming demo_lib demo_incoming demo_signature = Inr s"
proof -
  have h: "hex_bytes (cl_hex demo_lib) s = Some (map of_nat s)" if "strip_prefix s (rstr ''0x'') = None" for s
    using that by (simp add: hex_bytes_def demo_lib_def)
  have p: "strip_prefix [8] (rstr ''0x'') = None" "strip_prefix [6] (rstr ''0x'') = None" "strip_prefix [] (rstr ''0x'') = None"
    "strip_prefix [1, 2] (rstr ''0x'') = None" "strip_prefix [Suc 0, 2] (rstr ''0x'') = None"
    by (simp_all add: strip_prefix_def starts_with_def rstr_def)
  have c: "canonical_submission_id demo_lib demo_incoming = Inr 5"
    by (simp add: canonical_submission_id_def core_hex_bytes_def field_of_def h p demo_incoming_def)
      (simp add: demo_lib_def decode_auto_params_def core_submission_id_def Let_def field_of_def)
  have v: "verify_signature demo_lib x demo_signature = Inr 7"
    "\<exists>s. core_canonical_signature demo_lib demo_signature = Inr s" for x
    by (simp_all add: verify_signature_def core_canonical_signature_def core_hex_bytes_def field_of_def h p demo_signature_def)
      (simp_all add: demo_lib_def)
  have t: "verify_token_binding demo_lib demo_incoming = Inr ()"
    by (simp add: verify_token_binding_def demo_lib_def demo_incoming_def field_of_def core_debridge_id_def)
  have s: "check_storable demo_incoming"
    by (simp add: check_storable_def bounded_hex_def demo_incoming_def MAX_ACCOUNT_BYTES_def MAX_AUTO_PARAMS_BYTES_def
        MAX_UINT256_DECIMAL_LEN_def strip_prefix_def starts_with_def rstr_def)
  have b: "cl_b256 demo_lib i = Some 5" "rc_submission_id demo_incoming = demo_stored_id" for i
    by (simp_all add: demo_lib_def demo_incoming_def)
  show ?thesis using v by (auto simp: check_incoming_def demo_stored_id_valid c t s b field_of_def)
qed

lemma demo_stored:
  "\<exists>d rc. store_run demo_lib (\<lambda>_. None) [demo_incoming] d \<and> d demo_stored_id = Some (Parsed rc) \<and> length (rc_signatures rc) = 1"
proof -
  obtain s where s: "check_incoming demo_lib demo_incoming demo_signature = Inr s" using demo_checked by blast
  have f: "rc_submission_id demo_incoming = demo_stored_id" "rc_signatures demo_incoming = []"
    by (simp_all add: demo_incoming_def)
  let ?rc = "demo_incoming\<lparr>rc_signatures := [s]\<rparr>"
  have u: "upsert_signature demo_lib Written demo_incoming demo_signature (\<lambda>_. None) =
      (Inr ?rc, (\<lambda>_. None)(demo_stored_id \<mapsto> Parsed ?rc))"
    by (simp add: upsert_signature_def s Let_def push_capped_def write_record_def f demo_stored_id_valid
        MAX_SIGNATURES_PER_SUBMISSION_def)
  have "store_run demo_lib (\<lambda>_. None) [demo_incoming] ((\<lambda>_. None)(demo_stored_id \<mapsto> Parsed ?rc))"
    using run_step [OF run_refl upsert [OF u]] by simp
  then show ?thesis by (intro exI [of _ "(\<lambda>_. None)(demo_stored_id \<mapsto> Parsed ?rc)"] exI [of _ ?rc]) simp
qed


theorem stored_params_immutable_witness:
  "\<exists>d rc. d demo_stored_id = Some (Parsed rc) \<and>
     (d demo_stored_id = Some Torn \<or> (\<exists>rc'. d demo_stored_id = Some (Parsed rc') \<and> same_params rc rc'))"
proof -
  obtain d rc where d: "d demo_stored_id = Some (Parsed rc)" using demo_stored by blast
  show ?thesis using stored_params_immutable [OF run_refl [of demo_lib d] d] d by blast
qed

end
