(* ===== verification/ValidatorRefundDemo.thy ===== *)
theory ValidatorRefundDemo
  imports ValidatorRefundProps CoreStoreDemo
begin

text \<open>A deposit older than the timeout, undelivered at its destination, read by two endpoints of each chain.\<close>

definition vote_facts :: chain_facts where
  "vote_facts = \<lparr>cf_destination = (\<lambda>_ _. (False, False)), cf_source = (\<lambda>_ _. (3, False)), cf_time = (\<lambda>b. 100 * b)\<rparr>"

definition vote_endpoint :: rpc_endpoint where
  "vote_endpoint = \<lparr>rp_head = (\<lambda>_. Some 1000), rp_destination = (\<lambda>_ _. Some (False, False)), rp_source = (\<lambda>_ _. Some (3, False)),
     rp_sent_by = (\<lambda>_ _. Some 3), rp_time = (\<lambda>b. Some (100 * b))\<rparr>"

definition vote_reader :: refund_reader where
  "vote_reader = \<lparr>rr_endpoints = [vote_endpoint, vote_endpoint], rr_confirmation = 10, rr_min_agree = 2\<rparr>"

definition vote_voter :: refund_voter where
  "vote_voter = \<lparr>rv_core = demo_lib, rv_me = 7, rv_label = [55], rv_sign = (\<lambda>_. [1, 2]), rv_timeout = 600,
     rv_sources = (\<lambda>_. Some \<lparr>lz_configured = 2, lz_reader = Some vote_reader\<rparr>),
     rv_dests = (\<lambda>_. Some \<lparr>lz_configured = 2, lz_reader = Some vote_reader\<rparr>)\<rparr>"

lemma vote_one_liar: "one_liar vote_facts vote_reader"
  by (auto simp: one_liar_def vote_reader_def endpoint_true_def vote_endpoint_def vote_facts_def less_Suc_eq numeral_2_eq_2)

lemma vote_agreed: "agreed vote_reader rd = rd vote_endpoint"
  by (cases "rd vote_endpoint")
    (simp_all add: agreed_def ask_all_def vote_reader_def List.map_filter_simps majority_def backers_def)

lemma vote_head: "agreed_head vote_reader i = Some 990"
  by (simp add: agreed_head_def vote_reader_def vote_endpoint_def List.map_filter_simps majority_floor_def sat_sub_def)

lemma vote_aged_on: "aged_block_on vote_endpoint 990 600 = Some (Some 940)"
proof -
  have "rp_time vote_endpoint b = Some (100 * b)" for b by (simp add: vote_endpoint_def)
  moreover have "aged_steps ep head_num target 24 step = aged_steps ep head_num target (Suc 23) step" for ep head_num target step
    by simp
  ultimately show ?thesis
    by (simp only: aged_block_on_def aged_steps.simps)
      (simp add: first_step_def isat_sub_def i64_clamp_def i64_min_def i64_max_def checked_sub_def)
qed

lemma vote_aged_block: "reader_aged_block vote_reader i 600 = Some (Some 940)"
  by (simp add: reader_aged_block_def vote_head)
    (simp add: vote_reader_def vote_aged_on List.map_filter_simps agreed_aged_block_def majority_floor_def)

lemma vote_posted:
  "handle_candidate vote_voter demo_incoming 5 =
     (Some CandDone, Some (Cancelling, \<lparr>ss_signer = [55], ss_signature = [1, 2]\<rparr>))"
proof -
  have e: "rp_destination vote_endpoint b x = Some (False, False)" "rp_source vote_endpoint b x = Some (3, False)"
    "rp_sent_by vote_endpoint b x = Some 3" for b x by (simp_all add: vote_endpoint_def)
  have v: "lookup_reader (rv_dests vote_voter) c = Ready vote_reader" "lookup_reader (rv_sources vote_voter) c = Ready vote_reader"
    "rv_timeout vote_voter = 600" "rv_label vote_voter = [55]" "rv_sign vote_voter m = [1, 2]" for c m
    by (simp_all add: vote_voter_def lookup_reader_def)
  have "vote_aged vote_voter (Some vote_reader) False 5 = Some True"
    by (simp add: vote_aged_def v vote_aged_block sent_by_block_def vote_agreed e)
  then show ?thesis
    by (simp add: handle_candidate_def v read_destination_def read_source_def vote_head vote_agreed e vote_of_def voted_by_def
        demo_incoming_def Let_def)
qed

lemma vote_readers:
  "lookup_reader (rv_dests vote_voter) c = Ready r \<Longrightarrow> one_liar vote_facts r"
  "lookup_reader (rv_dests vote_voter) c = Ready r \<Longrightarrow> 2 \<le> rr_min_agree r"
  "lookup_reader (rv_sources vote_voter) c = Ready r \<Longrightarrow> one_liar vote_facts r"
  "lookup_reader (rv_sources vote_voter) c = Ready r \<Longrightarrow> 2 \<le> rr_min_agree r"
  using vote_one_liar by (auto simp: vote_voter_def lookup_reader_def vote_reader_def)

theorem validator_votes_grounded_witness:
  "(\<exists>b. confirmed_read vote_facts vote_reader 0 b \<and> cf_destination vote_facts b 5 = (False, False)) \<and>
   source_owes vote_facts vote_reader 5 \<and> deposit_aged vote_facts vote_reader 600 5"
  using validator_votes_grounded [OF vote_posted vote_readers]
  by (auto simp: vote_voter_def lookup_reader_def)

end
