(* ===== verification/KeeperTx.thy ===== *)
theory KeeperTx
  imports CoreStore "HOL-Library.AList"
begin

text \<open>
  How the keeper (keeper/src/main.rs) treats a transaction whose receipt does not arrive:
  the memo of transactions in flight, the probes that decide whether another may be sent,
  the replacement of a stuck one at its own nonce with a higher fee, and the watch over a
  nonce that nothing in the process remembers. Times are milliseconds; the node's answers
  are parameters.
\<close>

section \<open>Constants and requests\<close>

definition RECEIPT_TIMEOUT :: nat where "RECEIPT_TIMEOUT = 120000"
definition HEAD_CHECK_INTERVAL :: nat where "HEAD_CHECK_INTERVAL = RECEIPT_TIMEOUT div 12"
definition FEE_BUMP_DIVISOR :: u128 where "FEE_BUMP_DIVISOR = 8"
definition MAX_FEE_BUMPS :: nat where "MAX_FEE_BUMPS = 5"
definition MAX_FEE_MULTIPLE :: u128 where "MAX_FEE_MULTIPLE = 4"
definition SELF_TRANSFER_GAS :: u64 where "SELF_TRANSFER_GAS = 21000"

record tx_request =
  tr_from :: "address option"
  tr_to :: "address option"
  tr_value :: "bytes32 option"
  tr_input :: bytes
  tr_nonce :: "u64 option"
  tr_gas :: "u64 option"
  tr_max_fee :: "u128 option"
  tr_tip :: "u128 option"
  tr_gas_price :: "u128 option"

record fee_estimate =
  fe_max_fee :: u128
  fe_tip :: u128

section \<open>Fees\<close>

definition sat_mul_u128 :: "u128 \<Rightarrow> u128 \<Rightarrow> u128" where
  "sat_mul_u128 x y = (if unat x * unat y < 2 ^ 128 then x * y else - 1)"

definition bumped_fee :: "u128 \<Rightarrow> u128 option \<Rightarrow> u128 \<Rightarrow> u128 option" where
  "bumped_fee current estimate ceiling =
     (let least = sat_add (sat_add current (current div FEE_BUMP_DIVISOR)) 1 in
      if least > ceiling then None
      else Some (min (case estimate of None \<Rightarrow> least | Some e \<Rightarrow> max e least) ceiling))"

definition reprice :: "tx_request \<Rightarrow> fee_estimate option \<Rightarrow> u128 option \<Rightarrow> u128 \<Rightarrow> tx_request option" where
  "reprice tx estimate gas_price_estimate ceiling =
     (case (tr_max_fee tx, tr_tip tx) of
        (Some max_fee, Some tip) \<Rightarrow> do {
          new_max \<leftarrow> bumped_fee max_fee (map_option fe_max_fee estimate) ceiling;
          new_tip \<leftarrow> bumped_fee tip (map_option fe_tip estimate) ceiling;
          Some (tx\<lparr>tr_max_fee := Some new_max, tr_tip := Some (min new_tip new_max)\<rparr>) }
      | _ \<Rightarrow> do {
          price \<leftarrow> tr_gas_price tx;
          new_price \<leftarrow> bumped_fee price gas_price_estimate ceiling;
          Some (tx\<lparr>tr_gas_price := Some new_price\<rparr>) })"

definition fee_cap :: "tx_request \<Rightarrow> u128" where
  "fee_cap tx =
     (case tr_max_fee tx of Some f \<Rightarrow> f | None \<Rightarrow> (case tr_gas_price tx of Some p \<Rightarrow> p | None \<Rightarrow> 0))"

section \<open>Transactions in flight\<close>

datatype tx_probe = Mined bool | InMempool | Gone | ProbeUnknown
datatype pending_action = Landed | Waiting | Resubmit

definition resolve_pending :: "tx_probe \<Rightarrow> pending_action" where
  "resolve_pending p =
     (case p of Mined reverted \<Rightarrow> if reverted then Resubmit else Landed | Gone \<Rightarrow> Resubmit
      | InMempool \<Rightarrow> Waiting | ProbeUnknown \<Rightarrow> Waiting)"

definition probe_rank :: "tx_probe \<Rightarrow> nat" where
  "probe_rank p = (case p of Mined _ \<Rightarrow> 3 | InMempool \<Rightarrow> 2 | ProbeUnknown \<Rightarrow> 1 | Gone \<Rightarrow> 0)"

definition combine_probes :: "tx_probe list \<Rightarrow> tx_probe" where
  "combine_probes probes = foldl (\<lambda>acc p. if probe_rank p > probe_rank acc then p else acc) Gone probes"

record in_flight =
  if_tx :: tx_request
  if_hashes :: "bytes32 list"
  if_bumps :: nat
  if_last_sent :: nat
  if_ceiling :: u128

definition new_in_flight :: "tx_request \<Rightarrow> bytes32 \<Rightarrow> nat \<Rightarrow> in_flight" where
  "new_in_flight tx hash sent_at =
     \<lparr>if_tx = tx, if_hashes = [hash], if_bumps = 0, if_last_sent = sent_at,
      if_ceiling = sat_mul_u128 (fee_cap tx) MAX_FEE_MULTIPLE\<rparr>"

text \<open>The memo, an association list.\<close>

type_synonym pending_txs = "((rust_str \<times> sig_kind) \<times> in_flight) list"

definition pending_apply :: "rust_str \<Rightarrow> sig_kind \<Rightarrow> tx_probe \<Rightarrow> pending_txs \<Rightarrow> pending_action \<times> pending_txs" where
  "pending_apply sid kind probe p =
     (let action = resolve_pending probe in
      (action, if action \<noteq> Waiting then AList.delete (sid, kind) p else p))"

text \<open>What the node answers, and the time.\<close>

record node_view =
  nv_receipt :: "bytes32 \<Rightarrow> bool option option"
  nv_known :: "bytes32 \<Rightarrow> bool option"
  nv_latest :: "u64 option"
  nv_pending :: "u64 option"
  nv_estimate :: "fee_estimate option"
  nv_gas_price :: "u128 option"
  nv_send :: "tx_request \<Rightarrow> bytes32 option"
  nv_now :: nat

definition probe_tx :: "node_view \<Rightarrow> bytes32 \<Rightarrow> tx_probe" where
  "probe_tx nv hash =
     (case nv_receipt nv hash of
        Some (Some status) \<Rightarrow> Mined (\<not> status)
      | Some None \<Rightarrow>
          (case nv_known nv hash of Some True \<Rightarrow> InMempool | Some False \<Rightarrow> Gone | None \<Rightarrow> ProbeUnknown)
      | None \<Rightarrow> ProbeUnknown)"

text \<open>The second result is the replacement handed to the node, if any.\<close>

definition maybe_replace :: "node_view \<Rightarrow> in_flight \<Rightarrow> in_flight \<times> tx_request option" where
  "maybe_replace nv f =
     (if nv_now nv - if_last_sent f < RECEIPT_TIMEOUT then (f, None)
      else case (tr_from (if_tx f), tr_nonce (if_tx f)) of
        (Some from_addr, Some nonce) \<Rightarrow>
          if if_bumps f \<ge> MAX_FEE_BUMPS then (f\<lparr>if_last_sent := nv_now nv\<rparr>, None)
          else if nv_latest nv \<noteq> Some nonce then (f, None)
          else
            let estimate = (if tr_max_fee (if_tx f) \<noteq> None then nv_estimate nv else None);
                gas_price = (if tr_gas_price (if_tx f) \<noteq> None then nv_gas_price nv else None);
                f = f\<lparr>if_bumps := if_bumps f + 1, if_last_sent := nv_now nv\<rparr> in
            (case reprice (if_tx f) estimate gas_price (if_ceiling f) of
               None \<Rightarrow> (f\<lparr>if_bumps := MAX_FEE_BUMPS\<rparr>, None)
             | Some replacement \<Rightarrow>
                 (case nv_send nv replacement of
                    Some hash \<Rightarrow> (f\<lparr>if_hashes := if_hashes f @ [hash], if_tx := replacement\<rparr>, Some replacement)
                  | None \<Rightarrow> (f, Some replacement)))
      | _ \<Rightarrow> (f, None))"

definition may_submit ::
  "node_view \<Rightarrow> rust_str \<Rightarrow> sig_kind \<Rightarrow> pending_txs \<Rightarrow> bool \<times> pending_txs \<times> tx_request option" where
  "may_submit nv sid kind p =
     (case map_of p (sid, kind) of
        None \<Rightarrow> (True, p, None)
      | Some f \<Rightarrow>
          let probe = combine_probes (map (probe_tx nv) (if_hashes f)) in
          (case pending_apply sid kind probe p of
             (Waiting, p) \<Rightarrow>
               if probe = InMempool
               then (case maybe_replace nv f of (f, sent) \<Rightarrow> (False, AList.update (sid, kind) f p, sent))
               else (False, p, None)
           | (_, p) \<Rightarrow> (True, p, None)))"

text \<open>How a submission ends: no receipt in time, or anything else.\<close>

datatype submit_error = ReceiptTimeout bytes32 tx_request nat | OtherFailure

definition note_failure :: "rust_str \<Rightarrow> sig_kind \<Rightarrow> submit_error \<Rightarrow> pending_txs \<Rightarrow> pending_txs" where
  "note_failure sid kind e p =
     (case e of ReceiptTimeout hash tx sent_at \<Rightarrow> AList.update (sid, kind) (new_in_flight tx hash sent_at) p | OtherFailure \<Rightarrow> p)"

definition pending_retain :: "rust_str list \<Rightarrow> pending_txs \<Rightarrow> pending_txs" where
  "pending_retain seen p = filter (\<lambda>((sid, _), _). sid \<in> set seen) p"

definition pending_nonces :: "pending_txs \<Rightarrow> u64 list" where
  "pending_nonces p = List.map_filter (\<lambda>(_, f). tr_nonce (if_tx f)) p"

section \<open>The head of the queue\<close>

record head_stall =
  hl_nonce :: u64
  hl_since :: nat
  hl_last_sent :: "nat option"
  hl_bumps :: nat
  hl_last_tx :: "tx_request option"
  hl_ceiling :: "u128 option"

datatype head_action = Idle | HeadWait | Replace u64 nat | Exhausted u64

definition observe ::
  "u64 \<Rightarrow> u64 \<Rightarrow> bool \<Rightarrow> nat \<Rightarrow> head_stall option \<Rightarrow> head_action \<times> head_stall option" where
  "observe latest pending tracked now st =
     (if pending \<le> latest \<or> tracked then (Idle, None)
      else case (case st of Some s \<Rightarrow> if hl_nonce s = latest then Some s else None | None \<Rightarrow> None) of
        None \<Rightarrow>
          (HeadWait, Some \<lparr>hl_nonce = latest, hl_since = now, hl_last_sent = None, hl_bumps = 0, hl_last_tx = None,
             hl_ceiling = None\<rparr>)
      | Some s \<Rightarrow>
          if now - (case hl_last_sent s of Some t \<Rightarrow> t | None \<Rightarrow> hl_since s) < RECEIPT_TIMEOUT then (HeadWait, Some s)
          else
            let s = s\<lparr>hl_last_sent := Some now\<rparr> in
            if hl_bumps s \<ge> MAX_FEE_BUMPS then (Exhausted latest, Some s)
            else (Replace latest (hl_bumps s + 1), Some (s\<lparr>hl_bumps := hl_bumps s + 1\<rparr>)))"

definition self_transfer :: "address \<Rightarrow> u64 \<Rightarrow> tx_request" where
  "self_transfer from_addr nonce =
     \<lparr>tr_from = Some from_addr, tr_to = Some from_addr, tr_value = Some 0, tr_input = [], tr_nonce = Some nonce,
      tr_gas = Some SELF_TRANSFER_GAS, tr_max_fee = None, tr_tip = None, tr_gas_price = None\<rparr>"

text \<open>The replacement and the ceiling, fixed at the first one.\<close>

definition head_replacement ::
  "address \<Rightarrow> u64 \<Rightarrow> tx_request option \<Rightarrow> fee_estimate option \<Rightarrow> u128 option \<Rightarrow> u128 option \<Rightarrow>
   tx_request option \<times> u128 option" where
  "head_replacement from_addr nonce prev estimate gas_price ceiling =
     (case prev of
        Some p \<Rightarrow> (Option.bind ceiling (reprice p estimate gas_price), ceiling)
      | None \<Rightarrow>
          (case (case (estimate, gas_price) of
                   (Some e, _) \<Rightarrow> Some ((self_transfer from_addr nonce)\<lparr>tr_max_fee := Some (fe_max_fee e), tr_tip := Some (fe_tip e)\<rparr>)
                 | (None, Some p) \<Rightarrow> Some ((self_transfer from_addr nonce)\<lparr>tr_gas_price := Some p\<rparr>)
                 | (None, None) \<Rightarrow> None) of
             None \<Rightarrow> (None, ceiling)
           | Some base \<Rightarrow>
               let cap = sat_mul_u128 (fee_cap base) MAX_FEE_MULTIPLE in (reprice base None None cap, Some cap)))"

text \<open>The state of the loops that send from one account on one chain.\<close>

record send_state =
  sd_tracked :: "(rust_str \<times> u64 list) list"
  sd_head :: "head_stall option"
  sd_head_checked :: "nat option"

definition unwedge_head ::
  "node_view \<Rightarrow> address \<Rightarrow> rust_str \<Rightarrow> u64 list \<Rightarrow> send_state \<Rightarrow> send_state \<times> tx_request option" where
  "unwedge_head nv from_addr role tracked s =
     (let s = s\<lparr>sd_tracked := AList.update role tracked (sd_tracked s)\<rparr> in
      if (case sd_head_checked s of Some t \<Rightarrow> nv_now nv - t < HEAD_CHECK_INTERVAL | None \<Rightarrow> False) then (s, None)
      else
        let s = s\<lparr>sd_head_checked := Some (nv_now nv)\<rparr> in
        case (nv_latest nv, nv_pending nv) of
          (Some latest, Some pending) \<Rightarrow>
            (case observe latest pending (list_ex (\<lambda>(_, ns). latest \<in> set ns) (sd_tracked s)) (nv_now nv) (sd_head s) of
               (Replace nonce bump, Some st) \<Rightarrow>
                 let estimate = nv_estimate nv;
                     gas_price = (if estimate = None then nv_gas_price nv else None) in
                 (case head_replacement from_addr nonce (hl_last_tx st) estimate gas_price (hl_ceiling st) of
                    (None, ceiling) \<Rightarrow>
                      (s\<lparr>sd_head := Some (st\<lparr>hl_ceiling := ceiling, hl_bumps := MAX_FEE_BUMPS\<rparr>)\<rparr>, None)
                  | (Some tx, ceiling) \<Rightarrow>
                      (s\<lparr>sd_head := Some (st\<lparr>hl_ceiling := ceiling, hl_last_tx := Some tx\<rparr>)\<rparr>, Some tx))
             | (_, head) \<Rightarrow> (s\<lparr>sd_head := head\<rparr>, None))
        | _ \<Rightarrow> (s, None))"

end
