(* ===== verification/KeeperTxProps.thy ===== *)
theory KeeperTxProps
  imports KeeperTx
begin

text \<open>
  What the keeper's replacements can cost, that it never has two transactions for one thing
  in flight, and that a stalled nonce is replaced a bounded number of times.
\<close>

section \<open>Fees\<close>

text \<open>The call of a request: everything but its fees.\<close>

definition call_of :: "tx_request \<Rightarrow> tx_request" where
  "call_of tx = tx\<lparr>tr_max_fee := None, tr_tip := None, tr_gas_price := None\<rparr>"

text \<open>Fees as the node fills them in: both of EIP-1559, the tip within the maximum, or a gas price.\<close>

definition populated :: "tx_request \<Rightarrow> bool" where
  "populated tx \<longleftrightarrow>
     (case (tr_max_fee tx, tr_tip tx) of
        (Some m, Some p) \<Rightarrow> p \<le> m \<and> tr_gas_price tx = None
      | (None, None) \<Rightarrow> tr_gas_price tx \<noteq> None
      | _ \<Rightarrow> False)"

text \<open>A node takes a replacement that raises every fee by a tenth.\<close>

fun raises :: "u128 option \<Rightarrow> u128 option \<Rightarrow> bool" where
  "raises (Some x) (Some y) \<longleftrightarrow> 11 * unat x \<le> 10 * unat y"
| "raises None None \<longleftrightarrow> True"
| "raises _ _ \<longleftrightarrow> False"

definition outbids :: "tx_request \<Rightarrow> tx_request \<Rightarrow> bool" where
  "outbids t c \<longleftrightarrow>
     raises (tr_max_fee c) (tr_max_fee t) \<and> raises (tr_tip c) (tr_tip t) \<and> raises (tr_gas_price c) (tr_gas_price t)"

lemma bumped_fee_Some:
  assumes "bumped_fee c e ceiling = Some n" "unat ceiling < 2 ^ 128 - 1"
  shows "n \<le> ceiling" "unat c + unat c div 8 + 1 \<le> unat n"
proof -
  define least where "least = sat_add (sat_add c (c div FEE_BUMP_DIVISOR)) 1"
  have le: "least \<le> ceiling" and n: "n = min (case e of None \<Rightarrow> least | Some x \<Rightarrow> max x least) ceiling"
    using assms(1) by (simp_all add: bumped_fee_def least_def [symmetric] Let_def split: if_splits)
  show "n \<le> ceiling" by (simp add: n)
  have ln: "least \<le> n" using le by (auto simp: n split: option.splits)
  have max: "unat (- 1 :: u128) = 2 ^ 128 - 1" by (simp add: unsigned_minus_1_eq_mask mask_eq_exp_minus_1)
  have d: "unat (c div FEE_BUMP_DIVISOR) = unat c div 8" by (simp add: FEE_BUMP_DIVISOR_def unat_div_distrib)
  have small: "unat least < 2 ^ 128 - 1" using le assms(2) by (simp add: word_le_nat_alt)
  have one: "unat (1 :: u128) = 1" by simp
  have a: "unat (sat_add c (c div FEE_BUMP_DIVISOR)) + 1 < 2 ^ 128"
  proof (rule ccontr)
    assume "\<not> ?thesis"
    then have "least = - 1" by (simp add: least_def sat_add_def one)
    then show False using small max by simp
  qed
  then have l: "unat least = unat (sat_add c (c div FEE_BUMP_DIVISOR)) + 1"
    by (simp add: least_def sat_add_def [of _ 1] one unat_add_lem [THEN iffD1])
  have "unat c + unat (c div FEE_BUMP_DIVISOR) < 2 ^ 128"
  proof (rule ccontr)
    assume "\<not> ?thesis"
    then have "sat_add c (c div FEE_BUMP_DIVISOR) = - 1" by (simp add: sat_add_def)
    then show False using a max by simp
  qed
  then have "unat (sat_add c (c div FEE_BUMP_DIVISOR)) = unat c + unat c div 8"
    by (simp add: sat_add_def d [symmetric] unat_add_lem [THEN iffD1])
  then show "unat c + unat c div 8 + 1 \<le> unat n" using l ln by (simp add: word_le_nat_alt)
qed

lemma tenth: "(c :: nat) + c div 8 + 1 \<le> n \<Longrightarrow> 11 * c \<le> 10 * n"
  by linarith

lemma eighth_mono: "(a :: nat) \<le> b \<Longrightarrow> a + a div 8 \<le> b + b div 8"
  by (meson add_mono div_le_mono)

lemma reprice_Some:
  assumes "reprice tx e g ceiling = Some t" "populated tx" "unat ceiling < 2 ^ 128 - 1"
  shows "populated t" "call_of t = call_of tx" "fee_cap t \<le> ceiling" "outbids t tx"
proof -
  have "populated t \<and> call_of t = call_of tx \<and> fee_cap t \<le> ceiling \<and> outbids t tx"
  proof (cases "tr_max_fee tx")
    case None
    then obtain p where p: "tr_tip tx = None" "tr_gas_price tx = Some p"
      using assms(2) by (auto simp: populated_def split: option.splits)
    obtain n where n: "bumped_fee p g ceiling = Some n" "t = tx\<lparr>tr_gas_price := Some n\<rparr>"
      using assms(1) None p by (auto simp: reprice_def split: bind_splits)
    show ?thesis
      using bumped_fee_Some [OF n(1) assms(3)] tenth None p
      by (simp add: n(2) populated_def call_of_def fee_cap_def outbids_def)
  next
    case (Some m)
    then obtain p where p: "tr_tip tx = Some p" "p \<le> m" "tr_gas_price tx = None"
      using assms(2) by (auto simp: populated_def split: option.splits)
    obtain nm nt where n: "bumped_fee m (map_option fe_max_fee e) ceiling = Some nm"
      "bumped_fee p (map_option fe_tip e) ceiling = Some nt"
      "t = tx\<lparr>tr_max_fee := Some nm, tr_tip := Some (min nt nm)\<rparr>"
      using assms(1) Some p by (auto simp: reprice_def split: bind_splits)
    note b = bumped_fee_Some [OF n(1) assms(3)] bumped_fee_Some [OF n(2) assms(3)]
    have "unat p + unat p div 8 \<le> unat m + unat m div 8" using p(2) by (intro eighth_mono) (simp add: word_le_nat_alt)
    then have "unat p + unat p div 8 + 1 \<le> unat (min nt nm)" using b(2,4) by (simp add: min_def)
    then show ?thesis
      using b tenth Some p by (simp add: n(3) populated_def call_of_def fee_cap_def outbids_def)
  qed
  then show "populated t" "call_of t = call_of tx" "fee_cap t \<le> ceiling" "outbids t tx" by simp_all
qed

section \<open>Replacements\<close>

text \<open>The replacements over a sequence of ticks, each with the request it replaces.\<close>

fun bump_run :: "node_view list \<Rightarrow> in_flight \<Rightarrow> (tx_request \<times> tx_request) list" where
  "bump_run [] f = []"
| "bump_run (nv # nvs) f =
     (case maybe_replace nv f of
        (f', None) \<Rightarrow> bump_run nvs f'
      | (f', Some t) \<Rightarrow> (if_tx f, t) # bump_run nvs f')"

definition flight_ok :: "tx_request \<Rightarrow> u128 \<Rightarrow> in_flight \<Rightarrow> bool" where
  "flight_ok tx ceiling f \<longleftrightarrow>
     populated (if_tx f) \<and> call_of (if_tx f) = call_of tx \<and> if_ceiling f = ceiling \<and> if_bumps f \<le> MAX_FEE_BUMPS"

definition replacement_ok :: "tx_request \<Rightarrow> u128 \<Rightarrow> tx_request \<times> tx_request \<Rightarrow> bool" where
  "replacement_ok tx ceiling ct \<longleftrightarrow>
     call_of (snd ct) = call_of tx \<and> fee_cap (snd ct) \<le> ceiling \<and> outbids (snd ct) (fst ct)"

lemma maybe_replace_ok:
  assumes "flight_ok tx ceiling f" "unat ceiling < 2 ^ 128 - 1" "maybe_replace nv f = (f', sent)"
  shows "flight_ok tx ceiling f'" "if_bumps f + (if sent = None then 0 else 1) \<le> if_bumps f'"
    "sent = Some t \<Longrightarrow> replacement_ok tx ceiling (if_tx f, t)"
proof -
  have "flight_ok tx ceiling f' \<and> if_bumps f + (if sent = None then 0 else 1) \<le> if_bumps f' \<and>
    (\<forall>t. sent = Some t \<longrightarrow> replacement_ok tx ceiling (if_tx f, t))"
  proof (cases "sent")
    case None
    then show ?thesis using assms(1,3) unfolding maybe_replace_def flight_ok_def
      by (auto simp: Let_def split: if_splits option.splits)
  next
    case (Some t)
    obtain e g where r: "reprice (if_tx f) e g (if_ceiling f) = Some t" "if_bumps f < MAX_FEE_BUMPS"
      and f': "if_bumps f' = if_bumps f + 1" "if_ceiling f' = if_ceiling f" "if_tx f' = if_tx f \<or> if_tx f' = t"
      using assms(3) Some unfolding maybe_replace_def
      by (auto simp: Let_def split: if_splits option.splits)
    have ok: "populated (if_tx f)" "call_of (if_tx f) = call_of tx" "if_ceiling f = ceiling"
      using assms(1) by (simp_all add: flight_ok_def)
    note p = reprice_Some [OF r(1) ok(1)] 
    show ?thesis using p ok r(2) f' Some assms(2) by (auto simp: flight_ok_def replacement_ok_def)
  qed
  then show "flight_ok tx ceiling f'" "if_bumps f + (if sent = None then 0 else 1) \<le> if_bumps f'"
    "sent = Some t \<Longrightarrow> replacement_ok tx ceiling (if_tx f, t)" by blast+
qed

lemma bump_run_ok:
  assumes "flight_ok tx ceiling f" "unat ceiling < 2 ^ 128 - 1"
  shows "if_bumps f + length (bump_run nvs f) \<le> MAX_FEE_BUMPS \<and> list_all (replacement_ok tx ceiling) (bump_run nvs f)"
  using assms(1)
proof (induction nvs arbitrary: f)
  case Nil
  then show ?case by (simp add: flight_ok_def)
next
  case (Cons nv nvs)
  obtain f' sent where m: "maybe_replace nv f = (f', sent)" by fastforce
  note ok = maybe_replace_ok [OF Cons.prems assms(2) m]
  show ?case using Cons.IH [OF ok(1)] ok(2) ok(3) by (cases sent) (auto simp: m)
qed

text \<open>
  C34. What a stuck transaction can cost. Over any sequence of ticks and node answers, the
  keeper hands the node at most five replacements of it; each is the same call at the same
  nonce, so that at most one of them all can execute; each outbids the one it replaces by
  the tenth that nodes demand, in every fee; and none offers more than four times the fee
  of the original.
\<close>

theorem replacements_bounded:
  assumes "populated tx" "4 * unat (fee_cap tx) < 2 ^ 128"
  shows "length (bump_run nvs (new_in_flight tx hash sent_at)) \<le> 5 \<and>
    (\<forall>(current, t) \<in> set (bump_run nvs (new_in_flight tx hash sent_at)).
       call_of t = call_of tx \<and> tr_nonce t = tr_nonce tx \<and> unat (fee_cap t) \<le> 4 * unat (fee_cap tx) \<and> outbids t current)"
proof -
  let ?c = "sat_mul_u128 (fee_cap tx) MAX_FEE_MULTIPLE" and ?f = "new_in_flight tx hash sent_at"
  have m: "unat MAX_FEE_MULTIPLE = 4" by (simp add: MAX_FEE_MULTIPLE_def)
  then have c: "unat ?c = 4 * unat (fee_cap tx)"
    using assms(2) by (simp add: sat_mul_u128_def unat_mult_lem [THEN iffD1] mult.commute)
  have "4 * k < 2 ^ 128 - 1" if "4 * k < (2 :: nat) ^ 128" for k using that by simp
  then have lt: "unat ?c < 2 ^ 128 - 1" using assms(2) unfolding c by blast
  have "flight_ok tx ?c ?f" using assms(1) by (simp add: flight_ok_def new_in_flight_def)
  note r = bump_run_ok [OF this lt, of nvs]
  have n: "call_of t = call_of tx \<Longrightarrow> tr_nonce t = tr_nonce tx" for t
    by (drule arg_cong [of _ _ tr_nonce]) (simp add: call_of_def)
  have len: "length (bump_run nvs ?f) \<le> 5" using r by (simp add: MAX_FEE_BUMPS_def new_in_flight_def)
  have each: "call_of t = call_of tx \<and> tr_nonce t = tr_nonce tx \<and> unat (fee_cap t) \<le> 4 * unat (fee_cap tx) \<and> outbids t current"
    if "(current, t) \<in> set (bump_run nvs ?f)" for current t
  proof -
    have "replacement_ok tx ?c (current, t)" using r that by (auto simp only: list_all_iff)
    then show ?thesis using n [of t] c unfolding replacement_ok_def word_le_nat_alt by simp
  qed
  show ?thesis using len each by blast
qed

section \<open>One transaction in flight\<close>

lemma combine_step:
  "combine_probes (ps @ [p]) = (if probe_rank p > probe_rank (combine_probes ps) then p else combine_probes ps)"
  by (simp add: combine_probes_def)

lemma combine_probes_max:
  "combine_probes ps \<in> insert Gone (set ps) \<and> (\<forall>p \<in> set ps. probe_rank p \<le> probe_rank (combine_probes ps))"
proof (induction ps rule: rev_induct)
  case Nil
  then show ?case by (simp add: combine_probes_def)
next
  case (snoc p ps)
  then show ?case by (auto simp: combine_step not_less intro: order_trans less_imp_le)
qed

lemma combine_probes_settled:
  assumes "resolve_pending (combine_probes ps) \<noteq> Waiting"
  shows "(\<exists>r. Mined r \<in> set ps) \<or> (\<forall>p \<in> set ps. p = Gone)"
proof (cases "combine_probes ps")
  case (Mined r)
  then show ?thesis using combine_probes_max [of ps] by auto
next
  case Gone
  then have "probe_rank p = 0" if "p \<in> set ps" for p using combine_probes_max [of ps] that by (simp add: probe_rank_def)
  then have "p = Gone" if "p \<in> set ps" for p using that by (cases p) (force simp: probe_rank_def)+
  then show ?thesis by blast
qed (use assms in \<open>simp_all add: resolve_pending_def\<close>)

lemma combine_probes_settled_map:
  assumes "resolve_pending (combine_probes (map g xs)) \<noteq> Waiting"
  shows "(\<exists>h \<in> set xs. \<exists>r. g h = Mined r) \<or> (\<forall>h \<in> set xs. g h = Gone)"
proof -
  consider (m) r where "Mined r \<in> set (map g xs)" | (gone) "\<forall>p \<in> set (map g xs). p = Gone"
    using combine_probes_settled [OF assms] by blast
  then show ?thesis
  proof cases
    case m
    then obtain h where "h \<in> set xs" "g h = Mined r" by auto
    then show ?thesis by blast
  qed simp
qed

lemma maybe_replace_hashes:
  "maybe_replace nv f = (f', sent) \<Longrightarrow> set (if_hashes f) \<subseteq> set (if_hashes f')"
  by (auto simp: maybe_replace_def Let_def split: if_splits option.splits)

text \<open>
  C35. Never two for one. While the keeper remembers a transaction for a transfer and a kind,
  it may submit another only after the chain has settled the hashes the memo holds: one of
  them mined, or the node knows none of them any more. Until then the memo keeps every hash,
  and an answer that cannot be had counts as still in flight.
\<close>

theorem no_second_submission:
  assumes "may_submit nv sid kind p = (go, p', sent)" "map_of p (sid, kind) = Some f"
  shows "(go \<longrightarrow> map_of p' (sid, kind) = None \<and> sent = None \<and>
      ((\<exists>h \<in> set (if_hashes f). \<exists>r. probe_tx nv h = Mined r) \<or> (\<forall>h \<in> set (if_hashes f). probe_tx nv h = Gone))) \<and>
    (\<not> go \<longrightarrow> (\<exists>f'. map_of p' (sid, kind) = Some f' \<and> set (if_hashes f) \<subseteq> set (if_hashes f')))"
proof -
  let ?ps = "map (probe_tx nv) (if_hashes f)"
  show ?thesis
  proof (cases "resolve_pending (combine_probes ?ps) = Waiting")
    case True
    obtain f' s where m: "maybe_replace nv f = (f', s)" by fastforce
    show ?thesis
      using assms True m maybe_replace_hashes [OF m]
      by (auto simp: may_submit_def pending_apply_def Let_def update_conv' split: if_splits)
  next
    case False
    then have "go" "sent = None" "p' = AList.delete (sid, kind) p"
      using assms by (auto simp: may_submit_def pending_apply_def Let_def split: pending_action.splits)
    moreover have "(\<exists>h \<in> set (if_hashes f). \<exists>r. probe_tx nv h = Mined r) \<or> (\<forall>h \<in> set (if_hashes f). probe_tx nv h = Gone)"
      using combine_probes_settled_map [OF False] .
    ultimately show ?thesis by (simp add: delete_conv')
  qed
qed

section \<open>The head of the queue\<close>

text \<open>The replacements of a head nonce that stays stalled and untracked.\<close>

fun head_run :: "u64 \<Rightarrow> (u64 \<times> nat) list \<Rightarrow> head_stall option \<Rightarrow> nat list" where
  "head_run nonce [] st = []"
| "head_run nonce ((pending, now) # obs) st =
     (case observe nonce pending False now st of
        (Replace _ bump, st) \<Rightarrow> bump # head_run nonce obs st
      | (_, st) \<Rightarrow> head_run nonce obs st)"

text \<open>Bounded while it lasts: at most five replacements of one stalled nonce.\<close>

lemma head_run_bounded:
  assumes "list_all (\<lambda>(pending, _). nonce < pending) obs" "case st of Some s \<Rightarrow> hl_nonce s = nonce \<longrightarrow> hl_bumps s \<le> 5 | None \<Rightarrow> True"
  shows "(case st of Some s \<Rightarrow> if hl_nonce s = nonce then hl_bumps s else 0 | None \<Rightarrow> 0) + length (head_run nonce obs st) \<le> 5"
  using assms
proof (induction obs arbitrary: st)
  case Nil
  then show ?case by (auto split: option.splits)
next
  case (Cons ob obs)
  obtain pending now where ob: "ob = (pending, now)" by fastforce
  have np: "nonce < pending" and rest: "list_all (\<lambda>(pending, _). nonce < pending) obs" using Cons.prems(1) ob by simp_all
  note inv = Cons.prems(2) and IH = Cons.IH [OF rest]
  show ?case
  proof (cases "\<exists>s. st = Some s \<and> hl_nonce s = nonce")
    case False
    then have o: "observe nonce pending False now st =
        (HeadWait, Some \<lparr>hl_nonce = nonce, hl_since = now, hl_last_sent = None, hl_bumps = 0, hl_last_tx = None, hl_ceiling = None\<rparr>)"
      using np by (auto simp: observe_def split: option.splits)
    show ?thesis using IH [of "Some \<lparr>hl_nonce = nonce, hl_since = now, hl_last_sent = None, hl_bumps = 0, hl_last_tx = None, hl_ceiling = None\<rparr>"] False
      by (auto simp: ob o split: option.splits)
  next
    case True
    then obtain s where s: "st = Some s" "hl_nonce s = nonce" by blast
    let ?w = "now - (case hl_last_sent s of Some t \<Rightarrow> t | None \<Rightarrow> hl_since s) < RECEIPT_TIMEOUT"
    consider (w) "?w" | (x) "\<not> ?w" "hl_bumps s \<ge> 5" | (r) "\<not> ?w" "hl_bumps s < 5" by linarith
    then show ?thesis
    proof cases
      case w
      then have o: "observe nonce pending False now (Some s) = (HeadWait, Some s)"
        using np s by (simp add: observe_def)
      show ?thesis using IH [of "Some s"] inv s by (simp add: ob o)
    next
      case x
      then have o: "observe nonce pending False now (Some s) = (Exhausted nonce, Some (s\<lparr>hl_last_sent := Some now\<rparr>))"
        using np s by (simp add: observe_def Let_def MAX_FEE_BUMPS_def)
      show ?thesis using IH [of "Some (s\<lparr>hl_last_sent := Some now\<rparr>)"] inv s by (simp add: ob o)
    next
      case r
      then have o: "observe nonce pending False now (Some s) =
          (Replace nonce (hl_bumps s + 1), Some (s\<lparr>hl_last_sent := Some now, hl_bumps := hl_bumps s + 1\<rparr>))"
        using np s by (simp add: observe_def Let_def MAX_FEE_BUMPS_def)
      show ?thesis using IH [of "Some (s\<lparr>hl_last_sent := Some now, hl_bumps := hl_bumps s + 1\<rparr>)"] s r by (simp add: ob o)
    qed
  qed
qed

end
