(* ===== verification/KeeperDemo.thy ===== *)
theory KeeperDemo
  imports KeeperTxProps
begin

text \<open>
  A claim stuck at nonce 7 and two ticks at which its nonce is still the next to mine, the
  second after a replacement that the node took; and a memo whose first hash has mined.
\<close>

definition stuck_tx :: tx_request where
  "stuck_tx = \<lparr>tr_from = Some 1, tr_to = Some 2, tr_value = None, tr_input = [0], tr_nonce = Some 7, tr_gas = Some 90000,
     tr_max_fee = Some 1000, tr_tip = Some 80, tr_gas_price = None\<rparr>"

definition stuck_node :: "nat \<Rightarrow> node_view" where
  "stuck_node now = \<lparr>nv_receipt = (\<lambda>h. if h = 21 then Some (Some True) else Some None), nv_known = (\<lambda>_. Some True),
     nv_latest = Some 7, nv_pending = Some 8, nv_estimate = Some \<lparr>fe_max_fee = 1100, fe_tip = 200\<rparr>, nv_gas_price = None,
     nv_send = (\<lambda>_. Some 21), nv_now = now\<rparr>"

definition stuck_run :: "(tx_request \<times> tx_request) list" where
  "stuck_run = bump_run [stuck_node 130000, stuck_node 140000, stuck_node 260000] (new_in_flight stuck_tx 20 0)"

lemmas fee_defs = reprice_def bumped_fee_def sat_add_def FEE_BUMP_DIVISOR_def Let_def

text \<open>The original with its maximal fee and its tip replaced.\<close>

definition stuck_at :: "u128 \<Rightarrow> u128 \<Rightarrow> tx_request" where
  "stuck_at m p = stuck_tx\<lparr>tr_max_fee := Some m, tr_tip := Some p\<rparr>"

definition stuck_estimate :: fee_estimate where
  "stuck_estimate = \<lparr>fe_max_fee = 1100, fe_tip = 200\<rparr>"

lemma stuck_fees:
  "bumped_fee 1000 (Some 1100) 4000 = Some 1126" "bumped_fee 80 (Some 200) 4000 = Some 200"
  "bumped_fee 1126 (Some 1100) 4000 = Some 1267" "bumped_fee 200 (Some 200) 4000 = Some 226"
  by (simp_all add: fee_defs max_def min_def)

lemma stuck_reprice:
  "reprice (stuck_at 1000 80) (Some stuck_estimate) None 4000 = Some (stuck_at 1126 200)"
  "reprice (stuck_at 1126 200) (Some stuck_estimate) None 4000 = Some (stuck_at 1267 226)"
  by (simp_all add: reprice_def stuck_at_def stuck_tx_def stuck_estimate_def stuck_fees min_def)

text \<open>The memo after some replacements, and the ticks.\<close>

definition stuck_flight :: "u128 \<Rightarrow> u128 \<Rightarrow> bytes32 list \<Rightarrow> nat \<Rightarrow> nat \<Rightarrow> in_flight" where
  "stuck_flight m p hashes bumps sent = \<lparr>if_tx = stuck_at m p, if_hashes = hashes, if_bumps = bumps, if_last_sent = sent, if_ceiling = 4000\<rparr>"

lemma stuck_new: "new_in_flight stuck_tx 20 0 = stuck_flight 1000 80 [20] 0 0"
  by (simp add: new_in_flight_def stuck_flight_def stuck_at_def stuck_tx_def fee_cap_def sat_mul_u128_def MAX_FEE_MULTIPLE_def)

lemma stuck_ticks:
  "maybe_replace (stuck_node 130000) (stuck_flight 1000 80 [20] 0 0) = (stuck_flight 1126 200 [20, 21] 1 130000, Some (stuck_at 1126 200))"
  "maybe_replace (stuck_node 140000) (stuck_flight 1126 200 [20, 21] 1 130000) = (stuck_flight 1126 200 [20, 21] 1 130000, None)"
  "maybe_replace (stuck_node 260000) (stuck_flight 1126 200 [20, 21] 1 130000) =
     (stuck_flight 1267 226 [20, 21, 21] 2 260000, Some (stuck_at 1267 226))"
proof -
  have f: "tr_from (stuck_at m p) = Some 1" "tr_nonce (stuck_at m p) = Some 7" "tr_max_fee (stuck_at m p) = Some m"
    "tr_gas_price (stuck_at m p) = None" for m p by (simp_all add: stuck_at_def stuck_tx_def)
  have n: "nv_latest (stuck_node t) = Some 7" "nv_estimate (stuck_node t) = Some stuck_estimate"
    "nv_send (stuck_node t) r = Some 21" "nv_now (stuck_node t) = t" for t r
    by (simp_all add: stuck_node_def stuck_estimate_def)
  show "maybe_replace (stuck_node 130000) (stuck_flight 1000 80 [20] 0 0) = (stuck_flight 1126 200 [20, 21] 1 130000, Some (stuck_at 1126 200))"
    "maybe_replace (stuck_node 140000) (stuck_flight 1126 200 [20, 21] 1 130000) = (stuck_flight 1126 200 [20, 21] 1 130000, None)"
    "maybe_replace (stuck_node 260000) (stuck_flight 1126 200 [20, 21] 1 130000) =
     (stuck_flight 1267 226 [20, 21, 21] 2 260000, Some (stuck_at 1267 226))"
    by (simp_all add: maybe_replace_def stuck_flight_def f n stuck_reprice RECEIPT_TIMEOUT_def MAX_FEE_BUMPS_def)
qed

lemma stuck_run_eq:
  "stuck_run = [(stuck_at 1000 80, stuck_at 1126 200), (stuck_at 1126 200, stuck_at 1267 226)]"
proof -
  have "if_tx (stuck_flight m p hashes bumps sent) = stuck_at m p" for m p hashes bumps sent by (simp add: stuck_flight_def)
  then show ?thesis by (simp add: stuck_run_def stuck_new stuck_ticks [unfolded One_nat_def])
qed

theorem replacements_bounded_witness:
  "length stuck_run = 2 \<and> length stuck_run \<le> 5 \<and>
    list_all (\<lambda>(current, t). call_of t = call_of stuck_tx \<and> tr_nonce t = Some 7 \<and> unat (fee_cap t) \<le> 4000 \<and> outbids t current)
      stuck_run"
proof -
  have "populated stuck_tx" "4 * unat (fee_cap stuck_tx) < 2 ^ 128" "unat (fee_cap stuck_tx) = 1000" "tr_nonce stuck_tx = Some 7"
    by (simp_all add: populated_def fee_cap_def stuck_tx_def)
  then show ?thesis
    using replacements_bounded [of stuck_tx "[stuck_node 130000, stuck_node 140000, stuck_node 260000]" 20 0]
    unfolding stuck_run_def [symmetric] by (simp add: stuck_run_eq)
qed

definition stuck_memo :: "bytes32 list \<Rightarrow> pending_txs" where
  "stuck_memo hashes = [((rstr ''id'', Transfer), (new_in_flight stuck_tx 20 0)\<lparr>if_hashes := hashes\<rparr>)]"

lemma stuck_probe: "probe_tx (stuck_node now) h = (if h = 21 then Mined False else InMempool)"
  by (simp add: probe_tx_def stuck_node_def)

lemma stuck_memo_step:
  "may_submit (stuck_node 130000) (rstr ''id'') Transfer (stuck_memo [20, 21]) = (True, [], None)"
  by (simp add: may_submit_def stuck_memo_def stuck_probe combine_probes_def probe_rank_def pending_apply_def resolve_pending_def)

theorem no_second_submission_witness:
  "map_of [] (rstr ''id'', Transfer) = (None :: in_flight option) \<and>
    (probe_tx (stuck_node 130000) 20 = Mined False \<or> probe_tx (stuck_node 130000) 21 = Mined False)"
proof -
  have "map_of (stuck_memo [20, 21]) (rstr ''id'', Transfer) = Some ((new_in_flight stuck_tx 20 0)\<lparr>if_hashes := [20, 21]\<rparr>)"
    by (simp add: stuck_memo_def)
  then show ?thesis
    using no_second_submission [OF stuck_memo_step] by (simp add: stuck_probe)
qed

end
