(* ===== verification/KeeperClaim.thy ===== *)
theory KeeperClaim
  imports KeeperTx "HOL-Library.Product_Lexorder"
begin

text \<open>
  What the keeper (keeper/src/main.rs) puts into a call of the gate: the signatures of
  validators among a record's rows, in the order and the form the gate takes, the check that
  the gate would arrive at the record's id, and the claims, cancels and refunds themselves.
  The gate's answers are parameters, as are alloy's parsers and printers.
\<close>

section \<open>The library and the gate's answers\<close>

record keeper_lib =
  kl_core :: core_lib
  kl_show_address :: "address \<Rightarrow> rust_str"
  kl_show_b256 :: "bytes32 \<Rightarrow> rust_str"

record gate_reads =
  kr_executed :: "bytes32 \<Rightarrow> bool option"
  kr_token_of :: "bytes32 \<Rightarrow> address option"
  kr_refunded :: "bytes32 \<Rightarrow> bool option"
  kr_sent_by :: "bytes32 \<Rightarrow> address option"
  kr_refund_to :: "address \<Rightarrow> bytes32 \<Rightarrow> address option"
  kr_is_validator :: "address \<Rightarrow> bool option"
  kr_is_validator_again :: "address \<Rightarrow> bool option"
  kr_threshold :: "bytes32 option"
  kr_validator_count :: "bytes32 option"

section \<open>The view of the gate\<close>

definition GATE_REFRESH_INTERVAL :: nat where "GATE_REFRESH_INTERVAL = 60000"

record keeper_view =
  gw_threshold :: u64
  gw_validator_count :: nat
  gw_members :: "address \<rightharpoonup> bool"
  gw_refreshed_at :: nat

text \<open>A 256-bit number at 64 bits, or the largest.\<close>

definition to_u64 :: "bytes32 \<Rightarrow> u64" where
  "to_u64 x = (if unat x < 2 ^ 64 then ucast x else - 1)"

definition view_load :: "gate_reads \<Rightarrow> nat \<Rightarrow> keeper_view option" where
  "view_load g now = do {
     threshold \<leftarrow> kr_threshold g;
     validator_count \<leftarrow> kr_validator_count g;
     Some \<lparr>gw_threshold = to_u64 threshold, gw_validator_count = unat (to_u64 validator_count),
       gw_members = Map.empty, gw_refreshed_at = now\<rparr> }"

definition refresh_if_stale :: "gate_reads \<Rightarrow> nat \<Rightarrow> keeper_view \<Rightarrow> keeper_view" where
  "refresh_if_stale g now v =
     (if now - gw_refreshed_at v < GATE_REFRESH_INTERVAL then v
      else case view_load g now of Some fresh \<Rightarrow> fresh | None \<Rightarrow> v\<lparr>gw_refreshed_at := now\<rparr>)"

datatype membership = Fresh bool | Cached bool

definition is_member :: "membership \<Rightarrow> bool" where
  "is_member m \<longleftrightarrow> m = Fresh True \<or> m = Cached True"

definition is_cached :: "membership \<Rightarrow> bool" where
  "is_cached m \<longleftrightarrow> (case m of Cached _ \<Rightarrow> True | Fresh _ \<Rightarrow> False)"

section \<open>The signatures that count\<close>

definition authenticate_signatures ::
  "keeper_lib \<Rightarrow> bytes32 \<Rightarrow> sig_kind \<Rightarrow> signer_sig list \<Rightarrow> (address \<times> signer_sig) list" where
  "authenticate_signatures KL x kind sigs =
     foldl (\<lambda>out s.
       case verify_attestation (kl_core KL) x kind s of
         Inr recovered \<Rightarrow>
           if recovered \<in> set (map fst out) then out
           else out @ [(recovered, \<lparr>ss_signer = kl_show_address KL recovered, ss_signature = ss_signature s\<rparr>)]
       | Inl _ \<Rightarrow> out) [] sigs"

definition filter_members :: "(address \<times> membership \<times> signer_sig) list \<Rightarrow> nat \<Rightarrow> signer_sig list" where
  "filter_members resolved validator_count =
     (let kept = filter (\<lambda>(_, m, _). is_member m) resolved;
          kept = sort_key (\<lambda>(addr, m, _). (is_cached m, addr)) kept;
          kept = take validator_count kept;
          kept = sort_key (\<lambda>(addr, _, _). addr) kept
      in map (\<lambda>(_, _, s). s) kept)"

text \<open>Each signer's membership, from the memo or read; and the memo's answers read again.\<close>

fun resolve_members ::
  "(address \<Rightarrow> bool option) \<Rightarrow> (address \<rightharpoonup> bool) \<Rightarrow> (address \<times> signer_sig) list \<Rightarrow>
   (address \<rightharpoonup> bool) \<times> (address \<times> membership \<times> signer_sig) list" where
  "resolve_members rd memo [] = (memo, [])"
| "resolve_members rd memo ((addr, s) # rest) =
     (case memo addr of
        Some m \<Rightarrow> (case resolve_members rd memo rest of (memo', out) \<Rightarrow> (memo', (addr, Cached m, s) # out))
      | None \<Rightarrow>
          (case rd addr of
             Some m \<Rightarrow> (case resolve_members rd (memo(addr \<mapsto> m)) rest of (memo', out) \<Rightarrow> (memo', (addr, Fresh m, s) # out))
           | None \<Rightarrow> resolve_members rd memo rest))"

fun reread_members ::
  "(address \<Rightarrow> bool option) \<Rightarrow> (address \<rightharpoonup> bool) \<Rightarrow> (address \<times> membership \<times> signer_sig) list \<Rightarrow>
   (address \<rightharpoonup> bool) \<times> (address \<times> membership \<times> signer_sig) list" where
  "reread_members rd memo [] = (memo, [])"
| "reread_members rd memo ((addr, m, s) # rest) =
     (case (if is_cached m then rd addr else None) of
        Some v \<Rightarrow> (case reread_members rd (memo(addr \<mapsto> v)) rest of (memo', out) \<Rightarrow> (memo', (addr, Fresh v, s) # out))
      | None \<Rightarrow> (case reread_members rd memo rest of (memo', out) \<Rightarrow> (memo', (addr, m, s) # out)))"

definition member_signatures ::
  "keeper_lib \<Rightarrow> gate_reads \<Rightarrow> keeper_view \<Rightarrow> rust_str \<Rightarrow> sig_kind \<Rightarrow> signer_sig list \<Rightarrow> keeper_view \<times> signer_sig list" where
  "member_signatures KL g v sid kind sigs =
     (case cl_b256 (kl_core KL) sid of
        None \<Rightarrow> (v, [])
      | Some x \<Rightarrow>
          (case resolve_members (kr_is_validator g) (gw_members v) (authenticate_signatures KL x kind sigs) of
             (memo, resolved) \<Rightarrow>
               (case (if length (filter (\<lambda>(_, m, _). is_member m) resolved) > gw_validator_count v
                      then reread_members (kr_is_validator_again g) memo resolved else (memo, resolved)) of
                  (memo, resolved) \<Rightarrow> (v\<lparr>gw_members := memo\<rparr>, filter_members resolved (gw_validator_count v)))))"

section \<open>The calldata\<close>

definition bytes_of :: "keeper_lib \<Rightarrow> rust_str \<Rightarrow> bytes option" where
  "bytes_of KL s = hex_bytes (cl_hex (kl_core KL)) s"

fun collect_some :: "'a option list \<Rightarrow> 'a list option" where
  "collect_some [] = Some []"
| "collect_some (None # _) = None"
| "collect_some (Some x # xs) = map_option ((#) x) (collect_some xs)"

definition signer_key :: "keeper_lib \<Rightarrow> signer_sig \<Rightarrow> address" where
  "signer_key KL s = (case cl_address (kl_core KL) (ss_signer s) of Some a \<Rightarrow> a | None \<Rightarrow> 0)"

definition sorted_signatures :: "keeper_lib \<Rightarrow> signer_sig list \<Rightarrow> bytes list option" where
  "sorted_signatures KL sigs =
     collect_some (map (\<lambda>s.
       case core_canonical_signature (kl_core KL) s of
         Inr canonical \<Rightarrow> bytes_of KL (ss_signature canonical)
       | Inl _ \<Rightarrow> bytes_of KL (ss_signature s)) (sort_key (signer_key KL) sigs))"

text \<open>The record's id as this gate computes it: under its own domain.\<close>

definition gate_submission_id :: "keeper_lib \<Rightarrow> submission_record \<Rightarrow> bytes32 \<Rightarrow> store_error + bytes32" where
  "gate_submission_id KL rc domain =
     canonical_submission_id (kl_core KL) (rc\<lparr>rc_bridge_domain := kl_show_b256 KL domain\<rparr>)"

text \<open>\<open>Some\<close> is a reason why the gate never can accept the record.\<close>

definition agrees_with_gate :: "keeper_lib \<Rightarrow> submission_record \<Rightarrow> bytes32 \<Rightarrow> string option" where
  "agrees_with_gate KL rc domain =
     (case cl_b256 (kl_core KL) (rc_submission_id rc) of
        None \<Rightarrow> Some ''submission_id''
      | Some claimed \<Rightarrow>
          (case gate_submission_id KL rc domain of
             Inr computed \<Rightarrow>
               if computed = claimed then None
               else if cl_b256 (kl_core KL) (rc_bridge_domain rc) \<noteq> Some domain then Some ''bridgeDomain''
               else Some ''params''
           | Inl _ \<Rightarrow> Some ''no id''))"

text \<open>\<open>str::len\<close> counts bytes of UTF-8.\<close>

definition utf8_len :: "rust_str \<Rightarrow> nat" where
  "utf8_len s = sum_list (map (\<lambda>c. if c < 128 then 1 else if c < 2048 then 2 else if c < 65536 then 3 else 4) s)"

definition evm_receiver_decodable :: "rust_str \<Rightarrow> bool" where
  "evm_receiver_decodable receiver \<longleftrightarrow>
     utf8_len (case strip_prefix receiver (rstr ''0x'') of Some t \<Rightarrow> t | None \<Rightarrow> receiver) div 2 = 20"

section \<open>Calls\<close>

record call_args =
  gca_debridge_id :: bytes32
  gca_amount :: bytes32
  gca_bridge_decimals :: u8
  gca_chain :: bytes32
  gca_nonce :: bytes32
  gca_receiver :: bytes
  gca_auto_params :: bytes
  gca_native_sender :: bytes
  gca_signatures :: "bytes list"

datatype gate_call = CallClaim call_args | CallCancel call_args | CallRefund address call_args
  | CallRefundAndForward address call_args | CallForwardRefund address bytes32 | CallFinalize address call_args

definition call_arguments ::
  "keeper_lib \<Rightarrow> submission_record \<Rightarrow> signer_sig list \<Rightarrow> u64 \<Rightarrow> call_args option" where
  "call_arguments KL rc sigs chain = do {
     did \<leftarrow> cl_b256 (kl_core KL) (rc_debridge_id rc);
     amount \<leftarrow> cl_u256 (kl_core KL) (rc_amount rc);
     decimals \<leftarrow> rc_bridge_decimals rc;
     receiver \<leftarrow> bytes_of KL (rc_receiver rc);
     auto_params \<leftarrow> bytes_of KL (rc_auto_params rc);
     native_sender \<leftarrow> bytes_of KL (rc_native_sender rc);
     signatures \<leftarrow> sorted_signatures KL sigs;
     Some \<lparr>gca_debridge_id = did, gca_amount = amount, gca_bridge_decimals = decimals, gca_chain = ucast chain,
       gca_nonce = ucast (rc_nonce rc), gca_receiver = receiver, gca_auto_params = auto_params,
       gca_native_sender = native_sender, gca_signatures = signatures\<rparr> }"

text \<open>
  What is to be done for a record before anything is sent: nothing, for a reason, or a call
  (for a refund the code does not tell the reasons apart).
  \<open>None\<close> is an error, to be retried at the next tick.
\<close>

datatype planned = Submit gate_call | AlreadyExecuted | Stranded string

definition plan_claim ::
  "keeper_lib \<Rightarrow> gate_reads \<Rightarrow> submission_record \<Rightarrow> signer_sig list \<Rightarrow> bytes32 \<Rightarrow> planned option" where
  "plan_claim KL g rc sigs domain = do {
     x \<leftarrow> cl_b256 (kl_core KL) (rc_submission_id rc);
     if \<not> evm_receiver_decodable (rc_receiver rc) then Some (Stranded ''receiver'')
     else case agrees_with_gate KL rc domain of
       Some why \<Rightarrow> Some (Stranded why)
     | None \<Rightarrow> do {
         executed \<leftarrow> kr_executed g x;
         if executed then Some AlreadyExecuted
         else do {
           did \<leftarrow> cl_b256 (kl_core KL) (rc_debridge_id rc);
           token \<leftarrow> kr_token_of g did;
           if token = 0 then Some (Stranded ''UnknownAsset'')
           else do {
             args \<leftarrow> call_arguments KL rc sigs (rc_chain_id_from rc);
             Some (Submit (CallClaim args)) } } } }"

definition plan_cancel :: "keeper_lib \<Rightarrow> gate_reads \<Rightarrow> submission_record \<Rightarrow> signer_sig list \<Rightarrow> planned option" where
  "plan_cancel KL g rc sigs = do {
     x \<leftarrow> cl_b256 (kl_core KL) (rc_submission_id rc);
     executed \<leftarrow> kr_executed g x;
     if executed then Some AlreadyExecuted
     else do {
       args \<leftarrow> call_arguments KL rc sigs (rc_chain_id_from rc);
       Some (Submit (CallCancel args)) } }"

definition plan_refund ::
  "keeper_lib \<Rightarrow> gate_reads \<Rightarrow> submission_record \<Rightarrow> signer_sig list \<Rightarrow> address list \<Rightarrow> planned option" where
  "plan_refund KL g rc sigs routers = do {
     x \<leftarrow> cl_b256 (kl_core KL) (rc_submission_id rc);
     refunded \<leftarrow> kr_refunded g x;
     if refunded then
       (case cl_address (kl_core KL) (rc_native_sender rc) of
          Some router \<Rightarrow>
            if router \<in> set routers then do {
              to_addr \<leftarrow> kr_refund_to g router x;
              Some (if to_addr = 0 then AlreadyExecuted else Submit (CallForwardRefund router x)) }
            else Some AlreadyExecuted
        | None \<Rightarrow> Some AlreadyExecuted)
     else do {
       sent_by \<leftarrow> kr_sent_by g x;
       if sent_by = 0 then Some (Stranded ''NotSent'')
       else if rc_token rc = [] then Some (Stranded ''token'')
       else do {
         token \<leftarrow> cl_address (kl_core KL) (rc_token rc);
         args \<leftarrow> call_arguments KL rc sigs (rc_chain_id_to rc);
         Some (Submit (if sent_by \<in> set routers then CallRefundAndForward sent_by args else CallRefund token args)) } } }"

section \<open>Sending\<close>

datatype fee_answer = Fees fee_estimate | FeesUnsupported | FeesFailed
datatype receipt_answer = Receipt bool | ReceiptTimedOut | ReceiptFailed

text \<open>What the node answers while a call is sent, and when the wait for its receipt began.\<close>

record send_answers =
  sa_pending_nonce :: "u64 option"
  sa_gas :: "tx_request \<Rightarrow> u64 option"
  sa_fees :: fee_answer
  sa_price :: "u128 option"
  sa_hash :: "tx_request \<Rightarrow> bytes32 option"
  sa_receipt :: receipt_answer
  sa_sent_at :: nat

definition populate :: "send_answers \<Rightarrow> tx_request \<Rightarrow> address \<Rightarrow> tx_request option" where
  "populate n tx from_addr = do {
     nonce \<leftarrow> sa_pending_nonce n;
     let tx = tx\<lparr>tr_from := Some from_addr, tr_nonce := Some nonce\<rparr>;
     gas \<leftarrow> sa_gas n tx;
     let tx = tx\<lparr>tr_gas := Some gas\<rparr>;
     case sa_fees n of
       Fees e \<Rightarrow> Some (tx\<lparr>tr_max_fee := Some (fe_max_fee e), tr_tip := Some (fe_tip e)\<rparr>)
     | FeesUnsupported \<Rightarrow> do {
         price \<leftarrow> sa_price n;
         Some (tx\<lparr>tr_gas_price := Some price\<rparr>) }
     | FeesFailed \<Rightarrow> None }"

text \<open>The result, the state under the lock, and the request that was handed to the node.\<close>

definition confirm ::
  "send_answers \<Rightarrow> tx_request \<Rightarrow> address \<Rightarrow> rust_str \<Rightarrow> send_state \<Rightarrow>
   (submit_error + bytes32) \<times> send_state \<times> tx_request option" where
  "confirm n call from_addr role s =
     (case populate n call from_addr of
        None \<Rightarrow> (Inl OtherFailure, s, None)
      | Some tx \<Rightarrow>
          (case sa_hash n tx of
             None \<Rightarrow> (Inl OtherFailure, s, Some tx)
           | Some hash \<Rightarrow>
               let ns = (case map_of (sd_tracked s) role of Some ns \<Rightarrow> ns | None \<Rightarrow> []);
                   s = (case tr_nonce tx of
                          Some nonce \<Rightarrow> s\<lparr>sd_tracked := AList.update role (nonce # ns) (sd_tracked s)\<rparr>
                        | None \<Rightarrow> s)
               in ((case sa_receipt n of
                      ReceiptTimedOut \<Rightarrow> Inl (ReceiptTimeout hash tx (sa_sent_at n))
                    | ReceiptFailed \<Rightarrow> Inl OtherFailure
                    | Receipt status \<Rightarrow> if status then Inr hash else Inl OtherFailure), s, Some tx)))"

end
