(* ===== verification/KeeperLoop.thy ===== *)
theory KeeperLoop
  imports KeeperClaim "HOL-Library.List_Lexorder"
begin

text \<open>
  The keeper's two loops (keeper/src/main.rs: run_target, run_source_refunds), one record
  and one tick at a time, with the floor below which nothing is claimed (config.rs) and the
  queue of deliveries into swap routers that it finalizes (finalize.rs).
\<close>

section \<open>The floor\<close>

record keeper_chain =
  kc_chain_id :: u64
  kc_routers :: "rust_str list"
  kc_min_claim :: "(rust_str \<times> rust_str) list"

definition router_addresses :: "keeper_lib \<Rightarrow> keeper_chain \<Rightarrow> address list" where
  "router_addresses KL c = List.map_filter (cl_address (kl_core KL)) (kc_routers c)"

definition parse_whole :: "rust_str \<Rightarrow> (rust_str \<times> rust_str) option" where
  "parse_whole s =
     (let s = trim s;
          (w, f) = (case split_once 46 s of Some parts \<Rightarrow> parts | None \<Rightarrow> (s, [])) in
      if w = [] \<and> f = [] \<or> \<not> list_all is_ascii_digit w \<or> \<not> list_all is_ascii_digit f then None
      else Some (w, f))"

definition scale_amount :: "rust_str \<Rightarrow> rust_str \<Rightarrow> u8 \<Rightarrow> u128 option" where
  "scale_amount whole frac decimals =
     (let d = unat decimals in do {
        unit \<leftarrow> checked_pow (10 :: u128) d;
        w \<leftarrow> (if whole = [] then Some 0 else parse_uint whole);
        let (kept, rest) = (if length frac > d then (take d frac, drop d frac) else (frac, []));
        f \<leftarrow> (if kept = [] then Some 0 else parse_uint kept);
        pad \<leftarrow> checked_pow (10 :: u128) (d - length kept);
        f \<leftarrow> checked_mul f pad;
        let round_up = (if list_ex (\<lambda>b. b \<noteq> 48) rest then 1 else 0);
        x \<leftarrow> checked_mul w unit;
        y \<leftarrow> checked_add x f;
        checked_add y round_up })"

definition min_claim_wire :: "keeper_chain \<Rightarrow> rust_str \<Rightarrow> u8 \<Rightarrow> u128 option" where
  "min_claim_wire c did decimals = do {
     kv \<leftarrow> find (\<lambda>(k, _). to_ascii_lowercase k = to_ascii_lowercase did) (kc_min_claim c);
     parts \<leftarrow> parse_whole (snd kv);
     scale_amount (fst parts) (snd parts) decimals }"

definition below_min_claim :: "keeper_lib \<Rightarrow> keeper_chain \<Rightarrow> submission_record \<Rightarrow> (u128 \<times> u128) option" where
  "below_min_claim KL c rc = do {
     decimals \<leftarrow> rc_bridge_decimals rc;
     floor \<leftarrow> min_claim_wire c (rc_debridge_id rc) decimals;
     amount \<leftarrow> cl_u256 (kl_core KL) (rc_amount rc);
     amount \<leftarrow> (if unat amount < 2 ^ 128 then Some (ucast amount) else None);
     if amount < floor then Some (amount, floor) else None }"

section \<open>The queue of deliveries\<close>

definition SEED_INTERVAL :: nat where "SEED_INTERVAL = 15 * 60 * 1000"
definition BACKOFF_BASE :: nat where "BACKOFF_BASE = 5 * 60 * 1000"
definition BACKOFF_MAX :: nat where "BACKOFF_MAX = 6 * 3600 * 1000"
definition PER_TICK :: nat where "PER_TICK = 4"
definition SEED_LOADS :: nat where "SEED_LOADS = 200"

definition backoff_for :: "nat \<Rightarrow> nat" where
  "backoff_for attempts = min (BACKOFF_BASE * 2 ^ min (attempts - 1) 16) BACKOFF_MAX"

definition router_of :: "keeper_lib \<Rightarrow> rust_str \<Rightarrow> address list \<Rightarrow> address option" where
  "router_of KL receiver routers = do {
     addr \<leftarrow> cl_address (kl_core KL) receiver;
     if addr \<in> set routers then Some addr else None }"

record finalize_entry =
  fq_rec :: submission_record
  fq_router :: address
  fq_next_at :: nat
  fq_attempts :: nat

record finalize_queue =
  fq_entries :: "(rust_str \<times> finalize_entry) list"
  fq_seeded_at :: "nat option"

datatype finalize_outcome = Done | Drop string | NotYetDelivered | Deferred

definition enqueue :: "submission_record \<Rightarrow> address \<Rightarrow> nat \<Rightarrow> finalize_queue \<Rightarrow> finalize_queue" where
  "enqueue rc router now q =
     (if map_of (fq_entries q) (rc_submission_id rc) \<noteq> None then q
      else q\<lparr>fq_entries := AList.update (rc_submission_id rc)
               \<lparr>fq_rec = rc, fq_router = router, fq_next_at = now, fq_attempts = 0\<rparr> (fq_entries q)\<rparr>)"

definition due :: "nat \<Rightarrow> nat \<Rightarrow> finalize_queue \<Rightarrow> rust_str list" where
  "due now most q =
     map snd (take most (sort (map (\<lambda>(i, e). (fq_next_at e, i)) (filter (\<lambda>(_, e). fq_next_at e \<le> now) (fq_entries q)))))"

definition back_off :: "rust_str \<Rightarrow> nat \<Rightarrow> finalize_queue \<Rightarrow> finalize_queue" where
  "back_off sid now q =
     (case map_of (fq_entries q) sid of
        None \<Rightarrow> q
      | Some e \<Rightarrow>
          q\<lparr>fq_entries := AList.update sid
              (e\<lparr>fq_attempts := fq_attempts e + 1, fq_next_at := now + backoff_for (fq_attempts e + 1)\<rparr>) (fq_entries q)\<rparr>)"

definition remove_entry :: "rust_str \<Rightarrow> finalize_queue \<Rightarrow> finalize_queue" where
  "remove_entry sid q = q\<lparr>fq_entries := AList.delete sid (fq_entries q)\<rparr>"

definition seed_due :: "nat \<Rightarrow> finalize_queue \<Rightarrow> bool" where
  "seed_due now q \<longleftrightarrow> (case fq_seeded_at q of None \<Rightarrow> True | Some t \<Rightarrow> now - t \<ge> SEED_INTERVAL)"

text \<open>The store's history, as far as the seeding reads it.\<close>

record history_row =
  hr_submission_id :: rust_str
  hr_chain_id_to :: u64
  hr_claimed :: bool
  hr_receiver :: rust_str
  hr_finalized :: bool

fun seed_rows ::
  "keeper_lib \<Rightarrow> keeper_chain \<Rightarrow> address list \<Rightarrow> nat \<Rightarrow> (rust_str \<Rightarrow> submission_record option option) \<Rightarrow>
   nat \<Rightarrow> history_row list \<Rightarrow> finalize_queue \<Rightarrow> finalize_queue" where
  "seed_rows KL c routers now ld loads [] q = q"
| "seed_rows KL c routers now ld loads (row # rows) q =
     (if loads \<ge> SEED_LOADS then q
      else if hr_chain_id_to row \<noteq> kc_chain_id c \<or> \<not> hr_claimed row \<or>
        map_of (fq_entries q) (hr_submission_id row) \<noteq> None \<or> hr_finalized row
      then seed_rows KL c routers now ld loads rows q
      else case router_of KL (hr_receiver row) routers of
        None \<Rightarrow> seed_rows KL c routers now ld loads rows q
      | Some router \<Rightarrow>
          seed_rows KL c routers now ld (loads + 1) rows
            (case ld (hr_submission_id row) of
               Some (Some rc) \<Rightarrow> if below_min_claim KL c rc = None then enqueue rc router now q else q
             | _ \<Rightarrow> q))"

definition seed ::
  "keeper_lib \<Rightarrow> keeper_chain \<Rightarrow> address list \<Rightarrow> nat \<Rightarrow> bool \<Rightarrow> history_row list option \<Rightarrow>
   (rust_str \<Rightarrow> submission_record option option) \<Rightarrow> finalize_queue \<Rightarrow> finalize_queue" where
  "seed KL c routers now file_backed history ld q =
     (let q = q\<lparr>fq_seeded_at := Some now\<rparr> in
      if routers = [] \<or> file_backed then q
      else case history of None \<Rightarrow> q | Some rows \<Rightarrow> seed_rows KL c routers now ld 0 rows q)"

text \<open>What the router and the gate say about one delivery, before and after the call.\<close>

record delivery_reads =
  dr_finalized :: "bool option"
  dr_cancelled :: "bool option"
  dr_executed :: "bool option"
  dr_owner :: "address option"
  dr_guardian :: "address option"
  dr_finalized_after :: "bool option"

definition plan_finalize ::
  "keeper_lib \<Rightarrow> delivery_reads \<Rightarrow> address \<Rightarrow> address \<Rightarrow> submission_record \<Rightarrow> (finalize_outcome + gate_call) option" where
  "plan_finalize KL d router me rc = do {
     _ \<leftarrow> cl_b256 (kl_core KL) (rc_submission_id rc);
     finalized \<leftarrow> dr_finalized d;
     if finalized then Some (Inl Done)
     else do {
       cancelled \<leftarrow> dr_cancelled d;
       if cancelled then Some (Inl (Drop ''cancelled''))
       else do {
         executed \<leftarrow> dr_executed d;
         if \<not> executed then Some (Inl NotYetDelivered)
         else do {
           owner \<leftarrow> dr_owner d;
           mine \<leftarrow> (if owner = me then Some True else map_option (\<lambda>guardian. guardian = me) (dr_guardian d));
           if mine then Some (Inl (Drop ''owner or guardian''))
           else do {
             args \<leftarrow> call_arguments KL rc [] (rc_chain_id_from rc);
             Some (Inr (CallFinalize router args)) } } } } }"

section \<open>The loops\<close>

text \<open>
  Everything a loop remembers: its view of the gate, the memo of transactions in flight, what
  it has reported, the deliveries to finalize, and the state under the chain's lock.
\<close>

record keeper_state =
  kp_view :: keeper_view
  kp_pending :: pending_txs
  kp_stranded :: "rust_str list"
  kp_below :: "rust_str list"
  kp_finalizer :: finalize_queue
  kp_send :: send_state

text \<open>The answers while one record is treated, and the encoding of calls as requests.\<close>

record tx_answers =
  an_gate :: gate_reads
  an_node :: node_view
  an_send :: send_answers
  an_encode :: "gate_call \<Rightarrow> tx_request"

text \<open>What leaves the process: calls and replacements handed to the node, and claims reported to the store.\<close>

datatype keeper_event = Sent gate_call tx_request | Resent tx_request | MarkClaimed rust_str bytes32

definition resent_events :: "tx_request option \<Rightarrow> keeper_event list" where
  "resent_events sent = (case sent of None \<Rightarrow> [] | Some t \<Rightarrow> [Resent t])"

definition report_once :: "rust_str \<Rightarrow> rust_str list \<Rightarrow> rust_str list" where
  "report_once sid reported = (if sid \<in> set reported then reported else sid # reported)"

text \<open>Send a call and wait; a receipt that times out is remembered.\<close>

definition submit_call ::
  "tx_answers \<Rightarrow> address \<Rightarrow> rust_str \<Rightarrow> rust_str \<Rightarrow> sig_kind \<Rightarrow> gate_call \<Rightarrow> keeper_state \<Rightarrow>
   bytes32 option \<times> keeper_state \<times> keeper_event list" where
  "submit_call a from_addr role sid kind call st =
     (case confirm (an_send a) (an_encode a call) from_addr role (kp_send st) of
        (res, snd_st, sent) \<Rightarrow>
          let st = st\<lparr>kp_send := snd_st\<rparr>;
              ev = (case sent of None \<Rightarrow> [] | Some tx \<Rightarrow> [Sent call tx]) in
          (case res of
             Inr hash \<Rightarrow> (Some hash, st, ev)
           | Inl e \<Rightarrow> (None, st\<lparr>kp_pending := note_failure sid kind e (kp_pending st)\<rparr>, ev)))"

definition count_sigs ::
  "keeper_lib \<Rightarrow> tx_answers \<Rightarrow> rust_str \<Rightarrow> sig_kind \<Rightarrow> signer_sig list \<Rightarrow> keeper_state \<Rightarrow> keeper_state \<times> signer_sig list" where
  "count_sigs KL a sid kind sigs st =
     (case member_signatures KL (an_gate a) (kp_view st) sid kind sigs of (v, out) \<Rightarrow> (st\<lparr>kp_view := v\<rparr>, out))"

definition has_quorum :: "keeper_state \<Rightarrow> signer_sig list \<Rightarrow> bool" where
  "has_quorum st sigs \<longleftrightarrow> gw_threshold (kp_view st) \<le> of_nat (length sigs)"

definition ask_pending :: "tx_answers \<Rightarrow> rust_str \<Rightarrow> sig_kind \<Rightarrow> keeper_state \<Rightarrow> bool \<times> keeper_state \<times> keeper_event list" where
  "ask_pending a sid kind st =
     (case may_submit (an_node a) sid kind (kp_pending st) of
        (go, p, sent) \<Rightarrow> (go, st\<lparr>kp_pending := p\<rparr>, resent_events sent))"

definition cancel_record ::
  "keeper_lib \<Rightarrow> bytes32 \<Rightarrow> address \<Rightarrow> tx_answers \<Rightarrow> submission_record \<Rightarrow> signer_sig list \<Rightarrow> keeper_state \<Rightarrow>
   keeper_state \<times> keeper_event list" where
  "cancel_record KL domain from_addr a rc sigs st =
     (let sid = rc_submission_id rc in
      case agrees_with_gate KL rc domain of
        Some _ \<Rightarrow> (st\<lparr>kp_stranded := report_once sid (kp_stranded st)\<rparr>, [])
      | None \<Rightarrow>
          (case ask_pending a sid Cancelling st of
             (False, st, ev) \<Rightarrow> (st, ev)
           | (True, st, ev) \<Rightarrow>
               (case plan_cancel KL (an_gate a) rc sigs of
                  Some (Submit call) \<Rightarrow>
                    (case submit_call a from_addr (rstr ''claim'') sid Cancelling call st of (_, st, ev') \<Rightarrow> (st, ev @ ev'))
                | _ \<Rightarrow> (st, ev))))"

definition queue_delivery ::
  "keeper_lib \<Rightarrow> keeper_chain \<Rightarrow> nat \<Rightarrow> submission_record \<Rightarrow> keeper_state \<Rightarrow> keeper_state" where
  "queue_delivery KL c now rc st =
     (case router_of KL (rc_receiver rc) (router_addresses KL c) of
        Some router \<Rightarrow> st\<lparr>kp_finalizer := enqueue rc router now (kp_finalizer st)\<rparr>
      | None \<Rightarrow> st)"

definition claim_record ::
  "keeper_lib \<Rightarrow> keeper_chain \<Rightarrow> bytes32 \<Rightarrow> address \<Rightarrow> allowlist option \<Rightarrow> tx_answers \<Rightarrow> submission_record \<Rightarrow> keeper_state \<Rightarrow>
   keeper_state \<times> keeper_event list" where
  "claim_record KL c domain from_addr allow a rc st =
     (let sid = rc_submission_id rc; now = nv_now (an_node a) in
      if below_min_claim KL c rc \<noteq> None then (st\<lparr>kp_below := report_once sid (kp_below st)\<rparr>, [])
      else case count_sigs KL a sid Transfer (rc_signatures rc) st of (st, sigs) \<Rightarrow>
        if \<not> has_quorum st sigs then (st, [])
        else if \<not> allowlist_permits allow (rc_debridge_id rc) (rc_chain_id_from rc) (rc_chain_id_to rc) then (st, [])
        else
          (case ask_pending a sid Transfer st of
             (False, st, ev) \<Rightarrow> (st, ev)
           | (True, st, ev) \<Rightarrow>
               (case plan_claim KL (an_gate a) rc sigs domain of
                  None \<Rightarrow> (st, ev)
                | Some (Stranded _) \<Rightarrow> (st\<lparr>kp_stranded := report_once sid (kp_stranded st)\<rparr>, ev)
                | Some AlreadyExecuted \<Rightarrow>
                    (queue_delivery KL c now rc (st\<lparr>kp_stranded := removeAll sid (kp_stranded st)\<rparr>), ev)
                | Some (Submit call) \<Rightarrow>
                    (case submit_call a from_addr (rstr ''claim'') sid Transfer call st of
                       (None, st, ev') \<Rightarrow> (st, ev @ ev')
                     | (Some hash, st, ev') \<Rightarrow>
                         (queue_delivery KL c now rc (st\<lparr>kp_stranded := removeAll sid (kp_stranded st)\<rparr>),
                          ev @ ev' @ [MarkClaimed sid hash])))))"

definition target_record ::
  "keeper_lib \<Rightarrow> keeper_chain \<Rightarrow> bytes32 \<Rightarrow> address \<Rightarrow> allowlist option \<Rightarrow> tx_answers \<Rightarrow> submission_record \<Rightarrow> keeper_state \<Rightarrow>
   keeper_state \<times> keeper_event list" where
  "target_record KL c domain from_addr allow a rc st =
     (if rc_chain_id_to rc \<noteq> kc_chain_id c then (st, [])
      else case count_sigs KL a (rc_submission_id rc) Cancelling (rc_cancel_signatures rc) st of (st, sigs) \<Rightarrow>
        if has_quorum st sigs then cancel_record KL domain from_addr a rc sigs st
        else claim_record KL c domain from_addr allow a rc st)"

definition refund_record ::
  "keeper_lib \<Rightarrow> keeper_chain \<Rightarrow> bytes32 \<Rightarrow> address \<Rightarrow> tx_answers \<Rightarrow> submission_record \<Rightarrow> keeper_state \<Rightarrow>
   keeper_state \<times> keeper_event list" where
  "refund_record KL c domain from_addr a rc st =
     (let sid = rc_submission_id rc in
      if rc_chain_id_from rc \<noteq> kc_chain_id c then (st, [])
      else case count_sigs KL a sid Refunding (rc_refund_signatures rc) st of (st, sigs) \<Rightarrow>
        if \<not> has_quorum st sigs then (st, [])
        else case agrees_with_gate KL rc domain of
          Some _ \<Rightarrow> (st\<lparr>kp_stranded := report_once sid (kp_stranded st)\<rparr>, [])
        | None \<Rightarrow>
            (case ask_pending a sid Refunding st of
               (False, st, ev) \<Rightarrow> (st, ev)
             | (True, st, ev) \<Rightarrow>
                 (case plan_refund KL (an_gate a) rc sigs (router_addresses KL c) of
                    Some (Submit call) \<Rightarrow>
                      (case submit_call a from_addr (rstr ''refund'') sid Refunding call st of (_, st, ev') \<Rightarrow> (st, ev @ ev'))
                  | _ \<Rightarrow> (st, ev))))"

text \<open>One due delivery, and the due ones of a tick.\<close>

definition finalize_due ::
  "keeper_lib \<Rightarrow> address \<Rightarrow> tx_answers \<Rightarrow> delivery_reads \<Rightarrow> nat \<Rightarrow> rust_str \<Rightarrow> keeper_state \<Rightarrow>
   keeper_state \<times> keeper_event list" where
  "finalize_due KL from_addr a d now sid st =
     (let again = (\<lambda>st. st\<lparr>kp_finalizer := back_off sid now (kp_finalizer st)\<rparr>);
          over = (\<lambda>st. st\<lparr>kp_finalizer := remove_entry sid (kp_finalizer st)\<rparr>) in
      case map_of (fq_entries (kp_finalizer st)) sid of
        None \<Rightarrow> (st, [])
      | Some e \<Rightarrow>
          (case plan_finalize KL d (fq_router e) from_addr (fq_rec e) of
             None \<Rightarrow> (again st, [])
           | Some (Inl Done) \<Rightarrow> (over st, [])
           | Some (Inl (Drop _)) \<Rightarrow> (over st, [])
           | Some (Inl _) \<Rightarrow> (again st, [])
           | Some (Inr call) \<Rightarrow>
               (case confirm (an_send a) (an_encode a call) from_addr (rstr ''claim'') (kp_send st) of
                  (res, snd_st, sent) \<Rightarrow>
                    let st = st\<lparr>kp_send := snd_st\<rparr>;
                        ev = (case sent of None \<Rightarrow> [] | Some tx \<Rightarrow> [Sent call tx]) in
                    (case res of
                       Inl _ \<Rightarrow> (again st, ev)
                     | Inr _ \<Rightarrow> (if dr_finalized_after d = Some True then over st else again st, ev)))))"

text \<open>A list of steps, each with its own answers, one after the other.\<close>

fun steps_list :: "('a \<Rightarrow> keeper_state \<Rightarrow> keeper_state \<times> keeper_event list) \<Rightarrow> 'a list \<Rightarrow> keeper_state \<Rightarrow> keeper_state \<times> keeper_event list" where
  "steps_list f [] st = (st, [])"
| "steps_list f (x # xs) st =
     (case f x st of (st, ev) \<Rightarrow> (case steps_list f xs st of (st, ev') \<Rightarrow> (st, ev @ ev')))"

text \<open>What the store serves at a tick, and the answers of the rest of it.\<close>

record tick_input =
  ti_gate :: gate_reads
  ti_node :: node_view
  ti_allowlist :: "allowlist_view option"
  ti_records :: "(submission_record \<times> tx_answers) list option"
  ti_deliveries :: "rust_str \<Rightarrow> tx_answers \<times> delivery_reads"
  ti_file_backed :: bool
  ti_history :: "history_row list option"
  ti_load :: "rust_str \<Rightarrow> submission_record option option"

definition forget_unseen :: "rust_str list \<Rightarrow> keeper_state \<Rightarrow> keeper_state" where
  "forget_unseen seen st =
     st\<lparr>kp_stranded := filter (\<lambda>i. i \<in> set seen) (kp_stranded st), kp_pending := pending_retain seen (kp_pending st),
       kp_below := filter (\<lambda>i. i \<in> set seen) (kp_below st)\<rparr>"

definition unwedge :: "node_view \<Rightarrow> address \<Rightarrow> rust_str \<Rightarrow> keeper_state \<Rightarrow> keeper_state \<times> keeper_event list" where
  "unwedge nv from_addr role st =
     (case unwedge_head nv from_addr role (pending_nonces (kp_pending st)) (kp_send st) of
        (s, sent) \<Rightarrow> (st\<lparr>kp_send := s\<rparr>, resent_events sent))"

definition finalize_tick ::
  "keeper_lib \<Rightarrow> keeper_chain \<Rightarrow> address \<Rightarrow> tick_input \<Rightarrow> keeper_state \<Rightarrow> keeper_state \<times> keeper_event list" where
  "finalize_tick KL c from_addr ti st =
     (let routers = router_addresses KL c; now = nv_now (ti_node ti) in
      if routers = [] then (st, [])
      else
        let st = (if seed_due now (kp_finalizer st)
                  then st\<lparr>kp_finalizer := seed KL c routers now (ti_file_backed ti) (ti_history ti) (ti_load ti) (kp_finalizer st)\<rparr>
                  else st)
        in steps_list (\<lambda>sid. finalize_due KL from_addr (fst (ti_deliveries ti sid)) (snd (ti_deliveries ti sid)) now sid)
             (due now PER_TICK (kp_finalizer st)) st)"

definition target_tick ::
  "keeper_lib \<Rightarrow> keeper_chain \<Rightarrow> bytes32 \<Rightarrow> address \<Rightarrow> allowlist_policy \<Rightarrow> tick_input \<Rightarrow> keeper_state \<Rightarrow>
   keeper_state \<times> keeper_event list" where
  "target_tick KL c domain from_addr policy ti st =
     (let st = st\<lparr>kp_view := refresh_if_stale (ti_gate ti) (nv_now (ti_node ti)) (kp_view st)\<rparr> in
      case ti_allowlist ti of
        None \<Rightarrow> (st, [])
      | Some view \<Rightarrow>
          (case policy_check policy view of
             Inl _ \<Rightarrow> (st, [])
           | Inr allow \<Rightarrow>
               (case ti_records ti of
                  None \<Rightarrow> (st, [])
                | Some records \<Rightarrow>
                    (case steps_list (\<lambda>(rc, a). target_record KL c domain from_addr allow a rc) records st of (st, ev) \<Rightarrow>
                     case finalize_tick KL c from_addr ti (forget_unseen (map (rc_submission_id \<circ> fst) records) st) of (st, ev') \<Rightarrow>
                     case unwedge (ti_node ti) from_addr (rstr ''claim'') st of (st, ev'') \<Rightarrow> (st, ev @ ev' @ ev'')))))"

definition source_tick ::
  "keeper_lib \<Rightarrow> keeper_chain \<Rightarrow> bytes32 \<Rightarrow> address \<Rightarrow> tick_input \<Rightarrow> keeper_state \<Rightarrow> keeper_state \<times> keeper_event list" where
  "source_tick KL c domain from_addr ti st =
     (let st = st\<lparr>kp_view := refresh_if_stale (ti_gate ti) (nv_now (ti_node ti)) (kp_view st)\<rparr> in
      case ti_records ti of
        None \<Rightarrow> (st, [])
      | Some records \<Rightarrow>
          (case steps_list (\<lambda>(rc, a). refund_record KL c domain from_addr a rc) records st of (st, ev) \<Rightarrow>
           case unwedge (ti_node ti) from_addr (rstr ''refund'') (forget_unseen (map (rc_submission_id \<circ> fst) records) st) of
             (st, ev') \<Rightarrow> (st, ev @ ev')))"

end
