(* ===== verification/KeeperClaimProps.thy ===== *)
theory KeeperClaimProps
  imports KeeperClaim CoreStoreProps
begin

text \<open>
  Which signatures the keeper counts and puts into a call: with an up-to-date view, exactly
  one of every validator that signed; in every case distinct members in the gate's order.
\<close>

section \<open>The library\<close>

text \<open>
  Addresses and hashes read back what they print; a hexadecimal string has two digits for
  every byte.
\<close>

definition keeper_lib_ok :: "keeper_lib \<Rightarrow> bool" where
  "keeper_lib_ok KL \<longleftrightarrow>
     core_lib_ok (kl_core KL) \<and>
     (\<forall>a. cl_address (kl_core KL) (kl_show_address KL a) = Some a) \<and>
     (\<forall>b. cl_b256 (kl_core KL) (kl_show_b256 KL b) = Some b) \<and>
     (\<forall>s b. cl_hex (kl_core KL) s = Some b \<longrightarrow> utf8_len s = 2 * length b)"

section \<open>Authenticated rows\<close>

text \<open>The rows' signers, in order, and what holds of each kept row.\<close>

definition row_ok :: "keeper_lib \<Rightarrow> bytes32 \<Rightarrow> sig_kind \<Rightarrow> address \<times> signer_sig \<Rightarrow> bool" where
  "row_ok KL x kind r \<longleftrightarrow>
     ss_signer (snd r) = kl_show_address KL (fst r) \<and>
     (\<exists>raw. hex_bytes (cl_hex (kl_core KL)) (ss_signature (snd r)) = Some raw \<and>
        cl_recover (kl_core KL) (digest_of (cl_keccak (kl_core KL)) kind x) raw = Some (fst r))"

lemma verify_attestation_Inr:
  "verify_attestation L x kind s = Inr a \<Longrightarrow>
     \<exists>raw. hex_bytes (cl_hex L) (ss_signature s) = Some raw \<and> cl_recover L (digest_of (cl_keccak L) kind x) raw = Some a"
  by (auto simp: verify_attestation_def verify_signature_def core_hex_bytes_def res_simps split: option.splits if_splits)

lemma authenticate_signatures_snoc:
  "authenticate_signatures KL x kind (sigs @ [s]) =
    (let out = authenticate_signatures KL x kind sigs in
     case verify_attestation (kl_core KL) x kind s of
       Inr recovered \<Rightarrow>
         if recovered \<in> set (map fst out) then out
         else out @ [(recovered, \<lparr>ss_signer = kl_show_address KL recovered, ss_signature = ss_signature s\<rparr>)]
     | Inl _ \<Rightarrow> out)"
  unfolding authenticate_signatures_def by (simp split: sum.split)

lemma authenticate_signatures_ok:
  "list_all (row_ok KL x kind) (authenticate_signatures KL x kind sigs) \<and>
   distinct (map fst (authenticate_signatures KL x kind sigs)) \<and>
   set (map fst (authenticate_signatures KL x kind sigs)) =
     {a. \<exists>s \<in> set sigs. verify_attestation (kl_core KL) x kind s = Inr a}"
proof (induction sigs rule: rev_induct)
  case Nil
  then show ?case by (simp add: authenticate_signatures_def)
next
  case (snoc s sigs)
  note step = authenticate_signatures_snoc [of KL x kind sigs s, unfolded Let_def]
  show ?case
  proof (cases "verify_attestation (kl_core KL) x kind s")
    case (Inl e)
    then show ?thesis using snoc by (simp add: step)
  next
    case (Inr a)
    have "row_ok KL x kind (a, \<lparr>ss_signer = kl_show_address KL a, ss_signature = ss_signature s\<rparr>)"
      using verify_attestation_Inr [OF Inr] by (simp add: row_ok_def)
    then show ?thesis using snoc Inr by (auto simp: step)
  qed
qed

section \<open>Membership\<close>

text \<open>A row of a resolved list, without its membership; a member by some answer of the gate.\<close>

definition strip_row :: "address \<times> membership \<times> signer_sig \<Rightarrow> address \<times> signer_sig" where
  "strip_row r = (fst r, snd (snd r))"

lemma strip_row_simp: "strip_row (a, m, s) = (a, s)"
  by (simp add: strip_row_def)

definition said_member :: "gate_reads \<Rightarrow> (address \<rightharpoonup> bool) \<Rightarrow> address \<Rightarrow> bool" where
  "said_member g memo a \<longleftrightarrow>
     memo a = Some True \<or> kr_is_validator g a = Some True \<or> kr_is_validator_again g a = Some True"

lemma resolve_members_rows:
  "resolve_members rd memo rows = (memo', out) \<Longrightarrow>
     set (map strip_row out) \<subseteq> set rows \<and> (distinct (map fst rows) \<longrightarrow> distinct (map fst out))"
proof (induction rd memo rows arbitrary: memo' out rule: resolve_members.induct)
  case (1 rd memo)
  then show ?case by simp
next
  case (2 rd memo addr s rest)
  have sub: "set (map strip_row o') \<subseteq> set rest \<Longrightarrow> addr \<notin> fst ` set rest \<Longrightarrow> addr \<notin> fst ` set o'" for o'
    by (force simp: strip_row_def)
  show ?case
    using 2 sub by (fastforce simp: strip_row_def split: option.splits prod.splits)
qed

lemma reread_members_rows:
  "reread_members rd memo rows = (memo', out) \<Longrightarrow> map strip_row out = map strip_row rows"
  by (induction rd memo rows arbitrary: memo' out rule: reread_members.induct)
    (auto simp: strip_row_def split: option.splits prod.splits)

lemma resolve_members_said:
  "resolve_members rd memo rows = (memo', out) \<Longrightarrow> (a, m, s) \<in> set out \<Longrightarrow> is_member m \<Longrightarrow>
     distinct (map fst rows) \<Longrightarrow> memo a = Some True \<or> rd a = Some True"
proof (induction rd memo rows arbitrary: memo' out rule: resolve_members.induct)
  case (1 rd memo)
  then show ?case by simp
next
  case (2 rd memo addr s' rest)
  from 2(4-) show ?case
    using 2(1-3) by (fastforce simp: is_member_def split: option.splits prod.splits if_splits)
qed

lemma reread_members_said:
  "reread_members rd memo rows = (memo', out) \<Longrightarrow> (a, m, s) \<in> set out \<Longrightarrow> is_member m \<Longrightarrow>
     rd a = Some True \<or> (\<exists>m s. (a, m, s) \<in> set rows \<and> is_member m)"
  by (induction rd memo rows arbitrary: memo' out rule: reread_members.induct)
    (fastforce simp: is_member_def split: option.splits prod.splits if_splits)+

section \<open>The order of the array\<close>

lemma filter_members_rows:
  "\<exists>rows. filter_members resolved n = map (\<lambda>(_, _, s). s) rows \<and> length rows \<le> n \<and> sorted (map fst rows) \<and>
     set rows \<subseteq> {r \<in> set resolved. is_member (fst (snd r))} \<and> (distinct (map fst resolved) \<longrightarrow> distinct (map fst rows))"
proof -
  define kept where "kept = sort_key (\<lambda>(addr, m, _). (is_cached m, addr)) (filter (\<lambda>(_, m, _). is_member m) resolved)"
  define rows where "rows = sort_key (\<lambda>(addr, _, _). addr) (take n kept)"
  have fst: "(\<lambda>(addr, _, _). addr) = (fst :: address \<times> membership \<times> signer_sig \<Rightarrow> address)" by auto
  have "filter_members resolved n = map (\<lambda>(_, _, s). s) rows"
    by (simp add: filter_members_def Let_def rows_def kept_def)
  moreover have "length rows \<le> n" by (simp add: rows_def)
  moreover have "sorted (map fst rows)" by (simp add: rows_def fst)
  moreover have "set rows \<subseteq> {r \<in> set resolved. is_member (fst (snd r))}"
    using set_take_subset [of n kept] by (auto simp: rows_def kept_def)
  moreover have "distinct (map fst rows)" if d: "distinct (map fst resolved)"
  proof -
    have "distinct (map fst (filter (\<lambda>(_, m, _). is_member m) resolved))" by (rule distinct_map_filter [OF d])
    then have "distinct (map fst kept)" unfolding kept_def by (simp add: distinct_map)
    then have "distinct (map fst (take n kept))" by (simp add: take_map [symmetric])
    then show ?thesis unfolding rows_def by (simp add: distinct_map)
  qed
  ultimately show ?thesis by blast
qed

section \<open>What a call carries\<close>

lemma collect_some_Some: "collect_some xs = Some ys \<longleftrightarrow> xs = map Some ys"
  by (induction xs arbitrary: ys rule: collect_some.induct) (auto simp: Cons_eq_map_conv)

text \<open>One validator's entry: its signature of the kind's message, in the form the gate takes or as stored.\<close>

definition signed_by :: "keeper_lib \<Rightarrow> bytes32 \<Rightarrow> sig_kind \<Rightarrow> address \<Rightarrow> bytes \<Rightarrow> bool" where
  "signed_by KL x kind a raw \<longleftrightarrow> cl_recover (kl_core KL) (digest_of (cl_keccak (kl_core KL)) kind x) raw = Some a"

definition entry_of :: "keeper_lib \<Rightarrow> signer_sig \<Rightarrow> bytes option" where
  "entry_of KL s =
     (case core_canonical_signature (kl_core KL) s of
        Inr canonical \<Rightarrow> bytes_of KL (ss_signature canonical)
      | Inl _ \<Rightarrow> bytes_of KL (ss_signature s))"

lemma entry_signed_by:
  assumes "keeper_lib_ok KL" "row_ok KL x kind (a, s)" "entry_of KL s = Some raw"
  shows "signed_by KL x kind a raw"
proof -
  obtain raw0 where r: "hex_bytes (cl_hex (kl_core KL)) (ss_signature s) = Some raw0"
    "cl_recover (kl_core KL) (digest_of (cl_keccak (kl_core KL)) kind x) raw0 = Some a"
    using assms(2) by (auto simp: row_ok_def)
  have core: "core_lib_ok (kl_core KL)" using assms(1) by (simp add: keeper_lib_ok_def)
  show ?thesis
  proof (cases "cl_canonical (kl_core KL) raw0")
    case None
    then show ?thesis using assms(3) r
      by (simp add: entry_of_def core_canonical_signature_def core_hex_bytes_def field_of_def bytes_of_def signed_by_def)
  next
    case (Some b)
    then have b: "b \<noteq> []" "\<And>m. cl_recover (kl_core KL) m b = cl_recover (kl_core KL) m raw0"
      using core by (auto simp: core_lib_ok_def)
    then have "raw = b" using assms(3) Some r hex_bytes_0x_enhex [OF core b(1)]
      by (simp add: entry_of_def core_canonical_signature_def core_hex_bytes_def field_of_def bytes_of_def)
    then show ?thesis using b(2) r(2) by (simp add: signed_by_def)
  qed
qed

text \<open>
  What holds of every signature list the keeper makes: the rows of distinct members, at most
  as many as there are validators, in ascending order of their signers.
\<close>

lemma member_signatures_auth_rows:
  assumes "member_signatures KL g v sid kind sigs = (v', out)" "cl_b256 (kl_core KL) sid = Some x"
  shows "\<exists>rows. out = map snd rows \<and> length rows \<le> gw_validator_count v \<and> sorted_wrt (<) (map fst rows) \<and>
    set rows \<subseteq> set (authenticate_signatures KL x kind sigs) \<and> (\<forall>r \<in> set rows. said_member g (gw_members v) (fst r))"
proof -
  let ?auth = "authenticate_signatures KL x kind sigs"
  obtain memo res where r: "resolve_members (kr_is_validator g) (gw_members v) ?auth = (memo, res)" by fastforce
  obtain memo' res' where r': "(if length (filter (\<lambda>(_, m, _). is_member m) res) > gw_validator_count v
      then reread_members (kr_is_validator_again g) memo res else (memo, res)) = (memo', res')" by fastforce
  have out: "out = filter_members res' (gw_validator_count v)"
    using assms by (simp add: member_signatures_def r r')
  note auth = authenticate_signatures_ok [of KL x kind sigs]
  note rr = resolve_members_rows [OF r]
  have strip: "map strip_row res' = map strip_row res"
    using r' reread_members_rows by (fastforce split: if_splits)
  then have fsts: "map fst res' = map fst res" by (metis (no_types, lifting) map_map strip_row_def fst_conv comp_def map_cong)
  have said: "said_member g (gw_members v) a" if "(a, m, s) \<in> set res'" "is_member m" for a m s
  proof -
    have "kr_is_validator_again g a = Some True \<or> (\<exists>m s. (a, m, s) \<in> set res \<and> is_member m)"
      using r' that reread_members_said by (fastforce split: if_splits)
    then show ?thesis using resolve_members_said [OF r] auth by (auto simp: said_member_def)
  qed
  obtain rows where rows: "out = map (\<lambda>(_, _, s). s) rows" "length rows \<le> gw_validator_count v" "sorted (map fst rows)"
    "set rows \<subseteq> {r \<in> set res'. is_member (fst (snd r))}" "distinct (map fst res') \<longrightarrow> distinct (map fst rows)"
    using filter_members_rows [of res' "gw_validator_count v"] out by blast
  have dist: "distinct (map fst rows)" using rows(5) rr auth fsts by simp
  have "strip_row r \<in> set ?auth" if "r \<in> set rows" for r
  proof -
    have "strip_row r \<in> set (map strip_row res')" using that rows(4) by auto
    then show ?thesis using strip rr by auto
  qed
  then have "set (map strip_row rows) \<subseteq> set ?auth" by auto
  moreover have "\<forall>r \<in> set (map strip_row rows). said_member g (gw_members v) (fst r)"
    using said rows(4) by (force simp: strip_row_def)
  moreover have "out = map snd (map strip_row rows)" by (simp add: rows(1) strip_row_def case_prod_unfold)
  moreover have "map fst (map strip_row rows) = map fst rows" by (simp add: strip_row_def)
  ultimately show ?thesis using rows(2,3) dist
    by (intro exI [of _ "map strip_row rows"]) (simp only: length_map strict_sorted_iff simp_thms)
qed

lemma member_signatures_rows:
  assumes "member_signatures KL g v sid kind sigs = (v', out)" "cl_b256 (kl_core KL) sid = Some x"
  shows "\<exists>rows. out = map snd rows \<and> length rows \<le> gw_validator_count v \<and> sorted_wrt (<) (map fst rows) \<and>
    list_all (\<lambda>r. row_ok KL x kind r \<and> said_member g (gw_members v) (fst r)) rows"
proof -
  obtain rows where r: "out = map snd rows" "length rows \<le> gw_validator_count v" "sorted_wrt (<) (map fst rows)"
    "set rows \<subseteq> set (authenticate_signatures KL x kind sigs)" "\<forall>r \<in> set rows. said_member g (gw_members v) (fst r)"
    using member_signatures_auth_rows [OF assms] by blast
  have "list_all (row_ok KL x kind) rows"
    using r(4) authenticate_signatures_ok [of KL x kind sigs] by (auto simp: list_all_iff)
  then show ?thesis using r by (auto simp: list_all_iff)
qed

text \<open>Every kept row has the signature of a row it was made from.\<close>

lemma authenticate_signatures_from:
  "r \<in> set (authenticate_signatures KL x kind sigs) \<Longrightarrow> \<exists>s \<in> set sigs. ss_signature (snd r) = ss_signature s"
proof (induction sigs arbitrary: r rule: rev_induct)
  case Nil
  then show ?case by (simp add: authenticate_signatures_def)
next
  case (snoc s sigs)
  show ?case
    using snoc.prems snoc.IH by (fastforce simp: authenticate_signatures_snoc Let_def split: sum.splits if_splits)
qed

lemma member_signatures_from:
  assumes "member_signatures KL g v sid kind sigs = (v', out)" "cl_b256 (kl_core KL) sid = Some x" "s \<in> set out"
  shows "\<exists>s' \<in> set sigs. ss_signature s = ss_signature s'"
proof -
  obtain rows where "out = map snd rows" "set rows \<subseteq> set (authenticate_signatures KL x kind sigs)"
    using member_signatures_auth_rows [OF assms(1,2)] by blast
  then show ?thesis using assms(3) authenticate_signatures_from by fastforce
qed

text \<open>The array in the calldata, entry by entry.\<close>

lemma sorted_signatures_rows:
  assumes "keeper_lib_ok KL" "list_all (row_ok KL x kind) rows" "sorted_wrt (<) (map fst rows)"
    "sorted_signatures KL (map snd rows) = Some arr"
  shows "list_all2 (signed_by KL x kind) (map fst rows) arr"
proof -
  have key: "map (signer_key KL) (map snd rows) = map fst rows"
    using assms(1,2) by (auto simp: list_all_iff row_ok_def signer_key_def keeper_lib_ok_def)
  then have "sort_key (signer_key KL) (map snd rows) = map snd rows"
    using assms(3) by (simp add: sort_key_id_if_sorted strict_sorted_iff del: map_map)
  then have "map Some arr = map (entry_of KL) (map snd rows)"
    using assms(4) unfolding sorted_signatures_def entry_of_def [abs_def] collect_some_Some by simp
  then have e: "map Some arr = map (\<lambda>r. entry_of KL (snd r)) rows" by (simp add: comp_def)
  have len: "length arr = length rows" using arg_cong [OF e, of length] by simp
  have "signed_by KL x kind (fst (rows ! i)) (arr ! i)" if "i < length rows" for i
  proof (rule entry_signed_by [OF assms(1)])
    show "row_ok KL x kind (fst (rows ! i), snd (rows ! i))" using assms(2) that by (simp add: list_all_length)
    show "entry_of KL (snd (rows ! i)) = Some (arr ! i)" using arg_cong [OF e, of "\<lambda>l. l ! i"] that len by simp
  qed
  then show ?thesis using len by (simp add: list_all2_conv_all_nth)
qed

section \<open>With an up-to-date view\<close>

text \<open>The members' reads: all answered as the gate's set \<open>V\<close> is.\<close>

lemma resolve_members_exact:
  assumes "\<And>a b. memo a = Some b \<Longrightarrow> b = V a" "\<And>a. rd a = Some (V a)"
  shows "\<exists>memo' out. resolve_members rd memo rows = (memo', out) \<and> map strip_row out = rows \<and>
    list_all (\<lambda>(a, m, _). is_member m = V a) out"
  using assms(1)
proof (induction rows arbitrary: memo)
  case Nil
  then show ?case by simp
next
  case (Cons r rows)
  obtain a s where r: "r = (a, s)" by fastforce
  show ?case
  proof (cases "memo a")
    case None
    have "\<And>c b. (memo(a \<mapsto> V a)) c = Some b \<Longrightarrow> b = V c" using Cons.prems by (simp split: if_splits)
    then obtain m o' where "resolve_members rd (memo(a \<mapsto> V a)) rows = (m, o')" "map strip_row o' = rows"
      "list_all (\<lambda>(a, m, _). is_member m = V a) o'" using Cons.IH by blast
    then show ?thesis using None assms(2) [of a]
      by (intro exI [of _ m] exI [of _ "(a, Fresh (V a), s) # o'"]) (simp add: r strip_row_simp is_member_def)
  next
    case (Some m)
    then have "m = V a" by (rule Cons.prems)
    moreover obtain mm o' where "resolve_members rd memo rows = (mm, o')" "map strip_row o' = rows"
      "list_all (\<lambda>(a, m, _). is_member m = V a) o'" using Cons.IH [OF Cons.prems] by blast
    ultimately show ?thesis using Some
      by (intro exI [of _ mm] exI [of _ "(a, Cached m, s) # o'"]) (simp add: r strip_row_simp is_member_def)
  qed
qed

lemma filter_members_set:
  assumes "length (filter (\<lambda>(_, m, _). is_member m) resolved) \<le> n"
  shows "\<exists>rows. filter_members resolved n = map (\<lambda>(_, _, s). s) rows \<and> sorted (map fst rows) \<and>
    mset rows = mset (filter (\<lambda>(_, m, _). is_member m) resolved)"
proof -
  have fst: "(\<lambda>(addr, _, _). addr) = (fst :: address \<times> membership \<times> signer_sig \<Rightarrow> address)" by auto
  show ?thesis
    using assms
    by (intro exI [of _ "sort_key fst (sort_key (\<lambda>(addr, m, _). (is_cached m, addr)) (filter (\<lambda>(_, m, _). is_member m) resolved))"])
      (simp add: filter_members_def Let_def fst)
qed

lemma member_signatures_exact:
  assumes "keeper_lib_ok KL" "cl_b256 (kl_core KL) sid = Some x"
    and "\<And>a b. gw_members v a = Some b \<Longrightarrow> b = (a \<in> V)" "\<And>a. kr_is_validator g a = Some (a \<in> V)"
    and "card V \<le> gw_validator_count v"
  shows "map (signer_key KL) (snd (member_signatures KL g v sid kind sigs)) =
    sorted_list_of_set {a \<in> V. \<exists>s \<in> set sigs. verify_attestation (kl_core KL) x kind s = Inr a}"
proof -
  let ?auth = "authenticate_signatures KL x kind sigs"
  let ?S = "{a \<in> V. \<exists>s \<in> set sigs. verify_attestation (kl_core KL) x kind s = Inr a}"
  note auth = authenticate_signatures_ok [of KL x kind sigs]
  obtain memo' res where r: "resolve_members (kr_is_validator g) (gw_members v) ?auth = (memo', res)"
    "map strip_row res = ?auth" "list_all (\<lambda>(a, m, _). is_member m = (a \<in> V)) res"
    using resolve_members_exact [of "gw_members v" "\<lambda>a. a \<in> V" "kr_is_validator g" ?auth, OF assms(3,4)] by blast
  define kept where "kept = filter (\<lambda>(_, m, _). is_member m) res"
  have m: "map fst res = map fst ?auth" unfolding r(2) [symmetric] by (simp add: strip_row_def)
  have fsts: "fst ` set res = {a. \<exists>s \<in> set sigs. verify_attestation (kl_core KL) x kind s = Inr a}"
    using auth arg_cong [OF m, of set] by (simp only: set_map)
  have dist: "distinct (map fst kept)" unfolding kept_def by (rule distinct_map_filter) (simp add: m auth)
  have "is_member (fst (snd r)) = (fst r \<in> V)" if "r \<in> set res" for r
    using r(3) that by (auto simp: list_all_iff)
  then have "fst ` set kept = {a \<in> fst ` set res. a \<in> V}" unfolding kept_def by (auto simp: image_iff)
  then have kset: "fst ` set kept = ?S" unfolding fsts by blast
  have len: "length kept \<le> gw_validator_count v"
  proof -
    have "length kept = card ?S" using distinct_card [OF dist] kset by simp
    also have "\<dots> \<le> card V" by (rule card_mono) (auto intro: finite_subset [OF subset_UNIV])
    finally show ?thesis using assms(5) by linarith
  qed
  obtain rows where rows: "filter_members res (gw_validator_count v) = map (\<lambda>(_, _, s). s) rows" "sorted (map fst rows)"
    "mset rows = mset kept"
    using filter_members_set len unfolding kept_def by blast
  have "snd (member_signatures KL g v sid kind sigs) = map (\<lambda>(_, _, s). s) rows"
    using assms(2) len rows(1) by (simp add: member_signatures_def r(1) kept_def [symmetric])
  moreover have "signer_key KL s = a" if "(a, m, s) \<in> set rows" for a m s
  proof -
    have "(a, m, s) \<in> set res" using that mset_eq_setD [OF rows(3)] by (auto simp: kept_def)
    then have "(a, s) \<in> set ?auth" unfolding r(2) [symmetric] by (force simp: strip_row_def)
    then show ?thesis using auth assms(1) by (auto simp: list_all_iff row_ok_def signer_key_def keeper_lib_ok_def)
  qed
  ultimately have "map (signer_key KL) (snd (member_signatures KL g v sid kind sigs)) = map fst rows" by auto
  moreover have "distinct (map fst rows)" 
    using dist mset_eq_imp_distinct_iff [of "map fst rows" "map fst kept"] rows(3) by (simp only: mset_map)
  moreover have "set (map fst rows) = ?S" using kset mset_eq_setD [OF rows(3)] by simp
  ultimately show ?thesis
    using rows(2) sorted_list_of_set.idem_if_sorted_distinct [of "map fst rows"] by simp
qed

text \<open>
  C31. Junk cannot cost a quorum and cannot make one. While the keeper's memo and the gate's
  answers agree with the gate's validators, of whom there are as many as the gate counts, the
  signatures it takes from a record, whatever other rows anyone has put there, are one of
  every validator that has signed the message, in ascending order, and no others.
\<close>

theorem quorum_counts_validators:
  assumes "keeper_lib_ok KL" "cl_b256 (kl_core KL) sid = Some x"
    and "\<And>a b. gw_members v a = Some b \<Longrightarrow> b = (a \<in> V)" "\<And>a. kr_is_validator g a = Some (a \<in> V)"
    and "card V \<le> gw_validator_count v"
  shows "map (signer_key KL) (snd (member_signatures KL g v sid kind sigs)) =
    sorted_list_of_set {a \<in> V. \<exists>s \<in> set sigs. verify_attestation (kl_core KL) x kind s = Inr a}"
  by (rule member_signatures_exact [OF assms])

end
