(* ===== verification/KeeperLoopProps.thy ===== *)
theory KeeperLoopProps
  imports KeeperLoop KeeperClaimProps KeeperTxProps
begin

text \<open>What the keeper's loops hand to the gates: only calls whose id and whose signatures the gate will find in order.\<close>

section \<open>The id of a call\<close>

text \<open>
  The id the gate of the chain \<open>own\<close> computes from a call's arguments, under its own domain.
  A claim or a cancel names the chain the transfer came from, and the gate takes itself as
  the destination; a refund names the destination, and the gate takes itself as the source.
\<close>

definition arguments_id :: "core_lib \<Rightarrow> bytes32 \<Rightarrow> bytes32 \<Rightarrow> bytes32 \<Rightarrow> call_args \<Rightarrow> bytes32 option" where
  "arguments_id L domain chain_from chain_to c =
     (case decode_auto_params (cl_abi L) (gca_auto_params c) (gca_native_sender c) of
        None \<Rightarrow> None
      | Some None \<Rightarrow> Some (core_submission_id (cl_keccak L) domain (gca_debridge_id c) (gca_bridge_decimals c) (gca_amount c)
          chain_from chain_to (gca_nonce c) (gca_receiver c))
      | Some (Some auto) \<Rightarrow> Some (core_submission_id_with_auto (cl_keccak L) domain (gca_debridge_id c) (gca_bridge_decimals c)
          (gca_amount c) chain_from chain_to (gca_nonce c) (gca_receiver c) auto))"

definition gate_id :: "core_lib \<Rightarrow> bytes32 \<Rightarrow> u64 \<Rightarrow> sig_kind \<Rightarrow> call_args \<Rightarrow> bytes32 option" where
  "gate_id L domain own kind c =
     (if kind = Refunding then arguments_id L domain (ucast own) (gca_chain c) c
      else arguments_id L domain (gca_chain c) (ucast own) c)"

lemma call_arguments_Some:
  assumes "call_arguments KL rc sigs chain = Some c"
  shows "cl_b256 (kl_core KL) (rc_debridge_id rc) = Some (gca_debridge_id c)" "cl_u256 (kl_core KL) (rc_amount rc) = Some (gca_amount c)"
    "rc_bridge_decimals rc = Some (gca_bridge_decimals c)" "bytes_of KL (rc_receiver rc) = Some (gca_receiver c)"
    "bytes_of KL (rc_auto_params rc) = Some (gca_auto_params c)" "bytes_of KL (rc_native_sender rc) = Some (gca_native_sender c)"
    "sorted_signatures KL sigs = Some (gca_signatures c)" "gca_chain c = ucast chain" "gca_nonce c = ucast (rc_nonce rc)"
  using assms by (auto simp: call_arguments_def split: bind_splits)

text \<open>The chain argument of a call of one kind on the gate of the chain \<open>own\<close>.\<close>

definition chain_argument :: "u64 \<Rightarrow> sig_kind \<Rightarrow> submission_record \<Rightarrow> u64 \<Rightarrow> bool" where
  "chain_argument own kind rc chain \<longleftrightarrow>
     (if kind = Refunding then rc_chain_id_from rc = own \<and> chain = rc_chain_id_to rc
      else rc_chain_id_to rc = own \<and> chain = rc_chain_id_from rc)"

lemma agrees_gate_id:
  assumes "keeper_lib_ok KL" "agrees_with_gate KL rc domain = None" "call_arguments KL rc sigs chain = Some c"
    "chain_argument own kind rc chain"
  shows "\<exists>x. cl_b256 (kl_core KL) (rc_submission_id rc) = Some x \<and> gate_id (kl_core KL) domain own kind c = Some x"
proof -
  obtain x where x: "cl_b256 (kl_core KL) (rc_submission_id rc) = Some x" "gate_submission_id KL rc domain = Inr x"
    using assms(2) by (auto simp: agrees_with_gate_def split: option.splits sum.splits if_splits)
  note a = call_arguments_Some [OF assms(3)]
  have "cl_b256 (kl_core KL) (kl_show_b256 KL domain) = Some domain" using assms(1) by (simp add: keeper_lib_ok_def)
  then have "arguments_id (kl_core KL) domain (ucast (rc_chain_id_from rc)) (ucast (rc_chain_id_to rc)) c = Some x"
    using x(2) a unfolding gate_submission_id_def canonical_submission_id_def arguments_id_def
    by (auto simp: core_hex_bytes_def bytes_of_def field_of_def res_simps Let_def split: option.splits)
  then have "gate_id (kl_core KL) domain own kind c = Some x"
    using assms(4) a(8) by (auto simp: gate_id_def chain_argument_def split: if_splits)
  then show ?thesis using x(1) by blast
qed

section \<open>Quorums\<close>

text \<open>
  What the gate's check of a signature array asks for: strictly ascending signers, no more
  than there are validators, at least the threshold, each a member and each a signature of
  the message.
\<close>

definition quorum_array ::
  "keeper_lib \<Rightarrow> gate_reads \<Rightarrow> keeper_view \<Rightarrow> sig_kind \<Rightarrow> bytes32 \<Rightarrow> bytes list \<Rightarrow> bool" where
  "quorum_array KL g v kind x arr \<longleftrightarrow>
     (\<exists>signers. list_all2 (signed_by KL x kind) signers arr \<and> sorted_wrt (<) signers \<and>
        length signers \<le> gw_validator_count v \<and> unat (gw_threshold v) \<le> length signers \<and>
        (\<forall>a \<in> set signers. said_member g (gw_members v) a))"

lemma count_sigs_quorum:
  assumes "keeper_lib_ok KL" "count_sigs KL a sid kind sigs st = (st', out)" "has_quorum st' out"
    "cl_b256 (kl_core KL) sid = Some x" "sorted_signatures KL out = Some arr"
  shows "quorum_array KL (an_gate a) (kp_view st) kind x arr"
proof -
  obtain v where v: "member_signatures KL (an_gate a) (kp_view st) sid kind sigs = (v, out)" "st' = st\<lparr>kp_view := v\<rparr>"
    using assms(2) by (auto simp: count_sigs_def split: prod.splits)
  obtain rows where rows: "out = map snd rows" "length rows \<le> gw_validator_count (kp_view st)" "sorted_wrt (<) (map fst rows)"
    "list_all (\<lambda>r. row_ok KL x kind r \<and> said_member (an_gate a) (gw_members (kp_view st)) (fst r)) rows"
    using member_signatures_rows [OF v(1) assms(4)] by blast
  have "list_all (row_ok KL x kind) rows" using rows(4) by (simp add: list_all_iff)
  note arr = sorted_signatures_rows [OF assms(1) this rows(3) assms(5) [unfolded rows(1)]]
  have "gw_threshold v = gw_threshold (kp_view st)"
    using v(1) by (auto simp: member_signatures_def split: option.splits prod.splits if_splits)
  then have "gw_threshold (kp_view st) \<le> of_nat (length rows)"
    using assms(3) by (simp add: has_quorum_def v(2) rows(1))
  then have "unat (gw_threshold (kp_view st)) \<le> unat (of_nat (length rows) :: u64)" by (simp add: word_le_nat_alt)
  also have "\<dots> \<le> length rows" by (simp add: unat_of_nat)
  finally show ?thesis
    using arr rows(2,3,4) by (auto simp: quorum_array_def list_all_iff intro!: exI [of _ "map fst rows"])
qed

text \<open>A count adds to the memo only what the gate said.\<close>

lemma resolve_members_memo:
  "resolve_members rd memo rows = (memo', out) \<Longrightarrow> memo' a = Some b \<Longrightarrow> memo a = Some b \<or> rd a = Some b"
  by (induction rd memo rows arbitrary: memo' out rule: resolve_members.induct)
    (fastforce split: option.splits prod.splits if_splits)+

lemma reread_members_memo:
  "reread_members rd memo rows = (memo', out) \<Longrightarrow> memo' a = Some b \<Longrightarrow> memo a = Some b \<or> rd a = Some b"
  by (induction rd memo rows arbitrary: memo' out rule: reread_members.induct)
    (fastforce split: option.splits prod.splits if_splits)+

lemma count_sigs_view:
  assumes "count_sigs KL a sid kind sigs st = (st', out)"
  shows "gw_threshold (kp_view st') = gw_threshold (kp_view st)" "gw_validator_count (kp_view st') = gw_validator_count (kp_view st)"
    "said_member (an_gate a) (gw_members (kp_view st')) b \<Longrightarrow> said_member (an_gate a) (gw_members (kp_view st)) b"
proof -
  obtain v where v: "member_signatures KL (an_gate a) (kp_view st) sid kind sigs = (v, out)" "st' = st\<lparr>kp_view := v\<rparr>"
    using assms by (auto simp: count_sigs_def split: prod.splits)
  show "gw_threshold (kp_view st') = gw_threshold (kp_view st)" "gw_validator_count (kp_view st') = gw_validator_count (kp_view st)"
    using v by (auto simp: member_signatures_def split: option.splits prod.splits if_splits)
  show "said_member (an_gate a) (gw_members (kp_view st')) b \<Longrightarrow> said_member (an_gate a) (gw_members (kp_view st)) b"
    using v unfolding member_signatures_def said_member_def
    by (auto split: option.splits prod.splits if_splits dest!: resolve_members_memo reread_members_memo)
qed

lemma quorum_array_earlier:
  assumes "count_sigs KL a sid kind sigs st = (st', out)" "quorum_array KL (an_gate a) (kp_view st') k x arr"
  shows "quorum_array KL (an_gate a) (kp_view st) k x arr"
  using assms(2) count_sigs_view [OF assms(1)] unfolding quorum_array_def by auto

section \<open>What is sent\<close>

lemma submit_call_sent:
  "submit_call a from_addr role sid kind call st = (r, st', ev) \<Longrightarrow> Sent call' tx \<in> set ev \<Longrightarrow> call' = call"
  by (auto simp: submit_call_def Let_def split: prod.splits sum.splits option.splits)

lemma ask_pending_sent: "ask_pending a sid kind st = (go, st', ev) \<Longrightarrow> Sent call tx \<notin> set ev"
  by (auto simp: ask_pending_def resent_events_def split: prod.splits option.splits)

lemma cancel_record_sent:
  assumes "cancel_record KL domain from_addr a rc sigs st = (st', ev)" "Sent call tx \<in> set ev"
  shows "agrees_with_gate KL rc domain = None \<and> plan_cancel KL (an_gate a) rc sigs = Some (Submit call)"
  using assms
  by (auto simp: cancel_record_def Let_def split: option.splits prod.splits bool.splits planned.splits
      dest: submit_call_sent ask_pending_sent)

lemma plan_cancel_Submit:
  assumes "plan_cancel KL g rc sigs = Some (Submit call)"
  shows "\<exists>c x. call = CallCancel c \<and> call_arguments KL rc sigs (rc_chain_id_from rc) = Some c \<and>
    cl_b256 (kl_core KL) (rc_submission_id rc) = Some x \<and> kr_executed g x = Some False"
  using assms by (auto simp: plan_cancel_def split: bind_splits if_splits)

lemma plan_claim_Submit:
  assumes "plan_claim KL g rc sigs domain = Some (Submit call)"
  shows "\<exists>c x token. call = CallClaim c \<and> call_arguments KL rc sigs (rc_chain_id_from rc) = Some c \<and>
    cl_b256 (kl_core KL) (rc_submission_id rc) = Some x \<and> kr_executed g x = Some False \<and>
    agrees_with_gate KL rc domain = None \<and> evm_receiver_decodable (rc_receiver rc) \<and>
    kr_token_of g (gca_debridge_id c) = Some token \<and> token \<noteq> 0"
  using assms by (auto simp: plan_claim_def split: bind_splits if_splits option.splits dest: call_arguments_Some)

lemma claim_record_sent:
  assumes "claim_record KL c domain from_addr allow a rc st = (st', ev)" "Sent call tx \<in> set ev"
  shows "\<exists>st1 sigs. count_sigs KL a (rc_submission_id rc) Transfer (rc_signatures rc) st = (st1, sigs) \<and> has_quorum st1 sigs \<and>
    allowlist_permits allow (rc_debridge_id rc) (rc_chain_id_from rc) (rc_chain_id_to rc) \<and>
    plan_claim KL (an_gate a) rc sigs domain = Some (Submit call)"
  using assms
  by (auto simp: claim_record_def Let_def split: option.splits prod.splits bool.splits planned.splits if_splits
      dest: submit_call_sent ask_pending_sent)

lemma decodable_20:
  assumes "keeper_lib_ok KL" "evm_receiver_decodable s" "bytes_of KL s = Some b"
  shows "length b = 20"
proof -
  define r where "r = (case strip_prefix s (rstr ''0x'') of Some t \<Rightarrow> t | None \<Rightarrow> s)"
  have "utf8_len r div 2 = 20" using assms(2) by (simp add: evm_receiver_decodable_def r_def)
  moreover have "(if r = [] then Some [] else cl_hex (kl_core KL) r) = Some b"
    using assms(3) by (simp add: bytes_of_def hex_bytes_def r_def [symmetric])
  ultimately show ?thesis using assms(1) by (auto simp: keeper_lib_ok_def utf8_len_def split: if_splits)
qed

text \<open>What is right about a call for a transfer, whatever its kind.\<close>

definition call_ok ::
  "keeper_lib \<Rightarrow> bytes32 \<Rightarrow> u64 \<Rightarrow> gate_reads \<Rightarrow> keeper_view \<Rightarrow> submission_record \<Rightarrow> sig_kind \<Rightarrow> call_args \<Rightarrow> bytes32 \<Rightarrow> bool" where
  "call_ok KL domain own g v rc kind c x \<longleftrightarrow>
     cl_b256 (kl_core KL) (rc_submission_id rc) = Some x \<and>
     gate_id (kl_core KL) domain own kind c = Some x \<and>
     quorum_array KL g v kind x (gca_signatures c)"

lemma call_ok_intro:
  assumes "keeper_lib_ok KL" "agrees_with_gate KL rc domain = None" "call_arguments KL rc out chain = Some c"
    "count_sigs KL a (rc_submission_id rc) kind sigs st = (st', out)" "has_quorum st' out"
    "cl_b256 (kl_core KL) (rc_submission_id rc) = Some x" "chain_argument own kind rc chain"
  shows "call_ok KL domain own (an_gate a) (kp_view st) rc kind c x"
  using agrees_gate_id [OF assms(1,2,3,7)] count_sigs_quorum [OF assms(1,4,5,6) call_arguments_Some(7) [OF assms(3)]] assms(6)
  by (auto simp: call_ok_def)

text \<open>
  C30. What the keeper sends to a destination. Whatever rows stand in the store and whatever
  the node answers, a claim or a cancel that the keeper hands to the node for a record is for
  the record's id, which is the one the gate computes from the call's own arguments, the
  source chain among them, under its own domain and with its own chain as the destination;
  the gate had said that the id is not executed; the signatures in it satisfy
  the gate's check by the gate's own answers: ascending, distinct, at most as many as there
  are validators, at least the threshold, each of a member over the message of that kind.
  A claim pays a receiver of twenty bytes in a registered token, over a corridor and a token
  that the allowlist permits.
\<close>

theorem keeper_calls_acceptable:
  assumes "keeper_lib_ok KL" "target_record KL chain domain from_addr allow a rc st = (st', ev)" "Sent call tx \<in> set ev"
  shows "\<exists>c x kind. call_ok KL domain (kc_chain_id chain) (an_gate a) (kp_view st) rc kind c x \<and>
    kr_executed (an_gate a) x = Some False \<and> rc_chain_id_to rc = kc_chain_id chain \<and>
    (call = CallCancel c \<and> kind = Cancelling \<or>
     call = CallClaim c \<and> kind = Transfer \<and> length (gca_receiver c) = 20 \<and>
       (\<exists>token. kr_token_of (an_gate a) (gca_debridge_id c) = Some token \<and> token \<noteq> 0) \<and>
       allowlist_permits allow (rc_debridge_id rc) (rc_chain_id_from rc) (rc_chain_id_to rc))"
proof -
  have chain: "rc_chain_id_to rc = kc_chain_id chain"
    using assms(2,3) by (auto simp: target_record_def split: if_splits)
  obtain st1 out where count: "count_sigs KL a (rc_submission_id rc) Cancelling (rc_cancel_signatures rc) st = (st1, out)"
    by fastforce
  show ?thesis
  proof (cases "has_quorum st1 out")
    case True
    then have "cancel_record KL domain from_addr a rc out st1 = (st', ev)"
      using assms(2) chain count by (simp add: target_record_def)
    from cancel_record_sent [OF this assms(3)] have s: "agrees_with_gate KL rc domain = None"
      "plan_cancel KL (an_gate a) rc out = Some (Submit call)" by simp_all
    obtain c x where c: "call = CallCancel c" "call_arguments KL rc out (rc_chain_id_from rc) = Some c"
      "cl_b256 (kl_core KL) (rc_submission_id rc) = Some x" "kr_executed (an_gate a) x = Some False"
      using plan_cancel_Submit [OF s(2)] by blast
    have arg: "chain_argument (kc_chain_id chain) Cancelling rc (rc_chain_id_from rc)"
      using chain by (simp add: chain_argument_def)
    show ?thesis using call_ok_intro [OF assms(1) s(1) c(2) count True c(3) arg] c(1,4) chain by blast
  next
    case False
    then have "claim_record KL chain domain from_addr allow a rc st1 = (st', ev)"
      using assms(2) chain count by (simp add: target_record_def)
    from claim_record_sent [OF this assms(3)] obtain st2 sigs where
      s: "count_sigs KL a (rc_submission_id rc) Transfer (rc_signatures rc) st1 = (st2, sigs)" "has_quorum st2 sigs"
      "allowlist_permits allow (rc_debridge_id rc) (rc_chain_id_from rc) (rc_chain_id_to rc)"
      "plan_claim KL (an_gate a) rc sigs domain = Some (Submit call)" by blast
    obtain c x token where c: "call = CallClaim c" "call_arguments KL rc sigs (rc_chain_id_from rc) = Some c"
      "cl_b256 (kl_core KL) (rc_submission_id rc) = Some x" "kr_executed (an_gate a) x = Some False"
      "agrees_with_gate KL rc domain = None" "evm_receiver_decodable (rc_receiver rc)"
      "kr_token_of (an_gate a) (gca_debridge_id c) = Some token" "token \<noteq> 0"
      using plan_claim_Submit [OF s(4)] by blast
    have "call_ok KL domain (kc_chain_id chain) (an_gate a) (kp_view st1) rc Transfer c x"
      by (rule call_ok_intro [OF assms(1) c(5,2) s(1,2) c(3)]) (simp add: chain_argument_def chain)
    then have "call_ok KL domain (kc_chain_id chain) (an_gate a) (kp_view st) rc Transfer c x"
      using quorum_array_earlier [OF count] by (simp add: call_ok_def)
    then show ?thesis
      using c chain s(3) decodable_20 [OF assms(1) c(6) call_arguments_Some(4) [OF c(2)]] by blast
  qed
qed

text \<open>The same of the refunds at a source, and where they go.\<close>

lemma refund_record_sent:
  assumes "keeper_lib_ok KL" "refund_record KL chain domain from_addr a rc st = (st', ev)" "Sent call tx \<in> set ev"
  shows "\<exists>x. cl_b256 (kl_core KL) (rc_submission_id rc) = Some x \<and> rc_chain_id_from rc = kc_chain_id chain \<and>
    ((\<exists>router. call = CallForwardRefund router x \<and> router \<in> set (router_addresses KL chain) \<and>
        kr_refunded (an_gate a) x = Some True) \<or>
     (\<exists>c sent_by. call_ok KL domain (kc_chain_id chain) (an_gate a) (kp_view st) rc Refunding c x \<and> kr_refunded (an_gate a) x = Some False \<and>
        kr_sent_by (an_gate a) x = Some sent_by \<and> sent_by \<noteq> 0 \<and>
        (if sent_by \<in> set (router_addresses KL chain) then call = CallRefundAndForward sent_by c
         else \<exists>token. call = CallRefund token c)))"
proof -
  obtain st1 out where count: "count_sigs KL a (rc_submission_id rc) Refunding (rc_refund_signatures rc) st = (st1, out)"
    by fastforce
  have s: "rc_chain_id_from rc = kc_chain_id chain" "has_quorum st1 out" "agrees_with_gate KL rc domain = None"
    "plan_refund KL (an_gate a) rc out (router_addresses KL chain) = Some (Submit call)"
    using assms(2,3) count
    by (auto simp: refund_record_def Let_def split: option.splits prod.splits bool.splits planned.splits if_splits
        dest: submit_call_sent ask_pending_sent)
  obtain x where x: "cl_b256 (kl_core KL) (rc_submission_id rc) = Some x"
    using s(4) by (auto simp: plan_refund_def split: bind_splits)
  have arg: "chain_argument (kc_chain_id chain) Refunding rc (rc_chain_id_to rc)"
    using s(1) by (simp add: chain_argument_def)
  note ok = call_ok_intro [OF assms(1) s(3) _ count s(2) x arg]
  show ?thesis
    using s(4) x s(1) ok by (auto simp: plan_refund_def split: bind_splits if_splits option.splits)
qed

section \<open>Finalizing deliveries\<close>

text \<open>Every queued delivery is into a configured router.\<close>

definition queue_ok :: "address list \<Rightarrow> finalize_queue \<Rightarrow> bool" where
  "queue_ok routers q \<longleftrightarrow>
     (\<forall>sid e. map_of (fq_entries q) sid = Some e \<longrightarrow> fq_router e \<in> set routers)"

lemma enqueue_ok:
  "queue_ok routers q \<Longrightarrow> router \<in> set routers \<Longrightarrow> queue_ok routers (enqueue rc router now q)"
  by (auto simp: queue_ok_def enqueue_def update_conv' split: if_splits)

lemma back_off_ok: "queue_ok routers q \<Longrightarrow> queue_ok routers (back_off sid now q)"
  by (auto simp: queue_ok_def back_off_def update_conv' split: if_splits option.splits)

lemma remove_entry_ok: "queue_ok routers q \<Longrightarrow> queue_ok routers (remove_entry sid q)"
  by (auto simp: queue_ok_def remove_entry_def delete_conv' split: if_splits)

lemma plan_finalize_call:
  assumes "plan_finalize KL d router me rc = Some (Inr call)"
  shows "(\<exists>c. call = CallFinalize router c) \<and> dr_finalized d = Some False \<and> dr_cancelled d = Some False \<and>
    dr_executed d = Some True \<and> dr_owner d \<noteq> Some me \<and> dr_guardian d \<noteq> Some me"
  using assms by (auto simp: plan_finalize_def split: bind_splits if_splits)

lemma seed_rows_ok:
  "queue_ok routers q \<Longrightarrow> queue_ok routers (seed_rows KL c routers now ld loads rows q)"
proof (induction KL c routers now ld loads rows q rule: seed_rows.induct)
  case (1 KL c routers now ld loads q)
  then show ?case by simp
next
  case (2 KL c routers now ld loads row rows q)
  have "queue_ok routers (case ld (hr_submission_id row) of
      Some (Some rc) \<Rightarrow> if below_min_claim KL c rc = None then enqueue rc router now q else q | _ \<Rightarrow> q)"
    if "router_of KL (hr_receiver row) routers = Some router" for router
    using that 2(4) by (auto simp: router_of_def enqueue_ok split: option.splits bind_splits if_splits)
  then show ?case using 2 by (auto split: option.split)
qed

lemma seed_ok: "queue_ok routers q \<Longrightarrow> queue_ok routers (seed KL c routers now fb history ld q)"
proof -
  assume "queue_ok routers q"
  then have "queue_ok routers (q\<lparr>fq_seeded_at := Some now\<rparr>)" by (simp add: queue_ok_def)
  then show ?thesis by (simp add: seed_def Let_def seed_rows_ok split: option.split)
qed

text \<open>What one event of the finalizing says.\<close>

definition finalize_event_ok ::
  "(rust_str \<Rightarrow> tx_answers \<times> delivery_reads) \<Rightarrow> address \<Rightarrow> address list \<Rightarrow> keeper_event \<Rightarrow> bool" where
  "finalize_event_ok reads me routers e \<longleftrightarrow>
     (\<exists>sid router c tx. e = Sent (CallFinalize router c) tx \<and> router \<in> set routers \<and>
        dr_finalized (snd (reads sid)) = Some False \<and> dr_cancelled (snd (reads sid)) = Some False \<and>
        dr_executed (snd (reads sid)) = Some True \<and>
        dr_owner (snd (reads sid)) \<noteq> Some me \<and> dr_guardian (snd (reads sid)) \<noteq> Some me)"

lemma finalize_due_ok:
  assumes "queue_ok routers (kp_finalizer st)"
    "finalize_due KL me (fst (reads sid)) (snd (reads sid)) now sid st = (st', ev)"
  shows "queue_ok routers (kp_finalizer st') \<and> length ev \<le> 1 \<and> list_all (finalize_event_ok reads me routers) ev"
proof (cases "map_of (fq_entries (kp_finalizer st)) sid")
  case None
  then show ?thesis using assms by (simp add: finalize_due_def)
next
  case (Some e)
  have r: "fq_router e \<in> set routers" using assms(1) Some by (simp add: queue_ok_def)
  show ?thesis
  proof (cases "\<exists>call. plan_finalize KL (snd (reads sid)) (fq_router e) me (fq_rec e) = Some (Inr call)")
    case False
    then show ?thesis
      using assms Some
      by (auto simp: finalize_due_def Let_def back_off_ok remove_entry_ok split: option.splits sum.splits finalize_outcome.splits)
  next
    case True
    then obtain call where p: "plan_finalize KL (snd (reads sid)) (fq_router e) me (fq_rec e) = Some (Inr call)" by blast
    obtain res s sent where c: "confirm (an_send (fst (reads sid))) (an_encode (fst (reads sid)) call) me (rstr ''claim'') (kp_send st) =
        (res, s, sent)" by (metis prod_cases3)
    have "finalize_event_ok reads me routers (Sent call tx)" for tx
      using plan_finalize_call [OF p] r unfolding finalize_event_ok_def by blast
    then show ?thesis
      using assms Some p c
      by (auto simp: finalize_due_def Let_def back_off_ok remove_entry_ok split: sum.splits option.splits if_splits)
  qed
qed

lemma finalize_steps_ok:
  assumes "queue_ok routers (kp_finalizer st)"
    "steps_list (\<lambda>sid. finalize_due KL me (fst (reads sid)) (snd (reads sid)) now sid) sids st = (st', ev)"
  shows "queue_ok routers (kp_finalizer st') \<and> length ev \<le> length sids \<and> list_all (finalize_event_ok reads me routers) ev"
  using assms
proof (induction sids arbitrary: st st' ev)
  case Nil
  then show ?case by simp
next
  case (Cons sid sids)
  obtain st1 e1 where f: "finalize_due KL me (fst (reads sid)) (snd (reads sid)) now sid st = (st1, e1)" by fastforce
  obtain st2 e2 where g: "steps_list (\<lambda>sid. finalize_due KL me (fst (reads sid)) (snd (reads sid)) now sid) sids st1 = (st2, e2)"
    by fastforce
  have "st' = st2" "ev = e1 @ e2" using Cons.prems(2) f g by simp_all
  then show ?case using finalize_due_ok [where reads = reads, OF Cons.prems(1) f] Cons.IH [OF _ g] by simp
qed

text \<open>
  Finalizing. At a tick the keeper makes at most four attempts, each the \<open>finalize\<close> of a
  configured router for a delivery that the router has not finalized and that the gate has
  executed and not cancelled, and never as the owner or the guardian of the router, who
  could pay the user the stable in place of its token. The queue holds deliveries into
  configured routers only, before and after.
\<close>

theorem finalizes_only_deliveries:
  assumes "queue_ok (router_addresses KL c) (kp_finalizer st)" "finalize_tick KL c me ti st = (st', ev)"
  shows "queue_ok (router_addresses KL c) (kp_finalizer st') \<and> length ev \<le> 4 \<and>
    (\<forall>e \<in> set ev. finalize_event_ok (ti_deliveries ti) me (router_addresses KL c) e)"
proof (cases "router_addresses KL c = []")
  case True
  then show ?thesis using assms by (simp add: finalize_tick_def)
next
  case False
  let ?now = "nv_now (ti_node ti)"
  define st1 where "st1 = (if seed_due ?now (kp_finalizer st)
      then st\<lparr>kp_finalizer := seed KL c (router_addresses KL c) ?now (ti_file_backed ti) (ti_history ti) (ti_load ti) (kp_finalizer st)\<rparr>
      else st)"
  have q: "queue_ok (router_addresses KL c) (kp_finalizer st1)" using assms(1) by (simp add: st1_def seed_ok)
  have s: "steps_list (\<lambda>sid. finalize_due KL me (fst (ti_deliveries ti sid)) (snd (ti_deliveries ti sid)) ?now sid)
      (due ?now PER_TICK (kp_finalizer st1)) st1 = (st', ev)"
    using assms(2) False by (simp add: finalize_tick_def Let_def st1_def [symmetric])
  have "length (due ?now PER_TICK (kp_finalizer st1)) \<le> 4" by (simp add: due_def PER_TICK_def)
  then show ?thesis using finalize_steps_ok [OF q s] by (auto simp: list_all_iff)
qed

end
