(* ===== verification/KeeperStore.thy ===== *)
theory KeeperStore
  imports KeeperLoopProps
begin

text \<open>
  The store and the keeper together: a transfer that the store holds with a quorum of
  signatures is claimed.
\<close>

section \<open>What a stored record offers the keeper\<close>

lemma authentic_verifies:
  assumes "authentic L k x s"
  shows "\<exists>a. cl_address L (ss_signer s) = Some a \<and> verify_attestation L x k s = Inr a"
  using assms by (auto simp: authentic_def verify_attestation_def verify_signature_def core_hex_bytes_def field_of_def)

text \<open>Authentic rows verify exactly as their labels say.\<close>

lemma authentic_rows_signers:
  assumes "\<And>s. s \<in> set sigs \<Longrightarrow> authentic L k x s"
  shows "{a. \<exists>s \<in> set sigs. verify_attestation L x k s = Inr a} = {a. \<exists>s \<in> set sigs. cl_address L (ss_signer s) = Some a}"
proof -
  have "verify_attestation L x k s = Inr a \<longleftrightarrow> cl_address L (ss_signer s) = Some a" if "s \<in> set sigs" for s a
    using authentic_verifies [OF assms [OF that]] by auto
  then show ?thesis by blast
qed

lemma stored_agrees:
  assumes "keeper_lib_ok KL" "canonical_submission_id (kl_core KL) rc = Inr x" "cl_b256 (kl_core KL) (rc_submission_id rc) = Some x"
    "cl_b256 (kl_core KL) (rc_bridge_domain rc) = Some domain"
  shows "agrees_with_gate KL rc domain = None"
proof -
  have "cl_b256 (kl_core KL) (kl_show_b256 KL domain) = cl_b256 (kl_core KL) (rc_bridge_domain rc)"
    using assms(1,4) by (simp add: keeper_lib_ok_def)
  then have "gate_submission_id KL rc domain = canonical_submission_id (kl_core KL) rc"
    by (simp add: gate_submission_id_def canonical_submission_id_def)
  then show ?thesis using assms(2,3) by (simp add: agrees_with_gate_def)
qed

lemma stored_arguments:
  assumes "canonical_submission_id (kl_core KL) rc = Inr x" "sorted_signatures KL sigs = Some arr"
  shows "\<exists>c. call_arguments KL rc sigs chain = Some c"
  using assms
  by (auto simp: canonical_submission_id_def call_arguments_def core_hex_bytes_def bytes_of_def res_simps)

lemma canonical_rows_array:
  assumes "keeper_lib_ok KL"
    and "\<And>s. s \<in> set out \<Longrightarrow> \<exists>raw. hex_bytes (cl_hex (kl_core KL)) (ss_signature s) = Some raw \<and> cl_canonical (kl_core KL) raw = Some raw"
  shows "\<exists>arr. sorted_signatures KL out = Some arr"
proof -
  have core: "core_lib_ok (kl_core KL)" using assms(1) by (simp add: keeper_lib_ok_def)
  have "\<exists>raw. entry_of KL s = Some raw" if "s \<in> set out" for s
  proof -
    obtain raw where r: "hex_bytes (cl_hex (kl_core KL)) (ss_signature s) = Some raw" "cl_canonical (kl_core KL) raw = Some raw"
      using assms(2) [OF \<open>s \<in> set out\<close>] by blast
    then have "raw \<noteq> []" using core by (auto simp: core_lib_ok_def)
    then show ?thesis using r hex_bytes_0x_enhex [OF core]
      by (simp add: entry_of_def core_canonical_signature_def core_hex_bytes_def field_of_def bytes_of_def)
  qed
  then obtain f where f: "\<And>s. s \<in> set out \<Longrightarrow> entry_of KL s = Some (f s)" by metis
  have "map (entry_of KL) (sort_key (signer_key KL) out) = map Some (map f (sort_key (signer_key KL) out))" using f by simp
  then show ?thesis unfolding sorted_signatures_def entry_of_def [abs_def] collect_some_Some by blast
qed

text \<open>The answers under which a claim can be sent: nothing in flight, a node that prices and takes it.\<close>

definition node_takes :: "send_answers \<Rightarrow> bool" where
  "node_takes n \<longleftrightarrow> sa_pending_nonce n \<noteq> None \<and> (\<forall>tx. sa_gas n tx \<noteq> None) \<and> (\<exists>e. sa_fees n = Fees e)"

lemma submit_call_takes:
  assumes "node_takes (an_send a)"
  shows "\<exists>r st' tx ev. submit_call a from_addr role sid kind call st = (r, st', ev) \<and> Sent call tx \<in> set ev"
proof -
  obtain nonce e where n: "sa_pending_nonce (an_send a) = Some nonce" "sa_fees (an_send a) = Fees e"
    using assms by (auto simp: node_takes_def)
  obtain gas where "sa_gas (an_send a) ((an_encode a call)\<lparr>tr_from := Some from_addr, tr_nonce := Some nonce\<rparr>) = Some gas"
    using assms by (auto simp: node_takes_def)
  then have "\<exists>tx. populate (an_send a) (an_encode a call) from_addr = Some tx"
    by (simp add: populate_def Let_def n)
  then obtain tx where "populate (an_send a) (an_encode a call) from_addr = Some tx" by blast
  then show ?thesis
    by (auto simp: submit_call_def confirm_def Let_def split: option.splits receipt_answer.splits)
qed

text \<open>
  C33. A stored quorum is claimed. Take any record that the store holds after any sequence of
  writes in which records are posted without signature lists of their own, as the scanners
  post them; let it be without a cancel vote and under the domain of the gate. If the keeper's view of the
  validators is up to date and at least the threshold of them have signed by the store's own
  labels, if the amount, the corridor and the token pass the keeper's configuration, if
  nothing of it is in flight, if the gate says that it is not executed and its token is
  registered and the node takes the call, then the keeper's treatment of the record hands a
  claim to the node.
\<close>

theorem stored_quorum_claimed:
  assumes "keeper_lib_ok KL" "store_run (kl_core KL) (\<lambda>_. None) posts d" "\<And>p. p \<in> set posts \<Longrightarrow> bare p"
    and "d path = Some (Parsed rc)"
    and "rc_chain_id_to rc = kc_chain_id chain" "rc_cancel_signatures rc = []"
    and "cl_b256 (kl_core KL) (rc_bridge_domain rc) = Some domain"
    and "\<And>b v. gw_members (kp_view st) b = Some v \<Longrightarrow> v = (b \<in> V)" "\<And>b. kr_is_validator (an_gate a) b = Some (b \<in> V)"
    and "card V \<le> gw_validator_count (kp_view st)" "gw_validator_count (kp_view st) < 2 ^ 64"
    and "0 < unat (gw_threshold (kp_view st))"
    and "unat (gw_threshold (kp_view st)) \<le> card {b \<in> V. \<exists>s \<in> set (rc_signatures rc). cl_address (kl_core KL) (ss_signer s) = Some b}"
    and "below_min_claim KL chain rc = None"
    and "allowlist_permits allow (rc_debridge_id rc) (rc_chain_id_from rc) (rc_chain_id_to rc)"
    and "map_of (kp_pending st) (rc_submission_id rc, Transfer) = None"
    and "evm_receiver_decodable (rc_receiver rc)" "\<And>x. kr_executed (an_gate a) x = Some False"
    and "\<And>x. kr_token_of (an_gate a) x = Some token" "token \<noteq> 0" "node_takes (an_send a)"
  shows "\<exists>c tx. Sent (CallClaim c) tx \<in> set (snd (target_record KL chain domain from_addr allow a rc st))"
proof -
  let ?L = "kl_core KL" and ?sid = "rc_submission_id rc"
  have L: "core_lib_ok ?L" using assms(1) by (simp add: keeper_lib_ok_def)
  obtain x where x: "canonical_submission_id ?L rc = Inr x" "cl_b256 ?L ?sid = Some x"
    and b: "\<forall>k. \<forall>s \<in> set (bucket_of k rc). authentic ?L k x s"
    using store_run_bare [OF assms(2) L assms(3,4)] by blast
  have au: "authentic ?L Transfer x s" if "s \<in> set (rc_signatures rc)" for s
    using b [rule_format, of s Transfer] that by (simp add: bucket_of_def)
  have c: "count_sigs KL a ?sid Cancelling [] st = (st, [])"
    by (simp add: count_sigs_def member_signatures_def x(2) authenticate_signatures_def filter_members_def)
  obtain st1 out where t: "count_sigs KL a ?sid Transfer (rc_signatures rc) st = (st1, out)" by fastforce
  then obtain v where v: "member_signatures KL (an_gate a) (kp_view st) ?sid Transfer (rc_signatures rc) = (v, out)" "st1 = st\<lparr>kp_view := v\<rparr>"
    by (auto simp: count_sigs_def split: prod.splits)
  have ex: "map (signer_key KL) out = sorted_list_of_set {b \<in> V. \<exists>s \<in> set (rc_signatures rc). verify_attestation ?L x Transfer s = Inr b}"
    using member_signatures_exact [OF assms(1) x(2) assms(8,9,10), of Transfer "rc_signatures rc"] v(1) by simp
  have "{b \<in> V. \<exists>s \<in> set (rc_signatures rc). verify_attestation ?L x Transfer s = Inr b} =
      {b \<in> V. \<exists>s \<in> set (rc_signatures rc). cl_address ?L (ss_signer s) = Some b}" (is "?S = ?S'")
    using authentic_rows_signers [OF au] by blast
  then have len: "length out = card ?S'" using arg_cong [OF ex, of length] by simp
  have "card ?S' \<le> card V" by (rule card_mono) (auto intro: finite_subset [OF subset_UNIV])
  then have "length out < 2 ^ 64" using len assms(10,11) by linarith
  then have "unat (of_nat (length out) :: u64) = length out" by (simp add: unat_of_nat)
  then have q: "has_quorum st1 out"
    using assms(13) len count_sigs_view(1) [OF t] by (simp add: has_quorum_def word_le_nat_alt)
  have nq: "\<not> has_quorum st []" using assms(12) by (simp add: has_quorum_def word_le_nat_alt)
  have "\<exists>raw. hex_bytes (cl_hex ?L) (ss_signature s) = Some raw \<and> cl_canonical ?L raw = Some raw" if "s \<in> set out" for s
  proof -
    obtain s' where "s' \<in> set (rc_signatures rc)" "ss_signature s = ss_signature s'"
      using member_signatures_from [OF v(1) x(2) \<open>s \<in> set out\<close>] by blast
    then show ?thesis using au by (auto simp: authentic_def)
  qed
  then obtain arr where "sorted_signatures KL out = Some arr" using canonical_rows_array [OF assms(1)] by blast
  then obtain args where args: "call_arguments KL rc out (rc_chain_id_from rc) = Some args" using stored_arguments [OF x(1)] by blast
  have ag: "agrees_with_gate KL rc domain = None" by (rule stored_agrees [OF assms(1) x assms(7)])
  have plan: "plan_claim KL (an_gate a) rc out domain = Some (Submit (CallClaim args))"
    using call_arguments_Some(1) [OF args] args assms(17,18,19,20) ag x(2) by (simp add: plan_claim_def)
  have ask: "ask_pending a ?sid Transfer st1 = (True, st1, [])"
    using assms(16) v(2) by (simp add: ask_pending_def may_submit_def resent_events_def)
  obtain r st2 tx ev where s: "submit_call a from_addr (rstr ''claim'') ?sid Transfer (CallClaim args) st1 = (r, st2, ev)"
    "Sent (CallClaim args) tx \<in> set ev" using submit_call_takes [OF assms(21)] by blast
  have "Sent (CallClaim args) tx \<in> set (snd (claim_record KL chain domain from_addr allow a rc st))"
    using s by (cases r) (simp_all add: claim_record_def Let_def assms(14,15) t q ask plan)
  moreover have "target_record KL chain domain from_addr allow a rc st = claim_record KL chain domain from_addr allow a rc st"
    by (simp add: target_record_def assms(5,6) c nq)
  ultimately show ?thesis by auto
qed

end
