(* ===== verification/KeeperLoopDemo.thy ===== *)
theory KeeperLoopDemo
  imports KeeperLoopProps
begin

text \<open>
  A destination with validators 1 and 2 and a threshold of two, and a record with their
  signatures among others; under a library that prints numbers as one code point and bytes
  as two, in which a signature of one byte recovers to that number.
\<close>

section \<open>The library\<close>

definition demo_number :: "rust_str \<Rightarrow> 'a::len word option" where
  "demo_number s = (case s of [n] \<Rightarrow> if 1000 \<le> n then Some (of_nat (n - 1000)) else None | _ \<Rightarrow> None)"

definition demo_print :: "'a::len word \<Rightarrow> rust_str" where
  "demo_print w = [unat w + 1000]"

fun keeper_hex :: "rust_str \<Rightarrow> bytes option" where
  "keeper_hex [] = Some []"
| "keeper_hex [_] = None"
| "keeper_hex (a # b # s) =
     (if 48 \<le> a \<and> a < 64 \<and> 48 \<le> b \<and> b < 64
      then map_option ((#) (of_nat ((a - 48) * 16 + (b - 48)))) (keeper_hex s) else None)"

definition keeper_enhex :: "bytes \<Rightarrow> rust_str" where
  "keeper_enhex bs = concat (map (\<lambda>b. [48 + unat b div 16, 48 + unat b mod 16]) bs)"

text \<open>A longer string stands for one hash, the one that everything has here.\<close>

definition demo_b256 :: "rust_str \<Rightarrow> bytes32 option" where
  "demo_b256 s = (if length s = 1 then demo_number s else Some 5)"

definition demo_core :: core_lib where
  "demo_core = \<lparr>cl_keccak = (\<lambda>_. 5), cl_abi = (\<lambda>_. None), cl_hex = keeper_hex, cl_enhex = keeper_enhex,
     cl_b256 = demo_b256, cl_u256 = demo_number, cl_address = demo_number,
     cl_recover = (\<lambda>_ b. case b of [n] \<Rightarrow> Some (ucast n) | _ \<Rightarrow> None),
     cl_canonical = (\<lambda>b. if b = [] then None else Some b)\<rparr>"

definition demo_keeper_lib :: keeper_lib where
  "demo_keeper_lib = \<lparr>kl_core = demo_core, kl_show_address = demo_print, kl_show_b256 = demo_print\<rparr>"

lemma demo_number_print: "demo_number (demo_print w) = Some w"
  by (simp add: demo_number_def demo_print_def)

lemma keeper_hex_enhex: "keeper_hex (keeper_enhex bs) = Some bs"
proof (induction bs)
  case (Cons b bs)
  have "unat b < 2 ^ LENGTH(8)" by (rule unsigned_less)
  then have "unat b div 16 < 16" by simp
  then show ?case using Cons by (simp add: keeper_enhex_def)
qed (simp add: keeper_enhex_def)

lemma keeper_hex_len: "keeper_hex s = Some b \<Longrightarrow> utf8_len s = 2 * length b"
  by (induction s arbitrary: b rule: keeper_hex.induct) (auto simp: utf8_len_def split: if_splits)

lemma demo_number_case:
  assumes "demo_number a = Some x" "demo_number b = Some y" "eq_ignore_case a b"
  shows "x = y"
proof -
  have "\<exists>n. s = [n] \<and> 1000 \<le> n" if "demo_number s = Some z" for s and z :: "'a::len word"
    using that by (auto simp: demo_number_def split: list.splits if_splits)
  then obtain n m where "a = [n]" "b = [m]" "1000 \<le> n" "1000 \<le> m" using assms(1,2) by metis
  then show ?thesis using assms by (simp add: eq_ignore_case_def to_ascii_lowercase_def)
qed

lemma demo_b256_print: "demo_b256 (demo_print w) = Some w"
  by (simp add: demo_b256_def demo_number_print) (simp add: demo_print_def)

lemma demo_b256_case:
  assumes "demo_b256 a = Some x" "demo_b256 b = Some y" "eq_ignore_case a b"
  shows "x = y"
proof -
  have "length a = length b"
    using arg_cong [OF assms(3) [unfolded eq_ignore_case_def to_ascii_lowercase_def], of length] by simp
  then show ?thesis
    using demo_number_case [OF _ _ assms(3), of x y] assms(1,2) by (simp add: demo_b256_def split: if_splits)
qed

lemma demo_keeper_lib_ok: "keeper_lib_ok demo_keeper_lib"
proof -
  have "keeper_enhex b \<noteq> []" if "b \<noteq> []" for b using that by (cases b) (simp_all add: keeper_enhex_def)
  then have "core_lib_ok demo_core"
  proof -
    have "\<forall>a b x y. demo_b256 a = Some x \<longrightarrow> demo_b256 b = Some y \<longrightarrow> eq_ignore_case a b \<longrightarrow> x = y"
      using demo_b256_case by blast
    then show ?thesis using \<open>\<And>b. b \<noteq> [] \<Longrightarrow> keeper_enhex b \<noteq> []\<close>
      by (simp add: core_lib_ok_def demo_core_def keeper_hex_enhex)
  qed
  then show ?thesis
    using keeper_hex_len by (auto simp: keeper_lib_ok_def demo_keeper_lib_def demo_core_def demo_number_print demo_b256_print)
qed

section \<open>Rows\<close>

text \<open>A row labelled \<open>a\<close> whose signature is by \<open>n\<close>.\<close>

definition demo_row :: "address \<Rightarrow> u8 \<Rightarrow> signer_sig" where
  "demo_row a n = \<lparr>ss_signer = demo_print a, ss_signature = keeper_enhex [n]\<rparr>"

lemma keeper_enhex_prefix: "strip_prefix (keeper_enhex bs) (rstr ''0x'') = None"
  by (cases bs) (auto simp: strip_prefix_def starts_with_def rstr_def keeper_enhex_def)

lemma keeper_enhex_bytes: "hex_bytes keeper_hex (keeper_enhex bs) = Some bs"
proof -
  have "keeper_enhex bs = [] \<Longrightarrow> bs = []" by (cases bs) (simp_all add: keeper_enhex_def)
  then show ?thesis by (auto simp: hex_bytes_def Let_def keeper_hex_enhex keeper_enhex_prefix)
qed

lemma keeper_row_verify:
  "verify_attestation demo_core x kind (demo_row a n) = (if ucast n = a then Inr a else Inl (SignerMismatch a (ucast n)))"
  by (simp add: verify_attestation_def verify_signature_def demo_row_def core_hex_bytes_def field_of_def)
    (simp add: demo_core_def keeper_enhex_bytes demo_number_print)

text \<open>One of each validator, a stranger's, and one under another's name.\<close>

definition demo_rows :: "signer_sig list" where
  "demo_rows = [demo_row 2 2, demo_row 9 9, demo_row 1 2, demo_row 1 1]"

definition demo_gate :: gate_reads where
  "demo_gate = \<lparr>kr_executed = (\<lambda>_. Some False), kr_token_of = (\<lambda>_. Some 8), kr_refunded = (\<lambda>_. Some False),
     kr_sent_by = (\<lambda>_. Some 3), kr_refund_to = (\<lambda>_ _. Some 0), kr_is_validator = (\<lambda>a. Some (a \<in> {1, 2})),
     kr_is_validator_again = (\<lambda>a. Some (a \<in> {1, 2})), kr_threshold = Some 2, kr_validator_count = Some 2\<rparr>"

definition demo_view :: keeper_view where
  "demo_view = \<lparr>gw_threshold = 2, gw_validator_count = 2, gw_members = Map.empty, gw_refreshed_at = 0\<rparr>"

lemma demo_signed: "{a \<in> {1, 2}. \<exists>s \<in> set demo_rows. verify_attestation demo_core x kind s = Inr a} = {1, 2}"
  by (auto simp: demo_rows_def keeper_row_verify)

theorem quorum_counts_validators_witness:
  "map (signer_key demo_keeper_lib) (snd (member_signatures demo_keeper_lib demo_gate demo_view (demo_print (5 :: bytes32)) Transfer demo_rows)) = [1, 2]"
proof -
  have "cl_b256 (kl_core demo_keeper_lib) (demo_print (5 :: bytes32)) = Some 5"
    by (simp add: demo_keeper_lib_def demo_core_def demo_b256_print)
  note q = quorum_counts_validators [OF demo_keeper_lib_ok this, of demo_view "{1, 2}" demo_gate Transfer demo_rows]
  have "sorted_list_of_set {1, 2 :: address} = [1, 2]" by simp
  then show ?thesis
    using q demo_signed [of 5 Transfer] by (simp add: demo_view_def demo_gate_def demo_keeper_lib_def)
qed

section \<open>A claim\<close>

definition demo_keeper_record :: submission_record where
  "demo_keeper_record = \<lparr>rc_submission_id = demo_print (5 :: bytes32), rc_bridge_domain = demo_print (1 :: bytes32),
     rc_debridge_id = demo_print (6 :: bytes32), rc_amount = demo_print (10 :: bytes32), rc_bridge_decimals = Some 6,
     rc_chain_id_from = 1, rc_chain_id_to = 7, rc_nonce = 0, rc_receiver = keeper_enhex (replicate 20 3),
     rc_auto_params = [], rc_native_sender = [], rc_token = [], rc_signatures = demo_rows, rc_cancel_signatures = [],
     rc_refund_signatures = []\<rparr>"

definition keeper_demo_answers :: tx_answers where
  "keeper_demo_answers = \<lparr>an_gate = demo_gate,
     an_node = \<lparr>nv_receipt = (\<lambda>_. None), nv_known = (\<lambda>_. None), nv_latest = None, nv_pending = None, nv_estimate = None,
       nv_gas_price = None, nv_send = (\<lambda>_. None), nv_now = 0\<rparr>,
     an_send = \<lparr>sa_pending_nonce = Some 4, sa_gas = (\<lambda>_. Some 90000), sa_fees = Fees \<lparr>fe_max_fee = 100, fe_tip = 2\<rparr>,
       sa_price = None, sa_hash = (\<lambda>_. Some 77), sa_receipt = Receipt True, sa_sent_at = 0\<rparr>,
     an_encode = (\<lambda>_. \<lparr>tr_from = None, tr_to = Some 8, tr_value = None, tr_input = [], tr_nonce = None, tr_gas = None,
       tr_max_fee = None, tr_tip = None, tr_gas_price = None\<rparr>)\<rparr>"

definition keeper_demo_chain :: keeper_chain where
  "keeper_demo_chain = \<lparr>kc_chain_id = 7, kc_routers = [demo_print (4 :: address)], kc_min_claim = []\<rparr>"

definition demo_keeper :: keeper_state where
  "demo_keeper = \<lparr>kp_view = demo_view, kp_pending = [], kp_stranded = [], kp_below = [],
     kp_finalizer = \<lparr>fq_entries = [(demo_print (5 :: bytes32), \<lparr>fq_rec = demo_keeper_record, fq_router = 4, fq_next_at = 0, fq_attempts = 0\<rparr>)],
       fq_seeded_at = Some 0\<rparr>,
     kp_send = \<lparr>sd_tracked = [], sd_head = None, sd_head_checked = None\<rparr>\<rparr>"

lemmas demo_lib_defs = demo_keeper_lib_def demo_core_def

lemma keeper_row_canonical: "core_canonical_signature demo_core (demo_row a n) = Inr \<lparr>ss_signer = demo_print a, ss_signature = rstr ''0x'' @ keeper_enhex [n]\<rparr>"
  by (simp add: core_canonical_signature_def demo_row_def core_hex_bytes_def field_of_def)
    (simp add: demo_core_def keeper_enhex_bytes)

lemma demo_authentic:
  "authenticate_signatures demo_keeper_lib x kind demo_rows = [(2, demo_row 2 2), (9, demo_row 9 9), (1, demo_row 1 1)]"
  by (simp add: authenticate_signatures_def demo_rows_def demo_keeper_lib_def keeper_row_verify)
    (simp add: demo_row_def)

lemma demo_members:
  "member_signatures demo_keeper_lib demo_gate demo_view (demo_print (5 :: bytes32)) Transfer demo_rows =
     (demo_view\<lparr>gw_members := [2 \<mapsto> True, 9 \<mapsto> False, 1 \<mapsto> True]\<rparr>, [demo_row 1 1, demo_row 2 2])"
proof -
  have "cl_b256 (kl_core demo_keeper_lib) (demo_print (5 :: bytes32)) = Some 5"
    by (simp add: demo_lib_defs demo_b256_print)
  then show ?thesis
    by (simp add: member_signatures_def demo_authentic demo_gate_def demo_view_def is_member_def filter_members_def
        is_cached_def word_le_nat_alt)
qed

lemma keeper_bytes_of: "bytes_of demo_keeper_lib (keeper_enhex bs) = Some bs" "bytes_of demo_keeper_lib [] = Some []"
  "bytes_of demo_keeper_lib (rstr ''0x'' @ keeper_enhex bs) = Some bs"
proof -
  show "bytes_of demo_keeper_lib (keeper_enhex bs) = Some bs"
    by (simp add: bytes_of_def demo_lib_defs keeper_enhex_bytes)
  show "bytes_of demo_keeper_lib [] = Some []"
    by (simp add: bytes_of_def demo_lib_defs hex_bytes_def strip_prefix_def starts_with_def rstr_def)
  show "bytes_of demo_keeper_lib (rstr ''0x'' @ keeper_enhex bs) = Some bs"
    using keeper_hex_enhex [of bs]
    by (auto simp: bytes_of_def demo_lib_defs hex_bytes_def Let_def strip_prefix_def starts_with_def)
qed

lemma demo_array: "sorted_signatures demo_keeper_lib [demo_row 1 1, demo_row 2 2] = Some [[1], [2]]"
proof -
  have "signer_key demo_keeper_lib (demo_row a n) = a" for a n
    by (simp add: signer_key_def demo_row_def demo_lib_defs demo_number_print)
  moreover have "core_canonical_signature (kl_core demo_keeper_lib) (demo_row a n) =
      Inr \<lparr>ss_signer = demo_print a, ss_signature = rstr ''0x'' @ keeper_enhex [n]\<rparr>" for a n
    by (simp add: keeper_row_canonical demo_keeper_lib_def)
  ultimately show ?thesis by (simp add: sorted_signatures_def keeper_bytes_of word_le_nat_alt)
qed

definition demo_call :: call_args where
  "demo_call = \<lparr>gca_debridge_id = 6, gca_amount = 10, gca_bridge_decimals = 6, gca_chain = 1, gca_nonce = 0,
     gca_receiver = replicate 20 3, gca_auto_params = [], gca_native_sender = [], gca_signatures = [[1], [2]]\<rparr>"

lemma demo_parse:
  "cl_b256 (kl_core demo_keeper_lib) (demo_print (w :: bytes32)) = Some w"
  "cl_u256 (kl_core demo_keeper_lib) (demo_print (w :: bytes32)) = Some w"
  "cl_b256 demo_core (demo_print (w :: bytes32)) = Some w" "cl_u256 demo_core (demo_print (w :: bytes32)) = Some w"
  by (simp_all add: demo_lib_defs demo_number_print demo_b256_print)

lemma demo_agrees: "agrees_with_gate demo_keeper_lib demo_keeper_record 1 = None"
proof -
  have h: "hex_bytes (cl_hex demo_core) (keeper_enhex bs) = Some bs" "hex_bytes (cl_hex demo_core) [] = Some []" for bs
    using keeper_bytes_of [unfolded bytes_of_def] by (simp_all add: demo_keeper_lib_def)
  have "gate_submission_id demo_keeper_lib demo_keeper_record 1 = Inr 5"
    by (simp add: gate_submission_id_def canonical_submission_id_def demo_keeper_record_def demo_keeper_lib_def demo_parse
        field_of_def core_hex_bytes_def h decode_auto_params_def Let_def)
      (simp add: core_submission_id_def demo_core_def Let_def)
  then show ?thesis by (simp add: agrees_with_gate_def demo_parse) (simp add: demo_keeper_record_def demo_parse)
qed

lemma keeper_demo_plan:
  "plan_claim demo_keeper_lib demo_gate demo_keeper_record [demo_row 1 1, demo_row 2 2] 1 = Some (Submit (CallClaim demo_call))"
proof -
  have f: "rc_submission_id demo_keeper_record = demo_print (5 :: bytes32)" "rc_debridge_id demo_keeper_record = demo_print (6 :: bytes32)"
    "rc_amount demo_keeper_record = demo_print (10 :: bytes32)" "rc_bridge_decimals demo_keeper_record = Some 6"
    "rc_receiver demo_keeper_record = keeper_enhex (replicate 20 3)" "rc_auto_params demo_keeper_record = []"
    "rc_native_sender demo_keeper_record = []" "rc_chain_id_from demo_keeper_record = 1" "rc_nonce demo_keeper_record = 0"
    by (simp_all add: demo_keeper_record_def)
  have g: "kr_executed demo_gate x = Some False" "kr_token_of demo_gate x = Some 8" for x by (simp_all add: demo_gate_def)
  have "evm_receiver_decodable (keeper_enhex (replicate 20 3))"
    by (simp add: evm_receiver_decodable_def keeper_enhex_prefix keeper_hex_len [OF keeper_hex_enhex])
  then show ?thesis
    by (simp add: plan_claim_def call_arguments_def f g demo_parse demo_agrees keeper_bytes_of demo_array demo_call_def)
qed

lemma demo_claimed:
  "\<exists>st ev tx. target_record demo_keeper_lib keeper_demo_chain 1 3 None keeper_demo_answers demo_keeper_record demo_keeper = (st, ev) \<and>
     Sent (CallClaim demo_call) tx \<in> set ev"
proof -
  have f: "rc_submission_id demo_keeper_record = demo_print (5 :: bytes32)" "rc_cancel_signatures demo_keeper_record = []"
    "rc_signatures demo_keeper_record = demo_rows" "rc_chain_id_to demo_keeper_record = 7" "kc_chain_id keeper_demo_chain = 7"
    by (simp_all add: demo_keeper_record_def keeper_demo_chain_def)
  have g: "an_gate keeper_demo_answers = demo_gate" "kp_view demo_keeper = demo_view" "kp_pending demo_keeper = []"
    by (simp_all add: keeper_demo_answers_def demo_keeper_def)
  have c: "count_sigs demo_keeper_lib keeper_demo_answers (demo_print (5 :: bytes32)) Cancelling [] demo_keeper = (demo_keeper, [])"
    by (simp add: count_sigs_def member_signatures_def g demo_parse authenticate_signatures_def filter_members_def)
  define st1 where "st1 = demo_keeper\<lparr>kp_view := demo_view\<lparr>gw_members := [2 \<mapsto> True, 9 \<mapsto> False, 1 \<mapsto> True]\<rparr>\<rparr>"
  have t: "count_sigs demo_keeper_lib keeper_demo_answers (demo_print (5 :: bytes32)) Transfer demo_rows demo_keeper =
      (st1, [demo_row 1 1, demo_row 2 2])" "gw_threshold (kp_view st1) = 2" "kp_pending st1 = []"
    by (simp_all add: count_sigs_def g demo_members st1_def) (simp add: demo_view_def)
  have b: "below_min_claim demo_keeper_lib keeper_demo_chain demo_keeper_record = None"
    by (simp add: below_min_claim_def demo_keeper_record_def min_claim_wire_def keeper_demo_chain_def)
  have p: "ask_pending keeper_demo_answers i k st1 = (True, st1, [])" for i k
    using t(3) by (simp add: ask_pending_def may_submit_def resent_events_def)
  have "\<exists>st2 tx hash. submit_call keeper_demo_answers 3 (rstr ''claim'') i k call st1 = (Some hash, st2, [Sent call tx])" for i k call
    by (simp add: submit_call_def confirm_def populate_def keeper_demo_answers_def Let_def)
  then obtain st2 tx hash where s: "submit_call keeper_demo_answers 3 (rstr ''claim'') (demo_print (5 :: bytes32)) Transfer (CallClaim demo_call) st1 =
      (Some hash, st2, [Sent (CallClaim demo_call) tx])" by blast
  show ?thesis
    by (simp add: target_record_def claim_record_def f c b t(1) p g keeper_demo_plan s has_quorum_def t(2) Let_def allowlist_permits_def
        demo_view_def)
qed

theorem keeper_calls_acceptable_witness:
  "gate_id (kl_core demo_keeper_lib) 1 (kc_chain_id keeper_demo_chain) Transfer demo_call = Some 5 \<and>
   quorum_array demo_keeper_lib demo_gate demo_view Transfer 5 [[1], [2]]"
proof -
  obtain st ev tx where s: "target_record demo_keeper_lib keeper_demo_chain 1 3 None keeper_demo_answers demo_keeper_record demo_keeper = (st, ev)"
    "Sent (CallClaim demo_call) tx \<in> set ev" using demo_claimed by blast
  obtain x where "call_ok demo_keeper_lib 1 (kc_chain_id keeper_demo_chain) demo_gate demo_view demo_keeper_record Transfer demo_call x"
    using keeper_calls_acceptable [OF demo_keeper_lib_ok s]
    by (auto simp: keeper_demo_answers_def demo_keeper_def)
  then show ?thesis by (auto simp: call_ok_def demo_keeper_record_def demo_parse demo_call_def)
qed

section \<open>A delivery\<close>

definition demo_tick :: tick_input where
  "demo_tick = \<lparr>ti_gate = demo_gate, ti_node = (an_node keeper_demo_answers)\<lparr>nv_now := 1000\<rparr>, ti_allowlist = None, ti_records = None,
     ti_deliveries = (\<lambda>_. (keeper_demo_answers, \<lparr>dr_finalized = Some False, dr_cancelled = Some False, dr_executed = Some True,
       dr_owner = Some 1, dr_guardian = Some 1, dr_finalized_after = Some True\<rparr>)),
     ti_file_backed = False, ti_history = None, ti_load = (\<lambda>_. None)\<rparr>"

theorem finalizes_only_deliveries_witness:
  "\<exists>st' ev. finalize_tick demo_keeper_lib keeper_demo_chain 3 demo_tick demo_keeper = (st', ev) \<and> queue_ok [4] (kp_finalizer st') \<and>
    length ev \<le> 4"
proof -
  have r: "router_addresses demo_keeper_lib keeper_demo_chain = [4]"
    by (simp add: router_addresses_def keeper_demo_chain_def demo_lib_defs demo_number_print List.map_filter_def)
  obtain st' ev where f: "finalize_tick demo_keeper_lib keeper_demo_chain 3 demo_tick demo_keeper = (st', ev)" by fastforce
  have "queue_ok (router_addresses demo_keeper_lib keeper_demo_chain) (kp_finalizer demo_keeper)"
    unfolding r by (simp add: queue_ok_def demo_keeper_def)
  from finalizes_only_deliveries [OF this f] show ?thesis using f r by auto
qed

end
