(* ===== verification/KeeperStoreDemo.thy ===== *)
theory KeeperStoreDemo
  imports KeeperStore KeeperLoopDemo CoreStoreDemo
begin

text \<open>The record of the demonstration, posted by each of the two validators in turn, and the keeper's treatment of it.\<close>

definition demo_posted :: submission_record where
  "demo_posted = demo_keeper_record\<lparr>rc_submission_id := demo_stored_id, rc_signatures := []\<rparr>"

definition demo_kept :: "address \<Rightarrow> u8 \<Rightarrow> signer_sig" where
  "demo_kept a n = \<lparr>ss_signer = demo_print a, ss_signature = rstr ''0x'' @ keeper_enhex [n]\<rparr>"

lemma demo_posted_fields:
  "rc_submission_id demo_posted = demo_stored_id" "rc_bridge_domain demo_posted = demo_print (1 :: bytes32)"
  "rc_debridge_id demo_posted = demo_print (6 :: bytes32)" "rc_amount demo_posted = demo_print (10 :: bytes32)"
  "rc_bridge_decimals demo_posted = Some 6" "rc_receiver demo_posted = keeper_enhex (replicate 20 3)"
  "rc_auto_params demo_posted = []" "rc_native_sender demo_posted = []" "rc_token demo_posted = []"
  "rc_signatures demo_posted = []" "rc_cancel_signatures demo_posted = []" "rc_refund_signatures demo_posted = []"
  "rc_chain_id_to demo_posted = 7"
  by (simp_all add: demo_posted_def demo_keeper_record_def)

lemma demo_stored_id_b256: "cl_b256 demo_core demo_stored_id = Some 5"
  by (simp add: demo_core_def demo_b256_def demo_stored_id_def)

lemma demo_posted_id: "canonical_submission_id demo_core demo_posted = Inr 5"
proof -
  have h: "hex_bytes (cl_hex demo_core) (keeper_enhex bs) = Some bs" "hex_bytes (cl_hex demo_core) [] = Some []" for bs
    using keeper_bytes_of [unfolded bytes_of_def] by (simp_all add: demo_keeper_lib_def)
  show ?thesis
    by (simp add: canonical_submission_id_def demo_posted_fields demo_parse field_of_def core_hex_bytes_def h
        decode_auto_params_def Let_def)
      (simp add: core_submission_id_def demo_core_def Let_def)
qed

lemma demo_checked_row:
  assumes "ucast n = a"
  shows "check_incoming demo_core demo_posted (demo_row a n) = Inr (demo_kept a n)"
proof -
  have v: "verify_signature demo_core 5 (demo_row a n) = Inr a"
    using keeper_row_verify [of 5 Transfer a n] assms by (simp add: verify_attestation_def digest_of_def)
  have s: "check_storable demo_posted"
  proof -
    have "length (keeper_enhex bs) = 2 * length bs" for bs by (induction bs) (simp_all add: keeper_enhex_def)
    moreover have "length (demo_print w) = 1" "strip_prefix (demo_print w) (rstr ''0x'') = None" for w :: bytes32
      by (simp_all add: demo_print_def strip_prefix_def starts_with_def rstr_def)
    moreover have "strip_prefix [] (rstr ''0x'') = None" by (simp add: strip_prefix_def starts_with_def rstr_def)
    ultimately show ?thesis
      by (simp add: check_storable_def bounded_hex_def demo_posted_fields MAX_ACCOUNT_BYTES_def MAX_AUTO_PARAMS_BYTES_def
          MAX_UINT256_DECIMAL_LEN_def keeper_enhex_prefix)
  qed
  have t: "verify_token_binding demo_core demo_posted = Inr ()" by (simp add: verify_token_binding_def demo_posted_fields)
  show ?thesis
    by (simp add: check_incoming_def demo_posted_fields(1) demo_stored_id_valid s demo_posted_id demo_stored_id_b256 field_of_def v t
        keeper_row_canonical demo_kept_def)
qed

definition demo_held :: submission_record where
  "demo_held = demo_posted\<lparr>rc_signatures := [demo_kept 1 1, demo_kept 2 2]\<rparr>"

lemma demo_held_stored:
  "\<exists>d. store_run demo_core (\<lambda>_. None) [demo_posted, demo_posted] d \<and> d demo_stored_id = Some (Parsed demo_held)"
proof -
  let ?d1 = "[demo_stored_id \<mapsto> Parsed (demo_posted\<lparr>rc_signatures := [demo_kept 1 1]\<rparr>)]"
  have 1: "upsert_signature demo_core Written demo_posted (demo_row 1 1) (\<lambda>_. None) =
      (Inr (demo_posted\<lparr>rc_signatures := [demo_kept 1 1]\<rparr>), ?d1)"
    by (simp add: upsert_signature_def demo_checked_row demo_posted_fields(1,10) demo_stored_id_valid push_capped_def
        MAX_SIGNATURES_PER_SUBMISSION_def write_record_def)
  have m: "same_params (demo_posted\<lparr>rc_signatures := [demo_kept 1 1]\<rparr>) demo_posted"
    "merge_existing (demo_posted\<lparr>rc_signatures := [demo_kept 1 1]\<rparr>) demo_posted = demo_posted\<lparr>rc_signatures := [demo_kept 1 1]\<rparr>"
    by (simp_all add: same_params_def eq_ignore_case_def merge_existing_def demo_posted_def demo_keeper_record_def)
  have n: "\<not> eq_ignore_case (ss_signer (demo_kept 1 1)) (ss_signer (demo_kept 2 2))"
    by (simp add: eq_ignore_case_def demo_kept_def demo_print_def to_ascii_lowercase_def)
  have 2: "upsert_signature demo_core Written demo_posted (demo_row 2 2) ?d1 =
      (Inr demo_held, ?d1(demo_stored_id \<mapsto> Parsed demo_held))"
    by (simp add: upsert_signature_def demo_checked_row demo_posted_fields(1) demo_stored_id_valid m push_capped_def n
        MAX_SIGNATURES_PER_SUBMISSION_def write_record_def demo_held_def)
  have "store_run demo_core (\<lambda>_. None) [demo_posted, demo_posted] (?d1(demo_stored_id \<mapsto> Parsed demo_held))"
    using run_step [OF run_step [OF run_refl upsert [OF 1]] upsert [OF 2]] by simp
  then show ?thesis by (intro exI [of _ "?d1(demo_stored_id \<mapsto> Parsed demo_held)"]) simp
qed

theorem stored_quorum_claimed_witness:
  "\<exists>c tx. Sent (CallClaim c) tx \<in>
     set (snd (target_record demo_keeper_lib keeper_demo_chain 1 3 None keeper_demo_answers demo_held demo_keeper))"
proof -
  obtain d where d: "store_run (kl_core demo_keeper_lib) (\<lambda>_. None) [demo_posted, demo_posted] d"
    "d demo_stored_id = Some (Parsed demo_held)"
    using demo_held_stored by (auto simp: demo_keeper_lib_def)
  have bare: "bare p" if "p \<in> set [demo_posted, demo_posted]" for p
    using that by (simp add: bare_def bucket_of_def demo_posted_fields split: sig_kind.split)
  have f: "rc_chain_id_to demo_held = kc_chain_id keeper_demo_chain" "rc_cancel_signatures demo_held = []"
    "cl_b256 (kl_core demo_keeper_lib) (rc_bridge_domain demo_held) = Some 1"
    "below_min_claim demo_keeper_lib keeper_demo_chain demo_held = None"
    "allowlist_permits None (rc_debridge_id demo_held) (rc_chain_id_from demo_held) (rc_chain_id_to demo_held)"
    "map_of (kp_pending demo_keeper) (rc_submission_id demo_held, Transfer) = None"
    by (simp_all add: demo_held_def demo_posted_fields keeper_demo_chain_def demo_parse below_min_claim_def min_claim_wire_def
        allowlist_permits_def demo_keeper_def)
  have r: "evm_receiver_decodable (rc_receiver demo_held)"
    by (simp add: demo_held_def demo_posted_fields evm_receiver_decodable_def keeper_enhex_prefix keeper_hex_len [OF keeper_hex_enhex])
  have g: "kr_is_validator (an_gate keeper_demo_answers) b = Some (b \<in> {1, 2})" "kr_executed (an_gate keeper_demo_answers) x = Some False"
    "kr_token_of (an_gate keeper_demo_answers) x = Some 8" for b x by (simp_all add: keeper_demo_answers_def demo_gate_def)
  have v: "gw_members (kp_view demo_keeper) b = None" "gw_validator_count (kp_view demo_keeper) = 2"
    "unat (gw_threshold (kp_view demo_keeper)) = 2" for b by (simp_all add: demo_keeper_def demo_view_def)
  have "{b \<in> {1, 2}. \<exists>s \<in> set (rc_signatures demo_held). cl_address (kl_core demo_keeper_lib) (ss_signer s) = Some b} = {1, 2}"
    by (auto simp: demo_held_def demo_kept_def demo_keeper_lib_def demo_core_def demo_number_print)
  then have q: "unat (gw_threshold (kp_view demo_keeper)) \<le>
      card {b \<in> {1, 2}. \<exists>s \<in> set (rc_signatures demo_held). cl_address (kl_core demo_keeper_lib) (ss_signer s) = Some b}"
    using v(3) by simp
  have n: "node_takes (an_send keeper_demo_answers)" by (simp add: node_takes_def keeper_demo_answers_def)
  show ?thesis
    by (rule stored_quorum_claimed [OF demo_keeper_lib_ok d(1) bare d(2) f(1,2,3) _ g(1) _ _ _ q f(4,5,6) r g(2,3) _ n])
      (simp_all add: v)
qed

end
