(* ===== verification/Spec2Isabelle.thy ===== *)
theory Spec2Isabelle
  imports GateTimelock GateWire SwapWitness RelayerQuorum RelayerRefundDemo ValidatorCursorDemo ValidatorRefundDemo
    CoreStoreDemo KeeperDemo KeeperStoreDemo
begin

text \<open>
  Verification of the Selendra bridge.

  The program. A transfer is locked by a gate on its source chain, which emits an event.
  Validators read the event, check that its id is the hash of its fields, and store a
  signature of the id. A keeper (to EVM chains) or a relayer (to Solana) presents a quorum of
  the signatures to the gate of the destination, which pays out once. A transfer that is not
  delivered in time is burned at the destination and then returned at the source, each by a
  quorum of its own. A swap pool with posted prices trades the bridged tokens. The paths
  below are relative to src/crates.

  The library. Prelude: machine integers, checked and saturating operations, results with
  errors (\<open>bind_res\<close>), bytes. RustStr: the strings of the Rust library. Borsh: the wire
  format, with the locale \<open>borsh_codec\<close> (what is read back is what was written, and nothing
  else is accepted) and an interpretation for every type that is encoded. Runtime: accounts,
  the account list, errors, and the services of the Solana runtime as the fields of \<open>env\<close>.
  Traces: histories of a step relation, with the locales \<open>preserved\<close> and
  \<open>monotone_along\<close>, interpreted for the invariants of the programs. DemoRuntime: a concrete
  runtime for the witnesses.

  The gate program (solana-gate/src/lib.rs). GateTypes, GateCodec: accounts, instructions,
  events, errors, their encoding. GateHash: the preimages of the ids byte by byte.
  GateVerify: the loop over the signatures. GateRules, GateAccounts: the pure rules and the
  account operations. GateHandlers: every handler, with its checks in the order of the
  source, and \<open>gate_step\<close>, the entry point. GateRun: histories, with steps of other
  programs in between. Lemmas: GateSuccess, GateAdminSuccess (what the success of a handler
  implies), GateStore, GateWrites (what a step may write), GateReplay, GateFunds,
  GateRefunds, GateSends (what a claim, refund, send guarantees), GateAssets (the registry),
  GateConfig, GateSize, GateSafety (refinement of the abstract configuration machine, its
  invariant), GateTimelock (weakening changes were scheduled), GateWire (ids, instructions,
  error paths).

  The swap program (swap-math, solana-swap). SwapMath: the price rule with its 256-bit
  intermediate, against exact integers. Refresh: planned price updates. SwapTypes,
  SwapHandlers: instructions and handlers. SwapSuccess, SwapState, SwapPool (refinement of
  the abstract pool machine), SwapSafety, SwapSolvency, SwapProps; witnesses in SwapDemo,
  SwapWitness.

  The Solana relayer (bridge-solana, solana-relayer, bridge-core). HostIds, HostAbi,
  HostVerify, HostEvents, HostLogs: ids, execution payloads, signatures, event lines and
  their attribution as the off-chain code computes them, against the program. RelayerScan,
  RelayerOrigin, RelayerOriginProps, RelayerPages: the scanner (source.rs, state.rs), what it
  signs and what it cannot miss. RelayerTarget, RelayerQuorum: the submitter (target.rs,
  gate.rs) and that the gate accepts and executes what it builds. EvmReader, RelayerRefund,
  RelayerRefundProps, RelayerRefundDemo: the reader of EVM gates (evm.rs) and the refund
  attester (refund.rs).

  The validator (validator, bridge-core). ValidatorLogs, ValidatorReads: reading a chain
  through several endpoints of which some lie (provider.rs, bridge-core/src/scan.rs).
  ValidatorScan, ValidatorScanProps, ValidatorCursor: the persisted cursor with its nonces and
  its safety stop, the handling of an event, one turn of the loop (main.rs, state.rs,
  bridge-core/src/allow.rs). ValidatorRefund, ValidatorRefundProps: the refund attester
  (refund.rs) with the walk of the queue (bridge-core/src/backend.rs). Witnesses in
  ValidatorDemo, ValidatorCursorDemo, ValidatorRefundDemo.

  The signature store (bridge-core/src/store.rs). CoreStore: a directory of records, the two
  writers, with every way a write can end. CoreStoreProps: what the readers of the store may
  rely on, over any sequence of writes of any records: what a record was first posted with
  is kept as it came, what is added later is checked. Witnesses in CoreStoreDemo.

  The keeper (keeper). KeeperTx: transactions whose receipt does not arrive, their
  replacement, the stalled head of the queue. KeeperClaim: the signatures that are counted,
  the gate's id, the calls and their sending. KeeperLoop: the two loops record by record and
  tick by tick, the claim floor (config.rs), the deliveries to finalize (finalize.rs).
  KeeperTxProps, KeeperClaimProps, KeeperLoopProps: bounds on replacements, exact counting of
  validators, what is sent. KeeperStore: with the store of CoreStore, a stored quorum is
  claimed. Witnesses in KeeperDemo, KeeperLoopDemo, KeeperStoreDemo.

  State and effects. An account, a file of the store, a cursor are values that a definition
  takes and returns; errors are values of a sum or an option; a loop over a network is one
  turn of it, as a function of the answers; histories are inductive relations. Integers keep
  their width. Times of the off-chain programs are milliseconds.

  Parameters: code that is not in the repository. The hash, the secp256k1 recovery, the
  derivation of program addresses, the token and system programs and the clock (fields of
  \<open>env\<close>); the decoders of hexadecimal, base64, numbers, addresses and the ABI, and the
  canonical form of a signature (\<open>core_lib\<close>, \<open>keeper_lib\<close>, \<open>recovery\<close>); the
  answers of nodes, endpoints, gates and of the store's service. What is assumed of them is
  said where it is used, as a named hypothesis that a witness discharges for a concrete
  instance: \<open>runtime_ok\<close>, \<open>apart\<close> (derived addresses do not collide), injectivity
  of the hash on the preimages in question, \<open>swap_trusted\<close>, \<open>swap_apart\<close>,
  \<open>signers_ok\<close>, \<open>recovery_agrees\<close>, \<open>core_lib_ok\<close>, \<open>keeper_lib_ok\<close>,
  \<open>b64_ok\<close>, \<open>hex_ok\<close> (printers and parsers agree); and of the world: \<open>truthful\<close>,
  \<open>replies_true\<close>, \<open>good_answers\<close>, \<open>serves\<close>, \<open>serves_queue\<close>,
  \<open>clock_sane\<close>, \<open>honest\<close>, \<open>endpoint_true\<close>, \<open>one_liar\<close> (all but one
  endpoint of a chain answer as the chain is; two must agree where it is used, which is said
  there), \<open>in_order\<close> (the nonces of a corridor are consecutive), \<open>payout_ready\<close> (nothing
  but the signatures stands between a transfer and its payout), \<open>bare\<close> (a record is posted
  without signatures of its own), \<open>populated\<close>, \<open>node_takes\<close>.

  Bounds and fuel. Loops that are bounded in the source have the source's bound as fuel: the
  pages of a scan (MAX_PAGES), the steps back of an age search (24), the pages of a queue
  walk (20 of 500), the replacements of a transaction (5), the finalize attempts of a tick
  (4). The other recursions are structural or have a measure; no definition is partial.

  Not modelled. The EVM contracts (Solidity; their part of the interface is a parameter of
  the keeper, the validator and the relayer). The services around SQL and HTTP: sig-store,
  graphql-api, indexer, bridge-db, whose logic is in their queries and routes. The
  price-keeper's loop around the plan of Refresh. log-scrub (regular expressions over log
  text). Start-up, configuration files, connecting to and probing of endpoints, logging, the
  sleeps of the loops. The frontend and the deployment.
\<close>

end
